(* ===== verification/Prelude.thy ===== *)
theory Prelude
  imports Main "HOL-Library.Word" "HOL-Library.AList" "HOL-Library.List_Lexorder"
    "HOL-Library.Char_ord" "HOL-Library.Product_Lexorder"
begin

text \<open>
  Shared vocabulary of the development. Python \<^verbatim>\<open>bytes\<close> are lists of 8-bit words, ASCII
  \<^verbatim>\<open>str\<close> values are Isabelle strings, a raised exception is the left side of a sum, and a
  \<^verbatim>\<open>dict\<close> is an association list in insertion order (updating an existing key keeps its
  place, a new key goes to the end), which is what \<open>AList.update\<close> does. The orders on bytes,
  strings and tuples are Python's lexicographic ones.
\<close>

named_theorems res_simps \<open>rewrite rules for the exception monad\<close>
named_theorems dict_simps \<open>rewrite rules for insertion-ordered dictionaries\<close>
named_theorems bytes_simps \<open>lengths and values of byte encodings\<close>

section \<open>Types of the source language\<close>

type_synonym byte = "8 word"
type_synonym bytes = "byte list"

type_synonym ('e, 'a) res = "'e + 'a"

definition ascii :: "string \<Rightarrow> bytes" where
  "ascii s = map (\<lambda>c. of_nat (of_char c)) s"

lemma length_ascii [simp, bytes_simps]: "length (ascii s) = length s"
  by (simp add: ascii_def)

lemma ascii_eq_Nil [simp]: "ascii s = [] \<longleftrightarrow> s = []"
  by (simp add: ascii_def)

section \<open>Exceptions as sums\<close>

definition bindE :: "('e, 'a) res \<Rightarrow> ('a \<Rightarrow> ('e, 'b) res) \<Rightarrow> ('e, 'b) res" where
  "bindE m f = (case m of Inl e \<Rightarrow> Inl e | Inr x \<Rightarrow> f x)"

text \<open>\<^verbatim>\<open>if cond: raise e\<close> followed by the rest of the function body.\<close>

definition guardE :: "bool \<Rightarrow> 'e \<Rightarrow> ('e, unit) res" where
  "guardE bad e = (if bad then Inl e else Inr ())"

lemma bindE_Inl [simp, res_simps]: "bindE (Inl e) f = Inl e"
  by (simp add: bindE_def)

lemma bindE_Inr [simp, res_simps]: "bindE (Inr x) f = f x"
  by (simp add: bindE_def)

lemma bindE_eq_Inr [res_simps]: "bindE m f = Inr y \<longleftrightarrow> (\<exists>x. m = Inr x \<and> f x = Inr y)"
  by (cases m) auto

lemma bindE_eq_Inl [res_simps]:
  "bindE m f = Inl e \<longleftrightarrow> m = Inl e \<or> (\<exists>x. m = Inr x \<and> f x = Inl e)"
  by (cases m) auto

lemma guardE_Inr [simp, res_simps]: "guardE bad e = Inr u \<longleftrightarrow> \<not> bad"
  by (simp add: guardE_def)

lemma guardE_Inl [simp, res_simps]: "guardE bad e = Inl e' \<longleftrightarrow> bad \<and> e' = e"
  by (auto simp: guardE_def)

lemma bindE_guardE [simp]: "bindE (guardE bad e) f = (if bad then Inl e else f ())"
  by (simp add: guardE_def)

lemma bindE_assoc: "bindE (bindE m f) g = bindE m (\<lambda>x. bindE (f x) g)"
  by (cases m) auto

lemma bindE_cong [fundef_cong]:
  "m = m' \<Longrightarrow> (\<And>x. m' = Inr x \<Longrightarrow> f x = f' x) \<Longrightarrow> bindE m f = bindE m' f'"
  by (cases m') auto

text \<open>An error of a callee seen through the caller's error type.\<close>

definition liftE :: "('e \<Rightarrow> 'f) \<Rightarrow> ('e, 'a) res \<Rightarrow> ('f, 'a) res" where
  "liftE h m = (case m of Inl e \<Rightarrow> Inl (h e) | Inr x \<Rightarrow> Inr x)"

lemma liftE_simps [simp, res_simps]: "liftE h (Inl e) = Inl (h e)" "liftE h (Inr x) = Inr x"
  by (simp_all add: liftE_def)

lemma liftE_eq_Inr [simp, res_simps]: "liftE h m = Inr x \<longleftrightarrow> m = Inr x"
  by (cases m) auto

section \<open>Loops that may raise\<close>

text \<open>A \<^verbatim>\<open>for\<close> loop over a list whose body updates a state or raises.\<close>

fun foldE :: "('a \<Rightarrow> 's \<Rightarrow> ('e, 's) res) \<Rightarrow> 'a list \<Rightarrow> 's \<Rightarrow> ('e, 's) res" where
  "foldE f [] s = Inr s"
| "foldE f (x # xs) s = bindE (f x s) (foldE f xs)"

lemma foldE_cong [fundef_cong]:
  "xs = ys \<Longrightarrow> s = t \<Longrightarrow> (\<And>x s. x \<in> set ys \<Longrightarrow> f x s = g x s) \<Longrightarrow> foldE f xs s = foldE g ys t"
  by (induction ys arbitrary: xs s t) (auto simp: bindE_def split: sum.splits)

lemma foldE_append: "foldE f (xs @ ys) s = bindE (foldE f xs s) (foldE f ys)"
  by (induction xs arbitrary: s) (auto simp: bindE_def split: sum.splits)

text \<open>
  The loop rule: an invariant over the items already done and the state holds at the end
  if the first state has it and each successful pass of the body keeps it.
\<close>

lemma foldE_rule:
  assumes run: "foldE f xs s = Inr s'"
    and init: "P [] s"
    and step: "\<And>done x todo s t. xs = done @ x # todo \<Longrightarrow> P done s \<Longrightarrow> f x s = Inr t \<Longrightarrow>
      P (done @ [x]) t"
  shows "P xs s'"
proof -
  have "foldE f ys t = Inr s' \<Longrightarrow> xs = zs @ ys \<Longrightarrow> P zs t \<Longrightarrow> P xs s'" for ys zs t
  proof (induction ys arbitrary: zs t)
    case Nil
    then show ?case by simp
  next
    case (Cons y ys)
    from Cons.prems(1) obtain u where u: "f y t = Inr u" and rest: "foldE f ys u = Inr s'"
      by (auto simp: bindE_eq_Inr)
    from Cons.prems(2,3) u have "P (zs @ [y]) u" by (intro step) auto
    with Cons.IH [OF rest, of "zs @ [y]"] Cons.prems(2) show ?case by simp
  qed
  from this [of xs s "[]"] run init show ?thesis by simp
qed

lemma foldE_inv:
  assumes "foldE f xs s = Inr s'" and "P s"
    and "\<And>x s t. x \<in> set xs \<Longrightarrow> P s \<Longrightarrow> f x s = Inr t \<Longrightarrow> P t"
  shows "P s'"
  using assms(1) by (rule foldE_rule [where P = "\<lambda>_. P"]) (use assms(2,3) in auto)

text \<open>A loop that raises does so in the body, at a state the invariant holds of.\<close>

lemma foldE_error:
  assumes run: "foldE f xs s = Inl e"
    and init: "P [] s"
    and step: "\<And>done x todo s t. xs = done @ x # todo \<Longrightarrow> P done s \<Longrightarrow> f x s = Inr t \<Longrightarrow>
      P (done @ [x]) t"
  obtains seen x todo t where "xs = seen @ x # todo" and "P seen t" and "f x t = Inl e"
proof -
  have "foldE f ys t = Inl e \<Longrightarrow> xs = zs @ ys \<Longrightarrow> P zs t \<Longrightarrow>
      \<exists>seen x todo t. xs = seen @ x # todo \<and> P seen t \<and> f x t = Inl e" for ys zs t
  proof (induction ys arbitrary: zs t)
    case Nil
    then show ?case by simp
  next
    case (Cons y ys)
    show ?case
    proof (cases "f y t")
      case (Inl e')
      with Cons.prems show ?thesis by auto
    next
      case (Inr u)
      with Cons.prems have "P (zs @ [y]) u" by (intro step) auto
      with Cons.IH [of u "zs @ [y]"] Cons.prems Inr show ?thesis by simp
    qed
  qed
  from this [of xs s "[]"] run init that show thesis by auto
qed

text \<open>A loop that only checks.\<close>

lemma foldE_unit_all:
  "foldE (\<lambda>x _. f x) xs () = Inr () \<longleftrightarrow> (\<forall>x \<in> set xs. f x = Inr ())"
  by (induction xs) (auto simp: bindE_eq_Inr)

text \<open>\<^verbatim>\<open>[f(x) for x in xs]\<close> where the element function may raise.\<close>

fun mapE :: "('a \<Rightarrow> ('e, 'b) res) \<Rightarrow> 'a list \<Rightarrow> ('e, 'b list) res" where
  "mapE f [] = Inr []"
| "mapE f (x # xs) = bindE (f x) (\<lambda>y. bindE (mapE f xs) (\<lambda>ys. Inr (y # ys)))"

lemma mapE_eq_Inr: "mapE f xs = Inr ys \<longleftrightarrow> list_all2 (\<lambda>x y. f x = Inr y) xs ys"
  by (induction xs arbitrary: ys) (auto simp: bindE_eq_Inr list_all2_Cons1)

lemma mapE_Inr [simp]: "mapE (\<lambda>x. Inr (f x)) xs = Inr (map f xs)"
  by (induction xs) auto

section \<open>Insertion-ordered dictionaries\<close>

type_synonym ('k, 'v) dict = "('k \<times> 'v) list"

abbreviation dget :: "('k, 'v) dict \<Rightarrow> 'k \<Rightarrow> 'v option" where
  "dget d k \<equiv> map_of d k"

abbreviation dset :: "'k \<Rightarrow> 'v \<Rightarrow> ('k, 'v) dict \<Rightarrow> ('k, 'v) dict" where
  "dset k v d \<equiv> AList.update k v d"

abbreviation dkeys :: "('k, 'v) dict \<Rightarrow> 'k set" where
  "dkeys d \<equiv> fst ` set d"

text \<open>A Python dictionary holds each key once.\<close>

definition dict_ok :: "('k, 'v) dict \<Rightarrow> bool" where
  "dict_ok d \<longleftrightarrow> distinct (map fst d)"

lemma dict_ok_Nil [simp]: "dict_ok []"
  by (simp add: dict_ok_def)

lemma dict_ok_dset [simp, intro]: "dict_ok d \<Longrightarrow> dict_ok (dset k v d)"
  by (simp add: dict_ok_def distinct_update)

lemma dget_dset [simp, dict_simps]: "dget (dset k v d) k' = (if k' = k then Some v else dget d k')"
  by (simp add: update_conv')

lemma dkeys_dset [simp, dict_simps]: "dkeys (dset k v d) = insert k (dkeys d)"
  by (simp add: dom_map_of_conv_image_fst [symmetric] update_conv')

lemma dget_None [dict_simps]: "dget d k = None \<longleftrightarrow> k \<notin> dkeys d"
  by (simp add: map_of_eq_None_iff)

lemma dget_in_dkeys: "dget d k = Some v \<Longrightarrow> k \<in> dkeys d"
  by (metis dget_None option.distinct(1))

lemma dkeys_ex: "k \<in> dkeys d \<longleftrightarrow> (\<exists>v. dget d k = Some v)"
  by (metis dget_None not_Some_eq)

lemma dict_ok_get: "dict_ok d \<Longrightarrow> (k, v) \<in> set d \<longleftrightarrow> dget d k = Some v"
  by (auto simp: dict_ok_def)

lemma length_dset: "length (dset k v d) = (if k \<in> dkeys d then length d else Suc (length d))"
  by (induction d) auto

lemma dict_ok_length: "dict_ok d \<Longrightarrow> length d = card (dkeys d)"
  by (metis dict_ok_def distinct_card length_map list.set_map)

section \<open>Sorted views of sets\<close>

text \<open>\<^verbatim>\<open>sorted(set(xs))\<close>.\<close>

definition sorted_set :: "'a::linorder list \<Rightarrow> 'a list" where
  "sorted_set xs = sort (remdups xs)"

lemma set_sorted_set [simp]: "set (sorted_set xs) = set xs"
  by (simp add: sorted_set_def)

lemma sorted_set_sorted [simp]: "sorted (sorted_set xs)"
  by (simp add: sorted_set_def)

lemma sorted_set_distinct [simp]: "distinct (sorted_set xs)"
  by (simp add: sorted_set_def)

text \<open>\<^verbatim>\<open>tuple(sorted(xs)) == xs\<close> and no duplicates is strict ordering.\<close>

lemma strict_sorted_iff_sort: "sort xs = xs \<and> distinct xs \<longleftrightarrow> sorted_wrt (<) xs"
  by (metis sorted_sort sorted_sort_id strict_sorted_iff)

end
