(* ===== verification/Bytes_Hash.thy ===== *)
theory Bytes_Hash
  imports Prelude
begin

text \<open>
  What the repository uses of Python's byte strings and of \<^verbatim>\<open>hashlib\<close>: big-endian integers
  (\<^verbatim>\<open>int.to_bytes(n, "big")\<close>, \<^verbatim>\<open>struct.pack(">Q", n)\<close>), upper-case hexadecimal digests
  (\<^verbatim>\<open>hexdigest().upper()\<close>), \<^verbatim>\<open>bytes.fromhex\<close>, and SHA-256 itself (FIPS 180-4), written out so
  that nothing about it has to be assumed. No theorem of the development needs SHA-256 to be
  free of collisions: where the code relies on it, the theorem exhibits the collision.
\<close>

unbundle bit_operations_syntax

section \<open>Big-endian integers\<close>

fun be_bytes :: "nat \<Rightarrow> nat \<Rightarrow> bytes" where
  "be_bytes 0 x = []"
| "be_bytes (Suc n) x = be_bytes n (x div 256) @ [of_nat (x mod 256)]"

definition be_val :: "bytes \<Rightarrow> nat" where
  "be_val bs = foldl (\<lambda>v b. v * 256 + unat b) 0 bs"

lemma length_be_bytes [simp, bytes_simps]: "length (be_bytes n x) = n"
  by (induction n arbitrary: x) auto

lemma be_val_snoc: "be_val (bs @ [b]) = be_val bs * 256 + unat b"
  by (simp add: be_val_def)

lemma unat_byte: "x < 256 \<Longrightarrow> unat (of_nat x :: byte) = x"
  by (simp add: unat_of_nat take_bit_nat_eq_self_iff)

lemma be_val_be_bytes: "x < 256 ^ n \<Longrightarrow> be_val (be_bytes n x) = x"
proof (induction n arbitrary: x)
  case 0
  then show ?case by (simp add: be_val_def)
next
  case (Suc n)
  then have "x div 256 < 256 ^ n"
    by (metis less_mult_imp_div_less mult.commute power_Suc)
  with Suc.IH show ?case by (simp add: be_val_snoc unat_byte)
qed

lemma be_bytes_inj: "x < 256 ^ n \<Longrightarrow> y < 256 ^ n \<Longrightarrow> be_bytes n x = be_bytes n y \<longleftrightarrow> x = y"
  by (metis be_val_be_bytes)

section \<open>Hexadecimal text\<close>

definition hex_char :: "nat \<Rightarrow> char" where
  "hex_char n = ''0123456789ABCDEF'' ! n"

definition hex_upper :: "bytes \<Rightarrow> string" where
  "hex_upper bs = concat (map (\<lambda>b. [hex_char (unat b div 16), hex_char (unat b mod 16)]) bs)"

definition is_upper_hex_char :: "char \<Rightarrow> bool" where
  "is_upper_hex_char c \<longleftrightarrow> c \<in> set ''0123456789ABCDEF''"

text \<open>\<^verbatim>\<open>re.compile(r"[0-9A-F]{64}\Z").fullmatch(text)\<close>\<close>

definition is_upper_hex64 :: "string \<Rightarrow> bool" where
  "is_upper_hex64 s \<longleftrightarrow> length s = 64 \<and> list_all is_upper_hex_char s"

definition hex_val :: "char \<Rightarrow> nat" where
  "hex_val c = (let n = of_char c in if n < 58 then n - 48 else n - 55)"

text \<open>\<^verbatim>\<open>bytes.fromhex\<close> on text already known to be upper-case hexadecimal.\<close>

fun unhex :: "string \<Rightarrow> bytes" where
  "unhex (a # b # cs) = of_nat (16 * hex_val a + hex_val b) # unhex cs"
| "unhex _ = []"

lemma less_16_cases:
  "(n::nat) < 16 \<Longrightarrow> n \<in> {0, 1, 2, 3, 4, 5, 6, 7, 8, 9, 10, 11, 12, 13, 14, 15}"
  unfolding insert_iff empty_iff by presburger

lemma hex_char_ok: "n < 16 \<Longrightarrow> is_upper_hex_char (hex_char n)"
  by (auto simp: is_upper_hex_char_def hex_char_def dest!: less_16_cases)

lemma hex_val_hex_char: "n < 16 \<Longrightarrow> hex_val (hex_char n) = n"
  by (auto simp: hex_val_def hex_char_def dest!: less_16_cases)

lemma hex_char_hex_val: "is_upper_hex_char c \<Longrightarrow> hex_char (hex_val c) = c \<and> hex_val c < 16"
  by (auto simp: is_upper_hex_char_def hex_val_def hex_char_def)

lemma byte_nibbles: "unat (b :: byte) div 16 < 16"
proof -
  have "unat b < 256" using unsigned_less [of b, where ?'a = nat] by simp
  then show ?thesis by simp
qed

lemma hex_upper_simps [simp]:
  "hex_upper [] = []"
  "hex_upper (b # bs) = hex_char (unat b div 16) # hex_char (unat b mod 16) # hex_upper bs"
  by (simp_all add: hex_upper_def)

lemma length_hex_upper [simp, bytes_simps]: "length (hex_upper bs) = 2 * length bs"
  by (induction bs) auto

lemma hex_upper_chars: "list_all is_upper_hex_char (hex_upper bs)"
  by (induction bs) (auto simp: hex_char_ok byte_nibbles)

lemma hex_upper_ok: "length bs = 32 \<Longrightarrow> is_upper_hex64 (hex_upper bs)"
  by (simp add: is_upper_hex64_def hex_upper_chars)

lemma unhex_hex_upper [simp]: "unhex (hex_upper bs) = bs"
  by (induction bs) (auto simp: hex_val_hex_char byte_nibbles)

lemma hex_upper_inj: "hex_upper as = hex_upper bs \<longleftrightarrow> as = bs"
  by (metis unhex_hex_upper)

lemma length_unhex: "length (unhex s) = length s div 2"
  by (induction s rule: unhex.induct) auto

lemma length_unhex64 [bytes_simps]: "is_upper_hex64 s \<Longrightarrow> length (unhex s) = 32"
  by (simp add: length_unhex is_upper_hex64_def)

lemma hex_upper_unhex:
  "even (length s) \<Longrightarrow> list_all is_upper_hex_char s \<Longrightarrow> hex_upper (unhex s) = s"
proof (induction s rule: unhex.induct)
  case (1 a b cs)
  then have a: "hex_char (hex_val a) = a" "hex_val a < 16"
    and b: "hex_char (hex_val b) = b" "hex_val b < 16"
    by (auto dest: hex_char_hex_val)
  then have "unat (of_nat (16 * hex_val a + hex_val b) :: byte) = 16 * hex_val a + hex_val b"
    by (intro unat_byte) simp
  with 1 a b show ?case by (simp only: unhex.simps hex_upper_simps) simp
qed auto

lemma unhex_inj64:
  "is_upper_hex64 s \<Longrightarrow> is_upper_hex64 t \<Longrightarrow> unhex s = unhex t \<longleftrightarrow> s = t"
  by (metis hex_upper_unhex is_upper_hex64_def even_numeral)

section \<open>SHA-256\<close>

type_synonym w32 = "32 word"

text \<open>The round constants and the initial state, in decimal.\<close>

definition sha_k :: "w32 list" where
  "sha_k = [
    1116352408, 1899447441, 3049323471, 3921009573, 961987163, 1508970993, 2453635748, 2870763221,
    3624381080, 310598401, 607225278, 1426881987, 1925078388, 2162078206, 2614888103, 3248222580,
    3835390401, 4022224774, 264347078, 604807628, 770255983, 1249150122, 1555081692, 1996064986,
    2554220882, 2821834349, 2952996808, 3210313671, 3336571891, 3584528711, 113926993, 338241895,
    666307205, 773529912, 1294757372, 1396182291, 1695183700, 1986661051, 2177026350, 2456956037,
    2730485921, 2820302411, 3259730800, 3345764771, 3516065817, 3600352804, 4094571909, 275423344,
    430227734, 506948616, 659060556, 883997877, 958139571, 1322822218, 1537002063, 1747873779,
    1955562222, 2024104815, 2227730452, 2361852424, 2428436474, 2756734187, 3204031479, 3329325298]"

definition sha_h0 :: "w32 list" where
  "sha_h0 = [
    1779033703, 3144134277, 1013904242, 2773480762, 1359893119, 2600822924, 528734635, 1541459225]"

definition sha_pad :: "bytes \<Rightarrow> bytes" where
  "sha_pad m = m @ [0x80] @ replicate ((119 - length m mod 64) mod 64) 0
      @ be_bytes 8 (8 * length m)"

fun be_words :: "bytes \<Rightarrow> w32 list" where
  "be_words (a # b # c # d # bs) =
     of_nat (unat a * 16777216 + unat b * 65536 + unat c * 256 + unat d) # be_words bs"
| "be_words _ = []"

definition sha_s0 :: "w32 \<Rightarrow> w32" where
  "sha_s0 x = (word_rotr 7 x XOR word_rotr 18 x) XOR drop_bit 3 x"

definition sha_s1 :: "w32 \<Rightarrow> w32" where
  "sha_s1 x = (word_rotr 17 x XOR word_rotr 19 x) XOR drop_bit 10 x"

definition sha_S0 :: "w32 \<Rightarrow> w32" where
  "sha_S0 x = (word_rotr 2 x XOR word_rotr 13 x) XOR word_rotr 22 x"

definition sha_S1 :: "w32 \<Rightarrow> w32" where
  "sha_S1 x = (word_rotr 6 x XOR word_rotr 11 x) XOR word_rotr 25 x"

fun sha_extend :: "nat \<Rightarrow> w32 list \<Rightarrow> w32 list" where
  "sha_extend 0 ws = ws"
| "sha_extend (Suc n) ws = (let t = length ws in
     sha_extend n (ws @ [sha_s1 (ws ! (t - 2)) + ws ! (t - 7) + sha_s0 (ws ! (t - 15))
                           + ws ! (t - 16)]))"

fun sha_round :: "w32 list \<Rightarrow> w32 \<times> w32 \<Rightarrow> w32 list" where
  "sha_round [a, b, c, d, e, f, g, h] (k, w) =
     (let t1 = h + sha_S1 e + ((e AND f) XOR (NOT e AND g)) + k + w;
          t2 = sha_S0 a + (((a AND b) XOR (a AND c)) XOR (b AND c))
      in [t1 + t2, a, b, c, d + t1, e, f, g])"
| "sha_round st _ = st"

definition sha_compress :: "w32 list \<Rightarrow> w32 list \<Rightarrow> w32 list" where
  "sha_compress st block =
     map2 (+) st (foldl sha_round st (zip sha_k (sha_extend 48 block)))"

function sha_blocks :: "w32 list \<Rightarrow> w32 list \<Rightarrow> w32 list" where
  "sha_blocks st ws = (if length ws < 16 then st
     else sha_blocks (sha_compress st (take 16 ws)) (drop 16 ws))"
  by pat_completeness auto
termination
  by (relation "measure (\<lambda>(st, ws). length ws)") auto

declare sha_blocks.simps [simp del]

definition sha256 :: "bytes \<Rightarrow> bytes" where
  "sha256 m = concat (map (\<lambda>w. be_bytes 4 (unat w)) (sha_blocks sha_h0 (be_words (sha_pad m))))"

text \<open>\<^verbatim>\<open>hashlib.sha256(raw).hexdigest().upper()\<close>\<close>

definition sha256_hex :: "bytes \<Rightarrow> string" where
  "sha256_hex m = hex_upper (sha256 m)"

lemma length_sha_round: "length (sha_round st kw) = length st"
  by (cases "(st, kw)" rule: sha_round.cases) (auto simp: Let_def)

lemma length_sha_compress: "length (sha_compress st block) = length st"
proof -
  have "length (foldl sha_round st kws) = length st" for kws
    by (induction kws arbitrary: st) (auto simp: length_sha_round)
  then show ?thesis by (simp add: sha_compress_def)
qed

lemma length_sha_blocks: "length (sha_blocks st ws) = length st"
  by (induction st ws rule: sha_blocks.induct) (subst sha_blocks.simps, simp add: length_sha_compress)

lemma length_sha256 [simp, bytes_simps]: "length (sha256 m) = 32"
proof -
  have "length (concat (map (\<lambda>w. be_bytes 4 (unat w)) ws)) = 4 * length ws" for ws :: "w32 list"
    by (induction ws) auto
  then show ?thesis by (simp add: sha256_def length_sha_blocks sha_h0_def)
qed

lemma sha256_hex_ok [simp]: "is_upper_hex64 (sha256_hex m)"
  by (simp add: sha256_hex_def hex_upper_ok)

lemma unhex_sha256_hex [simp]: "unhex (sha256_hex m) = sha256 m"
  by (simp add: sha256_hex_def)

text \<open>Two different messages with one digest: what the code assumes it never meets.\<close>

definition sha256_collision :: "bytes \<Rightarrow> bytes \<Rightarrow> bool" where
  "sha256_collision a b \<longleftrightarrow> a \<noteq> b \<and> sha256 a = sha256 b"

lemma sha256_hex_eq: "sha256_hex a = sha256_hex b \<longleftrightarrow> a = b \<or> sha256_collision a b"
  by (auto simp: sha256_hex_def hex_upper_inj sha256_collision_def)

end
