(* ===== verification/RuleAlgebra.thy ===== *)
theory RuleAlgebra
  imports Bytes_Hash "HOL-Library.Multiset"
begin

text \<open>
  \<^verbatim>\<open>lean_rgc/odlrq/rule_algebra.py\<close>: the deterministic finite rule algebra. The dataclasses are
  records, a dataclass constructor is a function \<open>mk_...\<close> that builds the record and runs its
  \<^verbatim>\<open>__post_init__\<close> check, and a raised \<^verbatim>\<open>ValueError\<close> is the left side of the result with the
  message of the source. The annotated Python types are the types of the record fields, so the
  \<^verbatim>\<open>isinstance\<close> tests of the checks hold by typing.
\<close>

section \<open>Data\<close>

type_synonym value_error = string
type_synonym debt_vector = "int \<times> int \<times> int \<times> int \<times> int"
type_synonym action_word = "string list"

definition TOTALIZATION_RULE_DIGEST :: string where
  "TOTALIZATION_RULE_DIGEST = sha256_hex (ascii
     ''lean-rgc-u05-totalization-v1:closed->CLOSED;ordinary_failure->SINK;terminal_absorbing'')"

datatype outcome_kind = OPEN | CLOSED | SINK

fun kind_value :: "outcome_kind \<Rightarrow> string" where
  "kind_value OPEN = ''open''"
| "kind_value CLOSED = ''closed''"
| "kind_value SINK = ''sink''"

text \<open>\<^verbatim>\<open>class OutcomeKind(str, Enum)\<close>: members compare as their string values.\<close>

lemma kind_value_inj: "kind_value a = kind_value b \<longleftrightarrow> a = b"
  by (cases a; cases b) auto

instantiation outcome_kind :: linorder
begin

definition less_eq_outcome_kind :: "outcome_kind \<Rightarrow> outcome_kind \<Rightarrow> bool" where
  "less_eq_outcome_kind a b \<longleftrightarrow> kind_value a \<le> kind_value b"

definition less_outcome_kind :: "outcome_kind \<Rightarrow> outcome_kind \<Rightarrow> bool" where
  "less_outcome_kind a b \<longleftrightarrow> kind_value a < kind_value b"

instance
  by standard
    (auto simp: less_eq_outcome_kind_def less_outcome_kind_def kind_value_inj
      intro: order_trans dest: antisym)

end

record state_view =
  sv_identity_key :: bytes
  sv_full_signature :: bytes
  sv_debt :: debt_vector
  sv_live_rpc_state_id :: "string option"
  sv_response_signature :: bytes

record censor_record =
  cr_reason :: string
  cr_source_key :: "bytes option"
  cr_action_id :: "string option"
  cr_derived_from_prefix :: bool

record oracle_event =
  ev_source_key :: bytes
  ev_action_id :: string
  ev_raw_status :: string
  ev_totalized_status :: "outcome_kind option"
  ev_target :: "state_view option"
  ev_replay_verified :: bool
  ev_exact_delta :: bool
  ev_censor_reason :: "string option"
  ev_primary_attempts :: int
  ev_replay_attempts :: int
  ev_derived_from_sealed_row :: bool

record word_outcome =
  wo_kind :: outcome_kind
  wo_state_key :: "bytes option"
  wo_response_signature :: bytes
  wo_derived_terminal :: bool
  wo_totalization_rule_digest :: "string option"
  wo_entry_task_id :: "string option"
  wo_entry_source_key :: "bytes option"
  wo_entry_action_id :: "string option"
  wo_entry_word :: "action_word option"

section \<open>State views\<close>

fun debt_list :: "debt_vector \<Rightarrow> int list" where
  "debt_list (a, b, c, d, e) = [a, b, c, d, e]"

definition state_view_post_init :: "state_view \<Rightarrow> (value_error, unit) res" where
  "state_view_post_init s =
     (if sv_identity_key s = [] then Inl ''identity_key must be nonempty bytes''
      else if sv_full_signature s = [] then Inl ''full_signature must be nonempty bytes''
      else if list_ex (\<lambda>v. v < 0) (debt_list (sv_debt s))
        then Inl ''debt must contain exactly five nonnegative integers''
      else if sv_live_rpc_state_id s = Some []
        then Inl ''live_rpc_state_id must be nonempty when present''
      else Inr ())"

definition mk_state_view ::
  "bytes \<Rightarrow> bytes \<Rightarrow> debt_vector \<Rightarrow> string option \<Rightarrow> bytes \<Rightarrow> (value_error, state_view) res" where
  "mk_state_view ik fs d live rs =
     (let s = \<lparr>sv_identity_key = ik, sv_full_signature = fs, sv_debt = d,
               sv_live_rpc_state_id = live, sv_response_signature = rs\<rparr>
      in bindE (state_view_post_init s) (\<lambda>_. Inr s))"

definition behavioral_observation :: "state_view \<Rightarrow> string \<times> debt_vector" where
  "behavioral_observation s = (kind_value OPEN, sv_debt s)"

definition state_view_ok :: "state_view \<Rightarrow> bool" where
  "state_view_ok s \<longleftrightarrow> state_view_post_init s = Inr ()"

section \<open>Censors and oracle events\<close>

definition mk_censor_record ::
  "string \<Rightarrow> bytes option \<Rightarrow> string option \<Rightarrow> bool \<Rightarrow> (value_error, censor_record) res" where
  "mk_censor_record reason source act derived =
     (if reason = [] then Inl ''censor reason must be nonempty''
      else Inr \<lparr>cr_reason = reason, cr_source_key = source, cr_action_id = act,
                cr_derived_from_prefix = derived\<rparr>)"

definition oracle_event_post_init :: "oracle_event \<Rightarrow> (value_error, unit) res" where
  "oracle_event_post_init e =
     (if ev_source_key e = [] then Inl ''source_key must be nonempty bytes''
      else if ev_action_id e = [] then Inl ''action_id must be nonempty''
      else if ev_primary_attempts e < 0 \<or> ev_replay_attempts e < 0
        then Inl ''attempt counters must be nonnegative''
      else if ev_derived_from_sealed_row e \<and>
          (ev_primary_attempts e \<noteq> 0 \<or> ev_replay_attempts e \<noteq> 0 \<or> ev_censor_reason e \<noteq> None
           \<or> \<not> ev_replay_verified e \<or> \<not> ev_exact_delta e
           \<or> (case ev_target e of None \<Rightarrow> False | Some t \<Rightarrow> sv_live_rpc_state_id t \<noteq> None))
        then Inl ''a sealed-row derivation must be exact, replayed, handle-free, and zero-attempt''
      else (case ev_censor_reason e of
        Some reason \<Rightarrow>
          (if ev_totalized_status e \<noteq> None \<or> ev_target e \<noteq> None
             then Inl ''a censor cannot create a totalized transition''
           else if reason = [] then Inl ''censor reason must be nonempty''
           else Inr ())
      | None \<Rightarrow>
          (case ev_totalized_status e of
             None \<Rightarrow> Inl ''noncensored events require a totalized status''
           | Some st \<Rightarrow>
               (if st = OPEN \<and> ev_target e = None
                  then Inl ''an open transition requires a target state''
                else if st \<noteq> OPEN \<and> ev_target e \<noteq> None
                  then Inl ''closed and sink transitions cannot retain a target''
                else if ev_raw_status e = ''ordinary_failure'' \<and> st \<noteq> SINK
                  then Inl ''ordinary failure must totalize to sink''
                else Inr ()))))"

definition mk_oracle_event :: "oracle_event \<Rightarrow> (value_error, oracle_event) res" where
  "mk_oracle_event e = bindE (oracle_event_post_init e) (\<lambda>_. Inr e)"

definition event_open ::
  "bytes \<Rightarrow> string \<Rightarrow> state_view \<Rightarrow> bool \<Rightarrow> bool \<Rightarrow> (value_error, oracle_event) res" where
  "event_open source act target replayed exact = mk_oracle_event
     \<lparr>ev_source_key = source, ev_action_id = act, ev_raw_status = ''open'',
      ev_totalized_status = Some OPEN, ev_target = Some target, ev_replay_verified = replayed,
      ev_exact_delta = exact, ev_censor_reason = None, ev_primary_attempts = 1,
      ev_replay_attempts = 1, ev_derived_from_sealed_row = False\<rparr>"

definition event_closed ::
  "bytes \<Rightarrow> string \<Rightarrow> bool \<Rightarrow> bool \<Rightarrow> (value_error, oracle_event) res" where
  "event_closed source act replayed exact = mk_oracle_event
     \<lparr>ev_source_key = source, ev_action_id = act, ev_raw_status = ''closed'',
      ev_totalized_status = Some CLOSED, ev_target = None, ev_replay_verified = replayed,
      ev_exact_delta = exact, ev_censor_reason = None, ev_primary_attempts = 1,
      ev_replay_attempts = 1, ev_derived_from_sealed_row = False\<rparr>"

definition event_ordinary_failure ::
  "bytes \<Rightarrow> string \<Rightarrow> bool \<Rightarrow> bool \<Rightarrow> int \<Rightarrow> int \<Rightarrow> (value_error, oracle_event) res" where
  "event_ordinary_failure source act replayed exact primary replay = mk_oracle_event
     \<lparr>ev_source_key = source, ev_action_id = act, ev_raw_status = ''ordinary_failure'',
      ev_totalized_status = Some SINK, ev_target = None, ev_replay_verified = replayed,
      ev_exact_delta = exact, ev_censor_reason = None, ev_primary_attempts = primary,
      ev_replay_attempts = replay, ev_derived_from_sealed_row = False\<rparr>"

definition event_censor ::
  "bytes \<Rightarrow> string \<Rightarrow> string \<Rightarrow> int \<Rightarrow> int \<Rightarrow> (value_error, oracle_event) res" where
  "event_censor source act reason primary replay = mk_oracle_event
     \<lparr>ev_source_key = source, ev_action_id = act, ev_raw_status = ''censor'',
      ev_totalized_status = None, ev_target = None, ev_replay_verified = False,
      ev_exact_delta = False, ev_censor_reason = Some reason, ev_primary_attempts = primary,
      ev_replay_attempts = replay, ev_derived_from_sealed_row = False\<rparr>"

definition is_censor :: "oracle_event \<Rightarrow> bool" where
  "is_censor e \<longleftrightarrow> ev_censor_reason e \<noteq> None"

definition oracle_event_ok :: "oracle_event \<Rightarrow> bool" where
  "oracle_event_ok e \<longleftrightarrow> oracle_event_post_init e = Inr ()
     \<and> (case ev_target e of None \<Rightarrow> True | Some t \<Rightarrow> state_view_ok t)"

section \<open>Word outcomes\<close>

definition word_outcome_post_init :: "word_outcome \<Rightarrow> (value_error, unit) res" where
  "word_outcome_post_init w =
     (if wo_kind w = OPEN \<and> wo_state_key w = None
        then Inl ''open word outcome requires a state key''
      else if wo_kind w \<noteq> OPEN \<and> wo_state_key w \<noteq> None
        then Inl ''terminal word outcome cannot contain a state key''
      else if wo_kind w = OPEN then
        (if wo_response_signature w = []
           then Inl ''open word outcome requires nonempty response evidence''
         else if wo_derived_terminal w \<or> wo_totalization_rule_digest w \<noteq> None
             \<or> wo_entry_task_id w \<noteq> None \<or> wo_entry_source_key w \<noteq> None
             \<or> wo_entry_action_id w \<noteq> None \<or> wo_entry_word w \<noteq> None
           then Inl ''open word outcome cannot carry terminal provenance''
         else Inr ())
      else if wo_response_signature w \<noteq> []
        then Inl ''terminal word outcome cannot carry an open response signature''
      else (case (wo_totalization_rule_digest w, wo_entry_task_id w, wo_entry_source_key w,
                  wo_entry_action_id w, wo_entry_word w) of
        (Some digest, Some task, Some source, Some act, Some word) \<Rightarrow>
          (if \<not> is_upper_hex64 digest
             then Inl ''terminal totalization rule digest must be uppercase SHA-256''
           else if digest \<noteq> TOTALIZATION_RULE_DIGEST
             then Inl ''terminal totalization rule digest is not the frozen rule''
           else if task = [] then Inl ''terminal entry task ID must be nonempty''
           else if source = [] then Inl ''terminal entry source key must be nonempty bytes''
           else if act = [] then Inl ''terminal entry action ID must be nonempty''
           else if word = [] then Inl ''terminal entry word must be a nonempty action word''
           else if last word \<noteq> act then Inl ''terminal entry word/action provenance mismatch''
           else Inr ())
      | _ \<Rightarrow> Inl ''terminal word outcome requires complete entry provenance''))"

definition mk_word_outcome :: "word_outcome \<Rightarrow> (value_error, word_outcome) res" where
  "mk_word_outcome w = bindE (word_outcome_post_init w) (\<lambda>_. Inr w)"

definition word_outcome_ok :: "word_outcome \<Rightarrow> bool" where
  "word_outcome_ok w \<longleftrightarrow> word_outcome_post_init w = Inr ()"

definition from_state :: "state_view \<Rightarrow> (value_error, word_outcome) res" where
  "from_state s = mk_word_outcome
     \<lparr>wo_kind = OPEN, wo_state_key = Some (sv_identity_key s),
      wo_response_signature = sv_response_signature s, wo_derived_terminal = False,
      wo_totalization_rule_digest = None, wo_entry_task_id = None, wo_entry_source_key = None,
      wo_entry_action_id = None, wo_entry_word = None\<rparr>"

definition terminal ::
  "outcome_kind \<Rightarrow> string \<Rightarrow> bytes \<Rightarrow> string \<Rightarrow> action_word \<Rightarrow> string \<Rightarrow> bool
   \<Rightarrow> (value_error, word_outcome) res" where
  "terminal kind task source act word digest derived =
     (if kind = OPEN then Inl ''terminal outcome must be CLOSED or SINK''
      else mk_word_outcome
        \<lparr>wo_kind = kind, wo_state_key = None, wo_response_signature = [],
         wo_derived_terminal = derived, wo_totalization_rule_digest = Some digest,
         wo_entry_task_id = Some task, wo_entry_source_key = Some source,
         wo_entry_action_id = Some act, wo_entry_word = Some word\<rparr>)"

text \<open>\<^verbatim>\<open>x or default\<close> on an optional value: \<^verbatim>\<open>None\<close> and the empty value give the default.\<close>

definition or_empty :: "'a list option \<Rightarrow> 'a list" where
  "or_empty x = (case x of None \<Rightarrow> [] | Some v \<Rightarrow> v)"

definition derived_terminal_extension :: "word_outcome \<Rightarrow> (value_error, word_outcome) res" where
  "derived_terminal_extension parent =
     (if wo_kind parent = OPEN then Inl ''open outcomes are not terminal''
      else (case wo_totalization_rule_digest parent of
        None \<Rightarrow> Inl ''terminal parent lacks totalization provenance''
      | Some digest \<Rightarrow>
          terminal (wo_kind parent) (or_empty (wo_entry_task_id parent))
            (or_empty (wo_entry_source_key parent)) (or_empty (wo_entry_action_id parent))
            (or_empty (wo_entry_word parent)) digest True))"

definition final_response_channels ::
  "word_outcome \<Rightarrow> state_view option \<Rightarrow> (value_error, int list) res" where
  "final_response_channels w st =
     (case wo_kind w of
        CLOSED \<Rightarrow> Inr [1, 0, 0, 0, 0, 0, 0]
      | SINK \<Rightarrow> Inr [0, 1, 0, 0, 0, 0, 0]
      | OPEN \<Rightarrow> (case st of
          None \<Rightarrow> Inl ''open response requires its exact state view''
        | Some s \<Rightarrow>
            (if wo_state_key w \<noteq> Some (sv_identity_key s)
               then Inl ''open response requires its exact state view''
             else Inr ([0, 0] @ debt_list (sv_debt s)))))"

section \<open>Action alphabets and words\<close>

text \<open>
  \<^verbatim>\<open>action_id(action: Any)\<close> looks at three shapes of argument: a string, a mapping (what
  \<^verbatim>\<open>.get("action_id")\<close> returns) and any other object (what \<^verbatim>\<open>getattr\<close> returns). The value found
  is a string, some other Python value, or missing.
\<close>

datatype attr_value = AttrStr string | AttrOther

datatype action_ref =
    ActStr string
  | ActMapping "attr_value option"
  | ActObject "attr_value option"

fun attr_of :: "action_ref \<Rightarrow> attr_value option" where
  "attr_of (ActStr s) = Some (AttrStr s)"
| "attr_of (ActMapping v) = v"
| "attr_of (ActObject v) = v"

definition action_id :: "action_ref \<Rightarrow> (value_error, string) res" where
  "action_id a =
     (case attr_of a of
        Some (AttrStr s) \<Rightarrow>
          (if s = [] then Inl ''every action must expose a nonempty action_id'' else Inr s)
      | _ \<Rightarrow> Inl ''every action must expose a nonempty action_id'')"

definition canonical_action_ids :: "action_ref list \<Rightarrow> (value_error, string list) res" where
  "canonical_action_ids actions =
     bindE (mapE action_id actions) (\<lambda>ids. let values = sort ids in
       if length (remdups values) \<noteq> length values
         then Inl ''duplicate action_id in fixed alphabet''
       else if values = [] then Inl ''fixed action alphabet cannot be empty''
       else Inr values)"

text \<open>\<^verbatim>\<open>itertools.product(alphabet, repeat=n)\<close>: the last position runs fastest.\<close>

fun product_repeat :: "'a list \<Rightarrow> nat \<Rightarrow> 'a list list" where
  "product_repeat xs 0 = [[]]"
| "product_repeat xs (Suc n) = concat (map (\<lambda>x. map ((#) x) (product_repeat xs n)) xs)"

definition alphabet_bad :: "string list \<Rightarrow> bool" where
  "alphabet_bad ids \<longleftrightarrow> sort ids \<noteq> ids \<or> length (remdups ids) \<noteq> length ids"

definition action_words ::
  "string list \<Rightarrow> int \<Rightarrow> bool \<Rightarrow> (value_error, action_word list) res" where
  "action_words ids max_depth include_empty =
     (if max_depth < 0 then Inl ''max_depth must be nonnegative''
      else if alphabet_bad ids
        then Inl ''action_ids must be unique and lexicographically sorted''
      else Inr ((if include_empty then [[]] else [])
        @ concat (map (product_repeat ids) [1..<Suc (nat max_depth)])))"

definition words_at_depth :: "string list \<Rightarrow> int \<Rightarrow> (value_error, action_word list) res" where
  "words_at_depth ids depth =
     (if depth < 0 then Inl ''depth must be nonnegative''
      else if alphabet_bad ids
        then Inl ''action_ids must be unique and lexicographically sorted''
      else if depth = 0 then Inr [[]]
      else Inr (product_repeat ids (nat depth)))"

section \<open>Well-formed values\<close>

lemma mk_state_view_eq_Inr [res_simps]:
  "mk_state_view ik fs d live rs = Inr s \<longleftrightarrow>
     s = \<lparr>sv_identity_key = ik, sv_full_signature = fs, sv_debt = d,
          sv_live_rpc_state_id = live, sv_response_signature = rs\<rparr> \<and> state_view_ok s"
  by (auto simp: mk_state_view_def state_view_ok_def bindE_eq_Inr Let_def)

lemma state_view_ok_iff:
  "state_view_ok s \<longleftrightarrow> sv_identity_key s \<noteq> [] \<and> sv_full_signature s \<noteq> []
     \<and> (\<forall>v \<in> set (debt_list (sv_debt s)). 0 \<le> v) \<and> sv_live_rpc_state_id s \<noteq> Some []"
  by (cases "sv_debt s") (auto simp: state_view_ok_def state_view_post_init_def)

lemma state_view_ok_no_handle:
  "state_view_ok s \<Longrightarrow> state_view_ok (s\<lparr>sv_live_rpc_state_id := None\<rparr>)"
  by (simp add: state_view_ok_iff)

lemma oracle_event_okD:
  assumes "oracle_event_ok e"
  shows "ev_totalized_status e = None \<longleftrightarrow> is_censor e"
    and "ev_target e \<noteq> None \<longleftrightarrow> ev_totalized_status e = Some OPEN"
    and "0 \<le> ev_primary_attempts e" and "0 \<le> ev_replay_attempts e"
    and "ev_source_key e \<noteq> []" and "ev_action_id e \<noteq> []"
    and "ev_target e = Some t \<Longrightarrow> state_view_ok t"
    and "ev_censor_reason e \<noteq> Some []"
  using assms
  by (auto simp: oracle_event_ok_def oracle_event_post_init_def is_censor_def
      split: if_splits option.splits)

lemma oracle_event_ok_no_handle:
  assumes "oracle_event_ok e" and "ev_target e = Some t"
  shows "oracle_event_ok (e\<lparr>ev_target := Some (t\<lparr>sv_live_rpc_state_id := None\<rparr>)\<rparr>)"
  using assms
  by (auto simp: oracle_event_ok_def oracle_event_post_init_def state_view_ok_no_handle
      split: if_splits option.splits)

lemma from_state_eq_Inr [res_simps]:
  "from_state s = Inr w \<longleftrightarrow> sv_response_signature s \<noteq> [] \<and>
     w = \<lparr>wo_kind = OPEN, wo_state_key = Some (sv_identity_key s),
          wo_response_signature = sv_response_signature s, wo_derived_terminal = False,
          wo_totalization_rule_digest = None, wo_entry_task_id = None,
          wo_entry_source_key = None, wo_entry_action_id = None, wo_entry_word = None\<rparr>"
  by (auto simp: from_state_def mk_word_outcome_def word_outcome_post_init_def bindE_eq_Inr)

lemma terminal_ok_iff:
  assumes "wo_kind w \<noteq> OPEN"
  shows "word_outcome_ok w \<longleftrightarrow>
    wo_state_key w = None \<and> wo_response_signature w = []
    \<and> wo_totalization_rule_digest w = Some TOTALIZATION_RULE_DIGEST
    \<and> (\<exists>t k a u. t \<noteq> [] \<and> k \<noteq> [] \<and> a \<noteq> [] \<and> u \<noteq> [] \<and> last u = a
         \<and> wo_entry_task_id w = Some t \<and> wo_entry_source_key w = Some k
         \<and> wo_entry_action_id w = Some a \<and> wo_entry_word w = Some u)"
  using assms
  by (auto simp: word_outcome_ok_def word_outcome_post_init_def TOTALIZATION_RULE_DIGEST_def
      split: option.splits)

lemma terminal_eq_Inr [res_simps]:
  "terminal kind task source act word TOTALIZATION_RULE_DIGEST derived = Inr w \<longleftrightarrow>
     kind \<noteq> OPEN \<and> task \<noteq> [] \<and> source \<noteq> [] \<and> act \<noteq> [] \<and> word \<noteq> [] \<and> last word = act
     \<and> w = \<lparr>wo_kind = kind, wo_state_key = None, wo_response_signature = [],
            wo_derived_terminal = derived,
            wo_totalization_rule_digest = Some TOTALIZATION_RULE_DIGEST,
            wo_entry_task_id = Some task, wo_entry_source_key = Some source,
            wo_entry_action_id = Some act, wo_entry_word = Some word\<rparr>"
  by (auto simp: terminal_def mk_word_outcome_def word_outcome_post_init_def bindE_eq_Inr
      TOTALIZATION_RULE_DIGEST_def)

lemma open_ok_iff:
  assumes "wo_kind w = OPEN"
  shows "word_outcome_ok w \<longleftrightarrow> wo_state_key w \<noteq> None \<and> wo_response_signature w \<noteq> []
    \<and> \<not> wo_derived_terminal w \<and> wo_totalization_rule_digest w = None
    \<and> wo_entry_task_id w = None \<and> wo_entry_source_key w = None
    \<and> wo_entry_action_id w = None \<and> wo_entry_word w = None"
  using assms by (auto simp: word_outcome_ok_def word_outcome_post_init_def)

lemma from_state_ok: "from_state s = Inr w \<Longrightarrow> word_outcome_ok w"
  by (auto simp: from_state_eq_Inr open_ok_iff)

lemma terminal_ok: "terminal kind t k a u d v = Inr w \<Longrightarrow> word_outcome_ok w"
  by (auto simp: terminal_def mk_word_outcome_def bindE_eq_Inr word_outcome_ok_def
      split: if_splits)

lemma derived_extension:
  assumes "word_outcome_ok w" and "wo_kind w \<noteq> OPEN"
  shows "derived_terminal_extension (w\<lparr>wo_derived_terminal := b\<rparr>)
    = Inr (w\<lparr>wo_derived_terminal := True\<rparr>)"
proof -
  from assms obtain t k a u where w: "wo_state_key w = None" "wo_response_signature w = []"
    "wo_totalization_rule_digest w = Some TOTALIZATION_RULE_DIGEST"
    "t \<noteq> []" "k \<noteq> []" "a \<noteq> []" "u \<noteq> []" "last u = a"
    "wo_entry_task_id w = Some t" "wo_entry_source_key w = Some k"
    "wo_entry_action_id w = Some a" "wo_entry_word w = Some u"
    using terminal_ok_iff [OF assms(2)] by metis
  then show ?thesis
    using assms(2)
    by (cases w) (simp add: derived_terminal_extension_def or_empty_def terminal_eq_Inr)
qed

section \<open>Enumeration of action words\<close>

lemma set_product_repeat:
  "set (product_repeat xs n) = {w. length w = n \<and> set w \<subseteq> set xs}"
proof (induction n)
  case 0
  show ?case by auto
next
  case (Suc n)
  show ?case
  proof (rule set_eqI)
    fix w
    show "w \<in> set (product_repeat xs (Suc n)) \<longleftrightarrow>
        w \<in> {w. length w = Suc n \<and> set w \<subseteq> set xs}"
      by (cases w) (auto simp: Suc.IH)
  qed
qed

lemma length_product_repeat: "length (product_repeat xs n) = length xs ^ n"
  by (induction n) (auto simp: length_concat comp_def sum_list_triv)

lemma sorted_product_repeat:
  fixes xs :: "'a::linorder list"
  assumes "sorted_wrt (<) xs"
  shows "sorted_wrt (<) (product_repeat xs n)"
proof (induction n)
  case 0
  show ?case by simp
next
  case (Suc n)
  have "sorted_wrt (<) (concat (map (\<lambda>x. map ((#) x) (product_repeat xs n)) ys))"
    if "sorted_wrt (<) ys" for ys :: "'a list"
    using that
    by (induction ys) (auto simp: sorted_wrt_append sorted_wrt_map Suc.IH)
  with assms show ?case by simp
qed

lemma alphabet_good: "\<not> alphabet_bad ids \<longleftrightarrow> sorted_wrt (<) ids"
proof -
  have "length (remdups ids) = length ids \<longleftrightarrow> distinct ids"
    by (metis distinct_remdups_id length_remdups_eq remdups_id_iff_distinct)
  then show ?thesis by (simp add: alphabet_bad_def strict_sorted_iff_sort [symmetric])
qed

lemma words_at_depth_eq:
  "words_at_depth ids depth = Inr ws \<longleftrightarrow>
     0 \<le> depth \<and> sorted_wrt (<) ids \<and> ws = product_repeat ids (nat depth)"
  by (auto simp: words_at_depth_def alphabet_good [symmetric])

text \<open>Shorter words first, words of one length in lexicographic order.\<close>

definition shortlex :: "'a::linorder list \<Rightarrow> 'a list \<Rightarrow> bool" where
  "shortlex u v \<longleftrightarrow> length u < length v \<or> (length u = length v \<and> u < v)"

lemma sorted_words_upto:
  fixes ids :: "'a::linorder list"
  assumes "sorted_wrt (<) ids" and "sorted_wrt (<) ns"
  shows "sorted_wrt shortlex (concat (map (product_repeat ids) ns))"
  using assms(2)
proof (induction ns)
  case Nil
  show ?case by simp
next
  case (Cons n ns)
  have "sorted_wrt shortlex (product_repeat ids n)"
    by (rule sorted_wrt_mono_rel [OF _ sorted_product_repeat [OF assms(1)]])
      (auto simp: shortlex_def set_product_repeat)
  moreover have "\<forall>u \<in> set (product_repeat ids n).
      \<forall>v \<in> set (concat (map (product_repeat ids) ns)). shortlex u v"
    using Cons.prems by (auto simp: shortlex_def set_product_repeat)
  ultimately show ?case using Cons by (simp add: sorted_wrt_append)
qed

lemma action_words_eq:
  assumes "action_words ids d True = Inr ws"
  shows "ws = concat (map (product_repeat ids) [0..<Suc (nat d)])" and "0 \<le> d"
    and "sorted_wrt (<) ids"
proof -
  have "[0..<Suc (nat d)] = 0 # [1..<Suc (nat d)]" by (simp add: upt_conv_Cons)
  then show "ws = concat (map (product_repeat ids) [0..<Suc (nat d)])"
    using assms by (simp add: action_words_def split: if_splits)
  show "0 \<le> d" "sorted_wrt (<) ids"
    using assms by (auto simp: action_words_def alphabet_good [symmetric] split: if_splits)
qed

lemma shortlex_irrefl: "\<not> shortlex w w"
  by (simp add: shortlex_def)

lemma sorted_shortlex_distinct: "sorted_wrt shortlex ws \<Longrightarrow> distinct ws"
  by (induction ws) (auto simp: shortlex_irrefl)

section \<open>Properties\<close>

text \<open>
  C5: \<^verbatim>\<open>action_words\<close> yields every word over the alphabet up to the depth, each exactly once,
  in length-then-lexicographic order, so their number is the geometric sum the chart's
  occurrence cap and the Hankel dimensions are computed from.
\<close>

theorem action_words_enumerate:
  assumes "action_words ids d True = Inr ws"
  shows "set ws = {w. int (length w) \<le> d \<and> set w \<subseteq> set ids} \<and> distinct ws
    \<and> sorted_wrt shortlex ws \<and> length ws = (\<Sum>k \<le> nat d. length ids ^ k)"
proof -
  note ws = action_words_eq [OF assms]
  have "set ws = {w. int (length w) \<le> d \<and> set w \<subseteq> set ids}"
    using ws(2) by (auto simp: ws(1) set_product_repeat le_nat_iff simp del: upt_Suc)
  moreover have "sorted_wrt shortlex ws"
    unfolding ws(1) by (rule sorted_words_upto [OF ws(3)]) (simp del: upt_Suc)
  moreover have "length ws = (\<Sum>k \<le> nat d. length ids ^ k)"
    by (simp add: ws(1) length_concat comp_def length_product_repeat sum_list_distinct_conv_sum_set
        atLeast0LessThan lessThan_Suc_atMost del: upt_Suc)
  ultimately show ?thesis by (simp add: sorted_shortlex_distinct)
qed

lemma action_words_example:
  "action_words [''a'', ''b''] 2 True =
     Inr [[], [''a''], [''b''], [''a'', ''a''], [''a'', ''b''], [''b'', ''a''], [''b'', ''b'']]"
  by code_simp

theorem action_words_enumerate_witness:
  "\<exists>ws. action_words [''a'', ''b''] 2 True = Inr ws \<and> distinct ws \<and> length ws = 7
     \<and> [''b'', ''a''] \<in> set ws"
  using action_words_enumerate [OF action_words_example] action_words_example by simp

text \<open>
  \<^verbatim>\<open>canonical_action_ids\<close> succeeds exactly on a nonempty family of actions that all expose a
  nonempty identity, no two the same, and then returns the strictly increasing list of those
  identities: the alphabet does not depend on the order the caller listed the actions in.
\<close>

theorem canonical_action_ids_spec:
  "canonical_action_ids actions = Inr v \<longleftrightarrow>
     v \<noteq> [] \<and> sorted_wrt (<) v \<and> image_mset action_id (mset actions) = image_mset Inr (mset v)"
proof -
  have sorted_remdups: "length (remdups (sort ids)) = length (sort ids) \<longleftrightarrow> sorted_wrt (<) (sort ids)"
    for ids :: "string list"
    by (metis distinct_remdups_id length_remdups_eq remdups_id_iff_distinct sorted_sort
        strict_sorted_iff)
  have mapE_iff: "mapE action_id actions = Inr ids \<longleftrightarrow> map action_id actions = map Inr ids" for ids
    by (induction actions arbitrary: ids)
      (auto simp: bindE_eq_Inr Cons_eq_map_conv map_eq_Cons_conv)
  have result: "canonical_action_ids actions = Inr v \<longleftrightarrow>
      (\<exists>ids. mapE action_id actions = Inr ids
         \<and> (length (remdups (sort ids)) = length (sort ids) \<and> sort ids \<noteq> [] \<and> sort ids = v))"
    unfolding canonical_action_ids_def bindE_eq_Inr Let_def
    by (intro ex_cong1 conj_cong refl) (simp split: if_split)
  have "canonical_action_ids actions = Inr v \<longleftrightarrow>
      (\<exists>ids. map action_id actions = map Inr ids \<and> v = sort ids \<and> sorted_wrt (<) v \<and> v \<noteq> [])"
    unfolding result mapE_iff sorted_remdups by blast
  also have "\<dots> \<longleftrightarrow> v \<noteq> [] \<and> sorted_wrt (<) v
      \<and> image_mset action_id (mset actions) = image_mset Inr (mset v)"
  proof (intro iffI; elim conjE exE)
    fix ids assume "map action_id actions = map Inr ids" "v = sort ids" "sorted_wrt (<) v" "v \<noteq> []"
    then show "v \<noteq> [] \<and> sorted_wrt (<) v
        \<and> image_mset action_id (mset actions) = image_mset Inr (mset v)"
      by (simp flip: mset_map)
  next
    assume v: "v \<noteq> []" "sorted_wrt (<) v"
      and "image_mset action_id (mset actions) = image_mset Inr (mset v)"
    note eq = this
    define ids where "ids = map (projr \<circ> action_id) actions"
    have "action_id ` set actions = Inr ` set v"
      using arg_cong [OF eq(3), of set_mset] by simp
    then have "\<forall>a \<in> set actions. \<exists>x. action_id a = Inr x" by blast
    then have "map action_id actions = map Inr ids"
      by (auto simp: ids_def)
    moreover have "mset ids = image_mset projr (image_mset action_id (mset actions))"
      by (simp add: ids_def multiset.map_comp)
    then have "mset ids = mset v"
      by (simp add: eq(3) multiset.map_comp comp_def)
    then have "sort ids = v"
      using v(2) by (intro properties_for_sort) (auto simp: strict_sorted_iff)
    ultimately show "\<exists>ids. map action_id actions = map Inr ids \<and> v = sort ids \<and> sorted_wrt (<) v \<and> v \<noteq> []"
      using v by blast
  qed
  finally show ?thesis .
qed

text \<open>
  Terminal outcomes are absorbing. Extending a well-formed CLOSED or SINK outcome by any
  further symbol gives a well-formed outcome of the same kind with the same entry provenance,
  only marked as derived, and extending again changes nothing more.
\<close>

theorem derived_terminal_absorbing:
  assumes "word_outcome_ok w" and "wo_kind w \<noteq> OPEN"
  shows "derived_terminal_extension w = Inr (w\<lparr>wo_derived_terminal := True\<rparr>)
    \<and> word_outcome_ok (w\<lparr>wo_derived_terminal := True\<rparr>)
    \<and> derived_terminal_extension (w\<lparr>wo_derived_terminal := True\<rparr>)
        = Inr (w\<lparr>wo_derived_terminal := True\<rparr>)"
proof -
  from derived_extension [OF assms, of True] derived_extension [OF assms, of "wo_derived_terminal w"]
  show ?thesis using assms by (auto simp: terminal_ok_iff)
qed

definition closed_outcome_example :: word_outcome where
  "closed_outcome_example =
     \<lparr>wo_kind = CLOSED, wo_state_key = None, wo_response_signature = [],
      wo_derived_terminal = False,
      wo_totalization_rule_digest = Some TOTALIZATION_RULE_DIGEST,
      wo_entry_task_id = Some ''t'', wo_entry_source_key = Some [1],
      wo_entry_action_id = Some ''a'', wo_entry_word = Some [''a'']\<rparr>"

lemma closed_outcome_example_ok:
  "word_outcome_ok closed_outcome_example" "wo_kind closed_outcome_example \<noteq> OPEN"
  by (simp_all add: closed_outcome_example_def terminal_ok_iff)

theorem derived_terminal_absorbing_witness:
  "derived_terminal_extension closed_outcome_example
     = Inr (closed_outcome_example\<lparr>wo_derived_terminal := True\<rparr>)"
  using derived_terminal_absorbing [OF closed_outcome_example_ok] by simp

text \<open>
  The seven response channels read off an outcome are seven nonnegative integers that
  determine its kind (the first two are the indicators of CLOSED and SINK) and, for an open
  outcome, its whole debt vector, provided the state view is well formed.
\<close>

theorem final_response_channels_decode:
  assumes "final_response_channels w st = Inr c"
    and "\<And>s. st = Some s \<Longrightarrow> state_view_ok s"
  shows "length c = 7 \<and> (\<forall>x \<in> set c. 0 \<le> x)
    \<and> (wo_kind w = CLOSED \<longleftrightarrow> c ! 0 = 1) \<and> (wo_kind w = SINK \<longleftrightarrow> c ! 1 = 1)
    \<and> (wo_kind w = OPEN \<longrightarrow> (\<exists>s. st = Some s \<and> wo_state_key w = Some (sv_identity_key s)
         \<and> drop 2 c = debt_list (sv_debt s)))"
proof -
  have "length (debt_list d) = 5" for d by (cases d) auto
  note len = this
  from assms show ?thesis
    by (auto simp: len final_response_channels_def state_view_ok_iff
        split: outcome_kind.splits option.splits if_splits)
qed

theorem final_response_channels_decode_witness:
  "\<exists>c. final_response_channels closed_outcome_example None = Inr c \<and> c ! 0 = 1"
proof -
  have "final_response_channels closed_outcome_example None = Inr [1, 0, 0, 0, 0, 0, 0]"
    by (simp add: final_response_channels_def closed_outcome_example_def)
  from final_response_channels_decode [OF this] this show ?thesis by simp
qed

end
