(* ===== verification/ReachableChart.thy ===== *)
theory ReachableChart
  imports RuleAlgebra
begin

text \<open>
  \<^verbatim>\<open>lean_rgc/odlrq/reachable_chart.py\<close>: the bounded, task-seeded reachable chart. The builder's
  mutable attributes and the chart under construction are one record threaded through every
  method. An exception carries the builder as it is when it is raised, because the methods
  release process-local handles before they raise. The transition oracle is injected code: it
  is a parameter that may return an event, return something else, or raise, and it may keep a
  state of its own (\<open>world\<close>). The optional discard callback is the log of its calls.
\<close>

section \<open>Data\<close>

datatype blocked_reason =
    MaxWordOccurrences
  | MissingSeedEvidence string
  | MissingParentWord string action_word
  | UnsealedRow
  | MissingTargetEvidence
  | IdentityCollision
  | DebtMismatch
  | MaxStatesTotal
  | MaxStatesForTask string
  | UnknownTargetState
  | MaxPrimaryAttempts
  | MaxReplayAttempts
  | NonOracleEvent
  | OracleIdentityMismatch
  | OpenEventLacksTarget
  | DuplicateLiveStateId
  | WordTableNotPrefixClosed
  | CensoredWord string action_word
  | MissingWord string action_word
  | UnknownStateReference

datatype chart_error =
    ChartValueError value_error
  | ChartAssertionError string
  | ChartKeyError
  | ChartPrerequisiteBlocked blocked_reason
  | OracleRaised string

record chart_limits =
  max_depth :: int
  max_states_per_task :: int
  max_states_total :: int
  max_primary_attempts :: int
  max_replay_attempts :: int
  max_word_occurrences :: int

definition default_chart_limits :: chart_limits where
  "default_chart_limits = \<lparr>max_depth = 3, max_states_per_task = 256, max_states_total = 1024,
     max_primary_attempts = 12288, max_replay_attempts = 12288, max_word_occurrences = 15000\<rparr>"

definition chart_limits_post_init :: "chart_limits \<Rightarrow> (value_error, unit) res" where
  "chart_limits_post_init l =
     (if max_depth l < 0 then Inl ''max_depth must be nonnegative''
      else if max_states_per_task l \<le> 0 then Inl ''max_states_per_task must be positive''
      else if max_states_total l \<le> 0 then Inl ''max_states_total must be positive''
      else if max_primary_attempts l \<le> 0 then Inl ''max_primary_attempts must be positive''
      else if max_replay_attempts l \<le> 0 then Inl ''max_replay_attempts must be positive''
      else if max_word_occurrences l \<le> 0 then Inl ''max_word_occurrences must be positive''
      else Inr ())"

datatype expansion_status = Queued | Expanded

record state_entry =
  se_identity_key :: bytes
  se_full_signature :: bytes
  se_debt :: debt_vector
  se_expansion_status :: expansion_status
  se_live_rpc_state_id :: "string option"
  se_first_task_id :: string
  se_task_ids :: "string set"

definition entry_state_view :: "state_entry \<Rightarrow> bytes \<Rightarrow> (value_error, state_view) res" where
  "entry_state_view e rs =
     mk_state_view (se_identity_key e) (se_full_signature e) (se_debt e)
       (se_live_rpc_state_id e) rs"

type_synonym edge_key = "bytes \<times> string"
type_synonym word_key = "string \<times> action_word"

record chart =
  ch_action_ids :: "string list"
  ch_limits :: chart_limits
  ch_state_table :: "(bytes, state_entry) dict"
  ch_transition_table :: "(edge_key, oracle_event) dict"
  ch_word_table :: "(word_key, word_outcome) dict"
  ch_word_censors :: "(word_key, censor_record) dict"
  ch_transition_censors :: "(edge_key, censor_record) dict"
  ch_task_ids :: "string list"
  ch_primary_attempts :: int
  ch_replay_attempts :: int
  ch_peak_live :: int
  ch_released_live :: int

text \<open>\<^verbatim>\<open>ReachableChart.outcome\<close>, \<^verbatim>\<open>state_for_outcome\<close>, \<^verbatim>\<open>has_censors\<close>, \<^verbatim>\<open>word_occurrence_count\<close>.\<close>

definition chart_outcome :: "chart \<Rightarrow> string \<Rightarrow> action_word \<Rightarrow> (chart_error, word_outcome) res" where
  "chart_outcome c t w =
     (case dget (ch_word_table c) (t, w) of
        Some out \<Rightarrow> Inr out
      | None \<Rightarrow>
          (if dget (ch_word_censors c) (t, w) \<noteq> None
             then Inl (ChartPrerequisiteBlocked (CensoredWord t w))
           else Inl (ChartPrerequisiteBlocked (MissingWord t w))))"

definition state_for_outcome ::
  "chart \<Rightarrow> word_outcome \<Rightarrow> (chart_error, state_view option) res" where
  "state_for_outcome c out =
     (if wo_kind out \<noteq> OPEN then Inr None
      else (case Option.bind (wo_state_key out) (dget (ch_state_table c)) of
        None \<Rightarrow> Inl (ChartPrerequisiteBlocked UnknownStateReference)
      | Some e \<Rightarrow> liftE ChartValueError
          (bindE (entry_state_view e (wo_response_signature out)) (\<lambda>s. Inr (Some s)))))"

definition has_censors :: "chart \<Rightarrow> bool" where
  "has_censors c \<longleftrightarrow> ch_word_censors c \<noteq> [] \<or> ch_transition_censors c \<noteq> []"

definition word_occurrence_count :: "chart \<Rightarrow> nat" where
  "word_occurrence_count c = length (ch_word_table c) + length (ch_word_censors c)"

section \<open>The builder and its oracle\<close>

datatype oracle_reply = ReplyEvent oracle_event | ReplyOther | ReplyRaise string

type_synonym 'w transition_oracle = "'w \<Rightarrow> string \<Rightarrow> state_view \<Rightarrow> string \<Rightarrow> oracle_reply \<times> 'w"

record 'w builder =
  b_chart :: chart
  b_released :: int
  b_live_ids :: "(string \<times> string) set"
  b_peak_live :: int
  b_task_state_keys :: "string \<Rightarrow> bytes set"
  b_has_discard :: bool
  b_discarded :: "(string \<times> string) list"
  b_world :: 'w

type_synonym ('w, 'a) chart_res = "(chart_error \<times> 'w builder, 'a) res"

definition blocked :: "blocked_reason \<Rightarrow> 'w builder \<Rightarrow> chart_error \<times> 'w builder" where
  "blocked r b = (ChartPrerequisiteBlocked r, b)"

definition on_chart :: "(chart \<Rightarrow> chart) \<Rightarrow> 'w builder \<Rightarrow> 'w builder" where
  "on_chart f b = b\<lparr>b_chart := f (b_chart b)\<rparr>"

abbreviation state_table :: "'w builder \<Rightarrow> (bytes, state_entry) dict" where
  "state_table b \<equiv> ch_state_table (b_chart b)"

abbreviation limits :: "'w builder \<Rightarrow> chart_limits" where
  "limits b \<equiv> ch_limits (b_chart b)"

definition set_state_entry :: "bytes \<Rightarrow> state_entry \<Rightarrow> 'w builder \<Rightarrow> 'w builder" where
  "set_state_entry k e = on_chart (\<lambda>c. c\<lparr>ch_state_table := dset k e (ch_state_table c)\<rparr>)"

definition add_task_key :: "string \<Rightarrow> bytes \<Rightarrow> 'w builder \<Rightarrow> 'w builder" where
  "add_task_key t k b = b\<lparr>b_task_state_keys :=
     (b_task_state_keys b)(t := insert k (b_task_state_keys b t))\<rparr>"

definition remove_task_key :: "string \<Rightarrow> bytes \<Rightarrow> 'w builder \<Rightarrow> 'w builder" where
  "remove_task_key t k b = b\<lparr>b_task_state_keys :=
     (b_task_state_keys b)(t := b_task_state_keys b t - {k})\<rparr>"

definition track_live :: "string \<Rightarrow> string option \<Rightarrow> 'w builder \<Rightarrow> ('w, 'w builder) chart_res" where
  "track_live t live b =
     (case live of
        None \<Rightarrow> Inr b
      | Some l \<Rightarrow>
          (if (t, l) \<in> b_live_ids b then Inl (blocked DuplicateLiveStateId b)
           else Inr (b\<lparr>b_live_ids := insert (t, l) (b_live_ids b),
                        b_peak_live := max (b_peak_live b)
                          (int (card (insert (t, l) (b_live_ids b))))\<rparr>)))"

definition release :: "string \<Rightarrow> string option \<Rightarrow> 'w builder \<Rightarrow> 'w builder" where
  "release t live b =
     (case live of
        None \<Rightarrow> b
      | Some l \<Rightarrow> b\<lparr>b_live_ids := b_live_ids b - {(t, l)},
                     b_discarded := (if b_has_discard b then b_discarded b @ [(t, l)]
                                     else b_discarded b),
                     b_released := b_released b + 1\<rparr>)"

definition over_task_cap :: "string \<Rightarrow> 'w builder \<Rightarrow> bool" where
  "over_task_cap t b \<longleftrightarrow>
     int (card (b_task_state_keys b t)) > max_states_per_task (limits b)"

definition admit_state :: "string \<Rightarrow> state_view \<Rightarrow> 'w builder \<Rightarrow> ('w, 'w builder) chart_res" where
  "admit_state t st b0 =
     bindE (track_live t (sv_live_rpc_state_id st) b0) (\<lambda>b.
       let key = sv_identity_key st; dropped = release t (sv_live_rpc_state_id st) b in
       case dget (state_table b) key of
         Some existing \<Rightarrow>
           (if se_full_signature existing \<noteq> sv_full_signature st
              then Inl (blocked IdentityCollision dropped)
            else if se_debt existing \<noteq> sv_debt st
              then Inl (blocked DebtMismatch dropped)
            else
              let b1 = add_task_key t key (set_state_entry key
                         (existing\<lparr>se_task_ids := insert t (se_task_ids existing)\<rparr>) dropped)
              in if over_task_cap t b1 then Inl (blocked (MaxStatesForTask t) b1) else Inr b1)
       | None \<Rightarrow>
           (if int (length (state_table b)) \<ge> max_states_total (limits b)
              then Inl (blocked MaxStatesTotal dropped)
            else
              let b1 = add_task_key t key b
              in if over_task_cap t b1
                   then Inl (blocked (MaxStatesForTask t)
                     (release t (sv_live_rpc_state_id st) (remove_task_key t key b1)))
                 else Inr (set_state_entry key
                   \<lparr>se_identity_key = key, se_full_signature = sv_full_signature st,
                    se_debt = sv_debt st, se_expansion_status = Queued,
                    se_live_rpc_state_id = sv_live_rpc_state_id st,
                    se_first_task_id = t, se_task_ids = {t}\<rparr> b1)))"

definition register_task_reach :: "string \<Rightarrow> bytes \<Rightarrow> 'w builder \<Rightarrow> ('w, 'w builder) chart_res" where
  "register_task_reach t k b =
     (case dget (state_table b) k of
        None \<Rightarrow> Inl (blocked UnknownTargetState b)
      | Some e \<Rightarrow>
          (if k \<in> b_task_state_keys b t then Inr b
           else let b1 = add_task_key t k b in
             if over_task_cap t b1
               then Inl (blocked (MaxStatesForTask t) (remove_task_key t k b1))
             else Inr (set_state_entry k
               (e\<lparr>se_task_ids := insert t (se_task_ids e)\<rparr>) b1)))"

section \<open>Expansion of one queued state\<close>

definition value_errorE :: "'w builder \<Rightarrow> (value_error, 'a) res \<Rightarrow> ('w, 'a) chart_res" where
  "value_errorE b m = liftE (\<lambda>msg. (ChartValueError msg, b)) m"

definition set_transition :: "edge_key \<Rightarrow> oracle_event \<Rightarrow> 'w builder \<Rightarrow> 'w builder" where
  "set_transition ek e =
     on_chart (\<lambda>c. c\<lparr>ch_transition_table := dset ek e (ch_transition_table c)\<rparr>)"

definition set_transition_censor :: "edge_key \<Rightarrow> censor_record \<Rightarrow> 'w builder \<Rightarrow> 'w builder" where
  "set_transition_censor ek r =
     on_chart (\<lambda>c. c\<lparr>ch_transition_censors := dset ek r (ch_transition_censors c)\<rparr>)"

definition count_attempts :: "oracle_event \<Rightarrow> 'w builder \<Rightarrow> 'w builder" where
  "count_attempts e = on_chart (\<lambda>c. c\<lparr>
     ch_primary_attempts := ch_primary_attempts c + ev_primary_attempts e,
     ch_replay_attempts := ch_replay_attempts c + ev_replay_attempts e\<rparr>)"

text \<open>The part of the loop body after the caps, on an event the oracle attributes correctly.\<close>

definition record_event ::
  "string \<Rightarrow> bytes \<Rightarrow> string \<Rightarrow> oracle_event \<Rightarrow> 'w builder \<Rightarrow> ('w, 'w builder) chart_res" where
  "record_event t key act e b =
     (case ev_censor_reason e of
        Some reason \<Rightarrow>
          bindE (value_errorE b (mk_censor_record
              (if reason = [] then ''unknown_censor'' else reason) (Some key) (Some act) False))
            (\<lambda>r. Inr (set_transition_censor (key, act) r b))
      | None \<Rightarrow>
          (if \<not> ev_replay_verified e then
             bindE (value_errorE b (mk_censor_record ''independent_replay_not_verified''
                 (Some key) (Some act) False))
               (\<lambda>r. let b1 = set_transition_censor (key, act) r b in
                  Inr (case ev_target e of None \<Rightarrow> b1
                       | Some tg \<Rightarrow> release t (sv_live_rpc_state_id tg) b1))
           else if ev_totalized_status e = Some OPEN then
             (case ev_target e of
                None \<Rightarrow> Inl (blocked OpenEventLacksTarget b)
              | Some tg \<Rightarrow>
                  (if sv_response_signature tg = []
                     then Inl (blocked MissingTargetEvidence
                       (release t (sv_live_rpc_state_id tg) b))
                   else
                     bindE (admit_state t tg b) (\<lambda>b1.
                     let tg' = tg\<lparr>sv_live_rpc_state_id := None\<rparr> in
                     bindE (value_errorE b1 (state_view_post_init tg')) (\<lambda>_.
                     bindE (value_errorE b1 (mk_oracle_event (e\<lparr>ev_target := Some tg'\<rparr>)))
                       (\<lambda>e'. Inr (set_transition (key, act) e' b1))))))
           else Inr (set_transition (key, act) e b)))"

definition expand_action ::
  "'w transition_oracle \<Rightarrow> string \<Rightarrow> state_view \<Rightarrow> bytes \<Rightarrow> string \<Rightarrow> 'w builder
   \<Rightarrow> ('w, 'w builder) chart_res" where
  "expand_action orc t source key act b0 =
     (if ch_primary_attempts (b_chart b0) + 1 > max_primary_attempts (limits b0)
        then Inl (blocked MaxPrimaryAttempts b0)
      else
        let (reply, w) = orc (b_world b0) t source act; b = b0\<lparr>b_world := w\<rparr> in
        case reply of
          ReplyRaise msg \<Rightarrow> Inl (OracleRaised msg, b)
        | ReplyOther \<Rightarrow> Inl (blocked NonOracleEvent b)
        | ReplyEvent e \<Rightarrow>
            (if ev_source_key e \<noteq> key \<or> ev_action_id e \<noteq> act
               then Inl (blocked OracleIdentityMismatch b)
             else
               let b1 = count_attempts e b in
               if ch_primary_attempts (b_chart b1) > max_primary_attempts (limits b1)
                 then Inl (blocked MaxPrimaryAttempts b1)
               else if ch_replay_attempts (b_chart b1) > max_replay_attempts (limits b1)
                 then Inl (blocked MaxReplayAttempts b1)
               else record_event t key act e b1))"

definition mark_expanded :: "bytes \<Rightarrow> 'w builder \<Rightarrow> 'w builder" where
  "mark_expanded key b =
     (case dget (state_table b) key of
        None \<Rightarrow> b
      | Some e \<Rightarrow> set_state_entry key
          (e\<lparr>se_live_rpc_state_id := None, se_expansion_status := Expanded\<rparr>) b)"

definition expand_state ::
  "'w transition_oracle \<Rightarrow> state_entry \<Rightarrow> 'w builder \<Rightarrow> ('w, 'w builder) chart_res" where
  "expand_state orc e b =
     (if se_expansion_status e \<noteq> Queued then Inr b
      else
        bindE (value_errorE b (entry_state_view e [])) (\<lambda>source.
        let key = se_identity_key e; t = se_first_task_id e in
        bindE (foldE (expand_action orc t source key) (ch_action_ids (b_chart b)) b) (\<lambda>b1.
        Inr (mark_expanded key (release t (se_live_rpc_state_id e) b1)))))"

section \<open>One symbolic word, one depth, the whole chart\<close>

definition set_word :: "word_key \<Rightarrow> word_outcome \<Rightarrow> 'w builder \<Rightarrow> 'w builder" where
  "set_word wk out = on_chart (\<lambda>c. c\<lparr>ch_word_table := dset wk out (ch_word_table c)\<rparr>)"

definition set_word_censor :: "word_key \<Rightarrow> censor_record \<Rightarrow> 'w builder \<Rightarrow> 'w builder" where
  "set_word_censor wk r = on_chart (\<lambda>c. c\<lparr>ch_word_censors := dset wk r (ch_word_censors c)\<rparr>)"

text \<open>An open parent: follow the sealed row of its state.\<close>

definition open_word_step ::
  "string \<Rightarrow> action_word \<Rightarrow> bytes option \<Rightarrow> string \<Rightarrow> 'w builder \<Rightarrow> ('w, 'w builder) chart_res" where
  "open_word_step t pw parent_state act b =
     (case Option.bind parent_state
         (\<lambda>k. dget (ch_transition_censors (b_chart b)) (k, act)) of
        Some r \<Rightarrow> Inr (set_word_censor (t, pw @ [act]) r b)
      | None \<Rightarrow>
     (case Option.bind parent_state
         (\<lambda>k. dget (ch_transition_table (b_chart b)) (k, act)) of
        None \<Rightarrow> Inl (blocked UnsealedRow b)
      | Some e \<Rightarrow>
          (if ev_totalized_status e = Some OPEN then
             (case ev_target e of
                None \<Rightarrow> Inl (ChartAssertionError ''open event lacks target'', b)
              | Some tg \<Rightarrow>
                  (if sv_response_signature tg = []
                     then Inl (blocked MissingTargetEvidence b)
                   else
                     bindE (register_task_reach t (sv_identity_key tg) b) (\<lambda>b1.
                     bindE (value_errorE b1 (from_state tg)) (\<lambda>out.
                     Inr (set_word (t, pw @ [act]) out b1)))))
           else
             (case ev_totalized_status e of
                None \<Rightarrow> Inl (ChartAssertionError ''noncensor event lacks status'', b)
              | Some st \<Rightarrow>
                  bindE (value_errorE b (terminal st t (ev_source_key e) (ev_action_id e)
                      (pw @ [act]) TOTALIZATION_RULE_DIGEST False))
                    (\<lambda>out. Inr (set_word (t, pw @ [act]) out b))))))"

definition word_step ::
  "string \<Rightarrow> action_word \<Rightarrow> censor_record option \<Rightarrow> word_outcome option \<Rightarrow> string \<Rightarrow> 'w builder
   \<Rightarrow> ('w, 'w builder) chart_res" where
  "word_step t pw parent_censor parent act b =
     (case parent_censor of
        Some pc \<Rightarrow>
          bindE (value_errorE b (mk_censor_record (cr_reason pc) (cr_source_key pc) (Some act) True))
            (\<lambda>r. Inr (set_word_censor (t, pw @ [act]) r b))
      | None \<Rightarrow>
          (case parent of
             None \<Rightarrow> Inl (blocked (MissingParentWord t pw) b)
           | Some p \<Rightarrow>
               (if wo_kind p \<noteq> OPEN then
                  bindE (value_errorE b (derived_terminal_extension p))
                    (\<lambda>out. Inr (set_word (t, pw @ [act]) out b))
                else open_word_step t pw (wo_state_key p) act b)))"

definition extend_word :: "string \<Rightarrow> action_word \<Rightarrow> 'w builder \<Rightarrow> ('w, 'w builder) chart_res" where
  "extend_word t pw b =
     foldE (word_step t pw (dget (ch_word_censors (b_chart b)) (t, pw))
              (dget (ch_word_table (b_chart b)) (t, pw)))
       (ch_action_ids (b_chart b)) b"

definition frontier :: "int \<Rightarrow> chart \<Rightarrow> bytes option list" where
  "frontier depth c = map (\<lambda>(_, out). wo_state_key out)
     (filter (\<lambda>((t, w), out). int (length w) = depth \<and> wo_kind out = OPEN) (ch_word_table c))"

definition expand_frontier ::
  "'w transition_oracle \<Rightarrow> int \<Rightarrow> 'w builder \<Rightarrow> ('w, 'w builder) chart_res" where
  "expand_frontier orc depth b =
     (let keys = frontier depth (b_chart b) in
      if None \<in> set keys then Inl (ChartAssertionError ''open frontier state has no key'', b)
      else foldE (\<lambda>k b.
        case dget (state_table b) k of
          None \<Rightarrow> Inl (ChartKeyError, b)
        | Some e \<Rightarrow> if se_expansion_status e = Queued then expand_state orc e b else Inr b)
        (sorted_set (map the keys)) b)"

definition extend_words :: "int \<Rightarrow> 'w builder \<Rightarrow> ('w, 'w builder) chart_res" where
  "extend_words depth b =
     foldE (\<lambda>t b. bindE (value_errorE b (words_at_depth (ch_action_ids (b_chart b)) depth))
        (\<lambda>ws. foldE (extend_word t) ws b))
       (ch_task_ids (b_chart b)) b"

definition depth_step ::
  "'w transition_oracle \<Rightarrow> int \<Rightarrow> 'w builder \<Rightarrow> ('w, 'w builder) chart_res" where
  "depth_step orc depth b = bindE (expand_frontier orc depth b) (extend_words depth)"

definition seed_step ::
  "(string, state_view) dict \<Rightarrow> string \<Rightarrow> 'w builder \<Rightarrow> ('w, 'w builder) chart_res" where
  "seed_step seeds t b =
     (case dget seeds t of
        None \<Rightarrow> Inl (ChartKeyError, b)
      | Some seed \<Rightarrow>
          (if sv_response_signature seed = []
             then Inl (blocked (MissingSeedEvidence t) b)
           else
             bindE (admit_state t seed b) (\<lambda>b1.
             bindE (value_errorE b1 (from_state seed)) (\<lambda>out.
             Inr (set_word (t, []) out b1)))))"

definition expected_words :: "nat \<Rightarrow> nat \<Rightarrow> int \<Rightarrow> int" where
  "expected_words n_tasks n_actions depth =
     int n_tasks * (\<Sum>d \<leftarrow> [0..<Suc (nat depth)]. int n_actions ^ d)"

definition empty_chart :: "string list \<Rightarrow> chart_limits \<Rightarrow> string list \<Rightarrow> chart" where
  "empty_chart ids lim tasks = \<lparr>ch_action_ids = ids, ch_limits = lim, ch_state_table = [],
     ch_transition_table = [], ch_word_table = [], ch_word_censors = [],
     ch_transition_censors = [], ch_task_ids = tasks, ch_primary_attempts = 0,
     ch_replay_attempts = 0, ch_peak_live = 0, ch_released_live = 0\<rparr>"

definition init_builder :: "chart \<Rightarrow> bool \<Rightarrow> 'w \<Rightarrow> 'w builder" where
  "init_builder c has_discard w = \<lparr>b_chart = c, b_released = 0, b_live_ids = {}, b_peak_live = 0,
     b_task_state_keys = (\<lambda>_. {}), b_has_discard = has_discard, b_discarded = [], b_world = w\<rparr>"

definition publish_live_counts :: "'w builder \<Rightarrow> 'w builder" where
  "publish_live_counts b = on_chart (\<lambda>c. c\<lparr>ch_peak_live := b_peak_live b,
     ch_released_live := b_released b\<rparr>) b"

definition build ::
  "'w transition_oracle \<Rightarrow> string list \<Rightarrow> chart_limits \<Rightarrow> bool \<Rightarrow> 'w \<Rightarrow> (string, state_view) dict
   \<Rightarrow> ('w, 'w builder) chart_res" where
  "build orc ids lim has_discard w seeds =
     (let tasks = sort (map fst seeds); b0 = init_builder (empty_chart ids lim tasks) has_discard w;
          expected = expected_words (length tasks) (length ids) (max_depth lim)
      in
      if seeds = [] then Inl (ChartValueError ''at least one task seed is required'', b0)
      else if [] \<in> set tasks then Inl (ChartValueError ''task IDs must be nonempty'', b0)
      else if expected > max_word_occurrences lim then Inl (blocked MaxWordOccurrences b0)
      else
        bindE (foldE (seed_step seeds) tasks b0) (\<lambda>b1.
        bindE (foldE (\<lambda>d. depth_step orc (int d)) [0..<nat (max_depth lim)] b1) (\<lambda>b2.
        let b3 = publish_live_counts b2 in
        if int (word_occurrence_count (b_chart b3)) \<noteq> expected
          then Inl (blocked WordTableNotPrefixClosed b3)
        else Inr b3)))"

definition build_reachable_chart ::
  "'w transition_oracle \<Rightarrow> action_ref list \<Rightarrow> chart_limits option \<Rightarrow> bool \<Rightarrow> 'w
   \<Rightarrow> (string, state_view) dict \<Rightarrow> (chart_error, chart) res" where
  "build_reachable_chart orc actions lim has_discard w seeds =
     bindE (liftE ChartValueError (canonical_action_ids actions)) (\<lambda>ids.
     bindE (liftE fst (build orc ids
         (case lim of None \<Rightarrow> default_chart_limits | Some l \<Rightarrow> l) has_discard w seeds))
       (\<lambda>b. Inr (b_chart b)))"

end
