(* ===== verification/ReachableChart_Tables.thy ===== *)
theory ReachableChart_Tables
  imports ReachableChart
begin

text \<open>
  Invariants of the reachable-chart builder's state and transition tables: what each primitive
  of the builder does to them, and that admission and expansion keep them.
\<close>

lemmas builder_defs = on_chart_def set_state_entry_def add_task_key_def remove_task_key_def
  set_transition_def set_transition_censor_def set_word_def set_word_censor_def
  count_attempts_def blocked_def value_errorE_def

section \<open>Invariants\<close>

definition expanded_keys :: "'w builder \<Rightarrow> bytes set" where
  "expanded_keys b = {k. \<exists>e. dget (state_table b) k = Some e \<and> se_expansion_status e = Expanded}"

text \<open>
  The state table is keyed by identity, an expanded entry holds no handle, the per-task key
  sets and the entries' task sets describe the same relation, and every tracked handle belongs
  to a queued entry under the task that first reached it.
\<close>

definition entry_inv :: "'w builder \<Rightarrow> bytes \<Rightarrow> state_entry \<Rightarrow> bool" where
  "entry_inv b k e \<longleftrightarrow> se_identity_key e = k
     \<and> (se_expansion_status e = Expanded \<longrightarrow> se_live_rpc_state_id e = None)
     \<and> se_first_task_id e \<in> se_task_ids e
     \<and> se_task_ids e = {t. k \<in> b_task_state_keys b t}"

definition handle_owned :: "'w builder \<Rightarrow> string \<times> string \<Rightarrow> bool" where
  "handle_owned b h \<longleftrightarrow> (\<exists>k e. dget (state_table b) k = Some e \<and> se_expansion_status e = Queued
     \<and> se_first_task_id e = fst h \<and> se_live_rpc_state_id e = Some (snd h))"

definition table_inv :: "'w builder \<Rightarrow> bool" where
  "table_inv b \<longleftrightarrow> dict_ok (state_table b)
     \<and> (\<forall>k e. dget (state_table b) k = Some e \<longrightarrow> entry_inv b k e)
     \<and> (\<forall>t. b_task_state_keys b t \<subseteq> dkeys (state_table b))
     \<and> (\<forall>h \<in> b_live_ids b. handle_owned b h)
     \<and> finite (b_live_ids b)"

definition caps_inv :: "'w builder \<Rightarrow> bool" where
  "caps_inv b \<longleftrightarrow> int (length (state_table b)) \<le> max_states_total (limits b)
     \<and> (\<forall>t. int (card (b_task_state_keys b t)) \<le> max_states_per_task (limits b))
     \<and> 0 \<le> ch_primary_attempts (b_chart b)
     \<and> ch_primary_attempts (b_chart b) \<le> max_primary_attempts (limits b)
     \<and> 0 \<le> ch_replay_attempts (b_chart b)
     \<and> ch_replay_attempts (b_chart b) \<le> max_replay_attempts (limits b)"

text \<open>An entry keeps its identity, signature, debt, status, handle and first task.\<close>

definition same_core :: "state_entry \<Rightarrow> state_entry \<Rightarrow> bool" where
  "same_core e e' \<longleftrightarrow> se_identity_key e' = se_identity_key e
     \<and> se_full_signature e' = se_full_signature e \<and> se_debt e' = se_debt e
     \<and> se_expansion_status e' = se_expansion_status e
     \<and> se_live_rpc_state_id e' = se_live_rpc_state_id e \<and> se_first_task_id e' = se_first_task_id e"

definition table_ext :: "(bytes, state_entry) dict \<Rightarrow> (bytes, state_entry) dict \<Rightarrow> bool" where
  "table_ext st st' \<longleftrightarrow>
     (\<forall>k e. dget st k = Some e \<longrightarrow> (\<exists>e'. dget st' k = Some e' \<and> same_core e e'))
     \<and> (\<forall>k e'. dget st' k = Some e' \<longrightarrow> dget st k = None \<longrightarrow> se_expansion_status e' = Queued)"

lemma same_core_refl [simp]: "same_core e e"
  by (simp add: same_core_def)

lemma same_coreD:
  "same_core e e' \<Longrightarrow> se_identity_key e' = se_identity_key e
     \<and> se_full_signature e' = se_full_signature e \<and> se_debt e' = se_debt e
     \<and> se_expansion_status e' = se_expansion_status e
     \<and> se_live_rpc_state_id e' = se_live_rpc_state_id e \<and> se_first_task_id e' = se_first_task_id e"
  by (auto simp: same_core_def)

lemma same_core_trans: "same_core a b \<Longrightarrow> same_core b c \<Longrightarrow> same_core a c"
  by (auto simp: same_core_def)

lemma table_ext_refl [simp]: "table_ext st st"
  by (auto simp: table_ext_def)

lemma table_ext_Some:
  assumes "table_ext st st'" and "dget st k = Some e"
  obtains e' where "dget st' k = Some e'" and "same_core e e'"
  using assms unfolding table_ext_def by blast

lemma table_ext_new:
  "table_ext st st' \<Longrightarrow> dget st' k = Some e' \<Longrightarrow> dget st k = None \<Longrightarrow>
     se_expansion_status e' = Queued"
  unfolding table_ext_def by blast

lemma table_extI:
  assumes "\<And>k e. dget st k = Some e \<Longrightarrow> \<exists>e'. dget st' k = Some e' \<and> same_core e e'"
    and "\<And>k e'. dget st' k = Some e' \<Longrightarrow> dget st k = None \<Longrightarrow> se_expansion_status e' = Queued"
  shows "table_ext st st'"
  using assms unfolding table_ext_def by blast

lemma table_ext_trans:
  assumes ext1: "table_ext st1 st2" and ext2: "table_ext st2 st3"
  shows "table_ext st1 st3"
proof (rule table_extI)
  fix k e assume "dget st1 k = Some e"
  then obtain e2 where "dget st2 k = Some e2" and core: "same_core e e2"
    using ext1 by (auto elim: table_ext_Some)
  then obtain e3 where "dget st3 k = Some e3" and "same_core e2 e3"
    using ext2 by (auto elim: table_ext_Some)
  then show "\<exists>e'. dget st3 k = Some e' \<and> same_core e e'"
    using core by (blast intro: same_core_trans)
next
  fix k e3 assume e3: "dget st3 k = Some e3" and none: "dget st1 k = None"
  show "se_expansion_status e3 = Queued"
  proof (cases "dget st2 k")
    case None
    then show ?thesis using ext2 e3 by (auto intro: table_ext_new)
  next
    case (Some e2)
    then have "se_expansion_status e2 = Queued" using ext1 none by (auto intro: table_ext_new)
    moreover have "same_core e2 e3" using ext2 Some e3 by (auto elim: table_ext_Some)
    ultimately show ?thesis by (simp add: same_coreD)
  qed
qed

lemma table_ext_expanded:
  assumes "table_ext (state_table b) (state_table b')"
  shows "expanded_keys b' = expanded_keys b"
proof (rule set_eqI)
  fix k
  show "k \<in> expanded_keys b' \<longleftrightarrow> k \<in> expanded_keys b"
  proof (cases "dget (state_table b) k")
    case None
    then show ?thesis using assms by (auto simp: expanded_keys_def dest: table_ext_new)
  next
    case (Some e)
    then obtain e' where "dget (state_table b') k = Some e'" and "same_core e e'"
      using assms by (auto elim: table_ext_Some)
    with Some show ?thesis by (simp add: expanded_keys_def same_coreD)
  qed
qed

section \<open>Admission\<close>

definition tracked :: "string \<Rightarrow> string option \<Rightarrow> 'w builder \<Rightarrow> 'w builder" where
  "tracked t live b =
     (case live of
        None \<Rightarrow> b
      | Some l \<Rightarrow> b\<lparr>b_live_ids := insert (t, l) (b_live_ids b),
                     b_peak_live := max (b_peak_live b)
                       (int (card (insert (t, l) (b_live_ids b))))\<rparr>)"

lemma track_live_eq_Inr:
  "track_live t live b = Inr b' \<longleftrightarrow>
     b' = tracked t live b \<and> (\<forall>l. live = Some l \<longrightarrow> (t, l) \<notin> b_live_ids b)"
  by (auto simp: track_live_def tracked_def split: option.splits)

lemma tracked_simps [simp]:
  "b_chart (tracked t live b) = b_chart b"
  "b_task_state_keys (tracked t live b) = b_task_state_keys b"
  "b_live_ids (tracked t live b) = b_live_ids b \<union> (\<lambda>l. (t, l)) ` set_option live"
  by (auto simp: tracked_def split: option.splits)

lemma release_simps [simp]:
  "b_chart (release t live b) = b_chart b"
  "b_task_state_keys (release t live b) = b_task_state_keys b"
  "b_live_ids (release t live b) = b_live_ids b - (\<lambda>l. (t, l)) ` set_option live"
  by (auto simp: release_def split: option.splits)

lemma admit_state_cases:
  assumes "admit_state t st b = Inr b'"
  obtains (existing) e where "dget (state_table b) (sv_identity_key st) = Some e"
      "se_full_signature e = sv_full_signature st" "se_debt e = sv_debt st"
      "b' = add_task_key t (sv_identity_key st) (set_state_entry (sv_identity_key st)
          (e\<lparr>se_task_ids := insert t (se_task_ids e)\<rparr>)
          (release t (sv_live_rpc_state_id st) (tracked t (sv_live_rpc_state_id st) b)))"
      "\<not> over_task_cap t b'" "\<forall>l. sv_live_rpc_state_id st = Some l \<longrightarrow> (t, l) \<notin> b_live_ids b"
  | (fresh) e where "dget (state_table b) (sv_identity_key st) = None"
      "e = \<lparr>se_identity_key = sv_identity_key st, se_full_signature = sv_full_signature st,
          se_debt = sv_debt st, se_expansion_status = Queued,
          se_live_rpc_state_id = sv_live_rpc_state_id st,
          se_first_task_id = t, se_task_ids = {t}\<rparr>"
      "b' = set_state_entry (sv_identity_key st) e
          (add_task_key t (sv_identity_key st) (tracked t (sv_live_rpc_state_id st) b))"
      "int (length (state_table b)) < max_states_total (limits b)"
      "\<not> over_task_cap t (add_task_key t (sv_identity_key st)
          (tracked t (sv_live_rpc_state_id st) b))"
      "\<forall>l. sv_live_rpc_state_id st = Some l \<longrightarrow> (t, l) \<notin> b_live_ids b"
proof -
  from assms obtain b1 where b1: "track_live t (sv_live_rpc_state_id st) b = Inr b1"
    and rest: "(case dget (state_table b1) (sv_identity_key st) of
         Some existing \<Rightarrow>
           (if se_full_signature existing \<noteq> sv_full_signature st
              then Inl (blocked IdentityCollision (release t (sv_live_rpc_state_id st) b1))
            else if se_debt existing \<noteq> sv_debt st
              then Inl (blocked DebtMismatch (release t (sv_live_rpc_state_id st) b1))
            else
              let b2 = add_task_key t (sv_identity_key st) (set_state_entry (sv_identity_key st)
                         (existing\<lparr>se_task_ids := insert t (se_task_ids existing)\<rparr>)
                         (release t (sv_live_rpc_state_id st) b1))
              in if over_task_cap t b2 then Inl (blocked (MaxStatesForTask t) b2) else Inr b2)
       | None \<Rightarrow>
           (if int (length (state_table b1)) \<ge> max_states_total (limits b1)
              then Inl (blocked MaxStatesTotal (release t (sv_live_rpc_state_id st) b1))
            else
              let b2 = add_task_key t (sv_identity_key st) b1
              in if over_task_cap t b2
                   then Inl (blocked (MaxStatesForTask t)
                     (release t (sv_live_rpc_state_id st)
                       (remove_task_key t (sv_identity_key st) b2)))
                 else Inr (set_state_entry (sv_identity_key st)
                   \<lparr>se_identity_key = sv_identity_key st,
                    se_full_signature = sv_full_signature st,
                    se_debt = sv_debt st, se_expansion_status = Queued,
                    se_live_rpc_state_id = sv_live_rpc_state_id st,
                    se_first_task_id = t, se_task_ids = {t}\<rparr> b2))) = Inr b'"
    by (auto simp: admit_state_def bindE_eq_Inr Let_def)
  from b1 have b1': "b1 = tracked t (sv_live_rpc_state_id st) b"
    "\<forall>l. sv_live_rpc_state_id st = Some l \<longrightarrow> (t, l) \<notin> b_live_ids b"
    by (auto simp: track_live_eq_Inr)
  show thesis
  proof (cases "dget (state_table b) (sv_identity_key st)")
    case None
    with rest b1' show thesis by (intro fresh) (auto simp: Let_def not_le split: if_splits)
  next
    case (Some e)
    with rest b1' show thesis by (intro existing) (auto simp: Let_def split: if_splits)
  qed
qed

lemma admit_state_frame:
  assumes "admit_state t st b = Inr b'"
  shows "\<exists>st'. b_chart b' = (b_chart b)\<lparr>ch_state_table := st'\<rparr>"
    and "table_ext (state_table b) (state_table b')"
    and "\<exists>e. dget (state_table b') (sv_identity_key st) = Some e
      \<and> se_full_signature e = sv_full_signature st \<and> se_debt e = sv_debt st"
    and "b_task_state_keys b' = (b_task_state_keys b)(t :=
      insert (sv_identity_key st) (b_task_state_keys b t))"
proof -
  show "\<exists>st'. b_chart b' = (b_chart b)\<lparr>ch_state_table := st'\<rparr>"
    using assms by (cases rule: admit_state_cases) (auto simp: builder_defs)
  show "b_task_state_keys b' = (b_task_state_keys b)(t :=
      insert (sv_identity_key st) (b_task_state_keys b t))"
    using assms by (cases rule: admit_state_cases) (simp_all add: builder_defs)
  show "\<exists>e. dget (state_table b') (sv_identity_key st) = Some e
      \<and> se_full_signature e = sv_full_signature st \<and> se_debt e = sv_debt st"
    using assms by (cases rule: admit_state_cases) (simp_all add: builder_defs)
  show "table_ext (state_table b) (state_table b')"
    using assms
    by (cases rule: admit_state_cases)
      (auto intro!: table_extI simp: builder_defs same_core_def split: if_splits)
qed

lemma handle_owned_ext:
  assumes "table_ext (state_table b) (state_table b')" and "handle_owned b h"
  shows "handle_owned b' h"
proof -
  from assms(2) obtain k e where "dget (state_table b) k = Some e"
    "se_expansion_status e = Queued" "se_first_task_id e = fst h"
    "se_live_rpc_state_id e = Some (snd h)"
    unfolding handle_owned_def by blast
  moreover from assms(1) this(1) obtain e' where "dget (state_table b') k = Some e'"
    "same_core e e'" by (rule table_ext_Some)
  ultimately show ?thesis unfolding handle_owned_def same_core_def by metis
qed

lemma table_invD:
  assumes "table_inv b"
  shows "dict_ok (state_table b)"
    and "dget (state_table b) k = Some e \<Longrightarrow> entry_inv b k e"
    and "b_task_state_keys b t \<subseteq> dkeys (state_table b)"
    and "h \<in> b_live_ids b \<Longrightarrow> handle_owned b h"
    and "finite (b_live_ids b)"
  using assms by (auto simp: table_inv_def)

lemma table_inv_finite: "table_inv b \<Longrightarrow> finite (b_task_state_keys b t)"
  by (meson finite_imageI finite_set finite_subset table_invD(3))

lemma admit_state_table_inv:
  assumes inv: "table_inv b" and run: "admit_state t st b = Inr b'"
  shows "table_inv b'"
proof -
  note frame = admit_state_frame [OF run]
  note keys = frame(4)
  have handles: "handle_owned b' h" if "handle_owned b h" for h
    using frame(2) that by (rule handle_owned_ext)
  show ?thesis
    using run
  proof (cases rule: admit_state_cases)
    case (existing e)
    have st: "state_table b' = dset (sv_identity_key st)
        (e\<lparr>se_task_ids := insert t (se_task_ids e)\<rparr>) (state_table b)"
      and live: "b_live_ids b' = b_live_ids b"
      using existing(6) unfolding existing(4) by (auto simp: builder_defs)
    have "entry_inv b (sv_identity_key st) e" using inv existing(1) by (rule table_invD)
    then have "entry_inv b' k e'" if "dget (state_table b') k = Some e'" for k e'
      using that table_invD(2) [OF inv, of k e']
      by (auto simp: st keys entry_inv_def split: if_splits)
    then show ?thesis
      using inv handles existing(1) unfolding table_inv_def live
      by (auto simp: st keys dget_in_dkeys)
  next
    case (fresh e)
    have st: "state_table b' = dset (sv_identity_key st) e (state_table b)"
      and live: "b_live_ids b' = b_live_ids b \<union> (\<lambda>l. (t, l)) ` set_option (sv_live_rpc_state_id st)"
      unfolding fresh(3) by (auto simp: builder_defs)
    have new: "sv_identity_key st \<notin> b_task_state_keys b t'" for t'
      using table_invD(3) [OF inv, of t'] fresh(1) by (auto simp: dget_None)
    then have "entry_inv b' k e'" if "dget (state_table b') k = Some e'" for k e'
      using that table_invD(2) [OF inv, of k e']
      by (auto simp: st keys entry_inv_def fresh(2) split: if_splits)
    moreover have "handle_owned b' (t, l)" if "sv_live_rpc_state_id st = Some l" for l
      unfolding handle_owned_def
      by (rule exI [of _ "sv_identity_key st"], rule exI [of _ e])
        (use that in \<open>simp add: st fresh(2)\<close>)
    ultimately show ?thesis
      using inv handles unfolding table_inv_def live
      by (auto simp: st keys dget_in_dkeys)
  qed
qed

lemma admit_state_caps_inv:
  assumes inv: "caps_inv b" and run: "admit_state t st b = Inr b'"
  shows "caps_inv b'"
proof -
  have same: "limits b' = limits b" "ch_primary_attempts (b_chart b') = ch_primary_attempts (b_chart b)"
    "ch_replay_attempts (b_chart b') = ch_replay_attempts (b_chart b)"
    using admit_state_frame(1) [OF run] by auto
  have "int (length (state_table b')) \<le> max_states_total (limits b)"
    using run
    by (cases rule: admit_state_cases)
      (use inv in \<open>auto simp: caps_inv_def builder_defs length_dset dget_in_dkeys dget_None\<close>)
  moreover have "int (card (b_task_state_keys b' t)) \<le> max_states_per_task (limits b)"
    using run
    by (cases rule: admit_state_cases) (auto simp: builder_defs over_task_cap_def)
  then have "int (card (b_task_state_keys b' t')) \<le> max_states_per_task (limits b)" for t'
    using inv by (cases "t' = t") (auto simp: admit_state_frame(4) [OF run] caps_inv_def)
  ultimately show ?thesis using inv by (simp add: caps_inv_def same)
qed

section \<open>Sealed rows\<close>

text \<open>Later tables keep every state's identity data and never undo an expansion.\<close>

definition entry_le :: "state_entry \<Rightarrow> state_entry \<Rightarrow> bool" where
  "entry_le e e' \<longleftrightarrow> se_identity_key e' = se_identity_key e
     \<and> se_full_signature e' = se_full_signature e \<and> se_debt e' = se_debt e
     \<and> se_first_task_id e' = se_first_task_id e
     \<and> (se_expansion_status e = Expanded \<longrightarrow> se_expansion_status e' = Expanded)"

definition table_grow :: "(bytes, state_entry) dict \<Rightarrow> (bytes, state_entry) dict \<Rightarrow> bool" where
  "table_grow st st' \<longleftrightarrow>
     (\<forall>k e. dget st k = Some e \<longrightarrow> (\<exists>e'. dget st' k = Some e' \<and> entry_le e e'))"

definition same_identity :: "(bytes, state_entry) dict \<Rightarrow> state_view \<Rightarrow> bool" where
  "same_identity st s \<longleftrightarrow> (\<exists>e. dget st (sv_identity_key s) = Some e
     \<and> se_full_signature e = sv_full_signature s \<and> se_debt e = sv_debt s)"

definition edge_ok :: "(bytes, state_entry) dict \<Rightarrow> edge_key \<Rightarrow> oracle_event \<Rightarrow> bool" where
  "edge_ok st ek e \<longleftrightarrow> ev_source_key e = fst ek \<and> ev_action_id e = snd ek
     \<and> oracle_event_ok e \<and> \<not> is_censor e \<and> ev_replay_verified e
     \<and> (\<forall>tg. ev_target e = Some tg \<longrightarrow> sv_live_rpc_state_id tg = None
          \<and> sv_response_signature tg \<noteq> [] \<and> same_identity st tg)"

definition edges_inv :: "edge_key set \<Rightarrow> 'w builder \<Rightarrow> bool" where
  "edges_inv E b \<longleftrightarrow>
     dkeys (ch_transition_table (b_chart b)) \<union> dkeys (ch_transition_censors (b_chart b)) = E
     \<and> dkeys (ch_transition_table (b_chart b)) \<inter> dkeys (ch_transition_censors (b_chart b)) = {}
     \<and> (\<forall>ek e. dget (ch_transition_table (b_chart b)) ek = Some e \<longrightarrow> edge_ok (state_table b) ek e)
     \<and> (\<forall>ek r. dget (ch_transition_censors (b_chart b)) ek = Some r \<longrightarrow> cr_reason r \<noteq> [])"

text \<open>What a step of the expansion phase leaves alone.\<close>

definition expand_frame :: "'w builder \<Rightarrow> 'w builder \<Rightarrow> bool" where
  "expand_frame b b' \<longleftrightarrow>
     ch_action_ids (b_chart b') = ch_action_ids (b_chart b)
     \<and> limits b' = limits b \<and> ch_task_ids (b_chart b') = ch_task_ids (b_chart b)
     \<and> ch_word_table (b_chart b') = ch_word_table (b_chart b)
     \<and> ch_word_censors (b_chart b') = ch_word_censors (b_chart b)
     \<and> table_grow (state_table b) (state_table b')
     \<and> (\<forall>t. b_task_state_keys b t \<subseteq> b_task_state_keys b' t)
     \<and> map_of (ch_transition_table (b_chart b)) \<subseteq>\<^sub>m map_of (ch_transition_table (b_chart b'))
     \<and> map_of (ch_transition_censors (b_chart b))
         \<subseteq>\<^sub>m map_of (ch_transition_censors (b_chart b'))"

lemma table_ext_grow: "table_ext st st' \<Longrightarrow> table_grow st st'"
  unfolding table_ext_def table_grow_def entry_le_def same_core_def by metis

lemma table_grow_refl [simp]: "table_grow st st"
  by (auto simp: table_grow_def entry_le_def)

lemma table_grow_Some:
  assumes "table_grow st st'" and "dget st k = Some e"
  obtains e' where "dget st' k = Some e'" and "entry_le e e'"
  using assms unfolding table_grow_def by blast

lemma table_grow_trans:
  assumes "table_grow st1 st2" and "table_grow st2 st3"
  shows "table_grow st1 st3"
  unfolding table_grow_def
proof (intro allI impI)
  fix k e assume "dget st1 k = Some e"
  then obtain e2 where "dget st2 k = Some e2" and le: "entry_le e e2"
    using assms(1) by (auto elim: table_grow_Some)
  then obtain e3 where "dget st3 k = Some e3" and "entry_le e2 e3"
    using assms(2) by (auto elim: table_grow_Some)
  then show "\<exists>e'. dget st3 k = Some e' \<and> entry_le e e'"
    using le by (auto simp: entry_le_def)
qed

lemma same_identity_grow:
  assumes "table_grow st st'" and "same_identity st s"
  shows "same_identity st' s"
proof -
  from assms(2) obtain e where e: "dget st (sv_identity_key s) = Some e"
    "se_full_signature e = sv_full_signature s" "se_debt e = sv_debt s"
    unfolding same_identity_def by blast
  from assms(1) e(1) obtain e' where "dget st' (sv_identity_key s) = Some e'" "entry_le e e'"
    by (rule table_grow_Some)
  with e show ?thesis by (auto simp: same_identity_def entry_le_def)
qed

lemma edge_ok_grow: "table_grow st st' \<Longrightarrow> edge_ok st ek e \<Longrightarrow> edge_ok st' ek e"
  by (auto simp: edge_ok_def intro: same_identity_grow)

lemma expand_frame_refl [simp]: "expand_frame b b"
  by (simp add: expand_frame_def)

lemma expand_frame_trans: "expand_frame a b \<Longrightarrow> expand_frame b c \<Longrightarrow> expand_frame a c"
  unfolding expand_frame_def by (auto intro: table_grow_trans map_le_trans)

lemma edges_inv_extend:
  assumes inv: "edges_inv E b" and new: "ek \<notin> E"
    and grow: "table_grow (state_table b) (state_table b')"
    and tables: "(ch_transition_table (b_chart b') = dset ek e (ch_transition_table (b_chart b))
         \<and> ch_transition_censors (b_chart b') = ch_transition_censors (b_chart b)
         \<and> edge_ok (state_table b') ek e)
      \<or> (ch_transition_table (b_chart b') = ch_transition_table (b_chart b)
         \<and> ch_transition_censors (b_chart b') = dset ek r (ch_transition_censors (b_chart b))
         \<and> cr_reason r \<noteq> [])"
  shows "edges_inv (insert ek E) b'"
proof -
  have "edge_ok (state_table b') ek' e'"
    if "dget (ch_transition_table (b_chart b)) ek' = Some e'" for ek' e'
    using inv that edge_ok_grow [OF grow] by (simp add: edges_inv_def del: split_paired_All)
  with tables inv new show ?thesis
    unfolding edges_inv_def by (elim disjE) auto
qed

lemma map_le_dset: "k \<notin> dkeys d \<Longrightarrow> map_of d \<subseteq>\<^sub>m map_of (dset k v d)"
  by (auto simp: map_le_def dget_in_dkeys domIff dget_None)

lemma release_invs [simp]:
  "entry_inv (release t l b) k e = entry_inv b k e"
  "handle_owned (release t l b) h = handle_owned b h"
  "edges_inv E (release t l b) = edges_inv E b"
  "caps_inv (release t l b) = caps_inv b"
  "expanded_keys (release t l b) = expanded_keys b"
  "expand_frame a (release t l b) = expand_frame a b"
  "expand_frame (release t l b) c = expand_frame b c"
  by (auto simp: edges_inv_def caps_inv_def expanded_keys_def entry_inv_def handle_owned_def
      expand_frame_def)

lemma release_table_inv: "table_inv b \<Longrightarrow> table_inv (release t l b)"
  by (auto simp: table_inv_def)

lemma table_inv_cong:
  assumes "state_table b' = state_table b" and "b_task_state_keys b' = b_task_state_keys b"
    and "b_live_ids b' = b_live_ids b"
  shows "table_inv b' = table_inv b"
  by (simp only: table_inv_def entry_inv_def handle_owned_def assms)

lemma only_edges_changed:
  assumes "b_chart b' = (b_chart b)\<lparr>ch_transition_table := tt, ch_transition_censors := tc\<rparr>"
    and "b_task_state_keys b' = b_task_state_keys b" and "b_live_ids b' = b_live_ids b"
  shows "table_inv b' = table_inv b" "caps_inv b' = caps_inv b"
    "expanded_keys b' = expanded_keys b" "state_table b' = state_table b"
  using assms
  by (simp_all add: caps_inv_def expanded_keys_def table_inv_def entry_inv_def handle_owned_def)

text \<open>One recorded row entry: everything a step of the expansion loop guarantees.\<close>

definition row_step :: "edge_key set \<Rightarrow> edge_key \<Rightarrow> 'w builder \<Rightarrow> 'w builder \<Rightarrow> bool" where
  "row_step E ek b b' \<longleftrightarrow> table_inv b' \<and> caps_inv b' \<and> edges_inv (insert ek E) b'
     \<and> expand_frame b b' \<and> table_ext (state_table b) (state_table b')"

lemma set_transition_censor_row_step:
  assumes "table_inv b" "caps_inv b" "edges_inv E b" "ek \<notin> E" "cr_reason r \<noteq> []"
  shows "row_step E ek b (set_transition_censor ek r b)"
proof -
  let ?b = "set_transition_censor ek r b"
  have chart: "b_chart ?b = (b_chart b)\<lparr>ch_transition_table := ch_transition_table (b_chart b),
      ch_transition_censors := dset ek r (ch_transition_censors (b_chart b))\<rparr>"
    by (simp add: builder_defs)
  have same: "b_task_state_keys ?b = b_task_state_keys b" "b_live_ids ?b = b_live_ids b"
    by (simp_all add: builder_defs)
  note only = only_edges_changed [OF chart same]
  have "edges_inv (insert ek E) ?b"
    by (rule edges_inv_extend [OF assms(3,4), where r = r])
      (use assms(5) in \<open>simp_all add: only(4) chart\<close>)
  moreover have "ek \<notin> dkeys (ch_transition_censors (b_chart b))"
    using assms(3,4) by (auto simp: edges_inv_def)
  ultimately show ?thesis
    using assms(1,2) by (simp add: row_step_def only expand_frame_def chart same map_le_dset)
qed

lemma set_transition_row_step:
  assumes "table_inv b" "caps_inv b" "edges_inv E b" "ek \<notin> E" "edge_ok (state_table b) ek e"
  shows "row_step E ek b (set_transition ek e b)"
proof -
  let ?b = "set_transition ek e b"
  have chart: "b_chart ?b = (b_chart b)\<lparr>
      ch_transition_table := dset ek e (ch_transition_table (b_chart b)),
      ch_transition_censors := ch_transition_censors (b_chart b)\<rparr>"
    by (simp add: builder_defs)
  have same: "b_task_state_keys ?b = b_task_state_keys b" "b_live_ids ?b = b_live_ids b"
    by (simp_all add: builder_defs)
  note only = only_edges_changed [OF chart same]
  have "edges_inv (insert ek E) ?b"
    by (rule edges_inv_extend [OF assms(3,4), where e = e])
      (use assms(5) in \<open>simp_all add: only(4) chart\<close>)
  moreover have "ek \<notin> dkeys (ch_transition_table (b_chart b))"
    using assms(3,4) by (auto simp: edges_inv_def)
  ultimately show ?thesis
    using assms(1,2) by (simp add: row_step_def only expand_frame_def chart same map_le_dset)
qed

lemma row_step_release: "row_step E ek b b' \<Longrightarrow> row_step E ek b (release t l b')"
  by (simp add: row_step_def release_table_inv)

lemma admit_state_edges:
  assumes run: "admit_state t st b = Inr b'" and inv: "edges_inv E b"
  shows "edges_inv E b'" and "expand_frame b b'" and "same_identity (state_table b') st"
proof -
  note frame = admit_state_frame [OF run]
  from frame(1) obtain st' where chart: "b_chart b' = (b_chart b)\<lparr>ch_state_table := st'\<rparr>" by blast
  have grow: "table_grow (state_table b) (state_table b')"
    using frame(2) by (rule table_ext_grow)
  then show "edges_inv E b'"
    using inv unfolding edges_inv_def by (simp add: chart edge_ok_grow del: split_paired_All)
  show "expand_frame b b'" using grow frame(4) by (auto simp: expand_frame_def chart)
  show "same_identity (state_table b') st"
    using frame(3) by (auto simp: same_identity_def)
qed

lemma record_event_row_step:
  assumes run: "record_event t key act e b = Inr b'"
    and inv: "table_inv b" "caps_inv b" "edges_inv E b" "(key, act) \<notin> E"
    and event: "oracle_event_ok e" "ev_source_key e = key" "ev_action_id e = act"
  shows "row_step E (key, act) b b'"
proof (cases "ev_censor_reason e")
  case (Some reason)
  with run obtain r where r: "b' = set_transition_censor (key, act) r b" "cr_reason r \<noteq> []"
    by (auto simp: record_event_def bindE_eq_Inr value_errorE_def mk_censor_record_def
        split: if_splits)
  then show ?thesis using inv by (simp add: set_transition_censor_row_step)
next
  case None
  note no_censor = None
  show ?thesis
  proof (cases "ev_replay_verified e")
    case False
    define b1 where "b1 = set_transition_censor (key, act)
        \<lparr>cr_reason = ''independent_replay_not_verified'', cr_source_key = Some key,
         cr_action_id = Some act, cr_derived_from_prefix = False\<rparr> b"
    have "b' = (case ev_target e of None \<Rightarrow> b1 | Some tg \<Rightarrow> release t (sv_live_rpc_state_id tg) b1)"
      using run None False
      unfolding b1_def
      by (simp add: record_event_def value_errorE_def mk_censor_record_def Let_def)
    moreover have "row_step E (key, act) b b1"
      unfolding b1_def using inv by (simp add: set_transition_censor_row_step)
    ultimately show ?thesis by (auto intro: row_step_release split: option.splits)
  next
    case True
    show ?thesis
    proof (cases "ev_totalized_status e = Some OPEN")
      case False
      then have "ev_target e = None" using oracle_event_okD(2) [OF event(1)] by blast
      then have "edge_ok (state_table b) (key, act) e"
        using event True no_censor by (simp add: edge_ok_def is_censor_def)
      moreover have "b' = set_transition (key, act) e b"
        using run no_censor True False by (simp add: record_event_def)
      ultimately show ?thesis using inv by (simp add: set_transition_row_step)
    next
      case open_status: True
      with run no_censor True obtain tg b1 where tg: "ev_target e = Some tg"
          "sv_response_signature tg \<noteq> []" and admit: "admit_state t tg b = Inr b1"
        and b': "b' = set_transition (key, act)
          (e\<lparr>ev_target := Some (tg\<lparr>sv_live_rpc_state_id := None\<rparr>)\<rparr>) b1"
        by (auto simp: record_event_def bindE_eq_Inr value_errorE_def mk_oracle_event_def Let_def
            split: option.splits if_splits)
      note adm = admit_state_edges [OF admit inv(3)]
      have "edge_ok (state_table b1) (key, act)
          (e\<lparr>ev_target := Some (tg\<lparr>sv_live_rpc_state_id := None\<rparr>)\<rparr>)"
        using event tg True no_censor adm(3) oracle_event_ok_no_handle [OF event(1) tg(1)]
        by (simp add: edge_ok_def is_censor_def same_identity_def)
      then have "row_step E (key, act) b1 b'"
        unfolding b'
        by (rule set_transition_row_step [OF admit_state_table_inv [OF inv(1) admit]
              admit_state_caps_inv [OF inv(2) admit] adm(1) inv(4)])
      then show ?thesis
        using adm(2) admit_state_frame(2) [OF admit]
        by (auto simp: row_step_def intro: expand_frame_trans table_ext_trans)
    qed
  qed
qed

text \<open>The oracle's events are values of the dataclass, so they passed its check.\<close>

definition oracle_ok :: "'w transition_oracle \<Rightarrow> bool" where
  "oracle_ok orc \<longleftrightarrow>
     (\<forall>w t s a e w'. orc w t s a = (ReplyEvent e, w') \<longrightarrow> oracle_event_ok e)"

lemma expand_action_row_step:
  assumes run: "expand_action orc t source key act b = Inr b'" and orc: "oracle_ok orc"
    and inv: "table_inv b" "caps_inv b" "edges_inv E b" "(key, act) \<notin> E"
  shows "row_step E (key, act) b b'"
proof -
  from run obtain e w where reply: "orc (b_world b) t source act = (ReplyEvent e, w)"
    and attr: "ev_source_key e = key" "ev_action_id e = act"
    and caps: "ch_primary_attempts (b_chart (count_attempts e b)) \<le> max_primary_attempts (limits b)"
      "ch_replay_attempts (b_chart (count_attempts e b)) \<le> max_replay_attempts (limits b)"
    and rec: "record_event t key act e (count_attempts e (b\<lparr>b_world := w\<rparr>)) = Inr b'"
    by (auto simp: expand_action_def Let_def not_less builder_defs
        split: if_splits prod.splits oracle_reply.splits)
  let ?b = "count_attempts e (b\<lparr>b_world := w\<rparr>)"
  have ok: "oracle_event_ok e" using orc reply unfolding oracle_ok_def by blast
  have "table_inv ?b = table_inv b"
    by (rule table_inv_cong) (simp_all add: builder_defs)
  then have "table_inv ?b" using inv(1) by simp
  moreover have "caps_inv ?b"
    using inv(2) caps oracle_event_okD(3,4) [OF ok] by (simp add: caps_inv_def builder_defs)
  moreover have "edges_inv E ?b" using inv(3) by (simp add: edges_inv_def builder_defs)
  ultimately have step: "row_step E (key, act) ?b b'"
    using record_event_row_step [OF rec] inv(4) ok attr by blast
  have "expand_frame b ?b" "state_table ?b = state_table b"
    by (simp_all add: expand_frame_def builder_defs)
  with step show ?thesis by (auto simp: row_step_def intro: expand_frame_trans)
qed

section \<open>Expansion of a state and of a frontier\<close>

text \<open>The edges present after the states in \<open>expanded_keys\<close> have been expanded.\<close>

definition sealed_edges :: "'w builder \<Rightarrow> edge_key set" where
  "sealed_edges b = expanded_keys b \<times> set (ch_action_ids (b_chart b))"

definition chart_inv :: "'w builder \<Rightarrow> bool" where
  "chart_inv b \<longleftrightarrow> table_inv b \<and> caps_inv b \<and> edges_inv (sealed_edges b) b
     \<and> distinct (ch_action_ids (b_chart b))"

lemma expand_actions_row:
  assumes run: "foldE (expand_action orc t source key) acts b = Inr b'" and orc: "oracle_ok orc"
    and dist: "distinct acts" and key: "key \<notin> expanded_keys b"
    and inv: "table_inv b" "caps_inv b" "edges_inv (sealed_edges b) b"
  shows "table_inv b' \<and> caps_inv b' \<and> edges_inv (sealed_edges b \<union> {key} \<times> set acts) b'
    \<and> expand_frame b b' \<and> table_ext (state_table b) (state_table b')"
  using run
proof (rule foldE_rule [where P = "\<lambda>seen c. table_inv c \<and> caps_inv c
    \<and> edges_inv (sealed_edges b \<union> {key} \<times> set seen) c
    \<and> expand_frame b c \<and> table_ext (state_table b) (state_table c)"])
  show "table_inv b \<and> caps_inv b \<and> edges_inv (sealed_edges b \<union> {key} \<times> set []) b
      \<and> expand_frame b b \<and> table_ext (state_table b) (state_table b)"
    using inv by simp
next
  fix seen x todo c d
  assume acts: "acts = seen @ x # todo"
    and IH: "table_inv c \<and> caps_inv c \<and> edges_inv (sealed_edges b \<union> {key} \<times> set seen) c
      \<and> expand_frame b c \<and> table_ext (state_table b) (state_table c)"
    and step: "expand_action orc t source key x c = Inr d"
  have "(key, x) \<notin> sealed_edges b \<union> {key} \<times> set seen"
    using dist key by (auto simp: acts sealed_edges_def)
  then have "row_step (sealed_edges b \<union> {key} \<times> set seen) (key, x) c d"
    using expand_action_row_step [OF step orc] IH by blast
  then show "table_inv d \<and> caps_inv d \<and> edges_inv (sealed_edges b \<union> {key} \<times> set (seen @ [x])) d
      \<and> expand_frame b d \<and> table_ext (state_table b) (state_table d)"
    using IH
    by (auto simp: row_step_def insert_commute intro: expand_frame_trans table_ext_trans)
qed

lemma mark_expanded_chart:
  assumes "dget (state_table b) k = Some e"
  shows "b_chart (mark_expanded k b) = (b_chart b)\<lparr>ch_state_table := dset k
      (e\<lparr>se_live_rpc_state_id := None, se_expansion_status := Expanded\<rparr>) (state_table b)\<rparr>"
    and "b_task_state_keys (mark_expanded k b) = b_task_state_keys b"
    and "b_live_ids (mark_expanded k b) = b_live_ids b"
  using assms by (simp_all add: mark_expanded_def builder_defs)

lemma mark_expanded_inv:
  assumes e: "dget (state_table b) k = Some e" and inv: "table_inv b" "caps_inv b"
    and handle: "\<And>l. se_live_rpc_state_id e = Some l \<Longrightarrow> (se_first_task_id e, l) \<notin> b_live_ids b"
  shows "table_inv (mark_expanded k b)" and "caps_inv (mark_expanded k b)"
    and "expanded_keys (mark_expanded k b) = insert k (expanded_keys b)"
    and "expand_frame b (mark_expanded k b)"
proof -
  note chart = mark_expanded_chart [OF e]
  let ?b = "mark_expanded k b"
  show "expanded_keys ?b = insert k (expanded_keys b)"
    by (auto simp: expanded_keys_def chart)
  show "expand_frame b ?b"
    by (auto simp: expand_frame_def chart table_grow_def entry_le_def e)
  show "caps_inv ?b"
    using inv(2) by (simp add: caps_inv_def chart length_dset dget_in_dkeys [OF e])
  have entries: "entry_inv ?b k' e'" if "dget (state_table ?b) k' = Some e'" for k' e'
    using that table_invD(2) [OF inv(1), of k' e'] table_invD(2) [OF inv(1) e]
    by (auto simp: entry_inv_def chart split: if_splits)
  have "handle_owned ?b h" if h: "h \<in> b_live_ids b" for h
  proof -
    from table_invD(4) [OF inv(1) h] obtain k' e' where "dget (state_table b) k' = Some e'"
      "se_expansion_status e' = Queued" "se_first_task_id e' = fst h"
      "se_live_rpc_state_id e' = Some (snd h)" unfolding handle_owned_def by blast
    moreover from this handle h e have "k' \<noteq> k" by (metis option.inject prod.collapse)
    ultimately show ?thesis by (auto simp: handle_owned_def chart)
  qed
  with inv(1) entries show "table_inv ?b"
    unfolding table_inv_def by (auto simp: chart)
qed

lemma expand_state_inv:
  assumes run: "expand_state orc e b = Inr b'" and orc: "oracle_ok orc" and inv: "chart_inv b"
    and e: "dget (state_table b) k = Some e" "se_expansion_status e = Queued"
  shows "chart_inv b'" and "expand_frame b b'"
    and "expanded_keys b' = insert k (expanded_keys b)"
proof -
  have k: "se_identity_key e = k"
    using inv e(1) by (auto simp: chart_inv_def table_inv_def entry_inv_def)
  from run e k obtain source b1 where
    loop: "foldE (expand_action orc (se_first_task_id e) source k) (ch_action_ids (b_chart b)) b = Inr b1"
    and b': "b' = mark_expanded k (release (se_first_task_id e) (se_live_rpc_state_id e) b1)"
    by (auto simp: expand_state_def bindE_eq_Inr Let_def)
  have "k \<notin> expanded_keys b" using e by (simp add: expanded_keys_def)
  with expand_actions_row [OF loop orc] inv have row: "table_inv b1" "caps_inv b1"
    "edges_inv (sealed_edges b \<union> {k} \<times> set (ch_action_ids (b_chart b))) b1"
    "expand_frame b b1" and ext: "table_ext (state_table b) (state_table b1)"
    by (simp_all add: chart_inv_def)
  let ?b2 = "release (se_first_task_id e) (se_live_rpc_state_id e) b1"
  from ext e(1) obtain e1 where e1: "dget (state_table ?b2) k = Some e1" and core: "same_core e e1"
    by (auto elim: table_ext_Some)
  have handle: "(se_first_task_id e1, l) \<notin> b_live_ids ?b2" if "se_live_rpc_state_id e1 = Some l" for l
    using that core by (simp add: same_core_def)
  have inv2: "table_inv ?b2" "caps_inv ?b2" using row by (simp_all add: release_table_inv)
  note mark = mark_expanded_inv [OF e1 inv2 handle, folded b']
  from mark(4) row(4) show frame: "expand_frame b b'" by (auto intro: expand_frame_trans)
  show keys: "expanded_keys b' = insert k (expanded_keys b)"
    using mark(3) table_ext_expanded [OF ext] by simp
  have "edges_inv (sealed_edges b \<union> {k} \<times> set (ch_action_ids (b_chart b))) b'"
    using row(3) mark(4) unfolding b' edges_inv_def
    by (auto simp: mark_expanded_chart [OF e1] expand_frame_def intro: edge_ok_grow)
  moreover have "sealed_edges b' = sealed_edges b \<union> {k} \<times> set (ch_action_ids (b_chart b))"
    using frame by (auto simp: sealed_edges_def keys expand_frame_def)
  ultimately show "chart_inv b'"
    using mark(1,2) frame inv by (simp add: chart_inv_def expand_frame_def)
qed

end
