(* ===== verification/ReachableChart_Words.thy ===== *)
theory ReachableChart_Words
  imports ReachableChart_Tables
begin

text \<open>
  The symbolic side of the reachable chart. The abstract specification is \<open>chart_run\<close>: read a
  word symbol by symbol against the sealed rows. The builder instead fills a table depth by
  depth from the parents' entries; the main result is that on success the table holds exactly
  the words up to the depth, each with the value of its run.
\<close>

section \<open>Abstract runs over the sealed rows\<close>

type_synonym word_value = "censor_record + word_outcome"

definition open_outcome :: "state_view \<Rightarrow> word_outcome" where
  "open_outcome s = \<lparr>wo_kind = OPEN, wo_state_key = Some (sv_identity_key s),
     wo_response_signature = sv_response_signature s, wo_derived_terminal = False,
     wo_totalization_rule_digest = None, wo_entry_task_id = None,
     wo_entry_source_key = None, wo_entry_action_id = None, wo_entry_word = None\<rparr>"

definition terminal_outcome :: "outcome_kind \<Rightarrow> string \<Rightarrow> bytes \<Rightarrow> string \<Rightarrow> action_word \<Rightarrow> word_outcome" where
  "terminal_outcome kind t source act word = \<lparr>wo_kind = kind, wo_state_key = None,
     wo_response_signature = [], wo_derived_terminal = False,
     wo_totalization_rule_digest = Some TOTALIZATION_RULE_DIGEST, wo_entry_task_id = Some t,
     wo_entry_source_key = Some source, wo_entry_action_id = Some act, wo_entry_word = Some word\<rparr>"

definition event_outcome :: "string \<Rightarrow> action_word \<Rightarrow> oracle_event \<Rightarrow> word_outcome" where
  "event_outcome t word e =
     (case (ev_totalized_status e, ev_target e) of
        (Some OPEN, Some tg) \<Rightarrow> open_outcome tg
      | (Some st, _) \<Rightarrow> terminal_outcome st t (ev_source_key e) (ev_action_id e) word
      | (None, _) \<Rightarrow> terminal_outcome SINK t (ev_source_key e) (ev_action_id e) word)"

definition row_outcome ::
  "chart \<Rightarrow> string \<Rightarrow> action_word \<Rightarrow> word_value \<Rightarrow> string \<Rightarrow> word_value option" where
  "row_outcome c t pre x act =
     (case x of
        Inl r \<Rightarrow> Some (Inl \<lparr>cr_reason = cr_reason r, cr_source_key = cr_source_key r,
                           cr_action_id = Some act, cr_derived_from_prefix = True\<rparr>)
      | Inr p \<Rightarrow>
          (if wo_kind p \<noteq> OPEN then Some (Inr (p\<lparr>wo_derived_terminal := True\<rparr>))
           else (case Option.bind (wo_state_key p) (\<lambda>k. dget (ch_transition_censors c) (k, act)) of
               Some r \<Rightarrow> Some (Inl r)
             | None \<Rightarrow> map_option (\<lambda>e. Inr (event_outcome t (pre @ [act]) e))
                 (Option.bind (wo_state_key p) (\<lambda>k. dget (ch_transition_table c) (k, act))))))"

fun chart_run ::
  "chart \<Rightarrow> string \<Rightarrow> action_word \<Rightarrow> word_value \<Rightarrow> action_word \<Rightarrow> word_value option" where
  "chart_run c t pre x [] = Some x"
| "chart_run c t pre x (a # w) =
     Option.bind (row_outcome c t pre x a) (\<lambda>y. chart_run c t (pre @ [a]) y w)"

lemma chart_run_snoc:
  "chart_run c t pre x (w @ [a]) =
     Option.bind (chart_run c t pre x w) (\<lambda>y. row_outcome c t (pre @ w) y a)"
  by (induction w arbitrary: pre x) (auto split: bind_splits)

section \<open>The word invariant\<close>

definition lookup_word :: "chart \<Rightarrow> word_key \<Rightarrow> word_value option" where
  "lookup_word c wk =
     (case dget (ch_word_censors c) wk of
        Some r \<Rightarrow> Some (Inl r)
      | None \<Rightarrow> map_option Inr (dget (ch_word_table c) wk))"

definition value_good :: "'w builder \<Rightarrow> string \<Rightarrow> word_value \<Rightarrow> bool" where
  "value_good b t x =
     (case x of
        Inl r \<Rightarrow> cr_reason r \<noteq> []
      | Inr p \<Rightarrow> word_outcome_ok p \<and> (wo_kind p = OPEN \<longrightarrow>
          (\<exists>k. wo_state_key p = Some k \<and> k \<in> b_task_state_keys b t)))"

definition word_row :: "(string \<Rightarrow> word_outcome) \<Rightarrow> word_key set \<Rightarrow> 'w builder \<Rightarrow> string \<Rightarrow> action_word \<Rightarrow> bool" where
  "word_row root W b t w \<longleftrightarrow>
     (\<exists>x. lookup_word (b_chart b) (t, w) = Some x \<and> value_good b t x
        \<and> (if w = [] then x = Inr (root t)
           else (t, butlast w) \<in> W \<and>
             Option.bind (lookup_word (b_chart b) (t, butlast w))
               (\<lambda>y. row_outcome (b_chart b) t (butlast w) y (last w)) = Some x))"

definition words_inv :: "(string \<Rightarrow> word_outcome) \<Rightarrow> word_key set \<Rightarrow> 'w builder \<Rightarrow> bool" where
  "words_inv root W b \<longleftrightarrow>
     dkeys (ch_word_table (b_chart b)) \<union> dkeys (ch_word_censors (b_chart b)) = W
     \<and> dkeys (ch_word_table (b_chart b)) \<inter> dkeys (ch_word_censors (b_chart b)) = {}
     \<and> dict_ok (ch_word_table (b_chart b)) \<and> dict_ok (ch_word_censors (b_chart b))
     \<and> (\<forall>t w. (t, w) \<in> W \<longrightarrow> word_row root W b t w)"

lemma word_rowE:
  assumes "words_inv root W b" and "(t, w) \<in> W"
  obtains x where "lookup_word (b_chart b) (t, w) = Some x" and "value_good b t x"
    and "w = [] \<Longrightarrow> x = Inr (root t)" and "w \<noteq> [] \<Longrightarrow> (t, butlast w) \<in> W"
    and "w \<noteq> [] \<Longrightarrow> Option.bind (lookup_word (b_chart b) (t, butlast w))
               (\<lambda>y. row_outcome (b_chart b) t (butlast w) y (last w)) = Some x"
proof -
  from assms have "word_row root W b t w" unfolding words_inv_def by blast
  then show thesis using that unfolding word_row_def by (auto split: if_splits)
qed

lemma words_inv_run:
  assumes inv: "words_inv root W b" and "(t, w) \<in> W"
  shows "chart_run (b_chart b) t [] (Inr (root t)) w = lookup_word (b_chart b) (t, w)
    \<and> lookup_word (b_chart b) (t, w) \<noteq> None"
  using assms(2)
proof (induction w rule: rev_induct)
  case Nil
  then have "word_row root W b t []" using inv unfolding words_inv_def by blast
  then show ?case by (auto simp: word_row_def)
next
  case (snoc a w)
  then have "word_row root W b t (w @ [a])" using inv unfolding words_inv_def by blast
  then have "(t, w) \<in> W" and "lookup_word (b_chart b) (t, w @ [a]) \<noteq> None"
    and "lookup_word (b_chart b) (t, w @ [a]) = Option.bind (lookup_word (b_chart b) (t, w))
               (\<lambda>y. row_outcome (b_chart b) t w y a)"
    by (auto simp: word_row_def)
  with snoc.IH show ?case by (simp add: chart_run_snoc)
qed

section \<open>What the steps leave alone\<close>

definition chart_frame :: "'w builder \<Rightarrow> 'w builder \<Rightarrow> bool" where
  "chart_frame b b' \<longleftrightarrow>
     ch_action_ids (b_chart b') = ch_action_ids (b_chart b)
     \<and> limits b' = limits b \<and> ch_task_ids (b_chart b') = ch_task_ids (b_chart b)
     \<and> (\<forall>t. b_task_state_keys b t \<subseteq> b_task_state_keys b' t)
     \<and> map_of (ch_transition_table (b_chart b)) \<subseteq>\<^sub>m map_of (ch_transition_table (b_chart b'))
     \<and> map_of (ch_transition_censors (b_chart b))
         \<subseteq>\<^sub>m map_of (ch_transition_censors (b_chart b'))
     \<and> map_of (ch_word_table (b_chart b)) \<subseteq>\<^sub>m map_of (ch_word_table (b_chart b'))
     \<and> map_of (ch_word_censors (b_chart b)) \<subseteq>\<^sub>m map_of (ch_word_censors (b_chart b'))
     \<and> expanded_keys b \<subseteq> expanded_keys b'"

lemma chart_frame_refl [simp]: "chart_frame b b"
  by (simp add: chart_frame_def)

lemma chart_frame_trans: "chart_frame a b \<Longrightarrow> chart_frame b c \<Longrightarrow> chart_frame a c"
  unfolding chart_frame_def by (auto intro: map_le_trans)

lemma map_leD: "m \<subseteq>\<^sub>m m' \<Longrightarrow> m k = Some v \<Longrightarrow> m' k = Some v"
  by (metis domI map_le_def)

text \<open>A value read off the sealed rows is read off every later version of them.\<close>

lemma row_outcome_frame:
  assumes frame: "chart_frame b b'" and edges: "edges_inv E b'"
    and row: "row_outcome (b_chart b) t pre x act = Some y"
  shows "row_outcome (b_chart b') t pre x act = Some y"
proof (cases "\<exists>p k. x = Inr p \<and> wo_kind p = OPEN \<and> wo_state_key p = Some k")
  case False
  then show ?thesis using row
    by (auto simp: row_outcome_def split: sum.splits if_splits option.splits)
next
  case True
  then obtain p k where p: "x = Inr p" "wo_kind p = OPEN" "wo_state_key p = Some k" by blast
  note le = frame [unfolded chart_frame_def]
  show ?thesis
  proof (cases "dget (ch_transition_censors (b_chart b)) (k, act)")
    case (Some r)
    then have "dget (ch_transition_censors (b_chart b')) (k, act) = Some r"
      using le by (auto intro: map_leD)
    with Some row p show ?thesis by (simp add: row_outcome_def)
  next
    case None
    then obtain e where e: "dget (ch_transition_table (b_chart b)) (k, act) = Some e"
        "y = Inr (event_outcome t (pre @ [act]) e)"
      using row p by (auto simp: row_outcome_def)
    then have e': "dget (ch_transition_table (b_chart b')) (k, act) = Some e"
      using le by (auto intro: map_leD)
    then have "dget (ch_transition_censors (b_chart b')) (k, act) = None"
      using edges by (metis disjoint_iff dget_None dget_in_dkeys edges_inv_def)
    with e e' p show ?thesis by (simp add: row_outcome_def)
  qed
qed

lemma expand_frame_chart_frame:
  assumes "expand_frame b b'" and "expanded_keys b \<subseteq> expanded_keys b'"
  shows "chart_frame b b'"
  using assms by (simp add: chart_frame_def expand_frame_def)

lemma value_good_mono:
  assumes "value_good b t x" and "b_task_state_keys b t \<subseteq> b_task_state_keys b' t"
  shows "value_good b' t x"
  using assms unfolding value_good_def by (auto split: sum.splits)

lemma words_inv_frame:
  assumes inv: "words_inv root W b" and frame: "chart_frame b b'" and edges: "edges_inv E b'"
    and same: "ch_word_table (b_chart b') = ch_word_table (b_chart b)"
      "ch_word_censors (b_chart b') = ch_word_censors (b_chart b)"
  shows "words_inv root W b'"
proof -
  have look: "lookup_word (b_chart b') wk = lookup_word (b_chart b) wk" for wk
    by (simp only: lookup_word_def same)
  have "word_row root W b' t w" if "(t, w) \<in> W" for t w
  proof -
    from word_rowE [OF inv that] obtain x where
      x: "lookup_word (b_chart b) (t, w) = Some x" "value_good b t x"
      and row: "w = [] \<Longrightarrow> x = Inr (root t)" "w \<noteq> [] \<Longrightarrow> (t, butlast w) \<in> W"
        "w \<noteq> [] \<Longrightarrow> Option.bind (lookup_word (b_chart b) (t, butlast w))
               (\<lambda>y. row_outcome (b_chart b) t (butlast w) y (last w)) = Some x" by blast
    have "value_good b' t x"
      using x(2) frame by (auto simp: chart_frame_def intro: value_good_mono)
    moreover have "Option.bind (lookup_word (b_chart b) (t, butlast w))
               (\<lambda>y. row_outcome (b_chart b') t (butlast w) y (last w)) = Some x" if "w \<noteq> []"
      using row(3) [OF that] row_outcome_frame [OF frame edges] by (auto simp: bind_eq_Some_conv)
    ultimately show ?thesis
      using x(1) row unfolding word_row_def look by auto
  qed
  with inv show ?thesis by (simp add: words_inv_def same)
qed

section \<open>The frontier keeps the words\<close>

lemma expand_frontier_inv:
  assumes run: "expand_frontier orc d b = Inr b'" and orc: "oracle_ok orc" and inv: "chart_inv b"
  shows "chart_inv b'" and "expand_frame b b'"
    and "expanded_keys b' = expanded_keys b \<union> the ` set (frontier d (b_chart b))"
    and "None \<notin> set (frontier d (b_chart b))"
proof -
  define keys where "keys = sorted_set (map the (frontier d (b_chart b)))"
  define body where "body = (\<lambda>k b. case dget (state_table b) k of
          None \<Rightarrow> Inl (ChartKeyError, b)
        | Some e \<Rightarrow> if se_expansion_status e = Queued then expand_state orc e b else Inr b)"
  from run have none: "None \<notin> set (frontier d (b_chart b))" and loop: "foldE body keys b = Inr b'"
    by (auto simp: expand_frontier_def Let_def keys_def body_def split: if_splits)
  from loop have "chart_inv b' \<and> expand_frame b b' \<and> expanded_keys b' = expanded_keys b \<union> set keys"
  proof (rule foldE_rule [where P = "\<lambda>seen c. chart_inv c \<and> expand_frame b c
      \<and> expanded_keys c = expanded_keys b \<union> set seen"])
    show "chart_inv b \<and> expand_frame b b \<and> expanded_keys b = expanded_keys b \<union> set []"
      using inv by simp
  next
    fix seen k todo c c'
    assume IH: "chart_inv c \<and> expand_frame b c \<and> expanded_keys c = expanded_keys b \<union> set seen"
      and step: "body k c = Inr c'"
    from step obtain e where e: "dget (state_table c) k = Some e"
      by (auto simp: body_def split: option.splits)
    show "chart_inv c' \<and> expand_frame b c' \<and> expanded_keys c' = expanded_keys b \<union> set (seen @ [k])"
    proof (cases "se_expansion_status e")
      case Queued
      with step e have "expand_state orc e c = Inr c'" by (simp add: body_def)
      from expand_state_inv [OF this orc _ e Queued] IH show ?thesis
        by (auto intro: expand_frame_trans)
    next
      case Expanded
      with e have "k \<in> expanded_keys c" by (simp add: expanded_keys_def)
      moreover from step e Expanded have "c' = c" by (simp add: body_def)
      ultimately show ?thesis using IH by auto
    qed
  qed
  then show "chart_inv b'" "expand_frame b b'"
    "expanded_keys b' = expanded_keys b \<union> the ` set (frontier d (b_chart b))"
    by (simp_all add: keys_def)
  show "None \<notin> set (frontier d (b_chart b))" by (rule none)
qed

lemma register_task_reach_inv:
  assumes run: "register_task_reach t k b = Inr b'" and inv: "chart_inv b"
  shows "chart_inv b'" and "chart_frame b b'" and "k \<in> b_task_state_keys b' t"
    and "ch_word_table (b_chart b') = ch_word_table (b_chart b)"
    and "ch_word_censors (b_chart b') = ch_word_censors (b_chart b)"
    and "expanded_keys b' = expanded_keys b"
    and "ch_transition_table (b_chart b') = ch_transition_table (b_chart b)"
    and "ch_transition_censors (b_chart b') = ch_transition_censors (b_chart b)"
    and "\<And>t'. k' \<in> b_task_state_keys b' t' \<Longrightarrow> k' \<in> b_task_state_keys b t' \<or> (t' = t \<and> k' = k)"
proof -
  from run obtain e where e: "dget (state_table b) k = Some e"
    and cases: "(k \<in> b_task_state_keys b t \<and> b' = b) \<or>
      (\<not> over_task_cap t (add_task_key t k b) \<and>
       b' = set_state_entry k (e\<lparr>se_task_ids := insert t (se_task_ids e)\<rparr>) (add_task_key t k b))"
    by (auto simp: register_task_reach_def Let_def split: option.splits if_splits)
  have all: "chart_inv b' \<and> chart_frame b b' \<and> k \<in> b_task_state_keys b' t
    \<and> ch_word_table (b_chart b') = ch_word_table (b_chart b)
    \<and> ch_word_censors (b_chart b') = ch_word_censors (b_chart b)
    \<and> expanded_keys b' = expanded_keys b
    \<and> ch_transition_table (b_chart b') = ch_transition_table (b_chart b)
    \<and> ch_transition_censors (b_chart b') = ch_transition_censors (b_chart b)
    \<and> (\<forall>t' k'. k' \<in> b_task_state_keys b' t' \<longrightarrow> k' \<in> b_task_state_keys b t' \<or> (t' = t \<and> k' = k))"
    using cases
  proof (elim disjE conjE)
    assume "k \<in> b_task_state_keys b t" and "b' = b"
    with inv show ?thesis by simp
  next
    assume cap: "\<not> over_task_cap t (add_task_key t k b)"
      and b': "b' = set_state_entry k (e\<lparr>se_task_ids := insert t (se_task_ids e)\<rparr>)
        (add_task_key t k b)"
    note d = b' builder_defs
    have st: "state_table b' = dset k (e\<lparr>se_task_ids := insert t (se_task_ids e)\<rparr>) (state_table b)"
      and keys: "b_task_state_keys b' = (b_task_state_keys b)(t := insert k (b_task_state_keys b t))"
      and live: "b_live_ids b' = b_live_ids b"
      and rest: "ch_word_table (b_chart b') = ch_word_table (b_chart b)"
        "ch_word_censors (b_chart b') = ch_word_censors (b_chart b)"
        "ch_transition_table (b_chart b') = ch_transition_table (b_chart b)"
        "ch_transition_censors (b_chart b') = ch_transition_censors (b_chart b)"
        "ch_action_ids (b_chart b') = ch_action_ids (b_chart b)" "limits b' = limits b"
        "ch_task_ids (b_chart b') = ch_task_ids (b_chart b)"
        "ch_primary_attempts (b_chart b') = ch_primary_attempts (b_chart b)"
        "ch_replay_attempts (b_chart b') = ch_replay_attempts (b_chart b)"
      by (simp_all add: d)
    have ext: "table_ext (state_table b) (state_table b')"
      by (rule table_extI) (auto simp: st e same_core_def split: if_splits)
    note expanded = table_ext_expanded [OF ext]
    have inv_t: "table_inv b" and inv_c: "caps_inv b" and inv_e: "edges_inv (sealed_edges b) b"
      and dist: "distinct (ch_action_ids (b_chart b))"
      using inv by (simp_all add: chart_inv_def)
    have "entry_inv b k e" using inv_t e by (rule table_invD)
    then have "entry_inv b' k' e'" if "dget (state_table b') k' = Some e'" for k' e'
      using that table_invD(2) [OF inv_t, of k' e']
      by (auto simp: st keys entry_inv_def split: if_splits)
    moreover have "handle_owned b' h" if "handle_owned b h" for h
      using ext that by (rule handle_owned_ext)
    ultimately have t: "table_inv b'"
      using inv_t e unfolding table_inv_def live by (auto simp: st keys dget_in_dkeys)
    have c: "caps_inv b'"
      using inv_c cap
      by (auto simp: caps_inv_def rest keys st length_dset dget_in_dkeys [OF e] over_task_cap_def
          builder_defs)
    have "edge_ok (state_table b') ek ev"
      if "dget (ch_transition_table (b_chart b)) ek = Some ev" for ek ev
      using inv_e that edge_ok_grow [OF table_ext_grow [OF ext]]
      by (simp add: edges_inv_def del: split_paired_All)
    then have "edges_inv (sealed_edges b') b'"
      using inv_e unfolding edges_inv_def sealed_edges_def rest expanded by blast
    with t c dist have "chart_inv b'" by (simp add: chart_inv_def rest)
    then show ?thesis
      by (auto simp: chart_frame_def rest keys expanded split: if_splits)
  qed
  then show "chart_inv b'" "chart_frame b b'" "k \<in> b_task_state_keys b' t"
    "ch_word_table (b_chart b') = ch_word_table (b_chart b)"
    "ch_word_censors (b_chart b') = ch_word_censors (b_chart b)"
    "expanded_keys b' = expanded_keys b"
    "ch_transition_table (b_chart b') = ch_transition_table (b_chart b)"
    "ch_transition_censors (b_chart b') = ch_transition_censors (b_chart b)"
    by blast+
  show "\<And>t'. k' \<in> b_task_state_keys b' t' \<Longrightarrow> k' \<in> b_task_state_keys b t' \<or> (t' = t \<and> k' = k)"
    using all by blast
qed

section \<open>One word\<close>

definition put_word :: "word_key \<Rightarrow> word_value \<Rightarrow> 'w builder \<Rightarrow> 'w builder" where
  "put_word wk x b = (case x of Inl r \<Rightarrow> set_word_censor wk r b | Inr out \<Rightarrow> set_word wk out b)"

lemma put_word_same [simp]:
  "b_task_state_keys (put_word wk x b) = b_task_state_keys b"
  "b_live_ids (put_word wk x b) = b_live_ids b"
  "state_table (put_word wk x b) = state_table b"
  "ch_transition_table (b_chart (put_word wk x b)) = ch_transition_table (b_chart b)"
  "ch_transition_censors (b_chart (put_word wk x b)) = ch_transition_censors (b_chart b)"
  "ch_action_ids (b_chart (put_word wk x b)) = ch_action_ids (b_chart b)"
  "ch_task_ids (b_chart (put_word wk x b)) = ch_task_ids (b_chart b)"
  "limits (put_word wk x b) = limits b"
  "ch_primary_attempts (b_chart (put_word wk x b)) = ch_primary_attempts (b_chart b)"
  "ch_replay_attempts (b_chart (put_word wk x b)) = ch_replay_attempts (b_chart b)"
  by (simp_all add: put_word_def builder_defs split: sum.split)

lemma put_word_invs [simp]:
  "chart_inv (put_word wk x b) = chart_inv b"
  "expanded_keys (put_word wk x b) = expanded_keys b"
  "row_outcome (b_chart (put_word wk x b)) t pre y act = row_outcome (b_chart b) t pre y act"
  "value_good (put_word wk x b) t y = value_good b t y"
  by (simp_all only: chart_inv_def table_inv_def entry_inv_def handle_owned_def caps_inv_def
      edges_inv_def sealed_edges_def expanded_keys_def row_outcome_def value_good_def put_word_same)

lemma put_word_frame:
  assumes "wk \<notin> dkeys (ch_word_table (b_chart b))" "wk \<notin> dkeys (ch_word_censors (b_chart b))"
  shows "chart_frame b (put_word wk x b)"
  using assms
  by (cases x) (simp_all add: chart_frame_def put_word_def builder_defs map_le_dset expanded_keys_def)

lemma lookup_put_word:
  assumes "wk \<notin> dkeys (ch_word_table (b_chart b))" "wk \<notin> dkeys (ch_word_censors (b_chart b))"
  shows "lookup_word (b_chart (put_word wk x b)) wk' =
    (if wk' = wk then Some x else lookup_word (b_chart b) wk')"
  using assms
  by (cases x) (simp_all add: lookup_word_def put_word_def builder_defs dget_None [symmetric]
      split: option.split)

lemma words_inv_keys:
  assumes "words_inv root W b" and "wk \<notin> W"
  shows "wk \<notin> dkeys (ch_word_table (b_chart b))" "wk \<notin> dkeys (ch_word_censors (b_chart b))"
  using assms unfolding words_inv_def by blast+

lemma words_inv_put:
  assumes inv: "words_inv root W b" and new: "(t, w) \<notin> W" and good: "value_good b t x"
    and row: "w = [] \<Longrightarrow> x = Inr (root t)"
      "w \<noteq> [] \<Longrightarrow> (t, butlast w) \<in> W \<and> Option.bind (lookup_word (b_chart b) (t, butlast w))
         (\<lambda>y. row_outcome (b_chart b) t (butlast w) y (last w)) = Some x"
  shows "words_inv root (insert (t, w) W) (put_word (t, w) x b)"
proof -
  note keys = words_inv_keys [OF inv new]
  note look = lookup_put_word [OF keys]
  let ?b = "put_word (t, w) x b"
  have old: "word_row root (insert (t, w) W) ?b t' w'" if "(t', w') \<in> W" for t' w'
  proof -
    from word_rowE [OF inv that] obtain y where
      y: "lookup_word (b_chart b) (t', w') = Some y" "value_good b t' y"
      and row': "w' = [] \<Longrightarrow> y = Inr (root t')" "w' \<noteq> [] \<Longrightarrow> (t', butlast w') \<in> W"
        "w' \<noteq> [] \<Longrightarrow> Option.bind (lookup_word (b_chart b) (t', butlast w'))
               (\<lambda>y. row_outcome (b_chart b) t' (butlast w') y (last w')) = Some y" by blast
    have ne: "(t', w') \<noteq> (t, w)" using that new by auto
    show ?thesis
    proof (cases "w' = []")
      case True
      with ne y row'(1) show ?thesis unfolding word_row_def look put_word_invs by auto
    next
      case False
      with row'(2) new have "(t', butlast w') \<noteq> (t, w)" by auto
      with False ne y row'(2,3) [OF False] show ?thesis
        unfolding word_row_def look put_word_invs by (auto simp del: split_paired_Ex)
    qed
  qed
  have "word_row root (insert (t, w) W) ?b t w"
  proof (cases "w = []")
    case True
    have "lookup_word (b_chart ?b) (t, w) = Some x" by (simp add: look)
    with True show ?thesis using good row(1) by (auto simp: word_row_def)
  next
    case False
    then have "(t, butlast w) \<noteq> (t, w)" using row(2) new by auto
    with False show ?thesis using good row(2) by (simp add: word_row_def look)
  qed
  with old have rows: "\<forall>t' w'. (t', w') \<in> insert (t, w) W \<longrightarrow>
      word_row root (insert (t, w) W) ?b t' w'" by blast
  show ?thesis
    using inv keys rows unfolding words_inv_def
    by (cases x) (auto simp: put_word_def builder_defs)
qed

definition parent_value ::
  "censor_record option \<Rightarrow> word_outcome option \<Rightarrow> word_value option" where
  "parent_value pc p = (case pc of Some r \<Rightarrow> Some (Inl r) | None \<Rightarrow> map_option Inr p)"

text \<open>What one word adds: its value read off the sealed rows, and nothing else.\<close>

definition word_added ::
  "string \<Rightarrow> action_word \<Rightarrow> word_value \<Rightarrow> string \<Rightarrow> 'w builder \<Rightarrow> 'w builder \<Rightarrow> bool" where
  "word_added t pw y act b b' \<longleftrightarrow> (\<exists>b1 x. b' = put_word (t, pw @ [act]) x b1
     \<and> chart_inv b1 \<and> chart_frame b b1 \<and> expanded_keys b1 = expanded_keys b
     \<and> ch_word_table (b_chart b1) = ch_word_table (b_chart b)
     \<and> ch_word_censors (b_chart b1) = ch_word_censors (b_chart b)
     \<and> row_outcome (b_chart b) t pw y act = Some x \<and> value_good b1 t x)"

lemma word_addedI:
  assumes "row_outcome (b_chart b) t pw y act = Some x" and "value_good b t x" and "chart_inv b"
  shows "word_added t pw y act b (put_word (t, pw @ [act]) x b)"
  unfolding word_added_def using assms by (intro exI [of _ b] exI [of _ x]) simp

lemma open_word_step_added:
  assumes run: "open_word_step t pw (wo_state_key q) act b = Inr b'" and inv: "chart_inv b"
    and "open": "wo_kind q = OPEN" and key: "wo_state_key q = Some k"
  shows "word_added t pw (Inr q) act b b'"
proof -
  have edges: "edges_inv (sealed_edges b) b" using inv by (simp add: chart_inv_def)
  show ?thesis
  proof (cases "dget (ch_transition_censors (b_chart b)) (k, act)")
    case (Some r)
    then have b': "b' = put_word (t, pw @ [act]) (Inl r) b"
      using run key by (simp add: open_word_step_def put_word_def)
    have "cr_reason r \<noteq> []" using edges Some by (simp add: edges_inv_def del: split_paired_All)
    then show ?thesis unfolding b'
      by (intro word_addedI) (simp_all add: row_outcome_def "open" key Some value_good_def inv)
  next
    case None
    with run key obtain e where e: "dget (ch_transition_table (b_chart b)) (k, act) = Some e"
      by (auto simp: open_word_step_def split: option.splits)
    have ok: "edge_ok (state_table b) (k, act) e"
      using edges e by (simp add: edges_inv_def del: split_paired_All)
    then have ev: "oracle_event_ok e" "\<not> is_censor e" "ev_source_key e = k" "ev_action_id e = act"
      by (simp_all add: edge_ok_def)
    have row: "row_outcome (b_chart b) t pw (Inr q) act = Some (Inr (event_outcome t (pw @ [act]) e))"
      by (simp add: row_outcome_def "open" key None e)
    show ?thesis
    proof (cases "ev_totalized_status e = Some OPEN")
      case True
      then obtain tg where tg: "ev_target e = Some tg"
        using oracle_event_okD(2) [OF ev(1)] by auto
      have sig: "sv_response_signature tg \<noteq> []" using ok tg by (simp add: edge_ok_def)
      from run None e True tg sig key obtain b1 where
        reg: "register_task_reach t (sv_identity_key tg) b = Inr b1"
        and b': "b' = put_word (t, pw @ [act]) (Inr (open_outcome tg)) b1"
        by (auto simp: open_word_step_def bindE_eq_Inr builder_defs from_state_eq_Inr put_word_def
            open_outcome_def)
      note r = register_task_reach_inv [OF reg inv]
      have "value_good b1 t (Inr (open_outcome tg))"
        using r(3) sig by (simp add: value_good_def open_outcome_def open_ok_iff)
      with r row show ?thesis
        unfolding word_added_def b'
        by (intro exI [of _ b1] exI [of _ "Inr (open_outcome tg)"])
          (simp add: event_outcome_def True tg)
    next
      case False
      then obtain st where st: "ev_totalized_status e = Some st" "st \<noteq> OPEN"
        using oracle_event_okD(1) [OF ev(1)] ev(2) by auto
      from run None e st key obtain out where
        out: "terminal st t k act (pw @ [act]) TOTALIZATION_RULE_DIGEST False = Inr out"
        and b': "b' = put_word (t, pw @ [act]) (Inr out) b"
        by (auto simp: open_word_step_def bindE_eq_Inr value_errorE_def put_word_def ev)
      have "event_outcome t (pw @ [act]) e = out"
        using out st by (cases st) (simp_all add: event_outcome_def terminal_outcome_def ev terminal_eq_Inr)
      moreover have "value_good b t (Inr out)"
        using terminal_ok [OF out] out by (simp add: value_good_def terminal_eq_Inr)
      ultimately show ?thesis
        unfolding b' using row inv by (intro word_addedI) simp_all
    qed
  qed
qed

lemma word_step_added:
  assumes run: "word_step t pw pc p act b = Inr b'" and inv: "chart_inv b"
    and y: "\<And>y. parent_value pc p = Some y \<Longrightarrow> value_good b t y"
  shows "\<exists>y. parent_value pc p = Some y \<and> word_added t pw y act b b'"
proof (cases pc)
  case (Some r)
  then have pv: "parent_value pc p = Some (Inl r)" by (simp add: parent_value_def)
  from y [OF this] have reason: "cr_reason r \<noteq> []" by (simp add: value_good_def)
  let ?x = "Inl \<lparr>cr_reason = cr_reason r, cr_source_key = cr_source_key r,
                 cr_action_id = Some act, cr_derived_from_prefix = True\<rparr> :: word_value"
  have b': "b' = put_word (t, pw @ [act]) ?x b"
    using run Some reason
    by (auto simp: word_step_def bindE_eq_Inr value_errorE_def mk_censor_record_def put_word_def)
  have "word_added t pw (Inl r) act b b'" unfolding b'
    by (rule word_addedI) (simp_all add: row_outcome_def value_good_def reason inv)
  with pv show ?thesis by blast
next
  case None
  with run obtain q where q: "p = Some q" by (auto simp: word_step_def split: option.splits)
  with None have pv: "parent_value pc p = Some (Inr q)" by (simp add: parent_value_def)
  from y [OF this] have good: "word_outcome_ok q"
    "wo_kind q = OPEN \<Longrightarrow> \<exists>k. wo_state_key q = Some k" by (auto simp: value_good_def)
  show ?thesis
  proof (cases "wo_kind q = OPEN")
    case True
    with good(2) obtain k where "wo_state_key q = Some k" by blast
    with open_word_step_added [OF _ inv True this] run None q True pv show ?thesis
      by (auto simp: word_step_def)
  next
    case False
    note ext = derived_extension [OF good(1) False]
    from ext [of "wo_derived_terminal q"]
    have "derived_terminal_extension q = Inr (q\<lparr>wo_derived_terminal := True\<rparr>)" by simp
    with run None q False
    have b': "b' = put_word (t, pw @ [act]) (Inr (q\<lparr>wo_derived_terminal := True\<rparr>)) b"
      by (simp add: word_step_def value_errorE_def put_word_def)
    have "word_outcome_ok (q\<lparr>wo_derived_terminal := True\<rparr>)"
      using good(1) False by (simp add: terminal_ok_iff)
    then have "word_added t pw (Inr q) act b b'" unfolding b'
      using False inv by (intro word_addedI) (simp_all add: row_outcome_def value_good_def)
    with pv show ?thesis by blast
  qed
qed

section \<open>All words of one depth\<close>

definition grown ::
  "(string \<Rightarrow> word_outcome) \<Rightarrow> word_key set \<Rightarrow> 'w builder \<Rightarrow> 'w builder \<Rightarrow> bool" where
  "grown root W b b' \<longleftrightarrow> chart_inv b' \<and> words_inv root W b' \<and> chart_frame b b'
     \<and> expanded_keys b' = expanded_keys b"

lemma grown_trans: "grown root V a b \<Longrightarrow> grown root W b c \<Longrightarrow> grown root W a c"
  unfolding grown_def by (auto intro: chart_frame_trans)

lemma grownD:
  assumes "grown root W b b'"
  shows "chart_inv b'" "words_inv root W b'" "chart_frame b b'"
    "ch_action_ids (b_chart b') = ch_action_ids (b_chart b)"
    "ch_task_ids (b_chart b') = ch_task_ids (b_chart b)"
  using assms by (simp_all add: grown_def chart_frame_def)

lemma chart_inv_edges: "chart_inv b \<Longrightarrow> edges_inv (sealed_edges b) b"
  by (simp add: chart_inv_def)

lemma word_added_grown:
  assumes add: "word_added t pw y act b b'" and words: "words_inv root W b"
    and look: "lookup_word (b_chart b) (t, pw) = Some y" and "(t, pw) \<in> W"
    and new: "(t, pw @ [act]) \<notin> W"
  shows "grown root (insert (t, pw @ [act]) W) b b'"
    and "lookup_word (b_chart b') (t, pw) = Some y"
proof -
  from add obtain b1 x where b': "b' = put_word (t, pw @ [act]) x b1"
    and b1: "chart_inv b1" "chart_frame b b1" "expanded_keys b1 = expanded_keys b"
      "ch_word_table (b_chart b1) = ch_word_table (b_chart b)"
      "ch_word_censors (b_chart b1) = ch_word_censors (b_chart b)"
    and x: "row_outcome (b_chart b) t pw y act = Some x" "value_good b1 t x"
    unfolding word_added_def by blast
  note edges = chart_inv_edges [OF b1(1)]
  have words1: "words_inv root W b1"
    by (rule words_inv_frame [OF words b1(2) edges b1(4,5)])
  have look1: "lookup_word (b_chart b1) (t, pw) = Some y"
    using look by (simp only: lookup_word_def b1(4,5))
  have row1: "row_outcome (b_chart b1) t pw y act = Some x"
    by (rule row_outcome_frame [OF b1(2) edges x(1)])
  have "words_inv root (insert (t, pw @ [act]) W) b'" unfolding b'
    by (rule words_inv_put [OF words1 new x(2)]) (simp_all add: look1 row1 assms(4))
  moreover have "chart_frame b b'" unfolding b'
    using b1(2) put_word_frame words_inv_keys [OF words1 new] by (blast intro: chart_frame_trans)
  ultimately show "grown root (insert (t, pw @ [act]) W) b b'"
    using b1 by (simp add: grown_def b')
  show "lookup_word (b_chart b') (t, pw) = Some y"
    using words_inv_keys [OF words1 new] look1 by (simp add: b' lookup_put_word)
qed

text \<open>The state of the loop over the actions below one parent word.\<close>

definition extending ::
  "(string \<Rightarrow> word_outcome) \<Rightarrow> word_key set \<Rightarrow> string \<Rightarrow> action_word \<Rightarrow> word_value \<Rightarrow> 'w builder
   \<Rightarrow> string list \<Rightarrow> 'w builder \<Rightarrow> bool" where
  "extending root W t pw y b seen c \<longleftrightarrow> grown root (W \<union> (\<lambda>a. (t, pw @ [a])) ` set seen) b c
     \<and> lookup_word (b_chart c) (t, pw) = Some y \<and> value_good c t y"

lemma extending_step:
  assumes P: "extending root W t pw y b seen c" and step: "word_step t pw pc p a c = Inr c'"
    and pv: "parent_value pc p = Some y" and mem: "(t, pw) \<in> W"
    and new: "(t, pw @ [a]) \<notin> W" "a \<notin> set seen"
  shows "extending root W t pw y b (seen @ [a]) c'"
proof -
  from P have g: "grown root (W \<union> (\<lambda>a. (t, pw @ [a])) ` set seen) b c"
    and look: "lookup_word (b_chart c) (t, pw) = Some y" and good: "value_good c t y"
    by (simp_all add: extending_def)
  have "\<exists>z. parent_value pc p = Some z \<and> word_added t pw z a c c'"
    using pv good grownD(1) [OF g] by (intro word_step_added [OF step]) auto
  then have add: "word_added t pw y a c c'" using pv by simp
  have fresh: "(t, pw @ [a]) \<notin> W \<union> (\<lambda>a. (t, pw @ [a])) ` set seen" using new by auto
  from word_added_grown [OF add grownD(2) [OF g] look _ fresh] mem
  have g': "grown root (insert (t, pw @ [a]) (W \<union> (\<lambda>a. (t, pw @ [a])) ` set seen)) c c'"
    and "lookup_word (b_chart c') (t, pw) = Some y" by auto
  moreover have "value_good c' t y"
    using good grownD(3) [OF g'] by (auto simp: chart_frame_def intro: value_good_mono)
  ultimately show ?thesis using g by (auto simp: extending_def intro: grown_trans)
qed

lemma extending_init:
  assumes "chart_inv b" and "words_inv root W b" and "(t, pw) \<in> W"
  obtains y where "lookup_word (b_chart b) (t, pw) = Some y"
    and "parent_value (dget (ch_word_censors (b_chart b)) (t, pw))
           (dget (ch_word_table (b_chart b)) (t, pw)) = Some y"
    and "extending root W t pw y b [] b"
proof -
  from word_rowE [OF assms(2,3)] obtain y where
    "lookup_word (b_chart b) (t, pw) = Some y" "value_good b t y" by blast
  then show thesis
    using assms that [of y] by (simp add: extending_def grown_def parent_value_def lookup_word_def)
qed

lemma extend_word_grown:
  assumes run: "extend_word t pw b = Inr b'" and inv: "chart_inv b" and words: "words_inv root W b"
    and mem: "(t, pw) \<in> W" and new: "\<And>a. (t, pw @ [a]) \<notin> W"
  shows "grown root (W \<union> (\<lambda>a. (t, pw @ [a])) ` set (ch_action_ids (b_chart b))) b b'"
proof -
  obtain y where pv: "parent_value (dget (ch_word_censors (b_chart b)) (t, pw))
      (dget (ch_word_table (b_chart b)) (t, pw)) = Some y"
    and init: "extending root W t pw y b [] b"
    using extending_init [OF inv words mem] by blast
  have dist: "distinct (ch_action_ids (b_chart b))" using inv by (simp add: chart_inv_def)
  from run have "extending root W t pw y b (ch_action_ids (b_chart b)) b'"
    unfolding extend_word_def
    by (rule foldE_rule [where P = "extending root W t pw y b", OF _ init])
      (use dist in \<open>auto intro!: extending_step [OF _ _ pv mem new]\<close>)
  then show ?thesis by (simp add: extending_def)
qed

definition words_of :: "string list \<Rightarrow> nat \<Rightarrow> action_word set" where
  "words_of ids n = {w. length w = n \<and> set w \<subseteq> set ids}"

lemma words_of_Suc: "words_of ids (Suc n) = (\<lambda>(w, a). w @ [a]) ` (words_of ids n \<times> set ids)"
proof (rule set_eqI)
  fix w show "w \<in> words_of ids (Suc n) \<longleftrightarrow> w \<in> (\<lambda>(w, a). w @ [a]) ` (words_of ids n \<times> set ids)"
    by (cases w rule: rev_cases) (auto simp: words_of_def image_iff)
qed

abbreviation below :: "string \<Rightarrow> action_word list \<Rightarrow> string list \<Rightarrow> word_key set" where
  "below t ws ids \<equiv> (\<lambda>(w, a). (t, w @ [a])) ` (set ws \<times> set ids)"

lemma extend_task_step:
  assumes P: "grown root (W \<union> below t seen ids) b c" and step: "extend_word t w c = Inr c'"
    and ids: "ids = ch_action_ids (b_chart b)" and mem: "(t, w) \<in> W"
    and new: "\<And>a. (t, w @ [a]) \<notin> W" "w \<notin> set seen"
  shows "grown root (W \<union> below t (seen @ [w]) ids) b c'"
proof -
  let ?W = "W \<union> below t seen ids"
  have "(t, w) \<in> ?W" using mem by simp
  moreover have "(t, w @ [a]) \<notin> ?W" for a using new by auto
  ultimately have "grown root (?W \<union> (\<lambda>a. (t, w @ [a])) ` set (ch_action_ids (b_chart c))) c c'"
    by (rule extend_word_grown [OF step grownD(1,2) [OF P]])
  moreover have "?W \<union> (\<lambda>a. (t, w @ [a])) ` set (ch_action_ids (b_chart c))
      = W \<union> below t (seen @ [w]) ids"
    by (auto simp: grownD(4) [OF P] ids)
  ultimately show ?thesis using grown_trans [OF P] by simp
qed

lemma extend_task_grown:
  assumes run: "foldE (extend_word t) ws b = Inr b'" and inv: "chart_inv b"
    and words: "words_inv root W b" and dist: "distinct ws"
    and mem: "\<And>w. w \<in> set ws \<Longrightarrow> (t, w) \<in> W" and new: "\<And>w a. w \<in> set ws \<Longrightarrow> (t, w @ [a]) \<notin> W"
  shows "grown root (W \<union> below t ws (ch_action_ids (b_chart b))) b b'"
  using run
proof (rule foldE_rule [where P = "\<lambda>seen c. grown root (W \<union> below t seen (ch_action_ids (b_chart b))) b c"])
  show "grown root (W \<union> below t [] (ch_action_ids (b_chart b))) b b"
    using inv words by (simp add: grown_def)
  show "grown root (W \<union> below t (seen @ [w]) (ch_action_ids (b_chart b))) b c'"
    if "ws = seen @ w # todo" "grown root (W \<union> below t seen (ch_action_ids (b_chart b))) b c"
      "extend_word t w c = Inr c'" for seen w todo c c'
    using that dist mem new by (intro extend_task_step) auto
qed

definition chart_words :: "chart \<Rightarrow> nat \<Rightarrow> word_key set" where
  "chart_words c d = set (ch_task_ids c) \<times> (\<Union>n \<le> d. words_of (ch_action_ids c) n)"

text \<open>The loop over the tasks at one depth: what the words are before and after one task.\<close>

abbreviation task_words :: "chart \<Rightarrow> nat \<Rightarrow> string list \<Rightarrow> word_key set" where
  "task_words c d seen \<equiv> chart_words c d \<union> set seen \<times> words_of (ch_action_ids c) (Suc d)"

lemma depth_words:
  assumes ws: "words_at_depth (ch_action_ids c) (int d) = Inr ws"
    and t: "t \<in> set (ch_task_ids c)" "t \<notin> set seen"
  shows "distinct ws" and "\<And>w. w \<in> set ws \<Longrightarrow> (t, w) \<in> task_words c d seen"
    and "\<And>w a. w \<in> set ws \<Longrightarrow> (t, w @ [a]) \<notin> task_words c d seen"
    and "task_words c d seen \<union> below t ws (ch_action_ids c) = task_words c d (seen @ [t])"
    and "\<And>w. w \<in> set ws \<Longrightarrow> length w = d"
proof -
  from ws have sorted: "sorted_wrt (<) (ch_action_ids c)"
    and eq: "ws = product_repeat (ch_action_ids c) d"
    by (simp_all add: words_at_depth_eq)
  have set_ws: "set ws = words_of (ch_action_ids c) d"
    by (simp add: eq set_product_repeat words_of_def)
  show "distinct ws" using sorted_product_repeat [OF sorted] by (simp add: eq strict_sorted_iff)
  show "(t, w @ [a]) \<notin> task_words c d seen" if "w \<in> set ws" for w a
    using that t by (auto simp: chart_words_def set_ws words_of_def)
  show "(t, w) \<in> task_words c d seen" if "w \<in> set ws" for w
    using that t by (auto simp: chart_words_def set_ws)
  show "task_words c d seen \<union> below t ws (ch_action_ids c) = task_words c d (seen @ [t])"
    by (auto simp: set_ws words_of_Suc)
  show "length w = d" if "w \<in> set ws" for w using that by (simp add: set_ws words_of_def)
qed

lemma extend_words_step:
  assumes P: "grown root (task_words (b_chart b) d seen) b c"
    and step: "bindE (value_errorE c (words_at_depth (ch_action_ids (b_chart c)) (int d)))
        (\<lambda>ws. foldE (extend_word t) ws c) = Inr c'"
    and t: "t \<in> set (ch_task_ids (b_chart b))" "t \<notin> set seen"
  shows "grown root (task_words (b_chart b) d (seen @ [t])) b c'"
proof -
  note ids = grownD(4) [OF P]
  from step obtain ws where ws: "words_at_depth (ch_action_ids (b_chart b)) (int d) = Inr ws"
    and loop: "foldE (extend_word t) ws c = Inr c'"
    by (auto simp: bindE_eq_Inr value_errorE_def ids)
  note w = depth_words [OF ws t]
  from extend_task_grown [OF loop grownD(1,2) [OF P] w(1) w(2) w(3)]
  have "grown root (task_words (b_chart b) d (seen @ [t])) c c'"
    by (simp only: ids w(4))
  with P show ?thesis by (rule grown_trans)
qed

lemma extend_words_grown:
  assumes run: "extend_words (int d) b = Inr b'" and inv: "chart_inv b"
    and words: "words_inv root (chart_words (b_chart b) d) b"
    and tasks: "distinct (ch_task_ids (b_chart b))"
  shows "grown root (chart_words (b_chart b) (Suc d)) b b'"
proof -
  from run have "grown root (task_words (b_chart b) d (ch_task_ids (b_chart b))) b b'"
    unfolding extend_words_def
  proof (rule foldE_rule [where P = "\<lambda>seen c. grown root (task_words (b_chart b) d seen) b c"])
    show "grown root (task_words (b_chart b) d []) b b" using inv words by (simp add: grown_def)
  qed (rule extend_words_step, use tasks in auto)
  moreover have "task_words (b_chart b) d (ch_task_ids (b_chart b)) = chart_words (b_chart b) (Suc d)"
    by (auto simp: chart_words_def atMost_Suc)
  ultimately show ?thesis by simp
qed

end
