(* ===== verification/ReachableChart_Build.thy ===== *)
theory ReachableChart_Build
  imports ReachableChart_Words
begin

text \<open>
  The whole reachable-chart build: seeding, the loop over depths, and what a returned chart
  satisfies. The first part carries the invariants through \<open>build\<close>; the second states the
  properties of the program.
\<close>

section \<open>Seeding\<close>

definition seed_root :: "(string, state_view) dict \<Rightarrow> string \<Rightarrow> word_outcome" where
  "seed_root seeds t = open_outcome (the (dget seeds t))"

definition seeded :: "(string, state_view) dict \<Rightarrow> string list \<Rightarrow> 'w builder \<Rightarrow> 'w builder \<Rightarrow> bool" where
  "seeded seeds ts b b' \<longleftrightarrow> chart_inv b' \<and> words_inv (seed_root seeds) (set ts \<times> {[]}) b'
     \<and> chart_frame b b' \<and> expanded_keys b' = {}"

lemma admit_state_chart_inv:
  assumes run: "admit_state t st b = Inr b'" and inv: "chart_inv b"
  shows "chart_inv b'" and "chart_frame b b'" and "expanded_keys b' = expanded_keys b"
    and "ch_word_table (b_chart b') = ch_word_table (b_chart b)"
    and "ch_word_censors (b_chart b') = ch_word_censors (b_chart b)"
    and "sv_identity_key st \<in> b_task_state_keys b' t"
proof -
  note frame = admit_state_frame [OF run]
  show keys: "expanded_keys b' = expanded_keys b" by (rule table_ext_expanded [OF frame(2)])
  note ef = admit_state_edges(2) [OF run chart_inv_edges [OF inv]]
  have "sealed_edges b' = sealed_edges b" using ef by (simp add: sealed_edges_def keys expand_frame_def)
  with admit_state_edges(1) [OF run chart_inv_edges [OF inv]] inv ef
  show "chart_inv b'"
    using admit_state_table_inv [OF _ run] admit_state_caps_inv [OF _ run]
    by (simp add: chart_inv_def expand_frame_def)
  show "chart_frame b b'" using ef by (rule expand_frame_chart_frame) (simp add: keys)
  show "ch_word_table (b_chart b') = ch_word_table (b_chart b)"
    "ch_word_censors (b_chart b') = ch_word_censors (b_chart b)"
    using ef by (simp_all add: expand_frame_def)
  show "sv_identity_key st \<in> b_task_state_keys b' t" by (simp add: frame(4))
qed

lemma seed_step_seeded:
  assumes run: "seed_step seeds t c = Inr c'" and P: "seeded seeds ts b c" and new: "t \<notin> set ts"
  shows "seeded seeds (ts @ [t]) b c'"
proof -
  from P have inv: "chart_inv c" and words: "words_inv (seed_root seeds) (set ts \<times> {[]}) c"
    and frame: "chart_frame b c" and none: "expanded_keys c = {}" by (simp_all add: seeded_def)
  from run obtain seed c1 where seed: "dget seeds t = Some seed" "sv_response_signature seed \<noteq> []"
    and admit: "admit_state t seed c = Inr c1"
    and c': "c' = put_word (t, []) (Inr (open_outcome seed)) c1"
    by (auto simp: seed_step_def bindE_eq_Inr value_errorE_def from_state_eq_Inr put_word_def
        open_outcome_def split: option.splits if_splits)
  note a = admit_state_chart_inv [OF admit inv]
  have words1: "words_inv (seed_root seeds) (set ts \<times> {[]}) c1"
    by (rule words_inv_frame [OF words a(2) chart_inv_edges [OF a(1)] a(4,5)])
  have fresh: "(t, []) \<notin> set ts \<times> {[]}" using new by simp
  have good: "value_good c1 t (Inr (open_outcome seed))"
    using a(6) seed(2) by (simp add: value_good_def open_outcome_def open_ok_iff)
  have "words_inv (seed_root seeds) (insert (t, []) (set ts \<times> {[]})) c'" unfolding c'
    by (rule words_inv_put [OF words1 fresh good]) (simp_all add: seed_root_def seed)
  moreover have "insert (t, []) (set ts \<times> {[]}) = set (ts @ [t]) \<times> {[]}" by auto
  moreover have "chart_frame b c'" unfolding c'
    using put_word_frame [OF words_inv_keys [OF words1 fresh]] a(2) frame
    by (blast intro: chart_frame_trans)
  ultimately show ?thesis using a none by (simp add: seeded_def c')
qed

lemma seed_loop:
  assumes run: "foldE (seed_step seeds) tasks b = Inr b'" and dist: "distinct tasks"
    and init: "seeded seeds [] b b"
  shows "seeded seeds tasks b b'"
  using run
proof (rule foldE_rule [where P = "\<lambda>seen c. seeded seeds seen b c"])
  show "seeded seeds [] b b" by (rule init)
  show "seeded seeds (seen @ [t]) b c'"
    if "tasks = seen @ t # todo" "seeded seeds seen b c" "seed_step seeds t c = Inr c'"
    for seen t todo c c'
    using that dist by (intro seed_step_seeded) auto
qed

section \<open>The loop over depths\<close>

definition open_keys :: "chart \<Rightarrow> nat \<Rightarrow> bytes set" where
  "open_keys c d = {k. \<exists>t w out. dget (ch_word_table c) (t, w) = Some out \<and> length w < d
     \<and> wo_kind out = OPEN \<and> wo_state_key out = Some k}"

definition depth_inv :: "(string \<Rightarrow> word_outcome) \<Rightarrow> nat \<Rightarrow> 'w builder \<Rightarrow> bool" where
  "depth_inv root d b \<longleftrightarrow> chart_inv b \<and> words_inv root (chart_words (b_chart b) d) b
     \<and> distinct (ch_task_ids (b_chart b)) \<and> expanded_keys b = open_keys (b_chart b) d"

lemma frontier_keys:
  assumes "words_inv root W b" and "None \<notin> set (frontier (int d) (b_chart b))"
  shows "open_keys (b_chart b) (Suc d) = open_keys (b_chart b) d \<union> the ` set (frontier (int d) (b_chart b))"
proof -
  have "dict_ok (ch_word_table (b_chart b))" using assms(1) by (simp add: words_inv_def)
  note get = dict_ok_get [OF this]
  have "k \<in> the ` set (frontier (int d) (b_chart b)) \<longleftrightarrow> (\<exists>t w out.
      dget (ch_word_table (b_chart b)) (t, w) = Some out \<and> length w = d
     \<and> wo_kind out = OPEN \<and> wo_state_key out = Some k)" for k
    using assms(2) unfolding frontier_def
    by (fastforce simp: get image_iff)
  then have "the ` set (frontier (int d) (b_chart b)) = {k. \<exists>t w out.
      dget (ch_word_table (b_chart b)) (t, w) = Some out \<and> length w = d
     \<and> wo_kind out = OPEN \<and> wo_state_key out = Some k}" by blast
  then show ?thesis unfolding open_keys_def less_Suc_eq by blast
qed

lemma table_entry_frame:
  assumes frame: "chart_frame b b'" and words: "words_inv root V b" and words': "words_inv root W b'"
    and get: "dget (ch_word_table (b_chart b')) (t, w) = Some out" and mem: "(t, w) \<in> V"
  shows "dget (ch_word_table (b_chart b)) (t, w) = Some out"
proof -
  have notin: "(t, w) \<notin> dkeys (ch_word_censors (b_chart b'))"
    using words' dget_in_dkeys [OF get] unfolding words_inv_def by blast
  have "dget (ch_word_censors (b_chart b)) (t, w) = None"
  proof (rule ccontr)
    assume "\<not> ?thesis"
    then obtain r where "dget (ch_word_censors (b_chart b)) (t, w) = Some r" by blast
    with frame have "dget (ch_word_censors (b_chart b')) (t, w) = Some r"
      by (auto simp: chart_frame_def intro: map_leD)
    with notin show False by (blast dest: dget_in_dkeys)
  qed
  then have "(t, w) \<in> dkeys (ch_word_table (b_chart b))"
    using words mem unfolding words_inv_def dget_None by blast
  then obtain out' where "dget (ch_word_table (b_chart b)) (t, w) = Some out'"
    by (auto simp: dkeys_ex)
  moreover from this frame have "dget (ch_word_table (b_chart b')) (t, w) = Some out'"
    by (auto simp: chart_frame_def intro: map_leD)
  ultimately show "dget (ch_word_table (b_chart b)) (t, w) = Some out" using get by simp
qed

lemma open_keys_grown:
  assumes grown: "grown root (chart_words (b_chart b) (Suc d)) b b'"
    and words: "words_inv root (chart_words (b_chart b) d) b"
  shows "open_keys (b_chart b') (Suc d) = open_keys (b_chart b) (Suc d)"
proof -
  note g = grownD [OF grown]
  have le: "map_of (ch_word_table (b_chart b)) \<subseteq>\<^sub>m map_of (ch_word_table (b_chart b'))"
    using g(3) by (simp add: chart_frame_def)
  have mem: "(t, w) \<in> chart_words (b_chart b) d"
    if "length w \<le> d" "dget (ch_word_table (b_chart b')) (t, w) = Some out" for t w out
  proof -
    have "(t, w) \<in> chart_words (b_chart b) (Suc d)"
      using g(2) dget_in_dkeys [OF that(2)] unfolding words_inv_def by blast
    with that(1) show ?thesis by (auto simp: chart_words_def words_of_def)
  qed
  have iff: "dget (ch_word_table (b_chart b')) (t, w) = Some out
      \<longleftrightarrow> dget (ch_word_table (b_chart b)) (t, w) = Some out" if "length w \<le> d" for t w out
    using table_entry_frame [OF g(3) words g(2) _ mem [OF that]] map_leD [OF le] by blast
  then show ?thesis
    unfolding open_keys_def less_Suc_eq_le by (intro Collect_cong ex_cong1) blast
qed

lemma frontier_done:
  assumes front: "expand_frontier orc (int d) b = Inr b1" and orc: "oracle_ok orc"
    and inv: "depth_inv root d b"
  shows "chart_inv b1" and "words_inv root (chart_words (b_chart b1) d) b1"
    and "distinct (ch_task_ids (b_chart b1))"
    and "open_keys (b_chart b1) (Suc d) \<subseteq> expanded_keys b1"
    and "expanded_keys b1 = open_keys (b_chart b1) (Suc d)" and "chart_frame b b1"
proof -
  from inv have inv': "chart_inv b" "words_inv root (chart_words (b_chart b) d) b"
    "distinct (ch_task_ids (b_chart b))" "expanded_keys b = open_keys (b_chart b) d"
    by (simp_all add: depth_inv_def)
  note f = expand_frontier_inv [OF front orc inv'(1)]
  show "chart_inv b1" by (rule f(1))
  show frame1: "chart_frame b b1"
    using f(2) by (rule expand_frame_chart_frame) (simp add: f(3))
  have words_same: "ch_word_table (b_chart b1) = ch_word_table (b_chart b)"
    "ch_word_censors (b_chart b1) = ch_word_censors (b_chart b)"
    and chart_same: "ch_task_ids (b_chart b1) = ch_task_ids (b_chart b)"
    "ch_action_ids (b_chart b1) = ch_action_ids (b_chart b)"
    using f(2) by (simp_all add: expand_frame_def)
  have cw: "chart_words (b_chart b1) n = chart_words (b_chart b) n" for n
    by (simp add: chart_words_def chart_same)
  show "words_inv root (chart_words (b_chart b1) d) b1"
    unfolding cw by (rule words_inv_frame [OF inv'(2) frame1 chart_inv_edges [OF f(1)] words_same])
  show "distinct (ch_task_ids (b_chart b1))" by (simp add: chart_same inv'(3))
  have ok1: "open_keys (b_chart b1) n = open_keys (b_chart b) n" for n
    by (simp add: open_keys_def words_same)
  show "expanded_keys b1 = open_keys (b_chart b1) (Suc d)"
    using frontier_keys [OF inv'(2) f(4)] f(3) inv'(4) by (simp add: ok1)
  then show "open_keys (b_chart b1) (Suc d) \<subseteq> expanded_keys b1" by simp
qed

lemma depth_step_inv:
  assumes run: "depth_step orc (int d) b = Inr b'" and orc: "oracle_ok orc"
    and inv: "depth_inv root d b"
  shows "depth_inv root (Suc d) b'" and "chart_frame b b'"
proof -
  from run obtain b1 where front: "expand_frontier orc (int d) b = Inr b1"
    and ext: "extend_words (int d) b1 = Inr b'"
    by (auto simp: depth_step_def bindE_eq_Inr)
  note f = frontier_done [OF front orc inv]
  have g: "grown root (chart_words (b_chart b1) (Suc d)) b1 b'"
    by (rule extend_words_grown [OF ext f(1,2,3)])
  note gd = grownD [OF g]
  have "open_keys (b_chart b') (Suc d) = expanded_keys b1"
    using open_keys_grown [OF g f(2)] f(5) by simp
  with g have "expanded_keys b' = open_keys (b_chart b') (Suc d)" by (simp add: grown_def)
  moreover have "chart_words (b_chart b1) (Suc d) = chart_words (b_chart b') (Suc d)"
    by (simp add: chart_words_def gd(4,5))
  ultimately show "depth_inv root (Suc d) b'"
    using gd(1,2) f(3) by (simp add: depth_inv_def gd(5))
  show "chart_frame b b'" using f(6) gd(3) by (rule chart_frame_trans)
qed

lemma upt_split:
  assumes "[0..<n] = seen @ d # todo"
  shows "d = length seen"
proof -
  have "length seen < n" using arg_cong [OF assms, of length] by simp
  then show ?thesis using arg_cong [OF assms, of "\<lambda>xs. xs ! length seen"] by simp
qed

lemma depth_loop_step:
  assumes "[0..<n] = seen @ d # todo" and "depth_inv root (length seen) c \<and> chart_frame b c"
    and "depth_step orc (int d) c = Inr c'" and orc: "oracle_ok orc"
  shows "depth_inv root (length (seen @ [d])) c' \<and> chart_frame b c'"
  using assms(2,3) depth_step_inv [OF _ orc] upt_split [OF assms(1)]
  by (auto intro: chart_frame_trans)

lemma depth_loop:
  assumes run: "foldE (\<lambda>d. depth_step orc (int d)) [0..<n] b = Inr b'" and orc: "oracle_ok orc"
    and inv: "depth_inv root 0 b"
  shows "depth_inv root n b' \<and> chart_frame b b'"
proof -
  have "depth_inv root (length [0..<n]) b' \<and> chart_frame b b'"
    using run
  proof (rule foldE_rule [where P = "\<lambda>seen c. depth_inv root (length seen) c \<and> chart_frame b c"])
    show "depth_inv root (length []) b \<and> chart_frame b b" using inv by simp
  qed (rule depth_loop_step [OF _ _ _ orc])
  then show ?thesis by simp
qed

section \<open>The whole build\<close>

lemma init_chart_inv:
  assumes "chart_limits_post_init lim = Inr ()" and "distinct ids"
  shows "chart_inv (init_builder (empty_chart ids lim tasks) disc w)"
proof -
  have "0 < max_states_per_task lim" "0 < max_states_total lim" "0 < max_primary_attempts lim"
    "0 < max_replay_attempts lim"
    using assms(1) by (auto simp: chart_limits_post_init_def split: if_splits)
  then show ?thesis
    using assms(2)
    by (simp add: chart_inv_def table_inv_def caps_inv_def edges_inv_def init_builder_def
        empty_chart_def sealed_edges_def expanded_keys_def)
qed

lemma init_seeded:
  assumes "chart_limits_post_init lim = Inr ()" and "distinct ids"
  shows "seeded seeds [] (init_builder (empty_chart ids lim tasks) disc w)
    (init_builder (empty_chart ids lim tasks) disc w)"
  using init_chart_inv [OF assms]
  by (simp add: seeded_def words_inv_def init_builder_def empty_chart_def expanded_keys_def)

lemma publish_same [simp]:
  "state_table (publish_live_counts b) = state_table b"
  "ch_transition_table (b_chart (publish_live_counts b)) = ch_transition_table (b_chart b)"
  "ch_transition_censors (b_chart (publish_live_counts b)) = ch_transition_censors (b_chart b)"
  "ch_word_table (b_chart (publish_live_counts b)) = ch_word_table (b_chart b)"
  "ch_word_censors (b_chart (publish_live_counts b)) = ch_word_censors (b_chart b)"
  "ch_action_ids (b_chart (publish_live_counts b)) = ch_action_ids (b_chart b)"
  "ch_task_ids (b_chart (publish_live_counts b)) = ch_task_ids (b_chart b)"
  "limits (publish_live_counts b) = limits b"
  "ch_primary_attempts (b_chart (publish_live_counts b)) = ch_primary_attempts (b_chart b)"
  "ch_replay_attempts (b_chart (publish_live_counts b)) = ch_replay_attempts (b_chart b)"
  "b_task_state_keys (publish_live_counts b) = b_task_state_keys b"
  "b_live_ids (publish_live_counts b) = b_live_ids b"
  by (simp_all add: publish_live_counts_def on_chart_def)

lemma publish_depth_inv: "depth_inv root n (publish_live_counts b) = depth_inv root n b"
  by (simp only: depth_inv_def chart_inv_def table_inv_def entry_inv_def handle_owned_def
      caps_inv_def edges_inv_def sealed_edges_def expanded_keys_def open_keys_def words_inv_def
      word_row_def lookup_word_def value_good_def row_outcome_def chart_words_def publish_same)

text \<open>What holds of the builder and its chart when \<open>build\<close> returns.\<close>

definition built ::
  "string list \<Rightarrow> chart_limits \<Rightarrow> (string, state_view) dict \<Rightarrow> 'w builder \<Rightarrow> bool" where
  "built ids lim seeds b \<longleftrightarrow> depth_inv (seed_root seeds) (nat (max_depth lim)) b
     \<and> ch_action_ids (b_chart b) = ids \<and> limits b = lim \<and> 0 \<le> max_depth lim
     \<and> ch_task_ids (b_chart b) = sort (map fst seeds)"

lemma seeded_depth_inv:
  assumes s: "seeded seeds tasks (init_builder (empty_chart ids lim tasks) disc w) b1"
    and dist: "distinct tasks"
  shows "depth_inv (seed_root seeds) 0 b1"
    and "ch_task_ids (b_chart b1) = tasks" "ch_action_ids (b_chart b1) = ids" "limits b1 = lim"
proof -
  show same: "ch_task_ids (b_chart b1) = tasks" "ch_action_ids (b_chart b1) = ids" "limits b1 = lim"
    using s by (simp_all add: seeded_def chart_frame_def init_builder_def empty_chart_def)
  have "chart_words (b_chart b1) 0 = set tasks \<times> {[]}"
    by (auto simp: chart_words_def words_of_def same)
  then show "depth_inv (seed_root seeds) 0 b1"
    using s dist by (simp add: depth_inv_def seeded_def open_keys_def same)
qed

lemma build_built:
  assumes run: "build orc ids lim disc w seeds = Inr b" and orc: "oracle_ok orc"
    and lim: "chart_limits_post_init lim = Inr ()" and ids: "distinct ids" and seeds: "dict_ok seeds"
  shows "built ids lim seeds b"
proof -
  let ?tasks = "sort (map fst seeds)"
  have dist: "distinct ?tasks" using seeds by (simp add: dict_ok_def)
  from run obtain b1 b2 where
    b1: "foldE (seed_step seeds) ?tasks (init_builder (empty_chart ids lim ?tasks) disc w) = Inr b1"
    and b2: "foldE (\<lambda>d. depth_step orc (int d)) [0..<nat (max_depth lim)] b1 = Inr b2"
    and b: "b = publish_live_counts b2"
    by (auto simp: build_def bindE_eq_Inr Let_def split: if_splits)
  note s = seeded_depth_inv [OF seed_loop [OF b1 dist init_seeded [OF lim ids]] dist]
  have "0 \<le> max_depth lim" using lim by (auto simp: chart_limits_post_init_def split: if_splits)
  with depth_loop [OF b2 orc s(1)] s(2,3,4) show ?thesis
    by (simp add: built_def b publish_depth_inv chart_frame_def)
qed

lemma default_limits_ok: "chart_limits_post_init default_chart_limits = Inr ()"
  by (simp add: chart_limits_post_init_def default_chart_limits_def)

lemma canonical_ids_distinct: "canonical_action_ids actions = Inr ids \<Longrightarrow> distinct ids"
  unfolding canonical_action_ids_def bindE_eq_Inr Let_def
  by (metis Inl_Inr_False distinct_remdups length_remdups_eq sum.inject(2))

lemma build_reachable_chart_built:
  fixes orc :: "'w transition_oracle"
  assumes run: "build_reachable_chart orc actions lim disc w seeds = Inr c" and orc: "oracle_ok orc"
    and lim: "\<And>l. lim = Some l \<Longrightarrow> chart_limits_post_init l = Inr ()" and seeds: "dict_ok seeds"
  obtains b :: "'w builder" where "b_chart b = c"
    and "built (ch_action_ids c) (ch_limits c) seeds b"
    and "canonical_action_ids actions = Inr (ch_action_ids c)"
    and "ch_limits c = (case lim of None \<Rightarrow> default_chart_limits | Some l \<Rightarrow> l)"
proof -
  let ?lim = "case lim of None \<Rightarrow> default_chart_limits | Some l \<Rightarrow> l"
  from run obtain ids b where ids: "canonical_action_ids actions = Inr ids"
    and b: "build orc ids ?lim disc w seeds = Inr b" and c: "c = b_chart b"
    by (auto simp: build_reachable_chart_def bindE_eq_Inr)
  have "chart_limits_post_init ?lim = Inr ()"
    using lim default_limits_ok by (cases lim) simp_all
  moreover have "distinct ids" using ids by (rule canonical_ids_distinct)
  ultimately have "built ids ?lim seeds b"
    using build_built [OF b orc _ _ seeds] by blast
  then show thesis
    using that [of b] ids c by (auto simp: built_def)
qed

section \<open>A small run\<close>

text \<open>
  Two states and the actions a, b: from the seed, a opens the second state with a live handle
  of its own and b is censored; from the second state, a stays there.
\<close>

definition ex_view :: "byte \<Rightarrow> string option \<Rightarrow> state_view" where
  "ex_view k live = \<lparr>sv_identity_key = [k], sv_full_signature = [k, k], sv_debt = (1, 0, 0, 0, 0),
     sv_live_rpc_state_id = live, sv_response_signature = [7]\<rparr>"

definition ex_event :: "bytes \<Rightarrow> string \<Rightarrow> oracle_event" where
  "ex_event source act =
     (if act = ''a''
        then \<lparr>ev_source_key = source, ev_action_id = act, ev_raw_status = ''open'',
              ev_totalized_status = Some OPEN,
              ev_target = Some (ex_view 2 (if source = [1] then Some ''h2'' else None)),
              ev_replay_verified = True, ev_exact_delta = True, ev_censor_reason = None,
              ev_primary_attempts = 1, ev_replay_attempts = 1, ev_derived_from_sealed_row = False\<rparr>
      else \<lparr>ev_source_key = source, ev_action_id = act, ev_raw_status = ''censor'',
              ev_totalized_status = None, ev_target = None, ev_replay_verified = False,
              ev_exact_delta = False, ev_censor_reason = Some ''timeout'',
              ev_primary_attempts = 1, ev_replay_attempts = 0, ev_derived_from_sealed_row = False\<rparr>)"

definition ex_oracle :: "nat transition_oracle" where
  "ex_oracle w t s act = (if sv_identity_key s = [] \<or> act = [] then (ReplyOther, w)
     else (ReplyEvent (ex_event (sv_identity_key s) act), Suc w))"

definition ex_limits :: chart_limits where
  "ex_limits = default_chart_limits\<lparr>max_depth := 2\<rparr>"

definition ex_seeds :: "(string, state_view) dict" where
  "ex_seeds = [(''t'', ex_view 1 (Some ''h1''))]"

definition ex_build :: "(chart_error \<times> nat builder, nat builder) res" where
  "ex_build = build ex_oracle [''a'', ''b''] ex_limits True 0 ex_seeds"

lemma ex_oracle_ok: "oracle_ok ex_oracle"
  by (auto simp: oracle_ok_def ex_oracle_def ex_event_def ex_view_def oracle_event_ok_def
      oracle_event_post_init_def state_view_ok_iff split: if_splits)

lemma ex_limits_ok: "chart_limits_post_init ex_limits = Inr ()"
  by (simp add: ex_limits_def default_chart_limits_def chart_limits_post_init_def)

lemma ex_seeds_ok: "dict_ok ex_seeds"
  by (simp add: ex_seeds_def dict_ok_def)

lemma ex_build_runs: "isl ex_build = False"
  by code_simp

end
