(* ===== verification/ReachableChart_Errors.thy ===== *)
theory ReachableChart_Errors
  imports ReachableChart_Build
begin

text \<open>
  The errors a build can and cannot end with. The source has several defensive raises (an open
  frontier state without a key, a missing parent word, an unsealed row, a target that was never
  admitted, a word table that is not prefix-closed): none of them is reachable.
\<close>

definition internal_reason :: "blocked_reason \<Rightarrow> bool" where
  "internal_reason r \<longleftrightarrow> r \<in> {UnsealedRow, UnknownTargetState, OpenEventLacksTarget,
     WordTableNotPrefixClosed} \<or> (\<exists>t w. r = MissingParentWord t w)"

fun internal_error :: "chart_error \<Rightarrow> bool" where
  "internal_error (ChartAssertionError msg) = True"
| "internal_error ChartKeyError = True"
| "internal_error (ChartPrerequisiteBlocked r) = internal_reason r"
| "internal_error (ChartValueError msg) = False"
| "internal_error (OracleRaised msg) = False"

lemma value_errorE_eq_Inl:
  "value_errorE b m = Inl (err, b') \<longleftrightarrow> (\<exists>msg. m = Inl msg \<and> err = ChartValueError msg \<and> b' = b)"
  by (cases m) (auto simp: value_errorE_def)

lemma blocked_eq: "blocked r b = (err, b') \<longleftrightarrow> err = ChartPrerequisiteBlocked r \<and> b' = b"
  by (auto simp: blocked_def)

lemma admit_state_error:
  "admit_state t st b = Inl (err, b') \<Longrightarrow> \<not> internal_error err"
proof (cases "track_live t (sv_live_rpc_state_id st) b")
  case (Inl e)
  moreover assume "admit_state t st b = Inl (err, b')"
  ultimately show ?thesis
    by (auto simp: admit_state_def track_live_def blocked_eq internal_reason_def
        split: option.splits if_splits)
next
  case (Inr b1)
  moreover assume "admit_state t st b = Inl (err, b')"
  ultimately show ?thesis
    by (auto simp: admit_state_def blocked_eq Let_def internal_reason_def
        split: option.splits if_splits)
qed

lemma record_event_error:
  assumes run: "record_event t key act e b = Inl (err, b')" and ok: "oracle_event_ok e"
  shows "\<not> internal_error err"
proof (cases "ev_totalized_status e = Some OPEN")
  case True
  then obtain tg where "ev_target e = Some tg" using oracle_event_okD(2) [OF ok] by auto
  with run True show ?thesis
    unfolding record_event_def
    by (auto simp: bindE_eq_Inl Let_def blocked_eq value_errorE_eq_Inl internal_reason_def
        dest: admit_state_error split: option.splits if_splits)
next
  case False
  with run show ?thesis
    unfolding record_event_def
    by (auto simp: bindE_eq_Inl Let_def blocked_eq value_errorE_eq_Inl
        split: option.splits if_splits)
qed

lemma oracle_okD: "oracle_ok orc \<Longrightarrow> orc w t s a = (ReplyEvent e, w') \<Longrightarrow> oracle_event_ok e"
  unfolding oracle_ok_def by blast

lemma expand_action_error:
  assumes "expand_action orc t source key act b = Inl (err, b')" and "oracle_ok orc"
  shows "\<not> internal_error err"
  using assms
  by (auto simp: expand_action_def Let_def blocked_eq internal_reason_def
      dest: record_event_error oracle_okD split: if_splits prod.splits oracle_reply.splits)

lemma expand_state_error:
  assumes run: "expand_state orc e b = Inl (err, b')" and orc: "oracle_ok orc"
  shows "\<not> internal_error err"
proof -
  have loop: "\<not> internal_error err'"
    if "foldE (expand_action orc t src key) acts b0 = Inl (err', b1)" for t src key acts b0 err' b1
    using that by (rule foldE_error [where P = "\<lambda>_ _. True"])
      (use expand_action_error [OF _ orc] in auto)
  show ?thesis
    using run
    by (auto simp: expand_state_def bindE_eq_Inl Let_def value_errorE_eq_Inl
        dest: loop split: if_splits)
qed

lemma expand_frontier_error:
  assumes run: "expand_frontier orc d b = Inl (err, b')" and orc: "oracle_ok orc"
    and inv: "depth_inv root n b"
  shows "\<not> internal_error err"
proof -
  have words: "words_inv root (chart_words (b_chart b) n) b" and cinv: "chart_inv b"
    using inv by (simp_all add: depth_inv_def)
  have keys: "\<exists>k. ko = Some k \<and> k \<in> dkeys (state_table b)"
    if "ko \<in> set (frontier d (b_chart b))" for ko
  proof -
    from that obtain t w out where mem: "((t, w), out) \<in> set (ch_word_table (b_chart b))"
      and "open": "wo_kind out = OPEN" and ko: "wo_state_key out = ko"
      by (auto simp: frontier_def)
    then have get: "dget (ch_word_table (b_chart b)) (t, w) = Some out"
      using words by (simp add: words_inv_def dict_ok_get)
    then have "(t, w) \<in> chart_words (b_chart b) n"
      and "(t, w) \<notin> dkeys (ch_word_censors (b_chart b))"
      using words dget_in_dkeys [OF get] unfolding words_inv_def by blast+
    moreover from this(2) have "lookup_word (b_chart b) (t, w) = Some (Inr out)"
      by (simp add: lookup_word_def get dget_None [symmetric])
    ultimately have "value_good b t (Inr out)" by (auto elim: word_rowE [OF words])
    with "open" ko obtain k where "ko = Some k" "k \<in> b_task_state_keys b t"
      by (auto simp: value_good_def)
    moreover have "table_inv b" using cinv by (simp add: chart_inv_def)
    ultimately show ?thesis using table_invD(3) [of b t] by blast
  qed
  define body where "body = (\<lambda>k b. case dget (state_table b) k of
          None \<Rightarrow> Inl (ChartKeyError, b)
        | Some e \<Rightarrow> if se_expansion_status e = Queued then expand_state orc e b else Inr b)"
  let ?keys = "sorted_set (map the (frontier d (b_chart b)))"
  have "None \<notin> set (frontier d (b_chart b))" using keys by fastforce
  with run have loop: "foldE body ?keys b = Inl (err, b')"
    by (auto simp: expand_frontier_def Let_def body_def)
  let ?P = "\<lambda>(seen :: bytes list) c. chart_inv c \<and> dkeys (state_table b) \<subseteq> dkeys (state_table c)"
  from loop obtain seen k todo c where split: "?keys = seen @ k # todo" and P: "?P seen c"
    and fail: "body k c = Inl (err, b')"
  proof (rule foldE_error [where P = ?P])
    show "?P [] b" using cinv by simp
    show "?P (seen @ [x]) c'" if "?keys = seen @ x # todo" "?P seen c" "body x c = Inr c'"
      for seen x todo c c'
    proof -
      from that(3) obtain e where e: "dget (state_table c) x = Some e"
        by (auto simp: body_def split: option.splits)
      show ?thesis
      proof (cases "se_expansion_status e = Queued")
        case True
        with that e have "expand_state orc e c = Inr c'" by (simp add: body_def)
        note x = expand_state_inv [OF this orc _ e True]
        have "dkeys (state_table c) \<subseteq> dkeys (state_table c')"
          using x(2) that(2) unfolding expand_frame_def table_grow_def dkeys_ex subset_iff by blast
        with x(1) that(2) show ?thesis by blast
      next
        case False
        with that e show ?thesis by (simp add: body_def)
      qed
    qed
  qed blast
  have "k \<in> set ?keys" by (simp only: split) simp
  then obtain ko where "ko \<in> set (frontier d (b_chart b))" "k = the ko" by auto
  moreover from keys [OF this(1)] obtain k' where "ko = Some k'" "k' \<in> dkeys (state_table b)"
    by blast
  ultimately have "k \<in> dkeys (state_table b)" by simp
  then have "k \<in> dkeys (state_table c)" using P by blast
  then obtain e where "dget (state_table c) k = Some e" by (auto simp: dkeys_ex)
  with fail show ?thesis by (auto simp: body_def dest: expand_state_error [OF _ orc] split: if_splits)
qed

section \<open>Words\<close>

lemma register_task_reach_error:
  assumes "register_task_reach t k b = Inl (err, b')" and "k \<in> dkeys (state_table b)"
  shows "\<not> internal_error err"
  using assms
  by (auto simp: register_task_reach_def blocked_eq internal_reason_def Let_def dkeys_ex
      split: option.splits if_splits)

lemma open_word_step_error:
  assumes run: "open_word_step t pw (Some k) act b = Inl (err, b')" and inv: "chart_inv b"
    and sealed: "(k, act) \<in> sealed_edges b"
  shows "\<not> internal_error err"
proof -
  note edges = chart_inv_edges [OF inv]
  show ?thesis
  proof (cases "dget (ch_transition_censors (b_chart b)) (k, act)")
    case (Some r)
    with run show ?thesis by (simp add: open_word_step_def)
  next
    case None
    then have "(k, act) \<in> dkeys (ch_transition_table (b_chart b))"
      using edges sealed unfolding edges_inv_def dget_None by blast
    then obtain e where e: "dget (ch_transition_table (b_chart b)) (k, act) = Some e"
      by (auto simp: dkeys_ex)
    have ok: "edge_ok (state_table b) (k, act) e"
      using edges e by (simp add: edges_inv_def del: split_paired_All)
    then have ev: "oracle_event_ok e" "\<not> is_censor e" by (simp_all add: edge_ok_def)
    show ?thesis
    proof (cases "ev_totalized_status e = Some OPEN")
      case True
      then obtain tg where tg: "ev_target e = Some tg"
        using oracle_event_okD(2) [OF ev(1)] by auto
      have sig: "sv_response_signature tg \<noteq> []" and same: "same_identity (state_table b) tg"
        using ok tg by (simp_all add: edge_ok_def)
      then have "sv_identity_key tg \<in> dkeys (state_table b)"
        by (auto simp: same_identity_def dkeys_ex)
      with run None e True tg sig show ?thesis
        by (auto simp: open_word_step_def bindE_eq_Inl value_errorE_eq_Inl
            dest: register_task_reach_error)
    next
      case False
      then obtain st where "ev_totalized_status e = Some st" "st \<noteq> OPEN"
        using oracle_event_okD(1) [OF ev(1)] ev(2) by auto
      with run None e show ?thesis
        by (auto simp: open_word_step_def bindE_eq_Inl value_errorE_eq_Inl)
    qed
  qed
qed

lemma word_step_error:
  assumes run: "word_step t pw pc p act b = Inl (err, b')" and inv: "chart_inv b"
    and pv: "parent_value pc p = Some y" and good: "value_good b t y"
    and sealed: "\<And>q k. y = Inr q \<Longrightarrow> wo_kind q = OPEN \<Longrightarrow> wo_state_key q = Some k \<Longrightarrow>
      (k, act) \<in> sealed_edges b"
  shows "\<not> internal_error err"
proof (cases pc)
  case (Some r)
  with run show ?thesis by (auto simp: word_step_def bindE_eq_Inl value_errorE_eq_Inl)
next
  case None
  with pv obtain q where q: "p = Some q" "y = Inr q" by (auto simp: parent_value_def)
  show ?thesis
  proof (cases "wo_kind q = OPEN")
    case True
    with good q obtain k where k: "wo_state_key q = Some k" by (auto simp: value_good_def)
    with run None q True have "open_word_step t pw (Some k) act b = Inl (err, b')"
      by (simp add: word_step_def)
    then show ?thesis using inv sealed [OF q(2) True k] by (rule open_word_step_error)
  next
    case False
    with run None q show ?thesis by (auto simp: word_step_def bindE_eq_Inl value_errorE_eq_Inl)
  qed
qed

lemma extend_word_error:
  assumes run: "extend_word t pw b = Inl (err, b')" and inv: "chart_inv b"
    and words: "words_inv root W b" and mem: "(t, pw) \<in> W" and new: "\<And>a. (t, pw @ [a]) \<notin> W"
    and seal: "\<And>q k. dget (ch_word_table (b_chart b)) (t, pw) = Some q \<Longrightarrow> wo_kind q = OPEN \<Longrightarrow>
      wo_state_key q = Some k \<Longrightarrow> k \<in> expanded_keys b"
  shows "\<not> internal_error err"
proof -
  let ?pc = "dget (ch_word_censors (b_chart b)) (t, pw)"
    and ?p = "dget (ch_word_table (b_chart b)) (t, pw)"
  obtain y where pv: "parent_value ?pc ?p = Some y" and init: "extending root W t pw y b [] b"
    using extending_init [OF inv words mem] by blast
  have dist: "distinct (ch_action_ids (b_chart b))" using inv by (simp add: chart_inv_def)
  from run have loop: "foldE (word_step t pw ?pc ?p) (ch_action_ids (b_chart b)) b = Inl (err, b')"
    by (simp add: extend_word_def)
  obtain seen a todo c where split: "ch_action_ids (b_chart b) = seen @ a # todo"
    and P: "extending root W t pw y b seen c" and fail: "word_step t pw ?pc ?p a c = Inl (err, b')"
    by (rule foldE_error [OF loop, where P = "extending root W t pw y b", OF init])
      (use dist in \<open>auto intro!: extending_step [OF _ _ pv mem new]\<close>)
  from P have g: "grown root (W \<union> (\<lambda>a. (t, pw @ [a])) ` set seen) b c" and good: "value_good c t y"
    by (simp_all add: extending_def)
  show ?thesis
  proof (rule word_step_error [OF fail grownD(1) [OF g] pv good])
    fix q k assume q: "y = Inr q" "wo_kind q = OPEN" "wo_state_key q = Some k"
    then have "?p = Some q" using pv by (auto simp: parent_value_def split: option.splits)
    then have "k \<in> expanded_keys b" using q(2,3) by (rule seal)
    then show "(k, a) \<in> sealed_edges c"
      using g grownD(4) [OF g] by (simp add: sealed_edges_def grown_def split)
  qed
qed

lemma word_table_frame_old:
  assumes g: "grown root W b c" and words: "words_inv root V b" and mem: "(t, w) \<in> V"
    and get: "dget (ch_word_table (b_chart c)) (t, w) = Some q"
  shows "dget (ch_word_table (b_chart b)) (t, w) = Some q"
  by (rule table_entry_frame [OF grownD(3) [OF g] words grownD(2) [OF g] get mem])

lemma extend_task_error:
  assumes run: "foldE (extend_word t) ws b = Inl (err, b')" and inv: "chart_inv b"
    and words: "words_inv root W b" and dist: "distinct ws"
    and mem: "\<And>w. w \<in> set ws \<Longrightarrow> (t, w) \<in> W" and new: "\<And>w a. w \<in> set ws \<Longrightarrow> (t, w @ [a]) \<notin> W"
    and seal: "\<And>w q k. w \<in> set ws \<Longrightarrow> dget (ch_word_table (b_chart b)) (t, w) = Some q \<Longrightarrow>
      wo_kind q = OPEN \<Longrightarrow> wo_state_key q = Some k \<Longrightarrow> k \<in> expanded_keys b"
  shows "\<not> internal_error err"
proof -
  let ?ids = "ch_action_ids (b_chart b)"
  have init: "grown root (W \<union> below t [] ?ids) b b" using inv words by (simp add: grown_def)
  obtain seen w todo c where split: "ws = seen @ w # todo"
    and P: "grown root (W \<union> below t seen ?ids) b c" and fail: "extend_word t w c = Inl (err, b')"
  proof (rule foldE_error [OF run, where P = "\<lambda>seen c. grown root (W \<union> below t seen ?ids) b c", OF init])
    show "grown root (W \<union> below t (seen @ [w]) ?ids) b c'"
      if "ws = seen @ w # todo" "grown root (W \<union> below t seen ?ids) b c"
        "extend_word t w c = Inr c'" for seen w todo c c'
      using that dist mem new by (intro extend_task_step) auto
  qed blast
  have w: "w \<in> set ws" "w \<notin> set seen" using dist by (auto simp: split)
  show ?thesis
  proof (rule extend_word_error [OF fail grownD(1,2) [OF P]])
    show "(t, w) \<in> W \<union> below t seen ?ids" using mem w by simp
    show "(t, w @ [a]) \<notin> W \<union> below t seen ?ids" for a using new w by auto
    show "k \<in> expanded_keys c" if "dget (ch_word_table (b_chart c)) (t, w) = Some q"
      "wo_kind q = OPEN" "wo_state_key q = Some k" for q k
      using seal [OF w(1) word_table_frame_old [OF P words mem [OF w(1)] that(1)] that(2,3)] P
      by (simp add: grown_def)
  qed
qed

lemma extend_words_error:
  assumes run: "extend_words (int d) b = Inl (err, b')" and inv: "chart_inv b"
    and words: "words_inv root (chart_words (b_chart b) d) b"
    and tasks: "distinct (ch_task_ids (b_chart b))"
    and seal: "open_keys (b_chart b) (Suc d) \<subseteq> expanded_keys b"
  shows "\<not> internal_error err"
proof -
  let ?P = "\<lambda>seen c. grown root (task_words (b_chart b) d seen) b c"
  have init: "?P [] b" using inv words by (simp add: grown_def)
  obtain seen t todo c where split: "ch_task_ids (b_chart b) = seen @ t # todo" and P: "?P seen c"
    and fail: "bindE (value_errorE c (words_at_depth (ch_action_ids (b_chart c)) (int d)))
        (\<lambda>ws. foldE (extend_word t) ws c) = Inl (err, b')"
    by (rule foldE_error [OF run [unfolded extend_words_def], where P = ?P, OF init])
      (rule extend_words_step, use tasks in auto)
  have t: "t \<in> set (ch_task_ids (b_chart b))" "t \<notin> set seen" using tasks by (auto simp: split)
  note ids = grownD(4) [OF P]
  show ?thesis
  proof (cases "words_at_depth (ch_action_ids (b_chart b)) (int d)")
    case (Inl msg)
    with fail show ?thesis by (auto simp: ids value_errorE_def)
  next
    case (Inr ws)
    with fail have loop: "foldE (extend_word t) ws c = Inl (err, b')"
      by (simp add: ids value_errorE_def)
    note w = depth_words [OF Inr t]
    show ?thesis
    proof (rule extend_task_error [OF loop grownD(1,2) [OF P] w(1) w(2) w(3)])
      fix w' q k
      assume w': "w' \<in> set ws" and get: "dget (ch_word_table (b_chart c)) (t, w') = Some q"
        and q: "wo_kind q = OPEN" "wo_state_key q = Some k"
      have "(t, w') \<in> task_words (b_chart b) d []"
        using w(2) [OF w'] w(5) [OF w'] by (auto simp: words_of_def)
      then have "(t, w') \<in> chart_words (b_chart b) d" by simp
      from word_table_frame_old [OF P words this get] w(5) [OF w'] q
      have "k \<in> open_keys (b_chart b) (Suc d)" unfolding open_keys_def by blast
      with seal P show "k \<in> expanded_keys c" by (auto simp: grown_def)
    qed
  qed
qed

end
