(* ===== verification/ReachableChart_Props.thy ===== *)
theory ReachableChart_Props
  imports ReachableChart_Errors
begin

text \<open>
  The properties of the reachable-chart component, stated on \<open>build_reachable_chart\<close> and \<open>build\<close>.
  Each holds for any oracle whose events are valid \<^verbatim>\<open>OracleEvent\<close> values; the concrete run of
  \<open>ReachableChart_Build\<close> shows the hypotheses are met.
\<close>

section \<open>How many words\<close>

lemma word_count:
  assumes "words_inv root W b"
  shows "word_occurrence_count (b_chart b) = card W"
proof -
  let ?t = "ch_word_table (b_chart b)" and ?c = "ch_word_censors (b_chart b)"
  have "dict_ok ?t" "dict_ok ?c" "dkeys ?t \<inter> dkeys ?c = {}" "W = dkeys ?t \<union> dkeys ?c"
    using assms by (auto simp: words_inv_def)
  then show ?thesis
    by (simp add: word_occurrence_count_def dict_ok_length card_Un_disjoint)
qed

lemma card_chart_words:
  assumes "distinct (ch_task_ids c)" and "distinct (ch_action_ids c)"
  shows "int (card (chart_words c (nat d))) =
    expected_words (length (ch_task_ids c)) (length (ch_action_ids c)) d"
proof -
  have fin: "finite (words_of (ch_action_ids c) n)" for n
    using finite_lists_length_eq [of "set (ch_action_ids c)" n]
    by (simp add: words_of_def conj_commute)
  have card: "card (words_of (ch_action_ids c) n) = length (ch_action_ids c) ^ n" for n
    unfolding words_of_def
    using card_lists_length_eq [of "set (ch_action_ids c)" n] distinct_card [OF assms(2)]
    by (simp add: conj_commute)
  have "card (\<Union>n \<le> m. words_of (ch_action_ids c) n) = (\<Sum>n \<le> m. length (ch_action_ids c) ^ n)" for m
    by (subst card_UN_disjoint) (auto simp: fin card, auto simp: words_of_def)
  then have "card (chart_words c (nat d))
      = length (ch_task_ids c) * (\<Sum>n \<le> nat d. length (ch_action_ids c) ^ n)"
    by (simp add: chart_words_def card_cartesian_product distinct_card [OF assms(1)])
  then show ?thesis
    by (simp add: expected_words_def sum_list_distinct_conv_sum_set atLeast0LessThan
        lessThan_Suc_atMost del: upt_Suc)
qed

section \<open>Errors of the whole build\<close>

lemma seed_step_error:
  assumes "seed_step seeds t b = Inl (err, b')" and "t \<in> dkeys seeds"
  shows "\<not> internal_error err"
  using assms
  by (auto simp: seed_step_def bindE_eq_Inl value_errorE_eq_Inl blocked_eq internal_reason_def
      dkeys_ex dest: admit_state_error split: option.splits if_splits)

lemma depth_step_error:
  assumes run: "depth_step orc (int d) b = Inl (err, b')" and orc: "oracle_ok orc"
    and inv: "depth_inv root d b"
  shows "\<not> internal_error err"
proof (cases "expand_frontier orc (int d) b")
  case (Inl e)
  with run have "expand_frontier orc (int d) b = Inl (err, b')" by (simp add: depth_step_def)
  then show ?thesis using orc inv by (rule expand_frontier_error)
next
  case (Inr b1)
  with run have ext: "extend_words (int d) b1 = Inl (err, b')" by (simp add: depth_step_def)
  note f = frontier_done [OF Inr orc inv]
  from f(1) extend_words_error [OF ext] f(2,3,4) show ?thesis by blast
qed

lemma build_error:
  assumes run: "build orc ids lim disc w seeds = Inl (err, b)" and orc: "oracle_ok orc"
    and lim: "chart_limits_post_init lim = Inr ()" and ids: "distinct ids" and seeds: "dict_ok seeds"
  shows "\<not> internal_error err"
proof -
  let ?tasks = "sort (map fst seeds)"
  let ?b0 = "init_builder (empty_chart ids lim ?tasks) disc w"
  have dist: "distinct ?tasks" using seeds by (simp add: dict_ok_def)
  from run consider
      (early) "\<exists>msg. err = ChartValueError msg" | (cap) "err = ChartPrerequisiteBlocked MaxWordOccurrences"
    | (seed) "foldE (seed_step seeds) ?tasks ?b0 = Inl (err, b)"
    | (depth) b1 where "foldE (seed_step seeds) ?tasks ?b0 = Inr b1"
        "foldE (\<lambda>d. depth_step orc (int d)) [0..<nat (max_depth lim)] b1 = Inl (err, b)"
    | (count) b1 b2 where "foldE (seed_step seeds) ?tasks ?b0 = Inr b1"
        "foldE (\<lambda>d. depth_step orc (int d)) [0..<nat (max_depth lim)] b1 = Inr b2"
        "int (word_occurrence_count (b_chart (publish_live_counts b2)))
           \<noteq> expected_words (length ?tasks) (length ids) (max_depth lim)"
    by (auto simp: build_def bindE_eq_Inl bindE_eq_Inr Let_def blocked_eq split: if_splits)
  then show ?thesis
  proof cases
    case early
    then show ?thesis by auto
  next
    case cap
    then show ?thesis by (simp add: internal_reason_def)
  next
    case seed
    then show ?thesis
      by (rule foldE_error [where P = "\<lambda>_ _. True"]) (auto dest!: seed_step_error arg_cong [of _ _ set])
  next
    case depth
    note s = seeded_depth_inv [OF seed_loop [OF depth(1) dist init_seeded [OF lim ids]] dist]
    let ?P = "\<lambda>seen c. depth_inv (seed_root seeds) (length seen) c \<and> chart_frame b1 c"
    have init: "?P [] b1" using s(1) by simp
    obtain seen d todo c where "[0..<nat (max_depth lim)] = seen @ d # todo" and P: "?P seen c"
      and fail: "depth_step orc (int d) c = Inl (err, b)"
      by (rule foldE_error [OF depth(2), where P = ?P, OF init])
        (rule depth_loop_step [OF _ _ _ orc])
    from this(1) have "d = length seen" by (rule upt_split)
    with P have "depth_inv (seed_root seeds) d c" by simp
    with fail orc show ?thesis by (rule depth_step_error)
  next
    case count
    note s = seeded_depth_inv [OF seed_loop [OF count(1) dist init_seeded [OF lim ids]] dist]
    note d = depth_loop [OF count(2) orc s(1)]
    then have "words_inv (seed_root seeds) (chart_words (b_chart b2) (nat (max_depth lim))) b2"
      and same: "ch_task_ids (b_chart b2) = ?tasks" "ch_action_ids (b_chart b2) = ids"
      using s(2,3) by (simp_all add: depth_inv_def chart_frame_def)
    from word_count [OF this(1)] card_chart_words [of "b_chart b2"]
    have "int (word_occurrence_count (b_chart b2))
        = expected_words (length ?tasks) (length ids) (max_depth lim)"
      using dist ids by (simp add: same)
    then have False using count(3) by (simp add: word_occurrence_count_def)
    then show ?thesis ..
  qed
qed

section \<open>Properties\<close>

lemma build_reachable_chart_counted:
  fixes orc :: "'w transition_oracle"
  assumes run: "build_reachable_chart orc actions lim disc w seeds = Inr c" and orc: "oracle_ok orc"
    and lim: "\<And>l. lim = Some l \<Longrightarrow> chart_limits_post_init l = Inr ()" and seeds: "dict_ok seeds"
  obtains b :: "'w builder" where "b_chart b = c"
    and "built (ch_action_ids c) (ch_limits c) seeds b"
    and "int (word_occurrence_count c) = expected_words (length seeds)
        (length (ch_action_ids c)) (max_depth (ch_limits c))"
    and "int (word_occurrence_count c) \<le> max_word_occurrences (ch_limits c)"
proof -
  obtain b :: "'w builder" where b: "b_chart b = c"
    and built: "built (ch_action_ids c) (ch_limits c) seeds b"
    and ids: "canonical_action_ids actions = Inr (ch_action_ids c)"
    and l: "ch_limits c = (case lim of None \<Rightarrow> default_chart_limits | Some l \<Rightarrow> l)"
    by (rule build_reachable_chart_built [OF run orc lim seeds])
  have "expected_words (length seeds) (length (ch_action_ids c)) (max_depth (ch_limits c))
      \<le> max_word_occurrences (ch_limits c)"
    using run by (auto simp: build_reachable_chart_def bindE_eq_Inr ids build_def Let_def l [symmetric]
        split: if_splits)
  moreover have "int (word_occurrence_count c) = expected_words (length seeds)
        (length (ch_action_ids c)) (max_depth (ch_limits c))"
    using run by (auto simp: build_reachable_chart_def bindE_eq_Inr ids build_def Let_def l [symmetric]
        split: if_splits)
  ultimately show thesis using that b built by simp
qed


lemma words_inv_lookup:
  assumes "words_inv root W b"
  shows "lookup_word (b_chart b) wk \<noteq> None \<longleftrightarrow> wk \<in> W"
  using assms dget_None [of "ch_word_table (b_chart b)" wk] dget_None [of "ch_word_censors (b_chart b)" wk]
  by (auto simp: lookup_word_def words_inv_def simp del: dget_None split: option.splits)

lemma built_words:
  assumes "built ids lim seeds b"
  shows "(t, u) \<in> chart_words (b_chart b) (nat (max_depth lim)) \<longleftrightarrow>
    t \<in> dkeys seeds \<and> int (length u) \<le> max_depth lim \<and> set u \<subseteq> set ids"
  using assms by (auto simp: built_def chart_words_def words_of_def)

text \<open>
  C6: the word table is the refinement of a simple specification. When a build returns, every
  word over the alphabet up to the depth bound has, for every task, exactly one entry, an
  outcome or a censor, and it is the value of reading the word symbol by symbol from the task's
  seed against the sealed transition rows; no other word has an entry.
\<close>

theorem chart_words_refine_runs:
  fixes orc :: "'w transition_oracle"
  assumes run: "build_reachable_chart orc actions lim disc w seeds = Inr c" and orc: "oracle_ok orc"
    and lim: "\<And>l. lim = Some l \<Longrightarrow> chart_limits_post_init l = Inr ()" and seeds: "dict_ok seeds"
  shows "dkeys (ch_word_table c) \<inter> dkeys (ch_word_censors c) = {} \<and>
    lookup_word c (t, u) =
      (if t \<in> dkeys seeds \<and> int (length u) \<le> max_depth (ch_limits c) \<and> set u \<subseteq> set (ch_action_ids c)
       then chart_run c t [] (Inr (seed_root seeds t)) u else None) \<and>
    (lookup_word c (t, u) \<noteq> None \<longleftrightarrow>
      t \<in> dkeys seeds \<and> int (length u) \<le> max_depth (ch_limits c) \<and> set u \<subseteq> set (ch_action_ids c))"
proof -
  obtain b :: "'w builder" where b: "b_chart b = c" and built: "built (ch_action_ids c) (ch_limits c) seeds b"
    by (rule build_reachable_chart_built [OF run orc lim seeds])
  note mem = built_words [OF built, of t u, unfolded b]
  from built b have words: "words_inv (seed_root seeds) (chart_words c (nat (max_depth (ch_limits c)))) b"
    by (simp add: built_def depth_inv_def)
  have "lookup_word c (t, u) \<noteq> None \<longleftrightarrow> (t, u) \<in> chart_words c (nat (max_depth (ch_limits c)))"
    using words_inv_lookup [OF words, of "(t, u)"] by (simp add: b)
  then show ?thesis
    using words_inv_run [OF words, of t u] words mem by (auto simp: b words_inv_def)
qed

definition ex_run :: "(chart_error, chart) res" where
  "ex_run = build_reachable_chart ex_oracle [ActStr ''b'', ActMapping (Some (AttrStr ''a''))]
     (Some ex_limits) True 0 ex_seeds"

lemma ex_run_returns: "isl ex_run = False"
  by code_simp

lemma ex_actions:
  "canonical_action_ids [ActStr ''b'', ActMapping (Some (AttrStr ''a''))] = Inr [''a'', ''b'']"
  by code_simp

lemma ex_run_chart:
  obtains c where
    "build_reachable_chart ex_oracle [ActStr ''b'', ActMapping (Some (AttrStr ''a''))]
       (Some ex_limits) True 0 ex_seeds = Inr c"
    and "ch_limits c = ex_limits" and "ch_action_ids c = [''a'', ''b'']"
proof -
  obtain c where c: "build_reachable_chart ex_oracle [ActStr ''b'', ActMapping (Some (AttrStr ''a''))]
       (Some ex_limits) True 0 ex_seeds = Inr c"
    using ex_run_returns by (cases ex_run) (auto simp: ex_run_def)
  moreover have "ch_limits c = ex_limits \<and> ch_action_ids c = [''a'', ''b'']"
    by (rule build_reachable_chart_built [OF c ex_oracle_ok _ ex_seeds_ok])
      (simp_all add: ex_limits_ok ex_actions)
  ultimately show thesis using that by blast
qed

lemma ex_limits_some: "Some ex_limits = Some l \<Longrightarrow> chart_limits_post_init l = Inr ()"
  by (simp add: ex_limits_ok)

theorem chart_words_refine_runs_witness:
  "\<exists>c. ex_run = Inr c \<and> lookup_word c (''t'', [''a'', ''b'']) \<noteq> None
     \<and> lookup_word c (''t'', [''a'', ''a'', ''a'']) = None"
proof -
  obtain c where c: "build_reachable_chart ex_oracle [ActStr ''b'', ActMapping (Some (AttrStr ''a''))]
       (Some ex_limits) True 0 ex_seeds = Inr c" "ch_limits c = ex_limits" "ch_action_ids c = [''a'', ''b'']"
    by (rule ex_run_chart)
  note refine = chart_words_refine_runs [OF c(1) ex_oracle_ok ex_limits_some ex_seeds_ok]
  note range = conjunct2 [OF conjunct2 [OF refine]]
  have "lookup_word c (''t'', [''a'', ''b'']) \<noteq> None"
    by (simp only: range) (simp add: c ex_limits_def ex_seeds_def)
  moreover have "\<not> lookup_word c (''t'', [''a'', ''a'', ''a'']) \<noteq> None"
    by (simp only: range) (simp add: c ex_limits_def)
  ultimately show ?thesis using c(1) by (simp add: ex_run_def)
qed

text \<open>
  C7: which rows are sealed. When a build returns, a state is expanded exactly if an open word
  shorter than the depth bound ends in it; every expanded state has, for every action, exactly
  one of an event and a censor, and no other row entry exists. A recorded event is the oracle's
  own (its source and action are the row's), was verified by replay, and an open one has
  response evidence, no live handle, and a target in the state table with the same signature
  and debt.
\<close>

theorem chart_rows_sealed:
  fixes orc :: "'w transition_oracle"
  assumes run: "build_reachable_chart orc actions lim disc w seeds = Inr c" and orc: "oracle_ok orc"
    and lim: "\<And>l. lim = Some l \<Longrightarrow> chart_limits_post_init l = Inr ()" and seeds: "dict_ok seeds"
  shows "dkeys (ch_transition_table c) \<inter> dkeys (ch_transition_censors c) = {} \<and>
    dkeys (ch_transition_table c) \<union> dkeys (ch_transition_censors c)
      = open_keys c (nat (max_depth (ch_limits c))) \<times> set (ch_action_ids c) \<and>
    (\<forall>ek e. dget (ch_transition_table c) ek = Some e \<longrightarrow> edge_ok (ch_state_table c) ek e) \<and>
    {k. \<exists>e. dget (ch_state_table c) k = Some e \<and> se_expansion_status e = Expanded}
      = open_keys c (nat (max_depth (ch_limits c)))"
proof -
  obtain b :: "'w builder" where b: "b_chart b = c"
    and built: "built (ch_action_ids c) (ch_limits c) seeds b"
    by (rule build_reachable_chart_built [OF run orc lim seeds])
  from built have exp: "expanded_keys b = open_keys c (nat (max_depth (ch_limits c)))"
    and edges: "edges_inv (sealed_edges b) b"
    by (auto simp: built_def depth_inv_def chart_inv_def b)
  show ?thesis
    using edges exp
    by (simp add: edges_inv_def sealed_edges_def expanded_keys_def b del: split_paired_All)
qed

theorem chart_rows_sealed_witness:
  "\<exists>c. ex_run = Inr c \<and>
     dkeys (ch_transition_table c) \<union> dkeys (ch_transition_censors c)
       = open_keys c 2 \<times> {''a'', ''b''}"
proof -
  obtain c where c: "build_reachable_chart ex_oracle [ActStr ''b'', ActMapping (Some (AttrStr ''a''))]
       (Some ex_limits) True 0 ex_seeds = Inr c" "ch_limits c = ex_limits" "ch_action_ids c = [''a'', ''b'']"
    by (rule ex_run_chart)
  from chart_rows_sealed [OF c(1) ex_oracle_ok ex_limits_some ex_seeds_ok] c show ?thesis
    by (simp add: ex_run_def ex_limits_def)
qed

text \<open>
  C8: the frozen caps hold of every returned chart: states in total, states reached per task,
  primary and replay attempts, and symbolic word occurrences (whose number is exactly tasks
  times the sum of the powers of the alphabet size).
\<close>

theorem chart_within_limits:
  fixes orc :: "'w transition_oracle"
  assumes run: "build_reachable_chart orc actions lim disc w seeds = Inr c" and orc: "oracle_ok orc"
    and lim: "\<And>l. lim = Some l \<Longrightarrow> chart_limits_post_init l = Inr ()" and seeds: "dict_ok seeds"
  shows "int (length (ch_state_table c)) \<le> max_states_total (ch_limits c) \<and>
    int (card {k. \<exists>e. dget (ch_state_table c) k = Some e \<and> t \<in> se_task_ids e})
      \<le> max_states_per_task (ch_limits c) \<and>
    ch_primary_attempts c \<le> max_primary_attempts (ch_limits c) \<and>
    ch_replay_attempts c \<le> max_replay_attempts (ch_limits c) \<and>
    int (word_occurrence_count c) \<le> max_word_occurrences (ch_limits c) \<and>
    int (word_occurrence_count c) = int (length seeds)
      * (\<Sum>d \<le> nat (max_depth (ch_limits c)). int (length (ch_action_ids c)) ^ d)"
proof -
  obtain b :: "'w builder" where b: "b_chart b = c"
    and built: "built (ch_action_ids c) (ch_limits c) seeds b"
    and occ: "int (word_occurrence_count c) = expected_words (length seeds)
        (length (ch_action_ids c)) (max_depth (ch_limits c))"
      "int (word_occurrence_count c) \<le> max_word_occurrences (ch_limits c)"
    by (rule build_reachable_chart_counted [OF run orc lim seeds])
  from built have caps: "caps_inv b" and tab: "table_inv b"
    by (auto simp: built_def depth_inv_def chart_inv_def)
  have "(\<exists>e. dget (ch_state_table c) k = Some e \<and> t \<in> se_task_ids e) \<longleftrightarrow> k \<in> b_task_state_keys b t" for k
  proof (cases "dget (ch_state_table c) k")
    case None
    then have "k \<notin> dkeys (ch_state_table c)" by (simp only: dget_None not_False_eq_True)
    then have "k \<notin> b_task_state_keys b t" using table_invD(3) [OF tab, of t] by (auto simp: b)
    with None show ?thesis by simp
  next
    case (Some e)
    then show ?thesis using table_invD(2) [OF tab, of k e] by (simp add: entry_inv_def b)
  qed
  then have "{k. \<exists>e. dget (ch_state_table c) k = Some e \<and> t \<in> se_task_ids e} = b_task_state_keys b t"
    by blast
  with caps occ show ?thesis
    by (simp add: caps_inv_def b expected_words_def sum_list_distinct_conv_sum_set atLeast0LessThan
        lessThan_Suc_atMost del: upt_Suc)
qed

theorem chart_within_limits_witness:
  "\<exists>c. ex_run = Inr c \<and> word_occurrence_count c = 7 \<and> ch_replay_attempts c \<le> 12288"
proof -
  obtain c where c: "build_reachable_chart ex_oracle [ActStr ''b'', ActMapping (Some (AttrStr ''a''))]
       (Some ex_limits) True 0 ex_seeds = Inr c" "ch_limits c = ex_limits" "ch_action_ids c = [''a'', ''b'']"
    by (rule ex_run_chart)
  from chart_within_limits [OF c(1) ex_oracle_ok ex_limits_some ex_seeds_ok] c show ?thesis
    by (simp add: ex_run_def ex_limits_def default_chart_limits_def ex_seeds_def numeral_2_eq_2)
qed

text \<open>
  C9: process-local handles do not leak into sealed data. When a build returns, every handle
  still tracked as live is the handle of a queued state-table entry, held for the task that
  first reached it; no expanded entry and no sealed transition target carries a handle.
\<close>

theorem live_handles_owned:
  assumes run: "build orc ids lim disc w seeds = Inr b" and orc: "oracle_ok orc"
    and lim: "chart_limits_post_init lim = Inr ()" and ids: "distinct ids" and seeds: "dict_ok seeds"
  shows "(\<forall>(t, l) \<in> b_live_ids b. \<exists>k e. dget (ch_state_table (b_chart b)) k = Some e
      \<and> se_expansion_status e = Queued \<and> se_first_task_id e = t \<and> se_live_rpc_state_id e = Some l) \<and>
    (\<forall>k e. dget (ch_state_table (b_chart b)) k = Some e \<longrightarrow> se_expansion_status e = Expanded \<longrightarrow>
      se_live_rpc_state_id e = None) \<and>
    (\<forall>ek e tg. dget (ch_transition_table (b_chart b)) ek = Some e \<longrightarrow> ev_target e = Some tg \<longrightarrow>
      sv_live_rpc_state_id tg = None)"
proof -
  from build_built [OF run orc lim ids seeds] have tab: "table_inv b"
    and edges: "edges_inv (sealed_edges b) b"
    by (auto simp: built_def depth_inv_def chart_inv_def)
  have "\<exists>k e. dget (ch_state_table (b_chart b)) k = Some e
      \<and> se_expansion_status e = Queued \<and> se_first_task_id e = t \<and> se_live_rpc_state_id e = Some l"
    if "(t, l) \<in> b_live_ids b" for t l
    using table_invD(4) [OF tab that] by (simp add: handle_owned_def)
  moreover have "se_live_rpc_state_id e = None"
    if "dget (ch_state_table (b_chart b)) k = Some e" "se_expansion_status e = Expanded" for k e
    using table_invD(2) [OF tab that(1)] that(2) by (simp add: entry_inv_def)
  moreover have "sv_live_rpc_state_id tg = None"
    if "dget (ch_transition_table (b_chart b)) ek = Some e" "ev_target e = Some tg" for ek e tg
    using edges that by (simp add: edges_inv_def edge_ok_def del: split_paired_All)
  ultimately show ?thesis by blast
qed

lemma ex_build_run:
  obtains b where "build ex_oracle [''a'', ''b''] ex_limits True 0 ex_seeds = Inr b"
  using ex_build_runs by (cases ex_build) (auto simp: ex_build_def)

theorem live_handles_owned_witness:
  "\<exists>b. ex_build = Inr b \<and> (\<forall>k e. dget (ch_state_table (b_chart b)) k = Some e \<longrightarrow>
     se_expansion_status e = Expanded \<longrightarrow> se_live_rpc_state_id e = None)"
proof -
  obtain b where b: "build ex_oracle [''a'', ''b''] ex_limits True 0 ex_seeds = Inr b"
    by (rule ex_build_run)
  have "distinct [''a'', ''b'']" by simp
  from live_handles_owned [OF b ex_oracle_ok ex_limits_ok this ex_seeds_ok] b show ?thesis
    unfolding ex_build_def by blast
qed

text \<open>
  C10: the builder's defensive raises are unreachable. A build that fails does so because of its
  inputs, a cap, missing evidence, an identity clash or the oracle; it never ends with an
  assertion, a missing key, an unsealed row, a missing parent word, an unknown target state or
  a word table that is not prefix-closed.
\<close>

theorem build_no_internal_error:
  assumes run: "build_reachable_chart orc actions lim disc w seeds = Inl err" and orc: "oracle_ok orc"
    and lim: "\<And>l. lim = Some l \<Longrightarrow> chart_limits_post_init l = Inr ()" and seeds: "dict_ok seeds"
  shows "\<not> internal_error err"
proof (cases "canonical_action_ids actions")
  case (Inl msg)
  with run show ?thesis by (auto simp: build_reachable_chart_def)
next
  case (Inr ids)
  let ?lim = "case lim of None \<Rightarrow> default_chart_limits | Some l \<Rightarrow> l"
  have l: "chart_limits_post_init ?lim = Inr ()"
    using lim default_limits_ok by (cases lim) simp_all
  from run Inr obtain b where "build orc ids ?lim disc w seeds = Inl (err, b)"
    by (cases "build orc ids ?lim disc w seeds") (auto simp: build_reachable_chart_def)
  then show ?thesis using orc l canonical_ids_distinct [OF Inr] seeds by (rule build_error)
qed

definition ex_tight_limits :: chart_limits where
  "ex_tight_limits = ex_limits\<lparr>max_states_total := 1\<rparr>"

lemma ex_tight_error: "isl (build_reachable_chart ex_oracle [ActStr ''a''] (Some ex_tight_limits) True 0 ex_seeds)"
  by code_simp

theorem build_no_internal_error_witness:
  "\<exists>err. build_reachable_chart ex_oracle [ActStr ''a''] (Some ex_tight_limits) True 0 ex_seeds = Inl err
     \<and> \<not> internal_error err"
proof -
  obtain err where err:
    "build_reachable_chart ex_oracle [ActStr ''a''] (Some ex_tight_limits) True 0 ex_seeds = Inl err"
    using ex_tight_error by (auto simp: isl_def)
  have "Some ex_tight_limits = Some l \<Longrightarrow> chart_limits_post_init l = Inr ()" for l
    by (auto simp: ex_tight_limits_def ex_limits_def default_chart_limits_def chart_limits_post_init_def)
  from build_no_internal_error [OF err ex_oracle_ok this ex_seeds_ok] err show ?thesis by blast
qed

text \<open>
  C11: a failed admission gives its handle back. If \<open>admit_state\<close> raises for a state view that
  carries a handle not yet tracked, whatever the reason, the handle is no longer tracked
  afterwards, every other one still is, the release is counted once, and the discard callback,
  if there is one, was called with exactly that handle.
\<close>

theorem admit_state_failure_releases:
  assumes run: "admit_state t st b = Inl (err, b')" and live: "sv_live_rpc_state_id st = Some l"
    and new: "(t, l) \<notin> b_live_ids b"
  shows "b_live_ids b' = b_live_ids b \<and> b_released b' = b_released b + 1
    \<and> b_discarded b' = (if b_has_discard b then b_discarded b @ [(t, l)] else b_discarded b)"
  using run new unfolding admit_state_def live track_live_def
  by (auto simp: builder_defs release_def Let_def split: option.splits if_splits)

definition ex_full_builder :: "nat builder" where
  "ex_full_builder = init_builder (empty_chart [''a''] (ex_limits\<lparr>max_states_total := 0\<rparr>) [''t'']) True 0"

theorem admit_state_failure_releases_witness:
  "\<exists>err b'. admit_state ''t'' (ex_view 1 (Some ''h'')) ex_full_builder = Inl (err, b')
     \<and> b_discarded b' = [(''t'', ''h'')] \<and> b_live_ids b' = {}"
proof -
  have live: "sv_live_rpc_state_id (ex_view 1 (Some ''h'')) = Some ''h''" by (simp add: ex_view_def)
  have new: "(''t'', ''h'') \<notin> b_live_ids ex_full_builder"
    by (simp add: ex_full_builder_def init_builder_def)
  have "\<exists>err b'. admit_state ''t'' (ex_view 1 (Some ''h'')) ex_full_builder = Inl (err, b')"
    by (simp add: admit_state_def track_live_def ex_view_def ex_full_builder_def init_builder_def
        empty_chart_def blocked_def)
  then obtain err b' where run: "admit_state ''t'' (ex_view 1 (Some ''h'')) ex_full_builder = Inl (err, b')"
    by blast
  from admit_state_failure_releases [OF run live new] run show ?thesis
    by (auto simp: ex_full_builder_def init_builder_def)
qed

end
