(* ===== verification/Py_Json.thy ===== *)
theory Py_Json
  imports Bytes_Hash
begin

text \<open>
  Python \<^verbatim>\<open>str\<close> and JSON values. A \<^verbatim>\<open>str\<close> is a list of code points (21-bit words, lone surrogates
  included, compared lexicographically as Python does), \<open>utf8\<close> is \<^verbatim>\<open>str.encode("utf-8")\<close> in strict
  mode, and a JSON-like Python value is a tree whose objects are insertion-ordered dictionaries.
  \<open>json_eq\<close> is Python's \<^verbatim>\<open>==\<close> on such trees, which ignores the order of object members and
  identifies \<^verbatim>\<open>True\<close> with \<^verbatim>\<open>1\<close>; \<open>JOther\<close> stands for any value outside the tree types.
\<close>

section \<open>Text\<close>

type_synonym codepoint = "21 word"
type_synonym pystr = "codepoint list"

definition lit :: "string \<Rightarrow> pystr" where
  "lit s = map (\<lambda>c. of_nat (of_char c)) s"

lemma of_char_word21_inj:
  "(of_nat (of_char c) :: codepoint) = of_nat (of_char d) \<longleftrightarrow> c = d"
proof -
  have small: "(of_char c :: nat) < 2 ^ LENGTH(21)" for c :: char
    using less_le_trans [OF nat_of_char_less_256] by simp
  have "unat (of_nat (of_char c) :: codepoint) = of_char c" for c :: char
    using small [of c] by (simp add: unsigned_of_nat take_bit_nat_eq_self)
  then show ?thesis by (metis of_char_eq_iff)
qed

lemma lit_inj [simp]: "lit s = lit t \<longleftrightarrow> s = t"
  unfolding lit_def by (rule inj_map_eq_map) (auto intro!: injI simp: of_char_word21_inj)

lemma length_lit [simp]: "length (lit s) = length s"
  by (simp add: lit_def)

lemma lit_Nil_iff [simp]: "lit s = [] \<longleftrightarrow> s = []"
  by (simp add: lit_def)

subsection \<open>UTF-8\<close>

definition is_surrogate :: "codepoint \<Rightarrow> bool" where
  "is_surrogate c \<longleftrightarrow> 0xD800 \<le> c \<and> c \<le> 0xDFFF"

definition utf8_width :: "codepoint \<Rightarrow> nat" where
  "utf8_width c = (if c \<le> 0x7F then 1 else if c \<le> 0x7FF then 2 else if c \<le> 0xFFFF then 3 else 4)"

definition byte_of :: "nat \<Rightarrow> byte" where
  "byte_of n = of_nat n"

definition utf8_tail :: "nat \<Rightarrow> byte" where
  "utf8_tail n = byte_of (128 + n mod 64)"

definition utf8_char :: "codepoint \<Rightarrow> bytes" where
  "utf8_char c = (let n = unat c in
     if c \<le> 0x7F then [byte_of n]
     else if c \<le> 0x7FF then [byte_of (192 + n div 64), utf8_tail n]
     else if c \<le> 0xFFFF then [byte_of (224 + n div 4096), utf8_tail (n div 64), utf8_tail n]
     else [byte_of (240 + n div 262144), utf8_tail (n div 4096), utf8_tail (n div 64), utf8_tail n])"

definition utf8_raw :: "pystr \<Rightarrow> bytes" where
  "utf8_raw t = concat (map utf8_char t)"

definition has_surrogate :: "pystr \<Rightarrow> bool" where
  "has_surrogate t \<longleftrightarrow> list_ex is_surrogate t"

text \<open>\<^verbatim>\<open>text.encode("utf-8", errors="strict")\<close>: \<^verbatim>\<open>None\<close> for the \<^verbatim>\<open>UnicodeEncodeError\<close>.\<close>

definition utf8 :: "pystr \<Rightarrow> bytes option" where
  "utf8 t = (if has_surrogate t then None else Some (utf8_raw t))"

lemma length_utf8_char: "length (utf8_char c) = utf8_width c"
  by (simp add: utf8_char_def utf8_width_def Let_def)

lemma length_utf8_raw: "length (utf8_raw t) = sum_list (map utf8_width t)"
  by (simp add: utf8_raw_def length_concat comp_def length_utf8_char)

text \<open>The first byte of an encoded character tells its width, and the bytes determine it.\<close>

definition utf8_lead :: "byte \<Rightarrow> nat" where
  "utf8_lead b = (if unat b < 128 then 1 else if unat b < 224 then 2 else if unat b < 240 then 3 else 4)"

definition utf8_val :: "bytes \<Rightarrow> nat" where
  "utf8_val bs = (case bs of
     [a] \<Rightarrow> unat a
   | [a, b] \<Rightarrow> (unat a - 192) * 64 + (unat b - 128)
   | [a, b, c] \<Rightarrow> (unat a - 224) * 4096 + (unat b - 128) * 64 + (unat c - 128)
   | [a, b, c, d] \<Rightarrow> (unat a - 240) * 262144 + (unat b - 128) * 4096 + (unat c - 128) * 64 + (unat d - 128)
   | _ \<Rightarrow> 0)"

lemma unat_byte_of: "n < 256 \<Longrightarrow> unat (byte_of n) = n"
  by (simp add: byte_of_def unsigned_of_nat take_bit_nat_eq_self)

lemma unat_utf8_tail: "unat (utf8_tail n) = 128 + n mod 64"
  by (simp add: utf8_tail_def unat_byte_of)

lemma codepoint_bound: "unat (c :: codepoint) < 2097152"
  using unsigned_less [of c] by simp

lemma le_codepoint: "c \<le> of_nat n \<longleftrightarrow> unat c \<le> n" if "n < 2097152" for c :: codepoint
  using that by (simp add: word_le_nat_alt unsigned_of_nat take_bit_nat_eq_self)

lemma utf8_char_cases:
  obtains "unat c < 128" "utf8_char c = [byte_of (unat c)]"
  | "128 \<le> unat c" "unat c < 2048" "utf8_char c = [byte_of (192 + unat c div 64), utf8_tail (unat c)]"
  | "2048 \<le> unat c" "unat c < 65536"
      "utf8_char c = [byte_of (224 + unat c div 4096), utf8_tail (unat c div 64), utf8_tail (unat c)]"
  | "65536 \<le> unat c" "utf8_char c = [byte_of (240 + unat c div 262144),
      utf8_tail (unat c div 4096), utf8_tail (unat c div 64), utf8_tail (unat c)]"
  using le_codepoint [of 127 c] le_codepoint [of 2047 c] le_codepoint [of 65535 c]
  by (auto simp: utf8_char_def Let_def not_le)

lemma split_64: "(n::nat) div 4096 * 4096 + n div 64 mod 64 * 64 + n mod 64 = n"
proof -
  have "n div 64 = n div 4096 * 64 + n div 64 mod 64"
    using div_mult_mod_eq [of "n div 64" 64] by (simp add: div_mult2_eq [symmetric])
  with div_mult_mod_eq [of n 64] show ?thesis by linarith
qed

lemma utf8_val_char: "utf8_val (utf8_char c) = unat c"
proof (rule utf8_char_cases [of c])
  assume "unat c < 128" "utf8_char c = [byte_of (unat c)]"
  then show ?thesis by (simp add: utf8_val_def unat_byte_of)
next
  assume h: "128 \<le> unat c" "unat c < 2048"
    "utf8_char c = [byte_of (192 + unat c div 64), utf8_tail (unat c)]"
  have "unat c div 64 < 32" using h(2) by (simp add: div_less_iff_less_mult)
  then have "unat (byte_of (192 + unat c div 64)) = 192 + unat c div 64"
    by (intro unat_byte_of) simp
  with h show ?thesis by (simp add: utf8_val_def unat_utf8_tail)
next
  assume h: "2048 \<le> unat c" "unat c < 65536"
    "utf8_char c = [byte_of (224 + unat c div 4096), utf8_tail (unat c div 64), utf8_tail (unat c)]"
  have "unat c div 4096 < 16" using h(2) by (simp add: div_less_iff_less_mult)
  then have a: "unat (byte_of (224 + unat c div 4096)) = 224 + unat c div 4096"
    by (intro unat_byte_of) simp
  with h show ?thesis by (simp add: utf8_val_def unat_utf8_tail split_64)
next
  assume h: "65536 \<le> unat c" "utf8_char c = [byte_of (240 + unat c div 262144),
      utf8_tail (unat c div 4096), utf8_tail (unat c div 64), utf8_tail (unat c)]"
  have "unat c div 262144 < 8" using codepoint_bound [of c] by (simp add: div_less_iff_less_mult)
  then have a: "unat (byte_of (240 + unat c div 262144)) = 240 + unat c div 262144"
    by (intro unat_byte_of) simp
  have "unat c div 64 = unat c div 262144 * 4096 + unat c div 4096 mod 64 * 64
      + unat c div 64 mod 64"
    using split_64 [of "unat c div 64"] by (simp add: div_mult2_eq [symmetric])
  with div_mult_mod_eq [of "unat c" 64]
  have "unat c div 262144 * 262144 + unat c div 4096 mod 64 * 4096 + unat c div 64 mod 64 * 64
      + unat c mod 64 = unat c" by linarith
  with h a show ?thesis by (simp add: utf8_val_def unat_utf8_tail)
qed

lemma utf8_char_inj: "utf8_char c = utf8_char d \<longleftrightarrow> c = d"
  by (metis utf8_val_char word_unat_eq_iff)

lemma utf8_lead_char: "utf8_char c = b # bs \<Longrightarrow> length bs + 1 = utf8_lead b"
proof -
  have n: "unat c < 2097152" by (rule codepoint_bound)
  assume "utf8_char c = b # bs"
  then show ?thesis
  proof (cases rule: utf8_char_cases [of c])
    case 1
    with \<open>utf8_char c = b # bs\<close> show ?thesis by (auto simp: utf8_lead_def unat_byte_of)
  next
    case 2
    then have "unat c div 64 < 32" "2 \<le> unat c div 64" by (simp_all add: div_less_iff_less_mult)
    then have "unat (byte_of (192 + unat c div 64)) = 192 + unat c div 64"
      by (intro unat_byte_of) simp
    with 2 \<open>unat c div 64 < 32\<close> \<open>utf8_char c = b # bs\<close> show ?thesis
      by (auto simp: utf8_lead_def)
  next
    case 3
    then have "unat c div 4096 < 16" by (simp add: div_less_iff_less_mult)
    then have "unat (byte_of (224 + unat c div 4096)) = 224 + unat c div 4096"
      by (intro unat_byte_of) simp
    with 3 \<open>unat c div 4096 < 16\<close> \<open>utf8_char c = b # bs\<close> show ?thesis
      by (auto simp: utf8_lead_def)
  next
    case 4
    then have "unat c div 262144 < 8" using n by (simp add: div_less_iff_less_mult)
    then have "unat (byte_of (240 + unat c div 262144)) = 240 + unat c div 262144"
      by (intro unat_byte_of) simp
    with 4 \<open>utf8_char c = b # bs\<close> show ?thesis
      by (auto simp: utf8_lead_def)
  qed
qed

lemma utf8_char_append:
  assumes "utf8_char c @ xs = utf8_char d @ ys"
  shows "c = d \<and> xs = ys"
proof -
  have "utf8_char c \<noteq> []" "utf8_char d \<noteq> []" by (simp_all add: utf8_char_def Let_def)
  then obtain b bs b' bs' where c: "utf8_char c = b # bs" and d: "utf8_char d = b' # bs'"
    by (meson neq_Nil_conv)
  with assms have "b = b'" by simp
  with utf8_lead_char [OF c] utf8_lead_char [OF d] have "length (utf8_char c) = length (utf8_char d)"
    by (simp add: c d)
  with assms show ?thesis by (simp add: utf8_char_inj)
qed

lemma utf8_raw_inj [simp]: "utf8_raw s = utf8_raw t \<longleftrightarrow> s = t"
proof
  show "utf8_raw s = utf8_raw t \<Longrightarrow> s = t"
  proof (induction s arbitrary: t)
    case Nil
    then show ?case by (cases t) (auto simp: utf8_raw_def utf8_char_def Let_def split: if_splits)
  next
    case (Cons c s)
    then obtain d t' where t: "t = d # t'"
      by (cases t) (auto simp: utf8_raw_def utf8_char_def Let_def split: if_splits)
    with Cons.prems have "utf8_char c @ utf8_raw s = utf8_char d @ utf8_raw t'"
      by (simp add: utf8_raw_def)
    with Cons.IH t show ?case by (auto dest: utf8_char_append)
  qed
qed simp

lemma utf8_inj: "utf8 s = Some b \<Longrightarrow> utf8 t = Some b \<Longrightarrow> s = t"
  by (auto simp: utf8_def split: if_splits)

lemma utf8_length: "utf8 t = Some b \<Longrightarrow> length b = sum_list (map utf8_width t)"
  by (auto simp: utf8_def length_utf8_raw split: if_splits)

section \<open>JSON values\<close>

datatype json =
    JNull
  | JBool bool
  | JInt int
  | JStr pystr
  | JArr "json list"
  | JObj "(pystr \<times> json) list"
  | JOther

lemma json_member_size:
  "x \<in> set xs \<Longrightarrow> size x < Suc (size_list size xs)"
  "(k, v) \<in> set kvs \<Longrightarrow> size v < Suc (size_list (size_prod (\<lambda>_. 0) size) kvs)"
  by (induction xs, auto, induction kvs, auto)

text \<open>Members in key order and booleans as the integers they equal.\<close>

function json_norm :: "json \<Rightarrow> json" where
  "json_norm (JBool b) = JInt (if b then 1 else 0)"
| "json_norm (JArr xs) = JArr (map json_norm xs)"
| "json_norm (JObj kvs) = JObj (sort_key fst (map (\<lambda>(k, v). (k, json_norm v)) kvs))"
| "json_norm JNull = JNull"
| "json_norm (JInt i) = JInt i"
| "json_norm (JStr s) = JStr s"
| "json_norm JOther = JOther"
  by pat_completeness auto
termination
  by (relation "measure size") (auto dest: json_member_size)

definition json_eq :: "json \<Rightarrow> json \<Rightarrow> bool" where
  "json_eq a b \<longleftrightarrow> json_norm a = json_norm b"

lemma json_eq_refl [simp]: "json_eq a a"
  by (simp add: json_eq_def)

section \<open>Decimal numerals\<close>

definition digit :: "nat \<Rightarrow> char" where
  "digit n = char_of (48 + n)"

fun dec_nat :: "nat \<Rightarrow> string" where
  "dec_nat n = (if n < 10 then [digit n] else dec_nat (n div 10) @ [digit (n mod 10)])"

declare dec_nat.simps [simp del]

text \<open>\<^verbatim>\<open>str(i)\<close> of an \<^verbatim>\<open>int\<close>.\<close>

definition decimal :: "int \<Rightarrow> string" where
  "decimal i = (if i < 0 then ''-'' @ dec_nat (nat (- i)) else dec_nat (nat i))"

end
