(* ===== verification/PartitionData.thy ===== *)
theory PartitionData
  imports Prelude Py_Json
begin

text \<open>
  \<^verbatim>\<open>lean_rgc/odlrq/behavioral_partition.py\<close>, the data half: the strict wire helpers, the work
  ledger, and the dataclasses of a partition certificate with their checks and their
  \<^verbatim>\<open>to_dict\<close>/\<^verbatim>\<open>from_dict\<close> codecs. A dataclass is a record, its constructor a function \<open>mk_...\<close> that
  runs the \<^verbatim>\<open>__post_init__\<close> checks in their order. The \<^verbatim>\<open>type(...) is ...\<close> tests on annotated
  fields hold by typing; on wire values they are the case distinctions of the codecs. Every
  raise is a \<^verbatim>\<open>StrictContractError\<close>, given by its message; the field lists that the source
  appends to the mismatch message are left out.
\<close>

type_synonym strict_error = string

definition MAX_EXACT_PARTITION_WORK_UNITS :: int where
  "MAX_EXACT_PARTITION_WORK_UNITS = 250000"

definition MAX_SYNTHETIC_TOTALIZED_STATES :: nat where
  "MAX_SYNTHETIC_TOTALIZED_STATES = 128"

definition MAX_SYNTHETIC_ACTIONS :: nat where
  "MAX_SYNTHETIC_ACTIONS = 16"

definition MAX_SYNTHETIC_TRANSITION_ROWS :: nat where
  "MAX_SYNTHETIC_TRANSITION_ROWS = 2048"

definition MAX_SIGNED_64 :: int where
  "MAX_SIGNED_64 = 9223372036854775807"

definition SYNTHETIC_EVIDENCE_SCOPE :: pystr where
  "SYNTHETIC_EVIDENCE_SCOPE = lit ''synthetic_development''"

named_theorems caps \<open>the numeric caps of the contracts\<close>

lemmas [caps] = MAX_EXACT_PARTITION_WORK_UNITS_def MAX_SYNTHETIC_TOTALIZED_STATES_def
  MAX_SYNTHETIC_ACTIONS_def MAX_SYNTHETIC_TRANSITION_ROWS_def MAX_SIGNED_64_def

section \<open>Wire helpers\<close>

definition object_of ::
  "pystr list \<Rightarrow> string \<Rightarrow> json \<Rightarrow> (strict_error, (pystr \<times> json) list) res" where
  "object_of fields wh v =
     (case v of
        JObj kvs \<Rightarrow>
          (if length kvs \<noteq> length fields then Inl (wh @ '' has the wrong field count'')
           else if \<not> list_all (\<lambda>(k, _). k \<in> set fields) kvs then Inl (wh @ '' field mismatch'')
           else Inr kvs)
      | _ \<Rightarrow> Inl (wh @ '' must be an exact object''))"

definition array_of :: "string \<Rightarrow> json \<Rightarrow> (strict_error, json list) res" where
  "array_of wh v = (case v of JArr xs \<Rightarrow> Inr xs | _ \<Rightarrow> Inl (wh @ '' must be an array''))"

definition nonempty_string :: "string \<Rightarrow> pystr \<Rightarrow> (strict_error, pystr) res" where
  "nonempty_string wh s =
     (if s = [] then Inl (wh @ '' must be a nonempty exact string'') else Inr s)"

definition string_of :: "string \<Rightarrow> json \<Rightarrow> (strict_error, pystr) res" where
  "string_of wh v =
     (case v of JStr s \<Rightarrow> nonempty_string wh s
      | _ \<Rightarrow> Inl (wh @ '' must be a nonempty exact string''))"

definition fixed_string :: "pystr \<Rightarrow> string \<Rightarrow> json \<Rightarrow> (strict_error, pystr) res" where
  "fixed_string expected wh v =
     (if v = JStr expected then Inr expected else Inl (wh @ '' must be the exact literal''))"

definition bounded_int :: "string \<Rightarrow> int \<Rightarrow> (strict_error, int) res" where
  "bounded_int wh i =
     (if i < 0 \<or> i > MAX_SIGNED_64 then Inl (wh @ '' must be an exact signed-64 integer'') else Inr i)"

definition integer_of :: "string \<Rightarrow> json \<Rightarrow> (strict_error, int) res" where
  "integer_of wh v =
     (case v of JInt i \<Rightarrow> bounded_int wh i
      | _ \<Rightarrow> Inl (wh @ '' must be an exact signed-64 integer''))"

definition boolean_of :: "string \<Rightarrow> json \<Rightarrow> (strict_error, bool) res" where
  "boolean_of wh v =
     (case v of JBool b \<Rightarrow> Inr b | _ \<Rightarrow> Inl (wh @ '' must be an exact boolean''))"

definition hex_codepoints :: pystr where
  "hex_codepoints = lit ''0123456789abcdefABCDEF''"

definition upper_cp :: "codepoint \<Rightarrow> codepoint" where
  "upper_cp c = (if 97 \<le> c \<and> c \<le> 102 then c - 32 else c)"

definition digest_text :: "string \<Rightarrow> pystr \<Rightarrow> (strict_error, pystr) res" where
  "digest_text wh s = bindE (nonempty_string wh s) (\<lambda>t.
     if length t \<noteq> 64 \<or> \<not> list_all (\<lambda>c. c \<in> set hex_codepoints) t
       then Inl (wh @ '' must be a full SHA-256 digest'')
     else Inr (map upper_cp t))"

definition digest_of :: "string \<Rightarrow> json \<Rightarrow> (strict_error, pystr) res" where
  "digest_of wh v = bindE (string_of wh v) (digest_text wh)"

text \<open>\<^verbatim>\<open>obj[name]\<close>; the field is there once \<open>object_of\<close> has accepted the object.\<close>

definition member :: "(pystr \<times> json) list \<Rightarrow> string \<Rightarrow> json" where
  "member kvs name = (case dget kvs (lit name) of Some v \<Rightarrow> v | None \<Rightarrow> JOther)"

text \<open>\<^verbatim>\<open>_strict_wire_preflight\<close>: one scan of exact types and UTF-8 lengths up to the work cap.\<close>

definition charge_wire :: "int \<Rightarrow> int \<Rightarrow> (strict_error, int) res" where
  "charge_wire amount units =
     (if amount < 0 \<or> units + amount > MAX_EXACT_PARTITION_WORK_UNITS
        then Inl ''CPU_SURVIVOR_PREREQUISITE_BLOCKED: strict partition wire preflight exceeds 250000 aggregate units''
      else Inr (units + amount))"

definition scan_text :: "string \<Rightarrow> pystr \<Rightarrow> int \<Rightarrow> (strict_error, int) res" where
  "scan_text wh t units = bindE (charge_wire 1 units)
     (foldE (\<lambda>c u. if is_surrogate c then Inl (wh @ '' contains an invalid surrogate'')
                   else charge_wire (int (utf8_width c)) u) t)"

fun bit_length :: "nat \<Rightarrow> nat" where
  "bit_length n = (if n = 0 then 0 else Suc (bit_length (n div 2)))"

declare bit_length.simps [simp del]

function scan_json :: "string \<Rightarrow> nat \<Rightarrow> json \<Rightarrow> int \<Rightarrow> (strict_error, int) res" where
  "scan_json wh d (JObj kvs) u =
     (if d > 128 then Inl (wh @ '' exceeds the strict JSON depth cap'')
      else bindE (charge_wire 1 u)
        (\<lambda>u. foldE (\<lambda>(k, x) u. bindE (scan_text (wh @ '' key'') k u) (scan_json wh (Suc d) x)) kvs u))"
| "scan_json wh d (JArr xs) u =
     (if d > 128 then Inl (wh @ '' exceeds the strict JSON depth cap'')
      else bindE (charge_wire 1 u) (\<lambda>u. foldE (\<lambda>x u. scan_json wh (Suc d) x u) xs u))"
| "scan_json wh d (JStr s) u =
     (if d > 128 then Inl (wh @ '' exceeds the strict JSON depth cap'') else scan_text wh s u)"
| "scan_json wh d (JInt i) u =
     (if d > 128 then Inl (wh @ '' exceeds the strict JSON depth cap'')
      else if i < - 9223372036854775808 \<or> i > MAX_SIGNED_64
        then Inl (wh @ '' integer is outside exact signed-64 wire range'')
      else charge_wire (max 1 (int ((bit_length (nat \<bar>i\<bar>) + 7) div 8))) u)"
| "scan_json wh d (JBool b) u =
     (if d > 128 then Inl (wh @ '' exceeds the strict JSON depth cap'') else charge_wire 1 u)"
| "scan_json wh d JNull u =
     (if d > 128 then Inl (wh @ '' exceeds the strict JSON depth cap'') else charge_wire 1 u)"
| "scan_json wh d JOther u =
     (if d > 128 then Inl (wh @ '' exceeds the strict JSON depth cap'')
      else Inl (wh @ '' is outside recursive exact JSON''))"
  by pat_completeness auto
termination
  by (relation "measure (\<lambda>(wh, d, v, u). size v)") (auto dest: json_member_size)

definition strict_wire_preflight :: "string \<Rightarrow> json \<Rightarrow> (strict_error, int) res" where
  "strict_wire_preflight wh v = scan_json wh 0 v 0"

section \<open>The work ledger\<close>

datatype work_category =
    SemanticInput | SourceValidation | InitialPartition | Refinement | Quotient
  | Distinguishing | CertificateUnits

record work_ledger =
  semantic_input_units :: int
  source_validation_units :: int
  initial_partition_units :: int
  refinement_units :: int
  quotient_units :: int
  distinguishing_units :: int
  certificate_units :: int

definition new_ledger :: work_ledger where
  "new_ledger = \<lparr>semantic_input_units = 0, source_validation_units = 0,
     initial_partition_units = 0, refinement_units = 0, quotient_units = 0,
     distinguishing_units = 0, certificate_units = 0\<rparr>"

definition total_units :: "work_ledger \<Rightarrow> int" where
  "total_units l = semantic_input_units l + source_validation_units l + initial_partition_units l
     + refinement_units l + quotient_units l + distinguishing_units l + certificate_units l"

fun add_units :: "work_category \<Rightarrow> int \<Rightarrow> work_ledger \<Rightarrow> work_ledger" where
  "add_units SemanticInput n l = l\<lparr>semantic_input_units := semantic_input_units l + n\<rparr>"
| "add_units SourceValidation n l = l\<lparr>source_validation_units := source_validation_units l + n\<rparr>"
| "add_units InitialPartition n l = l\<lparr>initial_partition_units := initial_partition_units l + n\<rparr>"
| "add_units Refinement n l = l\<lparr>refinement_units := refinement_units l + n\<rparr>"
| "add_units Quotient n l = l\<lparr>quotient_units := quotient_units l + n\<rparr>"
| "add_units Distinguishing n l = l\<lparr>distinguishing_units := distinguishing_units l + n\<rparr>"
| "add_units CertificateUnits n l = l\<lparr>certificate_units := certificate_units l + n\<rparr>"

definition charge :: "work_category \<Rightarrow> int \<Rightarrow> work_ledger \<Rightarrow> (strict_error, work_ledger) res" where
  "charge cat n l =
     (if n < 0 then Inl ''partition work charge is invalid''
      else if total_units l + n > MAX_EXACT_PARTITION_WORK_UNITS
        then Inl ''CPU_SURVIVOR_PREREQUISITE_BLOCKED: exact partition aggregate work cap would be exceeded before work''
      else Inr (add_units cat n l))"

definition charge_text ::
  "work_category \<Rightarrow> string \<Rightarrow> pystr \<Rightarrow> work_ledger \<Rightarrow> (strict_error, work_ledger) res" where
  "charge_text cat wh s l = bindE (nonempty_string wh s) (\<lambda>t.
     foldE (\<lambda>c l. if is_surrogate c then Inl (wh @ '' contains an invalid UTF-8 surrogate'')
                  else charge cat (int (utf8_width c)) l) t l)"

section \<open>Blocks\<close>

record partition_block =
  pb_index :: int
  pb_members :: "pystr list"

definition mk_partition_block :: "int \<Rightarrow> pystr list \<Rightarrow> (strict_error, partition_block) res" where
  "mk_partition_block i ms = bindE (bounded_int ''partition block_index'' i) (\<lambda>_.
     if ms = [] \<or> length ms > MAX_SYNTHETIC_TOTALIZED_STATES \<or> [] \<in> set ms
       then Inl ''partition member_state_ids must be a nonempty exact string tuple''
     else if length ms \<noteq> length (remdups ms) then Inl ''partition block contains duplicate state IDs''
     else Inr \<lparr>pb_index = i, pb_members = ms\<rparr>)"

definition block_to_dict :: "partition_block \<Rightarrow> json" where
  "block_to_dict b = JObj
     [(lit ''schema_version'', JStr (lit ''lean-rgc-odlrq-exact-partition-block-v1'')),
      (lit ''block_index'', JInt (pb_index b)),
      (lit ''member_state_ids'', JArr (map JStr (pb_members b)))]"

definition block_from_dict :: "json \<Rightarrow> (strict_error, partition_block) res" where
  "block_from_dict v =
     bindE (object_of (map lit [''schema_version'', ''block_index'', ''member_state_ids''])
       ''ExactPartitionBlock'' v) (\<lambda>kvs.
     bindE (fixed_string (lit ''lean-rgc-odlrq-exact-partition-block-v1'')
       ''ExactPartitionBlock schema'' (member kvs ''schema_version'')) (\<lambda>_.
     bindE (array_of ''partition member_state_ids'' (member kvs ''member_state_ids'')) (\<lambda>xs.
     if xs = [] \<or> length xs > MAX_SYNTHETIC_TOTALIZED_STATES
       then Inl ''partition member count is outside the state cap''
     else
       bindE (integer_of ''partition block_index'' (member kvs ''block_index'')) (\<lambda>i.
       bindE (mapE (string_of ''partition member state ID'') xs) (\<lambda>ms.
       bindE (mk_partition_block i ms) (\<lambda>b.
       if json_eq (block_to_dict b) v then Inr b
       else Inl ''ExactPartitionBlock is not canonical''))))))"

section \<open>Refinement stages\<close>

record refinement_stage =
  rs_index :: int
  rs_changed :: bool
  rs_blocks :: "partition_block list"

definition block_numbering_ok :: "partition_block list \<Rightarrow> bool" where
  "block_numbering_ok bs \<longleftrightarrow> map pb_index bs = map int [0..<length bs]"

definition mk_refinement_stage ::
  "int \<Rightarrow> bool \<Rightarrow> partition_block list \<Rightarrow> (strict_error, refinement_stage) res" where
  "mk_refinement_stage i changed bs = bindE (bounded_int ''refinement stage_index'' i) (\<lambda>_.
     if bs = [] \<or> length bs > MAX_SYNTHETIC_TOTALIZED_STATES
       then Inl ''refinement blocks are not an exact bounded tuple''
     else if \<not> block_numbering_ok bs then Inl ''refinement block numbering is not contiguous''
     else if sum_list (map (length \<circ> pb_members) bs) > MAX_SYNTHETIC_TOTALIZED_STATES
       then Inl ''refinement stage aggregate member count exceeds the state cap''
     else if \<not> distinct (concat (map pb_members bs)) then Inl ''refinement stage repeats a member''
     else Inr \<lparr>rs_index = i, rs_changed = changed, rs_blocks = bs\<rparr>)"

definition stage_to_dict :: "refinement_stage \<Rightarrow> json" where
  "stage_to_dict s = JObj
     [(lit ''schema_version'', JStr (lit ''lean-rgc-odlrq-exact-refinement-stage-v1'')),
      (lit ''stage_index'', JInt (rs_index s)),
      (lit ''changed_from_previous'', JBool (rs_changed s)),
      (lit ''blocks'', JArr (map block_to_dict (rs_blocks s)))]"

definition stage_from_dict :: "json \<Rightarrow> (strict_error, refinement_stage) res" where
  "stage_from_dict v =
     bindE (object_of (map lit [''schema_version'', ''stage_index'', ''changed_from_previous'', ''blocks''])
       ''ExactRefinementStage'' v) (\<lambda>kvs.
     bindE (fixed_string (lit ''lean-rgc-odlrq-exact-refinement-stage-v1'')
       ''ExactRefinementStage schema'' (member kvs ''schema_version'')) (\<lambda>_.
     bindE (array_of ''refinement blocks'' (member kvs ''blocks'')) (\<lambda>rows.
     if rows = [] \<or> length rows > MAX_SYNTHETIC_TOTALIZED_STATES
       then Inl ''refinement block count is outside the state cap''
     else
       bindE (integer_of ''refinement stage_index'' (member kvs ''stage_index'')) (\<lambda>i.
       bindE (boolean_of ''refinement changed_from_previous'' (member kvs ''changed_from_previous'')) (\<lambda>c.
       bindE (mapE block_from_dict rows) (\<lambda>bs.
       bindE (mk_refinement_stage i c bs) (\<lambda>s.
       if json_eq (stage_to_dict s) v then Inr s
       else Inl ''ExactRefinementStage is not canonical'')))))))"

section \<open>Quotient rows\<close>

record quotient_row =
  qr_source :: int
  qr_action :: pystr
  qr_target :: int

definition mk_quotient_row :: "int \<Rightarrow> pystr \<Rightarrow> int \<Rightarrow> (strict_error, quotient_row) res" where
  "mk_quotient_row s a t =
     bindE (bounded_int ''quotient source_block_index'' s) (\<lambda>_.
     bindE (bounded_int ''quotient target_block_index'' t) (\<lambda>_.
     bindE (nonempty_string ''quotient action_id'' a) (\<lambda>_.
     Inr \<lparr>qr_source = s, qr_action = a, qr_target = t\<rparr>)))"

definition row_to_dict :: "quotient_row \<Rightarrow> json" where
  "row_to_dict r = JObj
     [(lit ''schema_version'', JStr (lit ''lean-rgc-odlrq-exact-quotient-row-v1'')),
      (lit ''source_block_index'', JInt (qr_source r)),
      (lit ''action_id'', JStr (qr_action r)),
      (lit ''target_block_index'', JInt (qr_target r))]"

definition row_from_dict :: "json \<Rightarrow> (strict_error, quotient_row) res" where
  "row_from_dict v =
     bindE (object_of (map lit [''schema_version'', ''source_block_index'', ''action_id'', ''target_block_index''])
       ''ExactQuotientRow'' v) (\<lambda>kvs.
     bindE (fixed_string (lit ''lean-rgc-odlrq-exact-quotient-row-v1'')
       ''ExactQuotientRow schema'' (member kvs ''schema_version'')) (\<lambda>_.
     bindE (integer_of ''quotient source_block_index'' (member kvs ''source_block_index'')) (\<lambda>s.
     bindE (string_of ''quotient action_id'' (member kvs ''action_id'')) (\<lambda>a.
     bindE (integer_of ''quotient target_block_index'' (member kvs ''target_block_index'')) (\<lambda>t.
     bindE (mk_quotient_row s a t) (\<lambda>r.
     if json_eq (row_to_dict r) v then Inr r
     else Inl ''ExactQuotientRow is not canonical''))))))"

section \<open>Distinguishing witnesses\<close>

record distinguishing_witness =
  dw_left :: int
  dw_right :: int
  dw_actions :: "pystr list"

definition mk_distinguishing_witness ::
  "int \<Rightarrow> int \<Rightarrow> pystr list \<Rightarrow> (strict_error, distinguishing_witness) res" where
  "mk_distinguishing_witness l r w =
     bindE (bounded_int ''witness left_block_index'' l) (\<lambda>_.
     bindE (bounded_int ''witness right_block_index'' r) (\<lambda>_.
     if l \<ge> r then Inl ''distinguishing witness block pair is not ordered''
     else if length w > MAX_SYNTHETIC_TOTALIZED_STATES - 1 \<or> [] \<in> set w
       then Inl ''witness action_ids are not an exact string tuple''
     else Inr \<lparr>dw_left = l, dw_right = r, dw_actions = w\<rparr>))"

definition witness_to_dict :: "distinguishing_witness \<Rightarrow> json" where
  "witness_to_dict w = JObj
     [(lit ''schema_version'', JStr (lit ''lean-rgc-odlrq-exact-distinguishing-witness-v1'')),
      (lit ''left_block_index'', JInt (dw_left w)),
      (lit ''right_block_index'', JInt (dw_right w)),
      (lit ''action_ids'', JArr (map JStr (dw_actions w)))]"

definition witness_from_dict :: "json \<Rightarrow> (strict_error, distinguishing_witness) res" where
  "witness_from_dict v =
     bindE (object_of (map lit [''schema_version'', ''left_block_index'', ''right_block_index'', ''action_ids''])
       ''ExactDistinguishingWitness'' v) (\<lambda>kvs.
     bindE (fixed_string (lit ''lean-rgc-odlrq-exact-distinguishing-witness-v1'')
       ''ExactDistinguishingWitness schema'' (member kvs ''schema_version'')) (\<lambda>_.
     bindE (array_of ''witness action_ids'' (member kvs ''action_ids'')) (\<lambda>xs.
     if length xs > MAX_SYNTHETIC_TOTALIZED_STATES - 1
       then Inl ''distinguishing word exceeds the finite-state bound''
     else
       bindE (integer_of ''witness left_block_index'' (member kvs ''left_block_index'')) (\<lambda>l.
       bindE (integer_of ''witness right_block_index'' (member kvs ''right_block_index'')) (\<lambda>r.
       bindE (mapE (string_of ''witness action ID'') xs) (\<lambda>w.
       bindE (mk_distinguishing_witness l r w) (\<lambda>dw.
       if json_eq (witness_to_dict dw) v then Inr dw
       else Inl ''ExactDistinguishingWitness is not canonical'')))))))"

section \<open>Work counters\<close>

record work_counters =
  wc_ledger :: work_ledger
  wc_total :: int
  wc_limit :: int

definition ledger_values :: "work_ledger \<Rightarrow> int list" where
  "ledger_values l = [semantic_input_units l, source_validation_units l, initial_partition_units l,
     refinement_units l, quotient_units l, distinguishing_units l, certificate_units l]"

definition mk_work_counters ::
  "work_ledger \<Rightarrow> int \<Rightarrow> int \<Rightarrow> (strict_error, work_counters) res" where
  "mk_work_counters l tot limit =
     bindE (mapE (bounded_int ''partition counter'') (ledger_values l @ [tot])) (\<lambda>_.
     if limit \<noteq> MAX_EXACT_PARTITION_WORK_UNITS then Inl ''partition work_limit is not frozen''
     else if tot \<noteq> sum_list (ledger_values l) then Inl ''partition work counter total is inconsistent''
     else if tot > limit then Inl ''CPU_SURVIVOR_PREREQUISITE_BLOCKED: exact partition work cap exceeded''
     else Inr \<lparr>wc_ledger = l, wc_total = tot, wc_limit = limit\<rparr>)"

definition counters_from_ledger :: "work_ledger \<Rightarrow> (strict_error, work_counters) res" where
  "counters_from_ledger l = mk_work_counters l (total_units l) MAX_EXACT_PARTITION_WORK_UNITS"

definition counters_to_dict :: "work_counters \<Rightarrow> json" where
  "counters_to_dict c = JObj
     [(lit ''schema_version'', JStr (lit ''lean-rgc-odlrq-exact-partition-work-counters-v1'')),
      (lit ''semantic_input_units'', JInt (semantic_input_units (wc_ledger c))),
      (lit ''source_validation_units'', JInt (source_validation_units (wc_ledger c))),
      (lit ''initial_partition_units'', JInt (initial_partition_units (wc_ledger c))),
      (lit ''refinement_units'', JInt (refinement_units (wc_ledger c))),
      (lit ''quotient_units'', JInt (quotient_units (wc_ledger c))),
      (lit ''distinguishing_units'', JInt (distinguishing_units (wc_ledger c))),
      (lit ''certificate_units'', JInt (certificate_units (wc_ledger c))),
      (lit ''total_units'', JInt (wc_total c)),
      (lit ''work_limit'', JInt (wc_limit c))]"

definition counter_names :: "string list" where
  "counter_names = [''semantic_input_units'', ''source_validation_units'',
     ''initial_partition_units'', ''refinement_units'', ''quotient_units'',
     ''distinguishing_units'', ''certificate_units'', ''total_units'', ''work_limit'']"

definition counters_from_dict :: "json \<Rightarrow> (strict_error, work_counters) res" where
  "counters_from_dict v =
     bindE (object_of (map lit (''schema_version'' # counter_names)) ''ExactPartitionWorkCounters'' v) (\<lambda>kvs.
     bindE (fixed_string (lit ''lean-rgc-odlrq-exact-partition-work-counters-v1'')
       ''ExactPartitionWorkCounters schema'' (member kvs ''schema_version'')) (\<lambda>_.
     bindE (mapE (\<lambda>n. integer_of (''partition counter '' @ n) (member kvs n)) counter_names) (\<lambda>xs.
     bindE (mk_work_counters
       \<lparr>semantic_input_units = xs ! 0, source_validation_units = xs ! 1,
        initial_partition_units = xs ! 2, refinement_units = xs ! 3, quotient_units = xs ! 4,
        distinguishing_units = xs ! 5, certificate_units = xs ! 6\<rparr> (xs ! 7) (xs ! 8)) (\<lambda>c.
     if json_eq (counters_to_dict c) v then Inr c
     else Inl ''ExactPartitionWorkCounters is not canonical''))))"

section \<open>The certificate\<close>

record partition_certificate =
  pc_evidence_scope :: pystr
  pc_snapshot_sha256 :: pystr
  pc_domain_payload_digest :: pystr
  pc_observation_frame_digest :: pystr
  pc_transition_semantics_digest :: pystr
  pc_response_vocabulary_digest :: pystr
  pc_action_alphabet_digest :: pystr
  pc_action_ids :: "pystr list"
  pc_trace :: "refinement_stage list"
  pc_final_blocks :: "partition_block list"
  pc_quotient_rows :: "quotient_row list"
  pc_witnesses :: "distinguishing_witness list"
  pc_work_counters :: work_counters
  pc_fixed_point_passes :: int

definition stage_members :: "refinement_stage \<Rightarrow> pystr set" where
  "stage_members s = (\<Union>b \<in> set (rs_blocks s). set (pb_members b))"

definition stage_owner :: "partition_block list \<Rightarrow> (pystr, int) dict" where
  "stage_owner bs = foldl (\<lambda>d (i, m). dset m i d) []
     (concat (map (\<lambda>b. map (Pair (pb_index b)) (pb_members b)) bs))"

definition strict_structural_refinement :: "refinement_stage \<Rightarrow> refinement_stage \<Rightarrow> bool" where
  "strict_structural_refinement prev cur \<longleftrightarrow>
     length (rs_blocks prev) < length (rs_blocks cur)
     \<and> (let owner = stage_owner (rs_blocks prev) in
        list_all (\<lambda>b. let owners = remdups (map (dget owner) (pb_members b)) in
          length owners = 1 \<and> None \<notin> set owners) (rs_blocks cur))"

text \<open>
  \<^verbatim>\<open>_preflight_certificate_object_shape\<close>: structural units are counted to the cap, and charged
  to the ledger as well when one is given, except for the bytes of the locators.
\<close>

type_synonym shape_state = "int \<times> work_ledger option"

definition shape_charge :: "int \<Rightarrow> bool \<Rightarrow> shape_state \<Rightarrow> (strict_error, shape_state) res" where
  "shape_charge n account st =
     (if fst st + n > MAX_EXACT_PARTITION_WORK_UNITS
        then Inl ''CPU_SURVIVOR_PREREQUISITE_BLOCKED: certificate nested locator shape exceeds 250000 aggregate units''
      else (case snd st of
          None \<Rightarrow> Inr (fst st + n, None)
        | Some l \<Rightarrow>
            (if account then bindE (charge CertificateUnits n l) (\<lambda>l'. Inr (fst st + n, Some l'))
             else Inr (fst st + n, Some l))))"

definition scan_locator :: "string \<Rightarrow> pystr \<Rightarrow> shape_state \<Rightarrow> (strict_error, shape_state) res" where
  "scan_locator wh t st =
     (if t = [] then Inl (wh @ '' is not an exact nonempty string'')
      else foldE (\<lambda>c st. if is_surrogate c then Inl (wh @ '' contains an invalid surrogate'')
                         else shape_charge (int (utf8_width c)) False st) t st)"

definition shape_locator :: "string \<Rightarrow> pystr \<Rightarrow> shape_state \<Rightarrow> (strict_error, shape_state) res" where
  "shape_locator wh t st = bindE (shape_charge 1 True st) (scan_locator wh t)"

definition shape_blocks ::
  "string \<Rightarrow> string \<Rightarrow> partition_block list \<Rightarrow> shape_state \<Rightarrow> (strict_error, shape_state) res" where
  "shape_blocks wh bad bs st = foldE (\<lambda>b st. bindE (shape_charge 1 True st) (\<lambda>st.
     if pb_members b = [] \<or> length (pb_members b) > MAX_SYNTHETIC_TOTALIZED_STATES then Inl bad
     else foldE (shape_locator wh) (pb_members b) st)) bs st"

definition shape_final_blocks ::
  "partition_block list \<Rightarrow> nat \<times> shape_state \<Rightarrow> (strict_error, nat \<times> shape_state) res" where
  "shape_final_blocks bs st = foldE (\<lambda>b (n, st). bindE (shape_charge 1 True st) (\<lambda>st.
     if pb_members b = [] \<or> length (pb_members b) > MAX_SYNTHETIC_TOTALIZED_STATES
       then Inl ''certificate final member shape is invalid''
     else if n + length (pb_members b) > MAX_SYNTHETIC_TOTALIZED_STATES
       then Inl ''certificate final aggregate membership exceeds the state cap''
     else bindE (foldE (shape_locator ''certificate final locator'') (pb_members b) st)
       (\<lambda>st. Inr (n + length (pb_members b), st)))) bs st"

definition max_pairs :: nat where
  "max_pairs = MAX_SYNTHETIC_TOTALIZED_STATES * (MAX_SYNTHETIC_TOTALIZED_STATES - 1) div 2"

definition preflight_shape ::
  "partition_certificate \<Rightarrow> work_ledger option \<Rightarrow> (strict_error, work_ledger option) res" where
  "preflight_shape c lo =
     (if pc_action_ids c = [] \<or> length (pc_action_ids c) > MAX_SYNTHETIC_ACTIONS
        then Inl ''certificate action locator shape is invalid''
      else bindE (foldE (shape_locator ''certificate action locator'') (pc_action_ids c) (0, lo)) (\<lambda>st.
      if pc_trace c = [] \<or> length (pc_trace c) > MAX_SYNTHETIC_TOTALIZED_STATES
        then Inl ''certificate trace shape is invalid''
      else bindE (foldE (\<lambda>s st. bindE (shape_charge 1 True st) (\<lambda>st.
          if rs_blocks s = [] \<or> length (rs_blocks s) > MAX_SYNTHETIC_TOTALIZED_STATES
            then Inl ''certificate trace block count is invalid''
          else shape_blocks ''certificate trace locator'' ''certificate trace member shape is invalid''
            (rs_blocks s) st)) (pc_trace c) st) (\<lambda>st.
      if pc_final_blocks c = [] \<or> length (pc_final_blocks c) > MAX_SYNTHETIC_TOTALIZED_STATES
        then Inl ''certificate final block shape is invalid''
      else bindE (shape_final_blocks (pc_final_blocks c) (0, st)) (\<lambda>(_, st).
      if length (pc_quotient_rows c) > MAX_SYNTHETIC_TRANSITION_ROWS
        then Inl ''certificate quotient shape is invalid''
      else bindE (foldE (\<lambda>r st. bindE (shape_charge 1 True st)
          (scan_locator ''certificate quotient action locator'' (qr_action r))) (pc_quotient_rows c) st) (\<lambda>st.
      if length (pc_witnesses c) > max_pairs then Inl ''certificate witness shape is invalid''
      else bindE (foldE (\<lambda>w st. bindE (shape_charge 1 True st) (\<lambda>st.
          if length (dw_actions w) > MAX_SYNTHETIC_TOTALIZED_STATES - 1
            then Inl ''certificate witness word shape is invalid''
          else foldE (shape_locator ''certificate witness locator'') (dw_actions w) st)) (pc_witnesses c) st)
        (\<lambda>st. Inr (snd st)))))))"

text \<open>The order of the quotient rows and of the block pairs.\<close>

definition quotient_keys :: "nat \<Rightarrow> pystr list \<Rightarrow> (int \<times> pystr) list" where
  "quotient_keys n acts = concat (map (\<lambda>i. map (Pair (int i)) acts) [0..<n])"

definition index_pairs :: "nat \<Rightarrow> (nat \<times> nat) list" where
  "index_pairs n = concat (map (\<lambda>l. map (Pair l) [Suc l..<n]) [0..<n])"

definition trace_checks :: "partition_certificate \<Rightarrow> (strict_error, unit) res" where
  "trace_checks c =
     (let tr = pc_trace c; ini = stage_members (hd tr); n = card ini in
      if tr = [] \<or> length tr > MAX_SYNTHETIC_TOTALIZED_STATES
        then Inl ''partition refinement_trace is not exact and bounded''
      else if map rs_index tr \<noteq> map int [0..<length tr]
        then Inl ''partition refinement stage indices are not contiguous''
      else if rs_changed (hd tr) \<or> \<not> list_all rs_changed (tl tr)
        then Inl ''partition trace must contain P0 then strict stages''
      else if n < 3 \<or> n > MAX_SYNTHETIC_TOTALIZED_STATES
        then Inl ''partition trace member count is outside source bounds''
      else bindE (foldE (\<lambda>(prev, cur) _.
          if stage_members cur \<noteq> ini then Inl ''partition trace changes the source member set''
          else if \<not> strict_structural_refinement prev cur
            then Inl ''partition trace contains a non-strict split stage''
          else Inr ()) (zip tr (tl tr)) ()) (\<lambda>_.
      if length tr - 1 > n - 1 then Inl ''partition trace exceeds the finite split bound''
      else Inr ()))"

definition table_checks :: "partition_certificate \<Rightarrow> (strict_error, unit) res" where
  "table_checks c =
     (let n = length (pc_final_blocks c); acts = pc_action_ids c in
      if pc_final_blocks c = [] \<or> n > MAX_SYNTHETIC_TOTALIZED_STATES
          \<or> pc_final_blocks c \<noteq> rs_blocks (last (pc_trace c))
        then Inl ''partition final_blocks do not equal the final stage''
      else bindE (bounded_int ''partition fixed_point_passes'' (pc_fixed_point_passes c)) (\<lambda>_.
      if pc_fixed_point_passes c \<noteq> 1 then Inl ''partition must record exactly one no-change pass''
      else if length (pc_quotient_rows c) \<noteq> n * length acts
        then Inl ''partition quotient row table is not structurally total''
      else if map (\<lambda>r. (qr_source r, qr_action r)) (pc_quotient_rows c) \<noteq> quotient_keys n acts
        then Inl ''partition quotient rows are not in block/semantic-action order''
      else if list_ex (\<lambda>r. qr_target r \<ge> int n) (pc_quotient_rows c)
        then Inl ''partition quotient target block is out of range''
      else if length (pc_witnesses c) > max_pairs then Inl ''partition distinguishing witnesses are not exact''
      else if map (\<lambda>w. (dw_left w, dw_right w)) (pc_witnesses c)
          \<noteq> map (\<lambda>(l, r). (int l, int r)) (index_pairs n)
        then Inl ''partition must carry one ordered witness for every block pair''
      else if list_ex (\<lambda>w. list_ex (\<lambda>a. a \<notin> set acts) (dw_actions w)) (pc_witnesses c)
        then Inl ''partition witness uses an action outside the alphabet''
      else Inr ()))"

definition mk_certificate :: "partition_certificate \<Rightarrow> (strict_error, partition_certificate) res" where
  "mk_certificate c =
     bindE (preflight_shape c None) (\<lambda>_.
     bindE (fixed_string SYNTHETIC_EVIDENCE_SCOPE ''partition certificate evidence_scope''
       (JStr (pc_evidence_scope c))) (\<lambda>_.
     bindE (digest_text ''partition snapshot_sha256'' (pc_snapshot_sha256 c)) (\<lambda>d0.
     bindE (digest_text ''partition certificate domain_payload_digest'' (pc_domain_payload_digest c)) (\<lambda>d1.
     bindE (digest_text ''partition certificate observation_frame_digest'' (pc_observation_frame_digest c)) (\<lambda>d2.
     bindE (digest_text ''partition certificate transition_semantics_digest'' (pc_transition_semantics_digest c)) (\<lambda>d3.
     bindE (digest_text ''partition certificate response_vocabulary_digest'' (pc_response_vocabulary_digest c)) (\<lambda>d4.
     bindE (digest_text ''partition certificate action_alphabet_digest'' (pc_action_alphabet_digest c)) (\<lambda>d5.
     if pc_action_ids c = [] \<or> length (pc_action_ids c) > MAX_SYNTHETIC_ACTIONS
         \<or> [] \<in> set (pc_action_ids c) \<or> \<not> distinct (pc_action_ids c)
       then Inl ''partition canonical_action_ids are not an exact bounded unique tuple''
     else bindE (trace_checks c) (\<lambda>_. bindE (table_checks c) (\<lambda>_.
       Inr (c\<lparr>pc_snapshot_sha256 := d0, pc_domain_payload_digest := d1,
              pc_observation_frame_digest := d2, pc_transition_semantics_digest := d3,
              pc_response_vocabulary_digest := d4, pc_action_alphabet_digest := d5\<rparr>)))))))))))"

definition certificate_to_dict :: "partition_certificate \<Rightarrow> json" where
  "certificate_to_dict c = JObj
     [(lit ''schema_version'', JStr (lit ''lean-rgc-odlrq-exact-partition-certificate-v1'')),
      (lit ''evidence_scope'', JStr (pc_evidence_scope c)),
      (lit ''snapshot_sha256'', JStr (pc_snapshot_sha256 c)),
      (lit ''domain_payload_digest'', JStr (pc_domain_payload_digest c)),
      (lit ''observation_frame_digest'', JStr (pc_observation_frame_digest c)),
      (lit ''transition_semantics_digest'', JStr (pc_transition_semantics_digest c)),
      (lit ''response_vocabulary_digest'', JStr (pc_response_vocabulary_digest c)),
      (lit ''action_alphabet_digest'', JStr (pc_action_alphabet_digest c)),
      (lit ''canonical_action_ids'', JArr (map JStr (pc_action_ids c))),
      (lit ''refinement_trace'', JArr (map stage_to_dict (pc_trace c))),
      (lit ''final_blocks'', JArr (map block_to_dict (pc_final_blocks c))),
      (lit ''quotient_rows'', JArr (map row_to_dict (pc_quotient_rows c))),
      (lit ''distinguishing_witnesses'', JArr (map witness_to_dict (pc_witnesses c))),
      (lit ''work_counters'', counters_to_dict (pc_work_counters c)),
      (lit ''fixed_point_passes'', JInt (pc_fixed_point_passes c))]"

definition certificate_fields :: "string list" where
  "certificate_fields = [''schema_version'', ''evidence_scope'', ''snapshot_sha256'',
     ''domain_payload_digest'', ''observation_frame_digest'', ''transition_semantics_digest'',
     ''response_vocabulary_digest'', ''action_alphabet_digest'', ''canonical_action_ids'',
     ''refinement_trace'', ''final_blocks'', ''quotient_rows'', ''distinguishing_witnesses'',
     ''work_counters'', ''fixed_point_passes'']"

definition certificate_counts_ok ::
  "json list \<Rightarrow> json list \<Rightarrow> json list \<Rightarrow> json list \<Rightarrow> json list \<Rightarrow> (strict_error, unit) res" where
  "certificate_counts_ok acts tr fin quo wit =
     (if acts = [] \<or> length acts > MAX_SYNTHETIC_ACTIONS
        then Inl ''certificate action count is outside the cap''
      else if tr = [] \<or> length tr > MAX_SYNTHETIC_TOTALIZED_STATES
        then Inl ''certificate refinement trace is outside the cap''
      else if fin = [] \<or> length fin > MAX_SYNTHETIC_TOTALIZED_STATES
        then Inl ''certificate final block count is outside the cap''
      else if length quo > MAX_SYNTHETIC_TRANSITION_ROWS
        then Inl ''certificate quotient row count is outside the cap''
      else if length wit > max_pairs then Inl ''certificate witness count is outside the cap''
      else Inr ())"

definition certificate_from_dict :: "json \<Rightarrow> (strict_error, partition_certificate) res" where
  "certificate_from_dict v =
     bindE (object_of (map lit certificate_fields) ''ExactPartitionCertificate'' v) (\<lambda>kvs.
     bindE (fixed_string (lit ''lean-rgc-odlrq-exact-partition-certificate-v1'')
       ''ExactPartitionCertificate schema'' (member kvs ''schema_version'')) (\<lambda>_.
     bindE (fixed_string SYNTHETIC_EVIDENCE_SCOPE
       ''ExactPartitionCertificate evidence_scope'' (member kvs ''evidence_scope'')) (\<lambda>_.
     bindE (array_of ''partition canonical_action_ids'' (member kvs ''canonical_action_ids'')) (\<lambda>acts.
     bindE (array_of ''partition refinement_trace'' (member kvs ''refinement_trace'')) (\<lambda>tr.
     bindE (array_of ''partition final_blocks'' (member kvs ''final_blocks'')) (\<lambda>fin.
     bindE (array_of ''partition quotient_rows'' (member kvs ''quotient_rows'')) (\<lambda>quo.
     bindE (array_of ''partition distinguishing_witnesses'' (member kvs ''distinguishing_witnesses'')) (\<lambda>wit.
     bindE (certificate_counts_ok acts tr fin quo wit) (\<lambda>_.
     bindE (strict_wire_preflight ''ExactPartitionCertificate'' v) (\<lambda>_.
     bindE (string_of ''certificate evidence_scope'' (member kvs ''evidence_scope'')) (\<lambda>scope.
     bindE (digest_of ''certificate snapshot_sha256'' (member kvs ''snapshot_sha256'')) (\<lambda>d0.
     bindE (digest_of ''certificate domain_payload_digest'' (member kvs ''domain_payload_digest'')) (\<lambda>d1.
     bindE (digest_of ''certificate observation_frame_digest'' (member kvs ''observation_frame_digest'')) (\<lambda>d2.
     bindE (digest_of ''certificate transition_semantics_digest'' (member kvs ''transition_semantics_digest'')) (\<lambda>d3.
     bindE (digest_of ''certificate response_vocabulary_digest'' (member kvs ''response_vocabulary_digest'')) (\<lambda>d4.
     bindE (digest_of ''certificate action_alphabet_digest'' (member kvs ''action_alphabet_digest'')) (\<lambda>d5.
     bindE (mapE (string_of ''certificate canonical action ID'') acts) (\<lambda>ids.
     bindE (mapE stage_from_dict tr) (\<lambda>trace.
     bindE (mapE block_from_dict fin) (\<lambda>blocks.
     bindE (mapE row_from_dict quo) (\<lambda>rows.
     bindE (mapE witness_from_dict wit) (\<lambda>wits.
     bindE (counters_from_dict (member kvs ''work_counters'')) (\<lambda>wc.
     bindE (integer_of ''certificate fixed_point_passes'' (member kvs ''fixed_point_passes'')) (\<lambda>fp.
     bindE (mk_certificate \<lparr>pc_evidence_scope = scope, pc_snapshot_sha256 = d0,
       pc_domain_payload_digest = d1, pc_observation_frame_digest = d2,
       pc_transition_semantics_digest = d3, pc_response_vocabulary_digest = d4,
       pc_action_alphabet_digest = d5, pc_action_ids = ids, pc_trace = trace,
       pc_final_blocks = blocks, pc_quotient_rows = rows, pc_witnesses = wits,
       pc_work_counters = wc, pc_fixed_point_passes = fp\<rparr>) (\<lambda>c.
     if json_eq (certificate_to_dict c) v then Inr c
     else Inl ''ExactPartitionCertificate is not canonical'')))))))))))))))))))))))))"

end
