(* ===== verification/PartitionCodec.thy ===== *)
theory PartitionCodec
  imports PartitionData
begin

text \<open>
  The wire format of partition certificates: every dataclass that passes its own checks survives
  \<^verbatim>\<open>from_dict(to_dict(x))\<close> unchanged, up to the certificate as a whole, whose only remaining failure
  is the wire preflight's work cap.
\<close>

named_theorems wire \<open>evaluating the wire helpers\<close>

lemma object_of_JObj [wire]:
  "map fst kvs = map lit names \<Longrightarrow> object_of (map lit names) wh (JObj kvs) = Inr kvs"
  unfolding object_of_def
  by (auto simp: list_all_iff dest: arg_cong [of _ _ length])
    (metis fst_conv imageI list.set_map)

lemma member_Cons [wire]:
  "member ((lit n, v) # kvs) m = (if n = m then v else member kvs m)"
  by (simp add: member_def)

lemma fixed_string_refl [wire]: "fixed_string s wh (JStr s) = Inr s"
  by (simp add: fixed_string_def)

lemma array_of_JArr [wire]: "array_of wh (JArr xs) = Inr xs"
  by (simp add: array_of_def)

lemma integer_of_JInt [wire]: "integer_of wh (JInt i) = bounded_int wh i"
  by (simp add: integer_of_def)

lemma boolean_of_JBool [wire]: "boolean_of wh (JBool b) = Inr b"
  by (simp add: boolean_of_def)

lemma string_of_JStr [wire]: "string_of wh (JStr s) = nonempty_string wh s"
  by (simp add: string_of_def)

lemma bounded_int_eq_Inr: "bounded_int wh i = Inr j \<longleftrightarrow> 0 \<le> i \<and> i \<le> MAX_SIGNED_64 \<and> j = i"
  by (auto simp: bounded_int_def)

lemma bounded_int_ok [wire]: "0 \<le> i \<Longrightarrow> i \<le> MAX_SIGNED_64 \<Longrightarrow> bounded_int wh i = Inr i"
  by (simp add: bounded_int_def)

lemma nonempty_string_ok [wire]: "s \<noteq> [] \<Longrightarrow> nonempty_string wh s = Inr s"
  by (simp add: nonempty_string_def)

lemma nonempty_string_eq_Inr: "nonempty_string wh s = Inr t \<longleftrightarrow> s \<noteq> [] \<and> t = s"
  by (auto simp: nonempty_string_def)

lemma mapE_strings [wire]: "mapE (string_of wh) (map JStr ss) = (if [] \<in> set ss then Inl (wh @ '' must be a nonempty exact string'') else Inr ss)"
  by (induction ss) (auto simp: string_of_def nonempty_string_def)

lemma mapE_inverse: "(\<And>x. x \<in> set xs \<Longrightarrow> f (g x) = Inr x) \<Longrightarrow> mapE f (map g xs) = Inr xs"
  by (induction xs) auto

definition block_ok :: "partition_block \<Rightarrow> bool" where
  "block_ok b \<longleftrightarrow> mk_partition_block (pb_index b) (pb_members b) = Inr b"

definition stage_ok :: "refinement_stage \<Rightarrow> bool" where
  "stage_ok s \<longleftrightarrow> mk_refinement_stage (rs_index s) (rs_changed s) (rs_blocks s) = Inr s
     \<and> list_all block_ok (rs_blocks s)"

definition row_ok :: "quotient_row \<Rightarrow> bool" where
  "row_ok r \<longleftrightarrow> mk_quotient_row (qr_source r) (qr_action r) (qr_target r) = Inr r"

definition witness_ok :: "distinguishing_witness \<Rightarrow> bool" where
  "witness_ok w \<longleftrightarrow> mk_distinguishing_witness (dw_left w) (dw_right w) (dw_actions w) = Inr w"

definition counters_ok :: "work_counters \<Rightarrow> bool" where
  "counters_ok c \<longleftrightarrow> mk_work_counters (wc_ledger c) (wc_total c) (wc_limit c) = Inr c"

definition certificate_ok :: "partition_certificate \<Rightarrow> bool" where
  "certificate_ok c \<longleftrightarrow> mk_certificate c = Inr c \<and> list_all stage_ok (pc_trace c)
     \<and> list_all block_ok (pc_final_blocks c) \<and> list_all row_ok (pc_quotient_rows c)
     \<and> list_all witness_ok (pc_witnesses c) \<and> counters_ok (pc_work_counters c)"

lemma len_remdups: "length xs = length (remdups xs) \<longleftrightarrow> distinct xs"
  by (metis distinct_remdups distinct_remdups_id length_remdups_eq)

lemma block_ok_iff: "block_ok b \<longleftrightarrow> 0 \<le> pb_index b \<and> pb_index b \<le> MAX_SIGNED_64
    \<and> pb_members b \<noteq> [] \<and> length (pb_members b) \<le> MAX_SYNTHETIC_TOTALIZED_STATES
    \<and> [] \<notin> set (pb_members b) \<and> distinct (pb_members b)"
  by (auto simp: block_ok_def mk_partition_block_def bindE_eq_Inr bounded_int_eq_Inr len_remdups)

lemma block_roundtrip: "block_ok b \<Longrightarrow> block_from_dict (block_to_dict b) = Inr b"
  unfolding block_from_dict_def block_to_dict_def
  by (subst object_of_JObj) (auto simp: wire block_ok_iff bindE_eq_Inr bounded_int_def
      mk_partition_block_def distinct_remdups_id block_to_dict_def)

lemma mapE_blocks: "list_all block_ok bs \<Longrightarrow> mapE block_from_dict (map block_to_dict bs) = Inr bs"
  by (rule mapE_inverse) (simp add: list_all_iff block_roundtrip)

lemma stage_roundtrip:
  assumes "stage_ok s" shows "stage_from_dict (stage_to_dict s) = Inr s"
proof -
  from assms have mk: "mk_refinement_stage (rs_index s) (rs_changed s) (rs_blocks s) = Inr s"
    and blocks: "mapE block_from_dict (map block_to_dict (rs_blocks s)) = Inr (rs_blocks s)"
    by (auto simp: stage_ok_def mapE_blocks)
  from mk have "0 \<le> rs_index s" "rs_index s \<le> MAX_SIGNED_64" "rs_blocks s \<noteq> []"
    "length (rs_blocks s) \<le> MAX_SYNTHETIC_TOTALIZED_STATES"
    by (auto simp: mk_refinement_stage_def bindE_eq_Inr bounded_int_eq_Inr split: if_splits)
  then show ?thesis
    unfolding stage_from_dict_def stage_to_dict_def
    by (subst object_of_JObj) (auto simp: wire blocks mk bounded_int_def stage_to_dict_def)
qed

lemma row_roundtrip:
  assumes "row_ok r" shows "row_from_dict (row_to_dict r) = Inr r"
proof -
  from assms have mk: "mk_quotient_row (qr_source r) (qr_action r) (qr_target r) = Inr r"
    by (simp add: row_ok_def)
  then have "0 \<le> qr_source r" "qr_source r \<le> MAX_SIGNED_64" "0 \<le> qr_target r"
    "qr_target r \<le> MAX_SIGNED_64" "qr_action r \<noteq> []"
    by (auto simp: mk_quotient_row_def bindE_eq_Inr bounded_int_eq_Inr nonempty_string_eq_Inr)
  with mk show ?thesis
    unfolding row_from_dict_def row_to_dict_def
    by (subst object_of_JObj) (auto simp: wire bounded_int_def nonempty_string_def row_to_dict_def)
qed

lemma witness_roundtrip:
  assumes "witness_ok w" shows "witness_from_dict (witness_to_dict w) = Inr w"
proof -
  from assms have mk: "mk_distinguishing_witness (dw_left w) (dw_right w) (dw_actions w) = Inr w"
    by (simp add: witness_ok_def)
  then have "0 \<le> dw_left w" "dw_left w \<le> MAX_SIGNED_64" "0 \<le> dw_right w"
    "dw_right w \<le> MAX_SIGNED_64" "[] \<notin> set (dw_actions w)"
    "length (dw_actions w) \<le> MAX_SYNTHETIC_TOTALIZED_STATES - 1"
    by (auto simp: mk_distinguishing_witness_def bindE_eq_Inr bounded_int_eq_Inr split: if_splits)
  with mk show ?thesis
    unfolding witness_from_dict_def witness_to_dict_def
    by (subst object_of_JObj) (auto simp: wire bounded_int_def witness_to_dict_def)
qed

lemma ledger_eta:
  "\<lparr>semantic_input_units = semantic_input_units l, source_validation_units = source_validation_units l,
    initial_partition_units = initial_partition_units l, refinement_units = refinement_units l,
    quotient_units = quotient_units l, distinguishing_units = distinguishing_units l,
    certificate_units = certificate_units l\<rparr> = l"
  by (cases l) simp

lemma counters_roundtrip:
  assumes "counters_ok c" shows "counters_from_dict (counters_to_dict c) = Inr c"
proof -
  from assms have mk: "mk_work_counters (wc_ledger c) (wc_total c) (wc_limit c) = Inr c"
    by (simp add: counters_ok_def)
  then have "list_all (\<lambda>i. 0 \<le> i \<and> i \<le> MAX_SIGNED_64) (ledger_values (wc_ledger c) @ [wc_total c])"
    and lim: "wc_limit c = MAX_EXACT_PARTITION_WORK_UNITS"
    by (auto simp: mk_work_counters_def bindE_eq_Inr mapE_eq_Inr bounded_int_eq_Inr list_all2_append1
        list_all2_Cons1 ledger_values_def split: if_splits)
  then have "list_all (\<lambda>i. 0 \<le> i \<and> i \<le> MAX_SIGNED_64) (ledger_values (wc_ledger c) @ [wc_total c])"
    and "0 \<le> wc_limit c" "wc_limit c \<le> MAX_SIGNED_64"
    by (simp_all add: caps)
  moreover have "object_of (map lit (''schema_version'' # counter_names)) wh (counters_to_dict c)
      = Inr (case counters_to_dict c of JObj kvs \<Rightarrow> kvs)" for wh
    unfolding counters_to_dict_def by (subst object_of_JObj) (simp_all add: counter_names_def)
  ultimately show ?thesis
    unfolding counters_from_dict_def counter_names_def
    by (simp add: wire counters_to_dict_def mk ledger_values_def ledger_eta)
qed

lemma upper_cp_idem: "upper_cp (upper_cp c) = upper_cp c"
proof (cases "97 \<le> c \<and> c \<le> 102")
  case True
  then have "unat (c - 32) = unat c - 32" and "unat c \<le> 102"
    by (simp_all add: unat_sub word_le_nat_alt)
  with True have "\<not> 97 \<le> c - 32" by (simp add: word_le_nat_alt)
  with True show ?thesis by (simp add: upper_cp_def)
qed (simp add: upper_cp_def)

lemma upper_cp_hex: "c \<in> set hex_codepoints \<Longrightarrow> upper_cp c \<in> set hex_codepoints"
  unfolding hex_codepoints_def lit_def by (auto simp: upper_cp_def)

lemma digest_text_idem:
  assumes "digest_text wh s = Inr d" shows "digest_text wh' d = Inr d"
proof -
  from assms have d: "d = map upper_cp s" "length s = 64" "list_all (\<lambda>c. c \<in> set hex_codepoints) s"
    by (auto simp: digest_text_def bindE_eq_Inr nonempty_string_eq_Inr split: if_splits)
  then have "d \<noteq> []" by auto
  with d show ?thesis
    by (auto simp: digest_text_def wire list_all_iff upper_cp_hex upper_cp_idem)
qed

lemma certificate_okD:
  assumes "certificate_ok c"
  shows "mk_certificate c = Inr c"
    and "digest_text wh (pc_snapshot_sha256 c) = Inr (pc_snapshot_sha256 c)"
    and "digest_text wh (pc_domain_payload_digest c) = Inr (pc_domain_payload_digest c)"
    and "digest_text wh (pc_observation_frame_digest c) = Inr (pc_observation_frame_digest c)"
    and "digest_text wh (pc_transition_semantics_digest c) = Inr (pc_transition_semantics_digest c)"
    and "digest_text wh (pc_response_vocabulary_digest c) = Inr (pc_response_vocabulary_digest c)"
    and "digest_text wh (pc_action_alphabet_digest c) = Inr (pc_action_alphabet_digest c)"
    and "pc_evidence_scope c = SYNTHETIC_EVIDENCE_SCOPE"
    and "certificate_counts_ok (map JStr (pc_action_ids c)) (map stage_to_dict (pc_trace c))
      (map block_to_dict (pc_final_blocks c)) (map row_to_dict (pc_quotient_rows c))
      (map witness_to_dict (pc_witnesses c)) = Inr ()"
    and "[] \<notin> set (pc_action_ids c)" and "pc_fixed_point_passes c = 1"
proof -
  from assms have mk: "mk_certificate c = Inr c" by (simp add: certificate_ok_def)
  then show "mk_certificate c = Inr c" .
  from mk obtain d0 d1 d2 d3 d4 d5 where
    digests: "digest_text ''partition snapshot_sha256'' (pc_snapshot_sha256 c) = Inr d0"
    "digest_text ''partition certificate domain_payload_digest'' (pc_domain_payload_digest c) = Inr d1"
    "digest_text ''partition certificate observation_frame_digest'' (pc_observation_frame_digest c) = Inr d2"
    "digest_text ''partition certificate transition_semantics_digest'' (pc_transition_semantics_digest c) = Inr d3"
    "digest_text ''partition certificate response_vocabulary_digest'' (pc_response_vocabulary_digest c) = Inr d4"
    "digest_text ''partition certificate action_alphabet_digest'' (pc_action_alphabet_digest c) = Inr d5"
    and eq: "c\<lparr>pc_snapshot_sha256 := d0, pc_domain_payload_digest := d1,
              pc_observation_frame_digest := d2, pc_transition_semantics_digest := d3,
              pc_response_vocabulary_digest := d4, pc_action_alphabet_digest := d5\<rparr> = c"
    and shape: "\<exists>lo. preflight_shape c None = Inr lo"
    and scope: "\<exists>x. fixed_string SYNTHETIC_EVIDENCE_SCOPE ''partition certificate evidence_scope''
       (JStr (pc_evidence_scope c)) = Inr x"
    and acts: "[] \<notin> set (pc_action_ids c)" and table: "table_checks c = Inr ()"
    by (auto simp: mk_certificate_def bindE_eq_Inr split: if_splits)
  have "pc_snapshot_sha256 c = d0" "pc_domain_payload_digest c = d1"
    "pc_observation_frame_digest c = d2" "pc_transition_semantics_digest c = d3"
    "pc_response_vocabulary_digest c = d4" "pc_action_alphabet_digest c = d5"
    using arg_cong [OF eq, of pc_snapshot_sha256] arg_cong [OF eq, of pc_domain_payload_digest]
      arg_cong [OF eq, of pc_observation_frame_digest]
      arg_cong [OF eq, of pc_transition_semantics_digest]
      arg_cong [OF eq, of pc_response_vocabulary_digest]
      arg_cong [OF eq, of pc_action_alphabet_digest] by simp_all
  with digests show "digest_text wh (pc_snapshot_sha256 c) = Inr (pc_snapshot_sha256 c)"
    "digest_text wh (pc_domain_payload_digest c) = Inr (pc_domain_payload_digest c)"
    "digest_text wh (pc_observation_frame_digest c) = Inr (pc_observation_frame_digest c)"
    "digest_text wh (pc_transition_semantics_digest c) = Inr (pc_transition_semantics_digest c)"
    "digest_text wh (pc_response_vocabulary_digest c) = Inr (pc_response_vocabulary_digest c)"
    "digest_text wh (pc_action_alphabet_digest c) = Inr (pc_action_alphabet_digest c)"
    by (auto intro: digest_text_idem)
  show "pc_evidence_scope c = SYNTHETIC_EVIDENCE_SCOPE"
    using scope by (auto simp: fixed_string_def split: if_splits)
  show "certificate_counts_ok (map JStr (pc_action_ids c)) (map stage_to_dict (pc_trace c))
      (map block_to_dict (pc_final_blocks c)) (map row_to_dict (pc_quotient_rows c))
      (map witness_to_dict (pc_witnesses c)) = Inr ()"
    using shape
    by (auto simp: certificate_counts_ok_def preflight_shape_def bindE_eq_Inr split: if_splits prod.splits)
  show "[] \<notin> set (pc_action_ids c)" by (rule acts)
  show "pc_fixed_point_passes c = 1"
    using table by (auto simp: table_checks_def bindE_eq_Inr Let_def split: if_splits)
qed

lemma certificate_roundtrip:
  assumes ok: "certificate_ok c"
  shows "certificate_from_dict (certificate_to_dict c) =
    bindE (strict_wire_preflight ''ExactPartitionCertificate'' (certificate_to_dict c)) (\<lambda>_. Inr c)"
proof -
  note cd = certificate_okD [OF ok]
  have parts: "mapE stage_from_dict (map stage_to_dict (pc_trace c)) = Inr (pc_trace c)"
    "mapE block_from_dict (map block_to_dict (pc_final_blocks c)) = Inr (pc_final_blocks c)"
    "mapE row_from_dict (map row_to_dict (pc_quotient_rows c)) = Inr (pc_quotient_rows c)"
    "mapE witness_from_dict (map witness_to_dict (pc_witnesses c)) = Inr (pc_witnesses c)"
    "counters_from_dict (counters_to_dict (pc_work_counters c)) = Inr (pc_work_counters c)"
    using ok by (auto simp: certificate_ok_def list_all_iff counters_roundtrip
        intro!: mapE_inverse stage_roundtrip block_roundtrip row_roundtrip witness_roundtrip)
  have obj: "object_of (map lit certificate_fields) wh (certificate_to_dict c)
      = Inr (case certificate_to_dict c of JObj kvs \<Rightarrow> kvs)" for wh
    unfolding certificate_to_dict_def by (subst object_of_JObj) (simp_all add: certificate_fields_def)
  have digest: "digest_of wh (JStr d) = digest_text wh d" for wh d
    by (auto simp: digest_of_def wire digest_text_def nonempty_string_def)
  have scope: "SYNTHETIC_EVIDENCE_SCOPE \<noteq> []" by (simp add: SYNTHETIC_EVIDENCE_SCOPE_def)
  define kvs where "kvs = (case certificate_to_dict c of JObj kvs \<Rightarrow> kvs)"
  have members: "member kvs ''schema_version'' = JStr (lit ''lean-rgc-odlrq-exact-partition-certificate-v1'')"
    "member kvs ''evidence_scope'' = JStr SYNTHETIC_EVIDENCE_SCOPE"
    "member kvs ''snapshot_sha256'' = JStr (pc_snapshot_sha256 c)"
    "member kvs ''domain_payload_digest'' = JStr (pc_domain_payload_digest c)"
    "member kvs ''observation_frame_digest'' = JStr (pc_observation_frame_digest c)"
    "member kvs ''transition_semantics_digest'' = JStr (pc_transition_semantics_digest c)"
    "member kvs ''response_vocabulary_digest'' = JStr (pc_response_vocabulary_digest c)"
    "member kvs ''action_alphabet_digest'' = JStr (pc_action_alphabet_digest c)"
    "member kvs ''canonical_action_ids'' = JArr (map JStr (pc_action_ids c))"
    "member kvs ''refinement_trace'' = JArr (map stage_to_dict (pc_trace c))"
    "member kvs ''final_blocks'' = JArr (map block_to_dict (pc_final_blocks c))"
    "member kvs ''quotient_rows'' = JArr (map row_to_dict (pc_quotient_rows c))"
    "member kvs ''distinguishing_witnesses'' = JArr (map witness_to_dict (pc_witnesses c))"
    "member kvs ''work_counters'' = counters_to_dict (pc_work_counters c)"
    "member kvs ''fixed_point_passes'' = JInt 1"
    by (simp_all add: kvs_def certificate_to_dict_def member_Cons cd(8,11))
  have eta: "\<lparr>pc_evidence_scope = SYNTHETIC_EVIDENCE_SCOPE, pc_snapshot_sha256 = pc_snapshot_sha256 c,
       pc_domain_payload_digest = pc_domain_payload_digest c,
       pc_observation_frame_digest = pc_observation_frame_digest c,
       pc_transition_semantics_digest = pc_transition_semantics_digest c,
       pc_response_vocabulary_digest = pc_response_vocabulary_digest c,
       pc_action_alphabet_digest = pc_action_alphabet_digest c, pc_action_ids = pc_action_ids c,
       pc_trace = pc_trace c, pc_final_blocks = pc_final_blocks c,
       pc_quotient_rows = pc_quotient_rows c, pc_witnesses = pc_witnesses c,
       pc_work_counters = pc_work_counters c, pc_fixed_point_passes = 1\<rparr> = c"
    using cd(8,11) by (cases c) simp
  show ?thesis
    unfolding certificate_from_dict_def obj kvs_def [symmetric] bindE_Inr members
    using cd(1-7,9,10) scope
    by (simp add: wire parts digest eta MAX_SIGNED_64_def)
qed

end
