(* ===== verification/PartitionSource.thy ===== *)
theory PartitionSource
  imports PartitionCodec "HOL-Library.Sublist"
begin

text \<open>
  The admitted source of an exact partition: the synthetic snapshot types of
  \<^verbatim>\<open>lean_rgc/odlrq/contracts.py\<close>, the structural half of
  \<^verbatim>\<open>validate_synthetic_finite_snapshot\<close> in \<^verbatim>\<open>lean_rgc/odlrq/adapters.py\<close>, and the source preparation of
  \<^verbatim>\<open>behavioral_partition.py\<close> with its work charges. The checks that bind the typed identities to
  digests of canonical JSON, and the snapshot digest, are not modelled: they are the two
  components of \<open>identity_binding\<close>, arguments of the model about which nothing is assumed.
  A canonical payload is its text, whose UTF-8 bytes are the ordering key.
  The records here range over more values than the constructors leave; \<open>SnapshotForm\<close> models those.
\<close>

section \<open>Data\<close>

datatype totalized_status = TS_OPEN | TS_CLOSED | TS_SINK

fun status_value :: "totalized_status \<Rightarrow> string" where
  "status_value TS_OPEN = ''open''"
| "status_value TS_CLOSED = ''closed''"
| "status_value TS_SINK = ''sink''"

record synthetic_state =
  ss_id :: pystr
  ss_payload :: pystr
  ss_kind :: totalized_status
  ss_coordinates :: "(int \<times> int) list"
  ss_frame_digest :: pystr
  ss_sealed :: bool
  ss_boundary_complete :: bool
  ss_truncated :: bool
  ss_live_handle :: pystr

record synthetic_action =
  sa_id :: pystr
  sa_payload :: pystr

record transition_row =
  tr_source :: pystr
  tr_action :: pystr
  tr_target :: pystr
  tr_semantics_digest :: pystr
  tr_censor :: pystr

record domain_id =
  di_environment_digest :: pystr
  di_frame_digest :: pystr
  di_transition_semantics_digest :: pystr
  di_seed_set_digest :: pystr
  di_action_alphabet_digest :: pystr
  di_domain_payload_digest :: pystr

record finite_snapshot =
  sn_domain :: domain_id
  sn_coordinate_names :: "pystr list"
  sn_coordinate_schema_digest :: pystr
  sn_vocabulary_digest :: pystr
  sn_seeds :: "pystr list"
  sn_states :: "synthetic_state list"
  sn_actions :: "synthetic_action list"
  sn_transitions :: "transition_row list"

record admission_report =
  ar_snapshot_sha256 :: pystr
  ar_totalized_state_count :: nat
  ar_concrete_state_count :: nat
  ar_action_count :: nat
  ar_transition_row_count :: nat

record admitted_snapshot =
  as_snapshot :: finite_snapshot
  as_report :: admission_report
  as_evidence_scope :: pystr

record identity_binding =
  ib_identities :: "finite_snapshot \<Rightarrow> (strict_error, unit) res"
  ib_domain :: "finite_snapshot \<Rightarrow> (strict_error, pystr) res"

type_synonym response = "string \<times> (int \<times> int) list"

definition response_key :: "synthetic_state \<Rightarrow> response" where
  "response_key s = (status_value (ss_kind s), ss_coordinates s)"

definition NOT_APPLICABLE :: pystr where
  "NOT_APPLICABLE = lit ''NOT_APPLICABLE''"

definition SYNTHETIC_FIXTURE_ID_PREFIX :: pystr where
  "SYNTHETIC_FIXTURE_ID_PREFIX = lit ''unit_cpu_survivor_''"

section \<open>Structural validation\<close>

text \<open>The worklist over open states: the last frontier state is taken, its targets in order.\<close>

definition push_open ::
  "(pystr, totalized_status) dict \<Rightarrow> pystr \<Rightarrow> pystr list \<times> pystr list \<Rightarrow> pystr list \<times> pystr list" where
  "push_open kinds t rf =
     (if dget kinds t = Some TS_OPEN \<and> t \<notin> set (fst rf) then (fst rf @ [t], snd rf @ [t]) else rf)"

definition unreached :: "(pystr, totalized_status) dict \<Rightarrow> pystr list \<Rightarrow> nat" where
  "unreached kinds reached = length (filter (\<lambda>(k, _). k \<notin> set reached) kinds)"

lemma filter_length_less:
  "x \<in> set xs \<Longrightarrow> P x \<Longrightarrow> \<not> Q x \<Longrightarrow> (\<And>y. Q y \<Longrightarrow> P y) \<Longrightarrow>
     length (filter Q xs) < length (filter P xs)"
proof (induction xs)
  case (Cons y ys)
  have "length (filter Q ys) \<le> length (filter P ys)"
    using Cons.prems(4) by (induction ys) auto
  with Cons show ?case by (cases "x = y") auto
qed simp

lemma push_open_measure:
  "2 * unreached kinds (fst (push_open kinds t rf)) + length (snd (push_open kinds t rf))
     \<le> 2 * unreached kinds (fst rf) + length (snd rf)"
proof (cases "dget kinds t = Some TS_OPEN \<and> t \<notin> set (fst rf)")
  case True
  then have "(t, TS_OPEN) \<in> set kinds" by (blast dest: map_of_SomeD)
  then have "unreached kinds (fst rf @ [t]) < unreached kinds (fst rf)"
    using True unfolding unreached_def by (intro filter_length_less [of "(t, TS_OPEN)"]) auto
  with True show ?thesis by (simp add: push_open_def)
qed (auto simp: push_open_def)

lemma push_all_measure:
  "2 * unreached kinds (fst (fold (push_open kinds) ts rf)) + length (snd (fold (push_open kinds) ts rf))
     \<le> 2 * unreached kinds (fst rf) + length (snd rf)"
proof (induction ts arbitrary: rf)
  case (Cons t ts)
  from order_trans [OF Cons.IH push_open_measure] show ?case by simp
qed simp

function open_reach ::
  "(pystr, totalized_status) dict \<Rightarrow> (pystr \<Rightarrow> pystr list) \<Rightarrow> pystr list \<times> pystr list \<Rightarrow> pystr list" where
  "open_reach kinds targets rf =
     (if snd rf = [] then fst rf
      else open_reach kinds targets
        (fold (push_open kinds) (targets (last (snd rf))) (fst rf, butlast (snd rf))))"
  by pat_completeness auto
termination
proof (relation "measure (\<lambda>(kinds, targets, rf). 2 * unreached kinds (fst rf) + length (snd rf))")
  fix kinds :: "(pystr, totalized_status) dict" and targets and rf :: "pystr list \<times> pystr list"
  assume "snd rf \<noteq> []"
  then have "length (butlast (snd rf)) < length (snd rf)" by simp
  with push_all_measure [of kinds "targets (last (snd rf))" "(fst rf, butlast (snd rf))"]
  show "((kinds, targets, fold (push_open kinds) (targets (last (snd rf))) (fst rf, butlast (snd rf))),
      kinds, targets, rf) \<in> measure (\<lambda>(kinds, targets, rf). 2 * unreached kinds (fst rf) + length (snd rf))"
    by simp
qed simp

declare open_reach.simps [simp del]

definition row_check ::
  "finite_snapshot \<Rightarrow> transition_row \<Rightarrow> (strict_error, unit) res" where
  "row_check s r =
     (if tr_censor r \<noteq> NOT_APPLICABLE then Inl ''a censored row cannot enter exact admission''
      else if tr_semantics_digest r \<noteq> di_transition_semantics_digest (sn_domain s)
        then Inl ''mixed transition semantics are forbidden''
      else if tr_source r \<notin> ss_id ` set (sn_states s) then Inl ''transition source is outside the domain''
      else if tr_action r \<notin> sa_id ` set (sn_actions s) then Inl ''transition action is outside the alphabet''
      else if tr_target r \<notin> ss_id ` set (sn_states s) then Inl ''transition successor is outside the domain''
      else Inr ())"

definition state_check :: "finite_snapshot \<Rightarrow> synthetic_state \<Rightarrow> (strict_error, unit) res" where
  "state_check s st =
     (if length (ss_coordinates st) \<noteq> length (sn_coordinate_names s)
        then Inl ''response coordinate arity mismatch''
      else if ss_frame_digest st \<noteq> di_frame_digest (sn_domain s)
        then Inl ''mixed observation frames are forbidden''
      else if \<not> ss_sealed st \<or> \<not> ss_boundary_complete st \<or> ss_truncated st
          \<or> ss_live_handle st \<noteq> NOT_APPLICABLE
        then Inl ''queued/live/boundary/truncated state cannot enter exact admission''
      else Inr ())"

text \<open>\<^verbatim>\<open>{(row.source_state_id, row.action_id): row.target_state_id for row in transitions}\<close>.\<close>

definition transition_target :: "finite_snapshot \<Rightarrow> (pystr \<times> pystr, pystr) dict" where
  "transition_target s =
     foldl (\<lambda>d r. dset (tr_source r, tr_action r) (tr_target r) d) [] (sn_transitions s)"

definition target_of :: "finite_snapshot \<Rightarrow> pystr \<Rightarrow> pystr \<Rightarrow> pystr" where
  "target_of s q a = (case dget (transition_target s) (q, a) of Some t \<Rightarrow> t | None \<Rightarrow> [])"

definition of_kind :: "totalized_status \<Rightarrow> finite_snapshot \<Rightarrow> synthetic_state list" where
  "of_kind k s = filter (\<lambda>st. ss_kind st = k) (sn_states s)"

definition count_checks :: "finite_snapshot \<Rightarrow> (strict_error, unit) res" where
  "count_checks s =
     (let n = length (sn_states s); m = length (sn_actions s) in
      if n < 3 \<or> n > MAX_SYNTHETIC_TOTALIZED_STATES
        then Inl ''totalized state cap or minimum is violated''
      else if m < 1 \<or> m > MAX_SYNTHETIC_ACTIONS then Inl ''synthetic action cap or minimum is violated''
      else if n * m > MAX_SYNTHETIC_TRANSITION_ROWS
          \<or> length (sn_transitions s) > MAX_SYNTHETIC_TRANSITION_ROWS
        then Inl ''synthetic transition-row cap is violated''
      else if \<not> distinct (map ss_id (sn_states s)) then Inl ''synthetic state IDs contain duplicates''
      else if list_ex (\<lambda>st. \<not> prefix SYNTHETIC_FIXTURE_ID_PREFIX (ss_id st)) (sn_states s)
        then Inl ''synthetic state ID is outside the frozen prefix''
      else if \<not> distinct (map ss_payload (sn_states s))
        then Inl ''synthetic state payloads contain duplicates''
      else if \<not> distinct (map sa_id (sn_actions s)) then Inl ''synthetic action IDs contain duplicates''
      else if list_ex (\<lambda>a. \<not> prefix SYNTHETIC_FIXTURE_ID_PREFIX (sa_id a)) (sn_actions s)
        then Inl ''synthetic action ID is outside the frozen prefix''
      else if \<not> distinct (map sa_payload (sn_actions s))
        then Inl ''synthetic action payloads contain duplicates''
      else if length (of_kind TS_CLOSED s) \<noteq> 1 \<or> length (of_kind TS_SINK s) \<noteq> 1 \<or> of_kind TS_OPEN s = []
        then Inl ''snapshot requires concrete states and exactly one CLOSED and SINK''
      else if length (of_kind TS_OPEN s) > MAX_SYNTHETIC_TOTALIZED_STATES - 2
        then Inl ''synthetic concrete-state cap is violated''
      else if sn_seeds s = [] \<or> \<not> distinct (sn_seeds s)
        then Inl ''seed membership must be nonempty and unique''
      else if \<not> set (sn_seeds s) \<subseteq> ss_id ` set (of_kind TS_OPEN s)
        then Inl ''every seed must name a concrete domain state''
      else Inr ())"

definition table_total_checks :: "finite_snapshot \<Rightarrow> (strict_error, unit) res" where
  "table_total_checks s =
     (let keys = map (\<lambda>r. (tr_source r, tr_action r)) (sn_transitions s);
          ids = map ss_id (sn_states s); acts = map sa_id (sn_actions s) in
      if \<not> distinct keys then Inl ''transition table contains duplicate rows''
      else if length (sn_transitions s) \<noteq> length (sn_states s) * length (sn_actions s)
          \<or> set keys \<noteq> set ids \<times> set acts
        then Inl ''transition table is not total''
      else if list_ex (\<lambda>st. list_ex (\<lambda>a. target_of s (ss_id st) a \<noteq> ss_id st) acts)
          (of_kind TS_CLOSED s @ of_kind TS_SINK s)
        then Inl ''CLOSED and SINK must be absorbing''
      else if set (open_reach (map (\<lambda>st. (ss_id st, ss_kind st)) (sn_states s))
            (\<lambda>q. map (target_of s q) acts) (sn_seeds s, sn_seeds s))
          \<noteq> ss_id ` set (of_kind TS_OPEN s)
        then Inl ''not every OPEN state is reachable from a seed''
      else Inr ())"

definition validate_synthetic_finite_snapshot ::
  "identity_binding \<Rightarrow> finite_snapshot \<Rightarrow> (strict_error, admission_report) res" where
  "validate_synthetic_finite_snapshot ib s =
     bindE (ib_identities ib s) (\<lambda>_.
     bindE (count_checks s) (\<lambda>_.
     bindE (foldE (\<lambda>st _. state_check s st) (sn_states s) ()) (\<lambda>_.
     bindE (foldE (\<lambda>r _. row_check s r) (sn_transitions s) ()) (\<lambda>_.
     bindE (table_total_checks s) (\<lambda>_.
     bindE (ib_domain ib s) (\<lambda>sha.
     Inr \<lparr>ar_snapshot_sha256 = sha, ar_totalized_state_count = length (sn_states s),
          ar_concrete_state_count = length (of_kind TS_OPEN s),
          ar_action_count = length (sn_actions s),
          ar_transition_row_count = length (sn_transitions s)\<rparr>))))))"

section \<open>Source preparation and its charges\<close>

definition preflight_source_shape :: "admitted_snapshot \<Rightarrow> (strict_error, unit) res" where
  "preflight_source_shape ad =
     (let s = as_snapshot ad; n = length (sn_states s); m = length (sn_actions s);
          rows = length (sn_transitions s) in
      bindE (fixed_string SYNTHETIC_EVIDENCE_SCOPE ''admitted partition source evidence_scope''
        (JStr (as_evidence_scope ad))) (\<lambda>_.
      if [] \<in> set (sn_seeds s) then Inl ''admitted partition source seed IDs are not exact''
      else if n < 3 \<or> n > MAX_SYNTHETIC_TOTALIZED_STATES
        then Inl ''partition source state count is outside the cap''
      else if m < 1 \<or> m > MAX_SYNTHETIC_ACTIONS
        then Inl ''partition source action count is outside the cap''
      else if rows \<noteq> n * m \<or> rows > MAX_SYNTHETIC_TRANSITION_ROWS
        then Inl ''partition source transition shape is outside the cap''
      else Inr ()))"

abbreviation charge_texts ::
  "work_category \<Rightarrow> (string \<times> pystr) list \<Rightarrow> work_ledger \<Rightarrow> (strict_error, work_ledger) res" where
  "charge_texts cat \<equiv> foldE (\<lambda>(wh, t). charge_text cat wh t)"

definition state_texts :: "synthetic_state \<Rightarrow> (string \<times> pystr) list" where
  "state_texts st =
     [(''partition state ID'', ss_id st), (''partition state payload'', ss_payload st),
      (''partition response kind'', lit (status_value (ss_kind st)))]
     @ concat (map (\<lambda>(n, d). [(''rational numerator decimal'', lit (decimal n)),
                              (''rational denominator decimal'', lit (decimal d))]) (ss_coordinates st))
     @ [(''partition state frame ID'', ss_frame_digest st)]"

definition action_texts :: "synthetic_action \<Rightarrow> (string \<times> pystr) list" where
  "action_texts a = [(''partition action ID'', sa_id a), (''partition action payload'', sa_payload a)]"

definition row_texts :: "transition_row \<Rightarrow> (string \<times> pystr) list" where
  "row_texts r = [(''partition row source ID'', tr_source r), (''partition row action ID'', tr_action r),
     (''partition row target ID'', tr_target r), (''partition row semantics ID'', tr_semantics_digest r)]"

definition domain_texts :: "finite_snapshot \<Rightarrow> (string \<times> pystr) list" where
  "domain_texts s =
     [(''partition domain environment_digest'', di_environment_digest (sn_domain s)),
      (''partition domain frame_digest'', di_frame_digest (sn_domain s)),
      (''partition domain transition_semantics_digest'', di_transition_semantics_digest (sn_domain s)),
      (''partition domain seed_set_digest'', di_seed_set_digest (sn_domain s)),
      (''partition domain action_alphabet_digest'', di_action_alphabet_digest (sn_domain s)),
      (''partition domain domain_payload_digest'', di_domain_payload_digest (sn_domain s)),
      (''partition coordinate schema digest'', sn_coordinate_schema_digest s),
      (''partition vocabulary digest'', sn_vocabulary_digest s)]"

definition charge_semantic_source_units ::
  "finite_snapshot \<Rightarrow> work_ledger \<Rightarrow> (strict_error, work_ledger) res" where
  "charge_semantic_source_units s = charge_texts SemanticInput
     (map (Pair ''partition coordinate name'') (sn_coordinate_names s)
      @ map (Pair ''partition seed state ID'') (sn_seeds s)
      @ concat (map state_texts (sn_states s)) @ concat (map action_texts (sn_actions s))
      @ concat (map row_texts (sn_transitions s)) @ domain_texts s)"

definition source_units :: "finite_snapshot \<Rightarrow> int" where
  "source_units s =
     (let n = int (length (sn_states s)); m = int (length (sn_actions s));
          k = int (length (sn_coordinate_names s)) in n * m + n * k + n + m)"

definition prepare_source ::
  "identity_binding \<Rightarrow> admitted_snapshot \<Rightarrow> work_ledger \<Rightarrow> (strict_error, work_ledger) res" where
  "prepare_source ib ad l =
     bindE (preflight_source_shape ad) (\<lambda>_.
     bindE (charge_semantic_source_units (as_snapshot ad) l) (\<lambda>l1.
     bindE (charge SourceValidation (source_units (as_snapshot ad)) l1) (\<lambda>l2.
     bindE (validate_synthetic_finite_snapshot ib (as_snapshot ad)) (\<lambda>report.
     if report \<noteq> as_report ad
       then Inl ''admitted partition source report does not match recomputed admission''
     else Inr l2))))"

end
