(* ===== verification/StrictJson.thy ===== *)
theory StrictJson
  imports Py_Json
begin

text \<open>
  The strict JSON of \<^verbatim>\<open>evals/uprime_rpc_ledger.py\<close>: the value algebra, \<^verbatim>\<open>json.dumps\<close> with the
  options the module passes, \<^verbatim>\<open>json.loads\<close> with its hooks as arguments, so that other modules can
  pass theirs, and the canonical byte form. The
  parser returns \<^verbatim>\<open>None\<close> for every exception the module turns into its own error. It carries
  fuel, one more than the length of the text; canonical texts need no more, and a text that is
  not canonical is rejected in any case.
\<close>

declare split_paired_All [simp del] split_paired_Ex [simp del]

datatype ledger_error = Structure_Error string | Write_Error string

definition MAX_JSON_DEPTH :: nat where
  "MAX_JSON_DEPTH = 128"

definition MAX_CONTAINER_MEMBERS :: nat where
  "MAX_CONTAINER_MEMBERS = 100000"

definition MAX_STRING_UTF8_BYTES :: nat where
  "MAX_STRING_UTF8_BYTES = 8388608"

definition MIN_SIGNED_64 :: int where
  "MIN_SIGNED_64 = - (2 ^ 63)"

definition MAX_SIGNED_64 :: int where
  "MAX_SIGNED_64 = 2 ^ 63 - 1"

section \<open>The value algebra\<close>

definition int64 :: "int \<Rightarrow> bool" where
  "int64 i \<longleftrightarrow> MIN_SIGNED_64 \<le> i \<and> i \<le> MAX_SIGNED_64"

definition validate_string :: "pystr \<Rightarrow> (ledger_error, unit) res" where
  "validate_string s =
     (case utf8 s of
        None \<Rightarrow> Inl (Structure_Error ''JSON string contains a surrogate'')
      | Some encoded \<Rightarrow> guardE (length encoded > MAX_STRING_UTF8_BYTES)
          (Structure_Error ''JSON string byte limit exceeded''))"

function validate_json_value :: "nat \<Rightarrow> json \<Rightarrow> (ledger_error, unit) res" where
  "validate_json_value d JNull = Inr ()"
| "validate_json_value d (JBool b) = Inr ()"
| "validate_json_value d (JInt i) =
     guardE (\<not> int64 i) (Structure_Error ''JSON integer is outside signed-64'')"
| "validate_json_value d (JStr s) = validate_string s"
| "validate_json_value d (JArr xs) =
     (if d + 1 > MAX_JSON_DEPTH then Inl (Structure_Error ''JSON nesting depth exceeded'')
      else if length xs > MAX_CONTAINER_MEMBERS
        then Inl (Structure_Error ''JSON array member limit exceeded'')
      else foldE (\<lambda>x _. validate_json_value (d + 1) x) xs ())"
| "validate_json_value d (JObj kvs) =
     (if d + 1 > MAX_JSON_DEPTH then Inl (Structure_Error ''JSON nesting depth exceeded'')
      else if length kvs > MAX_CONTAINER_MEMBERS
        then Inl (Structure_Error ''JSON object member limit exceeded'')
      else foldE (\<lambda>(k, x) _. bindE (validate_string k) (\<lambda>_. validate_json_value (d + 1) x)) kvs ())"
| "validate_json_value d JOther = Inl (Structure_Error ''value is outside the strict JSON algebra'')"
  by pat_completeness auto
termination
  by (relation "measure (\<lambda>(_, v). size v)") (auto dest: json_member_size)

section \<open>Serialization\<close>

abbreviation (input) "quote_cp \<equiv> (0x22 :: codepoint)"
abbreviation (input) "backslash \<equiv> (0x5C :: codepoint)"
abbreviation (input) "comma \<equiv> (0x2C :: codepoint)"
abbreviation (input) "colon \<equiv> (0x3A :: codepoint)"
abbreviation (input) "lbrack \<equiv> (0x5B :: codepoint)"
abbreviation (input) "rbrack \<equiv> (0x5D :: codepoint)"
abbreviation (input) "lbrace \<equiv> (0x7B :: codepoint)"
abbreviation (input) "rbrace \<equiv> (0x7D :: codepoint)"

definition hex_lower :: "nat \<Rightarrow> codepoint" where
  "hex_lower n = of_nat (if n < 10 then 48 + n else 87 + n)"

text \<open>\<^verbatim>\<open>hashlib.sha256(m).hexdigest()\<close>.\<close>

definition hex_digest :: "bytes \<Rightarrow> pystr" where
  "hex_digest m = concat (map (\<lambda>b. [hex_lower (unat b div 16), hex_lower (unat b mod 16)]) (sha256 m))"

text \<open>\<^verbatim>\<open>ensure_ascii=False\<close>: only quote, backslash and control characters are escaped.\<close>

definition escape :: "codepoint \<Rightarrow> pystr" where
  "escape c =
     (if c = quote_cp then [backslash, quote_cp]
      else if c = backslash then [backslash, backslash]
      else if c = 0x0A then [backslash, 0x6E]
      else if c = 0x0D then [backslash, 0x72]
      else if c = 0x09 then [backslash, 0x74]
      else if c = 0x0C then [backslash, 0x66]
      else if c = 0x08 then [backslash, 0x62]
      else if c < 0x20 then [backslash, 0x75, 0x30, 0x30, hex_lower (unat c div 16), hex_lower (unat c mod 16)]
      else [c])"

definition quoted :: "pystr \<Rightarrow> pystr" where
  "quoted s = quote_cp # concat (map escape s) @ [quote_cp]"

fun comma_join :: "pystr list \<Rightarrow> pystr" where
  "comma_join [] = []"
| "comma_join [x] = x"
| "comma_join (x # y # zs) = x @ comma # comma_join (y # zs)"

function dumps :: "json \<Rightarrow> pystr" where
  "dumps JNull = lit ''null''"
| "dumps (JBool b) = (if b then lit ''true'' else lit ''false'')"
| "dumps (JInt i) = lit (decimal i)"
| "dumps (JStr s) = quoted s"
| "dumps (JArr xs) = lbrack # comma_join (map dumps xs) @ [rbrack]"
| "dumps (JObj kvs) =
     lbrace # comma_join (map (\<lambda>(k, v). quoted k @ colon # dumps v) (sort_key fst kvs)) @ [rbrace]"
| "dumps JOther = []"
  by pat_completeness auto
termination
  by (relation "measure size") (auto dest: json_member_size)

definition canonical_json_bytes :: "json \<Rightarrow> (ledger_error, bytes) res" where
  "canonical_json_bytes v =
     bindE (validate_json_value 0 v) (\<lambda>_.
     case utf8 (dumps v) of
       None \<Rightarrow> Inl (Structure_Error ''strict JSON serialization failed'')
     | Some b \<Rightarrow> Inr b)"

section \<open>Decoding\<close>

text \<open>\<^verbatim>\<open>raw.decode("utf-8", errors="strict")\<close>: shortest form, no surrogates, at most U+10FFFF.\<close>

definition utf8_head :: "bytes \<Rightarrow> codepoint option" where
  "utf8_head bs = (case bs of [] \<Rightarrow> None | b # _ \<Rightarrow>
     (let c = of_nat (utf8_val (take (utf8_lead b) bs)) in
      if utf8_char c = take (utf8_lead b) bs \<and> \<not> is_surrogate c \<and> c \<le> 0x10FFFF then Some c else None))"

function utf8_decode :: "bytes \<Rightarrow> pystr option" where
  "utf8_decode [] = Some []"
| "utf8_decode (b # bs) =
     (case utf8_head (b # bs) of None \<Rightarrow> None
      | Some c \<Rightarrow> map_option ((#) c) (utf8_decode (drop (utf8_lead b) (b # bs))))"
  by pat_completeness auto
termination
  by (relation "measure length") (auto simp: utf8_lead_def)

section \<open>Scanning\<close>

definition is_ws :: "codepoint \<Rightarrow> bool" where
  "is_ws c \<longleftrightarrow> c = 0x20 \<or> c = 0x09 \<or> c = 0x0A \<or> c = 0x0D"

definition skip :: "pystr \<Rightarrow> pystr" where
  "skip s = dropWhile is_ws s"

definition is_digit_cp :: "codepoint \<Rightarrow> bool" where
  "is_digit_cp c \<longleftrightarrow> 0x30 \<le> c \<and> c \<le> 0x39"

definition hex_value :: "codepoint \<Rightarrow> nat option" where
  "hex_value c =
     (if is_digit_cp c then Some (unat c - 48)
      else if 0x61 \<le> c \<and> c \<le> 0x66 then Some (unat c - 87)
      else if 0x41 \<le> c \<and> c \<le> 0x46 then Some (unat c - 55)
      else None)"

fun hex4 :: "pystr \<Rightarrow> (nat \<times> pystr) option" where
  "hex4 (a # b # c # d # r) =
     (case map hex_value [a, b, c, d] of
        [Some w, Some x, Some y, Some z] \<Rightarrow> Some (((w * 16 + x) * 16 + y) * 16 + z, r)
      | _ \<Rightarrow> None)"
| "hex4 _ = None"

text \<open>A backslash was read: the character it stands for, surrogate pairs joined.\<close>

definition scan_unicode :: "pystr \<Rightarrow> (codepoint \<times> pystr) option" where
  "scan_unicode r =
     (case hex4 r of None \<Rightarrow> None
      | Some (u, r1) \<Rightarrow>
          (if 0xD800 \<le> u \<and> u \<le> 0xDBFF \<and> take 2 r1 = [backslash, 0x75] then
             (case hex4 (drop 2 r1) of None \<Rightarrow> None
              | Some (v, r2) \<Rightarrow>
                  (if 0xDC00 \<le> v \<and> v \<le> 0xDFFF
                     then Some (of_nat (0x10000 + (u - 0xD800) * 1024 + (v - 0xDC00)), r2)
                   else Some (of_nat u, r1)))
           else Some (of_nat u, r1)))"

definition scan_escape :: "pystr \<Rightarrow> (codepoint \<times> pystr) option" where
  "scan_escape s =
     (case s of [] \<Rightarrow> None
      | e # r \<Rightarrow>
          (if e = 0x75 then scan_unicode r
           else map_option (\<lambda>c. (c, r)) (map_of
             [(quote_cp, quote_cp), (backslash, backslash), (0x2F, 0x2F), (0x62, 0x08), (0x66, 0x0C),
              (0x6E, 0x0A), (0x72, 0x0D), (0x74, 0x09)] e)))"

lemma hex4_shorter: "hex4 s = Some (u, r) \<Longrightarrow> length r < length s"
  by (cases s rule: hex4.cases) (auto split: option.splits)

lemma scan_unicode_shorter: "scan_unicode s = Some (c, r) \<Longrightarrow> length r < length s"
  by (auto simp: scan_unicode_def dest!: hex4_shorter split: option.splits if_splits)

lemma scan_escape_shorter: "scan_escape s = Some (c, r) \<Longrightarrow> length r < length s"
  by (auto simp: scan_escape_def dest: scan_unicode_shorter split: list.splits if_splits)

text \<open>The rest of a string after its opening quote.\<close>

function scan_string :: "pystr \<Rightarrow> (pystr \<times> pystr) option" where
  "scan_string [] = None"
| "scan_string (c # r) =
     (if c = quote_cp then Some ([], r)
      else if c = backslash then
        (case scan_escape r of None \<Rightarrow> None
         | Some (d, r') \<Rightarrow> map_option (\<lambda>(t, q). (d # t, q)) (scan_string r'))
      else if c < 0x20 then None
      else map_option (\<lambda>(t, q). (c # t, q)) (scan_string r))"
  by pat_completeness auto
termination
  by (relation "measure length") (auto dest: scan_escape_shorter)

declare scan_string.simps(2) [simp del]

definition digits_value :: "pystr \<Rightarrow> nat" where
  "digits_value ds = foldl (\<lambda>n d. n * 10 + (unat d - 48)) 0 ds"

definition parse_int64 :: "bool \<Rightarrow> pystr \<Rightarrow> int option" where
  "parse_int64 negative ds =
     (let i = (if negative then - int (digits_value ds) else int (digits_value ds)) in
      if ds = [] \<or> length ds > 19 \<or> \<not> int64 i then None else Some i)"

text \<open>
  Digits after a leading zero, a fraction or an exponent leave a rest that no value can be
  followed by, or make a float, which is rejected.
\<close>

definition leading_digits :: "pystr \<Rightarrow> pystr" where
  "leading_digits s =
     (case s of c # _ \<Rightarrow> if c = 0x30 then [c] else takeWhile is_digit_cp s | [] \<Rightarrow> [])"

definition scan_unsigned_with :: "(bool \<Rightarrow> pystr \<Rightarrow> int option) \<Rightarrow> bool \<Rightarrow> pystr \<Rightarrow> (int \<times> pystr) option" where
  "scan_unsigned_with parse_int negative s =
     (let ds = leading_digits s; rest = drop (length ds) s in
      if rest \<noteq> [] \<and> hd rest \<in> {0x2E, 0x65, 0x45} then None
      else map_option (\<lambda>i. (i, rest)) (parse_int negative ds))"

definition scan_number_with :: "(bool \<Rightarrow> pystr \<Rightarrow> int option) \<Rightarrow> pystr \<Rightarrow> (int \<times> pystr) option" where
  "scan_number_with parse_int s =
     (case s of c # r \<Rightarrow> if c = 0x2D then scan_unsigned_with parse_int True r else scan_unsigned_with parse_int False s
      | [] \<Rightarrow> None)"

definition object_from_pairs :: "(pystr \<times> json) list \<Rightarrow> json option" where
  "object_from_pairs kvs =
     (if length kvs > MAX_CONTAINER_MEMBERS \<or> \<not> distinct (map fst kvs) then None else Some (JObj kvs))"

fun scan_value_with :: "((pystr \<times> json) list \<Rightarrow> json option) \<Rightarrow> (bool \<Rightarrow> pystr \<Rightarrow> int option) \<Rightarrow> nat \<Rightarrow> pystr \<Rightarrow> (json \<times> pystr) option"
and scan_items_with :: "((pystr \<times> json) list \<Rightarrow> json option) \<Rightarrow> (bool \<Rightarrow> pystr \<Rightarrow> int option) \<Rightarrow> nat \<Rightarrow> pystr \<Rightarrow> (json list \<times> pystr) option"
and scan_members_with :: "((pystr \<times> json) list \<Rightarrow> json option) \<Rightarrow> (bool \<Rightarrow> pystr \<Rightarrow> int option) \<Rightarrow> nat \<Rightarrow> pystr \<Rightarrow> ((pystr \<times> json) list \<times> pystr) option" where
  "scan_value_with pairs_hook parse_int 0 s = None"
| "scan_value_with pairs_hook parse_int (Suc n) [] = None"
| "scan_value_with pairs_hook parse_int (Suc n) (c # r) =
     (if c = quote_cp then map_option (\<lambda>(t, q). (JStr t, q)) (scan_string r)
      else if c = lbrace then
        (case skip r of [] \<Rightarrow> None
         | q # r' \<Rightarrow> if q = rbrace then Some (JObj [], r')
             else if q = quote_cp then
               (case scan_members_with pairs_hook parse_int n r' of None \<Rightarrow> None
                | Some (kvs, r'') \<Rightarrow> map_option (\<lambda>v. (v, r'')) (pairs_hook kvs))
             else None)
      else if c = lbrack then
        (case skip r of [] \<Rightarrow> None
         | q # r' \<Rightarrow> if q = rbrack then Some (JArr [], r')
             else map_option (\<lambda>(xs, r''). (JArr xs, r'')) (scan_items_with pairs_hook parse_int n (q # r')))
      else if take 4 (c # r) = lit ''null'' then Some (JNull, drop 4 (c # r))
      else if take 4 (c # r) = lit ''true'' then Some (JBool True, drop 4 (c # r))
      else if take 5 (c # r) = lit ''false'' then Some (JBool False, drop 5 (c # r))
      else map_option (\<lambda>(i, q). (JInt i, q)) (scan_number_with parse_int (c # r)))"
| "scan_items_with pairs_hook parse_int 0 s = None"
| "scan_items_with pairs_hook parse_int (Suc n) s =
     (case scan_value_with pairs_hook parse_int n s of None \<Rightarrow> None
      | Some (v, r) \<Rightarrow>
          (case skip r of [] \<Rightarrow> None
           | q # r' \<Rightarrow> if q = rbrack then Some ([v], r')
               else if q = comma then map_option (\<lambda>(vs, r''). (v # vs, r'')) (scan_items_with pairs_hook parse_int n (skip r'))
               else None))"
| "scan_members_with pairs_hook parse_int 0 s = None"
| "scan_members_with pairs_hook parse_int (Suc n) s =
     (case scan_string s of None \<Rightarrow> None
      | Some (k, r) \<Rightarrow>
          (case skip r of [] \<Rightarrow> None
           | q # r' \<Rightarrow> if q \<noteq> colon then None
               else (case scan_value_with pairs_hook parse_int n (skip r') of None \<Rightarrow> None
                | Some (v, r1) \<Rightarrow>
                    (case skip r1 of [] \<Rightarrow> None
                     | q1 # r2 \<Rightarrow> if q1 = rbrace then Some ([(k, v)], r2)
                         else if q1 = comma then
                           (case skip r2 of [] \<Rightarrow> None
                            | q2 # r3 \<Rightarrow> if q2 = quote_cp
                                then map_option (\<lambda>(kvs, r4). ((k, v) # kvs, r4)) (scan_members_with pairs_hook parse_int n r3)
                                else None)
                         else None))))"

declare scan_value_with.simps(3) [simp del] scan_items_with.simps(2) [simp del] scan_members_with.simps(2) [simp del]

definition loads_with ::
  "((pystr \<times> json) list \<Rightarrow> json option) \<Rightarrow> (bool \<Rightarrow> pystr \<Rightarrow> int option) \<Rightarrow> pystr \<Rightarrow> json option" where
  "loads_with pairs_hook parse_int s =
     (case scan_value_with pairs_hook parse_int (length s + 1) (skip s) of None \<Rightarrow> None
      | Some (v, r) \<Rightarrow> if skip r = [] then Some v else None)"

definition loads :: "pystr \<Rightarrow> json option" where
  "loads = loads_with object_from_pairs parse_int64"

abbreviation "scan_unsigned \<equiv> scan_unsigned_with parse_int64"
abbreviation "scan_number \<equiv> scan_number_with parse_int64"
abbreviation "scan_value \<equiv> scan_value_with object_from_pairs parse_int64"
abbreviation "scan_items \<equiv> scan_items_with object_from_pairs parse_int64"
abbreviation "scan_members \<equiv> scan_members_with object_from_pairs parse_int64"

definition parse_canonical_json_bytes :: "bytes \<Rightarrow> (ledger_error, json) res" where
  "parse_canonical_json_bytes raw =
     (if take 3 raw = [0xEF, 0xBB, 0xBF] then Inl (Structure_Error ''UTF-8 BOM is forbidden'')
      else case Option.bind (utf8_decode raw) loads of
        None \<Rightarrow> Inl (Structure_Error ''strict JSON parse failed'')
      | Some v \<Rightarrow>
          bindE (validate_json_value 0 v) (\<lambda>_.
          bindE (canonical_json_bytes v) (\<lambda>canonical.
          if raw \<noteq> canonical then Inl (Structure_Error ''JSON bytes are not canonical'')
          else Inr v)))"

end
