(* ===== verification/SnapshotForm.thy ===== *)
theory SnapshotForm
  imports PartitionSource StrictJson
begin

text \<open>
  The constructors of the snapshot types of \<^verbatim>\<open>lean_rgc/odlrq/contracts.py\<close>: what their
  \<^verbatim>\<open>__post_init__\<close> checks, normalizes and sorts, and the strict canonical JSON of
  \<^verbatim>\<open>lean_rgc/lean/kernel_state_identity.py\<close> they rest on. A constructor takes the raw fields as the
  record and returns the record it leaves. Fields that admit one value only, such as the evidence
  scope, are not in the records, and the observation frame, the typed transition semantics and the
  evidence profile are behind \<open>identity_binding\<close>. Of an exception of the identity module only that it
  is raised is kept; its callers replace its message.
\<close>

section \<open>Strict identity JSON\<close>

definition validate_identity_text :: "nat \<Rightarrow> pystr \<Rightarrow> (strict_error, unit) res" where
  "validate_identity_text d s =
     (if d > 128 then Inl ''JSON nesting depth exceeded''
      else case utf8 s of None \<Rightarrow> Inl ''string is not strict UTF-8'' | Some _ \<Rightarrow> Inr ())"

function validate_identity_json :: "nat \<Rightarrow> json \<Rightarrow> (strict_error, unit) res" where
  "validate_identity_json d JNull = guardE (d > 128) ''JSON nesting depth exceeded''"
| "validate_identity_json d (JBool b) = guardE (d > 128) ''JSON nesting depth exceeded''"
| "validate_identity_json d (JInt i) =
     (if d > 128 then Inl ''JSON nesting depth exceeded''
      else guardE (\<not> int64 i) ''integer is outside signed 64-bit range'')"
| "validate_identity_json d (JStr s) = validate_identity_text d s"
| "validate_identity_json d (JArr xs) =
     (if d > 128 then Inl ''JSON nesting depth exceeded''
      else foldE (\<lambda>x _. validate_identity_json (d + 1) x) xs ())"
| "validate_identity_json d (JObj kvs) =
     (if d > 128 then Inl ''JSON nesting depth exceeded''
      else foldE (\<lambda>(k, x) _. bindE (validate_identity_text (d + 1) k) (\<lambda>_. validate_identity_json (d + 1) x)) kvs ())"
| "validate_identity_json d JOther =
     (if d > 128 then Inl ''JSON nesting depth exceeded'' else Inl ''value is outside the strict JSON algebra'')"
  by pat_completeness auto
termination
  by (relation "measure (\<lambda>(_, v). size v)") (auto dest: json_member_size)

definition identity_json_bytes :: "json \<Rightarrow> (strict_error, bytes) res" where
  "identity_json_bytes v =
     bindE (validate_identity_json 0 v) (\<lambda>_.
     case utf8 (dumps v) of None \<Rightarrow> Inl ''strict canonical JSON serialization failed'' | Some b \<Rightarrow> Inr b)"

definition unique_object_from_pairs :: "(pystr \<times> json) list \<Rightarrow> json option" where
  "unique_object_from_pairs kvs = (if distinct (map fst kvs) then Some (JObj kvs) else None)"

text \<open>\<^verbatim>\<open>parse_int=int\<close>; where \<^verbatim>\<open>int\<close> refuses very long digits the range check would refuse them too.\<close>

definition parse_any_int :: "bool \<Rightarrow> pystr \<Rightarrow> int option" where
  "parse_any_int negative ds =
     (if ds = [] then None else Some (if negative then - int (digits_value ds) else int (digits_value ds)))"

definition parse_identity_json :: "bytes \<Rightarrow> (strict_error, json) res" where
  "parse_identity_json raw =
     (if take 3 raw = [0xEF, 0xBB, 0xBF] then Inl ''UTF-8 BOM is forbidden''
      else case Option.bind (utf8_decode raw) (loads_with unique_object_from_pairs parse_any_int) of
        None \<Rightarrow> Inl ''strict canonical JSON parse failed''
      | Some v \<Rightarrow>
          bindE (validate_identity_json 0 v) (\<lambda>_.
          bindE (identity_json_bytes v) (\<lambda>canonical.
          if canonical \<noteq> raw then Inl ''JSON bytes are not canonical'' else Inr v)))"

section \<open>Field checks\<close>

definition contract_str :: "string \<Rightarrow> pystr \<Rightarrow> (strict_error, pystr) res" where
  "contract_str wh s = (if s = [] then Inl (wh @ '' must be a nonempty string'') else Inr s)"

definition contract_digest :: "string \<Rightarrow> pystr \<Rightarrow> (strict_error, pystr) res" where
  "contract_digest wh s =
     (if length s \<noteq> 64 \<or> \<not> list_all (\<lambda>c. c \<in> set hex_codepoints) s
        then Inl (wh @ '' must be a full SHA-256 hex digest'')
      else Inr (map upper_cp s))"

section \<open>Constructors\<close>

definition mk_domain_id :: "domain_id \<Rightarrow> (strict_error, domain_id) res" where
  "mk_domain_id d =
     bindE (contract_digest ''environment_digest'' (di_environment_digest d)) (\<lambda>environment.
     bindE (contract_digest ''frame_digest'' (di_frame_digest d)) (\<lambda>frame.
     bindE (contract_digest ''transition_semantics_digest'' (di_transition_semantics_digest d)) (\<lambda>semantics.
     bindE (contract_digest ''seed_set_digest'' (di_seed_set_digest d)) (\<lambda>seeds.
     bindE (contract_digest ''action_alphabet_digest'' (di_action_alphabet_digest d)) (\<lambda>alphabet.
     bindE (contract_digest ''domain_payload_digest'' (di_domain_payload_digest d)) (\<lambda>payload.
     Inr \<lparr>di_environment_digest = environment, di_frame_digest = frame,
       di_transition_semantics_digest = semantics, di_seed_set_digest = seeds,
       di_action_alphabet_digest = alphabet, di_domain_payload_digest = payload\<rparr>))))))"

definition coordinate_schema_json :: "pystr list \<Rightarrow> json" where
  "coordinate_schema_json names = JObj [(lit ''coordinate_names'', JArr (map JStr names))]"

definition vocabulary_json :: "pystr \<Rightarrow> json" where
  "vocabulary_json schema = JObj [(lit ''coordinate_schema_digest'', JStr schema),
     (lit ''evidence_scope'', JStr SYNTHETIC_EVIDENCE_SCOPE), (lit ''totalized_kind_in_key'', JBool True)]"

text \<open>The names, the schema digest and the vocabulary digest of a \<^verbatim>\<open>ResponseVocabularyId\<close>.\<close>

definition mk_response_vocabulary ::
  "pystr list \<Rightarrow> pystr \<Rightarrow> pystr \<Rightarrow> (strict_error, pystr list \<times> pystr \<times> pystr) res" where
  "mk_response_vocabulary names schema_digest vocabulary_digest =
     bindE (guardE (names = [] \<or> [] \<in> set names)
       ''response coordinate_names must be a nonempty string tuple'') (\<lambda>_.
     bindE (guardE (\<not> distinct names) ''response coordinate_names contain duplicates'') (\<lambda>_.
     bindE (contract_digest ''coordinate_schema_digest'' schema_digest) (\<lambda>schema.
     bindE (contract_digest ''vocabulary_digest'' vocabulary_digest) (\<lambda>vocabulary.
     bindE (identity_json_bytes (coordinate_schema_json names)) (\<lambda>schema_bytes.
     bindE (guardE (schema \<noteq> lit (sha256_hex schema_bytes)) ''response coordinate schema digest mismatch'') (\<lambda>_.
     bindE (identity_json_bytes (vocabulary_json (lit (sha256_hex schema_bytes)))) (\<lambda>vocabulary_bytes.
     bindE (guardE (vocabulary \<noteq> lit (sha256_hex vocabulary_bytes)) ''response vocabulary digest mismatch'') (\<lambda>_.
     Inr (names, schema, vocabulary)))))))))"

definition mk_canonical_payload :: "pystr \<Rightarrow> (strict_error, pystr) res" where
  "mk_canonical_payload t =
     (if t = [] then Inl ''canonical payload must be a nonempty string''
      else case utf8 t of
        None \<Rightarrow> Inl ''payload is not strict canonical JSON''
      | Some raw \<Rightarrow>
          (case parse_identity_json raw of
             Inl _ \<Rightarrow> Inl ''payload is not strict canonical JSON''
           | Inr (JObj _) \<Rightarrow> Inr t
           | Inr _ \<Rightarrow> Inl ''canonical payload must encode an object''))"

definition mk_exact_rational :: "int \<times> int \<Rightarrow> (strict_error, int \<times> int) res" where
  "mk_exact_rational q = (case q of (n, d) \<Rightarrow>
     if d < 1 then Inl ''rational denominator must be an integer >= 1''
     else if bit_length (nat \<bar>n\<bar>) > 8192 \<or> bit_length (nat d) > 8192
       then Inl ''exact rational exceeds the 8192-bit pre-reduction cap''
     else Inr (if n = 0 then (n, 1) else (n div gcd \<bar>n\<bar> d, d div gcd \<bar>n\<bar> d)))"

definition mk_totalized_state :: "synthetic_state \<Rightarrow> (strict_error, synthetic_state) res" where
  "mk_totalized_state st =
     bindE (mk_canonical_payload (ss_payload st)) (\<lambda>payload.
     bindE (mapE mk_exact_rational (ss_coordinates st)) (\<lambda>coordinates.
     bindE (contract_str ''synthetic state_id'' (ss_id st)) (\<lambda>_.
     bindE (contract_digest ''state frame_digest'' (ss_frame_digest st)) (\<lambda>frame.
     bindE (contract_str ''live_handle'' (ss_live_handle st)) (\<lambda>_.
     Inr (st\<lparr>ss_payload := payload, ss_coordinates := coordinates, ss_frame_digest := frame\<rparr>))))))"

definition mk_synthetic_action :: "synthetic_action \<Rightarrow> (strict_error, synthetic_action) res" where
  "mk_synthetic_action a =
     bindE (mk_canonical_payload (sa_payload a)) (\<lambda>payload.
     bindE (contract_str ''synthetic action_id'' (sa_id a)) (\<lambda>_. Inr (a\<lparr>sa_payload := payload\<rparr>)))"

definition mk_transition_row :: "transition_row \<Rightarrow> (strict_error, transition_row) res" where
  "mk_transition_row r =
     bindE (contract_str ''synthetic transition source_state_id'' (tr_source r)) (\<lambda>_.
     bindE (contract_str ''synthetic transition action_id'' (tr_action r)) (\<lambda>_.
     bindE (contract_str ''synthetic transition target_state_id'' (tr_target r)) (\<lambda>_.
     bindE (contract_str ''synthetic transition censor'' (tr_censor r)) (\<lambda>_.
     bindE (contract_digest ''transition transition_semantics_digest'' (tr_semantics_digest r)) (\<lambda>semantics.
     Inr (r\<lparr>tr_semantics_digest := semantics\<rparr>))))))"

section \<open>The canonical order of members\<close>

definition payload_json :: "pystr \<Rightarrow> json" where
  "payload_json t = JObj [(lit ''schema_version'', JStr (lit ''lean-rgc-odlrq-canonical-payload-v1'')),
     (lit ''canonical_json'', JStr t)]"

definition rational_json :: "int \<times> int \<Rightarrow> json" where
  "rational_json q = JObj [(lit ''schema_version'', JStr (lit ''lean-rgc-odlrq-exact-rational-v1'')),
     (lit ''numerator'', JStr (lit (decimal (fst q)))), (lit ''denominator'', JStr (lit (decimal (snd q))))]"

definition state_json :: "synthetic_state \<Rightarrow> json" where
  "state_json st = JObj [(lit ''schema_version'', JStr (lit ''lean-rgc-odlrq-synthetic-totalized-state-v1'')),
     (lit ''state_id'', JStr (ss_id st)), (lit ''payload'', payload_json (ss_payload st)),
     (lit ''totalized_kind'', JStr (lit (status_value (ss_kind st)))),
     (lit ''response_coordinates'', JArr (map rational_json (ss_coordinates st))),
     (lit ''frame_digest'', JStr (ss_frame_digest st)),
     (lit ''expansion_status'', JStr (lit (if ss_sealed st then ''sealed'' else ''queued''))),
     (lit ''boundary_complete'', JBool (ss_boundary_complete st)), (lit ''truncated'', JBool (ss_truncated st)),
     (lit ''live_handle'', JStr (ss_live_handle st))]"

definition action_json :: "synthetic_action \<Rightarrow> json" where
  "action_json a = JObj [(lit ''schema_version'', JStr (lit ''lean-rgc-odlrq-synthetic-action-v1'')),
     (lit ''action_id'', JStr (sa_id a)), (lit ''payload'', payload_json (sa_payload a))]"

definition row_json :: "transition_row \<Rightarrow> json" where
  "row_json r = JObj [(lit ''schema_version'', JStr (lit ''lean-rgc-odlrq-synthetic-transition-row-v1'')),
     (lit ''source_state_id'', JStr (tr_source r)), (lit ''action_id'', JStr (tr_action r)),
     (lit ''target_state_id'', JStr (tr_target r)),
     (lit ''transition_semantics_digest'', JStr (tr_semantics_digest r)), (lit ''censor'', JStr (tr_censor r))]"

definition canonical_row_key :: "json \<Rightarrow> (strict_error, bytes) res" where
  "canonical_row_key v = liftE (\<lambda>_. ''finite snapshot member is not canonical'') (identity_json_bytes v)"

definition sort_members :: "('a \<Rightarrow> json) \<Rightarrow> 'a list \<Rightarrow> (strict_error, 'a list) res" where
  "sort_members to_json xs =
     bindE (mapE (\<lambda>x. bindE (canonical_row_key (to_json x)) (\<lambda>k. Inr (k, x))) xs) (\<lambda>keyed.
     Inr (map snd (sort_key fst keyed)))"

section \<open>The snapshot\<close>

definition mk_finite_snapshot :: "finite_snapshot \<Rightarrow> (strict_error, finite_snapshot) res" where
  "mk_finite_snapshot s =
     (let n_states = length (sn_states s); n_seeds = length (sn_seeds s);
          n_actions = length (sn_actions s); n_rows = length (sn_transitions s) in
      bindE (guardE (n_states > MAX_SYNTHETIC_TOTALIZED_STATES)
        ''totalized state cap is violated before materialization'') (\<lambda>_.
      bindE (guardE (n_seeds < 1 \<or> n_seeds > n_states \<or> n_seeds > MAX_SYNTHETIC_TOTALIZED_STATES)
        ''seed-count cap is violated before materialization'') (\<lambda>_.
      bindE (guardE (n_actions > MAX_SYNTHETIC_ACTIONS)
        ''synthetic action cap is violated before materialization'') (\<lambda>_.
      bindE (guardE (n_rows > MAX_SYNTHETIC_TRANSITION_ROWS \<or> n_states * n_actions > MAX_SYNTHETIC_TRANSITION_ROWS)
        ''synthetic transition-row cap is violated before materialization'') (\<lambda>_.
      bindE (guardE ([] \<in> set (sn_seeds s)) ''snapshot seed_state_ids must be a string tuple'') (\<lambda>_.
      bindE (sort_members state_json (sn_states s)) (\<lambda>states.
      bindE (sort_members action_json (sn_actions s)) (\<lambda>actions.
      bindE (sort_members row_json (sn_transitions s)) (\<lambda>transitions.
      Inr (s\<lparr>sn_seeds := sort (sn_seeds s), sn_states := states, sn_actions := actions,
        sn_transitions := transitions\<rparr>))))))))))"

text \<open>Building a snapshot from raw fields: the constructors of the members, then that of the snapshot.\<close>

definition construct_snapshot :: "finite_snapshot \<Rightarrow> (strict_error, finite_snapshot) res" where
  "construct_snapshot s =
     bindE (mk_domain_id (sn_domain s)) (\<lambda>domain.
     bindE (mk_response_vocabulary (sn_coordinate_names s) (sn_coordinate_schema_digest s) (sn_vocabulary_digest s))
       (\<lambda>(names, schema, vocabulary).
     bindE (mapE mk_totalized_state (sn_states s)) (\<lambda>states.
     bindE (mapE mk_synthetic_action (sn_actions s)) (\<lambda>actions.
     bindE (mapE mk_transition_row (sn_transitions s)) (\<lambda>transitions.
     mk_finite_snapshot (s\<lparr>sn_domain := domain, sn_coordinate_names := names, sn_coordinate_schema_digest := schema,
       sn_vocabulary_digest := vocabulary, sn_states := states, sn_actions := actions,
       sn_transitions := transitions\<rparr>))))))"

end
