(* ===== verification/StrictJsonTrip.thy ===== *)
theory StrictJsonTrip
  imports StrictJson
begin

text \<open>
  Canonical bytes are a faithful encoding. Each scanner reads back what the serializer wrote, in
  front of any rest that no longer belongs to the value, and decoding undoes UTF-8.
\<close>

section \<open>Strings\<close>

lemma hex_lower_value:
  assumes "n < 16"
  shows "hex_value (hex_lower n) = Some n"
  using less_16_cases [OF assms] unfolding insert_iff empty_iff
  by (elim disjE) (simp_all add: hex_value_def hex_lower_def is_digit_cp_def)

lemma scan_control:
  assumes "c < 0x20"
  shows "scan_escape (0x75 # 0x30 # 0x30 # hex_lower (unat c div 16) # hex_lower (unat c mod 16) # r) = Some (c, r)"
proof -
  have c: "unat c < 32" using assms by (simp add: word_less_nat_alt)
  have "hex_value 0x30 = Some 0" by (simp add: hex_value_def is_digit_cp_def)
  moreover have "hex_value (hex_lower (unat c div 16)) = Some (unat c div 16)"
    "hex_value (hex_lower (unat c mod 16)) = Some (unat c mod 16)"
    using c by (intro hex_lower_value; simp)+
  ultimately have "hex4 (0x30 # 0x30 # hex_lower (unat c div 16) # hex_lower (unat c mod 16) # r) = Some (unat c, r)"
    by (simp add: div_mult_mod_eq)
  with c show ?thesis by (simp add: scan_escape_def scan_unicode_def)
qed

lemma scan_simple_escapes:
  "scan_escape (quote_cp # r) = Some (quote_cp, r)" "scan_escape (backslash # r) = Some (backslash, r)"
  "scan_escape (0x6E # r) = Some (0x0A, r)" "scan_escape (0x72 # r) = Some (0x0D, r)"
  "scan_escape (0x74 # r) = Some (0x09, r)" "scan_escape (0x66 # r) = Some (0x0C, r)"
  "scan_escape (0x62 # r) = Some (0x08, r)"
  by (simp_all add: scan_escape_def)

lemma scan_escaped:
  "scan_string (escape c @ r) = map_option (\<lambda>(t, q). (c # t, q)) (scan_string r)"
proof -
  consider "c = quote_cp" | "c = backslash" | "c = 0x0A" | "c = 0x0D" | "c = 0x09" | "c = 0x0C" | "c = 0x08"
    | "c \<notin> {quote_cp, backslash, 0x0A, 0x0D, 0x09, 0x0C, 0x08}" "c < 0x20"
    | "c \<notin> {quote_cp, backslash, 0x0A, 0x0D, 0x09, 0x0C, 0x08}" "\<not> c < 0x20" by blast
  then show ?thesis
  proof cases
    case 8
    then show ?thesis by (simp add: escape_def scan_string.simps(2) scan_control)
  next
    case 9
    then show ?thesis by (simp add: escape_def scan_string.simps(2))
  qed (simp_all add: escape_def scan_string.simps(2) scan_simple_escapes)
qed

lemma scan_quoted: "scan_string (concat (map escape s) @ quote_cp # r) = Some (s, r)"
proof (induction s)
  case Nil
  then show ?case by (simp add: scan_string.simps(2))
next
  case (Cons c s)
  then show ?case by (simp add: scan_escaped)
qed

section \<open>Numbers\<close>

lemma unat_cp: "n < 2097152 \<Longrightarrow> unat (of_nat n :: codepoint) = n"
  by (simp add: unsigned_of_nat take_bit_nat_eq_self)

lemma digit_cp:
  assumes "n < 10"
  shows "is_digit_cp (of_nat (of_char (digit n)))" and "unat (of_nat (of_char (digit n)) :: codepoint) = 48 + n"
proof -
  have "(of_char (digit n) :: nat) = 48 + n" using assms by (simp add: digit_def)
  moreover have "unat (of_nat (48 + n) :: codepoint) = 48 + n"
    using assms by (intro unat_cp) simp
  ultimately show "unat (of_nat (of_char (digit n)) :: codepoint) = 48 + n" by (simp only:)
  with assms show "is_digit_cp (of_nat (of_char (digit n)))" by (simp add: is_digit_cp_def word_le_nat_alt)
qed

lemma lit_append [simp]: "lit (s @ t) = lit s @ lit t"
  by (simp add: lit_def)

lemma lit_dec_nat:
  "list_all is_digit_cp (lit (dec_nat n)) \<and> digits_value (lit (dec_nat n)) = n \<and> dec_nat n \<noteq> []"
proof (induction n rule: dec_nat.induct)
  case (1 n)
  show ?case
  proof (cases "n < 10")
    case True
    with digit_cp [of n] show ?thesis
      by (subst (1 2 3) dec_nat.simps) (simp add: lit_def digits_value_def)
  next
    case False
    then have s: "dec_nat n = dec_nat (n div 10) @ [digit (n mod 10)]" by (subst dec_nat.simps) simp
    have "digits_value (ds @ [d]) = digits_value ds * 10 + (unat d - 48)" for ds d
      by (simp add: digits_value_def)
    with 1 False digit_cp [of "n mod 10"] show ?thesis unfolding s by (simp add: lit_def)
  qed
qed

lemma dec_nat_length: "n < 10 ^ k \<Longrightarrow> 0 < k \<Longrightarrow> length (dec_nat n) \<le> k"
proof (induction n arbitrary: k rule: dec_nat.induct)
  case (1 n)
  show ?case
  proof (cases "n < 10")
    case True
    with 1(3) show ?thesis by (subst dec_nat.simps) simp
  next
    case False
    then obtain j where k: "k = Suc j" "0 < j" using 1(2,3) by (cases k; cases "k = 1") auto
    with 1(2) have "n div 10 < 10 ^ j" by (simp add: div_less_iff_less_mult mult.commute)
    with 1(1) [OF False this k(2)] k False show ?thesis by (subst dec_nat.simps) simp
  qed
qed

lemma dec_nat_head: "0 < n \<Longrightarrow> hd (dec_nat n) \<noteq> digit 0"
proof (induction n rule: dec_nat.induct)
  case (1 n)
  show ?case
  proof (cases "n < 10")
    case True
    have "digit n \<noteq> digit 0"
    proof
      assume "digit n = digit 0"
      then have "unat (of_nat (of_char (digit n)) :: codepoint) = unat (of_nat (of_char (digit 0)) :: codepoint)"
        by (rule arg_cong)
      also have "\<dots> = 48" using digit_cp(2) [of 0] by simp
      finally show False using digit_cp(2) [OF True] 1(2) by simp
    qed
    with True show ?thesis by (subst dec_nat.simps) simp
  next
    case False
    with 1 lit_dec_nat [of "n div 10"] show ?thesis by (subst dec_nat.simps) (simp add: div_greater_zero_iff)
  qed
qed

text \<open>What may follow a number in canonical text.\<close>

definition ends_number :: "pystr \<Rightarrow> bool" where
  "ends_number r \<longleftrightarrow> (case r of [] \<Rightarrow> True | c # _ \<Rightarrow> \<not> is_digit_cp c \<and> c \<notin> {0x2E, 0x65, 0x45})"

lemma ends_number_simps [simp]:
  "ends_number []" "ends_number (comma # r)" "ends_number (rbrack # r)" "ends_number (rbrace # r)"
  by (simp_all add: ends_number_def is_digit_cp_def)

lemma digit_zero: "of_nat (of_char (digit 0)) = (0x30 :: codepoint)"
  by (simp add: digit_def)

lemma scan_digits:
  assumes "ends_number r"
  shows "leading_digits (lit (dec_nat n) @ r) = lit (dec_nat n)"
proof (cases "n = 0")
  case True
  have "dec_nat 0 = [digit 0]" by (subst dec_nat.simps) simp
  with True show ?thesis by (simp add: leading_digits_def lit_def digit_zero)
next
  case False
  obtain d ds where d: "dec_nat n = d # ds" using lit_dec_nat [of n] by (cases "dec_nat n") auto
  have "d \<noteq> digit 0" using dec_nat_head [of n] False d by simp
  then have "of_nat (of_char d) \<noteq> (0x30 :: codepoint)"
    using of_char_word21_inj [of d "digit 0"] by (simp add: digit_zero)
  moreover have "takeWhile is_digit_cp (lit (dec_nat n) @ r) = lit (dec_nat n) @ takeWhile is_digit_cp r"
    using lit_dec_nat [of n] by (intro takeWhile_append2) (auto simp: list_all_iff)
  moreover have "takeWhile is_digit_cp r = []" using assms by (cases r) (auto simp: ends_number_def)
  ultimately show ?thesis using d by (simp add: leading_digits_def lit_def)
qed

lemma digits_in_range:
  assumes "n \<le> 2 ^ 63"
  shows "length (lit (dec_nat n)) \<le> 19"
proof -
  have "n < 10 ^ 19" using assms by simp
  then show ?thesis using dec_nat_length [of n 19] by simp
qed

lemma scan_unsigned_digits:
  assumes "ends_number r" and "parse_int64 neg (lit (dec_nat n)) = Some i"
  shows "scan_unsigned neg (lit (dec_nat n) @ r) = Some (i, r)"
  using assms scan_digits [OF assms(1), of n]
  by (cases r) (auto simp: scan_unsigned_with_def ends_number_def Let_def)

lemma scan_decimal:
  assumes i: "int64 i" and r: "ends_number r"
  shows "scan_number (lit (decimal i) @ r) = Some (i, r)"
proof -
  have mag: "nat \<bar>i\<bar> \<le> 2 ^ 63"
    using i by (simp add: int64_def MIN_SIGNED_64_def MAX_SIGNED_64_def nat_le_iff abs_le_iff)
  show ?thesis
  proof (cases "i < 0")
    case True
    have "lit (decimal i) = 0x2D # lit (dec_nat (nat (- i)))" using True by (simp add: decimal_def lit_def)
    moreover have "parse_int64 True (lit (dec_nat (nat (- i)))) = Some i"
      using True i mag lit_dec_nat [of "nat (- i)"] digits_in_range [of "nat (- i)"]
      by (simp add: parse_int64_def)
    ultimately show ?thesis by (simp add: scan_number_with_def scan_unsigned_digits [OF r])
  next
    case False
    then have d: "decimal i = dec_nat (nat i)" by (simp add: decimal_def)
    have p: "parse_int64 False (lit (dec_nat (nat i))) = Some i"
      using False i mag lit_dec_nat [of "nat i"] digits_in_range [of "nat i"] by (simp add: parse_int64_def)
    obtain c cs where c: "lit (dec_nat (nat i)) = c # cs" "is_digit_cp c"
      using lit_dec_nat [of "nat i"] by (cases "lit (dec_nat (nat i))") auto
    then have "c \<noteq> 0x2D" by (auto simp: is_digit_cp_def)
    then show ?thesis
      using scan_unsigned_digits [OF r p] unfolding d by (simp add: scan_number_with_def c)
  qed
qed

end
