(* ===== verification/StrictJsonRound.thy ===== *)
theory StrictJsonRound
  imports StrictJsonTrip
begin

text \<open>
  The round trip of values. \<open>canon\<close> puts every object into key order, which is how a parse
  rebuilds it; Python's \<^verbatim>\<open>==\<close> does not see the difference.
\<close>

function canon :: "json \<Rightarrow> json" where
  "canon (JArr xs) = JArr (map canon xs)"
| "canon (JObj kvs) = JObj (map (\<lambda>(k, v). (k, canon v)) (sort_key fst kvs))"
| "canon JNull = JNull"
| "canon (JBool b) = JBool b"
| "canon (JInt i) = JInt i"
| "canon (JStr s) = JStr s"
| "canon JOther = JOther"
  by pat_completeness auto
termination
  by (relation "measure size") (auto dest: json_member_size)

text \<open>A Python dictionary holds a key once, at every level.\<close>

function keys_ok :: "json \<Rightarrow> bool" where
  "keys_ok (JArr xs) \<longleftrightarrow> (\<forall>x \<in> set xs. keys_ok x)"
| "keys_ok (JObj kvs) \<longleftrightarrow> distinct (map fst kvs) \<and> (\<forall>(k, v) \<in> set kvs. keys_ok v)"
| "keys_ok JNull \<longleftrightarrow> True"
| "keys_ok (JBool b) \<longleftrightarrow> True"
| "keys_ok (JInt i) \<longleftrightarrow> True"
| "keys_ok (JStr s) \<longleftrightarrow> True"
| "keys_ok JOther \<longleftrightarrow> True"
  by pat_completeness auto
termination
  by (relation "measure size") (auto dest: json_member_size)

lemma valid_array:
  assumes "validate_json_value d (JArr xs) = Inr u"
  shows "\<forall>x \<in> set xs. validate_json_value (d + 1) x = Inr ()"
  using assms foldE_unit_all [of "validate_json_value (d + 1)" xs] by (auto split: if_splits)

lemma valid_object:
  assumes "validate_json_value d (JObj kvs) = Inr u"
  shows "length kvs \<le> MAX_CONTAINER_MEMBERS"
    and "\<forall>(k, v) \<in> set kvs. validate_string k = Inr () \<and> validate_json_value (d + 1) v = Inr ()"
  using assms foldE_unit_all [of "\<lambda>(k, v). bindE (validate_string k) (\<lambda>_. validate_json_value (d + 1) v)" kvs]
  by (auto simp: bindE_eq_Inr case_prod_unfold split: if_splits)

section \<open>Heads\<close>

definition starts_value :: "pystr \<Rightarrow> bool" where
  "starts_value s \<longleftrightarrow> s \<noteq> [] \<and> \<not> is_ws (hd s) \<and> hd s \<noteq> rbrack \<and> hd s \<noteq> rbrace \<and> hd s < 0x80"

lemma starts_append [simp]: "starts_value s \<Longrightarrow> starts_value (s @ r)"
  by (cases s) (auto simp: starts_value_def)

lemma starts_simps [simp]:
  "starts_value (quote_cp # r)" "starts_value (lbrace # r)" "starts_value (lbrack # r)"
  "starts_value (lit ''null'')" "starts_value (lit ''true'')" "starts_value (lit ''false'')"
  by (simp_all add: starts_value_def is_ws_def lit_def)

lemma starts_digits [simp]: "starts_value (lit (dec_nat n))"
proof -
  obtain c cs where c: "lit (dec_nat n) = c # cs" "is_digit_cp c"
    using lit_dec_nat [of n] by (cases "lit (dec_nat n)") auto
  then have "0x30 \<le> unat c" "unat c \<le> 0x39" by (simp_all add: is_digit_cp_def word_le_nat_alt)
  then show ?thesis using c by (auto simp: starts_value_def is_ws_def word_less_nat_alt)
qed

lemma starts_decimal [simp]: "starts_value (lit (decimal i))"
proof (cases "i < 0")
  case True
  then have "lit (decimal i) = 0x2D # lit (dec_nat (nat (- i)))" by (simp add: decimal_def lit_def)
  then show ?thesis by (simp add: starts_value_def is_ws_def)
qed (simp add: decimal_def)

lemma dumps_starts: "validate_json_value d v = Inr u \<Longrightarrow> starts_value (dumps v)"
  by (cases v) (auto simp: quoted_def)

lemma skip_start: "starts_value s \<Longrightarrow> skip s = s"
  by (cases s) (auto simp: starts_value_def skip_def)

lemma skip_delims [simp]:
  "skip (comma # r) = comma # r" "skip (rbrack # r) = rbrack # r" "skip (rbrace # r) = rbrace # r"
  "skip (colon # r) = colon # r" "skip (quote_cp # r) = quote_cp # r" "skip [] = []"
  by (simp_all add: skip_def is_ws_def)

section \<open>Scanning what was written\<close>

lemma comma_join_Cons: "comma_join (x # xs) = x @ (if xs = [] then [] else comma # comma_join xs)"
  by (cases xs) auto

lemma scan_array:
  assumes "\<And>x n r. x \<in> set xs \<Longrightarrow> length (dumps x) \<le> n \<Longrightarrow> ends_number r \<Longrightarrow>
      scan_value n (dumps x @ r) = Some (canon x, r)"
    and "\<forall>x \<in> set xs. starts_value (dumps x)"
    and "xs \<noteq> []" and "length (comma_join (map dumps xs)) < n"
  shows "scan_items n (comma_join (map dumps xs) @ rbrack # r) = Some (map canon xs, r)"
  using assms
proof (induction xs arbitrary: n)
  case (Cons x xs)
  obtain m where n: "n = Suc m" using Cons.prems(4) by (cases n) auto
  note ih = Cons.IH [OF Cons.prems(1) _ _, of m]
  show ?case
  proof (cases "xs = []")
    case True
    with Cons.prems n show ?thesis by (simp add: scan_items_with.simps(2))
  next
    case False
    let ?rest = "comma_join (map dumps xs) @ rbrack # r"
    have len: "length (dumps x) \<le> m" "length (comma_join (map dumps xs)) < m"
      using Cons.prems(4) n False by (auto simp: comma_join_Cons)
    have "scan_value m (dumps x @ comma # ?rest) = Some (canon x, comma # ?rest)"
      using Cons.prems(1) len by simp
    moreover have "skip ?rest = ?rest"
      using False Cons.prems(2) by (cases xs) (auto simp: comma_join_Cons intro!: skip_start)
    moreover have "scan_items m ?rest = Some (map canon xs, r)"
      by (rule Cons.IH) (use Cons.prems False len in auto)
    ultimately show ?thesis
      using False n by (simp add: comma_join_Cons scan_items_with.simps(2))
  qed
qed simp

definition member_text :: "pystr \<times> json \<Rightarrow> pystr" where
  "member_text m = quoted (fst m) @ colon # dumps (snd m)"

lemma member_text_pair: "member_text (k, x) = quoted k @ colon # dumps x"
  by (simp add: member_text_def)

lemma scan_object:
  assumes "\<And>k x n r. (k, x) \<in> set kvs \<Longrightarrow> length (dumps x) \<le> n \<Longrightarrow> ends_number r \<Longrightarrow>
      scan_value n (dumps x @ r) = Some (canon x, r)"
    and "\<forall>(k, x) \<in> set kvs. starts_value (dumps x)"
    and "kvs \<noteq> []" and "length (comma_join (map member_text kvs)) \<le> n"
  shows "scan_members n (tl (comma_join (map member_text kvs)) @ rbrace # r)
    = Some (map (\<lambda>(k, x). (k, canon x)) kvs, r)"
  using assms
proof (induction kvs arbitrary: n)
  case (Cons m kvs)
  obtain k x where m: "m = (k, x)" by (cases m)
  obtain n' where n: "n = Suc n'" using Cons.prems(4) by (cases n) (auto simp: comma_join_Cons member_text_def quoted_def)
  let ?tail = "(if kvs = [] then [] else comma # comma_join (map member_text kvs)) @ rbrace # r"
  have len: "length (dumps x) \<le> n'" "kvs \<noteq> [] \<Longrightarrow> length (comma_join (map member_text kvs)) \<le> n'"
    using Cons.prems(4) n m by (auto simp: comma_join_Cons member_text_pair quoted_def split: if_splits)
  have shape: "tl (comma_join (map member_text (m # kvs))) @ rbrace # r
      = concat (map escape k) @ quote_cp # colon # dumps x @ ?tail"
    using m by (simp add: comma_join_Cons member_text_def quoted_def)
  have key: "scan_string (concat (map escape k) @ quote_cp # colon # dumps x @ ?tail) = Some (k, colon # dumps x @ ?tail)"
    by (rule scan_quoted)
  have "starts_value (dumps x)" using Cons.prems(2) m by auto
  then have skip: "skip (dumps x @ ?tail) = dumps x @ ?tail" by (intro skip_start starts_append)
  have val: "scan_value n' (dumps x @ ?tail) = Some (canon x, ?tail)"
    by (rule Cons.prems(1)) (use m len in auto)
  show ?case
  proof (cases "kvs = []")
    case True
    then show ?thesis unfolding shape using key skip val n m by (simp add: scan_members_with.simps(2))
  next
    case False
    then obtain m' ms where kvs: "kvs = m' # ms" by (cases kvs) auto
    have ih: "scan_members n' (tl (comma_join (map member_text kvs)) @ rbrace # r) = Some (map (\<lambda>(k, x). (k, canon x)) kvs, r)"
      by (rule Cons.IH) (use Cons.prems False len in auto)
    have head: "comma_join (map member_text kvs) = quote_cp # tl (comma_join (map member_text kvs))"
      using kvs by (simp add: comma_join_Cons member_text_def quoted_def)
    have "?tail = comma # quote_cp # tl (comma_join (map member_text kvs)) @ rbrace # r"
      using False by (subst head) simp
    then show ?thesis unfolding shape using key skip val n m ih by (simp add: scan_members_with.simps(2))
  qed
qed simp

theorem scan_value_dumps:
  assumes "validate_json_value d v = Inr ()" "keys_ok v" "length (dumps v) \<le> n" "ends_number r"
  shows "scan_value n (dumps v @ r) = Some (canon v, r)"
  using assms
proof (induction v arbitrary: d n r rule: measure_induct_rule [of size])
  case (less v)
  have "dumps v \<noteq> []" using dumps_starts [OF less.prems(1)] by (simp add: starts_value_def)
  with less.prems(3) obtain m where n: "n = Suc m" by (cases n) auto
  show ?case
  proof (cases v)
    case JNull
    then show ?thesis using n by (simp add: scan_value_with.simps(3) lit_def)
  next
    case (JBool b)
    then show ?thesis using n by (cases b) (simp_all add: scan_value_with.simps(3) lit_def)
  next
    case (JInt i)
    obtain c cs where c: "lit (decimal i) = c # cs" "c \<noteq> quote_cp" "c \<noteq> lbrace" "c \<noteq> lbrack"
      "c \<noteq> 0x6E" "c \<noteq> 0x74" "c \<noteq> 0x66"
    proof (cases "i < 0")
      case True
      then show ?thesis using that by (simp add: decimal_def lit_def)
    next
      case False
      obtain c cs where c: "lit (dec_nat (nat i)) = c # cs" "is_digit_cp c"
        using lit_dec_nat [of "nat i"] by (cases "lit (dec_nat (nat i))") auto
      have "c \<noteq> quote_cp" "c \<noteq> lbrace" "c \<noteq> lbrack" "c \<noteq> 0x6E" "c \<noteq> 0x74" "c \<noteq> 0x66"
        using c(2) by (auto simp: is_digit_cp_def)
      with False c(1) show ?thesis using that by (simp add: decimal_def)
    qed
    have "int64 i" using less.prems(1) JInt by simp
    then have "scan_number (c # cs @ r) = Some (i, r)"
      using scan_decimal [OF _ less.prems(4)] c(1) by (metis append_Cons)
    with c JInt n show ?thesis by (simp add: scan_value_with.simps(3) lit_def)
  next
    case (JStr s)
    then show ?thesis using n scan_quoted [of s r] by (simp add: quoted_def scan_value_with.simps(3))
  next
    case (JArr xs)
    have elem: "scan_value n' (dumps x @ r') = Some (canon x, r')"
      if "x \<in> set xs" "length (dumps x) \<le> n'" "ends_number r'" for x n' r'
      by (rule less.IH) (use that JArr less.prems(1,2) valid_array [of d xs] json_member_size(1) in auto)
    have starts: "\<forall>x \<in> set xs. starts_value (dumps x)"
      using valid_array [of d xs] less.prems(1) JArr dumps_starts by blast
    show ?thesis
    proof (cases xs)
      case Nil
      then show ?thesis using JArr n by (simp add: scan_value_with.simps(3))
    next
      case (Cons y ys)
      let ?body = "comma_join (map dumps xs) @ rbrack # r"
      have "starts_value ?body" using Cons starts by (simp add: comma_join_Cons)
      moreover have "scan_items m ?body = Some (map canon xs, r)"
        by (rule scan_array [OF elem starts]) (use Cons JArr n less.prems(3) in auto)
      ultimately have "skip ?body = ?body" "hd ?body \<noteq> rbrack" "?body \<noteq> []" "scan_items m ?body = Some (map canon xs, r)"
        by (auto simp: skip_start starts_value_def)
      then show ?thesis using JArr n
        by (cases ?body) (auto simp: scan_value_with.simps(3))
    qed
  next
    case (JObj kvs)
    let ?kvs = "sort_key fst kvs"
    have mem: "validate_json_value (d + 1) x = Inr () \<and> keys_ok x \<and> size x < size v" if "(k, x) \<in> set kvs" for k x
      using that JObj less.prems(1,2) valid_object(2) [of d kvs] json_member_size(2) [OF that] by auto
    have elem: "scan_value n' (dumps x @ r') = Some (canon x, r')"
      if "(k, x) \<in> set ?kvs" "length (dumps x) \<le> n'" "ends_number r'" for k x n' r'
      by (rule less.IH) (use that mem in auto)
    have starts: "\<forall>(k, x) \<in> set ?kvs. starts_value (dumps x)" using mem dumps_starts by auto
    have pairs: "object_from_pairs (map (\<lambda>(k, x). (k, canon x)) ?kvs) = Some (canon v)"
    proof -
      have "length kvs \<le> MAX_CONTAINER_MEMBERS" "distinct (map fst kvs)"
        using valid_object(1) [of d kvs] less.prems(1,2) JObj by auto
      moreover have "distinct (map fst ?kvs)"
        using \<open>distinct (map fst kvs)\<close> by (metis distinct_map distinct_sort inj_on_def set_sort sort_key_simps(1))
      ultimately show ?thesis using JObj by (simp add: object_from_pairs_def comp_def case_prod_unfold)
    qed
    have shape: "dumps v = lbrace # comma_join (map member_text ?kvs) @ [rbrace]"
      using JObj by (simp add: member_text_def [abs_def] case_prod_unfold)
    show ?thesis
    proof (cases "?kvs")
      case Nil
      then show ?thesis using JObj n shape by (simp add: scan_value_with.simps(3))
    next
      case (Cons m' ms)
      let ?t = "tl (comma_join (map member_text ?kvs))"
      have head: "comma_join (map member_text ?kvs) = quote_cp # ?t"
        unfolding Cons by (simp add: comma_join_Cons member_text_def quoted_def)
      have "scan_members m (?t @ rbrace # r) = Some (map (\<lambda>(k, x). (k, canon x)) ?kvs, r)"
        by (rule scan_object [OF elem starts]) (use Cons n less.prems(3) shape in auto)
      moreover have "dumps v = lbrace # quote_cp # ?t @ [rbrace]" unfolding shape by (subst head) simp
      ultimately show ?thesis using pairs n by (simp add: scan_value_with.simps(3))
    qed
  next
    case JOther
    then show ?thesis using less.prems(1) by simp
  qed
qed

end
