(* ===== verification/StrictJsonBytes.thy ===== *)
theory StrictJsonBytes
  imports StrictJsonRound
begin

text \<open>Canonical bytes and values determine each other.\<close>

section \<open>UTF-8\<close>

definition text_ok :: "pystr \<Rightarrow> bool" where
  "text_ok t \<longleftrightarrow> list_all (\<lambda>c. c \<le> 0x10FFFF) t \<and> \<not> has_surrogate t"

lemma utf8_head_char:
  assumes "c \<le> 0x10FFFF" "\<not> is_surrogate c"
  shows "utf8_head (utf8_char c @ r) = Some c"
proof -
  obtain b bs where b: "utf8_char c = b # bs" using length_utf8_char [of c]
    by (cases "utf8_char c") (auto simp: utf8_width_def split: if_splits)
  have t: "take (utf8_lead b) (utf8_char c @ r) = utf8_char c"
    using utf8_lead_char [OF b, symmetric] b by simp
  have "of_nat (utf8_val (utf8_char c)) = c" by (simp add: utf8_val_char)
  with t b assms show ?thesis by (simp add: utf8_head_def)
qed

lemma utf8_decode_raw: "text_ok t \<Longrightarrow> utf8_decode (utf8_raw t) = Some t"
proof (induction t)
  case Nil
  then show ?case by (simp add: utf8_raw_def)
next
  case (Cons c t)
  then have c: "c \<le> 0x10FFFF" "\<not> is_surrogate c" "text_ok t" by (auto simp: text_ok_def has_surrogate_def)
  obtain b bs where b: "utf8_char c = b # bs" using length_utf8_char [of c]
    by (cases "utf8_char c") (auto simp: utf8_width_def split: if_splits)
  have raw: "utf8_raw (c # t) = utf8_char c @ utf8_raw t" by (simp add: utf8_raw_def)
  have "drop (utf8_lead b) (utf8_char c @ utf8_raw t) = utf8_raw t"
    using utf8_lead_char [OF b, symmetric] b by simp
  with utf8_head_char [OF c(1,2), of "utf8_raw t"] Cons.IH [OF c(3)] show ?case
    unfolding raw b by simp
qed

lemma utf8_decode_sound: "utf8_decode b = Some t \<Longrightarrow> text_ok t \<and> utf8_raw t = b"
proof (induction b arbitrary: t rule: utf8_decode.induct)
  case 1
  then show ?case by (simp add: text_ok_def has_surrogate_def utf8_raw_def)
next
  case (2 b bs)
  then obtain c u where c: "utf8_head (b # bs) = Some c"
    "utf8_decode (drop (utf8_lead b) (b # bs)) = Some u" "t = c # u" by (auto split: option.splits)
  then have "utf8_char c = take (utf8_lead b) (b # bs)" "\<not> is_surrogate c" "c \<le> 0x10FFFF"
    by (auto simp: utf8_head_def Let_def split: if_splits)
  moreover have "text_ok u \<and> utf8_raw u = drop (utf8_lead b) (b # bs)" by (rule 2(1) [OF c(1,2)])
  ultimately show ?case using c(3)
    by (auto simp: text_ok_def has_surrogate_def utf8_raw_def)
qed

section \<open>Canonical values\<close>

lemma sorted_keys_id: "sort_key fst (map (\<lambda>(k, v). (k, f v)) (sort_key fst kvs)) = map (\<lambda>(k, v). (k, f v)) (sort_key fst kvs)"
  by (rule sort_key_id_if_sorted) (simp add: comp_def case_prod_unfold)

lemma canon_object_sorted: "canon (JObj kvs) = JObj kvs \<Longrightarrow> sorted (map fst kvs)"
proof -
  assume "canon (JObj kvs) = JObj kvs"
  then have "kvs = map (\<lambda>(k, v). (k, canon v)) (sort_key fst kvs)" by simp
  then have "map fst kvs = map fst (sort_key fst kvs)"
    by (metis (no_types, lifting) case_prod_unfold fst_conv list.map_comp map_eq_conv comp_apply)
  then show ?thesis by simp
qed

lemma dumps_canon: "dumps (canon v) = dumps v"
proof (induction v rule: measure_induct_rule [of size])
  case (less v)
  show ?case
  proof (cases v)
    case (JArr xs)
    then have "map (\<lambda>x. dumps (canon x)) xs = map dumps xs"
      using less json_member_size(1) by (auto intro!: map_cong)
    then show ?thesis by (simp only: JArr canon.simps dumps.simps map_map comp_def)
  next
    case (JObj kvs)
    have "dumps (canon x) = dumps x" if "(k, x) \<in> set kvs" for k x
      using less JObj json_member_size(2) [OF that] by simp
    then have "map (\<lambda>m. quoted (fst m) @ colon # dumps (canon (snd m))) (sort_key fst kvs)
        = map (\<lambda>m. quoted (fst m) @ colon # dumps (snd m)) (sort_key fst kvs)"
      by (intro map_cong) auto
    then show ?thesis
      unfolding JObj canon.simps dumps.simps sorted_keys_id
      by (simp only: map_map comp_def case_prod_unfold fst_conv snd_conv)
  qed simp_all
qed

lemma valid_array_iff:
  "validate_json_value d (JArr xs) = Inr () \<longleftrightarrow> d + 1 \<le> MAX_JSON_DEPTH \<and> length xs \<le> MAX_CONTAINER_MEMBERS
    \<and> (\<forall>x \<in> set xs. validate_json_value (d + 1) x = Inr ())"
  using foldE_unit_all [of "validate_json_value (d + 1)" xs] by auto

lemma valid_object_iff:
  "validate_json_value d (JObj kvs) = Inr () \<longleftrightarrow> d + 1 \<le> MAX_JSON_DEPTH \<and> length kvs \<le> MAX_CONTAINER_MEMBERS
    \<and> (\<forall>(k, v) \<in> set kvs. validate_string k = Inr () \<and> validate_json_value (d + 1) v = Inr ())"
  using foldE_unit_all [of "\<lambda>(k, v). bindE (validate_string k) (\<lambda>_. validate_json_value (d + 1) v)" kvs]
  by (auto simp: bindE_eq_Inr case_prod_unfold)

lemma valid_canon: "validate_json_value d (canon v) = Inr () \<longleftrightarrow> validate_json_value d v = Inr ()"
proof (induction v arbitrary: d rule: measure_induct_rule [of size])
  case (less v)
  show ?case
  proof (cases v)
    case (JArr xs)
    have "validate_json_value (d + 1) (canon x) = Inr () \<longleftrightarrow> validate_json_value (d + 1) x = Inr ()" if "x \<in> set xs" for x
      using less JArr json_member_size(1) [OF that] by simp
    with JArr show ?thesis by (simp only: canon.simps valid_array_iff) auto
  next
    case (JObj kvs)
    have "validate_json_value (d + 1) (canon x) = Inr () \<longleftrightarrow> validate_json_value (d + 1) x = Inr ()"
      if "(k, x) \<in> set kvs" for k x
      using less JObj json_member_size(2) [OF that] by simp
    with JObj show ?thesis by (simp only: canon.simps valid_object_iff) force
  qed simp_all
qed

lemma canonical_canon: "canonical_json_bytes (canon v) = Inr b \<longleftrightarrow> canonical_json_bytes v = Inr b"
  by (simp add: canonical_json_bytes_def bindE_eq_Inr valid_canon dumps_canon)

lemma canonical_bytes_eq:
  "canonical_json_bytes v = Inr b \<longleftrightarrow> validate_json_value 0 v = Inr () \<and> \<not> has_surrogate (dumps v) \<and> b = utf8_raw (dumps v)"
  by (auto simp: canonical_json_bytes_def bindE_eq_Inr utf8_def)

section \<open>The keys of a scanned object are distinct\<close>

definition unique_keys :: "((pystr \<times> json) list \<Rightarrow> json option) \<Rightarrow> bool" where
  "unique_keys pairs_hook \<longleftrightarrow>
     (\<forall>kvs v. pairs_hook kvs = Some v \<longrightarrow> v = JObj kvs \<and> distinct (map fst kvs))"

lemma unique_keysD: "unique_keys hook \<Longrightarrow> hook kvs = Some v \<Longrightarrow> v = JObj kvs \<and> distinct (map fst kvs)"
  by (simp add: unique_keys_def)

lemma scan_keys_ok:
  "unique_keys hook \<Longrightarrow> scan_value_with hook ints n s = Some (v, r) \<Longrightarrow> keys_ok v"
  "unique_keys hook \<Longrightarrow> scan_items_with hook ints n s = Some (vs, r) \<Longrightarrow> \<forall>v \<in> set vs. keys_ok v"
  "unique_keys hook \<Longrightarrow> scan_members_with hook ints n s = Some (kvs, r) \<Longrightarrow> \<forall>(k, v) \<in> set kvs. keys_ok v"
proof (induction hook ints n s and hook ints n s and hook ints n s arbitrary: v r and vs r and kvs r
    rule: scan_value_with_scan_items_with_scan_members_with.induct)
  case (3 hook ints n c s)
  then show ?case
    by (auto simp: scan_value_with.simps(3) dest!: unique_keysD split: if_splits list.splits option.splits)
next
  case (5 hook ints n s)
  then show ?case
    by (fastforce simp: scan_items_with.simps(2) split: if_splits list.splits option.splits)
next
  case (7 hook ints n s)
  then show ?case
    by (fastforce simp: scan_members_with.simps(2) split: if_splits list.splits option.splits)
qed simp_all

lemma unique_object [simp]: "unique_keys object_from_pairs"
  by (simp add: unique_keys_def object_from_pairs_def)

section \<open>The round trip\<close>

lemma loads_dumps:
  assumes "validate_json_value 0 v = Inr ()" "keys_ok v"
  shows "loads (dumps v) = Some (canon v)"
proof -
  have "scan_value (length (dumps v) + 1) (dumps v @ []) = Some (canon v, [])"
    by (rule scan_value_dumps) (use assms in auto)
  with skip_start [OF dumps_starts [OF assms(1)]] show ?thesis by (simp add: loads_def loads_with_def)
qed

lemma no_bom:
  assumes "validate_json_value 0 v = Inr ()"
  shows "take 3 (utf8_raw (dumps v)) \<noteq> [0xEF, 0xBB, 0xBF]"
proof -
  obtain c cs where c: "dumps v = c # cs" "c < 0x80"
    using dumps_starts [OF assms] by (cases "dumps v") (auto simp: starts_value_def)
  then have n: "unat c < 128" by (simp add: word_less_nat_alt)
  then have "utf8_char c = [byte_of (unat c)]" by (cases rule: utf8_char_cases [of c]) auto
  moreover have "byte_of (unat c) \<noteq> 0xEF"
  proof
    assume "byte_of (unat c) = 0xEF"
    then have "unat (byte_of (unat c)) = 239" by simp
    with n show False by (simp add: unat_byte_of)
  qed
  ultimately show ?thesis using c by (simp add: utf8_raw_def)
qed

lemma parse_canonical_iff:
  "parse_canonical_json_bytes b = Inr v \<longleftrightarrow>
    canonical_json_bytes v = Inr b \<and> canon v = v \<and> keys_ok v \<and> text_ok (dumps v)"
proof
  assume p: "parse_canonical_json_bytes b = Inr v"
  then obtain t where t: "utf8_decode b = Some t" "loads t = Some v"
    and can: "canonical_json_bytes v = Inr b"
    by (auto simp: parse_canonical_json_bytes_def bindE_eq_Inr Option.bind_eq_Some_conv split: if_splits option.splits)
  have keys: "keys_ok v" using t(2) by (auto simp: loads_def loads_with_def dest: scan_keys_ok(1) [OF unique_object] split: option.splits if_splits)
  from can have b: "validate_json_value 0 v = Inr ()" "b = utf8_raw (dumps v)" by (simp_all add: canonical_bytes_eq)
  with utf8_decode_sound [OF t(1)] have t': "t = dumps v" "text_ok t" by auto
  with t(2) loads_dumps [OF b(1) keys] can keys
  show "canonical_json_bytes v = Inr b \<and> canon v = v \<and> keys_ok v \<and> text_ok (dumps v)" by simp
next
  assume h: "canonical_json_bytes v = Inr b \<and> canon v = v \<and> keys_ok v \<and> text_ok (dumps v)"
  then have v: "validate_json_value 0 v = Inr ()" "b = utf8_raw (dumps v)" by (simp_all add: canonical_bytes_eq)
  with h show "parse_canonical_json_bytes b = Inr v"
    using no_bom [OF v(1)] utf8_decode_raw [of "dumps v"] loads_dumps [OF v(1)]
    by (simp add: parse_canonical_json_bytes_def)
qed

lemma canon_canon [simp]: "canon (canon v) = canon v"
proof (induction v rule: measure_induct_rule [of size])
  case (less v)
  show ?case
  proof (cases v)
    case (JArr xs)
    then show ?thesis using less json_member_size(1) by auto
  next
    case (JObj kvs)
    have "canon (canon x) = canon x" if "(k, x) \<in> set kvs" for k x
      using less JObj json_member_size(2) [OF that] by simp
    with JObj show ?thesis by (auto simp: sorted_keys_id)
  qed simp_all
qed

lemma keys_ok_canon: "keys_ok (canon v) \<longleftrightarrow> keys_ok v"
proof (induction v rule: measure_induct_rule [of size])
  case (less v)
  show ?case
  proof (cases v)
    case (JArr xs)
    then show ?thesis using less json_member_size(1) by auto
  next
    case (JObj kvs)
    have "keys_ok (canon x) \<longleftrightarrow> keys_ok x" if "(k, x) \<in> set kvs" for k x
      using less JObj json_member_size(2) [OF that] by simp
    moreover have "distinct (map fst (sort_key fst kvs)) \<longleftrightarrow> distinct (map fst kvs)"
      by (simp add: distinct_map)
    ultimately show ?thesis using JObj by (auto simp: comp_def case_prod_unfold)
  qed simp_all
qed

lemma parse_canonical:
  assumes "canonical_json_bytes v = Inr b" "keys_ok v" "text_ok (dumps v)"
  shows "parse_canonical_json_bytes b = Inr (canon v)"
  using assms by (simp add: parse_canonical_iff canonical_canon keys_ok_canon dumps_canon)

lemma canonical_inj:
  assumes "canonical_json_bytes v = Inr b" "canonical_json_bytes w = Inr b" "keys_ok v" "keys_ok w"
  shows "canon v = canon w"
proof -
  from assms have v: "validate_json_value 0 v = Inr ()" "validate_json_value 0 w = Inr ()" "dumps v = dumps w"
    by (simp_all add: canonical_bytes_eq)
  with loads_dumps [OF v(1)] loads_dumps [OF v(2)] assms(3,4) show ?thesis by simp
qed

end
