(* ===== verification/Ledger.thy ===== *)
theory Ledger
  imports StrictJson
begin

text \<open>
  \<^verbatim>\<open>evals/uprime_rpc_ledger.py\<close>: hash-chained ledger records, the scanner that verifies a file of
  them, and the append-only writer. What the operating system answers is passed in:
  \<open>file_view\<close> and \<open>scan_env\<close> hold what one scan reads and is told, \<open>append_io\<close> what the system
  calls of one append return. The file itself is the list of its bytes.
\<close>

section \<open>Constants\<close>

definition LEDGER_RECORD_SCHEMA :: pystr where
  "LEDGER_RECORD_SCHEMA = lit ''lean-rgc-uprime-rpc-parsed-ledger-record-v1.0''"

definition CHAIN_STRUCTURE_VERIFIER_SCHEMA :: pystr where
  "CHAIN_STRUCTURE_VERIFIER_SCHEMA = lit ''lean-rgc-uprime-rpc-chain-structure-verifier-v0.1''"

definition CHAIN_PREFIX_INSPECTOR_SCHEMA :: pystr where
  "CHAIN_PREFIX_INSPECTOR_SCHEMA = lit ''lean-rgc-uprime-rpc-chain-prefix-inspector-v0.1''"

definition MAX_LEDGER_BYTES :: nat where
  "MAX_LEDGER_BYTES = 134217728"

definition MAX_EVENT_LINE_BYTES :: nat where
  "MAX_EVENT_LINE_BYTES = 16777216"

definition MAX_CLOSURE_LINE_BYTES :: nat where
  "MAX_CLOSURE_LINE_BYTES = 1048576"

definition MAX_LEDGER_RECORDS :: nat where
  "MAX_LEDGER_RECORDS = 1024"

definition GENESIS_DOMAIN :: bytes where
  "GENESIS_DOMAIN = ascii ''lean-rgc-uprime-u1-parsed-ledger-genesis-v1'' @ [0]"

definition RECORD_DOMAIN :: bytes where
  "RECORD_DOMAIN = ascii ''lean-rgc-uprime-u1-parsed-ledger-record-v1'' @ [0]"

definition ENVELOPE_KEYS :: "pystr list" where
  "ENVELOPE_KEYS = map lit [''body'', ''previous_record_sha256'', ''record_index'', ''record_sha256'',
     ''record_type'', ''schema_version'']"

definition EVENT_TYPES :: "pystr list" where
  "EVENT_TYPES = map lit [''local_probe'', ''request_intent'', ''parsed_response'']"

definition RECORD_TYPES :: "pystr list" where
  "RECORD_TYPES = lit ''header'' # EVENT_TYPES @ [lit ''closure'']"

definition hex64 :: "pystr \<Rightarrow> bool" where
  "hex64 t \<longleftrightarrow> length t = 64 \<and> list_all (\<lambda>c. c \<in> set (lit ''0123456789ABCDEF'')) t"

section \<open>Records\<close>

definition framed_hash :: "bytes \<Rightarrow> bytes \<Rightarrow> (ledger_error, pystr) res" where
  "framed_hash domain payload =
     (if length payload > 2 ^ 64 - 1 then Inl (Structure_Error ''hash payload length is out of range'')
      else Inr (lit (sha256_hex (domain @ be_bytes 8 (length payload) @ payload))))"

definition compute_genesis_sha256 :: "json \<Rightarrow> (ledger_error, pystr) res" where
  "compute_genesis_sha256 header_body = bindE (canonical_json_bytes header_body) (framed_hash GENESIS_DOMAIN)"

definition record_core :: "int \<Rightarrow> pystr \<Rightarrow> pystr \<Rightarrow> json \<Rightarrow> (ledger_error, (pystr \<times> json) list) res" where
  "record_core i ty previous body =
     (if \<not> (0 \<le> i \<and> i \<le> MAX_SIGNED_64) then Inl (Structure_Error ''record_index is invalid'')
      else if ty \<notin> set RECORD_TYPES then Inl (Structure_Error ''record_type is invalid'')
      else if \<not> hex64 previous then Inl (Structure_Error ''previous record digest is invalid'')
      else case body of
        JObj kvs \<Rightarrow> bindE (validate_json_value 0 body) (\<lambda>_.
          Inr [(lit ''schema_version'', JStr LEDGER_RECORD_SCHEMA), (lit ''record_index'', JInt i),
               (lit ''record_type'', JStr ty), (lit ''previous_record_sha256'', JStr previous),
               (lit ''body'', body)])
      | _ \<Rightarrow> Inl (Structure_Error ''record body must be an object''))"

definition compute_record_sha256 :: "int \<Rightarrow> pystr \<Rightarrow> pystr \<Rightarrow> json \<Rightarrow> (ledger_error, pystr) res" where
  "compute_record_sha256 i ty previous body =
     bindE (record_core i ty previous body) (\<lambda>core.
     bindE (canonical_json_bytes (JObj core)) (framed_hash RECORD_DOMAIN))"

definition build_chain_record :: "int \<Rightarrow> pystr \<Rightarrow> pystr \<Rightarrow> json \<Rightarrow> (ledger_error, json \<times> pystr) res" where
  "build_chain_record i ty previous body =
     bindE (record_core i ty previous body) (\<lambda>core.
     bindE (bindE (canonical_json_bytes (JObj core)) (framed_hash RECORD_DOMAIN)) (\<lambda>digest.
     Inr (JObj (core @ [(lit ''record_sha256'', JStr digest)]), digest)))"

definition canonical_chain_record_line :: "json \<Rightarrow> (ledger_error, bytes) res" where
  "canonical_chain_record_line record = bindE (canonical_json_bytes record) (\<lambda>b. Inr (b @ [10]))"

text \<open>\<^verbatim>\<open>value.get(key)\<close> where only strings are accepted.\<close>

definition get_text :: "(pystr \<times> json) list \<Rightarrow> string \<Rightarrow> pystr option" where
  "get_text kvs key = (case map_of kvs (lit key) of Some (JStr t) \<Rightarrow> Some t | _ \<Rightarrow> None)"

definition validate_record_envelope ::
  "json \<Rightarrow> int \<Rightarrow> pystr option \<Rightarrow> (ledger_error, pystr \<times> json \<times> pystr \<times> pystr) res" where
  "validate_record_envelope value expected_index expected_previous =
     (case value of
        JObj kvs \<Rightarrow>
          (if sort (map fst kvs) \<noteq> ENVELOPE_KEYS
             then Inl (Structure_Error ''record envelope field set is invalid'')
           else if get_text kvs ''schema_version'' \<noteq> Some LEDGER_RECORD_SCHEMA
             then Inl (Structure_Error ''record schema is invalid'')
           else if map_of kvs (lit ''record_index'') \<noteq> Some (JInt expected_index)
             then Inl (Structure_Error ''record index is not contiguous'')
           else case get_text kvs ''record_type'' of
             None \<Rightarrow> Inl (Structure_Error ''record type is invalid'')
           | Some ty \<Rightarrow>
             (if ty \<notin> set RECORD_TYPES then Inl (Structure_Error ''record type is invalid'')
              else case get_text kvs ''previous_record_sha256'' of
                None \<Rightarrow> Inl (Structure_Error ''previous record digest is invalid'')
              | Some previous \<Rightarrow>
                (if \<not> hex64 previous then Inl (Structure_Error ''previous record digest is invalid'')
                 else case get_text kvs ''record_sha256'' of
                   None \<Rightarrow> Inl (Structure_Error ''record digest is invalid'')
                 | Some stored \<Rightarrow>
                   (if \<not> hex64 stored then Inl (Structure_Error ''record digest is invalid'')
                    else case map_of kvs (lit ''body'') of
                      Some (JObj bkvs) \<Rightarrow>
                        bindE (if expected_index = 0 then
                            (if ty \<noteq> lit ''header'' then Inl (Structure_Error ''record zero is not the header'')
                             else bindE (compute_genesis_sha256 (JObj bkvs)) (\<lambda>genesis.
                               guardE (previous \<noteq> genesis) (Structure_Error ''header does not bind its genesis'')))
                          else guardE (Some previous \<noteq> expected_previous)
                            (Structure_Error ''record chain predecessor mismatch'')) (\<lambda>_.
                        bindE (compute_record_sha256 expected_index ty previous (JObj bkvs)) (\<lambda>recomputed.
                        if stored \<noteq> recomputed then Inl (Structure_Error ''record digest mismatch'')
                        else Inr (ty, JObj bkvs, stored, previous)))
                    | _ \<Rightarrow> Inl (Structure_Error ''record body must be an object'')))))
      | _ \<Rightarrow> Inl (Structure_Error ''record envelope field set is invalid''))"

section \<open>Scanning an open file\<close>

record stat =
  st_dev :: int
  st_ino :: int
  st_ctime_ns :: int
  st_size :: nat
  st_mtime_ns :: int

definition stat_identity :: "stat \<Rightarrow> int \<times> int" where
  "stat_identity s = (st_dev s, st_ino s)"

definition stat_snapshot :: "stat \<Rightarrow> (int \<times> int) \<times> int \<times> nat \<times> int" where
  "stat_snapshot s = (stat_identity s, st_ctime_ns s, st_size s, st_mtime_ns s)"

definition path_binding :: "stat \<Rightarrow> (int \<times> int) \<times> nat \<times> int" where
  "path_binding s = (stat_identity s, st_size s, st_mtime_ns s)"

record scan_result =
  sr_status :: string
  sr_verified_prefix_bytes :: nat
  sr_record_count :: nat
  sr_head :: "pystr option"
  sr_genesis :: "pystr option"
  sr_header_hash :: "pystr option"
  sr_closure_hash :: "pystr option"
  sr_closure_index :: "nat option"
  sr_input_sha256 :: "pystr option"
  sr_input_bytes :: nat
  sr_error_code :: "string option"
  sr_canonical_record_bytes :: "bytes list option"

definition scan_error :: "string \<Rightarrow> nat \<Rightarrow> scan_result" where
  "scan_error code input_bytes =
     \<lparr>sr_status = ''corrupt'', sr_verified_prefix_bytes = 0, sr_record_count = 0, sr_head = None,
      sr_genesis = None, sr_header_hash = None, sr_closure_hash = None, sr_closure_index = None,
      sr_input_sha256 = None, sr_input_bytes = input_bytes, sr_error_code = Some code,
      sr_canonical_record_bytes = None\<rparr>"

text \<open>The local variables of the scan. \<open>sc_digest\<close> is what the digest was updated with.\<close>

record scan_state =
  sc_total :: nat
  sc_index :: nat
  sc_head :: "pystr option"
  sc_genesis :: "pystr option"
  sc_header_hash :: "pystr option"
  sc_closure_hash :: "pystr option"
  sc_closure_index :: "nat option"
  sc_closure_seen :: bool
  sc_digest :: bytes
  sc_retained :: "bytes list"

definition scan_start :: scan_state where
  "scan_start = \<lparr>sc_total = 0, sc_index = 0, sc_head = None, sc_genesis = None, sc_header_hash = None,
     sc_closure_hash = None, sc_closure_index = None, sc_closure_seen = False, sc_digest = [],
     sc_retained = []\<rparr>"

definition scan_outcome ::
  "scan_state \<Rightarrow> string \<Rightarrow> pystr option \<Rightarrow> nat \<Rightarrow> string option \<Rightarrow> bytes list option \<Rightarrow> scan_result" where
  "scan_outcome st status sha input_bytes code retained =
     \<lparr>sr_status = status, sr_verified_prefix_bytes = sc_total st, sr_record_count = sc_index st,
      sr_head = sc_head st, sr_genesis = sc_genesis st, sr_header_hash = sc_header_hash st,
      sr_closure_hash = sc_closure_hash st, sr_closure_index = sc_closure_index st,
      sr_input_sha256 = sha, sr_input_bytes = input_bytes, sr_error_code = code,
      sr_canonical_record_bytes = retained\<rparr>"

definition scan_failed :: "scan_state \<Rightarrow> string \<Rightarrow> nat \<Rightarrow> string \<Rightarrow> scan_result" where
  "scan_failed st status input_bytes code = scan_outcome st status None input_bytes (Some code) None"

text \<open>\<^verbatim>\<open>handle.readline(limit)\<close>: up to and including the next line feed, at most \<open>limit\<close> bytes.\<close>

definition line_length :: "bytes \<Rightarrow> nat" where
  "line_length bs = (let n = length (takeWhile (\<lambda>b. b \<noteq> 10) bs) in if n < length bs then n + 1 else n)"

definition readline :: "nat \<Rightarrow> bytes \<Rightarrow> bytes \<times> bytes" where
  "readline limit bs = (let n = min limit (line_length bs) in (take n bs, drop n bs))"

definition accept_record ::
  "scan_state \<Rightarrow> bytes \<Rightarrow> pystr \<times> json \<times> pystr \<times> pystr \<Rightarrow> (scan_result, scan_state) res" where
  "accept_record st raw_line r =
     (let (ty, body, record_hash, previous) = r; seen = sc_total st + length raw_line in
      if ty = lit ''closure'' \<and> length raw_line > MAX_CLOSURE_LINE_BYTES
        then Inl (scan_failed st ''corrupt'' seen ''CLOSURE_SIZE_LIMIT'')
      else
        let st1 = (if sc_index st = 0 then st\<lparr>sc_genesis := Some previous, sc_header_hash := Some record_hash\<rparr> else st) in
        if ty = lit ''header'' \<and> sc_index st \<noteq> 0 then Inl (scan_failed st1 ''corrupt'' seen ''SECOND_HEADER'')
        else
          let st2 = (if ty = lit ''closure'' then st1\<lparr>sc_closure_seen := True, sc_closure_hash := Some record_hash,
                sc_closure_index := Some (sc_index st)\<rparr> else st1);
              st3 = st2\<lparr>sc_digest := sc_digest st @ raw_line, sc_retained := sc_retained st @ [butlast raw_line],
                sc_total := seen, sc_head := Some record_hash, sc_index := sc_index st + 1\<rparr> in
          if sc_index st3 > MAX_LEDGER_RECORDS
            then Inl (scan_failed st3 ''corrupt'' (sc_total st3) ''RECORD_LIMIT'')
          else Inr st3)"

definition scan_line :: "nat \<Rightarrow> scan_state \<Rightarrow> bytes \<Rightarrow> (scan_result, scan_state) res" where
  "scan_line initial_size st raw_line =
     (let seen = sc_total st + length raw_line in
      if sc_closure_seen st then Inl (scan_failed st ''corrupt'' seen ''BYTES_AFTER_CLOSURE'')
      else if length raw_line > MAX_EVENT_LINE_BYTES
        then Inl (scan_failed st ''corrupt'' initial_size ''LINE_SIZE_LIMIT'')
      else if seen > MAX_LEDGER_BYTES then Inl (scan_failed st ''corrupt'' seen ''FILE_SIZE_LIMIT'')
      else if raw_line = [] \<or> last raw_line \<noteq> 10
        then Inl (scan_failed st ''torn'' seen ''FINAL_LINE_WITHOUT_LF'')
      else case bindE (parse_canonical_json_bytes (butlast raw_line))
          (\<lambda>value. validate_record_envelope value (int (sc_index st)) (sc_head st)) of
        Inl e \<Rightarrow> Inl (scan_failed st ''corrupt'' seen ''StandaloneLedgerStructureError'')
      | Inr r \<Rightarrow> accept_record st raw_line r)"

lemma readline_shorter: "bs \<noteq> [] \<Longrightarrow> 0 < limit \<Longrightarrow> length (snd (readline limit bs)) < length bs"
  using length_takeWhile_le [of "\<lambda>b. b \<noteq> 10" bs]
  by (cases "length (takeWhile (\<lambda>b. b \<noteq> 10) bs) = length bs") (auto simp: readline_def line_length_def Let_def)

function scan_lines :: "nat \<Rightarrow> scan_state \<Rightarrow> bytes \<Rightarrow> (scan_result, scan_state) res" where
  "scan_lines initial_size st bs =
     (if bs = [] then Inr st
      else bindE (scan_line initial_size st (fst (readline (MAX_EVENT_LINE_BYTES + 1) bs))) (\<lambda>st'.
        scan_lines initial_size st' (snd (readline (MAX_EVENT_LINE_BYTES + 1) bs))))"
  by pat_completeness auto
termination
  by (relation "measure (\<lambda>(_, _, bs). length bs)") (auto simp: readline_shorter)

declare scan_lines.simps [simp del]

text \<open>What one scan of an open file is told: two reads of the bytes and three answers of \<^verbatim>\<open>fstat\<close>.\<close>

record file_view =
  fv_initial :: stat
  fv_first_read :: bytes
  fv_first_final :: stat
  fv_second_read :: bytes
  fv_second_final :: stat

definition scan_open_handle :: "file_view \<Rightarrow> bool \<Rightarrow> scan_result" where
  "scan_open_handle fv retain =
     (if st_size (fv_initial fv) > MAX_LEDGER_BYTES
        then scan_error ''FILE_SIZE_LIMIT'' (st_size (fv_initial fv))
      else case scan_lines (st_size (fv_initial fv)) scan_start (fv_first_read fv) of
        Inl result \<Rightarrow> result
      | Inr st \<Rightarrow>
        (let first_sha = lit (sha256_hex (sc_digest st)); second = length (fv_second_read fv);
             retained = (if retain then Some (sc_retained st) else None) in
         if stat_snapshot (fv_first_final fv) \<noteq> stat_snapshot (fv_initial fv)
             \<or> sc_total st \<noteq> st_size (fv_first_final fv)
           then scan_failed st ''corrupt'' (st_size (fv_first_final fv)) ''FILE_CHANGED_DURING_SCAN''
         else if second > MAX_LEDGER_BYTES
           then scan_failed st ''corrupt'' (MAX_LEDGER_BYTES + 1) ''FILE_SIZE_LIMIT''
         else if stat_snapshot (fv_second_final fv) \<noteq> stat_snapshot (fv_initial fv)
             \<or> second \<noteq> st_size (fv_initial fv) \<or> lit (sha256_hex (fv_second_read fv)) \<noteq> first_sha
           then scan_failed st ''corrupt'' second ''FILE_CHANGED_DURING_SCAN''
         else scan_outcome st (if sc_index st = 0 \<or> \<not> sc_closure_seen st then ''unclosed'' else ''closed_chain'')
           (Some first_sha) (sc_total st) None retained))"

section \<open>Scanning a path\<close>

text \<open>
  What the system answers to one scan of a path: whether opening, the first \<^verbatim>\<open>fstat\<close>, reading or
  closing raise (with the name of the exception), and the final \<^verbatim>\<open>stat\<close> of the path.
\<close>

record scan_env =
  se_open_error :: "string option"
  se_stat_error :: "string option"
  se_read_error :: "string option"
  se_view :: file_view
  se_close_error :: "string option"
  se_restat :: "(string, stat) res"

definition scan_chain :: "scan_env \<Rightarrow> (int \<times> int) option \<Rightarrow> bool \<Rightarrow> scan_result" where
  "scan_chain env expected_identity retain =
     (case se_open_error env of
        Some e \<Rightarrow> scan_error (''OPEN_'' @ e) 0
      | None \<Rightarrow>
        (let initial = fv_initial (se_view env);
             result = (case se_stat_error env of
                 Some e \<Rightarrow> scan_error (''SCAN_'' @ e) 0
               | None \<Rightarrow>
                   if expected_identity \<noteq> None \<and> Some (stat_identity initial) \<noteq> expected_identity
                     then scan_error ''FILE_IDENTITY_CHANGED'' (st_size initial)
                   else case se_read_error env of
                     Some e \<Rightarrow> scan_error (''SCAN_'' @ e) 0
                   | None \<Rightarrow> scan_open_handle (se_view env) retain) in
         case se_close_error env of
           Some e \<Rightarrow> scan_error (''SCAN_CLOSE_'' @ e) (sr_input_bytes result)
         | None \<Rightarrow>
             if sr_status result \<in> {''closed_chain'', ''unclosed''} then
               (case se_restat env of
                  Inl e \<Rightarrow> scan_error (''PATH_RESTAT_'' @ e) (sr_input_bytes result)
                | Inr current \<Rightarrow>
                    if path_binding current \<noteq> path_binding initial
                      then scan_error ''FILE_IDENTITY_CHANGED'' (sr_input_bytes result)
                    else result)
             else result))"

section \<open>Attestations\<close>

record attestation =
  at_attestation_scope :: string
  at_origin_status :: string
  at_verifier_schema_version :: pystr
  at_record_schema_version :: pystr
  at_input_sha256 :: pystr
  at_input_bytes :: nat
  at_genesis_sha256 :: pystr
  at_header_record_sha256 :: pystr
  at_closure_record_sha256 :: pystr
  at_final_chain_head :: pystr
  at_record_count :: nat
  at_closure_record_index :: nat
  at_authority_scope :: string
  at_bundle_binding :: string
  at_remote_claim_authentication :: string
  at_report_binding :: string
  at_contract_recomputation :: string
  at_attempt_manifest_binding :: string
  at_privacy_scan :: string
  at_archive_verification :: string
  at_canonical_run_authority :: bool
  at_licenses_execution :: bool
  at_licenses_later_stage :: bool

record inspection =
  in_scope :: string
  in_schema_version :: pystr
  in_status :: string
  in_finalized :: bool
  in_verified_prefix_bytes :: nat
  in_verified_record_count :: nat
  in_verified_chain_head :: "pystr option"
  in_error_code :: "string option"
  in_authority_scope :: string
  in_canonical_run_authority :: bool
  in_licenses_execution :: bool
  in_licenses_later_stage :: bool

record chain_snapshot =
  cs_scope :: string
  cs_attestation :: attestation
  cs_canonical_record_bytes :: "bytes list"
  cs_authority_scope :: string
  cs_canonical_run_authority :: bool
  cs_licenses_execution :: bool
  cs_licenses_later_stage :: bool

text \<open>\<open>Assertion\<close> stands for a failed \<^verbatim>\<open>assert\<close> and for \<^verbatim>\<open>AssertionError\<close>.\<close>

datatype attest_error = Ledger_Error ledger_error | Assertion

definition inspect_standalone_chain_prefix :: "scan_env \<Rightarrow> inspection" where
  "inspect_standalone_chain_prefix env =
     (let r = scan_chain env None False in
      \<lparr>in_scope = ''standalone_chain_prefix_only'', in_schema_version = CHAIN_PREFIX_INSPECTOR_SCHEMA,
       in_status = sr_status r, in_finalized = False,
       in_verified_prefix_bytes = sr_verified_prefix_bytes r, in_verified_record_count = sr_record_count r,
       in_verified_chain_head = sr_head r, in_error_code = sr_error_code r, in_authority_scope = ''none'',
       in_canonical_run_authority = False, in_licenses_execution = False, in_licenses_later_stage = False\<rparr>)"

definition attestation_from_scan :: "scan_result \<Rightarrow> (attest_error, attestation) res" where
  "attestation_from_scan r =
     (if sr_status r \<noteq> ''closed_chain''
        then Inl (Ledger_Error (Structure_Error (''standalone ledger chain is not closed: '' @ sr_status r)))
      else case (sr_input_sha256 r, sr_genesis r, sr_header_hash r, sr_closure_hash r, sr_closure_index r, sr_head r) of
        (Some sha, Some genesis, Some header, Some closure, Some i, Some head) \<Rightarrow>
          Inr \<lparr>at_attestation_scope = ''standalone_chain_structure_only'',
               at_origin_status = ''unknown_may_be_synthetic'',
               at_verifier_schema_version = CHAIN_STRUCTURE_VERIFIER_SCHEMA,
               at_record_schema_version = LEDGER_RECORD_SCHEMA, at_input_sha256 = sha,
               at_input_bytes = sr_input_bytes r, at_genesis_sha256 = genesis,
               at_header_record_sha256 = header, at_closure_record_sha256 = closure,
               at_final_chain_head = head, at_record_count = sr_record_count r, at_closure_record_index = i,
               at_authority_scope = ''none'', at_bundle_binding = ''not_performed'', at_remote_claim_authentication = ''not_performed'',
               at_report_binding = ''not_performed'', at_contract_recomputation = ''not_performed'',
               at_attempt_manifest_binding = ''not_performed'', at_privacy_scan = ''not_performed'',
               at_archive_verification = ''not_performed'',
               at_canonical_run_authority = False, at_licenses_execution = False,
               at_licenses_later_stage = False\<rparr>
      | _ \<Rightarrow> Inl Assertion)"

definition attest_standalone_closed_chain :: "scan_env \<Rightarrow> (attest_error, attestation) res" where
  "attest_standalone_closed_chain env = attestation_from_scan (scan_chain env None False)"

definition load_standalone_closed_chain_snapshot :: "scan_env \<Rightarrow> (attest_error, chain_snapshot) res" where
  "load_standalone_closed_chain_snapshot env =
     (let r = scan_chain env None True in
      bindE (attestation_from_scan r) (\<lambda>a.
      case sr_canonical_record_bytes r of
        None \<Rightarrow> Inl Assertion
      | Some raws \<Rightarrow>
          if length raws \<noteq> at_record_count a then Inl Assertion
          else Inr \<lparr>cs_scope = ''standalone_same_handle_chain_snapshot_only'', cs_attestation = a,
                    cs_canonical_record_bytes = raws, cs_authority_scope = ''none'',
                    cs_canonical_run_authority = False, cs_licenses_execution = False,
                    cs_licenses_later_stage = False\<rparr>))"

end
