(* ===== verification/LedgerText.thy ===== *)
theory LedgerText
  imports StrictJsonBytes Ledger
begin

text \<open>
  The text of canonical JSON: no line feed ever occurs in it, so a file of records splits into
  its lines in one way, and its characters are those of the strings of the value.
\<close>

section \<open>Characters of a serialized value\<close>

definition printable :: "codepoint \<Rightarrow> bool" where
  "printable c \<longleftrightarrow> 0x20 \<le> c"

definition in_unicode :: "codepoint \<Rightarrow> bool" where
  "in_unicode c \<longleftrightarrow> c \<le> 0x10FFFF"

lemma delimiters_printable [simp]:
  "printable comma" "printable colon" "printable lbrack" "printable rbrack" "printable lbrace" "printable rbrace"
  by (simp_all add: printable_def)

lemma delimiters_in_unicode [simp]:
  "in_unicode comma" "in_unicode colon" "in_unicode lbrack" "in_unicode rbrack" "in_unicode lbrace" "in_unicode rbrace"
  by (simp_all add: in_unicode_def)

lemma list_all_comma_join:
  "P comma \<Longrightarrow> list_all P (comma_join xs) \<longleftrightarrow> (\<forall>x \<in> set xs. list_all P x)"
  by (induction xs rule: comma_join.induct) auto

lemma hex_lower_cases: "n < 16 \<Longrightarrow> hex_lower n \<in> set (lit ''0123456789abcdef'')"
  by (drule less_16_cases) (auto simp: hex_lower_def lit_def)

lemma hex_lower_ok: "n < 16 \<Longrightarrow> printable (hex_lower n) \<and> in_unicode (hex_lower n)"
  using hex_lower_cases [of n] by (auto simp: lit_def printable_def in_unicode_def)

lemma escape_control_digits: "c < 0x20 \<Longrightarrow> unat c div 16 < 16"
  for c :: codepoint
  by (simp add: word_less_nat_alt)

lemma escape_printable: "list_all printable (escape c)"
  using hex_lower_ok [OF escape_control_digits, of c] hex_lower_ok [of "unat c mod 16"]
  by (auto simp: escape_def printable_def not_less)

lemma escape_in_unicode: "list_all in_unicode (escape c) \<longleftrightarrow> in_unicode c"
proof (cases "c < 0x20")
  case True
  then have "in_unicode c" by (simp add: in_unicode_def word_le_nat_alt word_less_nat_alt)
  with True show ?thesis
    using hex_lower_ok [OF escape_control_digits, of c] hex_lower_ok [of "unat c mod 16"]
    by (auto simp: escape_def in_unicode_def)
next
  case False
  then show ?thesis by (auto simp: escape_def in_unicode_def)
qed

lemma quoted_printable: "list_all printable (quoted s)"
  using escape_printable by (auto simp: quoted_def list_all_iff printable_def)

text \<open>A property of characters that escaping keeps is one of the strings of a value.\<close>

lemma quoted_all:
  assumes "P quote_cp" "\<And>c. list_all P (escape c) \<longleftrightarrow> P c"
  shows "list_all P (quoted s) \<longleftrightarrow> list_all P s"
proof -
  have "list_all P (concat (map escape s)) \<longleftrightarrow> list_all P s"
    by (induction s) (auto simp: assms(2))
  then show ?thesis by (simp add: quoted_def assms(1))
qed

lemma object_all:
  assumes "P comma" "P colon" "P lbrace" "P rbrace" "P quote_cp" "\<And>c. list_all P (escape c) \<longleftrightarrow> P c"
  shows "list_all P (dumps (JObj kvs)) \<longleftrightarrow> (\<forall>(k, v) \<in> set kvs. list_all P k \<and> list_all P (dumps v))"
  using assms(1-4) by (auto simp: list_all_comma_join quoted_all [OF assms(5,6)])

lemma quoted_in_unicode: "list_all in_unicode (quoted s) \<longleftrightarrow> list_all in_unicode s"
  by (rule quoted_all) (simp_all add: escape_in_unicode, simp add: in_unicode_def)

lemma lit_in_unicode [simp]: "list_all in_unicode (lit s)"
proof -
  have "in_unicode (of_nat (of_char c))" for c :: char
  proof -
    have n: "of_char c < (256 :: nat)" by (rule nat_of_char_less_256)
    then have "unat (of_nat (of_char c) :: codepoint) = of_char c" by (intro unat_cp) linarith
    moreover from n have "of_char c \<le> (1114111 :: nat)" by linarith
    ultimately show ?thesis by (simp only: in_unicode_def word_le_nat_alt) simp
  qed
  then show ?thesis by (simp add: lit_def list_all_iff)
qed

lemma decimal_printable: "list_all printable (lit (decimal i))"
proof -
  have d: "list_all printable (lit (dec_nat n))" for n
  proof (induction n rule: dec_nat.induct)
    case (1 n)
    have "printable (of_nat (of_char (digit (n mod 10))))"
      by (simp add: digit_cp printable_def word_le_nat_alt unat_cp)
    with 1 show ?case by (subst dec_nat.simps) (auto simp: lit_def)
  qed
  then show ?thesis by (simp add: decimal_def) (simp add: lit_def printable_def)
qed

lemma dumps_printable: "list_all printable (dumps v)"
proof (induction v rule: measure_induct_rule [of size])
  case (less v)
  show ?case
  proof (cases v)
    case (JArr xs)
    have "list_all printable (dumps x)" if "x \<in> set xs" for x
      using less JArr json_member_size(1) [OF that] by simp
    with JArr show ?thesis by (auto simp: list_all_comma_join)
  next
    case (JObj kvs)
    have "list_all printable (dumps x)" if "(k, x) \<in> set kvs" for k x
      using less JObj json_member_size(2) [OF that] by simp
    with JObj show ?thesis by (auto simp: list_all_comma_join quoted_printable)
  qed (auto simp: quoted_printable decimal_printable, auto simp: lit_def printable_def)
qed

lemma dumps_object_in_unicode:
  "list_all in_unicode (dumps (JObj kvs)) \<longleftrightarrow>
    (\<forall>(k, v) \<in> set kvs. list_all in_unicode k \<and> list_all in_unicode (dumps v))"
  by (rule object_all) (simp_all add: escape_in_unicode, simp add: in_unicode_def)

section \<open>No control bytes\<close>

lemma utf8_char_no_control: "printable c \<Longrightarrow> b < 32 \<Longrightarrow> b \<notin> set (utf8_char c)"
proof -
  assume c: "printable c" and b: "b < 32"
  have small: "unat b < 32" using b by (simp add: word_less_nat_alt)
  have tail: "utf8_tail n \<noteq> b" for n using small unat_utf8_tail [of n] by auto
  have head: "byte_of n \<noteq> b" if "n < 256" "32 \<le> n" for n using small that unat_byte_of [of n] by auto
  from c have n: "32 \<le> unat c" by (simp add: printable_def word_le_nat_alt)
  from codepoint_bound [of c] have "unat c div 262144 < 8" by simp
  with n show ?thesis
    by (cases rule: utf8_char_cases [of c]) (simp_all add: tail [symmetric] head [symmetric])
qed

lemma canonical_no_control:
  assumes "canonical_json_bytes v = Inr bs" "b < 32"
  shows "b \<notin> set bs"
proof -
  have "\<forall>c \<in> set (dumps v). b \<notin> set (utf8_char c)"
    using dumps_printable [of v] utf8_char_no_control assms(2) by (auto simp: list_all_iff)
  with assms(1) show ?thesis by (auto simp: canonical_bytes_eq utf8_raw_def)
qed

lemma canonical_no_lf: "canonical_json_bytes v = Inr b \<Longrightarrow> 10 \<notin> set b"
  by (rule canonical_no_control) simp_all

section \<open>Python values\<close>

text \<open>What every JSON value built in Python satisfies: keys occur once, characters are code points.\<close>

definition python_json :: "json \<Rightarrow> bool" where
  "python_json v \<longleftrightarrow> keys_ok v \<and> list_all in_unicode (dumps v)"

lemma python_json_parts:
  "canonical_json_bytes v = Inr b \<Longrightarrow> keys_ok v \<and> text_ok (dumps v) \<longleftrightarrow> python_json v"
  by (auto simp: canonical_bytes_eq python_json_def text_ok_def in_unicode_def list_all_iff)

lemma python_json_canon [simp]: "python_json (canon v) \<longleftrightarrow> python_json v"
  by (simp add: python_json_def keys_ok_canon dumps_canon)

lemma parse_canonical_python_iff:
  "parse_canonical_json_bytes b = Inr v \<longleftrightarrow> canonical_json_bytes v = Inr b \<and> canon v = v \<and> python_json v"
  using python_json_parts [of v b] by (auto simp: parse_canonical_iff)

section \<open>Digests\<close>

lemma sha256_hex64: "hex64 (lit (sha256_hex m))"
proof -
  have "is_upper_hex64 (sha256_hex m)" by simp
  then have "length (sha256_hex m) = 64" "set (sha256_hex m) \<subseteq> set ''0123456789ABCDEF''"
    by (simp only: is_upper_hex64_def, unfold is_upper_hex64_def list_all_iff is_upper_hex_char_def, blast)
  then have "set (lit (sha256_hex m)) \<subseteq> set (lit ''0123456789ABCDEF'')"
    unfolding lit_def set_map by (intro image_mono)
  with \<open>length (sha256_hex m) = 64\<close> show ?thesis unfolding hex64_def list_all_iff by auto
qed

end
