(* ===== verification/LedgerAscii.thy ===== *)
theory LedgerAscii
  imports LedgerText
begin

text \<open>JSON text that is ASCII, and the strings and objects it is the text of.\<close>

definition asc :: "codepoint \<Rightarrow> bool" where
  "asc c \<longleftrightarrow> c < 0x80"

lemma escape_asc: "list_all asc (escape c) \<longleftrightarrow> asc c"
proof (cases "c < 0x20")
  case True
  then have "asc c" by (simp add: asc_def word_less_nat_alt)
  moreover have "asc (hex_lower n)" if "n < 16" for n
    using hex_lower_cases [OF that] by (auto simp: lit_def asc_def)
  ultimately show ?thesis
    using escape_control_digits [OF True] by (auto simp: escape_def asc_def)
next
  case False
  then show ?thesis by (auto simp: escape_def asc_def)
qed

lemma asc_delimiters [simp]:
  "asc comma" "asc colon" "asc lbrace" "asc rbrace" "asc quote_cp"
  by (simp_all add: asc_def)

lemma object_asc:
  "list_all asc (dumps (JObj kvs)) \<longleftrightarrow> (\<forall>(k, v) \<in> set kvs. list_all asc k \<and> list_all asc (dumps v))"
  by (rule object_all) (simp_all add: escape_asc)

lemma string_asc: "list_all asc (dumps (JStr s)) \<longleftrightarrow> list_all asc s"
  by (simp add: quoted_all escape_asc)

lemma hex_asc: "hex64 t \<Longrightarrow> list_all asc t"
proof -
  assume "hex64 t"
  then have "set t \<subseteq> set (lit ''0123456789ABCDEF'')" by (auto simp: hex64_def list_all_iff)
  moreover have "list_all asc (lit ''0123456789ABCDEF'')" by (simp add: lit_def asc_def)
  ultimately show ?thesis unfolding list_all_iff by blast
qed

lemma number_asc: "list_all asc (dumps (JInt (int n)))"
proof -
  have "list_all asc (lit (dec_nat n))"
    using lit_dec_nat [of n] by (auto simp: list_all_iff is_digit_cp_def asc_def word_le_nat_alt word_less_nat_alt)
  then show ?thesis by (simp add: decimal_def)
qed

lemma asc_utf8: "list_all asc t \<Longrightarrow> \<not> has_surrogate t \<and> length (utf8_raw t) = length t"
proof (induction t)
  case Nil
  then show ?case by (simp add: has_surrogate_def utf8_raw_def)
next
  case (Cons c t)
  then have "c < 0x80" by (simp add: asc_def)
  then have "\<not> is_surrogate c" "c \<le> 0x7F" by (auto simp: is_surrogate_def word_less_nat_alt word_le_nat_alt)
  then have "utf8_width c = 1" by (simp add: utf8_width_def)
  with Cons \<open>\<not> is_surrogate c\<close> show ?case by (simp add: has_surrogate_def length_utf8_raw)
qed

lemma asc_valid: "list_all asc t \<Longrightarrow> length t \<le> MAX_STRING_UTF8_BYTES \<Longrightarrow> validate_string t = Inr ()"
  using asc_utf8 [of t] by (simp add: validate_string_def utf8_def)

end
