(* ===== verification/PartitionRefine.thy ===== *)
theory PartitionRefine
  imports PartitionSource
begin

text \<open>
  \<^verbatim>\<open>lean_rgc/odlrq/behavioral_partition.py\<close>, the algorithms: the producer's signature refinement,
  the verifier's pair-relation refinement, the shortest distinguishing words (reverse
  breadth-first distances and greedy reconstruction, run on blocks by the producer and on raw
  states by the verifier), certificate production and verification. Lookups by identifiers that
  admission has shown to be present are total functions with an arbitrary default.
\<close>

section \<open>Canonical blocks\<close>

definition canonical_groups :: "('s \<Rightarrow> 'k::linorder) \<Rightarrow> 's list list \<Rightarrow> 's list list" where
  "canonical_groups key gs = sort_key (map key) (map (sort_key key) gs)"

definition canonical_blocks ::
  "(pystr \<Rightarrow> bytes) \<Rightarrow> pystr list list \<Rightarrow> (strict_error, partition_block list) res" where
  "canonical_blocks key gs =
     mapE (\<lambda>(i, ms). mk_partition_block (int i) ms) (enumerate 0 (canonical_groups key gs))"

definition block_owner :: "partition_block list \<Rightarrow> (pystr, int) dict" where
  "block_owner bs = stage_owner bs"

definition owner_of :: "partition_block list \<Rightarrow> pystr \<Rightarrow> int" where
  "owner_of bs q = (case dget (block_owner bs) q of Some i \<Rightarrow> i | None \<Rightarrow> -1)"

section \<open>The two refinement passes\<close>

text \<open>\<^verbatim>\<open>buckets.setdefault(signature, []).append(state_id)\<close>.\<close>

definition group_by :: "('s \<Rightarrow> 'g) \<Rightarrow> 's list \<Rightarrow> 's list list" where
  "group_by sig xs = map snd (foldl (\<lambda>d x.
     dset (sig x) ((case dget d (sig x) of Some g \<Rightarrow> g | None \<Rightarrow> []) @ [x]) d) [] xs)"

text \<open>The first class whose representative is related takes the state, else it opens a class.\<close>

fun insert_class :: "('s \<Rightarrow> 's \<Rightarrow> bool) \<Rightarrow> 's \<Rightarrow> 's list list \<Rightarrow> 's list list" where
  "insert_class rel x [] = [[x]]"
| "insert_class rel x (c # cs) = (if rel x (hd c) then (c @ [x]) # cs else c # insert_class rel x cs)"

definition relation_classes :: "('s \<Rightarrow> 's \<Rightarrow> bool) \<Rightarrow> 's list \<Rightarrow> 's list list" where
  "relation_classes rel xs = foldl (\<lambda>cs x. insert_class rel x cs) [] xs"

definition find_state :: "finite_snapshot \<Rightarrow> pystr \<Rightarrow> synthetic_state option" where
  "find_state s q = dget (map (\<lambda>st. (ss_id st, st)) (sn_states s)) q"

definition response_of :: "finite_snapshot \<Rightarrow> pystr \<Rightarrow> response" where
  "response_of s q = (case find_state s q of Some st \<Rightarrow> response_key st | None \<Rightarrow> ([], []))"

definition payload_key :: "finite_snapshot \<Rightarrow> pystr \<Rightarrow> bytes" where
  "payload_key s q = (case find_state s q of Some st \<Rightarrow> utf8_raw (ss_payload st) | None \<Rightarrow> [])"

definition canonical_actions :: "finite_snapshot \<Rightarrow> pystr list" where
  "canonical_actions s = map sa_id (sort_key (\<lambda>a. utf8_raw (sa_payload a)) (sn_actions s))"

definition producer_signature ::
  "finite_snapshot \<Rightarrow> partition_block list \<Rightarrow> pystr \<Rightarrow> response \<times> int list" where
  "producer_signature s bs q =
     (response_of s q, map (\<lambda>a. owner_of bs (target_of s q a)) (canonical_actions s))"

definition producer_refinement_pass ::
  "finite_snapshot \<Rightarrow> partition_block list \<Rightarrow> (strict_error, partition_block list) res" where
  "producer_refinement_pass s bs = canonical_blocks (payload_key s)
     (concat (map (\<lambda>b. group_by (producer_signature s bs) (pb_members b)) bs))"

definition verifier_related :: "finite_snapshot \<Rightarrow> partition_block list \<Rightarrow> pystr \<Rightarrow> pystr \<Rightarrow> bool" where
  "verifier_related s bs q r \<longleftrightarrow> response_of s q = response_of s r
     \<and> list_all (\<lambda>a. owner_of bs (target_of s q a) = owner_of bs (target_of s r a)) (canonical_actions s)"

definition verifier_relation_refinement ::
  "finite_snapshot \<Rightarrow> partition_block list \<Rightarrow> (strict_error, partition_block list) res" where
  "verifier_relation_refinement s bs = canonical_blocks (payload_key s)
     (concat (map (\<lambda>b. relation_classes (verifier_related s bs) (pb_members b)) bs))"

text \<open>The initial partition by response, over the states in payload order.\<close>

definition response_partition :: "finite_snapshot \<Rightarrow> (strict_error, partition_block list) res" where
  "response_partition s = canonical_blocks (payload_key s)
     (group_by (response_of s) (sort_key (payload_key s) (map ss_id (sn_states s))))"

section \<open>Refinement to the fixed point\<close>

definition state_count :: "finite_snapshot \<Rightarrow> int" where
  "state_count s = int (length (sn_states s))"

definition action_count :: "finite_snapshot \<Rightarrow> int" where
  "action_count s = int (length (sn_actions s))"

definition coordinate_count :: "finite_snapshot \<Rightarrow> int" where
  "coordinate_count s = int (length (sn_coordinate_names s))"

definition charge_refinement_pass ::
  "finite_snapshot \<Rightarrow> nat \<Rightarrow> work_ledger \<Rightarrow> (strict_error, work_ledger) res" where
  "charge_refinement_pass s block_count l = charge Refinement
     (state_count s * (action_count s + coordinate_count s + 1) + int block_count) l"

text \<open>
  The \<^verbatim>\<open>while True\<close> loop. \<open>left\<close> is the number of strict rounds still allowed,
  \<^verbatim>\<open>n_states - 1 - strict_rounds\<close>: the source raises when it would become negative.
\<close>

fun refine_loop ::
  "finite_snapshot \<Rightarrow> nat \<Rightarrow> partition_block list \<Rightarrow> refinement_stage list \<Rightarrow> work_ledger
   \<Rightarrow> (strict_error, partition_block list \<times> refinement_stage list \<times> work_ledger) res" where
  "refine_loop s left bs tr l =
     bindE (charge_refinement_pass s (length bs) l) (\<lambda>l.
     bindE (producer_refinement_pass s bs) (\<lambda>refined.
     if refined = bs then Inr (bs, tr, l)
     else if length refined \<le> length bs then Inl ''producer refinement pass was not a strict split''
     else (case left of
         0 \<Rightarrow> Inl ''producer refinement exceeded the finite split bound''
       | Suc left' \<Rightarrow>
           bindE (mk_refinement_stage (int (length tr)) True refined) (\<lambda>st.
           refine_loop s left' refined (tr @ [st]) l))))"

declare refine_loop.simps [simp del]

text \<open>One quotient row per block and action; every member must agree.\<close>

definition quotient_row_of ::
  "string \<Rightarrow> finite_snapshot \<Rightarrow> partition_block list \<Rightarrow> partition_block \<Rightarrow> pystr
   \<Rightarrow> (strict_error, quotient_row) res" where
  "quotient_row_of unstable s bs b a =
     (case remdups (map (\<lambda>q. owner_of bs (target_of s q a)) (pb_members b)) of
        [t] \<Rightarrow> mk_quotient_row (pb_index b) a t
      | _ \<Rightarrow> Inl unstable)"

definition producer_quotient ::
  "finite_snapshot \<Rightarrow> partition_block list \<Rightarrow> (strict_error, quotient_row list) res" where
  "producer_quotient s bs =
     mapE (\<lambda>(b, a). quotient_row_of ''producer final partition is not stable for every block member'' s bs b a)
       (concat (map (\<lambda>b. map (Pair b) (canonical_actions s)) bs))"

section \<open>Distances and shortest words on a pair graph\<close>

type_synonym pair = "nat \<times> nat"

definition ordered_pair :: "nat \<Rightarrow> nat \<Rightarrow> pair" where
  "ordered_pair x y = (if x < y then (x, y) else (y, x))"

definition pair_step :: "(nat \<Rightarrow> 'a \<Rightarrow> nat) \<Rightarrow> pair \<Rightarrow> 'a \<Rightarrow> pair option" where
  "pair_step step p a =
     (if step (fst p) a = step (snd p) a then None
      else Some (ordered_pair (step (fst p) a) (step (snd p) a)))"

text \<open>The entries of \<^verbatim>\<open>reverse\<close> in the order they are appended: (successor, predecessor).\<close>

definition reverse_edges :: "nat \<Rightarrow> 'a list \<Rightarrow> (nat \<Rightarrow> 'a \<Rightarrow> nat) \<Rightarrow> (pair \<times> pair) list" where
  "reverse_edges n acts step =
     concat (map (\<lambda>p. List.map_filter (\<lambda>a. map_option (\<lambda>q. (q, p)) (pair_step step p a)) acts)
       (index_pairs n))"

definition predecessors :: "(pair \<times> pair) list \<Rightarrow> pair \<Rightarrow> pair list" where
  "predecessors edges q = map snd (filter (\<lambda>(r, _). r = q) edges)"

definition visit :: "nat \<Rightarrow> pair \<Rightarrow> pair list \<times> (pair, nat) dict \<Rightarrow> pair list \<times> (pair, nat) dict" where
  "visit d p qd = (if p \<in> dkeys (snd qd) then qd else (fst qd @ [p], dset p d (snd qd)))"

definition unvisited :: "(pair \<times> pair) list \<Rightarrow> (pair, nat) dict \<Rightarrow> nat" where
  "unvisited edges dist = card (snd ` set edges - dkeys dist)"

lemma visit_measure:
  assumes "p \<in> snd ` set edges"
  shows "2 * unvisited edges (snd (visit d p qd)) + length (fst (visit d p qd))
    \<le> 2 * unvisited edges (snd qd) + length (fst qd)"
proof (cases "p \<in> dkeys (snd qd)")
  case False
  then have "snd ` set edges - dkeys (dset p d (snd qd)) \<subset> snd ` set edges - dkeys (snd qd)"
    using assms by (auto simp: dkeys_dset)
  then have "unvisited edges (dset p d (snd qd)) < unvisited edges (snd qd)"
    unfolding unvisited_def by (intro psubset_card_mono) auto
  with False show ?thesis by (simp add: visit_def)
qed (simp add: visit_def)

lemma visit_all_measure:
  assumes "set ps \<subseteq> snd ` set edges"
  shows "2 * unvisited edges (snd (fold (visit d) ps qd)) + length (fst (fold (visit d) ps qd))
    \<le> 2 * unvisited edges (snd qd) + length (fst qd)"
  using assms
proof (induction ps arbitrary: qd)
  case (Cons p ps)
  then have "p \<in> snd ` set edges" by auto
  from order_trans [OF Cons.IH visit_measure [OF this]] Cons.prems show ?case by simp
qed simp

lemma set_predecessors: "set (predecessors edges q) \<subseteq> snd ` set edges"
  by (auto simp: predecessors_def)

function distances ::
  "(pair \<times> pair) list \<Rightarrow> pair list \<times> (pair, nat) dict \<Rightarrow> (pair, nat) dict" where
  "distances edges ([], dist) = dist"
| "distances edges (q # queue, dist) =
     distances edges (fold (visit (Suc (the (dget dist q)))) (predecessors edges q) (queue, dist))"
  by pat_completeness auto
termination
proof (relation "measure (\<lambda>(edges, queue, dist). 2 * unvisited edges dist + length queue)")
  fix edges q queue and dist :: "(pair, nat) dict"
  show "((edges, fold (visit (Suc (the (dget dist q)))) (predecessors edges q) (queue, dist)),
      edges, q # queue, dist) \<in> measure (\<lambda>(edges, queue, dist). 2 * unvisited edges dist + length queue)"
    using visit_all_measure [OF set_predecessors, of edges "Suc (the (dget dist q))" q "(queue, dist)"]
    by (simp add: case_prod_unfold)
qed simp

definition pair_distances ::
  "nat \<Rightarrow> 'a list \<Rightarrow> (nat \<Rightarrow> 'a \<Rightarrow> nat) \<Rightarrow> (nat \<Rightarrow> 'r) \<Rightarrow> (pair, nat) dict" where
  "pair_distances n acts step resp =
     (let start = filter (\<lambda>(l, r). resp l \<noteq> resp r) (index_pairs n) in
      distances (reverse_edges n acts step) (start, map (\<lambda>p. (p, 0)) start))"

text \<open>\<^verbatim>\<open>while distance[current] > 0\<close>: take the first action that lowers the distance by one.\<close>

fun rebuild_word ::
  "string \<Rightarrow> 'a list \<Rightarrow> (nat \<Rightarrow> 'a \<Rightarrow> nat) \<Rightarrow> (pair, nat) dict \<Rightarrow> nat \<Rightarrow> pair
   \<Rightarrow> (strict_error, 'a list) res" where
  "rebuild_word err acts step dist 0 p = Inr []"
| "rebuild_word err acts step dist (Suc d) p =
     (case List.find (\<lambda>a. case pair_step step p a of None \<Rightarrow> False | Some q \<Rightarrow> dget dist q = Some d) acts of
        None \<Rightarrow> Inl err
      | Some a \<Rightarrow> bindE (rebuild_word err acts step dist d (the (pair_step step p a)))
          (\<lambda>w. Inr (a # w)))"

section \<open>Distinguishing words\<close>

definition quotient_step :: "quotient_row list \<Rightarrow> nat \<Rightarrow> pystr \<Rightarrow> nat" where
  "quotient_step rows i a =
     (case dget (foldl (\<lambda>d r. dset (qr_source r, qr_action r) (qr_target r) d) [] rows) (int i, a) of
        Some t \<Rightarrow> nat t | None \<Rightarrow> 0)"

definition block_response :: "finite_snapshot \<Rightarrow> partition_block list \<Rightarrow> nat \<Rightarrow> response" where
  "block_response s bs i = response_of s (hd (pb_members (bs ! i)))"

definition word_charge :: "int \<Rightarrow> nat list \<Rightarrow> int" where
  "word_charge m ds = sum_list (map (\<lambda>d. int d * m + 1) ds)"

definition produce_distinguishing_witnesses ::
  "finite_snapshot \<Rightarrow> partition_block list \<Rightarrow> quotient_row list \<Rightarrow> work_ledger
   \<Rightarrow> (strict_error, distinguishing_witness list \<times> work_ledger) res" where
  "produce_distinguishing_witnesses s bs rows l =
     (let n = length bs; acts = canonical_actions s; m = int (length acts);
          k = (if bs = [] then 0 else (case find_state s (hd (pb_members (bs ! 0))) of
                 Some st \<Rightarrow> int (length (ss_coordinates st)) | None \<Rightarrow> 0));
          pairs = index_pairs n; step = quotient_step rows in
      bindE (charge Distinguishing (int (n * (n - 1) div 2) * (m + k + 1)) l) (\<lambda>l.
      let dist = pair_distances n acts step (block_response s bs) in
      if length dist \<noteq> length pairs
        then Inl ''producer final blocks contain a behaviorally indistinguishable pair''
      else
        bindE (charge Distinguishing (word_charge m (map (\<lambda>p. the (dget dist p)) pairs)) l) (\<lambda>l.
        bindE (mapE (\<lambda>p. bindE
            (rebuild_word ''producer could not reconstruct a shortest witness'' acts step dist
              (the (dget dist p)) p)
            (mk_distinguishing_witness (int (fst p)) (int (snd p)))) pairs)
          (\<lambda>ws. Inr (ws, l)))))"

text \<open>The verifier works on raw states, numbered in payload order.\<close>

definition ordered_state_ids :: "finite_snapshot \<Rightarrow> pystr list" where
  "ordered_state_ids s = sort_key (payload_key s) (map ss_id (sn_states s))"

definition state_rank :: "finite_snapshot \<Rightarrow> pystr \<Rightarrow> nat" where
  "state_rank s q = (case dget (zip (ordered_state_ids s) [0..<length (ordered_state_ids s)]) q of
     Some i \<Rightarrow> i | None \<Rightarrow> 0)"

definition raw_step :: "finite_snapshot \<Rightarrow> nat \<Rightarrow> pystr \<Rightarrow> nat" where
  "raw_step s i a = state_rank s (target_of s (ordered_state_ids s ! i) a)"

definition raw_response :: "finite_snapshot \<Rightarrow> nat \<Rightarrow> response" where
  "raw_response s i = response_of s (ordered_state_ids s ! i)"

definition representative_pair :: "finite_snapshot \<Rightarrow> partition_block list \<Rightarrow> pair \<Rightarrow> pair" where
  "representative_pair s bs p = ordered_pair (state_rank s (hd (pb_members (bs ! fst p))))
     (state_rank s (hd (pb_members (bs ! snd p))))"

definition verify_distinguishing_words ::
  "finite_snapshot \<Rightarrow> partition_block list \<Rightarrow> work_ledger
   \<Rightarrow> (strict_error, distinguishing_witness list \<times> work_ledger) res" where
  "verify_distinguishing_words s bs l =
     (let n = length (sn_states s); acts = canonical_actions s; m = int (length acts);
          pairs = index_pairs (length bs); step = raw_step s in
      bindE (charge Distinguishing (int (n * (n - 1) div 2) * (m + coordinate_count s + 1)) l) (\<lambda>l.
      let dist = pair_distances n acts step (raw_response s) in
      if list_ex (\<lambda>p. dget dist (representative_pair s bs p) = None) pairs
        then Inl ''final blocks contain an indistinguishable raw state pair''
      else
        bindE (charge Distinguishing
          (word_charge m (map (\<lambda>p. the (dget dist (representative_pair s bs p))) pairs)) l) (\<lambda>l.
        bindE (mapE (\<lambda>p. bindE
            (rebuild_word ''state-pair verifier could not reconstruct a shortest word'' acts step dist
              (the (dget dist (representative_pair s bs p))) (representative_pair s bs p))
            (mk_distinguishing_witness (int (fst p)) (int (snd p)))) pairs)
          (\<lambda>ws. Inr (ws, l)))))"

section \<open>Producing a certificate\<close>

definition certificate_bindings :: "partition_certificate \<Rightarrow> pystr list" where
  "certificate_bindings c = [pc_evidence_scope c, pc_snapshot_sha256 c, pc_domain_payload_digest c,
     pc_observation_frame_digest c, pc_transition_semantics_digest c,
     pc_response_vocabulary_digest c, pc_action_alphabet_digest c]"

definition source_bindings :: "admitted_snapshot \<Rightarrow> pystr list" where
  "source_bindings ad = [SYNTHETIC_EVIDENCE_SCOPE, ar_snapshot_sha256 (as_report ad),
     di_domain_payload_digest (sn_domain (as_snapshot ad)), di_frame_digest (sn_domain (as_snapshot ad)),
     di_transition_semantics_digest (sn_domain (as_snapshot ad)), sn_vocabulary_digest (as_snapshot ad),
     di_action_alphabet_digest (sn_domain (as_snapshot ad))]"

definition charge_members ::
  "string \<Rightarrow> partition_block \<Rightarrow> work_ledger \<Rightarrow> (strict_error, work_ledger) res" where
  "charge_members wh b = foldE (charge_text CertificateUnits wh) (pb_members b)"

definition charge_certificate_output ::
  "pystr list \<Rightarrow> pystr list \<Rightarrow> refinement_stage list \<Rightarrow> partition_block list \<Rightarrow> quotient_row list
   \<Rightarrow> distinguishing_witness list \<Rightarrow> work_ledger \<Rightarrow> (strict_error, work_ledger) res" where
  "charge_certificate_output bindings acts tr final rows ws l =
     bindE (foldE (charge_text CertificateUnits ''partition certificate binding'')
       (lit ''lean-rgc-odlrq-exact-partition-certificate-v1'' # bindings) l) (\<lambda>l.
     bindE (foldE (charge_text CertificateUnits ''partition certificate canonical action ID'') acts l) (\<lambda>l.
     bindE (foldE (\<lambda>st l. bindE (charge CertificateUnits (2 + int (length (rs_blocks st))) l)
       (foldE (charge_members ''partition certificate trace state ID'') (rs_blocks st))) tr l) (\<lambda>l.
     bindE (foldE (\<lambda>b l. bindE (charge CertificateUnits 1 l)
       (charge_members ''partition certificate final state ID'' b)) final l) (\<lambda>l.
     bindE (foldE (\<lambda>r l. bindE (charge CertificateUnits 2 l)
       (charge_text CertificateUnits ''partition certificate quotient action ID'' (qr_action r))) rows l) (\<lambda>l.
     foldE (\<lambda>w l. bindE (charge CertificateUnits 2 l)
       (foldE (charge_text CertificateUnits ''partition certificate witness action ID'') (dw_actions w))) ws l)))))"

definition refine_exact_partition ::
  "identity_binding \<Rightarrow> admitted_snapshot \<Rightarrow> (strict_error, partition_certificate) res" where
  "refine_exact_partition ib ad =
     (let s = as_snapshot ad in
      bindE (prepare_source ib ad new_ledger) (\<lambda>l.
      bindE (charge InitialPartition
        (state_count s * (coordinate_count s + 1) + action_count s) l) (\<lambda>l.
      bindE (response_partition s) (\<lambda>p0.
      bindE (mk_refinement_stage 0 False p0) (\<lambda>st0.
      bindE (refine_loop s (length (sn_states s) - 1) p0 [st0] l) (\<lambda>(bs, tr, l).
      bindE (charge Quotient (state_count s * action_count s) l) (\<lambda>l.
      bindE (producer_quotient s bs) (\<lambda>rows.
      bindE (produce_distinguishing_witnesses s bs rows l) (\<lambda>(ws, l).
      bindE (charge_certificate_output (source_bindings ad) (canonical_actions s) tr bs rows ws l) (\<lambda>l.
      bindE (counters_from_ledger l) (\<lambda>wc.
      bindE (mk_certificate \<lparr>pc_evidence_scope = SYNTHETIC_EVIDENCE_SCOPE,
        pc_snapshot_sha256 = ar_snapshot_sha256 (as_report ad),
        pc_domain_payload_digest = di_domain_payload_digest (sn_domain s),
        pc_observation_frame_digest = di_frame_digest (sn_domain s),
        pc_transition_semantics_digest = di_transition_semantics_digest (sn_domain s),
        pc_response_vocabulary_digest = sn_vocabulary_digest s,
        pc_action_alphabet_digest = di_action_alphabet_digest (sn_domain s),
        pc_action_ids = canonical_actions s, pc_trace = tr, pc_final_blocks = bs,
        pc_quotient_rows = rows, pc_witnesses = ws, pc_work_counters = wc,
        pc_fixed_point_passes = 1\<rparr>) (\<lambda>c.
      bindE (certificate_from_dict (certificate_to_dict c)) (\<lambda>c'.
      if c' \<noteq> c then Inl ''partition certificate failed its strict roundtrip''
      else Inr c')))))))))))))"

section \<open>Verifying a certificate\<close>

definition charge_verifier_relation_pass ::
  "finite_snapshot \<Rightarrow> partition_block list \<Rightarrow> work_ledger \<Rightarrow> (strict_error, work_ledger) res" where
  "charge_verifier_relation_pass s bs l = charge Refinement
     (sum_list (map (\<lambda>b. int (length (pb_members b)) ^ 2) bs) * (action_count s + coordinate_count s + 1)
       + int (length bs)) l"

text \<open>The loop over the certificate's stages after P0, and the final no-change pass.\<close>

definition verify_stage ::
  "finite_snapshot \<Rightarrow> refinement_stage \<Rightarrow> partition_block list \<times> work_ledger
   \<Rightarrow> (strict_error, partition_block list \<times> work_ledger) res" where
  "verify_stage s st cur =
     bindE (charge_verifier_relation_pass s (fst cur) (snd cur)) (\<lambda>l.
     bindE (verifier_relation_refinement s (fst cur)) (\<lambda>next.
     if length next \<le> length (fst cur) \<or> rs_blocks st \<noteq> next
       then Inl ''certificate strict refinement stage is missing, reordered, or incorrect''
     else Inr (next, l)))"

definition verify_quotient ::
  "finite_snapshot \<Rightarrow> partition_block list \<Rightarrow> (strict_error, quotient_row list) res" where
  "verify_quotient s bs =
     bindE (foldE (\<lambda>b rows.
       if length (remdups (map (response_of s) (pb_members b))) \<noteq> 1
         then Inl ''certificate final block is response-inhomogeneous''
       else bindE (mapE (quotient_row_of ''certificate quotient depends on a representative member'' s bs b)
           (canonical_actions s)) (\<lambda>new. Inr (rows @ new))) bs [])
       Inr"

definition recompute_producer_work_counters ::
  "int \<Rightarrow> finite_snapshot \<Rightarrow> partition_certificate \<Rightarrow> (strict_error, work_counters) res" where
  "recompute_producer_work_counters semantic s c =
     (let n = length (pc_final_blocks c) in
      bindE (charge SemanticInput semantic new_ledger) (\<lambda>l.
      bindE (charge SourceValidation (source_units s) l) (\<lambda>l.
      bindE (charge InitialPartition
        (state_count s * (coordinate_count s + 1) + action_count s) l) (\<lambda>l.
      bindE (foldE (\<lambda>st. charge_refinement_pass s (length (rs_blocks st))) (pc_trace c) l) (\<lambda>l.
      bindE (charge Quotient (state_count s * action_count s) l) (\<lambda>l.
      bindE (charge Distinguishing
        (int (n * (n - 1) div 2) * (action_count s + coordinate_count s + 1)) l) (\<lambda>l.
      bindE (charge Distinguishing
        (word_charge (action_count s) (map (length \<circ> dw_actions) (pc_witnesses c))) l) (\<lambda>l.
      bindE (charge_certificate_output (certificate_bindings c) (pc_action_ids c) (pc_trace c)
        (pc_final_blocks c) (pc_quotient_rows c) (pc_witnesses c) l) counters_from_ledger))))))))"

text \<open>
  \<^verbatim>\<open>_verify_exact_partition_core\<close> up to the report: the value is the verifier's ledger. What
  follows in the source builds the report from it.
\<close>

definition verify_exact_partition_core ::
  "identity_binding \<Rightarrow> admitted_snapshot \<Rightarrow> partition_certificate \<Rightarrow> (strict_error, work_ledger) res" where
  "verify_exact_partition_core ib ad c =
     (let s = as_snapshot ad in
      bindE (prepare_source ib ad new_ledger) (\<lambda>l.
      bindE (preflight_shape c (Some l)) (\<lambda>lo.
      bindE (charge_certificate_output (certificate_bindings c) (pc_action_ids c) (pc_trace c)
        (pc_final_blocks c) (pc_quotient_rows c) (pc_witnesses c) (the lo)) (\<lambda>l.
      bindE (charge InitialPartition
        (state_count s * (coordinate_count s + 1) + action_count s) l) (\<lambda>l.
      bindE (certificate_from_dict (certificate_to_dict c)) (\<lambda>c'.
      if c' \<noteq> c then Inl ''partition certificate failed strict roundtrip''
      else if certificate_bindings c \<noteq> source_bindings ad
        then Inl ''partition certificate source binding mismatch''
      else if pc_action_ids c \<noteq> canonical_actions s
        then Inl ''certificate action order is not semantic CanonicalPayload order''
      else
      bindE (response_partition s) (\<lambda>p0.
      if rs_blocks (hd (pc_trace c)) \<noteq> p0
        then Inl ''certificate P0 is not the exact response partition''
      else
      bindE (foldE (verify_stage s) (tl (pc_trace c)) (p0, l)) (\<lambda>(bs, l).
      bindE (charge_verifier_relation_pass s bs l) (\<lambda>l.
      bindE (verifier_relation_refinement s bs) (\<lambda>fixed.
      if fixed \<noteq> bs \<or> pc_fixed_point_passes c \<noteq> 1
        then Inl ''certificate does not terminate in exactly one verified no-change pass''
      else if pc_final_blocks c \<noteq> bs then Inl ''certificate final blocks do not match refinement''
      else
      bindE (charge Quotient (state_count s * action_count s) l) (\<lambda>l.
      bindE (verify_quotient s bs) (\<lambda>rows.
      if pc_quotient_rows c \<noteq> rows then Inl ''certificate full-member quotient table is incorrect''
      else
      bindE (verify_distinguishing_words s bs l) (\<lambda>(ws, l).
      if pc_witnesses c \<noteq> ws
        then Inl ''certificate witness is not shortest semantic-action-lexicographic''
      else
      bindE (recompute_producer_work_counters (semantic_input_units l) s c) (\<lambda>wc.
      if pc_work_counters c \<noteq> wc then Inl ''certificate producer work counters are incorrect''
      else Inr l))))))))))))))"

end
