(* ===== verification/PartitionGroups.thy ===== *)
theory PartitionGroups
  imports PartitionRefine "HOL-Library.Multiset"
begin

text \<open>
  Lists of groups as partitions. Both refinement passes split every group by a signature; what
  they share is the contract of the locale \<open>grouping\<close>, which the producer's hash buckets and the
  verifier's greedy relation classes both meet. A canonical list of groups is determined by the
  relation it represents, so the two passes compute the same blocks.
\<close>

section \<open>Partitions and the relation they represent\<close>

definition is_partition :: "'s set \<Rightarrow> 's list list \<Rightarrow> bool" where
  "is_partition Q gs \<longleftrightarrow> distinct (concat gs) \<and> set (concat gs) = Q \<and> [] \<notin> set gs"

definition same_group :: "'s list list \<Rightarrow> 's \<Rightarrow> 's \<Rightarrow> bool" where
  "same_group gs x y \<longleftrightarrow> (\<exists>g \<in> set gs. x \<in> set g \<and> y \<in> set g)"

definition canonical_list :: "('s \<Rightarrow> 'k::linorder) \<Rightarrow> 's list list \<Rightarrow> bool" where
  "canonical_list key gs \<longleftrightarrow> (\<forall>g \<in> set gs. sorted_wrt (<) (map key g))
     \<and> sorted_wrt (<) (map (map key) gs)"

lemma partition_group:
  assumes "is_partition Q gs" and "g \<in> set gs" "h \<in> set gs" "x \<in> set g" "x \<in> set h"
  shows "g = h"
proof -
  from assms(1) have "distinct (concat gs)" by (simp add: is_partition_def)
  then have "g = h \<or> set g \<inter> set h = {}"
    using assms(2,3) by (auto simp: distinct_concat_iff)
  with assms(4,5) show ?thesis by auto
qed

lemma partition_mem:
  assumes "is_partition Q gs"
  shows "x \<in> Q \<longleftrightarrow> (\<exists>g \<in> set gs. x \<in> set g)"
  using assms by (auto simp: is_partition_def)

lemma partition_class:
  assumes "is_partition Q gs" and "g \<in> set gs" and "x \<in> set g"
  shows "set g = {y. same_group gs x y}"
  using partition_group [OF assms(1)] assms(2,3) by (auto simp: same_group_def)

lemma canonical_subset:
  assumes p: "is_partition Q gs" "is_partition Q hs"
    and c: "canonical_list key gs" "canonical_list key hs" and inj: "inj_on key Q"
    and same: "\<And>x y. x \<in> Q \<Longrightarrow> y \<in> Q \<Longrightarrow> same_group gs x y \<longleftrightarrow> same_group hs x y"
  shows "set gs \<subseteq> set hs"
proof
  fix g assume g: "g \<in> set gs"
  then have "g \<noteq> []" using p(1) by (auto simp: is_partition_def)
  then obtain x where x: "x \<in> set g" by (meson hd_in_set)
  then have Q: "x \<in> Q" using g p(1) by (auto simp: is_partition_def)
  then obtain h where h: "h \<in> set hs" "x \<in> set h" using partition_mem [OF p(2)] by auto
  have "set g \<subseteq> Q" "set h \<subseteq> Q" using g h p by (auto simp: is_partition_def)
  then have sets: "set g = set h"
    using partition_class [OF p(1) g x] partition_class [OF p(2) h] same Q
    by (metis (mono_tags, lifting) Collect_cong mem_Collect_eq subset_iff set_eq_subset)
  have "map key g = map key h"
    using c g h sets by (intro strict_sorted_equal) (auto simp: canonical_list_def)
  then have "g = h" using inj \<open>set g \<subseteq> Q\<close> sets by (metis inj_on_map_eq_map inj_on_subset sup.idem)
  with h show "g \<in> set hs" by simp
qed

lemma canonical_unique:
  assumes p: "is_partition Q gs" "is_partition Q hs"
    and c: "canonical_list key gs" "canonical_list key hs" and inj: "inj_on key Q"
    and same: "\<And>x y. x \<in> Q \<Longrightarrow> y \<in> Q \<Longrightarrow> same_group gs x y \<longleftrightarrow> same_group hs x y"
  shows "gs = hs"
proof -
  have sets: "set gs = set hs"
    using canonical_subset [OF p c inj same] canonical_subset [OF p(2,1) c(2,1) inj] same by blast
  have keys: "map (map key) gs = map (map key) hs"
    using c sets by (intro strict_sorted_equal) (auto simp: canonical_list_def)
  have "inj_on (map key) (set gs)"
    by (rule inj_onI) (use p(1) inj in \<open>auto simp: is_partition_def intro!: map_inj_on [of key] elim!: inj_on_subset\<close>)
  then show ?thesis using keys sets by (simp add: inj_on_map_eq_map)
qed

section \<open>Canonical order\<close>

lemma canonical_groups_sets:
  "set (concat (canonical_groups key gs)) = set (concat gs)"
  "length (canonical_groups key gs) = length gs"
  "same_group (canonical_groups key gs) x y \<longleftrightarrow> same_group gs x y"
  by (auto simp: canonical_groups_def same_group_def)

lemma mset_concat_sort_key:
  fixes f :: "'a list \<Rightarrow> 'c::linorder"
  shows "mset (concat (sort_key f hs)) = mset (concat hs)"
proof -
  have "mset (concat (sort_key f hs)) = \<Sum>\<^sub># (image_mset mset (mset (sort_key f hs)))"
    by (simp only: mset_concat mset_map [symmetric] sum_mset_sum_list)
  also have "\<dots> = mset (concat hs)"
    by (simp only: mset_sort mset_concat mset_map [symmetric] sum_mset_sum_list)
  finally show ?thesis .
qed

lemma mset_concat_canonical:
  fixes key :: "'s \<Rightarrow> 'k::linorder"
  shows "mset (concat (canonical_groups key gs)) = mset (concat gs)"
proof -
  have "mset (concat (map (sort_key key) gs)) = mset (concat gs)"
    by (induction gs) auto
  then show ?thesis
    by (simp add: canonical_groups_def mset_concat_sort_key)
qed

lemma canonical_groups_partition:
  fixes key :: "'s \<Rightarrow> 'k::linorder"
  assumes "is_partition Q gs"
  shows "is_partition Q (canonical_groups key gs)"
proof -
  have "distinct (concat (canonical_groups key gs))"
    using assms mset_eq_imp_distinct_iff [OF mset_concat_canonical [of key gs]]
    by (simp add: is_partition_def)
  moreover have "[] \<notin> set (canonical_groups key gs)"
    using assms by (auto simp: is_partition_def canonical_groups_def image_iff)
      (metis length_0_conv length_sort)
  ultimately show ?thesis
    using assms canonical_groups_sets(1) [of key gs] by (simp add: is_partition_def)
qed

lemma canonical_groups_canonical:
  fixes key :: "'s \<Rightarrow> 'k::linorder"
  assumes p: "is_partition Q gs" and inj: "inj_on key Q"
  shows "canonical_list key (canonical_groups key gs)"
proof -
  let ?cs = "canonical_groups key gs"
  note pc = canonical_groups_partition [OF p, of key]
  have members: "sorted_wrt (<) (map key g)" if "g \<in> set ?cs" for g
  proof -
    from that obtain h where "h \<in> set gs" "g = sort_key key h" by (auto simp: canonical_groups_def)
    then have "sorted (map key g)" by simp
    moreover have "distinct g" "set g \<subseteq> Q" using pc that by (auto simp: is_partition_def distinct_concat_iff)
    then have "distinct (map key g)" using inj by (auto simp: distinct_map intro: inj_on_subset)
    ultimately show ?thesis by (simp add: strict_sorted_iff)
  qed
  have "distinct ?cs" using pc by (auto simp: is_partition_def distinct_concat_iff removeAll_id)
  moreover have "inj_on (map key) (set ?cs)"
    by (rule inj_onI) (use pc inj in \<open>auto simp: is_partition_def intro!: map_inj_on [of key] elim!: inj_on_subset\<close>)
  ultimately have "distinct (map (map key) ?cs)" by (simp add: distinct_map)
  moreover have "sorted (map (map key) ?cs)" by (simp add: canonical_groups_def)
  ultimately show ?thesis using members by (simp add: canonical_list_def strict_sorted_iff)
qed

section \<open>The contract of a splitting pass\<close>

text \<open>
  What both passes promise about one block: nothing is lost or added, no class is empty, and two
  members share a class exactly when they are related.
\<close>

definition split_all :: "('s list \<Rightarrow> 's list list) \<Rightarrow> 's list list \<Rightarrow> 's list list" where
  "split_all f gs = concat (map f gs)"

locale grouping =
  fixes split_block :: "'s list \<Rightarrow> 's list list" and related :: "'s \<Rightarrow> 's \<Rightarrow> bool"
  assumes keeps: "mset (concat (split_block xs)) = mset xs"
    and nonempty: "[] \<notin> set (split_block xs)"
    and homogeneous: "g \<in> set (split_block xs) \<Longrightarrow> x \<in> set g \<Longrightarrow> y \<in> set g \<Longrightarrow> related x y"
    and separated: "g \<in> set (split_block xs) \<Longrightarrow> h \<in> set (split_block xs) \<Longrightarrow> x \<in> set g \<Longrightarrow> y \<in> set h \<Longrightarrow>
      related x y \<Longrightarrow> g = h"
begin

lemma members [simp]: "set (concat (split_block xs)) = set xs"
  using mset_eq_setD [OF keeps] by simp

lemma mset_split_all: "mset (concat (split_all split_block gs)) = mset (concat gs)"
  by (induction gs) (auto simp: split_all_def keeps simp del: mset_concat)

lemma split_all_partition: "is_partition Q gs \<Longrightarrow> is_partition Q (split_all split_block gs)"
  using mset_split_all [of gs] nonempty mset_eq_setD [OF mset_split_all [of gs]]
  by (auto simp: is_partition_def split_all_def dest: mset_eq_imp_distinct_iff)

lemma split_all_same:
  assumes p: "is_partition Q gs"
  shows "same_group (split_all split_block gs) x y \<longleftrightarrow> same_group gs x y \<and> related x y"
proof
  assume "same_group (split_all split_block gs) x y"
  then obtain b g where b: "b \<in> set gs" and g: "g \<in> set (split_block b)" "x \<in> set g" "y \<in> set g"
    by (auto simp: same_group_def split_all_def)
  have "set g \<subseteq> set b" using members [of b] g(1) by auto
  with b g show "same_group gs x y \<and> related x y"
    by (auto simp: same_group_def intro: homogeneous)
next
  assume "same_group gs x y \<and> related x y"
  then obtain b where b: "b \<in> set gs" "x \<in> set b" "y \<in> set b" and r: "related x y"
    by (auto simp: same_group_def)
  from b members [of b] obtain g h where "g \<in> set (split_block b)" "x \<in> set g"
    "h \<in> set (split_block b)" "y \<in> set h" by (metis in_set_conv_nth set_concat UN_E)
  with separated [OF this(1,3,2,4) r] b show "same_group (split_all split_block gs) x y"
    by (auto simp: same_group_def split_all_def)
qed

end

section \<open>The producer's buckets and the verifier's classes\<close>

definition buckets_ok :: "('s \<Rightarrow> 'g) \<Rightarrow> ('g, 's list) dict \<Rightarrow> bool" where
  "buckets_ok sig d \<longleftrightarrow> dict_ok d \<and> (\<forall>(k, g) \<in> set d. g \<noteq> [] \<and> (\<forall>x \<in> set g. sig x = k))"

abbreviation add_bucket :: "('s \<Rightarrow> 'g) \<Rightarrow> ('g, 's list) dict \<Rightarrow> 's \<Rightarrow> ('g, 's list) dict" where
  "add_bucket sig d x \<equiv> dset (sig x) ((case dget d (sig x) of Some g \<Rightarrow> g | None \<Rightarrow> []) @ [x]) d"

lemma mset_bucket:
  "mset (concat (map snd (dset k ((case dget d k of Some g \<Rightarrow> g | None \<Rightarrow> []) @ [x]) d)))
     = add_mset x (mset (concat (map snd d)))"
  by (induction d) (auto simp del: mset_concat)

lemma buckets_ok_get:
  "buckets_ok sig d \<Longrightarrow> dget d k = Some g \<Longrightarrow> g \<noteq> [] \<and> (\<forall>x \<in> set g. sig x = k)"
  by (drule map_of_SomeD) (auto simp: buckets_ok_def)

lemma buckets_okI:
  assumes "dict_ok d" and "\<And>k g. dget d k = Some g \<Longrightarrow> g \<noteq> [] \<and> (\<forall>x \<in> set g. sig x = k)"
  shows "buckets_ok sig d"
  using assms by (fastforce simp: buckets_ok_def dict_ok_get)

lemma add_bucket_ok:
  assumes "buckets_ok sig d"
  shows "buckets_ok sig (add_bucket sig d x)"
proof (rule buckets_okI)
  show "dict_ok (add_bucket sig d x)" using assms by (simp add: buckets_ok_def dict_ok_dset)
  show "g \<noteq> [] \<and> (\<forall>y \<in> set g. sig y = k)" if "dget (add_bucket sig d x) k = Some g" for k g
    using that buckets_ok_get [OF assms]
    by (cases "k = sig x"; cases "dget d (sig x)") (force simp: dget_dset)+
qed

lemma buckets_ok_fold: "buckets_ok sig d \<Longrightarrow> buckets_ok sig (foldl (add_bucket sig) d xs)"
  by (induction xs arbitrary: d) (simp_all add: add_bucket_ok)

lemma mset_buckets:
  "mset (concat (map snd (foldl (add_bucket sig) d xs))) = mset (concat (map snd d)) + mset xs"
  by (induction xs arbitrary: d) (simp_all add: mset_bucket del: mset_concat)

lemma group_by_ok: "buckets_ok sig (foldl (add_bucket sig) [] xs)"
  by (intro buckets_ok_fold) (simp add: buckets_ok_def)

lemma group_by_entry:
  assumes "g \<in> set (group_by sig xs)"
  obtains k where "g \<noteq> []" and "dget (foldl (add_bucket sig) [] xs) k = Some g"
    and "\<And>x. x \<in> set g \<Longrightarrow> sig x = k"
proof -
  from assms obtain k where k: "(k, g) \<in> set (foldl (add_bucket sig) [] xs)"
    unfolding group_by_def by auto
  have "dict_ok (foldl (add_bucket sig) [] xs)" using group_by_ok [of sig xs] by (simp only: buckets_ok_def)
  from dict_ok_get [OF this] k have "dget (foldl (add_bucket sig) [] xs) k = Some g" by (rule iffD1)
  with buckets_ok_get [OF group_by_ok this] that show thesis by auto
qed

interpretation producer: grouping "group_by sig" "\<lambda>x y. sig x = sig y" for sig
proof unfold_locales
  show "mset (concat (group_by sig xs)) = mset xs" for xs
    using mset_buckets [of sig "[]" xs] by (simp add: group_by_def)
  show "[] \<notin> set (group_by sig xs)" for xs by (auto elim: group_by_entry)
  show "sig x = sig y" if "g \<in> set (group_by sig xs)" "x \<in> set g" "y \<in> set g" for g xs x y
    by (rule group_by_entry [OF that(1)]) (simp add: that(2,3))
  show "g = h" if "g \<in> set (group_by sig xs)" "h \<in> set (group_by sig xs)" "x \<in> set g" "y \<in> set h"
    "sig x = sig y" for g h xs x y
  proof -
    obtain k where k: "dget (foldl (add_bucket sig) [] xs) k = Some g" "\<And>z. z \<in> set g \<Longrightarrow> sig z = k"
      by (rule group_by_entry [OF \<open>g \<in> _\<close>]) blast
    obtain l where l: "dget (foldl (add_bucket sig) [] xs) l = Some h" "\<And>z. z \<in> set h \<Longrightarrow> sig z = l"
      by (rule group_by_entry [OF \<open>h \<in> _\<close>]) blast
    from k(2) [OF that(3)] l(2) [OF that(4)] that(5) have "k = l" by simp
    with k(1) l(1) show ?thesis by simp
  qed
qed

abbreviation (input) same_sig :: "('s \<Rightarrow> 'g) \<Rightarrow> 's \<Rightarrow> 's \<Rightarrow> bool" where
  "same_sig sig \<equiv> (\<lambda>x y. sig x = sig y)"

text \<open>
  Comparing with a class representative finds the class that hashing the signature finds: for
  equality of signatures the verifier's scan keeps the producer's buckets.
\<close>

lemma insert_class_bucket:
  "buckets_ok sig d \<Longrightarrow> insert_class (same_sig sig) x (map snd d) = map snd (add_bucket sig d x)"
proof (induction d)
  case (Cons e d)
  obtain k g where e: "e = (k, g)" by (cases e)
  have "buckets_ok sig d" using Cons.prems by (simp add: buckets_ok_def dict_ok_def)
  moreover have "sig (hd g) = k" using Cons.prems e by (simp add: buckets_ok_def)
  ultimately show ?case using Cons.IH e by auto
qed simp

lemma classes_are_buckets: "relation_classes (same_sig sig) xs = group_by sig xs"
proof -
  have "foldl (\<lambda>cs x. insert_class (same_sig sig) x cs) (map snd d) xs
      = map snd (foldl (add_bucket sig) d xs)" if "buckets_ok sig d" for d
    using that
  proof (induction xs arbitrary: d)
    case (Cons x xs)
    then show ?case
      by (simp only: foldl_Cons insert_class_bucket [OF Cons.prems] Cons.IH [OF add_bucket_ok])
  qed simp
  from this [of "[]"] show ?thesis
    by (simp add: relation_classes_def group_by_def buckets_ok_def)
qed

interpretation verifier: grouping "relation_classes (same_sig sig)" "same_sig sig" for sig
  unfolding classes_are_buckets by (rule producer.grouping_axioms)

end
