(* ===== verification/PartitionMoore.thy ===== *)
theory PartitionMoore
  imports PartitionGroups
begin

text \<open>
  Why signature refinement computes the coarsest partition with equal responses: the partition
  after k strict rounds is equality of responses on all words of length at most k, a pass that
  changes nothing settles all words, and every other pass adds a block, so at most n - 1 of them
  happen. The machine here is any step and response function; the section on snapshots supplies
  the code's.
\<close>

section \<open>Responses of a machine on words\<close>

definition agree :: "'a set \<Rightarrow> ('s \<Rightarrow> 'a \<Rightarrow> 's) \<Rightarrow> ('s \<Rightarrow> 'r) \<Rightarrow> nat \<Rightarrow> 's \<Rightarrow> 's \<Rightarrow> bool" where
  "agree A step resp k x y \<longleftrightarrow>
     (\<forall>w. set w \<subseteq> A \<and> length w \<le> k \<longrightarrow> resp (foldl step x w) = resp (foldl step y w))"

definition indistinguishable :: "'a set \<Rightarrow> ('s \<Rightarrow> 'a \<Rightarrow> 's) \<Rightarrow> ('s \<Rightarrow> 'r) \<Rightarrow> 's \<Rightarrow> 's \<Rightarrow> bool" where
  "indistinguishable A step resp x y \<longleftrightarrow>
     (\<forall>w. set w \<subseteq> A \<longrightarrow> resp (foldl step x w) = resp (foldl step y w))"

lemma agree_0: "agree A step resp 0 x y \<longleftrightarrow> resp x = resp y"
  by (auto simp: agree_def)

lemma agree_Suc:
  "agree A step resp (Suc k) x y \<longleftrightarrow>
     resp x = resp y \<and> (\<forall>a \<in> A. agree A step resp k (step x a) (step y a))" (is "?l \<longleftrightarrow> ?r")
proof
  assume l: ?l
  have "resp (foldl step (step x a) w) = resp (foldl step (step y a) w)"
    if "a \<in> A" "set w \<subseteq> A" "length w \<le> k" for a w
    using that l [unfolded agree_def, rule_format, of "a # w"] by simp
  moreover have "resp x = resp y" using l [unfolded agree_def, rule_format, of "[]"] by simp
  ultimately show ?r by (simp add: agree_def)
next
  assume r: ?r
  have "resp (foldl step x w) = resp (foldl step y w)" if "set w \<subseteq> A" "length w \<le> Suc k" for w
    using that r by (cases w) (auto simp: agree_def)
  then show ?l by (simp add: agree_def)
qed

lemma agree_mono: "agree A step resp k x y \<Longrightarrow> j \<le> k \<Longrightarrow> agree A step resp j x y"
  by (auto simp: agree_def)

lemma agree_all: "indistinguishable A step resp x y \<longleftrightarrow> (\<forall>k. agree A step resp k x y)"
  by (auto simp: indistinguishable_def agree_def)

lemma agree_fixed:
  assumes closed: "\<And>x a. x \<in> Q \<Longrightarrow> a \<in> A \<Longrightarrow> step x a \<in> Q"
    and fixed: "\<And>x y. x \<in> Q \<Longrightarrow> y \<in> Q \<Longrightarrow> agree A step resp k x y \<Longrightarrow> agree A step resp (Suc k) x y"
    and "x \<in> Q" "y \<in> Q"
  shows "indistinguishable A step resp x y \<longleftrightarrow> agree A step resp k x y"
proof
  assume k: "agree A step resp k x y"
  have "agree A step resp (k + j) x y" if "x \<in> Q" "y \<in> Q" "agree A step resp k x y" for j x y
    using that
  proof (induction j arbitrary: x y)
    case (Suc j)
    with fixed [OF Suc.prems] closed show ?case by (simp add: agree_Suc)
  qed simp
  from this [OF assms(3,4) k] show "indistinguishable A step resp x y"
    unfolding agree_all by (metis agree_mono le_add2)
qed (simp add: agree_all)

text \<open>Indistinguishability is the coarsest relation that respects responses and steps.\<close>

definition response_congruence :: "'s set \<Rightarrow> 'a set \<Rightarrow> ('s \<Rightarrow> 'a \<Rightarrow> 's) \<Rightarrow> ('s \<Rightarrow> 'r) \<Rightarrow> ('s \<Rightarrow> 's \<Rightarrow> bool) \<Rightarrow> bool" where
  "response_congruence Q A step resp rel \<longleftrightarrow>
     (\<forall>x \<in> Q. \<forall>y \<in> Q. rel x y \<longrightarrow> resp x = resp y \<and> (\<forall>a \<in> A. rel (step x a) (step y a)))"

lemma congruence_indistinguishable:
  assumes "response_congruence Q A step resp rel"
    and closed: "\<And>x a. x \<in> Q \<Longrightarrow> a \<in> A \<Longrightarrow> step x a \<in> Q"
    and "x \<in> Q" "y \<in> Q" "rel x y"
  shows "indistinguishable A step resp x y"
proof -
  have "set w \<subseteq> A \<Longrightarrow> resp (foldl step x w) = resp (foldl step y w)" for w
    using assms(3-5)
  proof (induction w arbitrary: x y)
    case Nil
    with assms(1) show ?case by (simp add: response_congruence_def)
  next
    case (Cons a w)
    with assms(1) closed show ?case by (simp add: response_congruence_def)
  qed
  then show ?thesis by (simp add: indistinguishable_def)
qed

lemma indistinguishable_congruence:
  "response_congruence Q A step resp (indistinguishable A step resp)"
  unfolding response_congruence_def
proof (intro ballI impI conjI)
  fix x y assume i: "indistinguishable A step resp x y"
  then show "resp x = resp y" by (metis agree_all agree_0)
  show "indistinguishable A step resp (step x a) (step y a)" if "a \<in> A" for a
    using i that unfolding agree_all by (meson agree_Suc)
qed

section \<open>Splitting a partition\<close>

lemma partition_distinct: "is_partition Q gs \<Longrightarrow> distinct gs"
  by (auto simp: is_partition_def distinct_concat_iff removeAll_id)

lemma partition_length_le:
  assumes "is_partition Q gs"
  shows "length gs \<le> card Q"
proof -
  have "[] \<notin> set gs \<Longrightarrow> length gs \<le> length (concat gs)"
  proof (induction gs)
    case (Cons g gs)
    then show ?case by (cases g) auto
  qed simp
  then have "length gs \<le> length (concat gs)" using assms by (simp add: is_partition_def)
  also have "\<dots> = card Q" using assms by (metis distinct_card is_partition_def)
  finally show ?thesis .
qed

lemma same_group_refl: "is_partition Q gs \<Longrightarrow> x \<in> Q \<Longrightarrow> same_group gs x x"
  by (auto simp: same_group_def is_partition_def)

text \<open>A refinement has no fewer groups, and as many only when it is no refinement at all.\<close>

lemma refinement_split:
  assumes p: "is_partition Q gs" "is_partition Q hs"
    and ref: "\<And>x y. same_group hs x y \<Longrightarrow> same_group gs x y"
  shows "length gs \<le> length hs"
    and "length gs = length hs \<Longrightarrow> same_group gs x y \<Longrightarrow> same_group hs x y"
proof -
  define up where "up h = (THE g. g \<in> set gs \<and> hd h \<in> set g)" for h
  have up: "up h \<in> set gs \<and> x \<in> set (up h)" if h: "h \<in> set hs" and x: "x \<in> set h" for h x
  proof -
    from x have hd: "hd h \<in> set h" by (cases h) auto
    with h x ref have "same_group gs (hd h) x" by (auto simp: same_group_def)
    then obtain g where g: "g \<in> set gs" "hd h \<in> set g" "x \<in> set g" by (auto simp: same_group_def)
    then have "up h = g" unfolding up_def by (intro the_equality) (auto dest: partition_group [OF p(1)])
    with g show ?thesis by simp
  qed
  have surj: "up ` set hs = set gs"
  proof
    show "up ` set hs \<subseteq> set gs"
    proof (intro image_subsetI)
      fix h assume "h \<in> set hs"
      with p(2) have "h \<noteq> []" by (auto simp: is_partition_def)
      with up [OF \<open>h \<in> set hs\<close>, of "hd h"] show "up h \<in> set gs" by simp
    qed
    show "set gs \<subseteq> up ` set hs"
    proof
      fix g assume g: "g \<in> set gs"
      with p(1) have "g \<noteq> []" by (auto simp: is_partition_def)
      then have x: "hd g \<in> set g" by simp
      with g partition_mem [OF p(1)] partition_mem [OF p(2)]
      obtain h where h: "h \<in> set hs" "hd g \<in> set h" by metis
      have "up h = g" using up [OF h] partition_group [OF p(1) _ g _ x] by simp
      with h show "g \<in> up ` set hs" by auto
    qed
  qed
  have cards: "card (set gs) = length gs" "card (set hs) = length hs"
    using p by (auto intro: distinct_card partition_distinct)
  from card_image_le [of "set hs" up] surj cards show "length gs \<le> length hs" by simp
  assume eq: "length gs = length hs" and s: "same_group gs x y"
  then obtain g where g: "g \<in> set gs" "x \<in> set g" "y \<in> set g" by (auto simp: same_group_def)
  have inj: "inj_on up (set hs)" by (rule eq_card_imp_inj_on) (simp_all add: surj cards eq)
  obtain h k where hk: "h \<in> set hs" "x \<in> set h" "k \<in> set hs" "y \<in> set k"
    using g partition_mem [OF p(1)] partition_mem [OF p(2)] by metis
  have "up h = g" "up k = g"
    using up [OF hk(1,2)] up [OF hk(3,4)] partition_group [OF p(1)] g by blast+
  with inj hk(1,3) have "h = k" by (auto dest: inj_onD)
  with hk show "same_group hs x y" by (auto simp: same_group_def)
qed

end
