(* ===== verification/PartitionFixpoint.thy ===== *)
theory PartitionFixpoint
  imports PartitionMoore
begin

text \<open>
  The refinement of an admitted snapshot. What admission establishes (\<open>snapshot_ok\<close>), block lists
  as canonical partitions of the state identifiers, the passes as refinements from agreement on
  words of length k to length k + 1, and the loop: it ends within n - 1 strict rounds at the
  partition of indistinguishable states, and its internal errors do not happen.
\<close>

section \<open>What admission establishes\<close>

definition state_ids :: "finite_snapshot \<Rightarrow> pystr list" where
  "state_ids s = map ss_id (sn_states s)"

lemma length_state_ids [simp]: "length (state_ids s) = length (sn_states s)"
  by (simp add: state_ids_def)

definition snapshot_ok :: "finite_snapshot \<Rightarrow> bool" where
  "snapshot_ok s \<longleftrightarrow> 3 \<le> length (sn_states s) \<and> length (sn_states s) \<le> MAX_SYNTHETIC_TOTALIZED_STATES
     \<and> distinct (state_ids s) \<and> [] \<notin> set (state_ids s) \<and> distinct (map ss_payload (sn_states s))
     \<and> 1 \<le> length (sn_actions s) \<and> length (sn_actions s) \<le> MAX_SYNTHETIC_ACTIONS
     \<and> distinct (map sa_id (sn_actions s)) \<and> [] \<notin> set (map sa_id (sn_actions s))
     \<and> distinct (map sa_payload (sn_actions s))
     \<and> length (sn_states s) * length (sn_actions s) \<le> MAX_SYNTHETIC_TRANSITION_ROWS
     \<and> (\<forall>q \<in> set (state_ids s). \<forall>a \<in> set (canonical_actions s). target_of s q a \<in> set (state_ids s))
     \<and> (\<forall>st \<in> set (sn_states s). length (ss_coordinates st) = length (sn_coordinate_names s))"

lemma set_canonical_actions: "set (canonical_actions s) = set (map sa_id (sn_actions s))"
  by (simp add: canonical_actions_def)

lemma length_canonical_actions [simp]: "length (canonical_actions s) = length (sn_actions s)"
  by (simp add: canonical_actions_def)

lemma foldl_dset_get:
  "dget (foldl (\<lambda>d x. dset (k x) (v x) d) d xs) y
     = (case map_of (rev (map (\<lambda>x. (k x, v x)) xs)) y of Some z \<Rightarrow> Some z | None \<Rightarrow> dget d y)"
  by (induction xs arbitrary: d) (auto simp: map_add_def split: option.splits)

lemma foldl_dset_distinct:
  assumes "distinct (map k xs)" and "x \<in> set xs"
  shows "dget (foldl (\<lambda>d x. dset (k x) (v x) d) [] xs) (k x) = Some (v x)"
proof -
  have "distinct (map fst (rev (map (\<lambda>x. (k x, v x)) xs)))"
    using assms(1) by (simp add: rev_map [symmetric] comp_def)
  then have "map_of (rev (map (\<lambda>x. (k x, v x)) xs)) (k x) = Some (v x)"
    using assms(2) by (intro map_of_is_SomeI) auto
  then show ?thesis by (simp add: foldl_dset_get)
qed

lemma target_of_row:
  assumes "distinct (map (\<lambda>r. (tr_source r, tr_action r)) (sn_transitions s))" "r \<in> set (sn_transitions s)"
  shows "target_of s (tr_source r) (tr_action r) = tr_target r"
  using foldl_dset_distinct [OF assms, of tr_target] by (simp add: target_of_def transition_target_def)

lemma prefix_fixture_nonempty:
  "\<forall>x \<in> set xs. prefix SYNTHETIC_FIXTURE_ID_PREFIX (f x) \<Longrightarrow> [] \<notin> f ` set xs"
  by (fastforce simp: SYNTHETIC_FIXTURE_ID_PREFIX_def lit_def)

lemma count_checks_ok:
  assumes "count_checks s = Inr u"
  shows "3 \<le> length (sn_states s)" "length (sn_states s) \<le> MAX_SYNTHETIC_TOTALIZED_STATES"
    "1 \<le> length (sn_actions s)" "length (sn_actions s) \<le> MAX_SYNTHETIC_ACTIONS"
    "distinct (state_ids s)" "[] \<notin> set (state_ids s)" "distinct (map ss_payload (sn_states s))"
    "distinct (map sa_id (sn_actions s))" "[] \<notin> set (map sa_id (sn_actions s))"
    "distinct (map sa_payload (sn_actions s))"
    "length (sn_states s) * length (sn_actions s) \<le> MAX_SYNTHETIC_TRANSITION_ROWS"
  using assms
  by (simp_all add: count_checks_def Let_def list_ex_iff prefix_fixture_nonempty Suc_le_eq state_ids_def split: if_splits)

lemma table_total_checks_ok:
  assumes "table_total_checks s = Inr u"
  shows "distinct (map (\<lambda>r. (tr_source r, tr_action r)) (sn_transitions s))"
    "(\<lambda>r. (tr_source r, tr_action r)) ` set (sn_transitions s)
       = set (state_ids s) \<times> set (map sa_id (sn_actions s))"
  using assms by (simp_all add: table_total_checks_def Let_def state_ids_def split: if_splits)

lemma validate_ok:
  assumes "validate_synthetic_finite_snapshot ib s = Inr r"
  shows "snapshot_ok s"
proof -
  from assms have c: "count_checks s = Inr ()" and t: "table_total_checks s = Inr ()"
    and st: "\<forall>x \<in> set (sn_states s). state_check s x = Inr ()"
    and rows: "\<forall>x \<in> set (sn_transitions s). row_check s x = Inr ()"
    by (auto simp: validate_synthetic_finite_snapshot_def bindE_eq_Inr foldE_unit_all)
  note counts = count_checks_ok [OF c] and total = table_total_checks_ok [OF t]
  have closed: "target_of s q a \<in> set (state_ids s)"
    if "q \<in> set (state_ids s)" "a \<in> set (map sa_id (sn_actions s))" for q a
  proof -
    from that total(2) have "(q, a) \<in> (\<lambda>r. (tr_source r, tr_action r)) ` set (sn_transitions s)" by simp
    then obtain r where r: "r \<in> set (sn_transitions s)" "q = tr_source r" "a = tr_action r" by auto
    with rows have "tr_target r \<in> ss_id ` set (sn_states s)" by (auto simp: row_check_def split: if_splits)
    with target_of_row [OF total(1) r(1)] r show ?thesis by (simp add: state_ids_def)
  qed
  have "length (ss_coordinates x) = length (sn_coordinate_names s)" if "x \<in> set (sn_states s)" for x
    using st that by (auto simp: state_check_def split: if_splits)
  then show ?thesis
    unfolding snapshot_ok_def using counts closed by (simp add: set_canonical_actions)
qed

lemma prepare_source_ok:
  assumes "prepare_source ib ad l = Inr l'"
  shows "snapshot_ok (as_snapshot ad)"
  using assms by (auto simp: prepare_source_def bindE_eq_Inr split: if_splits intro: validate_ok)

lemma find_state_id: "snapshot_ok s \<Longrightarrow> st \<in> set (sn_states s) \<Longrightarrow> find_state s (ss_id st) = Some st"
  unfolding find_state_def by (intro map_of_is_SomeI) (auto simp: snapshot_ok_def state_ids_def comp_def)

lemma payload_key_inj:
  assumes "snapshot_ok s"
  shows "inj_on (payload_key s) (set (state_ids s))"
proof (rule inj_onI)
  fix q r assume "q \<in> set (state_ids s)" "r \<in> set (state_ids s)" "payload_key s q = payload_key s r"
  then obtain x y where xy: "x \<in> set (sn_states s)" "y \<in> set (sn_states s)" "q = ss_id x" "r = ss_id y"
    by (auto simp: state_ids_def)
  with \<open>payload_key s q = payload_key s r\<close> assms have "ss_payload x = ss_payload y"
    by (simp add: payload_key_def find_state_id)
  with xy assms show "q = r" by (auto simp: snapshot_ok_def distinct_map dest: inj_onD)
qed

lemma state_ids_nonempty: "snapshot_ok s \<Longrightarrow> state_ids s \<noteq> []"
  by (auto simp: snapshot_ok_def state_ids_def)

lemma card_state_ids: "snapshot_ok s \<Longrightarrow> card (set (state_ids s)) = length (sn_states s)"
  using distinct_card [of "state_ids s"] by (simp add: snapshot_ok_def)

section \<open>Block lists as partitions\<close>

abbreviation groups_of :: "partition_block list \<Rightarrow> pystr list list" where
  "groups_of bs \<equiv> map pb_members bs"

definition number_blocks :: "pystr list list \<Rightarrow> partition_block list" where
  "number_blocks gs = map (\<lambda>(i, g). \<lparr>pb_index = int i, pb_members = g\<rparr>) (enumerate 0 gs)"

definition blocks_ok :: "finite_snapshot \<Rightarrow> partition_block list \<Rightarrow> bool" where
  "blocks_ok s bs \<longleftrightarrow> bs = number_blocks (groups_of bs)
     \<and> is_partition (set (state_ids s)) (groups_of bs) \<and> canonical_list (payload_key s) (groups_of bs)"

lemma number_blocks_simps [simp]:
  "length (number_blocks gs) = length gs" "groups_of (number_blocks gs) = gs"
  "i < length gs \<Longrightarrow> number_blocks gs ! i = \<lparr>pb_index = int i, pb_members = gs ! i\<rparr>"
  "map pb_index (number_blocks gs) = map int [0..<length gs]"
  by (auto simp: number_blocks_def nth_enumerate_eq enumerate_eq_zip intro: nth_equalityI)

lemma blocks_ok_numbering: "blocks_ok s bs \<Longrightarrow> block_numbering_ok bs"
  unfolding blocks_ok_def block_numbering_ok_def by (metis length_map number_blocks_simps(4))

lemma blocks_ok_nth: "blocks_ok s bs \<Longrightarrow> i < length bs \<Longrightarrow> pb_index (bs ! i) = int i"
  unfolding blocks_ok_def by (metis length_map number_blocks_simps(3) partition_block.select_convs(1))

lemma blocks_ok_unique:
  assumes ok: "blocks_ok s bs" "blocks_ok s cs" and s: "snapshot_ok s"
    and same: "\<And>x y. x \<in> set (state_ids s) \<Longrightarrow> y \<in> set (state_ids s) \<Longrightarrow>
      same_group (groups_of bs) x y \<longleftrightarrow> same_group (groups_of cs) x y"
  shows "bs = cs"
proof -
  have "groups_of bs = groups_of cs"
    using ok canonical_unique [OF _ _ _ _ payload_key_inj [OF s] same] by (simp add: blocks_ok_def)
  with ok show ?thesis by (metis blocks_ok_def)
qed

lemma partition_member:
  assumes "is_partition Q gs" "g \<in> set gs"
  shows "g \<noteq> []" "distinct g" "set g \<subseteq> Q" "length g \<le> card Q"
proof -
  show "g \<noteq> []" "distinct g" "set g \<subseteq> Q" using assms by (auto simp: is_partition_def distinct_concat_iff)
  moreover have "finite Q" using assms(1) by (auto simp: is_partition_def)
  ultimately show "length g \<le> card Q" by (metis card_mono distinct_card)
qed

lemma blocks_ok_length:
  assumes "blocks_ok s bs" and "snapshot_ok s"
  shows "length bs \<le> length (sn_states s)" and "bs \<noteq> []"
proof -
  have p: "is_partition (set (state_ids s)) (groups_of bs)" using assms(1) by (simp add: blocks_ok_def)
  from partition_length_le [OF p] show "length bs \<le> length (sn_states s)"
    unfolding card_state_ids [OF assms(2)] by simp
  have "set (state_ids s) \<noteq> {}" using state_ids_nonempty [OF assms(2)] by simp
  with p show "bs \<noteq> []" by (auto simp: is_partition_def)
qed

lemma canonical_blocks_ok:
  assumes s: "snapshot_ok s" and p: "is_partition (set (state_ids s)) gs"
  obtains bs where "canonical_blocks (payload_key s) gs = Inr bs" "blocks_ok s bs"
    "\<And>x y. same_group (groups_of bs) x y \<longleftrightarrow> same_group gs x y"
proof -
  let ?cs = "canonical_groups (payload_key s) gs"
  note pc = canonical_groups_partition [OF p, of "payload_key s"]
  have n: "length (sn_states s) \<le> 128" using s by (simp add: snapshot_ok_def caps)
  have block: "mk_partition_block (int i) g = Inr \<lparr>pb_index = int i, pb_members = g\<rparr>"
    if "(i, g) \<in> set (enumerate 0 ?cs)" for i g
  proof -
    from that have ig: "i < length ?cs" "g \<in> set ?cs" by (auto simp: in_set_enumerate_eq)
    note g = partition_member [OF pc ig(2)] and len = partition_length_le [OF pc]
    from ig(1) len n have "int i \<le> MAX_SIGNED_64" unfolding card_state_ids [OF s] by (simp add: caps)
    moreover have "[] \<notin> set g" using g(3) s by (auto simp: snapshot_ok_def)
    ultimately show ?thesis
      using g(1,2,4) n unfolding card_state_ids [OF s]
      by (simp add: mk_partition_block_def bounded_int_def len_remdups caps)
  qed
  have run: "canonical_blocks (payload_key s) gs = Inr (number_blocks ?cs)"
    using block by (simp add: canonical_blocks_def number_blocks_def mapE_eq_Inr list_all2_map2
        list.rel_refl_strong case_prod_unfold split_beta)
  show thesis
    using that [OF run] pc canonical_groups_canonical [OF p payload_key_inj [OF s]]
    by (simp add: blocks_ok_def canonical_groups_sets)
qed

text \<open>Two states have the same owner exactly when they share a block.\<close>

lemma owner_of_block:
  assumes ok: "blocks_ok s bs" and i: "i < length bs" "q \<in> set (pb_members (bs ! i))"
  shows "owner_of bs q = int i"
proof -
  let ?xs = "concat (map (\<lambda>b. map (Pair (pb_index b)) (pb_members b)) bs)"
  have "map snd ?xs = concat (groups_of bs)" by (simp add: map_concat comp_def)
  then have "distinct (map snd ?xs)" using ok by (simp add: blocks_ok_def is_partition_def)
  moreover have "(int i, q) \<in> set ?xs"
    using i blocks_ok_nth [OF ok i(1)] nth_mem [OF i(1)] by force
  ultimately have "dget (foldl (\<lambda>d x. dset (snd x) (fst x) d) [] ?xs) q = Some (int i)"
    using foldl_dset_distinct [of snd ?xs "(int i, q)" fst] by simp
  then show ?thesis
    by (simp add: owner_of_def block_owner_def stage_owner_def case_prod_unfold)
qed

lemma block_index_of:
  assumes "blocks_ok s bs" "q \<in> set (state_ids s)"
  obtains i where "i < length bs" "q \<in> set (pb_members (bs ! i))" "owner_of bs q = int i"
proof -
  have "\<exists>b \<in> set bs. q \<in> set (pb_members b)"
    using assms partition_mem [of "set (state_ids s)" "groups_of bs" q] by (simp add: blocks_ok_def)
  then obtain i where i: "i < length bs" "q \<in> set (pb_members (bs ! i))" by (metis in_set_conv_nth)
  with owner_of_block [OF assms(1) i] that show thesis by simp
qed

lemma owner_of_same:
  assumes ok: "blocks_ok s bs" and "q \<in> set (state_ids s)" "r \<in> set (state_ids s)"
  shows "owner_of bs q = owner_of bs r \<longleftrightarrow> same_group (groups_of bs) q r"
proof -
  obtain i where i: "i < length bs" "q \<in> set (pb_members (bs ! i))" "owner_of bs q = int i"
    using block_index_of [OF assms(1,2)] .
  obtain j where j: "j < length bs" "r \<in> set (pb_members (bs ! j))" "owner_of bs r = int j"
    using block_index_of [OF assms(1,3)] .
  show ?thesis
  proof
    assume "owner_of bs q = owner_of bs r"
    with i j show "same_group (groups_of bs) q r" by (auto simp: same_group_def)
  next
    assume "same_group (groups_of bs) q r"
    then obtain b where "b \<in> set bs" "q \<in> set (pb_members b)" "r \<in> set (pb_members b)"
      by (auto simp: same_group_def)
    then obtain k where "k < length bs" "q \<in> set (pb_members (bs ! k))" "r \<in> set (pb_members (bs ! k))"
      by (metis in_set_conv_nth)
    then show "owner_of bs q = owner_of bs r" by (simp add: owner_of_block [OF ok])
  qed
qed

section \<open>The passes\<close>

abbreviation agree_words :: "finite_snapshot \<Rightarrow> nat \<Rightarrow> pystr \<Rightarrow> pystr \<Rightarrow> bool" where
  "agree_words s \<equiv> agree (set (canonical_actions s)) (target_of s) (response_of s)"

abbreviation same_behaviour :: "finite_snapshot \<Rightarrow> pystr \<Rightarrow> pystr \<Rightarrow> bool" where
  "same_behaviour s \<equiv> indistinguishable (set (canonical_actions s)) (target_of s) (response_of s)"

definition level :: "finite_snapshot \<Rightarrow> nat \<Rightarrow> partition_block list \<Rightarrow> bool" where
  "level s k bs \<longleftrightarrow> blocks_ok s bs
     \<and> (\<forall>x \<in> set (state_ids s). \<forall>y \<in> set (state_ids s).
          same_group (groups_of bs) x y \<longleftrightarrow> agree_words s k x y)"

lemma levelD:
  assumes "level s k bs"
  shows "blocks_ok s bs"
    and "x \<in> set (state_ids s) \<Longrightarrow> y \<in> set (state_ids s) \<Longrightarrow>
      same_group (groups_of bs) x y \<longleftrightarrow> agree_words s k x y"
  using assms by (auto simp: level_def)

lemma snapshot_closed:
  "snapshot_ok s \<Longrightarrow> q \<in> set (state_ids s) \<Longrightarrow> a \<in> set (canonical_actions s) \<Longrightarrow>
     target_of s q a \<in> set (state_ids s)"
  unfolding snapshot_ok_def by blast

lemma verifier_related_signature: "verifier_related s bs = same_sig (producer_signature s bs)"
  by (intro ext) (auto simp: verifier_related_def producer_signature_def list_all_iff)

lemma passes_equal: "verifier_relation_refinement s bs = producer_refinement_pass s bs"
  by (simp only: verifier_relation_refinement_def producer_refinement_pass_def
      verifier_related_signature classes_are_buckets)

lemma pass_ok:
  assumes s: "snapshot_ok s" and ok: "blocks_ok s bs"
  obtains cs where "producer_refinement_pass s bs = Inr cs" "blocks_ok s cs"
    "\<And>x y. same_group (groups_of cs) x y \<longleftrightarrow>
       same_group (groups_of bs) x y \<and> producer_signature s bs x = producer_signature s bs y"
proof -
  let ?gs = "split_all (group_by (producer_signature s bs)) (groups_of bs)"
  have p: "is_partition (set (state_ids s)) (groups_of bs)" using ok by (simp add: blocks_ok_def)
  have gs: "concat (map (\<lambda>b. group_by (producer_signature s bs) (pb_members b)) bs) = ?gs"
    by (simp add: split_all_def comp_def)
  from canonical_blocks_ok [OF s producer.split_all_partition [OF p, of "producer_signature s bs"]]
  obtain cs where "canonical_blocks (payload_key s) ?gs = Inr cs" "blocks_ok s cs"
    "\<And>x y. same_group (groups_of cs) x y \<longleftrightarrow> same_group ?gs x y" by blast
  then show thesis using that [of cs]
    by (simp only: producer_refinement_pass_def gs producer.split_all_same [OF p])
qed

lemma signature_level:
  assumes s: "snapshot_ok s" and l: "level s k bs" and x: "x \<in> set (state_ids s)" "y \<in> set (state_ids s)"
  shows "producer_signature s bs x = producer_signature s bs y \<longleftrightarrow> agree_words s (Suc k) x y"
proof -
  have "owner_of bs (target_of s x a) = owner_of bs (target_of s y a)
      \<longleftrightarrow> agree_words s k (target_of s x a) (target_of s y a)" if "a \<in> set (canonical_actions s)" for a
    using levelD [OF l] snapshot_closed [OF s x(1) that] snapshot_closed [OF s x(2) that]
      owner_of_same [of s bs] by simp
  then show ?thesis by (auto simp: producer_signature_def agree_Suc)
qed

lemma pass_level:
  assumes s: "snapshot_ok s" and l: "level s k bs"
  obtains cs where "producer_refinement_pass s bs = Inr cs" "level s (Suc k) cs"
    "\<And>x y. same_group (groups_of cs) x y \<Longrightarrow> same_group (groups_of bs) x y"
proof -
  from l have "blocks_ok s bs" by (simp add: level_def)
  from pass_ok [OF s this] obtain cs where cs: "producer_refinement_pass s bs = Inr cs" "blocks_ok s cs"
    "\<And>x y. same_group (groups_of cs) x y \<longleftrightarrow>
       same_group (groups_of bs) x y \<and> producer_signature s bs x = producer_signature s bs y" by blast
  have "same_group (groups_of cs) x y \<longleftrightarrow> agree_words s (Suc k) x y"
    if "x \<in> set (state_ids s)" "y \<in> set (state_ids s)" for x y
    unfolding cs(3) signature_level [OF s l that] levelD(2) [OF l that]
    by (auto elim: agree_mono)
  with cs show thesis by (intro that [of cs]) (auto simp: level_def)
qed

lemma sort_key_eq_Nil: "[] = sort_key f xs \<longleftrightarrow> xs = []"
  by (metis length_0_conv length_sort)

lemma response_partition_level:
  assumes s: "snapshot_ok s"
  obtains bs where "response_partition s = Inr bs" "level s 0 bs"
proof -
  let ?xs = "sort_key (payload_key s) (state_ids s)"
  have "is_partition (set (state_ids s)) [?xs]"
    using s state_ids_nonempty [OF s] sort_key_eq_Nil by (auto simp: is_partition_def snapshot_ok_def)
  from producer.split_all_partition [OF this, of "response_of s"] producer.split_all_same [OF this, of "response_of s"]
  have p: "is_partition (set (state_ids s)) (group_by (response_of s) ?xs)"
    and same: "\<And>x y. same_group (group_by (response_of s) ?xs) x y \<longleftrightarrow>
      same_group [?xs] x y \<and> response_of s x = response_of s y"
    by (simp_all add: split_all_def)
  from canonical_blocks_ok [OF s p] obtain bs where "response_partition s = Inr bs" "blocks_ok s bs"
    "\<And>x y. same_group (groups_of bs) x y \<longleftrightarrow> same_group (group_by (response_of s) ?xs) x y"
    unfolding response_partition_def state_ids_def by blast
  with same show thesis by (intro that [of bs]) (auto simp: level_def agree_0 same_group_def)
qed

lemma level_split:
  assumes s: "snapshot_ok s" and l: "level s k bs" "level s (Suc k) cs" and ne: "cs \<noteq> bs"
  shows "length bs < length cs"
proof -
  have p: "is_partition (set (state_ids s)) (groups_of bs)" "is_partition (set (state_ids s)) (groups_of cs)"
    and ok: "blocks_ok s bs" "blocks_ok s cs"
    using l by (simp_all add: level_def blocks_ok_def)
  have mem: "x \<in> set (state_ids s) \<and> y \<in> set (state_ids s)" if "same_group (groups_of cs) x y" for x y
    using that partition_member(3) [OF p(2)] unfolding same_group_def by blast
  have ref: "same_group (groups_of bs) x y" if "same_group (groups_of cs) x y" for x y
  proof -
    from mem [OF that] have xy: "x \<in> set (state_ids s)" "y \<in> set (state_ids s)" by auto
    from levelD(2) [OF l(2) xy] that have "agree_words s (Suc k) x y" by (rule iffD1)
    then have "agree_words s k x y" by (rule agree_mono) simp
    with levelD(2) [OF l(1) xy] show ?thesis by (rule iffD2)
  qed
  have "length bs \<noteq> length cs"
  proof
    assume "length bs = length cs"
    then have "same_group (groups_of bs) x y \<Longrightarrow> same_group (groups_of cs) x y" for x y
      using refinement_split(2) [OF p ref] by simp
    with ref have "same_group (groups_of bs) x y \<longleftrightarrow> same_group (groups_of cs) x y" for x y
      by (intro iffI)
    then have "bs = cs" by (rule blocks_ok_unique [OF ok s])
    with ne show False by simp
  qed
  with refinement_split(1) [OF p ref] show ?thesis by simp
qed

section \<open>The loop\<close>

definition work_cap_error :: string where
  "work_cap_error =
     ''CPU_SURVIVOR_PREREQUISITE_BLOCKED: exact partition aggregate work cap would be exceeded before work''"

text \<open>A trace of strict rounds from P0, each stage one level deeper and with more blocks.\<close>

definition trace_ok :: "finite_snapshot \<Rightarrow> refinement_stage list \<Rightarrow> bool" where
  "trace_ok s tr \<longleftrightarrow> tr \<noteq> []
     \<and> (\<forall>i < length tr. rs_index (tr ! i) = int i \<and> rs_changed (tr ! i) = (0 < i)
          \<and> level s i (rs_blocks (tr ! i)) \<and> i < length (rs_blocks (tr ! i)))
     \<and> sorted_wrt (\<lambda>x y. length (rs_blocks x) < length (rs_blocks y)) tr"

definition fixed_point :: "finite_snapshot \<Rightarrow> partition_block list \<Rightarrow> bool" where
  "fixed_point s bs \<longleftrightarrow> producer_refinement_pass s bs = Inr bs"

lemma charge_error: "0 \<le> n \<Longrightarrow> charge cat n l = Inl e \<Longrightarrow> e = work_cap_error"
  by (auto simp: charge_def work_cap_error_def split: if_splits)

lemma mk_stage_ok:
  assumes s: "snapshot_ok s" and ok: "blocks_ok s bs" and i: "i \<le> 128"
  shows "mk_refinement_stage (int i) c bs = Inr \<lparr>rs_index = int i, rs_changed = c, rs_blocks = bs\<rparr>"
proof -
  have p: "is_partition (set (state_ids s)) (groups_of bs)" using ok by (simp add: blocks_ok_def)
  then have d: "distinct (concat (groups_of bs))" "set (concat (groups_of bs)) = set (state_ids s)"
    by (simp_all add: is_partition_def)
  have "sum_list (map (length \<circ> pb_members) bs) = length (concat (groups_of bs))"
    by (simp add: length_concat comp_def)
  also have "\<dots> = length (sn_states s)"
    using distinct_card [OF d(1)] by (simp only: d(2) card_state_ids [OF s])
  finally have n: "sum_list (map (length \<circ> pb_members) bs) = length (sn_states s)" .
  have "length bs \<le> 128" "bs \<noteq> []" using blocks_ok_length [OF ok s] s by (simp_all add: snapshot_ok_def caps)
  then show ?thesis
    using d(1) n blocks_ok_numbering [OF ok] s i
    by (simp add: mk_refinement_stage_def bounded_int_def snapshot_ok_def caps)
qed

lemma trace_ok_extend:
  assumes t: "trace_ok s tr" and l: "level s (length tr) cs" and lt: "length (rs_blocks (last tr)) < length cs"
  shows "trace_ok s (tr @ [\<lparr>rs_index = int (length tr), rs_changed = True, rs_blocks = cs\<rparr>])"
proof -
  have ne: "tr \<noteq> []" using t by (simp add: trace_ok_def)
  have srt: "sorted_wrt (\<lambda>x y. length (rs_blocks x) < length (rs_blocks y)) tr" using t by (simp add: trace_ok_def)
  have below: "length (rs_blocks x) \<le> length (rs_blocks (last tr))" if "x \<in> set tr" for x
  proof -
    obtain us z where u: "tr = us @ [z]" using ne by (cases tr rule: rev_cases) auto
    with that srt show ?thesis by (auto simp: sorted_wrt_append)
  qed
  have "length tr - 1 < length (rs_blocks (tr ! (length tr - 1)))"
    using t ne unfolding trace_ok_def by simp
  then have "length tr < length cs" using ne lt by (simp add: last_conv_nth)
  with t l ne below lt show ?thesis
    unfolding trace_ok_def
    by (auto simp: nth_append sorted_wrt_append less_Suc_eq intro: le_less_trans)
qed

lemma refine_loop_sound:
  assumes "snapshot_ok s" and "trace_ok s tr" and "bs = rs_blocks (last tr)"
    and "length (sn_states s) \<le> length bs + left"
  shows "(\<forall>e. refine_loop s left bs tr l = Inl e \<longrightarrow> e = work_cap_error)
    \<and> (\<forall>r. refine_loop s left bs tr l = Inr r \<longrightarrow>
         trace_ok s (fst (snd r)) \<and> fst r = rs_blocks (last (fst (snd r))) \<and> fixed_point s (fst r)
         \<and> length (fst (snd r)) \<le> length tr + left)"
  using assms
proof (induction s left bs tr l rule: refine_loop.induct)
  case (1 s left bs tr l)
  note s = 1(2) and t = 1(3) and bs = 1(4) and left = 1(5)
  have ne: "tr \<noteq> []" using t by (simp add: trace_ok_def)
  have lev: "level s (length tr - 1) bs"
    using t ne unfolding bs trace_ok_def by (simp add: last_conv_nth)
  obtain cs where cs: "producer_refinement_pass s bs = Inr cs" "level s (Suc (length tr - 1)) cs"
    using pass_level [OF s lev] by blast
  have levc: "level s (length tr) cs" using cs(2) ne by simp
  have nn: "0 \<le> state_count s * (action_count s + coordinate_count s + 1) + int (length bs)"
    by (simp add: state_count_def action_count_def coordinate_count_def)
  show ?case
  proof (cases "charge_refinement_pass s (length bs) l")
    case (Inl e)
    then show ?thesis
      using charge_error [OF nn] by (subst (1 2) refine_loop.simps) (simp add: charge_refinement_pass_def)
  next
    case (Inr l1)
    show ?thesis
    proof (cases "cs = bs")
      case True
      with Inr cs(1) t bs show ?thesis
        by (subst (1 2) refine_loop.simps) (simp add: fixed_point_def)
    next
      case False
      then have lt: "length bs < length cs" by (rule level_split [OF s lev cs(2)])
      have cn: "length cs \<le> length (sn_states s)" by (rule blocks_ok_length(1) [OF levelD(1) [OF levc] s])
      with lt left obtain left' where left': "left = Suc left'" by (cases left) auto
      have "length tr - 1 < length (rs_blocks (tr ! (length tr - 1)))"
        using t ne unfolding trace_ok_def by simp
      moreover have "length (rs_blocks (tr ! (length tr - 1))) = length bs" using bs ne by (simp add: last_conv_nth)
      moreover have "length (sn_states s) \<le> 128" using s by (simp add: snapshot_ok_def caps)
      ultimately have "length tr \<le> 128" using lt cn by linarith
      note stage = mk_stage_ok [OF s levelD(1) [OF levc] this, of True]
      let ?tr = "tr @ [\<lparr>rs_index = int (length tr), rs_changed = True, rs_blocks = cs\<rparr>]"
      have t': "trace_ok s ?tr" using trace_ok_extend [OF t levc] lt bs by simp
      have run: "refine_loop s left bs tr l = refine_loop s left' cs ?tr l1"
        using Inr cs(1) False lt left' stage by (subst refine_loop.simps) simp
      have "\<not> length cs \<le> length bs" using lt by simp
      from 1(1) [OF Inr cs(1) False this left' stage s t'] left left' lt
      show ?thesis unfolding run by simp
    qed
  qed
qed

text \<open>The blocks at the fixed point are the classes of indistinguishable states.\<close>

lemma fixed_point_coarsest:
  assumes s: "snapshot_ok s" and lev: "level s k bs" and fixed: "fixed_point s bs"
    and x: "x \<in> set (state_ids s)" "y \<in> set (state_ids s)"
  shows "same_group (groups_of bs) x y \<longleftrightarrow> same_behaviour s x y"
proof -
  obtain cs where cs: "producer_refinement_pass s bs = Inr cs" "level s (Suc k) cs"
    using pass_level [OF s lev] by blast
  with fixed have "level s (Suc k) bs" by (simp add: fixed_point_def)
  then have fx: "agree_words s (Suc k) u v"
    if "u \<in> set (state_ids s)" "v \<in> set (state_ids s)" "agree_words s k u v" for u v
    using that levelD(2) [OF lev] levelD(2) [of s "Suc k" bs] by blast
  have "same_behaviour s x y \<longleftrightarrow> agree_words s k x y"
    by (rule agree_fixed [OF snapshot_closed [OF s] fx x])
  with levelD(2) [OF lev x] show ?thesis by simp
qed

end
