(* ===== verification/PartitionWords.thy ===== *)
theory PartitionWords
  imports PartitionFixpoint
begin

text \<open>
  The shortest distinguishing words. Breadth-first search backwards from the pairs with different
  responses gives every distinguishable pair the length of its shortest distinguishing word, and
  the greedy reconstruction reads off the one that comes first in the order of the actions. This
  holds for any machine on numbers below n that stays below n, so for the producer's quotient and
  for the verifier's raw states alike.
\<close>

declare split_paired_All [simp del] split_paired_Ex [simp del]

section \<open>The length of the shortest distinguishing word\<close>

definition separation :: "'a set \<Rightarrow> (nat \<Rightarrow> 'a \<Rightarrow> nat) \<Rightarrow> (nat \<Rightarrow> 'r) \<Rightarrow> nat \<Rightarrow> pair \<Rightarrow> bool" where
  "separation A step resp d p \<longleftrightarrow> \<not> agree A step resp d (fst p) (snd p)
     \<and> (\<forall>k < d. agree A step resp k (fst p) (snd p))"

lemma separation_unique:
  assumes "separation A step resp d p" "separation A step resp e p"
  shows "d = e"
  using assms by (meson separation_def linorder_neqE_nat)

lemma agree_sym: "agree A step resp k x y \<longleftrightarrow> agree A step resp k y x"
  by (auto simp: agree_def)

lemma separation_ordered: "separation A step resp d (ordered_pair x y) \<longleftrightarrow> separation A step resp d (x, y)"
proof -
  have sym: "agree A step resp k y x = agree A step resp k x y" for k by (rule agree_sym)
  show ?thesis
    by (cases "x < y") (simp_all only: ordered_pair_def if_True if_False separation_def fst_conv snd_conv sym)
qed

lemma separation_ex:
  assumes "\<not> agree A step resp k (fst p) (snd p)"
  obtains d where "d \<le> k" "separation A step resp d p"
proof -
  from ex_least_nat_le [of "\<lambda>d. \<not> agree A step resp d (fst p) (snd p)", OF assms]
  obtain d where "d \<le> k" "\<forall>i < d. \<not> \<not> agree A step resp i (fst p) (snd p)"
    "\<not> agree A step resp d (fst p) (snd p)" by blast
  then show thesis by (intro that [of d]) (simp_all add: separation_def)
qed

lemma separation_0: "separation A step resp 0 p \<longleftrightarrow> resp (fst p) \<noteq> resp (snd p)"
  by (simp add: separation_def agree_0)

lemma agree_refl: "agree A step resp k x x"
  by (simp add: agree_def)

lemma separation_step:
  assumes "separation A step resp (Suc d) p"
  obtains a q where "a \<in> A" "pair_step step p a = Some q" "separation A step resp d q"
proof -
  let ?x = "fst p" and ?y = "snd p"
  have no: "\<not> agree A step resp (Suc d) ?x ?y" and yes: "\<forall>k < Suc d. agree A step resp k ?x ?y"
    using assms by (simp_all add: separation_def)
  from yes have "resp ?x = resp ?y" by (auto dest: spec [of _ 0] simp: agree_0)
  with no obtain a where a: "a \<in> A" "\<not> agree A step resp d (step ?x a) (step ?y a)"
    by (auto simp: agree_Suc)
  have "agree A step resp k (step ?x a) (step ?y a)" if "k < d" for k
    using yes [rule_format, of "Suc k"] that a(1) by (simp add: agree_Suc)
  with a(2) have "separation A step resp d (step ?x a, step ?y a)" by (simp add: separation_def)
  then have "separation A step resp d (ordered_pair (step ?x a) (step ?y a))" by (simp add: separation_ordered)
  moreover have "step ?x a \<noteq> step ?y a" using a(2) by (auto simp: agree_refl)
  ultimately show thesis using that [OF a(1)] by (simp add: pair_step_def)
qed

lemma pair_step_not_agree:
  assumes "pair_step step p a = Some q" "a \<in> A" "\<not> agree A step resp d (fst q) (snd q)"
  shows "\<not> agree A step resp (Suc d) (fst p) (snd p)"
  using assms by (auto simp: pair_step_def ordered_pair_def agree_Suc agree_sym split: if_splits)

section \<open>The graph\<close>

lemma set_index_pairs: "p \<in> set (index_pairs n) \<longleftrightarrow> fst p < snd p \<and> snd p < n"
  by (cases p) (force simp: index_pairs_def)

lemma distinct_index_pairs: "distinct (index_pairs n)"
proof -
  have "distinct xs \<Longrightarrow> distinct (concat (map (\<lambda>l. map (Pair l) [Suc l..<n]) xs))" for xs
    by (induction xs) (auto simp: distinct_map inj_on_def)
  then show ?thesis by (simp add: index_pairs_def)
qed

lemma set_map_filter_iff: "y \<in> set (List.map_filter f xs) \<longleftrightarrow> (\<exists>x \<in> set xs. f x = Some y)"
  by (induction xs) (auto simp: List.map_filter_def split: option.splits)

lemma set_predecessors_iff:
  "p \<in> set (predecessors (reverse_edges n acts step) q) \<longleftrightarrow>
     p \<in> set (index_pairs n) \<and> (\<exists>a \<in> set acts. pair_step step p a = Some q)"
proof -
  have "p \<in> set (predecessors edges q) \<longleftrightarrow> (q, p) \<in> set edges" for edges
    by (force simp: predecessors_def)
  then show ?thesis by (fastforce simp: reverse_edges_def set_map_filter_iff)
qed

definition closed_below :: "nat \<Rightarrow> 'a set \<Rightarrow> (nat \<Rightarrow> 'a \<Rightarrow> nat) \<Rightarrow> bool" where
  "closed_below n A step \<longleftrightarrow> (\<forall>i < n. \<forall>a \<in> A. step i a < n)"

lemma pair_step_pair:
  assumes "closed_below n A step" "p \<in> set (index_pairs n)" "a \<in> A" "pair_step step p a = Some q"
  shows "q \<in> set (index_pairs n)"
  using assms by (auto simp: set_index_pairs pair_step_def ordered_pair_def closed_below_def split: if_splits)

section \<open>The search\<close>

lemma visit_all:
  "\<exists>new. fold (visit d) ps (queue, dist) = (queue @ new, snd (fold (visit d) ps (queue, dist)))
     \<and> set new = set ps - dkeys dist
     \<and> (\<forall>p. dget (snd (fold (visit d) ps (queue, dist))) p = (if p \<in> set new then Some d else dget dist p))
     \<and> (dict_ok dist \<longrightarrow> dict_ok (snd (fold (visit d) ps (queue, dist))))"
proof (induction ps arbitrary: queue dist)
  case (Cons p ps)
  show ?case
  proof (cases "p \<in> dkeys dist")
    case True
    then have "visit d p (queue, dist) = (queue, dist)" by (simp add: visit_def)
    with Cons.IH [of queue dist] True show ?thesis by (simp add: insert_Diff_if)
  next
    case False
    from Cons.IH [of "queue @ [p]" "dset p d dist"] obtain new where
      "fold (visit d) ps (queue @ [p], dset p d dist)
         = ((queue @ [p]) @ new, snd (fold (visit d) ps (queue @ [p], dset p d dist)))"
      "set new = set ps - dkeys (dset p d dist)"
      "\<forall>r. dget (snd (fold (visit d) ps (queue @ [p], dset p d dist))) r
         = (if r \<in> set new then Some d else dget (dset p d dist) r)"
      "dict_ok (dset p d dist) \<longrightarrow> dict_ok (snd (fold (visit d) ps (queue @ [p], dset p d dist)))"
      by blast
    moreover have "visit d p (queue, dist) = (queue @ [p], dset p d dist)" using False by (simp add: visit_def)
    ultimately show ?thesis using False
      by (intro exI [of _ "p # new"]) (auto simp: dkeys_dset dict_ok_dset)
  qed
qed simp

text \<open>The invariant of the loop, in the usual parts.\<close>

definition dist_sound :: "nat \<Rightarrow> 'a list \<Rightarrow> (nat \<Rightarrow> 'a \<Rightarrow> nat) \<Rightarrow> (nat \<Rightarrow> 'r) \<Rightarrow> (pair, nat) dict \<Rightarrow> bool" where
  "dist_sound n acts step resp dist \<longleftrightarrow> dict_ok dist
     \<and> (\<forall>p d. dget dist p = Some d \<longrightarrow> p \<in> set (index_pairs n) \<and> separation (set acts) step resp d p)
     \<and> (\<forall>p \<in> set (index_pairs n). separation (set acts) step resp 0 p \<longrightarrow> p \<in> dkeys dist)"

definition queue_sorted :: "pair list \<Rightarrow> (pair, nat) dict \<Rightarrow> bool" where
  "queue_sorted queue dist \<longleftrightarrow> set queue \<subseteq> dkeys dist
     \<and> sorted (map (\<lambda>p. the (dget dist p)) queue)
     \<and> (queue \<noteq> [] \<longrightarrow> (\<forall>p d. dget dist p = Some d \<longrightarrow> d \<le> Suc (the (dget dist (hd queue)))))"

definition settled_closed :: "nat \<Rightarrow> 'a list \<Rightarrow> (nat \<Rightarrow> 'a \<Rightarrow> nat) \<Rightarrow> pair list \<Rightarrow> (pair, nat) dict \<Rightarrow> bool" where
  "settled_closed n acts step queue dist \<longleftrightarrow>
     (\<forall>q \<in> dkeys dist - set queue. set (predecessors (reverse_edges n acts step) q) \<subseteq> dkeys dist)"

lemma dist_soundD:
  assumes "dist_sound n acts step resp dist" "dget dist p = Some d"
  shows "p \<in> set (index_pairs n)" "separation (set acts) step resp d p"
  using assms unfolding dist_sound_def by blast+

lemma nearer_found:
  assumes snd: "dist_sound n acts step resp dist" and cl: "closed_below n (set acts) step"
    and st: "settled_closed n acts step queue dist"
    and lim: "\<And>q d. q \<in> set queue \<Longrightarrow> dget dist q = Some d \<Longrightarrow> k \<le> d"
  shows "p \<in> set (index_pairs n) \<Longrightarrow> separation (set acts) step resp k p \<Longrightarrow> p \<in> dkeys dist"
  using lim
proof (induction k arbitrary: p)
  case 0
  with snd show ?case by (simp add: dist_sound_def)
next
  case (Suc k)
  from Suc.prems(2) obtain a q where aq: "a \<in> set acts" "pair_step step p a = Some q"
    and sq: "separation (set acts) step resp k q" by (rule separation_step)
  have q: "q \<in> set (index_pairs n)" by (rule pair_step_pair [OF cl Suc.prems(1) aq])
  have "q \<in> dkeys dist" using Suc.prems(3) by (intro Suc.IH [OF q sq]) (blast dest: Suc_leD)
  moreover have "q \<notin> set queue"
  proof
    assume "q \<in> set queue"
    moreover from \<open>q \<in> dkeys dist\<close> obtain d where d: "dget dist q = Some d" by (auto simp: dkeys_ex)
    ultimately have "Suc k \<le> d" by (rule Suc.prems(3))
    moreover have "k = d" using separation_unique [OF sq dist_soundD(2) [OF snd d]] .
    ultimately show False by simp
  qed
  ultimately have "set (predecessors (reverse_edges n acts step) q) \<subseteq> dkeys dist"
    using st by (simp add: settled_closed_def)
  moreover have "p \<in> set (predecessors (reverse_edges n acts step) q)"
    using Suc.prems(1) aq by (auto simp: set_predecessors_iff)
  ultimately show ?case by (rule subsetD)
qed

lemma search_step:
  assumes cl: "closed_below n (set acts) step" and snd: "dist_sound n acts step resp dist"
    and srt: "queue_sorted (q # queue) dist" and st: "settled_closed n acts step (q # queue) dist"
  shows "case fold (visit (Suc (the (dget dist q)))) (predecessors (reverse_edges n acts step) q) (queue, dist)
    of (queue', dist') \<Rightarrow> dist_sound n acts step resp dist' \<and> queue_sorted queue' dist'
      \<and> settled_closed n acts step queue' dist'"
proof -
  let ?ps = "predecessors (reverse_edges n acts step) q"
  obtain d where d: "dget dist q = Some d" using srt by (auto simp: queue_sorted_def dkeys_ex)
  define dist' where "dist' = snd (fold (visit (Suc d)) ?ps (queue, dist))"
  obtain new where run: "fold (visit (Suc d)) ?ps (queue, dist) = (queue @ new, dist')"
    and new: "set new = set ?ps - dkeys dist"
    and get: "\<And>p. dget dist' p = (if p \<in> set new then Some (Suc d) else dget dist p)"
    and ok: "dict_ok dist \<Longrightarrow> dict_ok dist'"
    using visit_all [of "Suc d" ?ps queue dist] unfolding dist'_def [symmetric] by blast
  have keys: "dkeys dist' = dkeys dist \<union> set new"
    by (rule set_eqI) (simp only: Un_iff dkeys_ex get, auto)
  have least: "d \<le> e" if "p \<in> set (q # queue)" "dget dist p = Some e" for p e
    using that srt d by (auto simp: queue_sorted_def)
  have most: "e \<le> Suc d" if "dget dist p = Some e" for p e
    using that srt d by (auto simp: queue_sorted_def)
  have far: "separation (set acts) step resp (Suc d) p" if p: "p \<in> set new" for p
  proof -
    from p new obtain a where a: "p \<in> set (index_pairs n)" "a \<in> set acts" "pair_step step p a = Some q"
      and out: "p \<notin> dkeys dist" by (auto simp: set_predecessors_iff)
    have "\<not> agree (set acts) step resp (Suc d) (fst p) (snd p)"
      using dist_soundD(2) [OF snd d] by (intro pair_step_not_agree [OF a(3,2)]) (simp add: separation_def)
    then obtain k where k: "k \<le> Suc d" "separation (set acts) step resp k p" by (rule separation_ex)
    have "\<not> k \<le> d"
    proof
      assume "k \<le> d"
      then have "p \<in> dkeys dist"
        by (intro nearer_found [OF snd cl st _ a(1) k(2)]) (blast dest: least intro: le_trans)
      with out show False by simp
    qed
    with k show ?thesis by (simp add: le_Suc_eq)
  qed
  have "dist_sound n acts step resp dist'"
    unfolding dist_sound_def
  proof (intro conjI allI impI ballI)
    show "dict_ok dist'" using snd ok by (simp add: dist_sound_def)
    show "p \<in> set (index_pairs n)" "separation (set acts) step resp e p" if "dget dist' p = Some e" for p e
      using that far new dist_soundD [OF snd] by (auto simp: get set_predecessors_iff split: if_splits)
    show "p \<in> dkeys dist'" if "p \<in> set (index_pairs n)" "separation (set acts) step resp 0 p" for p
      using that snd by (simp add: keys dist_sound_def)
  qed
  moreover have "queue_sorted (queue @ new) dist'"
    unfolding queue_sorted_def
  proof (intro conjI impI)
    have sub: "set queue \<subseteq> dkeys dist" using srt by (simp add: queue_sorted_def)
    then show "set (queue @ new) \<subseteq> dkeys dist'" by (auto simp: keys)
    have same: "map (\<lambda>p. the (dget dist' p)) queue = map (\<lambda>p. the (dget dist p)) queue"
      using sub new by (auto simp: get)
    have nw: "map (\<lambda>p. the (dget dist' p)) new = replicate (length new) (Suc d)"
      by (simp add: get map_replicate_const cong: map_cong)
    have "the (dget dist p) \<le> Suc d" if "p \<in> set queue" for p
      using that sub most by (auto simp: dkeys_ex subset_iff)
    then show "sorted (map (\<lambda>p. the (dget dist' p)) (queue @ new))"
      using srt by (auto simp: same nw sorted_append queue_sorted_def)
    show "\<forall>p e. dget dist' p = Some e \<longrightarrow> e \<le> Suc (the (dget dist' (hd (queue @ new))))"
      if ne: "queue @ new \<noteq> []"
    proof -
      have "d \<le> the (dget dist' (hd (queue @ new)))"
      proof (cases queue)
        case Nil
        with ne show ?thesis by (simp add: get)
      next
        case (Cons r rs)
        with sub obtain e where "dget dist r = Some e" by (auto simp: dkeys_ex)
        with Cons least [of r e] new show ?thesis by (auto simp: get dget_in_dkeys)
      qed
      then show ?thesis using most by (fastforce simp: get split: if_splits)
    qed
  qed
  moreover have "settled_closed n acts step (queue @ new) dist'"
    using st new unfolding settled_closed_def keys by auto
  ultimately show ?thesis using run d by simp
qed

lemma distances_complete:
  assumes "closed_below n (set acts) step" "dist_sound n acts step resp (snd qd)"
    "queue_sorted (fst qd) (snd qd)" "settled_closed n acts step (fst qd) (snd qd)"
  shows "dist_sound n acts step resp (distances (reverse_edges n acts step) qd)
    \<and> settled_closed n acts step [] (distances (reverse_edges n acts step) qd)"
  using assms(2-)
proof (induction "reverse_edges n acts step" qd rule: distances.induct)
  case (1 dist)
  then show ?case by simp
next
  case (2 q queue dist)
  obtain queue' dist' where run: "fold (visit (Suc (the (dget dist q))))
      (predecessors (reverse_edges n acts step) q) (queue, dist) = (queue', dist')" by fastforce
  from search_step [OF assms(1)] 2(2-) run
  have "dist_sound n acts step resp dist'" "queue_sorted queue' dist'" "settled_closed n acts step queue' dist'"
    by fastforce+
  with 2(1) run show ?case by simp
qed

lemma pair_distances_correct:
  assumes cl: "closed_below n (set acts) step"
  shows "dget (pair_distances n acts step resp) p = Some d \<longleftrightarrow>
      p \<in> set (index_pairs n) \<and> separation (set acts) step resp d p" (is ?get)
    and "dict_ok (pair_distances n acts step resp)"
proof -
  let ?start = "filter (\<lambda>(l, r). resp l \<noteq> resp r) (index_pairs n)"
  let ?d0 = "map (\<lambda>p. (p, 0 :: nat)) ?start"
  have keys: "dkeys ?d0 = set ?start" by (auto simp: image_image)
  have get: "dget ?d0 p = (if p \<in> set ?start then Some 0 else None)" for p
    by (simp add: map_of_map_restrict restrict_map_def)
  have "dist_sound n acts step resp ?d0"
    unfolding dist_sound_def
  proof (intro conjI allI impI ballI)
    show "dict_ok ?d0" by (simp add: dict_ok_def comp_def distinct_index_pairs)
    show "p \<in> set (index_pairs n)" "separation (set acts) step resp d p" if "dget ?d0 p = Some d" for p d
      using that unfolding get by (auto simp: separation_0 split: if_splits)
    show "p \<in> dkeys ?d0" if "p \<in> set (index_pairs n)" "separation (set acts) step resp 0 p" for p
      using that unfolding keys by (auto simp: separation_0)
  qed
  moreover have "queue_sorted ?start ?d0"
  proof -
    have "map (\<lambda>p. the (dget ?d0 p)) ?start = map (\<lambda>_. 0) ?start"
      by (rule map_cong [OF refl]) (simp only: get if_True option.sel)
    then have "sorted (map (\<lambda>p. the (dget ?d0 p)) ?start)" by (simp add: map_replicate_const)
    moreover have "d = 0" if "dget ?d0 p = Some d" for p d using that unfolding get by (simp split: if_splits)
    ultimately show ?thesis unfolding queue_sorted_def keys by (metis order_refl zero_le)
  qed
  moreover have "settled_closed n acts step ?start ?d0" unfolding settled_closed_def keys by simp
  ultimately have final: "dist_sound n acts step resp (pair_distances n acts step resp)"
      "settled_closed n acts step [] (pair_distances n acts step resp)"
    using distances_complete [OF cl, of resp "(?start, ?d0)"] by (simp_all add: pair_distances_def Let_def)
  then show "dict_ok (pair_distances n acts step resp)" by (simp add: dist_sound_def)
  show ?get
  proof
    assume r: "p \<in> set (index_pairs n) \<and> separation (set acts) step resp d p"
    then have "p \<in> dkeys (pair_distances n acts step resp)"
      by (intro nearer_found [OF final(1) cl final(2)]) auto
    then obtain e where e: "dget (pair_distances n acts step resp) p = Some e" by (auto simp: dkeys_ex)
    with separation_unique [OF dist_soundD(2) [OF final(1) e]] r show "dget (pair_distances n acts step resp) p = Some d"
      by auto
  qed (use dist_soundD [OF final(1)] in blast)
qed

lemma pair_distances_full:
  assumes cl: "closed_below n (set acts) step"
  shows "length (pair_distances n acts step resp) = length (index_pairs n) \<longleftrightarrow>
    (\<forall>p \<in> set (index_pairs n). dget (pair_distances n acts step resp) p \<noteq> None)"
proof -
  let ?D = "pair_distances n acts step resp"
  have sub: "dkeys ?D \<subseteq> set (index_pairs n)"
    using pair_distances_correct(1) [OF cl, of resp] by (simp only: subset_iff dkeys_ex) blast
  have len: "length ?D = card (dkeys ?D)" "length (index_pairs n) = card (set (index_pairs n))"
    by (simp_all only: dict_ok_length [OF pair_distances_correct(2) [OF cl]] distinct_card [OF distinct_index_pairs])
  have "length ?D = length (index_pairs n) \<longleftrightarrow> dkeys ?D = set (index_pairs n)"
    unfolding len using sub by (metis List.finite_set card_subset_eq)
  also have "\<dots> \<longleftrightarrow> (\<forall>p \<in> set (index_pairs n). dget ?D p \<noteq> None)"
    using sub by (auto simp: dget_None)
  finally show ?thesis .
qed

section \<open>The reconstructed word\<close>

text \<open>The order of words: by the position of the first action that differs.\<close>

fun before :: "'a list \<Rightarrow> 'a \<Rightarrow> 'a \<Rightarrow> bool" where
  "before [] a b = False"
| "before (x # xs) a b = (if x = a then b \<in> set xs else if x = b then False else before xs a b)"

fun word_le :: "'a list \<Rightarrow> 'a list \<Rightarrow> 'a list \<Rightarrow> bool" where
  "word_le acts [] v = True"
| "word_le acts (a # u) [] = False"
| "word_le acts (a # u) (b # v) = (before acts a b \<or> a = b \<and> word_le acts u v)"

lemma before_asym: "distinct acts \<Longrightarrow> before acts a b \<Longrightarrow> a \<noteq> b \<and> \<not> before acts b a"
  by (induction acts) (auto split: if_splits)

lemma word_le_antisym: "distinct acts \<Longrightarrow> word_le acts u v \<Longrightarrow> word_le acts v u \<Longrightarrow> u = v"
proof (induction acts u v rule: word_le.induct)
  case (1 acts v)
  then show ?case by (cases v) auto
qed (auto dest: before_asym)

lemma find_first:
  "List.find P acts = Some a \<Longrightarrow> a \<in> set acts \<and> P a \<and> (\<forall>b \<in> set acts. P b \<longrightarrow> b = a \<or> before acts a b)"
  by (induction acts) (auto split: if_splits)

definition separates :: "('s \<Rightarrow> 'a \<Rightarrow> 's) \<Rightarrow> ('s \<Rightarrow> 'r) \<Rightarrow> 'a list \<Rightarrow> 's \<Rightarrow> 's \<Rightarrow> bool" where
  "separates step resp w x y \<longleftrightarrow> resp (foldl step x w) \<noteq> resp (foldl step y w)"

text \<open>A shortest separating word, and among those the first in the order of the actions.\<close>

definition best_word :: "'a list \<Rightarrow> ('s \<Rightarrow> 'a \<Rightarrow> 's) \<Rightarrow> ('s \<Rightarrow> 'r) \<Rightarrow> 's \<Rightarrow> 's \<Rightarrow> 'a list \<Rightarrow> bool" where
  "best_word acts step resp x y w \<longleftrightarrow> set w \<subseteq> set acts \<and> separates step resp w x y
     \<and> (\<forall>v. set v \<subseteq> set acts \<and> separates step resp v x y \<longrightarrow>
          length w < length v \<or> length w = length v \<and> word_le acts w v)"

lemma best_word_unique:
  assumes "distinct acts" "best_word acts step resp x y u" "best_word acts step resp x y v"
  shows "u = v"
proof -
  have "length u < length v \<or> length u = length v \<and> word_le acts u v"
    "length v < length u \<or> length v = length u \<and> word_le acts v u"
    using assms(2,3) unfolding best_word_def by blast+
  then have "word_le acts u v" "word_le acts v u" by auto
  with assms(1) show ?thesis by (rule word_le_antisym)
qed

lemma not_agree_separates:
  "\<not> agree A step resp k x y \<longleftrightarrow> (\<exists>w. set w \<subseteq> A \<and> length w \<le> k \<and> separates step resp w x y)"
  by (auto simp: agree_def separates_def)

lemma separates_sym: "separates step resp w x y \<longleftrightarrow> separates step resp w y x"
  by (auto simp: separates_def)

lemma separates_Cons: "separates step resp (a # w) x y \<longleftrightarrow> separates step resp w (step x a) (step y a)"
  by (simp add: separates_def)

lemma separates_pair_step:
  "pair_step step p a = Some q \<Longrightarrow>
     separates step resp w (fst q) (snd q) \<longleftrightarrow> separates step resp (a # w) (fst p) (snd p)"
  unfolding separates_Cons
  by (cases "step (fst p) a < step (snd p) a")
    (auto simp: pair_step_def ordered_pair_def separates_def split: if_splits)

lemma separation_length:
  assumes "separation A step resp d p" "set v \<subseteq> A" "separates step resp v (fst p) (snd p)"
  shows "d \<le> length v"
proof (rule ccontr)
  assume "\<not> d \<le> length v"
  with assms(1) have "agree A step resp (length v) (fst p) (snd p)" by (simp add: separation_def)
  with assms(2,3) show False by (auto simp: agree_def separates_def)
qed

lemma rebuild_word_best:
  assumes cl: "closed_below n (set acts) step"
    and dist: "\<And>p d. dget dist p = Some d \<longleftrightarrow> p \<in> set (index_pairs n) \<and> separation (set acts) step resp d p"
  shows "p \<in> set (index_pairs n) \<Longrightarrow> separation (set acts) step resp d p \<Longrightarrow>
    \<exists>w. rebuild_word err acts step dist d p = Inr w \<and> best_word acts step resp (fst p) (snd p) w \<and> length w = d"
proof (induction d arbitrary: p)
  case 0
  then show ?case by (auto simp: best_word_def separates_def separation_0)
next
  case (Suc d)
  let ?P = "\<lambda>a. case pair_step step p a of None \<Rightarrow> False | Some q \<Rightarrow> dget dist q = Some d"
  have P: "?P a \<longleftrightarrow> (\<exists>q. pair_step step p a = Some q \<and> separation (set acts) step resp d q)" if "a \<in> set acts" for a
    using that pair_step_pair [OF cl Suc.prems(1)] by (auto simp: dist split: option.split)
  obtain b where "b \<in> set acts" "?P b"
    using separation_step [OF Suc.prems(2)] P by blast
  then have "List.find ?P acts \<noteq> None" unfolding find_None_iff by blast
  then obtain a where a: "List.find ?P acts = Some a" by blast
  note fa = find_first [OF a]
  then obtain q where q: "pair_step step p a = Some q" "separation (set acts) step resp d q"
    using P by blast
  have "q \<in> set (index_pairs n)" using pair_step_pair [OF cl Suc.prems(1)] fa q(1) by blast
  from Suc.IH [OF this q(2)] obtain w where w: "rebuild_word err acts step dist d q = Inr w"
    "best_word acts step resp (fst q) (snd q) w" "length w = d" by blast
  have "length (a # w) < length v \<or> length (a # w) = length v \<and> word_le acts (a # w) v"
    if v: "set v \<subseteq> set acts" "separates step resp v (fst p) (snd p)" for v
  proof (cases "length v = Suc d")
    case False
    with separation_length [OF Suc.prems(2) v] w(3) show ?thesis by simp
  next
    case True
    then obtain b u where bu: "v = b # u" "length u = d" by (cases v) auto
    have b: "b \<in> set acts" and u: "set u \<subseteq> set acts" using v(1) bu by simp_all
    have "step (fst p) b \<noteq> step (snd p) b" using v(2) bu by (auto simp: separates_def)
    then obtain r where r: "pair_step step p b = Some r" by (simp add: pair_step_def)
    from v(2) bu(1) have su: "separates step resp u (fst r) (snd r)" by (simp add: separates_pair_step [OF r])
    then have na: "\<not> agree (set acts) step resp d (fst r) (snd r)"
      using u bu(2) by (auto simp: not_agree_separates)
    then obtain k where k: "k \<le> d" "separation (set acts) step resp k r" by (rule separation_ex)
    from k(2) have "\<not> agree (set acts) step resp (Suc k) (fst p) (snd p)"
      by (intro pair_step_not_agree [OF r b]) (simp add: separation_def)
    with Suc.prems(2) k(1) have "k = d" by (auto simp: separation_def le_less)
    with k(2) r b P have "?P b" by blast
    with fa b have "b = a \<or> before acts a b" by blast
    moreover have "word_le acts w u" if "b = a"
    proof -
      from that r q(1) su have "separates step resp u (fst q) (snd q)" by simp
      with w(2,3) u bu(2) show ?thesis by (auto simp: best_word_def)
    qed
    ultimately show ?thesis using bu w(3) by auto
  qed
  moreover have "separates step resp (a # w) (fst p) (snd p)" "set (a # w) \<subseteq> set acts"
    using w(2) fa by (simp_all add: best_word_def separates_pair_step [OF q(1)])
  ultimately have "best_word acts step resp (fst p) (snd p) (a # w)" unfolding best_word_def by blast
  moreover have "rebuild_word err acts step dist (Suc d) p = Inr (a # w)" using a q(1) w(1) by simp
  ultimately show ?case using w(3) by auto
qed

end
