(* ===== verification/PartitionCertify.thy ===== *)
theory PartitionCertify
  imports PartitionWords
begin

text \<open>
  The tables of a certificate at the fixed point: the quotient rows agree with every member of a
  block, the producer's words over blocks and the verifier's words over raw states are the same
  best words, so an accepted certificate is the exact answer.
\<close>

section \<open>The quotient\<close>

abbreviation rep :: "partition_block list \<Rightarrow> nat \<Rightarrow> pystr" where
  "rep bs i \<equiv> hd (pb_members (bs ! i))"

definition quotient_entry :: "finite_snapshot \<Rightarrow> partition_block list \<Rightarrow> partition_block \<Rightarrow> pystr \<Rightarrow> quotient_row" where
  "quotient_entry s bs b a =
     \<lparr>qr_source = pb_index b, qr_action = a, qr_target = owner_of bs (target_of s (hd (pb_members b)) a)\<rparr>"

definition quotient_table :: "finite_snapshot \<Rightarrow> partition_block list \<Rightarrow> quotient_row list" where
  "quotient_table s bs = concat (map (\<lambda>b. map (quotient_entry s bs b) (canonical_actions s)) bs)"

lemma remdups_const: "xs \<noteq> [] \<Longrightarrow> (\<And>x. x \<in> set xs \<Longrightarrow> f x = c) \<Longrightarrow> remdups (map f xs) = [c]"
proof (induction xs)
  case (Cons x xs)
  then show ?case by (cases "xs = []") (auto simp: image_iff)
qed simp

lemma snapshot_actions:
  assumes "snapshot_ok s"
  shows "[] \<notin> set (canonical_actions s)" "distinct (canonical_actions s)"
proof -
  show "[] \<notin> set (canonical_actions s)" using assms unfolding snapshot_ok_def set_canonical_actions by blast
  have "distinct (map sa_id (sn_actions s))" using assms by (simp add: snapshot_ok_def)
  then show "distinct (canonical_actions s)" by (auto simp: canonical_actions_def distinct_map)
qed

lemma block_members:
  assumes s: "snapshot_ok s" and ok: "blocks_ok s bs" and b: "b \<in> set bs"
  shows "pb_members b \<noteq> []" "set (pb_members b) \<subseteq> set (state_ids s)" "hd (pb_members b) \<in> set (pb_members b)"
    "hd (pb_members b) \<in> set (state_ids s)"
proof -
  have "is_partition (set (state_ids s)) (groups_of bs)" using ok by (simp add: blocks_ok_def)
  note m = partition_member [OF this, of "pb_members b"]
  show "pb_members b \<noteq> []" "set (pb_members b) \<subseteq> set (state_ids s)" using m(1,3) b by auto
  then show "hd (pb_members b) \<in> set (pb_members b)" by simp
  with \<open>set (pb_members b) \<subseteq> set (state_ids s)\<close> show "hd (pb_members b) \<in> set (state_ids s)" by blast
qed

lemma fixed_signature:
  assumes s: "snapshot_ok s" and ok: "blocks_ok s bs" and fixed: "fixed_point s bs"
    and b: "b \<in> set bs" "q \<in> set (pb_members b)" "r \<in> set (pb_members b)"
  shows "producer_signature s bs q = producer_signature s bs r"
proof -
  obtain cs where cs: "producer_refinement_pass s bs = Inr cs" and same: "\<And>x y. same_group (groups_of cs) x y \<longleftrightarrow>
       same_group (groups_of bs) x y \<and> producer_signature s bs x = producer_signature s bs y"
    using pass_ok [OF s ok] by blast
  have "cs = bs" using cs fixed by (simp add: fixed_point_def)
  moreover have "same_group (groups_of bs) q r" using b by (auto simp: same_group_def)
  ultimately show ?thesis using same [of q r] by blast
qed

lemma fixed_member:
  assumes "snapshot_ok s" "blocks_ok s bs" "fixed_point s bs" "b \<in> set bs" "q \<in> set (pb_members b)"
  shows "response_of s q = response_of s (hd (pb_members b))"
    and "a \<in> set (canonical_actions s) \<Longrightarrow>
      owner_of bs (target_of s q a) = owner_of bs (target_of s (hd (pb_members b)) a)"
  using fixed_signature [OF assms block_members(3) [OF assms(1,2,4)]]
  by (auto simp: producer_signature_def)

lemma owner_bounds:
  assumes "snapshot_ok s" "blocks_ok s bs" "q \<in> set (state_ids s)"
  shows "0 \<le> owner_of bs q" "owner_of bs q < int (length bs)" "owner_of bs q \<le> MAX_SIGNED_64"
proof -
  obtain i where i: "i < length bs" "q \<in> set (pb_members (bs ! i))" "owner_of bs q = int i"
    using block_index_of [OF assms(2,3)] .
  moreover have "length bs \<le> 128"
    using blocks_ok_length(1) [OF assms(2,1)] assms(1) by (simp add: snapshot_ok_def caps)
  ultimately show "0 \<le> owner_of bs q" "owner_of bs q < int (length bs)" "owner_of bs q \<le> MAX_SIGNED_64"
    by (simp_all add: caps)
qed

lemma block_index_bounds:
  assumes "snapshot_ok s" "blocks_ok s bs" "b \<in> set bs"
  shows "0 \<le> pb_index b" "pb_index b \<le> MAX_SIGNED_64"
proof -
  from assms(3) obtain i where i: "i < length bs" "b = bs ! i" by (auto simp: in_set_conv_nth)
  have "length bs \<le> 128"
    using blocks_ok_length(1) [OF assms(2,1)] assms(1) by (simp add: snapshot_ok_def caps)
  with i blocks_ok_nth [OF assms(2) i(1)] show "0 \<le> pb_index b" "pb_index b \<le> MAX_SIGNED_64"
    by (simp_all add: caps)
qed

lemma quotient_row_ok:
  assumes s: "snapshot_ok s" and ok: "blocks_ok s bs" and fixed: "fixed_point s bs"
    and b: "b \<in> set bs" and a: "a \<in> set (canonical_actions s)"
  shows "quotient_row_of err s bs b a = Inr (quotient_entry s bs b a)"
proof -
  let ?t = "owner_of bs (target_of s (hd (pb_members b)) a)"
  note m = block_members [OF s ok b]
  have "remdups (map (\<lambda>q. owner_of bs (target_of s q a)) (pb_members b)) = [?t]"
    using m(1) fixed_member(2) [OF s ok fixed b _ a] by (rule remdups_const)
  moreover have "a \<noteq> []" using a snapshot_actions(1) [OF s] by metis
  moreover note owner_bounds [OF s ok snapshot_closed [OF s m(4) a]] block_index_bounds [OF s ok b]
  ultimately show ?thesis
    by (simp add: quotient_row_of_def mk_quotient_row_def bounded_int_def nonempty_string_def quotient_entry_def)
qed

lemma mapE_all: "(\<And>x. x \<in> set xs \<Longrightarrow> f x = Inr (g x)) \<Longrightarrow> mapE f xs = Inr (map g xs)"
  by (induction xs) auto

lemma producer_quotient_ok:
  assumes "snapshot_ok s" "blocks_ok s bs" "fixed_point s bs"
  shows "producer_quotient s bs = Inr (quotient_table s bs)"
proof -
  let ?ps = "concat (map (\<lambda>b. map (Pair b) (canonical_actions s)) bs)"
  have "producer_quotient s bs = Inr (map (\<lambda>(b, a). quotient_entry s bs b a) ?ps)"
    unfolding producer_quotient_def
    by (rule mapE_all) (auto intro: quotient_row_ok [OF assms])
  moreover have "map (\<lambda>(b, a). quotient_entry s bs b a) ?ps = quotient_table s bs"
    unfolding quotient_table_def map_concat by (simp add: comp_def)
  ultimately show ?thesis by simp
qed

lemma verify_quotient_ok:
  assumes "snapshot_ok s" "blocks_ok s bs" "fixed_point s bs"
  shows "verify_quotient s bs = Inr (quotient_table s bs)"
proof -
  let ?body = "\<lambda>b rows.
       if length (remdups (map (response_of s) (pb_members b))) \<noteq> 1
         then Inl ''certificate final block is response-inhomogeneous''
       else bindE (mapE (quotient_row_of ''certificate quotient depends on a representative member'' s bs b)
           (canonical_actions s)) (\<lambda>new. Inr (rows @ new))"
  have body: "?body b rows = Inr (rows @ map (quotient_entry s bs b) (canonical_actions s))"
    if b: "b \<in> set bs" for b rows
  proof -
    have "remdups (map (response_of s) (pb_members b)) = [response_of s (hd (pb_members b))]"
      using block_members(1) [OF assms(1,2) b] fixed_member(1) [OF assms b] by (rule remdups_const)
    moreover have "mapE (quotient_row_of ''certificate quotient depends on a representative member'' s bs b)
        (canonical_actions s) = Inr (map (quotient_entry s bs b) (canonical_actions s))"
      by (rule mapE_all) (rule quotient_row_ok [OF assms b])
    ultimately show ?thesis by simp
  qed
  have "foldE ?body cs rows = Inr (rows @ concat (map (\<lambda>b. map (quotient_entry s bs b) (canonical_actions s)) cs))"
    if "set cs \<subseteq> set bs" for cs rows
    using that
  proof (induction cs arbitrary: rows)
    case (Cons b cs)
    then have b: "b \<in> set bs" and cs: "set cs \<subseteq> set bs" by auto
    show ?case unfolding foldE.simps body [OF b] bindE_Inr Cons.IH [OF cs] by simp
  qed simp
  from this [of bs "[]"] show ?thesis unfolding verify_quotient_def quotient_table_def by simp
qed

text \<open>Following a row of the table is following any member of its block.\<close>

lemma quotient_table_step:
  assumes s: "snapshot_ok s" and ok: "blocks_ok s bs" and fixed: "fixed_point s bs"
    and i: "i < length bs" and q: "q \<in> set (pb_members (bs ! i))" and a: "a \<in> set (canonical_actions s)"
  shows "quotient_step (quotient_table s bs) i a = nat (owner_of bs (target_of s q a))"
proof -
  let ?key = "\<lambda>r. (qr_source r, qr_action r)"
  have b: "bs ! i \<in> set bs" using i by simp
  have "distinct (map ?key (quotient_table s bs))"
  proof -
    have "map ?key (quotient_table s bs) = concat (map (\<lambda>b. map (Pair (pb_index b)) (canonical_actions s)) bs)"
      unfolding quotient_table_def map_concat by (simp add: comp_def quotient_entry_def)
    also have "\<dots> = concat (map (\<lambda>i. map (Pair i) (canonical_actions s)) (map pb_index bs))"
      by (simp add: comp_def)
    finally have keys: "map ?key (quotient_table s bs)
      = concat (map (\<lambda>i. map (Pair i) (canonical_actions s)) (map pb_index bs))" .
    have "distinct xs \<Longrightarrow> distinct (concat (map (\<lambda>i. map (Pair i) (canonical_actions s)) xs))" for xs :: "int list"
      using s by (induction xs) (auto simp: distinct_map inj_on_def snapshot_actions)
    moreover have "distinct (map pb_index bs)"
      using blocks_ok_numbering [OF ok] by (simp add: block_numbering_ok_def distinct_map)
    ultimately show ?thesis unfolding keys by blast
  qed
  moreover have "quotient_entry s bs (bs ! i) a \<in> set (quotient_table s bs)"
    using b a by (auto simp: quotient_table_def)
  ultimately have "dget (foldl (\<lambda>d r. dset (qr_source r, qr_action r) (qr_target r) d) [] (quotient_table s bs))
      (?key (quotient_entry s bs (bs ! i) a)) = Some (qr_target (quotient_entry s bs (bs ! i) a))"
    by (rule foldl_dset_distinct)
  then show ?thesis
    using blocks_ok_nth [OF ok i] fixed_member(2) [OF s ok fixed b q a]
    by (simp add: quotient_step_def quotient_entry_def)
qed

section \<open>Machines that simulate the snapshot\<close>

text \<open>A numbering of states under which a machine on numbers answers words as the snapshot does.\<close>

definition simulates ::
  "finite_snapshot \<Rightarrow> (nat \<Rightarrow> pystr \<Rightarrow> nat) \<Rightarrow> (nat \<Rightarrow> response) \<Rightarrow> nat \<Rightarrow> (nat \<Rightarrow> pystr \<Rightarrow> bool) \<Rightarrow> bool" where
  "simulates s step resp n names \<longleftrightarrow> closed_below n (set (canonical_actions s)) step
     \<and> (\<forall>i q. i < n \<and> names i q \<longrightarrow> q \<in> set (state_ids s) \<and> resp i = response_of s q
          \<and> (\<forall>a \<in> set (canonical_actions s). names (step i a) (target_of s q a)))"

lemma simulates_word:
  assumes "simulates s step resp n names"
  shows "set w \<subseteq> set (canonical_actions s) \<Longrightarrow> i < n \<Longrightarrow> names i q \<Longrightarrow>
    resp (foldl step i w) = response_of s (foldl (target_of s) q w)"
proof (induction w arbitrary: i q)
  case Nil
  with assms show ?case by (simp add: simulates_def)
next
  case (Cons a w)
  with assms have "step i a < n" "names (step i a) (target_of s q a)"
    by (auto simp: simulates_def closed_below_def)
  with Cons show ?case by simp
qed

lemma simulates_separates:
  assumes "simulates s step resp n names" "set w \<subseteq> set (canonical_actions s)" "i < n" "j < n" "names i q" "names j r"
  shows "separates step resp w i j \<longleftrightarrow> separates (target_of s) (response_of s) w q r"
  unfolding separates_def
  using simulates_word [OF assms(1,2,3,5)] simulates_word [OF assms(1,2,4,6)] by simp

lemma quotient_simulates:
  assumes s: "snapshot_ok s" and ok: "blocks_ok s bs" and fixed: "fixed_point s bs"
  shows "simulates s (quotient_step (quotient_table s bs)) (block_response s bs) (length bs)
    (\<lambda>i q. i < length bs \<and> q \<in> set (pb_members (bs ! i)))"
proof -
  have member: "quotient_step (quotient_table s bs) i a < length bs
      \<and> target_of s q a \<in> set (pb_members (bs ! quotient_step (quotient_table s bs) i a))"
    if i: "i < length bs" and q: "q \<in> set (pb_members (bs ! i))" and a: "a \<in> set (canonical_actions s)" for i q a
  proof -
    have "q \<in> set (state_ids s)" using block_members(2) [OF s ok nth_mem [OF i]] q by blast
    from block_index_of [OF ok snapshot_closed [OF s this a]]
    obtain j where "j < length bs" "target_of s q a \<in> set (pb_members (bs ! j))"
      "owner_of bs (target_of s q a) = int j" .
    then show ?thesis by (simp add: quotient_table_step [OF s ok fixed i q a])
  qed
  show ?thesis
    unfolding simulates_def closed_below_def
  proof (intro conjI allI impI ballI)
    fix i a assume i: "i < length bs" and a: "a \<in> set (canonical_actions s)"
    show "quotient_step (quotient_table s bs) i a < length bs"
      using member [OF i block_members(3) [OF s ok nth_mem [OF i]] a] by simp
  next
    fix i q assume "i < length bs \<and> i < length bs \<and> q \<in> set (pb_members (bs ! i))"
    then have i: "i < length bs" and q: "q \<in> set (pb_members (bs ! i))" by auto
    show "q \<in> set (state_ids s)" using block_members(2) [OF s ok nth_mem [OF i]] q by blast
    show "block_response s bs i = response_of s q"
      using fixed_member(1) [OF s ok fixed nth_mem [OF i] q] by (simp add: block_response_def)
    fix a assume a: "a \<in> set (canonical_actions s)"
    show "quotient_step (quotient_table s bs) i a < length bs"
      "target_of s q a \<in> set (pb_members (bs ! quotient_step (quotient_table s bs) i a))"
      using member [OF i q a] by simp_all
  qed
qed

lemma ordered_ids:
  assumes "snapshot_ok s"
  shows "set (ordered_state_ids s) = set (state_ids s)" "distinct (ordered_state_ids s)"
    "length (ordered_state_ids s) = length (sn_states s)"
  using assms by (simp_all add: ordered_state_ids_def snapshot_ok_def state_ids_def [symmetric])

lemma state_rank_ok:
  assumes "snapshot_ok s" "q \<in> set (state_ids s)"
  shows "state_rank s q < length (sn_states s)" "ordered_state_ids s ! state_rank s q = q"
proof -
  note o = ordered_ids [OF assms(1)]
  obtain i where i: "i < length (sn_states s)" "ordered_state_ids s ! i = q"
    using assms(2) o by (metis in_set_conv_nth)
  let ?z = "zip (ordered_state_ids s) [0..<length (ordered_state_ids s)]"
  have "(q, i) \<in> set ?z" using i o(3) by (force simp: in_set_conv_nth)
  then have "dget ?z q = Some i" using o(2) by (intro map_of_is_SomeI) auto
  with i show "state_rank s q < length (sn_states s)" "ordered_state_ids s ! state_rank s q = q"
    by (simp_all add: state_rank_def)
qed

lemma raw_simulates:
  assumes s: "snapshot_ok s"
  shows "simulates s (raw_step s) (raw_response s) (length (sn_states s))
    (\<lambda>i q. i < length (sn_states s) \<and> ordered_state_ids s ! i = q)"
proof -
  have id: "ordered_state_ids s ! i \<in> set (state_ids s)" if "i < length (sn_states s)" for i
    using ordered_ids [OF s] that by (metis nth_mem)
  note rk = state_rank_ok [OF s snapshot_closed [OF s id]]
  show ?thesis
    unfolding simulates_def closed_below_def
    using rk id by (auto simp: raw_step_def raw_response_def)
qed

section \<open>The words of a certificate\<close>

definition exact_word :: "finite_snapshot \<Rightarrow> partition_block list \<Rightarrow> pair \<Rightarrow> distinguishing_witness \<Rightarrow> bool" where
  "exact_word s bs p w \<longleftrightarrow> dw_left w = int (fst p) \<and> dw_right w = int (snd p)
     \<and> best_word (canonical_actions s) (target_of s) (response_of s) (rep bs (fst p)) (rep bs (snd p)) (dw_actions w)"

lemma exact_words_unique:
  assumes s: "snapshot_ok s" and "list_all2 (exact_word s bs) ps us" "list_all2 (exact_word s bs) ps vs"
  shows "us = vs"
proof (rule nth_equalityI)
  show "length us = length vs" using assms(2,3) by (metis list_all2_lengthD)
  show "us ! i = vs ! i" if "i < length us" for i
  proof -
    have "exact_word s bs (ps ! i) (us ! i)" "exact_word s bs (ps ! i) (vs ! i)"
      using that assms(2,3) by (auto simp: list_all2_conv_all_nth)
    then show ?thesis
      unfolding exact_word_def
      by (intro distinguishing_witness.equality) (blast intro: best_word_unique [OF snapshot_actions(2) [OF s]] | simp)+
  qed
qed

text \<open>At the fixed point representatives of different blocks are told apart by short words.\<close>

lemma blocks_separated:
  assumes s: "snapshot_ok s" and lev: "level s k bs" and p: "p \<in> set (index_pairs (length bs))"
  shows "\<not> agree_words s k (rep bs (fst p)) (rep bs (snd p))"
proof
  assume a: "agree_words s k (rep bs (fst p)) (rep bs (snd p))"
  note ok = levelD(1) [OF lev]
  have i: "fst p < length bs" "snd p < length bs" "fst p \<noteq> snd p" using p by (auto simp: set_index_pairs)
  note m = block_members [OF s ok nth_mem [OF i(1)]] block_members [OF s ok nth_mem [OF i(2)]]
  from a levelD(2) [OF lev m(4) m(8)] have "same_group (groups_of bs) (rep bs (fst p)) (rep bs (snd p))" by simp
  then have "owner_of bs (rep bs (fst p)) = owner_of bs (rep bs (snd p))"
    by (simp add: owner_of_same [OF ok m(4) m(8)])
  with owner_of_block [OF ok i(1) m(3)] owner_of_block [OF ok i(2) m(7)] i(3) show False by simp
qed

lemma words_ok:
  assumes s: "snapshot_ok s" and lev: "level s k bs" and k: "k < 128"
    and sim: "simulates s step resp n names"
    and f: "\<And>p. p \<in> set (index_pairs (length bs)) \<Longrightarrow> f p \<in> set (index_pairs n)
      \<and> (names (fst (f p)) (rep bs (fst p)) \<and> names (snd (f p)) (rep bs (snd p))
         \<or> names (fst (f p)) (rep bs (snd p)) \<and> names (snd (f p)) (rep bs (fst p)))"
    and p: "p \<in> set (index_pairs (length bs))"
  defines "dist \<equiv> pair_distances n (canonical_actions s) step resp"
  shows "dget dist (f p) \<noteq> None"
    and "\<exists>w. bindE (rebuild_word err (canonical_actions s) step dist (the (dget dist (f p))) (f p))
        (mk_distinguishing_witness (int (fst p)) (int (snd p))) = Inr w \<and> exact_word s bs p w"
proof -
  let ?A = "canonical_actions s"
  let ?x = "rep bs (fst p)" and ?y = "rep bs (snd p)"
  have cl: "closed_below n (set ?A) step" using sim by (simp add: simulates_def)
  note d = pair_distances_correct(1) [OF cl, of resp, folded dist_def]
  have fp: "f p \<in> set (index_pairs n)" "fst (f p) < n" "snd (f p) < n" using f [OF p] by (auto simp: set_index_pairs)
  have sep: "separates step resp w (fst (f p)) (snd (f p)) \<longleftrightarrow> separates (target_of s) (response_of s) w ?x ?y"
    if "set w \<subseteq> set ?A" for w
    using f [OF p] simulates_separates [OF sim that fp(2,3)]
      separates_sym [of "target_of s" "response_of s" w ?x ?y] by blast
  have "\<not> agree (set ?A) step resp k (fst (f p)) (snd (f p))"
    using blocks_separated [OF s lev p] unfolding not_agree_separates by (meson sep)
  then obtain e where e: "e \<le> k" "separation (set ?A) step resp e (f p)" by (rule separation_ex)
  with fp(1) d have get: "dget dist (f p) = Some e" by blast
  then show "dget dist (f p) \<noteq> None" by simp
  from rebuild_word_best [OF cl d fp(1) e(2)] obtain w where
    w: "rebuild_word err ?A step dist e (f p) = Inr w"
      "best_word ?A step resp (fst (f p)) (snd (f p)) w" "length w = e" by blast
  have best: "best_word ?A (target_of s) (response_of s) ?x ?y w"
    using w(2) sep unfolding best_word_def by blast
  have "length bs \<le> 128"
    using blocks_ok_length(1) [OF levelD(1) [OF lev] s] s by (simp add: snapshot_ok_def caps)
  with p have "mk_distinguishing_witness (int (fst p)) (int (snd p)) w
      = Inr \<lparr>dw_left = int (fst p), dw_right = int (snd p), dw_actions = w\<rparr>"
    using w(3) e(1) k best snapshot_actions(1) [OF s]
    by (auto simp: mk_distinguishing_witness_def bounded_int_def set_index_pairs best_word_def caps)
  with w(1) get best show "\<exists>w. bindE (rebuild_word err ?A step dist (the (dget dist (f p))) (f p))
      (mk_distinguishing_witness (int (fst p)) (int (snd p))) = Inr w \<and> exact_word s bs p w"
    by (auto simp: exact_word_def)
qed

lemma mapE_ex:
  "(\<And>x. x \<in> set xs \<Longrightarrow> \<exists>y. f x = Inr y \<and> P x y) \<Longrightarrow> \<exists>ys. mapE f xs = Inr ys \<and> list_all2 P xs ys"
proof (induction xs)
  case (Cons x xs)
  from Cons.prems [of x] obtain y where y: "f x = Inr y" "P x y" by auto
  from Cons obtain ys where "mapE f xs = Inr ys" "list_all2 P xs ys" by (meson list.set_intros(2))
  with y show ?case by auto
qed simp

lemma word_charge_nonneg: "0 \<le> m \<Longrightarrow> 0 \<le> word_charge m ds"
  unfolding word_charge_def by (intro sum_list_nonneg) auto

lemma pair_charge_nonneg: "0 \<le> k \<Longrightarrow> 0 \<le> int (n * (n - 1) div 2) * (int m + k + 1)"
  by simp

lemma two_charges:
  assumes "0 \<le> n" "0 \<le> m" "r = bindE (charge cat n l) (\<lambda>l. bindE (charge cat m l) (\<lambda>l. Inr (ws, l)))"
  shows "(\<forall>e. r = Inl e \<longrightarrow> e = work_cap_error) \<and> (\<forall>x. r = Inr x \<longrightarrow> fst x = ws)"
proof (cases "charge cat n l")
  case (Inl e)
  with assms(3) charge_error [OF assms(1) Inl] show ?thesis by simp
next
  case (Inr l')
  with assms show ?thesis by (cases "charge cat m l'") (auto dest: charge_error)
qed

lemma produce_words:
  assumes s: "snapshot_ok s" and lev: "level s k bs" and k: "k < 128" and fixed: "fixed_point s bs"
  obtains ws where "list_all2 (exact_word s bs) (index_pairs (length bs)) ws"
    and "\<forall>l e. produce_distinguishing_witnesses s bs (quotient_table s bs) l = Inl e \<longrightarrow> e = work_cap_error"
    and "\<forall>l x. produce_distinguishing_witnesses s bs (quotient_table s bs) l = Inr x \<longrightarrow> fst x = ws"
proof -
  note ok = levelD(1) [OF lev]
  note sim = quotient_simulates [OF s ok fixed]
  let ?step = "quotient_step (quotient_table s bs)" and ?ps = "index_pairs (length bs)"
  define dist where "dist = pair_distances (length bs) (canonical_actions s) ?step (block_response s bs)"
  have cl: "closed_below (length bs) (set (canonical_actions s)) ?step" using sim by (simp add: simulates_def)
  have f: "p \<in> set ?ps \<and> (fst p < length bs \<and> rep bs (fst p) \<in> set (pb_members (bs ! fst p))
      \<and> snd p < length bs \<and> rep bs (snd p) \<in> set (pb_members (bs ! snd p)))" if "p \<in> set ?ps" for p
    using that block_members(3) [OF s ok] by (auto simp: set_index_pairs)
  have f': "p \<in> set ?ps \<and> ((fst p < length bs \<and> rep bs (fst p) \<in> set (pb_members (bs ! fst p)))
        \<and> (snd p < length bs \<and> rep bs (snd p) \<in> set (pb_members (bs ! snd p)))
      \<or> (fst p < length bs \<and> rep bs (snd p) \<in> set (pb_members (bs ! fst p)))
        \<and> (snd p < length bs \<and> rep bs (fst p) \<in> set (pb_members (bs ! snd p))))" if "p \<in> set ?ps" for p
    using f [OF that] by blast
  note w = words_ok [OF s lev k sim, where f = "\<lambda>p. p", OF f', folded dist_def]
  have full: "length dist = length ?ps"
    unfolding dist_def pair_distances_full [OF cl] using w(1) unfolding dist_def by blast
  let ?err = "''producer could not reconstruct a shortest witness''"
  have "\<exists>ws. mapE (\<lambda>p. bindE (rebuild_word ?err (canonical_actions s) ?step dist (the (dget dist p)) p)
      (mk_distinguishing_witness (int (fst p)) (int (snd p)))) ?ps = Inr ws
    \<and> list_all2 (exact_word s bs) ?ps ws"
    by (rule mapE_ex) (rule w(2))
  then obtain ws where run: "mapE (\<lambda>p. bindE (rebuild_word ?err (canonical_actions s) ?step dist (the (dget dist p)) p)
      (mk_distinguishing_witness (int (fst p)) (int (snd p)))) ?ps = Inr ws"
    and exact: "list_all2 (exact_word s bs) ?ps ws" by blast
  show thesis
  proof (rule that [OF exact])
    have "(\<forall>e. produce_distinguishing_witnesses s bs (quotient_table s bs) l = Inl e \<longrightarrow> e = work_cap_error) \<and> (\<forall>x. produce_distinguishing_witnesses s bs (quotient_table s bs) l = Inr x \<longrightarrow> fst x = ws)" for l
    proof -
    define kk where "kk = (if bs = [] then 0 else (case find_state s (hd (pb_members (bs ! 0))) of
                 Some st \<Rightarrow> int (length (ss_coordinates st)) | None \<Rightarrow> 0))"
    have "0 \<le> kk" by (simp add: kk_def split: option.split)
    note run2 = two_charges [OF pair_charge_nonneg [OF this, of "length bs" "length (canonical_actions s)"]
        word_charge_nonneg [of "int (length (canonical_actions s))" "map (\<lambda>p. the (dget dist p)) ?ps"],
        of "produce_distinguishing_witnesses s bs (quotient_table s bs) l" Distinguishing l ws]
    have "produce_distinguishing_witnesses s bs (quotient_table s bs) l
      = bindE (charge Distinguishing (int (length bs * (length bs - 1) div 2)
            * (int (length (canonical_actions s)) + kk + 1)) l) (\<lambda>l.
          bindE (charge Distinguishing (word_charge (int (length (canonical_actions s)))
            (map (\<lambda>p. the (dget dist p)) ?ps)) l) (\<lambda>l. Inr (ws, l)))"
      unfolding produce_distinguishing_witnesses_def Let_def dist_def [symmetric] kk_def [symmetric] full run
      by simp
    then show ?thesis by (rule run2 [rotated]) simp
    qed
    then show "\<forall>l e. produce_distinguishing_witnesses s bs (quotient_table s bs) l = Inl e \<longrightarrow> e = work_cap_error"
      "\<forall>l x. produce_distinguishing_witnesses s bs (quotient_table s bs) l = Inr x \<longrightarrow> fst x = ws" by blast+
  qed
qed

lemma verify_words:
  assumes s: "snapshot_ok s" and lev: "level s k bs" and k: "k < 128"
  obtains ws where "list_all2 (exact_word s bs) (index_pairs (length bs)) ws"
    and "\<forall>l e. verify_distinguishing_words s bs l = Inl e \<longrightarrow> e = work_cap_error"
    and "\<forall>l x. verify_distinguishing_words s bs l = Inr x \<longrightarrow> fst x = ws"
proof -
  note ok = levelD(1) [OF lev]
  note sim = raw_simulates [OF s]
  let ?n = "length (sn_states s)" and ?ps = "index_pairs (length bs)" and ?f = "representative_pair s bs"
  define dist where "dist = pair_distances ?n (canonical_actions s) (raw_step s) (raw_response s)"
  have f: "?f p \<in> set (index_pairs ?n) \<and>
      ((fst (?f p) < ?n \<and> ordered_state_ids s ! fst (?f p) = rep bs (fst p))
        \<and> (snd (?f p) < ?n \<and> ordered_state_ids s ! snd (?f p) = rep bs (snd p))
      \<or> (fst (?f p) < ?n \<and> ordered_state_ids s ! fst (?f p) = rep bs (snd p))
        \<and> (snd (?f p) < ?n \<and> ordered_state_ids s ! snd (?f p) = rep bs (fst p)))"
    if p: "p \<in> set ?ps" for p
  proof -
    have i: "fst p < length bs" "snd p < length bs" "fst p \<noteq> snd p" using p by (auto simp: set_index_pairs)
    note m = block_members [OF s ok nth_mem [OF i(1)]] block_members [OF s ok nth_mem [OF i(2)]]
    note r = state_rank_ok [OF s m(4)] state_rank_ok [OF s m(8)]
    have "rep bs (fst p) \<noteq> rep bs (snd p)"
      using owner_of_block [OF ok i(1) m(3)] owner_of_block [OF ok i(2) m(7)] i(3) by auto
    then have "state_rank s (rep bs (fst p)) \<noteq> state_rank s (rep bs (snd p))" using r(2,4) by metis
    with r show ?thesis by (auto simp: representative_pair_def ordered_pair_def set_index_pairs)
  qed
  note w = words_ok [OF s lev k sim, where f = ?f, OF f, folded dist_def]
  let ?err = "''state-pair verifier could not reconstruct a shortest word''"
  let ?word = "\<lambda>p. bindE (rebuild_word ?err (canonical_actions s) (raw_step s) dist
      (the (dget dist (?f p))) (?f p)) (mk_distinguishing_witness (int (fst p)) (int (snd p)))"
  have "\<exists>ws. mapE ?word ?ps = Inr ws \<and> list_all2 (exact_word s bs) ?ps ws"
    by (rule mapE_ex) (rule w(2))
  then obtain ws where run: "mapE ?word ?ps = Inr ws" and exact: "list_all2 (exact_word s bs) ?ps ws" by blast
  have full: "list_ex (\<lambda>p. dget dist (?f p) = None) ?ps = False"
    using w(1) by (auto simp: list_ex_iff simp del: split_paired_Ex split_paired_All)
  show thesis
  proof (rule that [OF exact])
    have "(\<forall>e. verify_distinguishing_words s bs l = Inl e \<longrightarrow> e = work_cap_error) \<and> (\<forall>x. verify_distinguishing_words s bs l = Inr x \<longrightarrow> fst x = ws)" for l
    proof -
    have "0 \<le> coordinate_count s" by (simp add: coordinate_count_def)
    note run2 = two_charges [OF pair_charge_nonneg [OF this, of ?n "length (canonical_actions s)"]
        word_charge_nonneg [of "int (length (canonical_actions s))" "map (\<lambda>p. the (dget dist (?f p))) ?ps"],
        of "verify_distinguishing_words s bs l" Distinguishing l ws]
    have "verify_distinguishing_words s bs l
      = bindE (charge Distinguishing (int (?n * (?n - 1) div 2)
            * (int (length (canonical_actions s)) + coordinate_count s + 1)) l) (\<lambda>l.
          bindE (charge Distinguishing (word_charge (int (length (canonical_actions s)))
            (map (\<lambda>p. the (dget dist (?f p))) ?ps)) l) (\<lambda>l. Inr (ws, l)))"
      unfolding verify_distinguishing_words_def Let_def dist_def [symmetric] full run by simp
    then show ?thesis by (rule run2 [rotated]) simp
    qed
    then show "\<forall>l e. verify_distinguishing_words s bs l = Inl e \<longrightarrow> e = work_cap_error"
      "\<forall>l x. verify_distinguishing_words s bs l = Inr x \<longrightarrow> fst x = ws" by blast+
  qed
qed

end
