(* ===== verification/PartitionExact.thy ===== *)
theory PartitionExact
  imports PartitionCertify
begin

text \<open>
  What producing and accepting a certificate mean. Both the producer's result and every
  certificate the verifier accepts are the exact answer for the admitted snapshot: blocks of
  indistinguishable states, the quotient of every member, and best distinguishing words.
\<close>

section \<open>The exact answer\<close>

definition coarsest_blocks :: "finite_snapshot \<Rightarrow> partition_block list \<Rightarrow> bool" where
  "coarsest_blocks s bs \<longleftrightarrow> blocks_ok s bs
     \<and> (\<forall>x \<in> set (state_ids s). \<forall>y \<in> set (state_ids s).
          same_group (groups_of bs) x y \<longleftrightarrow> same_behaviour s x y)"

definition exact_rows :: "finite_snapshot \<Rightarrow> partition_block list \<Rightarrow> quotient_row list \<Rightarrow> bool" where
  "exact_rows s bs rows \<longleftrightarrow> map (\<lambda>r. (qr_source r, qr_action r)) rows = quotient_keys (length bs) (canonical_actions s)
     \<and> (\<forall>i < length bs. \<forall>q \<in> set (pb_members (bs ! i)). \<forall>a \<in> set (canonical_actions s).
          \<lparr>qr_source = int i, qr_action = a, qr_target = owner_of bs (target_of s q a)\<rparr> \<in> set rows)"

definition exact_answer ::
  "finite_snapshot \<Rightarrow> refinement_stage list \<Rightarrow> partition_block list \<Rightarrow> quotient_row list
   \<Rightarrow> distinguishing_witness list \<Rightarrow> bool" where
  "exact_answer s tr bs rows ws \<longleftrightarrow> tr \<noteq> [] \<and> bs = rs_blocks (last tr)
     \<and> (\<forall>i < length tr. level s i (rs_blocks (tr ! i))) \<and> length tr \<le> length bs
     \<and> coarsest_blocks s bs \<and> exact_rows s bs rows
     \<and> list_all2 (exact_word s bs) (index_pairs (length bs)) ws"

lemma exact_answerI:
  assumes "tr \<noteq> []" "bs = rs_blocks (last tr)" "length tr \<le> length bs" "coarsest_blocks s bs"
    "exact_rows s bs rows" "list_all2 (exact_word s bs) (index_pairs (length bs)) ws"
    "\<And>i. i < length tr \<Longrightarrow> level s i (rs_blocks (tr ! i))"
  shows "exact_answer s tr bs rows ws"
  unfolding exact_answer_def by (intro conjI allI impI assms)

lemma quotient_table_exact:
  assumes s: "snapshot_ok s" and ok: "blocks_ok s bs" and fixed: "fixed_point s bs"
  shows "exact_rows s bs (quotient_table s bs)"
proof -
  let ?A = "canonical_actions s"
  have "map (\<lambda>r. (qr_source r, qr_action r)) (quotient_table s bs) = concat (map (\<lambda>i. map (Pair i) ?A) (map pb_index bs))"
    unfolding quotient_table_def map_concat by (simp add: comp_def quotient_entry_def)
  moreover have "map pb_index bs = map int [0..<length bs]"
    using blocks_ok_numbering [OF ok] by (simp add: block_numbering_ok_def)
  ultimately have "map (\<lambda>r. (qr_source r, qr_action r)) (quotient_table s bs) = quotient_keys (length bs) ?A"
    by (simp add: quotient_keys_def comp_def)
  moreover have "\<lparr>qr_source = int i, qr_action = a, qr_target = owner_of bs (target_of s q a)\<rparr> \<in> set (quotient_table s bs)"
    if i: "i < length bs" and q: "q \<in> set (pb_members (bs ! i))" and a: "a \<in> set ?A" for i q a
  proof -
    have "quotient_entry s bs (bs ! i) a \<in> set (quotient_table s bs)"
      using i a by (auto simp: quotient_table_def)
    moreover have "quotient_entry s bs (bs ! i) a
      = \<lparr>qr_source = int i, qr_action = a, qr_target = owner_of bs (target_of s q a)\<rparr>"
      using fixed_member(2) [OF s ok fixed nth_mem [OF i] q a] blocks_ok_nth [OF ok i]
      by (simp add: quotient_entry_def)
    ultimately show ?thesis by simp
  qed
  ultimately show ?thesis by (simp add: exact_rows_def)
qed

lemma fixed_point_blocks:
  "snapshot_ok s \<Longrightarrow> level s k bs \<Longrightarrow> fixed_point s bs \<Longrightarrow> coarsest_blocks s bs"
  using levelD(1) fixed_point_coarsest unfolding coarsest_blocks_def by blast

lemma level_unique: "snapshot_ok s \<Longrightarrow> level s k bs \<Longrightarrow> level s k cs \<Longrightarrow> bs = cs"
  by (rule blocks_ok_unique) (auto simp: level_def)

section \<open>The producer\<close>

lemma refine_loop_start:
  assumes s: "snapshot_ok s" and p0: "response_partition s = Inr p0" and st: "mk_refinement_stage 0 False p0 = Inr st0"
  shows "trace_ok s [st0]" "p0 = rs_blocks (last [st0])" "p0 \<noteq> []" "level s 0 p0"
proof -
  obtain bs where bs: "response_partition s = Inr bs" "level s 0 bs" using response_partition_level [OF s] .
  with p0 show lev: "level s 0 p0" by simp
  with blocks_ok_length(2) [OF levelD(1) s] show ne: "p0 \<noteq> []" by blast
  have "st0 = \<lparr>rs_index = 0, rs_changed = False, rs_blocks = p0\<rparr>"
    using mk_stage_ok [OF s levelD(1) [OF lev], of 0 False] st by simp
  with ne lev show "trace_ok s [st0]" "p0 = rs_blocks (last [st0])" by (simp_all add: trace_ok_def)
qed

lemma mk_certificate_fields:
  assumes "mk_certificate c = Inr d"
  shows "pc_trace d = pc_trace c \<and> pc_final_blocks d = pc_final_blocks c
    \<and> pc_quotient_rows d = pc_quotient_rows c \<and> pc_witnesses d = pc_witnesses c
    \<and> pc_action_ids d = pc_action_ids c \<and> pc_work_counters d = pc_work_counters c"
  using assms by (auto simp: mk_certificate_def bindE_eq_Inr split: if_splits)

lemma bind_if_Inr: "(if b then Inl e else m) = Inr x \<longleftrightarrow> \<not> b \<and> m = Inr x"
  by simp

lemma trace_ok_length:
  assumes "snapshot_ok s" "trace_ok s tr"
  shows "length tr \<le> length (rs_blocks (last tr))" "level s (length tr - 1) (rs_blocks (last tr))" "length tr - 1 < 128"
proof -
  have ne: "tr \<noteq> []" using assms(2) by (simp add: trace_ok_def)
  then have i: "length tr - 1 < length tr" by (cases tr) auto
  with assms(2) have l: "level s (length tr - 1) (rs_blocks (tr ! (length tr - 1)))"
    "length tr - 1 < length (rs_blocks (tr ! (length tr - 1)))" unfolding trace_ok_def by blast+
  then show "length tr \<le> length (rs_blocks (last tr))" "level s (length tr - 1) (rs_blocks (last tr))"
    using ne i by (simp_all add: last_conv_nth)
  with blocks_ok_length(1) [OF levelD(1) [OF l(1)] assms(1)] l(2) assms(1) show "length tr - 1 < 128"
    by (simp add: snapshot_ok_def caps)
qed

lemma refine_exact:
  assumes "refine_exact_partition ib ad = Inr c"
  shows "exact_answer (as_snapshot ad) (pc_trace c) (pc_final_blocks c) (pc_quotient_rows c) (pc_witnesses c)"
proof -
  let ?s = "as_snapshot ad"
  obtain l0 l1 l2 l3 l4 p0 st0 bs tr rows ws where
    prep: "prepare_source ib ad new_ledger = Inr l0"
    and p0: "response_partition ?s = Inr p0" and st0: "mk_refinement_stage 0 False p0 = Inr st0"
    and loop: "refine_loop ?s (length (sn_states ?s) - 1) p0 [st0] l1 = Inr (bs, tr, l2)"
    and quo: "producer_quotient ?s bs = Inr rows"
    and words: "produce_distinguishing_witnesses ?s bs rows l3 = Inr (ws, l4)"
    and c: "pc_trace c = tr" "pc_final_blocks c = bs" "pc_quotient_rows c = rows" "pc_witnesses c = ws"
    using assms unfolding refine_exact_partition_def Let_def
    by (auto simp: bindE_eq_Inr bind_if_Inr dest!: mk_certificate_fields)
  have s: "snapshot_ok ?s" by (rule prepare_source_ok [OF prep])
  note start = refine_loop_start [OF s p0 st0]
  have "length (sn_states ?s) \<le> length p0 + (length (sn_states ?s) - 1)" using start(3) by (cases p0) auto
  from refine_loop_sound [OF s start(1,2) this] loop
  have tr: "trace_ok ?s tr" "bs = rs_blocks (last tr)" and fixed: "fixed_point ?s bs" by fastforce+
  note len = trace_ok_length [OF s tr(1), folded tr(2)]
  note ok = levelD(1) [OF len(2)]
  have rows: "rows = quotient_table ?s bs" using quo producer_quotient_ok [OF s ok fixed] by simp
  have "\<exists>vs. list_all2 (exact_word ?s bs) (index_pairs (length bs)) vs
      \<and> (\<forall>l x. produce_distinguishing_witnesses ?s bs (quotient_table ?s bs) l = Inr x \<longrightarrow> fst x = vs)"
    by (rule produce_words [OF s len(2,3) fixed]) (intro exI conjI)
  then obtain vs where vs: "list_all2 (exact_word ?s bs) (index_pairs (length bs)) vs"
    "\<forall>l x. produce_distinguishing_witnesses ?s bs (quotient_table ?s bs) l = Inr x \<longrightarrow> fst x = vs"
    by (elim exE conjE)
  have ws: "ws = vs" using vs(2) words [unfolded rows] by fastforce
  show ?thesis
    unfolding c rows ws
  proof (rule exact_answerI)
    show "tr \<noteq> []" using tr(1) by (simp add: trace_ok_def)
    show "level ?s i (rs_blocks (tr ! i))" if "i < length tr" for i
      using tr(1) that unfolding trace_ok_def by blast
  qed (fact tr(2) len(1) vs(1) fixed_point_blocks [OF s len(2) fixed] quotient_table_exact [OF s ok fixed])+
qed

section \<open>The verifier\<close>

lemma verify_stages:
  assumes s: "snapshot_ok s" and run: "foldE (verify_stage s) sts (p0, l) = Inr r" and p0: "level s 0 p0"
  shows "fst r = rs_blocks (last (\<lparr>rs_index = 0, rs_changed = False, rs_blocks = p0\<rparr> # sts))
    \<and> level s (length sts) (fst r) \<and> length sts < length (fst r)
    \<and> (\<forall>i < length sts. level s (Suc i) (rs_blocks (sts ! i)))"
  using run
proof (rule foldE_rule [where P = "\<lambda>seen r. fst r = rs_blocks (last (\<lparr>rs_index = 0, rs_changed = False, rs_blocks = p0\<rparr> # seen))
    \<and> level s (length seen) (fst r) \<and> length seen < length (fst r)
    \<and> (\<forall>i < length seen. level s (Suc i) (rs_blocks (seen ! i)))"])
  show "fst (p0, l) = rs_blocks (last [\<lparr>rs_index = 0, rs_changed = False, rs_blocks = p0\<rparr>])
    \<and> level s (length []) (fst (p0, l)) \<and> length [] < length (fst (p0, l))
    \<and> (\<forall>i < length []. level s (Suc i) (rs_blocks ([] ! i)))"
    using p0 blocks_ok_length(2) [OF levelD(1) [OF p0] s] by simp
next
  fix seen st todo r t
  assume inv: "fst r = rs_blocks (last (\<lparr>rs_index = 0, rs_changed = False, rs_blocks = p0\<rparr> # seen))
      \<and> level s (length seen) (fst r) \<and> length seen < length (fst r)
      \<and> (\<forall>i < length seen. level s (Suc i) (rs_blocks (seen ! i)))"
    and step: "verify_stage s st r = Inr t"
  from inv have lev: "level s (length seen) (fst r)" by (elim conjE)
  obtain cs where cs: "producer_refinement_pass s (fst r) = Inr cs" "level s (Suc (length seen)) cs"
    using pass_level [OF s lev] by blast
  have t: "fst t = cs" "rs_blocks st = cs" "length (fst r) < length cs"
    using step cs(1) by (auto simp: verify_stage_def bindE_eq_Inr passes_equal split: if_splits)
  with inv cs(2) show "fst t = rs_blocks (last (\<lparr>rs_index = 0, rs_changed = False, rs_blocks = p0\<rparr> # seen @ [st]))
      \<and> level s (length (seen @ [st])) (fst t) \<and> length (seen @ [st]) < length (fst t)
      \<and> (\<forall>i < length (seen @ [st]). level s (Suc i) (rs_blocks ((seen @ [st]) ! i)))"
    by (auto simp: nth_append less_Suc_eq)
qed

lemma certificate_trace_nonempty:
  assumes "certificate_from_dict (certificate_to_dict c) = Inr d"
  shows "pc_trace d \<noteq> []"
  using assms by (auto simp: certificate_from_dict_def mk_certificate_def trace_checks_def Let_def bindE_eq_Inr split: if_splits)

lemma verify_exact:
  assumes "verify_exact_partition_core ib ad c = Inr l"
  shows "exact_answer (as_snapshot ad) (pc_trace c) (pc_final_blocks c) (pc_quotient_rows c) (pc_witnesses c)"
    and "certificate_bindings c = source_bindings ad" and "pc_action_ids c = canonical_actions (as_snapshot ad)"
    and "pc_fixed_point_passes c = 1" and "certificate_from_dict (certificate_to_dict c) = Inr c"
proof -
  let ?s = "as_snapshot ad"
  obtain l0 l1 l2 l3 l4 p0 bs rows ws where
    prep: "prepare_source ib ad new_ledger = Inr l0"
    and codec: "certificate_from_dict (certificate_to_dict c) = Inr c"
    and bind: "certificate_bindings c = source_bindings ad" "pc_action_ids c = canonical_actions ?s"
    and p0: "response_partition ?s = Inr p0" "rs_blocks (hd (pc_trace c)) = p0"
    and stages: "foldE (verify_stage ?s) (tl (pc_trace c)) (p0, l1) = Inr (bs, l2)"
    and fixed: "verifier_relation_refinement ?s bs = Inr bs" "pc_fixed_point_passes c = 1" "pc_final_blocks c = bs"
    and quo: "verify_quotient ?s bs = Inr rows" "pc_quotient_rows c = rows"
    and words: "verify_distinguishing_words ?s bs l3 = Inr (ws, l4)" "pc_witnesses c = ws"
    using assms unfolding verify_exact_partition_core_def Let_def
    by (auto simp: bindE_eq_Inr bind_if_Inr)
  show "certificate_bindings c = source_bindings ad" "pc_action_ids c = canonical_actions ?s"
    "pc_fixed_point_passes c = 1" "certificate_from_dict (certificate_to_dict c) = Inr c"
    using bind fixed(2) codec by simp_all
  have s: "snapshot_ok ?s" by (rule prepare_source_ok [OF prep])
  have ne: "pc_trace c \<noteq> []" by (rule certificate_trace_nonempty [OF codec])
  then obtain st sts where tr: "pc_trace c = st # sts" by (cases "pc_trace c") auto
  obtain bs0 where "response_partition ?s = Inr bs0" "level ?s 0 bs0" using response_partition_level [OF s] .
  with p0(1) have l0: "level ?s 0 p0" by simp
  note v = verify_stages [OF s stages [unfolded tr list.sel] l0]
  have lev: "level ?s (length sts) bs" and few: "length sts < length bs"
    and deeper: "\<forall>i < length sts. level ?s (Suc i) (rs_blocks (sts ! i))"
    using v unfolding fst_conv by blast+
  have last: "bs = rs_blocks (last (pc_trace c))"
    using conjunct1 [OF v] p0(2) tr by (cases "sts = []") simp_all
  have levels: "level ?s i (rs_blocks (pc_trace c ! i))" if "i < length (pc_trace c)" for i
    using that deeper l0 p0(2) tr by (cases i) simp_all
  have fx: "fixed_point ?s bs" using fixed(1) by (simp add: fixed_point_def passes_equal)
  note ok = levelD(1) [OF lev]
  have "length (sn_states ?s) \<le> 128" using s by (simp add: snapshot_ok_def caps)
  then have k: "length sts < 128" using few blocks_ok_length(1) [OF ok s] by linarith
  have rows: "rows = quotient_table ?s bs" using quo(1) verify_quotient_ok [OF s ok fx] by simp
  have "\<exists>vs. list_all2 (exact_word ?s bs) (index_pairs (length bs)) vs
      \<and> (\<forall>l x. verify_distinguishing_words ?s bs l = Inr x \<longrightarrow> fst x = vs)"
    by (rule verify_words [OF s lev k]) (intro exI conjI)
  then obtain vs where vs: "list_all2 (exact_word ?s bs) (index_pairs (length bs)) vs"
    "\<forall>l x. verify_distinguishing_words ?s bs l = Inr x \<longrightarrow> fst x = vs"
    by (elim exE conjE)
  have ws: "ws = vs" using vs(2) words(1) by fastforce
  show "exact_answer ?s (pc_trace c) (pc_final_blocks c) (pc_quotient_rows c) (pc_witnesses c)"
    unfolding fixed(3) quo(2) words(2) rows ws
  proof (rule exact_answerI)
    show "length (pc_trace c) \<le> length bs" using few tr by simp
  qed (fact ne last levels vs(1) fixed_point_blocks [OF s lev fx] quotient_table_exact [OF s ok fx])+
qed

section \<open>One certificate per snapshot\<close>

text \<open>The exact answer is unique, so the tables of any two accepted certificates agree.\<close>

lemma quotient_target_unique:
  assumes s: "snapshot_ok s" and bs: "blocks_ok s bs" and r: "exact_rows s bs rows" "exact_rows s bs rows'"
  shows "rows = rows'"
proof (rule nth_equalityI)
  let ?key = "\<lambda>r. (qr_source r, qr_action r)"
  have keys: "map ?key rows = quotient_keys (length bs) (canonical_actions s)"
    "map ?key rows' = quotient_keys (length bs) (canonical_actions s)"
    using r by (simp_all add: exact_rows_def)
  then show len: "length rows = length rows'" by (metis length_map)
  have "distinct xs \<Longrightarrow> distinct (concat (map (\<lambda>i. map (Pair (int i)) (canonical_actions s)) xs))" for xs
    by (induction xs) (auto simp: distinct_map inj_on_def snapshot_actions [OF s])
  then have d: "distinct (quotient_keys (length bs) (canonical_actions s))" by (simp add: quotient_keys_def)
  have inj: "r = r'" if "?key r = ?key r'" "r \<in> set rs" "r' \<in> set rs"
    "map ?key rs = quotient_keys (length bs) (canonical_actions s)" for r r' rs
    using that d by (metis distinct_map inj_onD)
  show "rows ! j = rows' ! j" if j: "j < length rows" for j
  proof -
    have k: "?key (rows ! j) = ?key (rows' ! j)" using keys j len by (metis (no_types, lifting) nth_map)
    have "?key (rows ! j) \<in> set (quotient_keys (length bs) (canonical_actions s))"
      using keys(1) j by (metis (no_types, lifting) length_map nth_map nth_mem)
    then obtain i a where ia: "i < length bs" "a \<in> set (canonical_actions s)" "?key (rows ! j) = (int i, a)"
      by (auto simp: quotient_keys_def)
    let ?e = "\<lparr>qr_source = int i, qr_action = a, qr_target = owner_of bs (target_of s (rep bs i) a)\<rparr>"
    have "?e \<in> set rows" "?e \<in> set rows'"
      using r ia block_members(3) [OF s bs nth_mem [OF ia(1)]] by (auto simp: exact_rows_def)
    with inj [OF _ _ _ keys(1), of "rows ! j" ?e] inj [OF _ _ _ keys(2), of "rows' ! j" ?e] ia(3) k j len
    show ?thesis by (metis nth_mem quotient_row.select_convs(1,2))
  qed
qed

lemma exact_answerD:
  assumes "exact_answer s tr bs rows ws"
  shows "blocks_ok s bs" "coarsest_blocks s bs" "exact_rows s bs rows"
    "list_all2 (exact_word s bs) (index_pairs (length bs)) ws"
    "\<And>x y. x \<in> set (state_ids s) \<Longrightarrow> y \<in> set (state_ids s) \<Longrightarrow>
       same_group (groups_of bs) x y \<longleftrightarrow> same_behaviour s x y"
  using assms unfolding exact_answer_def coarsest_blocks_def by blast+

lemma exact_answer_unique:
  assumes s: "snapshot_ok s" and a: "exact_answer s tr bs rows ws" "exact_answer s tr' bs' rows' ws'"
  shows "bs = bs' \<and> rows = rows' \<and> ws = ws'"
proof -
  note d = exact_answerD [OF a(1)] and e = exact_answerD [OF a(2)]
  have bs: "bs = bs'"
    by (rule blocks_ok_unique [OF d(1) e(1) s]) (simp add: d(5) e(5))
  have "rows = rows'" using quotient_target_unique [OF s d(1,3)] e(3) bs by blast
  moreover have "ws = ws'" using exact_words_unique [OF s d(4)] e(4) bs by blast
  ultimately show ?thesis using bs by simp
qed

end
