(* ===== verification/PartitionEval.thy ===== *)
theory PartitionEval
  imports PartitionExact
begin

text \<open>
  Charging a text character by character against the cap is charging its length at once when it is
  ASCII. The equations of this theory say so for the three places that scan texts; they and the
  ones on words serve kernel evaluation as well.
\<close>

section \<open>ASCII texts\<close>

definition ascii_text :: "pystr \<Rightarrow> bool" where
  "ascii_text s \<longleftrightarrow> list_all (\<lambda>c. uint c < 128) s"

lemma ascii_width: "uint c < 128 \<Longrightarrow> utf8_width c = 1 \<and> \<not> is_surrogate c"
  by (simp add: utf8_width_def is_surrogate_def word_less_def word_le_def)

section \<open>The ledger\<close>

lemma total_units_add: "total_units (add_units cat n l) = total_units l + n"
  by (cases cat) (simp_all add: total_units_def)

lemma add_units_add: "add_units cat n (add_units cat m l) = add_units cat (m + n) l"
  by (cases cat) simp_all

lemma charge_charge:
  "0 \<le> m \<Longrightarrow> 0 \<le> n \<Longrightarrow> bindE (charge cat m l) (charge cat n) = charge cat (m + n) l"
  by (simp add: charge_def total_units_add add_units_add)

text \<open>A loop of unit steps that add up is one step of the length.\<close>

lemma foldE_unit_steps:
  assumes unit: "\<And>c x. c \<in> set s \<Longrightarrow> f c x = g 1 x"
    and add: "\<And>n x. 0 \<le> n \<Longrightarrow> bindE (g 1 x) (g n) = g (1 + n) x"
    and "s \<noteq> []"
  shows "foldE f s x = g (int (length s)) x"
  using assms(1,3)
proof (induction s arbitrary: x)
  case (Cons c s)
  show ?case
  proof (cases "s = []")
    case True
    with Cons.prems(1) show ?thesis by (cases "g 1 x") auto
  next
    case False
    with Cons have "foldE f s = g (int (length s))" by (intro ext) auto
    then show ?thesis using Cons.prems(1) add [of "int (length s)" x] by (simp add: add.commute)
  qed
qed simp

lemma charge_text_code:
  "charge_text cat wh s l = (if s = [] then Inl (wh @ '' must be a nonempty exact string'')
     else if ascii_text s then charge cat (int (length s)) l
     else foldE (\<lambda>c l. if is_surrogate c then Inl (wh @ '' contains an invalid UTF-8 surrogate'')
                  else charge cat (int (utf8_width c)) l) s l)"
proof -
  have "foldE (\<lambda>c l. if is_surrogate c then Inl e else charge cat (int (utf8_width c)) l) s l
      = charge cat (int (length s)) l" if "s \<noteq> []" "ascii_text s" for e
    using that by (intro foldE_unit_steps) (auto simp: ascii_text_def list_all_iff ascii_width charge_charge)
  then show ?thesis by (simp add: charge_text_def nonempty_string_def)
qed

section \<open>The certificate's shape and its wire form\<close>

lemma charge_wire_add: "0 \<le> n \<Longrightarrow> bindE (charge_wire 1 u) (charge_wire n) = charge_wire (1 + n) u"
  by (simp add: charge_wire_def algebra_simps)

lemma scan_text_code:
  "scan_text wh t u = (if ascii_text t then charge_wire (1 + int (length t)) u
     else bindE (charge_wire 1 u)
       (foldE (\<lambda>c u. if is_surrogate c then Inl (wh @ '' contains an invalid surrogate'')
                   else charge_wire (int (utf8_width c)) u) t))"
proof -
  have "bindE (charge_wire 1 u) (foldE (\<lambda>c u. if is_surrogate c then Inl e
      else charge_wire (int (utf8_width c)) u) t) = charge_wire (1 + int (length t)) u"
    if a: "ascii_text t" for e
  proof (cases "t = []")
    case True
    then show ?thesis by (cases "charge_wire 1 u") auto
  next
    case False
    have "foldE (\<lambda>c u. if is_surrogate c then Inl e else charge_wire (int (utf8_width c)) u) t x
        = charge_wire (int (length t)) x" for x
      using False a by (intro foldE_unit_steps charge_wire_add)
        (auto simp: ascii_text_def list_all_iff ascii_width)
    then have "foldE (\<lambda>c u. if is_surrogate c then Inl e else charge_wire (int (utf8_width c)) u) t
        = charge_wire (int (length t))" by (rule ext)
    then show ?thesis by (simp only: charge_wire_add of_nat_0_le_iff)
  qed
  then show ?thesis by (simp add: scan_text_def)
qed

lemma shape_charge_add:
  "0 \<le> n \<Longrightarrow> bindE (shape_charge 1 False st) (shape_charge n False) = shape_charge (1 + n) False st"
  by (cases st; cases "snd st") (auto simp: shape_charge_def algebra_simps)

lemma scan_locator_code:
  "scan_locator wh t st = (if t = [] then Inl (wh @ '' is not an exact nonempty string'')
     else if ascii_text t then shape_charge (int (length t)) False st
     else foldE (\<lambda>c st. if is_surrogate c then Inl (wh @ '' contains an invalid surrogate'')
                        else shape_charge (int (utf8_width c)) False st) t st)"
proof -
  have "foldE (\<lambda>c st. if is_surrogate c then Inl e else shape_charge (int (utf8_width c)) False st) t st
      = shape_charge (int (length t)) False st" if "t \<noteq> []" "ascii_text t" for e
    using that by (intro foldE_unit_steps shape_charge_add)
      (auto simp: ascii_text_def list_all_iff ascii_width)
  then show ?thesis by (simp add: scan_locator_def)
qed

section \<open>The cost of a JSON value\<close>

text \<open>What the preflight charges for an ASCII value of admissible depth and integers.\<close>

fun json_cost :: "json \<Rightarrow> int" where
  "json_cost (JObj kvs) = 1 + sum_list (map (\<lambda>(k, v). 1 + int (length k) + json_cost v) kvs)"
| "json_cost (JArr xs) = 1 + sum_list (map json_cost xs)"
| "json_cost (JStr s) = 1 + int (length s)"
| "json_cost (JInt i) = max 1 (int ((bit_length (nat \<bar>i\<bar>) + 7) div 8))"
| "json_cost _ = 1"

fun json_plain :: "nat \<Rightarrow> json \<Rightarrow> bool" where
  "json_plain d (JObj kvs) = (d \<le> 128 \<and> list_all (\<lambda>(k, v). ascii_text k \<and> json_plain (Suc d) v) kvs)"
| "json_plain d (JArr xs) = (d \<le> 128 \<and> list_all (json_plain (Suc d)) xs)"
| "json_plain d (JStr s) = (d \<le> 128 \<and> ascii_text s)"
| "json_plain d (JInt i) = (d \<le> 128 \<and> - 9223372036854775808 \<le> i \<and> i \<le> MAX_SIGNED_64)"
| "json_plain d JOther = False"
| "json_plain d v = (d \<le> 128)"

lemma json_cost_nonneg: "0 \<le> json_cost v"
proof (induction v rule: json_cost.induct)
  case (1 kvs)
  then show ?case by (auto intro!: add_nonneg_nonneg sum_list_nonneg split: prod.splits)
next
  case (2 xs)
  then show ?case by (auto intro!: add_nonneg_nonneg sum_list_nonneg)
qed simp_all

lemma charge_wire_charge: "0 \<le> m \<Longrightarrow> 0 \<le> n \<Longrightarrow> bindE (charge_wire m u) (charge_wire n) = charge_wire (m + n) u"
  by (simp add: charge_wire_def algebra_simps)

lemma foldE_costs:
  assumes "\<And>x u. x \<in> set xs \<Longrightarrow> f x u = charge_wire (c x) u" "\<And>x. x \<in> set xs \<Longrightarrow> 0 \<le> c x" "0 \<le> n"
  shows "bindE (charge_wire n u) (foldE f xs) = charge_wire (n + sum_list (map c xs)) u"
  using assms
proof (induction xs arbitrary: n)
  case Nil
  then show ?case by (cases "charge_wire n u") auto
next
  case (Cons x xs)
  have "bindE (charge_wire n u) (foldE f (x # xs)) = bindE (bindE (charge_wire n u) (f x)) (foldE f xs)"
    by (cases "charge_wire n u") auto
  also have "bindE (charge_wire n u) (f x) = charge_wire (n + c x) u"
    using Cons.prems charge_wire_charge [of n "c x" u] by (simp cong: bindE_cong)
  also have "bindE (charge_wire (n + c x) u) (foldE f xs) = charge_wire (n + c x + sum_list (map c xs)) u"
    using Cons.prems by (intro Cons.IH) auto
  finally show ?case by (simp add: add.assoc)
qed

lemma scan_json_cost: "json_plain d v \<Longrightarrow> scan_json wh d v u = charge_wire (json_cost v) u"
proof (induction v arbitrary: d u rule: json_cost.induct)
  case (1 kvs)
  have pair: "(\<lambda>(k, x) u. bindE (scan_text (wh @ '' key'') k u) (scan_json wh (Suc d) x)) kv w
      = charge_wire ((\<lambda>(k, v). 1 + int (length k) + json_cost v) kv) w" if kv: "kv \<in> set kvs" for kv w
  proof -
    obtain k x where x: "kv = (k, x)" by (cases kv)
    have a: "ascii_text k" "json_plain (Suc d) x" using 1(2) kv x by (auto simp: list_all_iff)
    have "scan_json wh (Suc d) x = charge_wire (json_cost x)"
      using 1(1) [OF kv x [symmetric] a(2)] by (intro ext)
    with a(1) show ?thesis
      by (simp add: x scan_text_code charge_wire_charge json_cost_nonneg)
  qed
  have "0 \<le> (\<lambda>(k, v). 1 + int (length k) + json_cost v) kv" for kv
    by (cases kv) (simp add: json_cost_nonneg)
  from foldE_costs [where n = 1, OF pair this] show ?case using 1(2) by simp
next
  case (2 xs)
  have "scan_json wh (Suc d) x w = charge_wire (json_cost x) w" if "x \<in> set xs" for x w
    using 2 that by (auto simp: list_all_iff)
  from foldE_costs [where n = 1, OF this json_cost_nonneg] show ?case using 2(2) by simp
qed (auto simp: scan_text_code)

lemma preflight_cost:
  assumes "json_plain 0 v"
  shows "strict_wire_preflight wh v = charge_wire (json_cost v) 0"
  using scan_json_cost [OF assms] by (simp add: strict_wire_preflight_def)

end
