(* ===== verification/SnapshotFacts.thy ===== *)
theory SnapshotFacts
  imports SnapshotForm LedgerAscii PartitionEval
begin

text \<open>
  The constructors of a snapshot on ASCII fields: canonical JSON of plain values is ASCII and never
  refused, digests in upper case are kept, and the order of members is that of their canonical text.
\<close>

section \<open>ASCII text\<close>

lemma ascii_simps [simp]:
  "ascii_text []" "ascii_text (xs @ ys) \<longleftrightarrow> ascii_text xs \<and> ascii_text ys"
  "ascii_text (c # s) \<longleftrightarrow> uint c < 128 \<and> ascii_text s"
  by (simp_all add: ascii_text_def)

lemma cp_of_char: "unat (of_nat (of_char c) :: codepoint) = of_char c"
proof -
  have "(of_char c :: nat) < 2 ^ LENGTH(21)" using less_le_trans [OF nat_of_char_less_256] by simp
  then show ?thesis by (simp add: unsigned_of_nat take_bit_nat_eq_self)
qed

lemma ascii_lit: "ascii_text (lit s) \<longleftrightarrow> list_all (\<lambda>c. of_char c < (128 :: int)) s"
proof -
  have "uint (of_nat (of_char c) :: codepoint) = of_char c" for c :: char
    using cp_of_char [of c] by (metis of_nat_of_char uint_nat)
  then show ?thesis by (simp add: ascii_text_def lit_def list_all_iff)
qed

lemma ascii_text_ok: "ascii_text t \<Longrightarrow> text_ok t"
  by (auto simp: ascii_text_def text_ok_def has_surrogate_def is_surrogate_def list_all_iff list_ex_iff
    word_le_def)

lemma ascii_utf8: "ascii_text t \<Longrightarrow> utf8 t = Some (utf8_raw t)"
  using ascii_text_ok by (auto simp: text_ok_def utf8_def)

lemma ascii_asc: "ascii_text t \<longleftrightarrow> list_all asc t"
proof -
  have "uint c < 128 \<longleftrightarrow> asc c" for c :: codepoint by (simp add: asc_def word_less_def)
  then show ?thesis by (simp add: ascii_text_def)
qed

lemma ascii_quoted: "ascii_text s \<Longrightarrow> ascii_text (quoted s)"
  using string_asc [of s] by (simp add: ascii_asc)

lemma ascii_decimal: "ascii_text (lit (decimal i))"
proof -
  have "ascii_text (lit (dec_nat n))" for n
    using number_asc [of n] by (simp add: ascii_asc decimal_def)
  then show ?thesis by (simp add: decimal_def lit_def)
qed

lemma ascii_join: "(\<And>x. x \<in> set xs \<Longrightarrow> ascii_text x) \<Longrightarrow> ascii_text (comma_join xs)"
  by (induction xs rule: comma_join.induct) auto

section \<open>Canonical JSON of plain values\<close>

lemma plain_dumps: "json_plain d v \<Longrightarrow> ascii_text (dumps v)"
proof (induction d v rule: json_plain.induct)
  case (1 d kvs)
  have "ascii_text ((\<lambda>(k, v). quoted k @ colon # dumps v) kv)" if kv: "kv \<in> set kvs" for kv
  proof -
    obtain k x where x: "kv = (k, x)" by (cases kv)
    with 1(2) kv have "ascii_text k" "json_plain (Suc d) x" by (auto simp: list_all_iff)
    with 1(1) [OF kv x [symmetric]] show ?thesis by (simp add: x ascii_quoted)
  qed
  then have "ascii_text (comma_join (map (\<lambda>(k, v). quoted k @ colon # dumps v) (sort_key fst kvs)))"
    by (intro ascii_join) auto
  then show ?case by simp
next
  case (2 d xs)
  then show ?case by (auto simp: list_all_iff intro!: ascii_join)
next
  case (4 d i)
  show ?case unfolding dumps.simps by (rule ascii_decimal)
qed (simp_all add: ascii_quoted ascii_lit)

lemma foldE_unit: "(\<And>x. x \<in> set xs \<Longrightarrow> f x () = Inr ()) \<Longrightarrow> foldE f xs () = Inr ()"
  by (induction xs) auto

lemma plain_depth: "json_plain d v \<Longrightarrow> d \<le> 128"
  by (cases "(d, v)" rule: json_plain.cases) auto

lemma plain_validated: "json_plain d v \<Longrightarrow> validate_identity_json d v = Inr ()"
proof (induction d v rule: json_plain.induct)
  case (1 d kvs)
  have "bindE (validate_identity_text (d + 1) k) (\<lambda>_. validate_identity_json (d + 1) x) = Inr ()"
    if "(k, x) \<in> set kvs" for k x
    using 1 that plain_depth [of "Suc d" x] by (auto simp: list_all_iff validate_identity_text_def ascii_utf8)
  with 1(2) show ?case by (auto intro!: foldE_unit)
next
  case (2 d xs)
  then show ?case by (auto simp: list_all_iff intro!: foldE_unit)
qed (auto simp: validate_identity_text_def ascii_utf8 int64_def MIN_SIGNED_64_def StrictJson.MAX_SIGNED_64_def
  PartitionData.MAX_SIGNED_64_def)

lemma plain_bytes: "json_plain 0 v \<Longrightarrow> identity_json_bytes v = Inr (utf8_raw (dumps v))"
  by (simp add: identity_json_bytes_def plain_validated ascii_utf8 plain_dumps)

section \<open>Payloads\<close>

text \<open>Scanning an object with one text member gives what the hook makes of it.\<close>

lemma loads_single:
  assumes "hook [(k, JStr s)] = Some v"
  shows "loads_with hook ints (dumps (JObj [(k, JStr s)])) = Some v"
proof -
  let ?rest = "concat (map escape k) @ quote_cp # colon # quoted s @ [rbrace]"
  have shape: "dumps (JObj [(k, JStr s)]) = lbrace # quote_cp # ?rest" by (simp add: quoted_def)
  have key: "scan_string ?rest = Some (k, colon # quoted s @ [rbrace])" by (rule scan_quoted)
  have str: "scan_string (concat (map escape s) @ quote_cp # [rbrace]) = Some (s, [rbrace])" by (rule scan_quoted)
  obtain m where m: "length (lbrace # quote_cp # ?rest) + 1 = Suc (Suc (Suc m))" by simp
  have "scan_value_with hook ints (Suc m) (quoted s @ [rbrace]) = Some (JStr s, [rbrace])"
    using str by (simp add: quoted_def scan_value_with.simps(3))
  then have "scan_members_with hook ints (Suc (Suc m)) ?rest = Some ([(k, JStr s)], [])"
    using key by (simp add: scan_members_with.simps(2) skip_def is_ws_def quoted_def)
  then have "scan_value_with hook ints (Suc (Suc (Suc m))) (lbrace # quote_cp # ?rest) = Some (v, [])"
    using assms by (simp add: scan_value_with.simps(3) skip_def is_ws_def)
  then show ?thesis unfolding loads_with_def shape m by (simp add: skip_def is_ws_def)
qed

definition single_json :: "pystr \<Rightarrow> pystr \<Rightarrow> json" where
  "single_json k s = JObj [(k, JStr s)]"

lemma plain_no_bom:
  assumes "ascii_text t"
  shows "take 3 (utf8_raw t) \<noteq> [0xEF, 0xBB, 0xBF]"
proof (cases t)
  case (Cons c cs)
  have c: "unat c < 128" using assms unfolding Cons ascii_asc by (simp add: asc_def word_less_nat_alt)
  then have "c \<le> 0x7F" by (simp add: word_le_nat_alt)
  then have "utf8_char c = [byte_of (unat c)]" by (simp add: utf8_char_def)
  moreover have "byte_of (unat c) \<noteq> 0xEF"
  proof
    assume "byte_of (unat c) = 0xEF"
    then have "unat (byte_of (unat c)) = 239" by simp
    with c show False by (simp add: unat_byte_of)
  qed
  ultimately show ?thesis by (simp add: Cons utf8_raw_def)
qed (simp add: utf8_raw_def)

lemma single_payload:
  assumes "ascii_text k" "ascii_text s"
  shows "mk_canonical_payload (dumps (single_json k s)) = Inr (dumps (single_json k s))"
proof -
  have plain: "json_plain 0 (single_json k s)" using assms by (simp add: single_json_def)
  note ascii = plain_dumps [OF plain]
  have "loads_with unique_object_from_pairs parse_any_int (dumps (single_json k s)) = Some (single_json k s)"
    unfolding single_json_def by (rule loads_single) (simp add: unique_object_from_pairs_def)
  then have "parse_identity_json (utf8_raw (dumps (single_json k s))) = Inr (single_json k s)"
    by (simp add: parse_identity_json_def plain_no_bom [OF ascii] utf8_decode_raw [OF ascii_text_ok [OF ascii]]
      plain_validated [OF plain] plain_bytes [OF plain])
  moreover have "dumps (single_json k s) \<noteq> []" by (simp add: single_json_def)
  moreover have "mk_canonical_payload t = Inr t"
    if "parse_identity_json (utf8_raw t) = Inr (JObj kvs)" "t \<noteq> []" "ascii_text t" for t kvs
    using that by (simp add: mk_canonical_payload_def ascii_utf8)
  ultimately show ?thesis using ascii unfolding single_json_def by blast
qed

section \<open>Digests\<close>

definition upper_digest :: "pystr \<Rightarrow> bool" where
  "upper_digest t \<longleftrightarrow> length t = 64 \<and> list_all (\<lambda>c. c \<in> set (lit ''0123456789ABCDEF'')) t"

lemma upper_digest_hex: "upper_digest (lit (sha256_hex m))"
proof -
  have "is_upper_hex64 (sha256_hex m)" by simp
  then show ?thesis
    unfolding upper_digest_def is_upper_hex64_def is_upper_hex_char_def list_all_iff lit_def set_map length_map
    by blast
qed

lemma upper_digestD:
  assumes "upper_digest t"
  shows "length t = 64" "t \<noteq> []" "ascii_text t" "digest_text wh t = Inr t" "contract_digest wh t = Inr t"
proof -
  have each: "uint c < 128 \<and> c \<in> set hex_codepoints \<and> upper_cp c = c" if "c \<in> set t" for c
  proof -
    have "c \<in> set (lit ''0123456789ABCDEF'')" using assms that by (simp add: upper_digest_def list_all_iff)
    then show ?thesis by (auto simp: lit_def hex_codepoints_def upper_cp_def)
  qed
  show len: "length t = 64" using assms by (simp add: upper_digest_def)
  then show "t \<noteq> []" by auto
  show "ascii_text t" using each by (simp add: ascii_text_def list_all_iff)
  have hex: "list_all (\<lambda>c. c \<in> set hex_codepoints) t" "map upper_cp t = t"
    using each by (auto simp: list_all_iff intro: map_idI)
  then show "contract_digest wh t = Inr t" by (simp add: contract_digest_def len)
  from hex len \<open>t \<noteq> []\<close> show "digest_text wh t = Inr t" by (simp add: digest_text_def nonempty_string_def)
qed

section \<open>The order of members\<close>

lemma append_le: "xs @ ys \<le> xs @ zs \<longleftrightarrow> ys \<le> zs" for xs :: "'a :: linorder list"
  by (induction xs) auto

lemma raw_append: "utf8_raw (xs @ ys) = utf8_raw xs @ utf8_raw ys"
  by (simp add: utf8_raw_def)

lemma raw_Cons: "utf8_raw (x # ys) = utf8_char x @ utf8_raw ys"
  by (simp add: utf8_raw_def)

lemma lit_Cons: "lit (c # s) = of_nat (of_char c) # lit s" by (simp add: lit_def)

lemma lit_le: "lit s \<le> lit t \<longleftrightarrow> map of_char s \<le> map (of_char :: char \<Rightarrow> nat) t"
proof (induction s arbitrary: t)
  case (Cons c s)
  then show ?case by (cases t) (auto simp: lit_Cons lit_def [of "[]"] word_less_nat_alt cp_of_char of_char_word21_inj)
qed (simp add: lit_def)

lemma sorted_state: "sort_key fst [(lit ''schema_version'', a), (lit ''state_id'', b), (lit ''payload'', c),
     (lit ''totalized_kind'', d), (lit ''response_coordinates'', e), (lit ''frame_digest'', f),
     (lit ''expansion_status'', g), (lit ''boundary_complete'', h), (lit ''truncated'', i), (lit ''live_handle'', j)]
  = [(lit ''boundary_complete'', h), (lit ''expansion_status'', g), (lit ''frame_digest'', f),
     (lit ''live_handle'', j), (lit ''payload'', c), (lit ''response_coordinates'', e), (lit ''schema_version'', a),
     (lit ''state_id'', b), (lit ''totalized_kind'', d), (lit ''truncated'', i)]"
  by (simp add: lit_le)

lemma sorted_payload: "sort_key fst [(lit ''schema_version'', a), (lit ''canonical_json'', b)]
  = [(lit ''canonical_json'', b), (lit ''schema_version'', a)]"
  by (simp add: lit_le)

lemma sorted_row: "sort_key fst [(lit ''schema_version'', a), (lit ''source_state_id'', b), (lit ''action_id'', c),
     (lit ''target_state_id'', d), (lit ''transition_semantics_digest'', e), (lit ''censor'', f)]
  = [(lit ''action_id'', c), (lit ''censor'', f), (lit ''schema_version'', a), (lit ''source_state_id'', b),
     (lit ''target_state_id'', d), (lit ''transition_semantics_digest'', e)]"
  by (simp add: lit_le)

lemma mapE_map: "(\<And>x. x \<in> set xs \<Longrightarrow> f x = Inr (g x)) \<Longrightarrow> mapE f xs = Inr (map g xs)"
  by (induction xs) auto

lemma sort_members_sorted:
  assumes "\<And>x. x \<in> set xs \<Longrightarrow> json_plain 0 (to_json x)" "sorted (map (\<lambda>x. utf8_raw (dumps (to_json x))) xs)"
  shows "sort_members to_json xs = Inr xs"
proof -
  have "mapE (\<lambda>x. bindE (canonical_row_key (to_json x)) (\<lambda>k. Inr (k, x))) xs
      = Inr (map (\<lambda>x. (utf8_raw (dumps (to_json x)), x)) xs)"
    using assms(1) by (intro mapE_map) (simp add: canonical_row_key_def plain_bytes liftE_def)
  moreover have "sort_key fst (map (\<lambda>x. (utf8_raw (dumps (to_json x)), x)) xs)
      = map (\<lambda>x. (utf8_raw (dumps (to_json x)), x)) xs"
    by (rule sort_key_id_if_sorted) (use assms(2) in \<open>simp add: comp_def\<close>)
  ultimately show ?thesis by (simp add: sort_members_def comp_def)
qed

end
