(* ===== verification/PartitionExample.thy ===== *)
theory PartitionExample
  imports SnapshotFacts
begin

text \<open>
  A small admitted snapshot, run through the verifier: an open state, the closed state and the
  sink, one action. Identifiers stay folded; what the run needs of them are the facts proved first.
\<close>

section \<open>The snapshot\<close>

definition ex_digest :: pystr where
  "ex_digest = replicate 64 48"

definition ex_id :: "char \<Rightarrow> pystr" where
  "ex_id c = SYNTHETIC_FIXTURE_ID_PREFIX @ lit [c]"

definition ex_payload :: "char \<Rightarrow> pystr" where
  "ex_payload c = dumps (single_json (lit ''k'') (lit [c]))"

definition ex_names :: "pystr list" where
  "ex_names = [lit ''r'']"

definition ex_schema_digest :: pystr where
  "ex_schema_digest = lit (sha256_hex (utf8_raw (dumps (coordinate_schema_json ex_names))))"

definition ex_vocabulary_digest :: pystr where
  "ex_vocabulary_digest = lit (sha256_hex (utf8_raw (dumps (vocabulary_json ex_schema_digest))))"

definition ex_state :: "char \<Rightarrow> totalized_status \<Rightarrow> synthetic_state" where
  "ex_state c k = \<lparr>ss_id = ex_id c, ss_payload = ex_payload c, ss_kind = k, ss_coordinates = [(0, 1)],
     ss_frame_digest = ex_digest, ss_sealed = True, ss_boundary_complete = True, ss_truncated = False,
     ss_live_handle = NOT_APPLICABLE\<rparr>"

definition ex_row :: "char \<Rightarrow> char \<Rightarrow> transition_row" where
  "ex_row q t = \<lparr>tr_source = ex_id q, tr_action = ex_id (CHR ''x''), tr_target = ex_id t,
     tr_semantics_digest = ex_digest, tr_censor = NOT_APPLICABLE\<rparr>"

definition ex_snapshot :: finite_snapshot where
  "ex_snapshot = \<lparr>sn_domain = \<lparr>di_environment_digest = ex_digest, di_frame_digest = ex_digest,
       di_transition_semantics_digest = ex_digest, di_seed_set_digest = ex_digest,
       di_action_alphabet_digest = ex_digest, di_domain_payload_digest = ex_digest\<rparr>,
     sn_coordinate_names = ex_names, sn_coordinate_schema_digest = ex_schema_digest,
     sn_vocabulary_digest = ex_vocabulary_digest,
     sn_seeds = [ex_id (CHR ''a'')],
     sn_states = [ex_state (CHR ''a'') TS_OPEN, ex_state (CHR ''b'') TS_CLOSED, ex_state (CHR ''c'') TS_SINK],
     sn_actions = [\<lparr>sa_id = ex_id (CHR ''x''), sa_payload = ex_payload (CHR ''x'')\<rparr>],
     sn_transitions = [ex_row (CHR ''a'') (CHR ''b''), ex_row (CHR ''b'') (CHR ''b''), ex_row (CHR ''c'') (CHR ''c'')]\<rparr>"

definition ex_binding :: identity_binding where
  "ex_binding = \<lparr>ib_identities = (\<lambda>_. Inr ()), ib_domain = (\<lambda>_. Inr ex_digest)\<rparr>"

definition ex_admitted :: admitted_snapshot where
  "ex_admitted = \<lparr>as_snapshot = ex_snapshot,
     as_report = \<lparr>ar_snapshot_sha256 = ex_digest, ar_totalized_state_count = 3,
       ar_concrete_state_count = 1, ar_action_count = 1, ar_transition_row_count = 3\<rparr>,
     as_evidence_scope = SYNTHETIC_EVIDENCE_SCOPE\<rparr>"

named_theorems ex_facts \<open>facts about the identifiers of the example\<close>

lemma lit_facts [ex_facts]:
  "lit s = [] \<longleftrightarrow> s = []" "[] = lit s \<longleftrightarrow> s = []" "length (lit s) = length s"
  by (simp_all add: lit_def)

lemmas [ex_facts] = ascii_lit

lemma ex_id_facts [ex_facts]:
  "ex_id c = ex_id d \<longleftrightarrow> c = d" "ex_id c \<noteq> []" "[] \<noteq> ex_id c" "length (ex_id c) = 19"
  "prefix SYNTHETIC_FIXTURE_ID_PREFIX (ex_id c)"
  by (simp_all add: ex_id_def SYNTHETIC_FIXTURE_ID_PREFIX_def)

lemma ex_id_ascii [ex_facts]: "ascii_text (ex_id c) \<longleftrightarrow> of_char c < (128 :: int)"
proof -
  have "ascii_text (xs @ ys) \<longleftrightarrow> ascii_text xs \<and> ascii_text ys" for xs ys
    by (simp add: ascii_text_def)
  then show ?thesis by (simp add: ex_id_def SYNTHETIC_FIXTURE_ID_PREFIX_def ascii_lit)
qed

lemma ex_digest_facts [ex_facts]:
  "ex_digest \<noteq> []" "[] \<noteq> ex_digest" "length ex_digest = 64" "ascii_text ex_digest"
  "digest_text wh ex_digest = Inr ex_digest"
  "contract_digest wh ex_digest = Inr ex_digest"
proof -
  have d: "upper_digest ex_digest" by (simp add: upper_digest_def ex_digest_def list_all_iff lit_def)
  show "ex_digest \<noteq> []" "[] \<noteq> ex_digest" "length ex_digest = 64" "ascii_text ex_digest"
    "digest_text wh ex_digest = Inr ex_digest" "contract_digest wh ex_digest = Inr ex_digest"
    using upper_digestD [OF d] by (simp_all add: eq_commute [of "[]"])
qed

lemma ex_schema_facts [ex_facts]:
  "ex_schema_digest \<noteq> []" "[] \<noteq> ex_schema_digest" "length ex_schema_digest = 64" "ascii_text ex_schema_digest"
  "digest_text wh ex_schema_digest = Inr ex_schema_digest"
  "contract_digest wh ex_schema_digest = Inr ex_schema_digest"
  using upper_digestD [OF upper_digest_hex [of "utf8_raw (dumps (coordinate_schema_json ex_names))"]]
  by (simp_all add: ex_schema_digest_def eq_commute [of "[]"])

lemma ex_vocabulary_facts [ex_facts]:
  "ex_vocabulary_digest \<noteq> []" "[] \<noteq> ex_vocabulary_digest" "length ex_vocabulary_digest = 64"
  "ascii_text ex_vocabulary_digest"
  "digest_text wh ex_vocabulary_digest = Inr ex_vocabulary_digest"
  "contract_digest wh ex_vocabulary_digest = Inr ex_vocabulary_digest"
  using upper_digestD [OF upper_digest_hex [of "utf8_raw (dumps (vocabulary_json ex_schema_digest))"]]
  by (simp_all add: ex_vocabulary_digest_def eq_commute [of "[]"])

lemma ex_payload_text:
  "c \<in> set ''abcdx'' \<Longrightarrow> ex_payload c = [0x7B, 0x22, 0x6B, 0x22, 0x3A, 0x22] @ lit [c] @ [0x22, 0x7D]"
  by (auto simp: ex_payload_def single_json_def quoted_def escape_def lit_def)

lemma ex_payload_facts [ex_facts]:
  "c \<in> set ''abcdx'' \<Longrightarrow> length (ex_payload c) = 9" "ex_payload c \<noteq> []" "[] \<noteq> ex_payload c"
  "of_char c < (128 :: int) \<Longrightarrow> ascii_text (ex_payload c)"
  "c \<in> set ''abcdx'' \<Longrightarrow> d \<in> set ''abcdx'' \<Longrightarrow> ex_payload c = ex_payload d \<longleftrightarrow> c = d"
  "of_char c < (128 :: int) \<Longrightarrow> mk_canonical_payload (ex_payload c) = Inr (ex_payload c)"
proof -
  show "ex_payload c \<noteq> []" "[] \<noteq> ex_payload c" by (simp_all add: ex_payload_def single_json_def)
  show "c \<in> set ''abcdx'' \<Longrightarrow> length (ex_payload c) = 9" by (simp add: ex_payload_text del: list.set)
  show "of_char c < (128 :: int) \<Longrightarrow> ascii_text (ex_payload c)"
    unfolding ex_payload_def by (rule plain_dumps [of 0]) (simp add: single_json_def ascii_lit)
  show "c \<in> set ''abcdx'' \<Longrightarrow> d \<in> set ''abcdx'' \<Longrightarrow> ex_payload c = ex_payload d \<longleftrightarrow> c = d"
    by (simp add: ex_payload_text del: list.set)
  show "of_char c < (128 :: int) \<Longrightarrow> mk_canonical_payload (ex_payload c) = Inr (ex_payload c)"
    unfolding ex_payload_def by (rule single_payload) (simp_all add: ascii_lit)
qed

lemma ex_decimals [ex_facts]: "decimal 0 = ''0''" "decimal 1 = ''1''"
  by (simp_all add: decimal_def dec_nat.simps digit_def char_of_def bit_Suc_0_iff)

section \<open>Preparing the source\<close>

lemma ex_charge_source:
  "charge_semantic_source_units ex_snapshot new_ledger = Inr (new_ledger\<lparr>semantic_input_units := 1219\<rparr>)"
  unfolding charge_semantic_source_units_def
  by (simp add: ex_snapshot_def state_texts_def ex_state_def action_texts_def row_texts_def ex_row_def
      domain_texts_def ex_names_def charge_text_code ex_facts charge_def total_units_def new_ledger_def caps)

lemma ex_snapshot_actions: "canonical_actions ex_snapshot = [ex_id (CHR ''x'')]"
  by (simp add: canonical_actions_def ex_snapshot_def)

lemma ex_ids: "state_ids ex_snapshot = [ex_id (CHR ''a''), ex_id (CHR ''b''), ex_id (CHR ''c'')]"
  by (simp add: state_ids_def ex_snapshot_def ex_state_def)

lemma ex_target:
  "target_of ex_snapshot (ex_id (CHR ''a'')) (ex_id (CHR ''x'')) = ex_id (CHR ''b'')"
  "target_of ex_snapshot (ex_id (CHR ''b'')) (ex_id (CHR ''x'')) = ex_id (CHR ''b'')"
  "target_of ex_snapshot (ex_id (CHR ''c'')) (ex_id (CHR ''x'')) = ex_id (CHR ''c'')"
  by (simp_all add: target_of_def transition_target_def ex_snapshot_def ex_row_def ex_facts)

lemma ex_find:
  "find_state ex_snapshot (ex_id (CHR ''a'')) = Some (ex_state (CHR ''a'') TS_OPEN)"
  "find_state ex_snapshot (ex_id (CHR ''b'')) = Some (ex_state (CHR ''b'') TS_CLOSED)"
  "find_state ex_snapshot (ex_id (CHR ''c'')) = Some (ex_state (CHR ''c'') TS_SINK)"
  by (simp_all add: find_state_def ex_snapshot_def ex_state_def ex_facts)

lemma ex_response:
  "response_of ex_snapshot (ex_id (CHR ''a'')) = (''open'', [(0, 1)])"
  "response_of ex_snapshot (ex_id (CHR ''b'')) = (''closed'', [(0, 1)])"
  "response_of ex_snapshot (ex_id (CHR ''c'')) = (''sink'', [(0, 1)])"
  by (simp_all add: response_of_def ex_find response_key_def ex_state_def)

lemma ex_key:
  "payload_key ex_snapshot (ex_id (CHR ''a'')) = [0x7B, 0x22, 0x6B, 0x22, 0x3A, 0x22, 97, 0x22, 0x7D]"
  "payload_key ex_snapshot (ex_id (CHR ''b'')) = [0x7B, 0x22, 0x6B, 0x22, 0x3A, 0x22, 98, 0x22, 0x7D]"
  "payload_key ex_snapshot (ex_id (CHR ''c'')) = [0x7B, 0x22, 0x6B, 0x22, 0x3A, 0x22, 99, 0x22, 0x7D]"
  by (simp_all add: payload_key_def ex_find ex_state_def ex_payload_text utf8_raw_def lit_def utf8_char_def byte_of_def)

lemma ex_reach:
  "open_reach (map (\<lambda>st. (ss_id st, ss_kind st)) (sn_states ex_snapshot))
     (\<lambda>q. map (target_of ex_snapshot q) (map sa_id (sn_actions ex_snapshot)))
     (sn_seeds ex_snapshot, sn_seeds ex_snapshot) = [ex_id (CHR ''a'')]"
  by (subst open_reach.simps, simp add: ex_snapshot_def [THEN arg_cong [where f = sn_states]]
      ex_snapshot_def [THEN arg_cong [where f = sn_actions]] ex_snapshot_def [THEN arg_cong [where f = sn_seeds]]
      ex_target ex_state_def push_open_def ex_facts, subst open_reach.simps, simp)

lemma ex_parts:
  "sn_states ex_snapshot = [ex_state (CHR ''a'') TS_OPEN, ex_state (CHR ''b'') TS_CLOSED, ex_state (CHR ''c'') TS_SINK]"
  "sn_actions ex_snapshot = [\<lparr>sa_id = ex_id (CHR ''x''), sa_payload = ex_payload (CHR ''x'')\<rparr>]"
  "sn_transitions ex_snapshot = [ex_row (CHR ''a'') (CHR ''b''), ex_row (CHR ''b'') (CHR ''b''), ex_row (CHR ''c'') (CHR ''c'')]"
  "sn_seeds ex_snapshot = [ex_id (CHR ''a'')]" "sn_coordinate_names ex_snapshot = ex_names"
  "di_transition_semantics_digest (sn_domain ex_snapshot) = ex_digest"
  "di_frame_digest (sn_domain ex_snapshot) = ex_digest"
  "di_domain_payload_digest (sn_domain ex_snapshot) = ex_digest"
  "di_action_alphabet_digest (sn_domain ex_snapshot) = ex_digest"
  "sn_vocabulary_digest ex_snapshot = ex_vocabulary_digest"
  "sn_coordinate_schema_digest ex_snapshot = ex_schema_digest" "length ex_names = 1"
  by (simp_all add: ex_snapshot_def ex_names_def)

lemma ex_counts: "count_checks ex_snapshot = Inr ()"
  by (simp add: count_checks_def ex_parts ex_state_def of_kind_def ex_facts caps)

lemma ex_rows:
  "foldE (\<lambda>st _. state_check ex_snapshot st) (sn_states ex_snapshot) () = Inr ()"
  "foldE (\<lambda>r _. row_check ex_snapshot r) (sn_transitions ex_snapshot) () = Inr ()"
  by (simp_all add: state_check_def row_check_def ex_parts ex_state_def ex_row_def ex_facts)

lemma ex_total: "table_total_checks ex_snapshot = Inr ()"
proof -
  have "set (map (\<lambda>r. (tr_source r, tr_action r)) (sn_transitions ex_snapshot))
      = set (map ss_id (sn_states ex_snapshot)) \<times> set (map sa_id (sn_actions ex_snapshot))"
    by (auto simp: ex_parts ex_state_def ex_row_def)
  then show ?thesis
    unfolding table_total_checks_def Let_def ex_reach
    by (simp add: ex_parts ex_state_def ex_row_def of_kind_def ex_target ex_facts)
qed

definition ex_prepared :: work_ledger where
  "ex_prepared = new_ledger\<lparr>semantic_input_units := 1219, source_validation_units := 10\<rparr>"

lemma ex_prepare: "prepare_source ex_binding ex_admitted new_ledger = Inr ex_prepared"
proof -
  have shape: "preflight_source_shape ex_admitted = Inr ()"
    by (simp add: preflight_source_shape_def ex_admitted_def ex_parts fixed_string_def ex_facts caps)
  have report: "validate_synthetic_finite_snapshot ex_binding ex_snapshot = Inr (as_report ex_admitted)"
    by (simp add: validate_synthetic_finite_snapshot_def ex_binding_def ex_counts ex_rows ex_total)
      (simp add: ex_admitted_def ex_parts of_kind_def ex_state_def)
  have snap: "as_snapshot ex_admitted = ex_snapshot" by (simp add: ex_admitted_def)
  have charge: "charge SourceValidation (source_units ex_snapshot) (new_ledger\<lparr>semantic_input_units := 1219\<rparr>)
      = Inr ex_prepared"
    by (simp add: source_units_def ex_parts charge_def total_units_def new_ledger_def ex_prepared_def caps)
  show ?thesis by (simp add: prepare_source_def shape snap ex_charge_source charge report)
qed

lemma ex_snapshot_ok: "snapshot_ok ex_snapshot"
  using prepare_source_ok [OF ex_prepare] by (simp add: ex_admitted_def)

section \<open>Its partition\<close>

definition ex_blocks :: "partition_block list" where
  "ex_blocks = [\<lparr>pb_index = 0, pb_members = [ex_id (CHR ''a'')]\<rparr>, \<lparr>pb_index = 1, pb_members = [ex_id (CHR ''b'')]\<rparr>,
     \<lparr>pb_index = 2, pb_members = [ex_id (CHR ''c'')]\<rparr>]"

lemma ex_blocks_ok: "blocks_ok ex_snapshot ex_blocks"
  by (simp add: blocks_ok_def ex_blocks_def number_blocks_def is_partition_def canonical_list_def ex_ids ex_key ex_facts
      insert_commute)

lemma ex_same_group:
  "same_group (groups_of ex_blocks) x y \<longleftrightarrow> x = y \<and> x \<in> set (state_ids ex_snapshot)"
  by (auto simp: same_group_def ex_blocks_def ex_ids)

lemma ex_level: "level ex_snapshot 0 ex_blocks"
  unfolding level_def ex_same_group
  using ex_blocks_ok by (auto simp: agree_0 ex_ids ex_response ex_facts)

lemma ex_initial: "response_partition ex_snapshot = Inr ex_blocks"
proof -
  obtain bs where bs: "response_partition ex_snapshot = Inr bs" "level ex_snapshot 0 bs"
    using response_partition_level [OF ex_snapshot_ok] .
  with level_unique [OF ex_snapshot_ok bs(2) ex_level] show ?thesis by simp
qed

lemma ex_fixed: "fixed_point ex_snapshot ex_blocks"
proof -
  obtain cs where cs: "producer_refinement_pass ex_snapshot ex_blocks = Inr cs" "blocks_ok ex_snapshot cs"
    and same: "\<And>x y. same_group (groups_of cs) x y \<longleftrightarrow> same_group (groups_of ex_blocks) x y
      \<and> producer_signature ex_snapshot ex_blocks x = producer_signature ex_snapshot ex_blocks y"
    using pass_ok [OF ex_snapshot_ok ex_blocks_ok] by blast
  have "cs = ex_blocks"
    by (rule blocks_ok_unique [OF cs(2) ex_blocks_ok ex_snapshot_ok]) (auto simp: same ex_same_group)
  with cs(1) show ?thesis by (simp add: fixed_point_def)
qed

section \<open>Its certificate\<close>

definition ex_quotient :: "quotient_row list" where
  "ex_quotient = [\<lparr>qr_source = 0, qr_action = ex_id (CHR ''x''), qr_target = 1\<rparr>,
     \<lparr>qr_source = 1, qr_action = ex_id (CHR ''x''), qr_target = 1\<rparr>,
     \<lparr>qr_source = 2, qr_action = ex_id (CHR ''x''), qr_target = 2\<rparr>]"

definition ex_witnesses :: "distinguishing_witness list" where
  "ex_witnesses = [\<lparr>dw_left = 0, dw_right = 1, dw_actions = []\<rparr>, \<lparr>dw_left = 0, dw_right = 2, dw_actions = []\<rparr>,
     \<lparr>dw_left = 1, dw_right = 2, dw_actions = []\<rparr>]"

definition ex_counters :: work_counters where
  "ex_counters = \<lparr>wc_ledger = \<lparr>semantic_input_units = 1219, source_validation_units = 10,
     initial_partition_units = 7, refinement_units = 12, quotient_units = 3, distinguishing_units = 12,
     certificate_units = 660\<rparr>, wc_total = 1923, wc_limit = 250000\<rparr>"

definition ex_trace :: "refinement_stage list" where
  "ex_trace = [\<lparr>rs_index = 0, rs_changed = False, rs_blocks = ex_blocks\<rparr>]"

definition ex_certificate :: partition_certificate where
  "ex_certificate = \<lparr>pc_evidence_scope = SYNTHETIC_EVIDENCE_SCOPE, pc_snapshot_sha256 = ex_digest,
     pc_domain_payload_digest = ex_digest, pc_observation_frame_digest = ex_digest,
     pc_transition_semantics_digest = ex_digest, pc_response_vocabulary_digest = ex_vocabulary_digest,
     pc_action_alphabet_digest = ex_digest, pc_action_ids = [ex_id (CHR ''x'')], pc_trace = ex_trace,
     pc_final_blocks = ex_blocks, pc_quotient_rows = ex_quotient, pc_witnesses = ex_witnesses,
     pc_work_counters = ex_counters, pc_fixed_point_passes = 1\<rparr>"

lemmas ex_tables = ex_certificate_def ex_trace_def ex_blocks_def ex_quotient_def ex_witnesses_def

lemmas shape_rules = preflight_shape_def shape_locator_def scan_locator_code shape_charge_def shape_blocks_def
  shape_final_blocks_def max_pairs_def caps

lemma ex_shape: "preflight_shape ex_certificate None = Inr None"
  by (simp add: shape_rules ex_tables ex_facts)

lemma ex_shape_charged:
  "preflight_shape ex_certificate (Some ex_prepared) = Inr (Some (ex_prepared\<lparr>certificate_units := 20\<rparr>))"
  by (simp add: shape_rules ex_tables ex_facts charge_def total_units_def ex_prepared_def new_ledger_def)

lemma ex_certificate_ok: "certificate_ok ex_certificate"
proof -
  have "mk_certificate ex_certificate = Inr ex_certificate"
    by (simp add: mk_certificate_def ex_shape)
      (simp add: ex_tables fixed_string_def ex_facts caps trace_checks_def table_checks_def stage_members_def
        Let_def bounded_int_def quotient_keys_def index_pairs_def upt_rec max_pairs_def)
  then show ?thesis
    by (simp add: certificate_ok_def)
      (simp add: ex_tables ex_counters_def stage_ok_def mk_refinement_stage_def block_ok_iff block_numbering_ok_def
        row_ok_def mk_quotient_row_def nonempty_string_def witness_ok_def mk_distinguishing_witness_def
        counters_ok_def mk_work_counters_def ledger_values_def bounded_int_def ex_facts caps upt_rec)
qed

lemma ex_scope: "ascii_text SYNTHETIC_EVIDENCE_SCOPE" "length SYNTHETIC_EVIDENCE_SCOPE = 21"
    "SYNTHETIC_EVIDENCE_SCOPE \<noteq> []"
  by (simp_all add: SYNTHETIC_EVIDENCE_SCOPE_def ascii_lit)

lemma ex_wire: "strict_wire_preflight wh (certificate_to_dict ex_certificate) = Inr 2468"
proof -
  have "json_plain 0 (certificate_to_dict ex_certificate)"
    by (simp add: certificate_to_dict_def ex_tables ex_counters_def stage_to_dict_def block_to_dict_def
        row_to_dict_def witness_to_dict_def counters_to_dict_def ex_facts ex_scope caps)
  moreover have "json_cost (certificate_to_dict ex_certificate) = 2468"
    by (simp add: certificate_to_dict_def ex_tables ex_counters_def stage_to_dict_def block_to_dict_def
        row_to_dict_def witness_to_dict_def counters_to_dict_def ex_facts ex_scope bit_length.simps)
  ultimately show ?thesis by (simp add: preflight_cost charge_wire_def caps)
qed

section \<open>The verifier's run\<close>

lemma ex_owner:
  "owner_of ex_blocks (ex_id (CHR ''a'')) = 0" "owner_of ex_blocks (ex_id (CHR ''b'')) = 1"
  "owner_of ex_blocks (ex_id (CHR ''c'')) = 2"
  by (simp_all add: owner_of_def block_owner_def stage_owner_def ex_blocks_def ex_facts)

lemma ex_verify_quotient: "verify_quotient ex_snapshot ex_blocks = Inr ex_quotient"
proof -
  have "quotient_table ex_snapshot ex_blocks = ex_quotient"
    unfolding quotient_table_def ex_snapshot_actions
    by (simp add: ex_blocks_def ex_quotient_def quotient_entry_def ex_target ex_owner [unfolded ex_blocks_def])
  with verify_quotient_ok [OF ex_snapshot_ok ex_blocks_ok ex_fixed] show ?thesis by simp
qed

lemma ex_ordered: "ordered_state_ids ex_snapshot = [ex_id (CHR ''a''), ex_id (CHR ''b''), ex_id (CHR ''c'')]"
  unfolding ordered_state_ids_def state_ids_def [symmetric] ex_ids
  by (simp add: ex_key)

lemma ex_rank:
  "state_rank ex_snapshot (ex_id (CHR ''a'')) = 0" "state_rank ex_snapshot (ex_id (CHR ''b'')) = 1"
  "state_rank ex_snapshot (ex_id (CHR ''c'')) = 2"
  by (simp_all add: state_rank_def ex_ordered upt_rec ex_facts)

lemma ex_pairs: "index_pairs 3 = [(0, 1), (0, 2), (1, 2)]"
  by (simp add: index_pairs_def upt_rec)

lemma ex_size: "length (sn_states ex_snapshot) = 3" "length ex_blocks = 3"
  by (simp_all add: ex_parts ex_blocks_def)

abbreviation ex_dist :: "(pair, nat) dict" where
  "ex_dist \<equiv> pair_distances 3 [ex_id (CHR ''x'')] (raw_step ex_snapshot) (raw_response ex_snapshot)"

lemma ex_distances: "dget ex_dist (0, Suc 0) = Some 0" "dget ex_dist (0, 2) = Some 0" "dget ex_dist (Suc 0, 2) = Some 0"
proof -
  have "closed_below 3 (set [ex_id (CHR ''x'')]) (raw_step ex_snapshot)"
    using raw_simulates [OF ex_snapshot_ok] unfolding simulates_def ex_snapshot_actions ex_size by (elim conjE)
  note d = pair_distances_correct(1) [OF this]
  show "dget ex_dist (0, Suc 0) = Some 0" "dget ex_dist (0, 2) = Some 0" "dget ex_dist (Suc 0, 2) = Some 0"
    unfolding d by (simp_all add: set_index_pairs separation_0 raw_response_def ex_ordered ex_response)
qed

lemma ex_reps:
  "representative_pair ex_snapshot ex_blocks (0, Suc 0) = (0, Suc 0)"
  "representative_pair ex_snapshot ex_blocks (0, 2) = (0, 2)"
  "representative_pair ex_snapshot ex_blocks (Suc 0, 2) = (Suc 0, 2)"
  by (simp_all add: representative_pair_def ordered_pair_def ex_blocks_def ex_rank)

lemma ex_verify_words:
  "verify_distinguishing_words ex_snapshot ex_blocks
     (ex_prepared\<lparr>initial_partition_units := 7, refinement_units := 12, quotient_units := 3, certificate_units := 680\<rparr>)
   = Inr (ex_witnesses, ex_prepared\<lparr>initial_partition_units := 7, refinement_units := 12, quotient_units := 3,
       distinguishing_units := 12, certificate_units := 680\<rparr>)"
  unfolding verify_distinguishing_words_def Let_def ex_snapshot_actions ex_size ex_pairs
  by (simp add: ex_reps ex_distances coordinate_count_def ex_parts(5,12) charge_def total_units_def word_charge_def
      ex_prepared_def new_ledger_def mk_distinguishing_witness_def bounded_int_def ex_witnesses_def caps)

lemma ex_output:
  "charge_certificate_output (certificate_bindings ex_certificate) (pc_action_ids ex_certificate) (pc_trace ex_certificate)
     (pc_final_blocks ex_certificate) (pc_quotient_rows ex_certificate) (pc_witnesses ex_certificate)
     (ex_prepared\<lparr>certificate_units := 20\<rparr>) = Inr (ex_prepared\<lparr>certificate_units := 680\<rparr>)"
  by (simp add: charge_certificate_output_def certificate_bindings_def ex_tables charge_members_def charge_text_code
      ex_facts ex_scope charge_def total_units_def ex_prepared_def new_ledger_def caps)

lemma ex_recompute: "recompute_producer_work_counters 1219 ex_snapshot ex_certificate = Inr ex_counters"
  by (simp add: recompute_producer_work_counters_def charge_certificate_output_def certificate_bindings_def
      ex_tables charge_members_def charge_text_code ex_facts ex_scope charge_def total_units_def new_ledger_def caps
      Let_def source_units_def ex_parts state_count_def action_count_def coordinate_count_def charge_refinement_pass_def
      word_charge_def counters_from_ledger_def mk_work_counters_def ledger_values_def bounded_int_def ex_counters_def)

lemma ex_accepted:
  "verify_exact_partition_core ex_binding ex_admitted ex_certificate = Inr (wc_ledger ex_counters\<lparr>certificate_units := 680\<rparr>)"
proof -
  let ?l = "ex_prepared\<lparr>certificate_units := 680\<rparr>"
  let ?l1 = "?l\<lparr>initial_partition_units := 7\<rparr>"
  let ?l2 = "?l1\<lparr>refinement_units := 12\<rparr>"
  have snap: "as_snapshot ex_admitted = ex_snapshot" by (simp add: ex_admitted_def)
  have initial: "charge InitialPartition (state_count ex_snapshot * (coordinate_count ex_snapshot + 1)
      + action_count ex_snapshot) ?l = Inr ?l1"
    by (simp add: state_count_def action_count_def coordinate_count_def ex_parts charge_def total_units_def
        ex_prepared_def new_ledger_def caps)
  have codec: "certificate_from_dict (certificate_to_dict ex_certificate) = Inr ex_certificate"
    using certificate_roundtrip [OF ex_certificate_ok] by (simp add: ex_wire)
  have bindings: "certificate_bindings ex_certificate = source_bindings ex_admitted"
    by (simp add: certificate_bindings_def source_bindings_def snap ex_parts) (simp add: ex_certificate_def ex_admitted_def)
  have pass: "charge_verifier_relation_pass ex_snapshot ex_blocks ?l1 = Inr ?l2"
    by (simp add: charge_verifier_relation_pass_def ex_blocks_def action_count_def coordinate_count_def ex_parts
        charge_def total_units_def ex_prepared_def new_ledger_def caps)
  have fixed: "verifier_relation_refinement ex_snapshot ex_blocks = Inr ex_blocks"
    using ex_fixed by (simp add: passes_equal fixed_point_def)
  have quotient: "charge work_category.Quotient (state_count ex_snapshot * action_count ex_snapshot) ?l2
      = Inr (?l2\<lparr>quotient_units := 3\<rparr>)"
    by (simp add: state_count_def action_count_def ex_parts charge_def total_units_def
        ex_prepared_def new_ledger_def caps)
  have parts: "pc_trace ex_certificate = ex_trace" "pc_final_blocks ex_certificate = ex_blocks"
    "pc_quotient_rows ex_certificate = ex_quotient" "pc_witnesses ex_certificate = ex_witnesses"
    "pc_action_ids ex_certificate = canonical_actions ex_snapshot" "pc_work_counters ex_certificate = ex_counters"
    "pc_fixed_point_passes ex_certificate = 1"
    by (simp_all add: ex_certificate_def ex_snapshot_actions)
  note words = ex_verify_words [unfolded ex_prepared_def new_ledger_def, simplified]
  show ?thesis
    unfolding verify_exact_partition_core_def Let_def snap ex_prepare bindE_Inr ex_shape_charged option.sel
      ex_output initial codec
    by (simp add: bindings parts ex_initial ex_trace_def pass fixed quotient ex_verify_quotient)
      (simp add: ex_prepared_def new_ledger_def words ex_recompute parts ex_counters_def)
qed

section \<open>The producer's run\<close>

abbreviation ex_block_dist :: "(pair, nat) dict" where
  "ex_block_dist \<equiv> pair_distances 3 [ex_id (CHR ''x'')] (quotient_step ex_quotient) (block_response ex_snapshot ex_blocks)"

lemma ex_quotient_table: "quotient_table ex_snapshot ex_blocks = ex_quotient"
  using ex_verify_quotient verify_quotient_ok [OF ex_snapshot_ok ex_blocks_ok ex_fixed] by simp

lemma ex_block_distances:
  "dget ex_block_dist (0, Suc 0) = Some 0" "dget ex_block_dist (0, 2) = Some 0" "dget ex_block_dist (Suc 0, 2) = Some 0"
  "length ex_block_dist = 3"
proof -
  have cl: "closed_below 3 (set [ex_id (CHR ''x'')]) (quotient_step ex_quotient)"
    using quotient_simulates [OF ex_snapshot_ok ex_blocks_ok ex_fixed]
    unfolding simulates_def ex_snapshot_actions ex_size ex_quotient_table by (elim conjE)
  note d = pair_distances_correct(1) [OF cl]
  show g: "dget ex_block_dist (0, Suc 0) = Some 0" "dget ex_block_dist (0, 2) = Some 0" "dget ex_block_dist (Suc 0, 2) = Some 0"
    unfolding d by (simp_all add: set_index_pairs separation_0 block_response_def ex_blocks_def ex_response)
  have "length ex_block_dist = length (index_pairs 3)"
    unfolding pair_distances_full [OF cl] using g by (simp add: ex_pairs)
  then show "length ex_block_dist = 3" by (simp add: ex_pairs)
qed

lemma ex_produce_words:
  "produce_distinguishing_witnesses ex_snapshot ex_blocks ex_quotient
     (ex_prepared\<lparr>initial_partition_units := 7, refinement_units := 12, quotient_units := 3\<rparr>)
   = Inr (ex_witnesses, ex_prepared\<lparr>initial_partition_units := 7, refinement_units := 12, quotient_units := 3,
       distinguishing_units := 12\<rparr>)"
proof -
  have coords: "(if ex_blocks = [] then 0 else case find_state ex_snapshot (hd (pb_members (ex_blocks ! 0))) of
      Some st \<Rightarrow> int (length (ss_coordinates st)) | None \<Rightarrow> 0) = 1"
    by (simp add: ex_blocks_def ex_find ex_state_def)
  show ?thesis
    unfolding produce_distinguishing_witnesses_def Let_def coords ex_snapshot_actions ex_size ex_pairs
    by (simp add: ex_block_distances charge_def total_units_def word_charge_def
        ex_prepared_def new_ledger_def mk_distinguishing_witness_def bounded_int_def ex_witnesses_def caps)
qed

lemma ex_produced: "refine_exact_partition ex_binding ex_admitted = Inr ex_certificate"
proof -
  let ?l1 = "ex_prepared\<lparr>initial_partition_units := 7\<rparr>"
  let ?l2 = "?l1\<lparr>refinement_units := 12\<rparr>"
  let ?l3 = "?l2\<lparr>quotient_units := 3\<rparr>"
  let ?l4 = "?l3\<lparr>distinguishing_units := 12\<rparr>"
  have snap: "as_snapshot ex_admitted = ex_snapshot" by (simp add: ex_admitted_def)
  have initial: "charge InitialPartition (state_count ex_snapshot * (coordinate_count ex_snapshot + 1)
      + action_count ex_snapshot) ex_prepared = Inr ?l1"
    by (simp add: state_count_def action_count_def coordinate_count_def ex_parts charge_def total_units_def
        ex_prepared_def new_ledger_def caps)
  have stage: "mk_refinement_stage 0 False ex_blocks = Inr \<lparr>rs_index = 0, rs_changed = False, rs_blocks = ex_blocks\<rparr>"
    using mk_stage_ok [OF ex_snapshot_ok ex_blocks_ok, of 0 False] by simp
  have pass: "charge_refinement_pass ex_snapshot (length ex_blocks) ?l1 = Inr ?l2"
    by (simp add: charge_refinement_pass_def ex_blocks_def state_count_def action_count_def coordinate_count_def ex_parts
        charge_def total_units_def ex_prepared_def new_ledger_def caps)
  have loop: "refine_loop ex_snapshot n ex_blocks ex_trace ?l1 = Inr (ex_blocks, ex_trace, ?l2)" for n
    using ex_fixed by (subst refine_loop.simps) (simp add: pass fixed_point_def)
  have quotient: "charge work_category.Quotient (state_count ex_snapshot * action_count ex_snapshot) ?l2 = Inr ?l3"
    by (simp add: state_count_def action_count_def ex_parts charge_def total_units_def
        ex_prepared_def new_ledger_def caps)
  have rows: "producer_quotient ex_snapshot ex_blocks = Inr ex_quotient"
    using producer_quotient_ok [OF ex_snapshot_ok ex_blocks_ok ex_fixed] by (simp add: ex_quotient_table)
  have written: "charge_certificate_output (source_bindings ex_admitted) (canonical_actions ex_snapshot) ex_trace
      ex_blocks ex_quotient ex_witnesses ?l4 = Inr (?l4\<lparr>certificate_units := 660\<rparr>)"
    unfolding source_bindings_def snap ex_snapshot_actions
    by (simp add: ex_parts ex_admitted_def charge_certificate_output_def ex_trace_def ex_blocks_def ex_quotient_def
        ex_witnesses_def charge_members_def charge_text_code ex_facts ex_scope charge_def total_units_def
        ex_prepared_def new_ledger_def caps)
  have counters: "counters_from_ledger (?l4\<lparr>certificate_units := 660\<rparr>) = Inr ex_counters"
    by (simp add: counters_from_ledger_def mk_work_counters_def ledger_values_def bounded_int_def ex_counters_def
        total_units_def ex_prepared_def new_ledger_def caps)
  have cert: "mk_certificate ex_certificate = Inr ex_certificate"
    using ex_certificate_ok by (simp add: certificate_ok_def)
  have fields: "\<lparr>pc_evidence_scope = SYNTHETIC_EVIDENCE_SCOPE,
        pc_snapshot_sha256 = ar_snapshot_sha256 (as_report ex_admitted),
        pc_domain_payload_digest = di_domain_payload_digest (sn_domain ex_snapshot),
        pc_observation_frame_digest = di_frame_digest (sn_domain ex_snapshot),
        pc_transition_semantics_digest = di_transition_semantics_digest (sn_domain ex_snapshot),
        pc_response_vocabulary_digest = sn_vocabulary_digest ex_snapshot,
        pc_action_alphabet_digest = di_action_alphabet_digest (sn_domain ex_snapshot),
        pc_action_ids = canonical_actions ex_snapshot, pc_trace = ex_trace, pc_final_blocks = ex_blocks,
        pc_quotient_rows = ex_quotient, pc_witnesses = ex_witnesses, pc_work_counters = ex_counters,
        pc_fixed_point_passes = 1\<rparr> = ex_certificate"
    by (simp add: ex_certificate_def ex_parts ex_snapshot_actions ex_admitted_def)
  have codec: "certificate_from_dict (certificate_to_dict ex_certificate) = Inr ex_certificate"
    using certificate_roundtrip [OF ex_certificate_ok] by (simp add: ex_wire)
  show ?thesis
    unfolding refine_exact_partition_def Let_def snap ex_prepare bindE_Inr initial ex_initial stage
      ex_trace_def [symmetric] loop prod.case quotient rows ex_produce_words written counters fields cert codec
    by simp
qed

section \<open>The construction of the snapshot\<close>

lemma ex_members:
  "of_char c < (128 :: int) \<Longrightarrow> mk_totalized_state (ex_state c k) = Inr (ex_state c k)"
  "of_char c < (128 :: int) \<Longrightarrow>
    mk_synthetic_action \<lparr>sa_id = ex_id c, sa_payload = ex_payload c\<rparr> = Inr \<lparr>sa_id = ex_id c, sa_payload = ex_payload c\<rparr>"
  "mk_transition_row (ex_row q t) = Inr (ex_row q t)"
proof -
  have rational: "mk_exact_rational (0, 1) = Inr (0, 1)"
    by (simp add: mk_exact_rational_def bit_length.simps)
  have live: "contract_str wh NOT_APPLICABLE = Inr NOT_APPLICABLE" for wh
    by (simp add: contract_str_def NOT_APPLICABLE_def)
  show "of_char c < (128 :: int) \<Longrightarrow> mk_totalized_state (ex_state c k) = Inr (ex_state c k)"
    by (simp add: mk_totalized_state_def ex_state_def ex_payload_facts(6) rational live ex_digest_facts contract_str_def
      ex_id_facts) (simp add: NOT_APPLICABLE_def)
  show "of_char c < (128 :: int) \<Longrightarrow>
      mk_synthetic_action \<lparr>sa_id = ex_id c, sa_payload = ex_payload c\<rparr> = Inr \<lparr>sa_id = ex_id c, sa_payload = ex_payload c\<rparr>"
    by (simp add: mk_synthetic_action_def ex_payload_facts(6) contract_str_def ex_id_facts)
  show "mk_transition_row (ex_row q t) = Inr (ex_row q t)"
    by (simp add: mk_transition_row_def ex_row_def contract_str_def ex_id_facts live ex_digest_facts)
      (simp add: NOT_APPLICABLE_def)
qed

lemma ex_vocabulary:
  "mk_response_vocabulary ex_names ex_schema_digest ex_vocabulary_digest = Inr (ex_names, ex_schema_digest, ex_vocabulary_digest)"
proof -
  have schema: "identity_json_bytes (coordinate_schema_json ex_names) = Inr (utf8_raw (dumps (coordinate_schema_json ex_names)))"
    by (rule plain_bytes) (simp add: coordinate_schema_json_def ex_names_def ascii_lit)
  have vocabulary: "identity_json_bytes (vocabulary_json ex_schema_digest) = Inr (utf8_raw (dumps (vocabulary_json ex_schema_digest)))"
    by (rule plain_bytes) (simp add: vocabulary_json_def ascii_lit ex_schema_facts SYNTHETIC_EVIDENCE_SCOPE_def)
  have names: "ex_names \<noteq> []" "[] \<notin> set ex_names" "distinct ex_names" by (simp_all add: ex_names_def lit_facts)
  show ?thesis
    by (simp add: mk_response_vocabulary_def names ex_schema_facts ex_vocabulary_facts schema vocabulary
      ex_schema_digest_def [symmetric] ex_vocabulary_digest_def [symmetric])
qed

lemma ex_plain:
  "of_char c < (128 :: int) \<Longrightarrow> json_plain 0 (state_json (ex_state c k))"
  "of_char c < (128 :: int) \<Longrightarrow> json_plain 0 (action_json \<lparr>sa_id = ex_id c, sa_payload = ex_payload c\<rparr>)"
  "of_char q < (128 :: int) \<Longrightarrow> of_char t < (128 :: int) \<Longrightarrow> json_plain 0 (row_json (ex_row q t))"
  by (cases k; simp add: state_json_def ex_state_def payload_json_def rational_json_def ascii_lit ex_id_ascii ex_payload_facts
      ex_digest_facts ex_decimals NOT_APPLICABLE_def)
    (simp_all add: action_json_def row_json_def ex_row_def payload_json_def ascii_lit ex_id_ascii ex_payload_facts
      ex_digest_facts NOT_APPLICABLE_def)

lemmas key_order = append_le raw_append raw_Cons lit_def quoted_def escape_def utf8_char_def byte_of_def

lemma ex_state_order:
  "utf8_raw (dumps (state_json (ex_state (CHR ''a'') k))) \<le> utf8_raw (dumps (state_json (ex_state (CHR ''b'') l)))"
  "utf8_raw (dumps (state_json (ex_state (CHR ''b'') k))) \<le> utf8_raw (dumps (state_json (ex_state (CHR ''c'') l)))"
  "utf8_raw (dumps (state_json (ex_state (CHR ''c'') k))) \<le> utf8_raw (dumps (state_json (ex_state (CHR ''d'') l)))"
  by (simp_all only: state_json_def payload_json_def ex_state_def dumps.simps sorted_state sorted_payload list.map prod.case
      comma_join.simps synthetic_state.simps if_True raw_append raw_Cons append_le Cons_le_Cons append_Cons append_assoc
      order_refl simp_thms)
    (simp_all add: append_le ex_payload_text, simp_all add: key_order)

lemma ex_row_order:
  "utf8_raw (dumps (row_json (ex_row (CHR ''a'') s))) \<le> utf8_raw (dumps (row_json (ex_row (CHR ''b'') t)))"
  "utf8_raw (dumps (row_json (ex_row (CHR ''b'') s))) \<le> utf8_raw (dumps (row_json (ex_row (CHR ''c'') t)))"
  "utf8_raw (dumps (row_json (ex_row (CHR ''c'') s))) \<le> utf8_raw (dumps (row_json (ex_row (CHR ''d'') t)))"
  by (simp_all only: row_json_def ex_row_def dumps.simps sorted_row list.map prod.case
      comma_join.simps transition_row.simps raw_append raw_Cons append_le Cons_le_Cons append_Cons append_assoc
      order_refl simp_thms)
    (simp_all add: append_le ex_id_def, simp_all add: SYNTHETIC_FIXTURE_ID_PREFIX_def key_order)

lemma ex_construct:
  assumes st: "\<And>st. st \<in> set sts \<Longrightarrow> mk_totalized_state st = Inr st \<and> json_plain 0 (state_json st)"
    and row: "\<And>r. r \<in> set rows \<Longrightarrow> mk_transition_row r = Inr r \<and> json_plain 0 (row_json r)"
    and order: "sorted (map (\<lambda>st. utf8_raw (dumps (state_json st))) sts)"
      "sorted (map (\<lambda>r. utf8_raw (dumps (row_json r))) rows)"
    and caps: "0 < length sts" "length sts \<le> 4" "length rows \<le> 4"
  shows "construct_snapshot (ex_snapshot\<lparr>sn_states := sts, sn_transitions := rows\<rparr>)
    = Inr (ex_snapshot\<lparr>sn_states := sts, sn_transitions := rows\<rparr>)"
proof -
  have mapE_id: "mapE f xs = Inr xs" if "\<And>x. x \<in> set xs \<Longrightarrow> f x = Inr x" for f :: "'a \<Rightarrow> ('e, 'a) res" and xs
    using mapE_map [where f = f and g = id, of xs] that by simp
  have action: "mk_synthetic_action \<lparr>sa_id = ex_id (CHR ''x''), sa_payload = ex_payload (CHR ''x'')\<rparr>
      = Inr \<lparr>sa_id = ex_id (CHR ''x''), sa_payload = ex_payload (CHR ''x'')\<rparr>"
    by (rule ex_members(2)) simp
  have actions: "sort_members action_json [\<lparr>sa_id = ex_id (CHR ''x''), sa_payload = ex_payload (CHR ''x'')\<rparr>]
      = Inr [\<lparr>sa_id = ex_id (CHR ''x''), sa_payload = ex_payload (CHR ''x'')\<rparr>]"
    by (rule sort_members_sorted) (simp_all add: ex_plain(2))
  have members: "mapE mk_totalized_state sts = Inr sts" "mapE mk_transition_row rows = Inr rows"
    "sort_members state_json sts = Inr sts" "sort_members row_json rows = Inr rows"
    using st row order by (auto intro: mapE_id sort_members_sorted)
  have domain: "mk_domain_id (sn_domain ex_snapshot) = Inr (sn_domain ex_snapshot)"
    by (simp add: mk_domain_id_def ex_snapshot_def ex_digest_facts)
  show ?thesis
    using caps by (simp add: construct_snapshot_def mk_finite_snapshot_def Let_def domain ex_parts ex_vocabulary
      members action actions ex_id_facts PartitionData.caps)
qed

lemma ex_constructed: "construct_snapshot ex_snapshot = Inr ex_snapshot"
proof -
  have "construct_snapshot (ex_snapshot\<lparr>sn_states := sn_states ex_snapshot, sn_transitions := sn_transitions ex_snapshot\<rparr>)
      = Inr (ex_snapshot\<lparr>sn_states := sn_states ex_snapshot, sn_transitions := sn_transitions ex_snapshot\<rparr>)"
    unfolding ex_parts
    by (rule ex_construct; (unfold list.map sorted2 sorted1)?)
      (auto simp: ex_members ex_plain ex_state_order ex_row_order)
  then show ?thesis by simp
qed

section \<open>A snapshot with a state behind a transition\<close>

text \<open>The open state d is no seed: it is admitted because the seed reaches it.\<close>

definition deep_snapshot :: finite_snapshot where
  "deep_snapshot = ex_snapshot\<lparr>
     sn_states := [ex_state (CHR ''a'') TS_OPEN, ex_state (CHR ''b'') TS_CLOSED, ex_state (CHR ''c'') TS_SINK,
       ex_state (CHR ''d'') TS_OPEN],
     sn_transitions := [ex_row (CHR ''a'') (CHR ''d''), ex_row (CHR ''b'') (CHR ''b''),
       ex_row (CHR ''c'') (CHR ''c''), ex_row (CHR ''d'') (CHR ''b'')]\<rparr>"

lemma deep_constructed: "construct_snapshot deep_snapshot = Inr deep_snapshot"
  unfolding deep_snapshot_def
  by (rule ex_construct; (unfold list.map sorted2 sorted1)?)
    (auto simp: ex_members ex_plain ex_state_order ex_row_order)

lemma deep_parts:
  "sn_states deep_snapshot = [ex_state (CHR ''a'') TS_OPEN, ex_state (CHR ''b'') TS_CLOSED,
     ex_state (CHR ''c'') TS_SINK, ex_state (CHR ''d'') TS_OPEN]"
  "sn_transitions deep_snapshot = [ex_row (CHR ''a'') (CHR ''d''), ex_row (CHR ''b'') (CHR ''b''),
     ex_row (CHR ''c'') (CHR ''c''), ex_row (CHR ''d'') (CHR ''b'')]"
  "sn_actions deep_snapshot = [\<lparr>sa_id = ex_id (CHR ''x''), sa_payload = ex_payload (CHR ''x'')\<rparr>]"
  "sn_seeds deep_snapshot = [ex_id (CHR ''a'')]" "sn_coordinate_names deep_snapshot = ex_names"
  "sn_domain deep_snapshot = sn_domain ex_snapshot" "canonical_actions deep_snapshot = [ex_id (CHR ''x'')]"
  by (simp_all add: deep_snapshot_def canonical_actions_def ex_parts)

lemma deep_target:
  "target_of deep_snapshot (ex_id (CHR ''a'')) (ex_id (CHR ''x'')) = ex_id (CHR ''d'')"
  "target_of deep_snapshot (ex_id (CHR ''b'')) (ex_id (CHR ''x'')) = ex_id (CHR ''b'')"
  "target_of deep_snapshot (ex_id (CHR ''c'')) (ex_id (CHR ''x'')) = ex_id (CHR ''c'')"
  "target_of deep_snapshot (ex_id (CHR ''d'')) (ex_id (CHR ''x'')) = ex_id (CHR ''b'')"
  by (simp_all add: target_of_def transition_target_def deep_parts ex_row_def ex_facts)

lemma deep_reach:
  "open_reach (map (\<lambda>st. (ss_id st, ss_kind st)) (sn_states deep_snapshot))
     (\<lambda>q. map (target_of deep_snapshot q) (map sa_id (sn_actions deep_snapshot)))
     (sn_seeds deep_snapshot, sn_seeds deep_snapshot) = [ex_id (CHR ''a''), ex_id (CHR ''d'')]"
  unfolding deep_parts
  by (subst open_reach.simps, simp add: deep_target ex_state_def push_open_def ex_facts,
      subst open_reach.simps, simp add: deep_target push_open_def ex_facts, subst open_reach.simps, simp)

lemma deep_total: "table_total_checks deep_snapshot = Inr ()"
proof -
  have "set (map (\<lambda>r. (tr_source r, tr_action r)) (sn_transitions deep_snapshot))
      = set (map ss_id (sn_states deep_snapshot)) \<times> set (map sa_id (sn_actions deep_snapshot))"
    by (auto simp: deep_parts ex_state_def ex_row_def)
  then show ?thesis
    unfolding table_total_checks_def Let_def deep_reach
    by (simp add: deep_parts ex_state_def ex_row_def of_kind_def deep_target ex_facts)
qed

lemma deep_admitted:
  "validate_synthetic_finite_snapshot ex_binding deep_snapshot = Inr \<lparr>ar_snapshot_sha256 = ex_digest,
     ar_totalized_state_count = 4, ar_concrete_state_count = 2, ar_action_count = 1, ar_transition_row_count = 4\<rparr>"
proof -
  have "count_checks deep_snapshot = Inr ()"
    by (simp add: count_checks_def deep_parts ex_state_def of_kind_def ex_facts caps)
  moreover have "foldE (\<lambda>st _. state_check deep_snapshot st) (sn_states deep_snapshot) () = Inr ()"
    "foldE (\<lambda>r _. row_check deep_snapshot r) (sn_transitions deep_snapshot) () = Inr ()"
    by (simp_all add: state_check_def row_check_def deep_parts ex_parts ex_state_def ex_row_def ex_facts)
  ultimately show ?thesis
    by (simp add: validate_synthetic_finite_snapshot_def ex_binding_def deep_total)
      (simp add: deep_parts of_kind_def ex_state_def)
qed

end
