(* ===== verification/PartitionProps.thy ===== *)
theory PartitionProps
  imports PartitionExample
begin

text \<open>The properties of the exact partition, each with a run at the example snapshot.\<close>

section \<open>Exactness\<close>

text \<open>
  C1. A certificate the verifier accepts is exact for the admitted snapshot: its stages are
  agreement on words of length 0, 1, ..., its final blocks are the classes of states that no word
  of actions tells apart, its rows give the target of every member of a block, and its word for
  two blocks is a shortest separating word, the first of those in the order of the actions.
\<close>

theorem accepted_certificate_exact:
  assumes "verify_exact_partition_core ib ad c = Inr l"
  shows "exact_answer (as_snapshot ad) (pc_trace c) (pc_final_blocks c) (pc_quotient_rows c) (pc_witnesses c)
    \<and> certificate_bindings c = source_bindings ad \<and> pc_action_ids c = canonical_actions (as_snapshot ad)"
  using verify_exact [OF assms] by blast

theorem accepted_certificate_exact_witness:
  "exact_answer ex_snapshot ex_trace ex_blocks ex_quotient ex_witnesses"
  using accepted_certificate_exact [OF ex_accepted] by (simp add: ex_admitted_def ex_certificate_def)

text \<open>
  C2. A certificate the producer returns is exact in the same sense, by other means: signature
  buckets instead of pairwise relations, and words over blocks instead of raw states.
\<close>

theorem produced_certificate_exact:
  assumes "refine_exact_partition ib ad = Inr c"
  shows "exact_answer (as_snapshot ad) (pc_trace c) (pc_final_blocks c) (pc_quotient_rows c) (pc_witnesses c)"
  using assms by (rule refine_exact)

theorem produced_certificate_exact_witness:
  "coarsest_blocks (as_snapshot ex_admitted) (pc_final_blocks ex_certificate)"
  using exact_answerD(2) [OF produced_certificate_exact [OF ex_produced]] .

text \<open>
  The certificate is canonical: two accepted certificates for one source, or an accepted and a
  produced one, have the same final blocks, quotient rows and witnesses.
\<close>

theorem certificate_canonical:
  assumes "verify_exact_partition_core ib ad c = Inr l"
    and "verify_exact_partition_core ib ad d = Inr l' \<or> refine_exact_partition ib ad = Inr d"
  shows "pc_final_blocks c = pc_final_blocks d \<and> pc_quotient_rows c = pc_quotient_rows d
    \<and> pc_witnesses c = pc_witnesses d"
proof -
  from assms(1) obtain l0 where "prepare_source ib ad new_ledger = Inr l0"
    by (auto simp: verify_exact_partition_core_def Let_def bindE_eq_Inr)
  then have s: "snapshot_ok (as_snapshot ad)" by (rule prepare_source_ok)
  have "exact_answer (as_snapshot ad) (pc_trace d) (pc_final_blocks d) (pc_quotient_rows d) (pc_witnesses d)"
    using assms(2) verify_exact(1) refine_exact by blast
  from exact_answer_unique [OF s verify_exact(1) [OF assms(1)] this] show ?thesis .
qed

theorem certificate_canonical_witness:
  "\<exists>d. refine_exact_partition ex_binding ex_admitted = Inr d \<and> pc_final_blocks d = ex_blocks"
  using certificate_canonical [OF ex_accepted disjI2 [OF ex_produced]] ex_produced
  by (simp add: ex_certificate_def)

section \<open>Termination and errors\<close>

text \<open>
  C3. Once the source is prepared, refinement starts, stops within n - 1 strict rounds at a
  fixed point, and then builds the quotient: the internal errors of the loop and of the quotient
  do not happen, the only error left is the work cap.
\<close>

theorem refinement_terminates:
  assumes "prepare_source ib ad l = Inr l1"
  shows "\<exists>p0 st0. response_partition (as_snapshot ad) = Inr p0 \<and> mk_refinement_stage 0 False p0 = Inr st0
    \<and> (\<forall>l. case refine_loop (as_snapshot ad) (length (sn_states (as_snapshot ad)) - 1) p0 [st0] l of
          Inl e \<Rightarrow> e = work_cap_error
        | Inr (bs, tr, l') \<Rightarrow> length tr \<le> length bs \<and> length bs \<le> length (sn_states (as_snapshot ad))
            \<and> bs = rs_blocks (last tr) \<and> coarsest_blocks (as_snapshot ad) bs
            \<and> (\<exists>rows. producer_quotient (as_snapshot ad) bs = Inr rows))"
proof -
  let ?s = "as_snapshot ad"
  have s: "snapshot_ok ?s" by (rule prepare_source_ok [OF assms])
  obtain p0 where p0: "response_partition ?s = Inr p0" "level ?s 0 p0" using response_partition_level [OF s] .
  then obtain st0 where st0: "mk_refinement_stage 0 False p0 = Inr st0"
    using mk_stage_ok [OF s levelD(1), of 0 p0 0 False] by auto
  note start = refine_loop_start [OF s p0(1) st0]
  have n: "length (sn_states ?s) \<le> length p0 + (length (sn_states ?s) - 1)" using start(3) by (cases p0) auto
  have "case refine_loop ?s (length (sn_states ?s) - 1) p0 [st0] l of
          Inl e \<Rightarrow> e = work_cap_error
        | Inr (bs, tr, l') \<Rightarrow> length tr \<le> length bs \<and> length bs \<le> length (sn_states ?s)
            \<and> bs = rs_blocks (last tr) \<and> coarsest_blocks ?s bs
            \<and> (\<exists>rows. producer_quotient ?s bs = Inr rows)" for l
  proof (cases "refine_loop ?s (length (sn_states ?s) - 1) p0 [st0] l")
    case (Inl e)
    with refine_loop_sound [OF s start(1,2) n, of l] show ?thesis by simp
  next
    case (Inr r)
    obtain bs tr l' where r: "r = (bs, tr, l')" by (cases r)
    with refine_loop_sound [OF s start(1,2) n, of l] Inr
    have tr: "trace_ok ?s tr" "bs = rs_blocks (last tr)" "fixed_point ?s bs" by auto
    note len = trace_ok_length [OF s tr(1), folded tr(2)]
    note ok = levelD(1) [OF len(2)]
    have "\<exists>rows. producer_quotient ?s bs = Inr rows" using producer_quotient_ok [OF s ok tr(3)] by (intro exI)
    with len(1) blocks_ok_length(1) [OF ok s] tr(2) fixed_point_blocks [OF s len(2) tr(3)] show ?thesis
      unfolding Inr r by (simp only: sum.case prod.case)
  qed
  with p0(1) st0 show ?thesis by (intro exI conjI allI)
qed

theorem refinement_terminates_witness:
  "\<exists>p0. response_partition ex_snapshot = Inr p0"
  using refinement_terminates [OF ex_prepare] by (auto simp: ex_admitted_def)

text \<open>
  C4. The verifier's pass, greedy classes under the pairwise relation, computes exactly what the
  producer's pass, buckets by signature, computes, on any blocks.
\<close>

theorem verifier_pass_is_producer_pass:
  "verifier_relation_refinement s bs = producer_refinement_pass s bs"
  by (rule passes_equal)

section \<open>The quotient and the words\<close>

text \<open>
  C13. At a fixed point producer and verifier build the same quotient table without error: one
  row per block and action in canonical order, its target the block of every member's successor.
\<close>

theorem quotient_exact:
  assumes "snapshot_ok s" "blocks_ok s bs" "fixed_point s bs"
  shows "\<exists>rows. producer_quotient s bs = Inr rows \<and> verify_quotient s bs = Inr rows \<and> exact_rows s bs rows"
  using producer_quotient_ok [OF assms] verify_quotient_ok [OF assms] quotient_table_exact [OF assms] by blast

theorem quotient_exact_witness:
  "\<exists>rows. producer_quotient ex_snapshot ex_blocks = Inr rows \<and> exact_rows ex_snapshot ex_blocks rows"
  using quotient_exact [OF ex_snapshot_ok ex_blocks_ok ex_fixed] by blast

text \<open>
  C12. The breadth-first search is complete and exact on any machine that stays below n: a pair
  has no distance exactly when no word separates it, and otherwise the reconstruction succeeds
  with a shortest separating word, the first of those in the order of the actions.
\<close>

theorem shortest_words:
  assumes cl: "closed_below n (set acts) step" and p: "p \<in> set (index_pairs n)"
  shows "case dget (pair_distances n acts step resp) p of
      None \<Rightarrow> \<nexists>w. set w \<subseteq> set acts \<and> separates step resp w (fst p) (snd p)
    | Some d \<Rightarrow> \<exists>w. rebuild_word err acts step (pair_distances n acts step resp) d p = Inr w
        \<and> best_word acts step resp (fst p) (snd p) w \<and> length w = d"
proof (cases "dget (pair_distances n acts step resp) p")
  case None
  have "\<not> separates step resp w (fst p) (snd p)" if "set w \<subseteq> set acts" for w
  proof
    assume "separates step resp w (fst p) (snd p)"
    with that have "\<not> agree (set acts) step resp (length w) (fst p) (snd p)" by (auto simp: not_agree_separates)
    then obtain d where "separation (set acts) step resp d p" by (rule separation_ex)
    with p None show False using pair_distances_correct(1) [OF cl, of resp p d] by simp
  qed
  with None show ?thesis by auto
next
  case (Some d)
  with pair_distances_correct(1) [OF cl, of resp p d] have "separation (set acts) step resp d p" by simp
  from rebuild_word_best [OF cl pair_distances_correct(1) [OF cl] p this] Some show ?thesis by simp
qed

theorem shortest_words_witness:
  "\<exists>w. rebuild_word ''e'' [ex_id (CHR ''x'')] (raw_step ex_snapshot) ex_dist 0 (0, 2) = Inr w \<and> length w = 0"
proof -
  have "closed_below 3 (set [ex_id (CHR ''x'')]) (raw_step ex_snapshot)"
    using raw_simulates [OF ex_snapshot_ok] unfolding simulates_def ex_snapshot_actions ex_size by (elim conjE)
  from shortest_words [OF this, of "(0, 2)" "raw_response ex_snapshot" "''e''"] show ?thesis
    by (auto simp: set_index_pairs ex_distances)
qed

section \<open>Codecs and charges\<close>

text \<open>
  C15. The certificate codec is a round trip: parsing the dictionary of a well-formed certificate
  gives the certificate back, unless the dictionary exceeds the limits of the wire preflight.
\<close>

theorem certificate_codec_roundtrip:
  assumes "certificate_ok c"
  shows "case strict_wire_preflight ''ExactPartitionCertificate'' (certificate_to_dict c) of
      Inl e \<Rightarrow> certificate_from_dict (certificate_to_dict c) = Inl e
    | Inr u \<Rightarrow> certificate_from_dict (certificate_to_dict c) = Inr c"
  using certificate_roundtrip [OF assms]
  by (cases "strict_wire_preflight ''ExactPartitionCertificate'' (certificate_to_dict c)") auto

theorem certificate_codec_roundtrip_witness:
  "certificate_from_dict (certificate_to_dict ex_certificate) = Inr ex_certificate"
  using certificate_codec_roundtrip [OF ex_certificate_ok] by (simp add: ex_wire)

text \<open>
  The wire preflight of an ASCII value is its size against the cap: one unit per node, one
  per text and per character, the byte width of an integer; it fails only beyond 250000 units.
\<close>

theorem wire_preflight_bound:
  assumes "json_plain 0 v"
  shows "strict_wire_preflight wh v = (if json_cost v \<le> MAX_EXACT_PARTITION_WORK_UNITS then Inr (json_cost v)
    else Inl ''CPU_SURVIVOR_PREREQUISITE_BLOCKED: strict partition wire preflight exceeds 250000 aggregate units'')"
  using preflight_cost [OF assms, of wh] json_cost_nonneg [of v] by (simp add: charge_wire_def)

theorem wire_preflight_bound_witness:
  "strict_wire_preflight ''x'' (JArr [JNull, JStr (lit ''ab'')]) = Inr 5"
  using wire_preflight_bound [of "JArr [JNull, JStr (lit ''ab'')]" "''x''"]
  by (simp add: ascii_lit lit_facts caps)

lemma foldE_widths:
  assumes "\<not> has_surrogate s" "s \<noteq> []"
  shows "foldE (\<lambda>c l. if is_surrogate c then Inl e else charge cat (int (utf8_width c)) l) s l
    = charge cat (int (length (utf8_raw s))) l"
  using assms
proof (induction s arbitrary: l)
  case (Cons c s)
  have c: "\<not> is_surrogate c" "\<not> has_surrogate s" using Cons.prems(1) by (simp_all add: has_surrogate_def)
  have len: "length (utf8_raw (c # s)) = utf8_width c + length (utf8_raw s)" by (simp add: length_utf8_raw)
  show ?case
  proof (cases "s = []")
    case True
    then show ?thesis using c(1) len by (cases "charge cat (int (utf8_width c)) l") (auto simp: utf8_raw_def)
  next
    case False
    have "foldE (\<lambda>c l. if is_surrogate c then Inl e else charge cat (int (utf8_width c)) l) s
        = charge cat (int (length (utf8_raw s)))"
      using Cons.IH [OF c(2) False] by (rule ext)
    then show ?thesis
      using c(1) len charge_charge [of "int (utf8_width c)" "int (length (utf8_raw s))" cat l] by simp
  qed
qed simp

text \<open>
  Charging a text character by character is charging the bytes of its UTF-8 encoding in one
  step: the ledger grows by exactly that many units in one category and never beyond the cap.
\<close>

theorem charge_text_bytes:
  assumes "\<not> has_surrogate s" "s \<noteq> []"
  shows "charge_text cat wh s l =
    (if total_units l + int (length (utf8_raw s)) \<le> MAX_EXACT_PARTITION_WORK_UNITS
     then Inr (add_units cat (int (length (utf8_raw s))) l) else Inl work_cap_error)"
  using assms by (simp add: charge_text_def nonempty_string_def foldE_widths charge_def work_cap_error_def)

theorem charge_text_bytes_witness:
  "charge_text Refinement ''x'' [233, 97] new_ledger = Inr (new_ledger\<lparr>refinement_units := 3\<rparr>)"
  using charge_text_bytes [of "[233, 97]" Refinement "''x''" new_ledger]
  by (simp add: has_surrogate_def is_surrogate_def length_utf8_raw utf8_width_def total_units_def new_ledger_def caps)

section \<open>Admission\<close>

lemma open_reach_invariant:
  assumes "\<And>q t. P q \<Longrightarrow> t \<in> set (targets q) \<Longrightarrow> P t" and "\<forall>q \<in> set (fst rf) \<union> set (snd rf). P q"
  shows "\<forall>q \<in> set (open_reach kinds targets rf). P q"
  using assms
proof (induction kinds targets rf rule: open_reach.induct)
  case (1 kinds targets rf)
  show ?case
  proof (cases "snd rf = []")
    case True
    with 1(3) show ?thesis by (subst open_reach.simps) simp
  next
    case False
    have one: "\<forall>q \<in> set (fst (push_open kinds t s)) \<union> set (snd (push_open kinds t s)). P q"
      if "\<forall>q \<in> set (fst s) \<union> set (snd s). P q" "P t" for s t
      using that by (auto simp: push_open_def)
    have push: "\<forall>q \<in> set (fst s) \<union> set (snd s). P q \<Longrightarrow> \<forall>t \<in> set ts. P t \<Longrightarrow>
        \<forall>q \<in> set (fst (fold (push_open kinds) ts s)) \<union> set (snd (fold (push_open kinds) ts s)). P q" for ts s
    proof (induction ts arbitrary: s)
      case (Cons t ts)
      have "P t" "\<forall>t \<in> set ts. P t" using Cons.prems(2) by simp_all
      from Cons.IH [OF one [OF Cons.prems(1) this(1)] this(2)] show ?case by simp
    qed simp
    have "\<forall>q \<in> set (fst rf) \<union> set (butlast (snd rf)). P q" using 1(3) by (auto dest: in_set_butlastD)
    moreover have "\<forall>t \<in> set (targets (last (snd rf))). P t"
    proof (intro ballI)
      fix t assume t: "t \<in> set (targets (last (snd rf)))"
      have "P (last (snd rf))" using 1(3) False by simp
      then show "P t" using t by (rule 1(2))
    qed
    ultimately have "\<forall>q \<in> set (open_reach kinds targets
        (fold (push_open kinds) (targets (last (snd rf))) (fst rf, butlast (snd rf)))). P q"
      using push [of "(fst rf, butlast (snd rf))"] by (intro 1(1) [OF False 1(2)]) simp_all
    with False show ?thesis by (subst open_reach.simps) simp
  qed
qed

text \<open>
  C14. Admission of a snapshot means: every open state is reached from a seed by a word of
  actions, the closed state and the sink answer every action by staying, and every state and
  action has its row inside the domain.
\<close>

theorem admission_sound:
  assumes "validate_synthetic_finite_snapshot ib s = Inr r"
  shows "(\<forall>st \<in> set (sn_states s). if ss_kind st = TS_OPEN
        then \<exists>q \<in> set (sn_seeds s). \<exists>w. set w \<subseteq> set (canonical_actions s) \<and> foldl (target_of s) q w = ss_id st
        else \<forall>a \<in> set (canonical_actions s). target_of s (ss_id st) a = ss_id st)
    \<and> snapshot_ok s"
proof (intro conjI ballI)
  from assms have c: "count_checks s = Inr ()" and t: "table_total_checks s = Inr ()"
    by (auto simp: validate_synthetic_finite_snapshot_def bindE_eq_Inr)
  let ?P = "\<lambda>p. \<exists>q \<in> set (sn_seeds s). \<exists>w. set w \<subseteq> set (canonical_actions s) \<and> foldl (target_of s) q w = p"
  let ?targets = "\<lambda>q. map (target_of s q) (map sa_id (sn_actions s))"
  let ?kinds = "map (\<lambda>st. (ss_id st, ss_kind st)) (sn_states s)"
  have step: "?P u" if "?P q" "u \<in> set (?targets q)" for q u
  proof -
    from that(2) obtain a where "a \<in> set (canonical_actions s)" "u = target_of s q a"
      by (auto simp: set_canonical_actions)
    moreover from that(1) obtain p w where "p \<in> set (sn_seeds s)" "set w \<subseteq> set (canonical_actions s)"
      "foldl (target_of s) p w = q" by blast
    ultimately show ?thesis by (intro bexI [of _ p] exI [of _ "w @ [a]"]) auto
  qed
  have seeds: "?P q" if "q \<in> set (sn_seeds s)" for q
    using that by (intro bexI [of _ q] exI [of _ "[]"]) auto
  have reached: "\<forall>q \<in> set (open_reach ?kinds ?targets (sn_seeds s, sn_seeds s)). ?P q"
    by (rule open_reach_invariant [where P = ?P]) (use step seeds in auto)
  have all_open: "set (open_reach ?kinds ?targets (sn_seeds s, sn_seeds s)) = ss_id ` set (of_kind TS_OPEN s)"
    using t by (simp add: table_total_checks_def Let_def comp_def split: if_splits)
  fix st assume st: "st \<in> set (sn_states s)"
  show "if ss_kind st = TS_OPEN then ?P (ss_id st)
      else \<forall>a \<in> set (canonical_actions s). target_of s (ss_id st) a = ss_id st"
  proof (cases "ss_kind st = TS_OPEN")
    case True
    with st have "ss_id st \<in> ss_id ` set (of_kind TS_OPEN s)" by (auto simp: of_kind_def)
    then have "?P (ss_id st)" using reached unfolding all_open by (rule bspec [rotated])
    with True show ?thesis by simp
  next
    case False
    then have "st \<in> set (of_kind TS_CLOSED s @ of_kind TS_SINK s)"
      using st by (cases "ss_kind st") (auto simp: of_kind_def)
    moreover have "\<not> list_ex (\<lambda>st. list_ex (\<lambda>a. target_of s (ss_id st) a \<noteq> ss_id st) (map sa_id (sn_actions s)))
        (of_kind TS_CLOSED s @ of_kind TS_SINK s)"
      using t by (simp add: table_total_checks_def Let_def split: if_splits)
    ultimately show ?thesis using False by (auto simp: list_ex_iff set_canonical_actions)
  qed
qed (rule validate_ok [OF assms])

theorem admission_sound_witness:
  "construct_snapshot deep_snapshot = Inr deep_snapshot
    \<and> validate_synthetic_finite_snapshot ex_binding deep_snapshot = Inr \<lparr>ar_snapshot_sha256 = ex_digest,
        ar_totalized_state_count = 4, ar_concrete_state_count = 2, ar_action_count = 1, ar_transition_row_count = 4\<rparr>
    \<and> sn_seeds deep_snapshot = [ex_id (CHR ''a'')]
    \<and> (\<exists>w. set w \<subseteq> {ex_id (CHR ''x'')} \<and> w \<noteq> []
        \<and> foldl (target_of deep_snapshot) (ex_id (CHR ''a'')) w = ex_id (CHR ''d''))
    \<and> target_of deep_snapshot (ex_id (CHR ''b'')) (ex_id (CHR ''x'')) = ex_id (CHR ''b'')
    \<and> target_of deep_snapshot (ex_id (CHR ''c'')) (ex_id (CHR ''x'')) = ex_id (CHR ''c'')"
proof -
  note admitted = conjunct1 [OF admission_sound [OF deep_admitted]]
  have "\<exists>w. set w \<subseteq> {ex_id (CHR ''x'')} \<and> foldl (target_of deep_snapshot) (ex_id (CHR ''a'')) w = ex_id (CHR ''d'')"
    using bspec [OF admitted, of "ex_state (CHR ''d'') TS_OPEN"] by (simp add: deep_parts ex_state_def)
  then obtain w where w: "set w \<subseteq> {ex_id (CHR ''x'')}"
    "foldl (target_of deep_snapshot) (ex_id (CHR ''a'')) w = ex_id (CHR ''d'')" by blast
  then have "w \<noteq> []" by (auto simp: ex_id_facts)
  with w have word: "\<exists>w. set w \<subseteq> {ex_id (CHR ''x'')} \<and> w \<noteq> []
      \<and> foldl (target_of deep_snapshot) (ex_id (CHR ''a'')) w = ex_id (CHR ''d'')" by blast
  have stay: "target_of deep_snapshot (ex_id (CHR ''b'')) (ex_id (CHR ''x'')) = ex_id (CHR ''b'')"
    "target_of deep_snapshot (ex_id (CHR ''c'')) (ex_id (CHR ''x'')) = ex_id (CHR ''c'')"
    using bspec [OF admitted, of "ex_state (CHR ''b'') TS_CLOSED"] bspec [OF admitted, of "ex_state (CHR ''c'') TS_SINK"]
    by (simp_all add: deep_parts ex_state_def)
  show ?thesis by (intro conjI deep_constructed deep_admitted word stay deep_parts)
qed

end
