(* ===== verification/FakeCas.thy ===== *)
theory FakeCas
  imports Bytes_Hash
begin

text \<open>
  \<^verbatim>\<open>evals/uprime_rpc_fake_cas_kernel.py\<close>: a compare-and-swap cell as a pure transition
  function. A state carries a generation, an optional payload and a version, the SHA-256 of
  both; a step compares the expected version, then the payload, then follows the directive.
  Every value object is validated when it is built; a transition is validated by deriving it
  again. Python object identity, which the validation of a transition also tests, is passed in
  as the record \<^verbatim>\<open>object_identity\<close>.
\<close>

type_synonym cas_error = string

named_theorems cas_constants

section \<open>Frozen constants\<close>

definition STATE_SCHEMA :: string where
  "STATE_SCHEMA = ''lean-rgc-uprime-u1-in-memory-fake-cas-state-v1.0''"

definition STATE_SCOPE :: string where
  "STATE_SCOPE = ''one_anonymous_in_memory_value_cell''"

definition TRANSITION_SCHEMA :: string where
  "TRANSITION_SCHEMA = ''lean-rgc-uprime-u1-in-memory-fake-cas-transition-v1.0''"

definition TRANSITION_SCOPE :: string where
  "TRANSITION_SCOPE = ''pure_single_call_one_cell_cas_derivation''"

definition ORIGIN_STATUS :: string where
  "ORIGIN_STATUS = ''unknown_may_be_synthetic''"

definition VERSION_SCOPE :: string where
  "VERSION_SCOPE = ''comparison_value_not_capability''"

definition RAW_EQUALITY_SCOPE :: string where
  "RAW_EQUALITY_SCOPE = ''exact_bytes_not_digest_only''"

definition STATE_PROVENANCE :: string where
  "STATE_PROVENANCE = ''unauthenticated_forgeable_value_object''"

definition LINEAGE_ENFORCEMENT :: string where
  "LINEAGE_ENFORCEMENT = ''caller_must_thread_returned_state_not_enforced''"

definition FORK_HANDLING :: string where
  "FORK_HANDLING = ''forks_allowed_no_global_linearity''"

definition DELETION_SUPPORT :: string where
  "DELETION_SUPPORT = ''unsupported_proposals_are_exact_bytes''"

definition PERSISTENCE_SCOPE :: string where
  "PERSISTENCE_SCOPE = ''none_process_memory_only''"

definition CONCURRENCY_SCOPE :: string where
  "CONCURRENCY_SCOPE = ''none_pure_single_call_transition''"

definition REMOTE_CAS_AUTHENTICATION :: string where
  "REMOTE_CAS_AUTHENTICATION = ''not_performed''"

definition AUTHORITY_SCOPE :: string where
  "AUTHORITY_SCOPE = ''none''"

definition HASH_PREIMAGE_CONSTRUCTION :: string where
  "HASH_PREIMAGE_CONSTRUCTION = ''payloads_streamed_no_full_preimage_materialization''"

definition DIRECTIVE_ORIGIN :: string where
  "DIRECTIVE_ORIGIN = ''caller_supplied_repeatable_synthetic_choice''"

definition OUTCOME_SELECTION :: string where
  "OUTCOME_SELECTION = ''input_validation_then_conflict_then_exact_identity_then_directive''"

definition CONFIRMATION_SCOPE :: string where
  "CONFIRMATION_SCOPE = ''same_call_same_kernel_not_independent''"

definition CAUSE_SCOPE :: string where
  "CAUSE_SCOPE = ''not_modeled_no_causal_fault_claim''"

definition APPLICATION_ATTRIBUTION :: string where
  "APPLICATION_ATTRIBUTION = ''not_authenticated''"

definition IDEMPOTENCE_SCOPE :: string where
  "IDEMPOTENCE_SCOPE = ''not_provided_no_operation_identity''"

definition EXACTLY_ONCE_SCOPE :: string where
  "EXACTLY_ONCE_SCOPE = ''not_provided''"

definition FILESYSTEM_STAGING :: string where
  "FILESYSTEM_STAGING = ''not_performed''"

definition REMOTE_PUBLICATION :: string where
  "REMOTE_PUBLICATION = ''not_performed''"

definition DURABILITY_SCOPE :: string where
  "DURABILITY_SCOPE = ''not_observed''"

definition MARKER_SCOPE :: string where
  "MARKER_SCOPE = ''not_created_or_observed''"

definition RECOVERY_SCOPE :: string where
  "RECOVERY_SCOPE = ''not_performed''"

definition WITNESS_SCOPE :: string where
  "WITNESS_SCOPE = ''not_issued_or_verified''"

definition MANIFEST_SCOPE :: string where
  "MANIFEST_SCOPE = ''not_read_or_written''"

definition MAX_PAYLOAD_BYTES :: int where
  "MAX_PAYLOAD_BYTES = 1048576"

definition MAX_GENERATION :: int where
  "MAX_GENERATION = 9223372036854775807"

definition MAX_UNIQUE_RETAINED_PAYLOAD_REFERENCE_BYTES :: int where
  "MAX_UNIQUE_RETAINED_PAYLOAD_REFERENCE_BYTES = 3145728"

definition MAX_RETAINED_PAYLOAD_COPY_BYTES :: int where
  "MAX_RETAINED_PAYLOAD_COPY_BYTES = 0"

definition MAX_STATE_HASH_PREIMAGE_BYTES :: int where
  "MAX_STATE_HASH_PREIMAGE_BYTES = 1048640"

definition MAX_INPUT_HASH_PREIMAGE_BYTES :: int where
  "MAX_INPUT_HASH_PREIMAGE_BYTES = 2097249"

definition MAX_DELTA_HASH_PREIMAGE_BYTES :: int where
  "MAX_DELTA_HASH_PREIMAGE_BYTES = 1048695"

definition MAX_TRANSITION_HASH_PREIMAGE_BYTES :: int where
  "MAX_TRANSITION_HASH_PREIMAGE_BYTES = 467"

definition D_STATE :: bytes where
  "D_STATE = ascii ''lean-rgc-uprime-u1-in-memory-fake-cas-state-v1'' @ [0]"

definition D_INPUT :: bytes where
  "D_INPUT = ascii ''lean-rgc-uprime-u1-in-memory-fake-cas-input-v1'' @ [0]"

definition D_DELTA :: bytes where
  "D_DELTA = ascii ''lean-rgc-uprime-u1-in-memory-fake-cas-delta-v1'' @ [0]"

definition D_TRANSITION :: bytes where
  "D_TRANSITION = ascii ''lean-rgc-uprime-u1-in-memory-fake-cas-transition-v1'' @ [0]"

definition DIRECTIVES :: "string list" where
  "DIRECTIVES = [
     ''apply_intended_acknowledge'',
     ''apply_intended_lose_ack_then_confirm'',
     ''apply_intended_lose_ack_confirmation_unavailable'',
     ''substitute_alternate_then_confirm_wrong_delta'']"

definition OUTCOMES :: "string list" where
  "OUTCOMES = [
     ''conflict_no_change'',
     ''existing_identical_no_change'',
     ''intended_applied_acknowledged'',
     ''intended_applied_ack_lost_confirmed'',
     ''intended_applied_ack_lost_unconfirmed'',
     ''wrong_delta_confirmed'']"

definition OUTCOME_ROWS :: "string list list" where
  "OUTCOME_ROWS = [
     [''expected_state_version_mismatch'',
      ''not_attempted'',
      ''no_change'',
      ''not_attempted'',
      ''not_attempted'',
      ''conflict'',
      ''unchanged''],
     [''exact_payload_already_current'',
      ''not_attempted_existing_identical'',
      ''no_change_existing_identical'',
      ''not_attempted'',
      ''not_attempted'',
      ''existing_identical'',
      ''unchanged_existing_identical''],
     [''matched_intended_apply_acknowledged'',
      ''applied'',
      ''intended_applied'',
      ''delivered'',
      ''not_attempted'',
      ''applied'',
      ''intended_applied''],
     [''matched_intended_apply_ack_lost_confirmed'',
      ''applied'',
      ''intended_applied'',
      ''lost'',
      ''same_kernel_observed_intended'',
      ''applied_after_same_kernel_confirmation'',
      ''intended_applied''],
     [''matched_intended_apply_ack_lost_confirmation_unavailable'',
      ''applied'',
      ''intended_applied'',
      ''lost'',
      ''unavailable'',
      ''ambiguous'',
      ''intended_applied''],
     [''matched_alternate_substitution_confirmed_wrong_delta'',
      ''not_applied_alternate_substituted'',
      ''alternate_applied'',
      ''not_applicable_intended_not_applied'',
      ''same_kernel_observed_wrong_delta'',
      ''wrong_delta'',
      ''alternate_applied'']]"

lemmas scope_constants [cas_constants] =
  STATE_SCHEMA_def STATE_SCOPE_def TRANSITION_SCHEMA_def TRANSITION_SCOPE_def ORIGIN_STATUS_def
  VERSION_SCOPE_def RAW_EQUALITY_SCOPE_def STATE_PROVENANCE_def LINEAGE_ENFORCEMENT_def
  FORK_HANDLING_def DELETION_SUPPORT_def PERSISTENCE_SCOPE_def CONCURRENCY_SCOPE_def
  REMOTE_CAS_AUTHENTICATION_def AUTHORITY_SCOPE_def HASH_PREIMAGE_CONSTRUCTION_def
  DIRECTIVE_ORIGIN_def OUTCOME_SELECTION_def CONFIRMATION_SCOPE_def CAUSE_SCOPE_def
  APPLICATION_ATTRIBUTION_def IDEMPOTENCE_SCOPE_def EXACTLY_ONCE_SCOPE_def
  FILESYSTEM_STAGING_def REMOTE_PUBLICATION_def DURABILITY_SCOPE_def MARKER_SCOPE_def
  RECOVERY_SCOPE_def WITNESS_SCOPE_def MANIFEST_SCOPE_def

section \<open>Value objects\<close>

record cas_state =
  cs_state_schema_version :: string
  cs_state_scope :: string
  cs_origin_status :: string
  cs_generation :: int
  cs_cell_state :: string
  cs_cell_payload :: "bytes option"
  cs_cell_payload_bytes :: "int option"
  cs_cell_payload_sha256 :: "string option"
  cs_state_version_sha256 :: string
  cs_payload_byte_limit :: int
  cs_generation_upper_bound :: int
  cs_version_scope :: string
  cs_raw_equality_scope :: string
  cs_state_provenance :: string
  cs_lineage_enforcement :: string
  cs_fork_handling :: string
  cs_deletion_support :: string
  cs_persistence_scope :: string
  cs_concurrency_scope :: string
  cs_remote_cas_authentication :: string
  cs_authority_scope :: string
  cs_canonical_remote_authority :: bool
  cs_licenses_execution :: bool
  cs_licenses_publication :: bool
  cs_licenses_recovery :: bool
  cs_licenses_later_stage :: bool


record cas_transition =
  ct_transition_schema_version :: string
  ct_transition_scope :: string
  ct_origin_status :: string
  ct_before_state :: cas_state
  ct_after_state :: cas_state
  ct_expected_state_version_sha256 :: string
  ct_proposed_payload :: bytes
  ct_proposed_payload_bytes :: int
  ct_proposed_payload_sha256 :: string
  ct_synthetic_directive :: string
  ct_alternate_payload :: "bytes option"
  ct_alternate_payload_bytes :: "int option"
  ct_alternate_payload_sha256 :: "string option"
  ct_input_sha256 :: string
  ct_outcome :: string
  ct_reason_codes :: "string list"
  ct_expected_version_match :: bool
  ct_proposed_equal_before :: "bool option"
  ct_directive_reached :: bool
  ct_alternate_semantics_checked :: bool
  ct_state_changed :: bool
  ct_cell_mutation_count :: int
  ct_intended_apply_status :: string
  ct_intended_after_state_version_sha256 :: "string option"
  ct_intended_delta_sha256 :: "string option"
  ct_actual_delta_sha256 :: "string option"
  ct_transition_sha256 :: string
  ct_effect_scope :: string
  ct_synthetic_acknowledgement_label :: string
  ct_same_kernel_confirmation_label :: string
  ct_synthetic_client_observation :: string
  ct_model_latent_effect :: string
  ct_payload_byte_limit :: int
  ct_generation_upper_bound :: int
  ct_unique_retained_payload_reference_upper_bound_bytes :: int
  ct_retained_payload_copy_upper_bound_bytes :: int
  ct_state_hash_preimage_upper_bound_bytes :: int
  ct_input_hash_preimage_upper_bound_bytes :: int
  ct_delta_hash_preimage_upper_bound_bytes :: int
  ct_transition_hash_preimage_upper_bound_bytes :: int
  ct_hash_preimage_construction :: string
  ct_directive_origin :: string
  ct_outcome_selection :: string
  ct_confirmation_scope :: string
  ct_cause_scope :: string
  ct_application_attribution :: string
  ct_state_provenance :: string
  ct_lineage_enforcement :: string
  ct_fork_handling :: string
  ct_idempotence_scope :: string
  ct_exactly_once_scope :: string
  ct_persistence_scope :: string
  ct_concurrency_scope :: string
  ct_filesystem_staging :: string
  ct_remote_publication :: string
  ct_durability_scope :: string
  ct_marker_scope :: string
  ct_recovery_scope :: string
  ct_witness_scope :: string
  ct_manifest_scope :: string
  ct_authority_scope :: string
  ct_canonical_remote_authority :: bool
  ct_licenses_execution :: bool
  ct_licenses_publication :: bool
  ct_licenses_recovery :: bool
  ct_licenses_later_stage :: bool

text \<open>What \<^verbatim>\<open>is\<close> answers about the objects a transition holds.\<close>

record object_identity =
  after_is_before :: bool
  after_payload_is_alternate :: bool
  after_payload_is_proposal :: bool

section \<open>Encoders\<close>

definition require_hash :: "string \<Rightarrow> string \<Rightarrow> (cas_error, string) res" where
  "require_hash text name =
     (if is_upper_hex64 text then Inr text else Inl (name @ '' is not exact uppercase hex64''))"

definition require_optional_hash :: "string option \<Rightarrow> string \<Rightarrow> (cas_error, unit) res" where
  "require_optional_hash value name =
     (case value of None \<Rightarrow> Inr () | Some h \<Rightarrow> bindE (require_hash h name) (\<lambda>_. Inr ()))"

definition require_false :: "bool \<Rightarrow> string \<Rightarrow> (cas_error, unit) res" where
  "require_false value name = guardE value (name @ '' must be exact false'')"

definition require_bytes :: "bytes option \<Rightarrow> string \<Rightarrow> (cas_error, bytes) res" where
  "require_bytes value name =
     (case value of None \<Rightarrow> Inl (name @ '' is not exact bytes'') | Some b \<Rightarrow> Inr b)"

definition require_none :: "'a option \<Rightarrow> string \<Rightarrow> (cas_error, unit) res" where
  "require_none value name = guardE (value \<noteq> None) (name @ '' must be exact None'')"

definition require_equal :: "'a \<Rightarrow> 'a \<Rightarrow> string \<Rightarrow> (cas_error, unit) res" where
  "require_equal actual expected name = guardE (actual \<noteq> expected) (name @ '' is invalid'')"

definition u16 :: "int \<Rightarrow> (cas_error, bytes) res" where
  "u16 n = (if n < 0 \<or> n > 65535 then Inl ''u16 value is out of range'' else Inr (be_bytes 2 (nat n)))"

definition u64 :: "int \<Rightarrow> (cas_error, bytes) res" where
  "u64 n = (if n < 0 \<or> n > 18446744073709551615 then Inl ''u64 value is out of range''
     else Inr (be_bytes 8 (nat n)))"

definition ascii_bytes :: "string \<Rightarrow> (cas_error, bytes) res" where
  "ascii_bytes text =
     (if list_ex (\<lambda>c. of_char c \<ge> (128 :: nat)) text then Inl ''ASCII value is not ASCII''
      else if length text > 65535 then Inl ''ASCII value is too long''
      else Inr (ascii text))"

text \<open>The digest object is the list of bytes it was updated with.\<close>

definition update_ascii :: "string \<Rightarrow> bytes \<Rightarrow> (cas_error, bytes) res" where
  "update_ascii value digest =
     bindE (ascii_bytes value) (\<lambda>encoded.
     bindE (u16 (int (length encoded))) (\<lambda>size. Inr (digest @ size @ encoded)))"

definition framed :: "bytes \<Rightarrow> (cas_error, bytes) res" where
  "framed raw = bindE (u64 (int (length raw))) (\<lambda>size. Inr (size @ raw))"

definition optional_framed :: "bytes option \<Rightarrow> (cas_error, bytes) res" where
  "optional_framed payload =
     (case payload of None \<Rightarrow> Inr [0] | Some raw \<Rightarrow> bindE (framed raw) (\<lambda>f. Inr (1 # f)))"

definition optional_hash :: "string option \<Rightarrow> bytes" where
  "optional_hash value = (case value of None \<Rightarrow> [0] | Some h \<Rightarrow> 1 # unhex h)"

definition state_preimage :: "int \<Rightarrow> bytes option \<Rightarrow> (cas_error, bytes) res" where
  "state_preimage generation payload =
     bindE (u64 generation) (\<lambda>g. bindE (optional_framed payload) (\<lambda>p. Inr (D_STATE @ g @ p)))"

definition state_version_sha256 :: "int \<Rightarrow> bytes option \<Rightarrow> (cas_error, string) res" where
  "state_version_sha256 generation payload =
     bindE (state_preimage generation payload) (\<lambda>m. Inr (sha256_hex m))"

definition input_preimage :: "string \<Rightarrow> bytes \<Rightarrow> nat \<Rightarrow> bytes option \<Rightarrow> (cas_error, bytes) res" where
  "input_preimage expected proposed directive_index alternate =
     bindE (framed proposed) (\<lambda>p. bindE (optional_framed alternate) (\<lambda>a.
       Inr (D_INPUT @ unhex expected @ p @ [of_nat (directive_index + 1)] @ a)))"

definition input_sha256 :: "string \<Rightarrow> bytes \<Rightarrow> nat \<Rightarrow> bytes option \<Rightarrow> (cas_error, string) res" where
  "input_sha256 expected proposed directive_index alternate =
     bindE (input_preimage expected proposed directive_index alternate) (\<lambda>m. Inr (sha256_hex m))"

definition delta_preimage :: "string \<Rightarrow> string \<Rightarrow> bytes \<Rightarrow> (cas_error, bytes) res" where
  "delta_preimage before after applied =
     bindE (framed applied) (\<lambda>p. Inr (D_DELTA @ unhex before @ unhex after @ p))"

definition delta_sha256 :: "string \<Rightarrow> string \<Rightarrow> bytes \<Rightarrow> (cas_error, string) res" where
  "delta_sha256 before after applied =
     bindE (delta_preimage before after applied) (\<lambda>m. Inr (sha256_hex m))"

definition transition_preimage ::
  "string \<Rightarrow> nat \<Rightarrow> string \<Rightarrow> string option \<Rightarrow> string option \<Rightarrow> string option \<Rightarrow> string \<Rightarrow> int
   \<Rightarrow> string list \<Rightarrow> (cas_error, bytes) res" where
  "transition_preimage input outcome_index before intended_after intended_delta actual_delta after
     mutations row =
     bindE (u64 mutations) (\<lambda>m.
     foldE update_ascii row (D_TRANSITION @ unhex input @ [of_nat (outcome_index + 1)] @ unhex before
       @ optional_hash intended_after @ optional_hash intended_delta @ optional_hash actual_delta
       @ unhex after @ m))"

definition transition_sha256 ::
  "string \<Rightarrow> nat \<Rightarrow> string \<Rightarrow> string option \<Rightarrow> string option \<Rightarrow> string option \<Rightarrow> string \<Rightarrow> int
   \<Rightarrow> string list \<Rightarrow> (cas_error, string) res" where
  "transition_sha256 input outcome_index before intended_after intended_delta actual_delta after
     mutations row =
     bindE (transition_preimage input outcome_index before intended_after intended_delta
       actual_delta after mutations row) (\<lambda>m. Inr (sha256_hex m))"

section \<open>Checks of the frozen constants\<close>

definition transition_preimage_lengths :: "int list" where
  "transition_preimage_lengths =
     map (\<lambda>(index, row). int (length D_TRANSITION) + 32 + 1 + 32 + (if index < 2 then 3 else 99) + 32 + 8
         + sum_list (map (\<lambda>value. 2 + int (length value)) row))
       (enumerate 0 OUTCOME_ROWS)"

definition frozen_strings :: "string list" where
  "frozen_strings = [
     STATE_SCHEMA, STATE_SCOPE, TRANSITION_SCHEMA, TRANSITION_SCOPE, ORIGIN_STATUS, VERSION_SCOPE,
     RAW_EQUALITY_SCOPE, STATE_PROVENANCE, LINEAGE_ENFORCEMENT, FORK_HANDLING, DELETION_SUPPORT,
     PERSISTENCE_SCOPE, CONCURRENCY_SCOPE, REMOTE_CAS_AUTHENTICATION, AUTHORITY_SCOPE,
     HASH_PREIMAGE_CONSTRUCTION, DIRECTIVE_ORIGIN, OUTCOME_SELECTION, CONFIRMATION_SCOPE,
     CAUSE_SCOPE, APPLICATION_ATTRIBUTION, IDEMPOTENCE_SCOPE, EXACTLY_ONCE_SCOPE,
     FILESYSTEM_STAGING, REMOTE_PUBLICATION, DURABILITY_SCOPE, MARKER_SCOPE, RECOVERY_SCOPE,
     WITNESS_SCOPE, MANIFEST_SCOPE]"

text \<open>The constants compared with the literals they were frozen as.\<close>

definition frozen_tables :: "(cas_error, unit) res" where
  "frozen_tables =
     (if frozen_strings \<noteq> [
       ''lean-rgc-uprime-u1-in-memory-fake-cas-state-v1.0'', ''one_anonymous_in_memory_value_cell'',
       ''lean-rgc-uprime-u1-in-memory-fake-cas-transition-v1.0'',
       ''pure_single_call_one_cell_cas_derivation'', ''unknown_may_be_synthetic'',
       ''comparison_value_not_capability'', ''exact_bytes_not_digest_only'',
       ''unauthenticated_forgeable_value_object'',
       ''caller_must_thread_returned_state_not_enforced'', ''forks_allowed_no_global_linearity'',
       ''unsupported_proposals_are_exact_bytes'', ''none_process_memory_only'',
       ''none_pure_single_call_transition'', ''not_performed'', ''none'',
       ''payloads_streamed_no_full_preimage_materialization'',
       ''caller_supplied_repeatable_synthetic_choice'',
       ''input_validation_then_conflict_then_exact_identity_then_directive'',
       ''same_call_same_kernel_not_independent'', ''not_modeled_no_causal_fault_claim'',
       ''not_authenticated'', ''not_provided_no_operation_identity'', ''not_provided'',
       ''not_performed'', ''not_performed'', ''not_observed'', ''not_created_or_observed'',
       ''not_performed'', ''not_issued_or_verified'', ''not_read_or_written'']
        then Inl ''a frozen scope constant is invalid''
      else if [D_STATE, D_INPUT, D_DELTA, D_TRANSITION] \<noteq>
          map (\<lambda>name. ascii (''lean-rgc-uprime-u1-in-memory-fake-cas-'' @ name @ ''-v1'') @ [0])
            [''state'', ''input'', ''delta'', ''transition'']
        then Inl ''a frozen hash domain is invalid''
      else if DIRECTIVES \<noteq> [
       ''apply_intended_acknowledge'', ''apply_intended_lose_ack_then_confirm'',
       ''apply_intended_lose_ack_confirmation_unavailable'',
       ''substitute_alternate_then_confirm_wrong_delta'']
        then Inl ''the directive table is invalid''
      else if OUTCOMES \<noteq> [
       ''conflict_no_change'', ''existing_identical_no_change'', ''intended_applied_acknowledged'',
       ''intended_applied_ack_lost_confirmed'', ''intended_applied_ack_lost_unconfirmed'',
       ''wrong_delta_confirmed'']
        then Inl ''the outcome table is invalid''
      else if OUTCOME_ROWS \<noteq> [
       [''expected_state_version_mismatch'', ''not_attempted'', ''no_change'', ''not_attempted'',
       ''not_attempted'', ''conflict'', ''unchanged''],
       [''exact_payload_already_current'', ''not_attempted_existing_identical'',
       ''no_change_existing_identical'', ''not_attempted'', ''not_attempted'',
       ''existing_identical'', ''unchanged_existing_identical''],
       [''matched_intended_apply_acknowledged'', ''applied'', ''intended_applied'', ''delivered'',
       ''not_attempted'', ''applied'', ''intended_applied''],
       [''matched_intended_apply_ack_lost_confirmed'', ''applied'', ''intended_applied'', ''lost'',
       ''same_kernel_observed_intended'', ''applied_after_same_kernel_confirmation'',
       ''intended_applied''],
       [''matched_intended_apply_ack_lost_confirmation_unavailable'', ''applied'',
       ''intended_applied'', ''lost'', ''unavailable'', ''ambiguous'', ''intended_applied''],
       [''matched_alternate_substitution_confirmed_wrong_delta'',
       ''not_applied_alternate_substituted'', ''alternate_applied'',
       ''not_applicable_intended_not_applied'', ''same_kernel_observed_wrong_delta'',
       ''wrong_delta'', ''alternate_applied'']]
        then Inl ''the frozen outcome semantic cells are invalid''
      else Inr ())"

definition validate_frozen_constants :: "(cas_error, unit) res" where
  "validate_frozen_constants =
     bindE frozen_tables (\<lambda>_.
      if map length [D_STATE, D_INPUT, D_DELTA, D_TRANSITION] \<noteq> [47, 47, 47, 52]
        then Inl ''a frozen hash domain length is invalid''
      else if MAX_UNIQUE_RETAINED_PAYLOAD_REFERENCE_BYTES \<noteq> 3 * MAX_PAYLOAD_BYTES
        then Inl ''retained reference bound formula is invalid''
      else if MAX_RETAINED_PAYLOAD_COPY_BYTES \<noteq> 0 then Inl ''retained payload copy bound is invalid''
      else if MAX_STATE_HASH_PREIMAGE_BYTES \<noteq> int (length D_STATE) + 8 + 1 + 8 + MAX_PAYLOAD_BYTES
        then Inl ''state preimage bound formula is invalid''
      else if MAX_INPUT_HASH_PREIMAGE_BYTES
          \<noteq> int (length D_INPUT) + 32 + 8 + MAX_PAYLOAD_BYTES + 1 + 1 + 8 + MAX_PAYLOAD_BYTES
        then Inl ''input preimage bound formula is invalid''
      else if MAX_DELTA_HASH_PREIMAGE_BYTES \<noteq> int (length D_DELTA) + 32 + 32 + 8 + MAX_PAYLOAD_BYTES
        then Inl ''delta preimage bound formula is invalid''
      else if length OUTCOME_ROWS \<noteq> 6 \<or> list_ex (\<lambda>row. length row \<noteq> 7) OUTCOME_ROWS
        then Inl ''the outcome semantic table is invalid''
      else if transition_preimage_lengths \<noteq> [270, 335, 373, 421, 389, 467]
        then Inl ''transition preimage lengths are invalid''
      else if MAX_TRANSITION_HASH_PREIMAGE_BYTES \<noteq> Max (set transition_preimage_lengths)
        then Inl ''transition preimage bound formula is invalid''
      else Inr ())"

section \<open>States\<close>

definition fixed_state_strings :: "cas_state \<Rightarrow> (string \<times> string \<times> string) list" where
  "fixed_state_strings v =
     [(cs_state_schema_version v, STATE_SCHEMA, ''state_schema_version''),
      (cs_state_scope v, STATE_SCOPE, ''state_scope''),
      (cs_origin_status v, ORIGIN_STATUS, ''origin_status''),
      (cs_version_scope v, VERSION_SCOPE, ''version_scope''),
      (cs_raw_equality_scope v, RAW_EQUALITY_SCOPE, ''raw_equality_scope''),
      (cs_state_provenance v, STATE_PROVENANCE, ''state_provenance''),
      (cs_lineage_enforcement v, LINEAGE_ENFORCEMENT, ''lineage_enforcement''),
      (cs_fork_handling v, FORK_HANDLING, ''fork_handling''),
      (cs_deletion_support v, DELETION_SUPPORT, ''deletion_support''),
      (cs_persistence_scope v, PERSISTENCE_SCOPE, ''persistence_scope''),
      (cs_concurrency_scope v, CONCURRENCY_SCOPE, ''concurrency_scope''),
      (cs_remote_cas_authentication v, REMOTE_CAS_AUTHENTICATION, ''remote_cas_authentication''),
      (cs_authority_scope v, AUTHORITY_SCOPE, ''authority_scope'')]"

definition state_licenses :: "cas_state \<Rightarrow> (bool \<times> string) list" where
  "state_licenses v =
     [(cs_canonical_remote_authority v, ''canonical_remote_authority''),
      (cs_licenses_execution v, ''licenses_execution''),
      (cs_licenses_publication v, ''licenses_publication''),
      (cs_licenses_recovery v, ''licenses_recovery''),
      (cs_licenses_later_stage v, ''licenses_later_stage'')]"

text \<open>The payload of a state whose cell fields agree with each other.\<close>

definition cell_payload_checked :: "cas_state \<Rightarrow> (cas_error, bytes option) res" where
  "cell_payload_checked v =
     (if cs_cell_state v = ''absent'' then
        bindE (guardE (cs_generation v \<noteq> 0) ''absent state must have generation zero'') (\<lambda>_.
        bindE (require_none (cs_cell_payload v) ''absent cell_payload'') (\<lambda>_.
        bindE (require_none (cs_cell_payload_bytes v) ''absent cell_payload_bytes'') (\<lambda>_.
        bindE (require_none (cs_cell_payload_sha256 v) ''absent cell_payload_sha256'') (\<lambda>_.
        Inr None))))
      else if cs_cell_state v = ''present'' then
        bindE (guardE (cs_generation v < 1) ''present state must have positive generation'') (\<lambda>_.
        bindE (require_bytes (cs_cell_payload v) ''cell_payload'') (\<lambda>payload.
        bindE (guardE (int (length payload) > MAX_PAYLOAD_BYTES) ''cell_payload exceeds the byte bound'') (\<lambda>_.
        bindE (case cs_cell_payload_bytes v of None \<Rightarrow> Inl ''cell_payload_bytes is not an exact integer''
               | Some n \<Rightarrow> require_equal n (int (length payload)) ''cell_payload_bytes'') (\<lambda>_.
        bindE (case cs_cell_payload_sha256 v of None \<Rightarrow> Inl ''cell_payload_sha256 is not an exact string''
               | Some h \<Rightarrow> require_hash h ''cell_payload_sha256'') (\<lambda>supplied.
        bindE (require_hash (sha256_hex payload) ''computed cell payload hash'') (\<lambda>computed.
        bindE (require_equal supplied computed ''cell_payload_sha256'') (\<lambda>_.
        Inr (Some payload))))))))
      else Inl ''cell_state is invalid'')"

definition validate_state :: "cas_state \<Rightarrow> (cas_error, unit) res" where
  "validate_state v =
     bindE validate_frozen_constants (\<lambda>_.
     bindE (foldE (\<lambda>(actual, expected, name) _. require_equal actual expected name)
       (fixed_state_strings v) ()) (\<lambda>_.
     bindE (require_equal (cs_payload_byte_limit v) MAX_PAYLOAD_BYTES ''payload_byte_limit'') (\<lambda>_.
     bindE (require_equal (cs_generation_upper_bound v) MAX_GENERATION ''generation_upper_bound'') (\<lambda>_.
     bindE (foldE (\<lambda>(value, name) _. require_false value name) (state_licenses v) ()) (\<lambda>_.
     bindE (guardE (cs_generation v < 0 \<or> cs_generation v > MAX_GENERATION) ''generation is out of range'') (\<lambda>_.
     bindE (cell_payload_checked v) (\<lambda>payload.
     bindE (require_hash (cs_state_version_sha256 v) ''state_version_sha256'') (\<lambda>supplied.
     bindE (state_version_sha256 (cs_generation v) payload) (\<lambda>expected.
     require_equal supplied expected ''state_version_sha256'')))))))))"

text \<open>The field values of a state with this generation, payload and version.\<close>

definition state_fields :: "int \<Rightarrow> bytes option \<Rightarrow> string \<Rightarrow> cas_state" where
  "state_fields generation payload version =
     \<lparr>cs_state_schema_version = STATE_SCHEMA,
      cs_state_scope = STATE_SCOPE,
      cs_origin_status = ORIGIN_STATUS,
      cs_generation = generation,
      cs_cell_state = (case payload of None \<Rightarrow> ''absent'' | Some raw \<Rightarrow> ''present''),
      cs_cell_payload = payload,
      cs_cell_payload_bytes = map_option (\<lambda>raw. int (length raw)) payload,
      cs_cell_payload_sha256 = map_option sha256_hex payload,
      cs_state_version_sha256 = version,
      cs_payload_byte_limit = MAX_PAYLOAD_BYTES,
      cs_generation_upper_bound = MAX_GENERATION,
      cs_version_scope = VERSION_SCOPE,
      cs_raw_equality_scope = RAW_EQUALITY_SCOPE,
      cs_state_provenance = STATE_PROVENANCE,
      cs_lineage_enforcement = LINEAGE_ENFORCEMENT,
      cs_fork_handling = FORK_HANDLING,
      cs_deletion_support = DELETION_SUPPORT,
      cs_persistence_scope = PERSISTENCE_SCOPE,
      cs_concurrency_scope = CONCURRENCY_SCOPE,
      cs_remote_cas_authentication = REMOTE_CAS_AUTHENTICATION,
      cs_authority_scope = AUTHORITY_SCOPE,
      cs_canonical_remote_authority = False,
      cs_licenses_execution = False,
      cs_licenses_publication = False,
      cs_licenses_recovery = False,
      cs_licenses_later_stage = False\<rparr>"

definition make_state :: "int \<Rightarrow> bytes option \<Rightarrow> (cas_error, cas_state) res" where
  "make_state generation payload =
     bindE validate_frozen_constants (\<lambda>_.
     bindE (case payload of None \<Rightarrow> Inr ()
            | Some raw \<Rightarrow> guardE (int (length raw) > MAX_PAYLOAD_BYTES) ''cell payload exceeds the byte bound'') (\<lambda>_.
     bindE (state_version_sha256 generation payload) (\<lambda>version.
     bindE (validate_state (state_fields generation payload version)) (\<lambda>_.
     Inr (state_fields generation payload version)))))"

text \<open>A fresh object with the same fields, validated again.\<close>

definition snapshot_state :: "cas_state \<Rightarrow> (cas_error, cas_state) res" where
  "snapshot_state v = bindE (validate_state v) (\<lambda>_. Inr v)"

definition initial_state :: "(cas_error, cas_state) res" where
  "initial_state = make_state 0 None"

section \<open>Transitions\<close>

text \<open>The local variables the three branches of the derivation assign.\<close>

record cas_effect =
  ef_outcome_index :: nat
  ef_after_state :: cas_state
  ef_expected_version_match :: bool
  ef_proposed_equal_before :: "bool option"
  ef_directive_reached :: bool
  ef_alternate_semantics_checked :: bool
  ef_state_changed :: bool
  ef_mutation_count :: int
  ef_intended_after_version :: "string option"
  ef_intended_delta :: "string option"
  ef_actual_delta :: "string option"

definition unchanged_effect :: "nat \<Rightarrow> cas_state \<Rightarrow> bool \<Rightarrow> bool option \<Rightarrow> cas_effect" where
  "unchanged_effect index s matched equal_before =
     \<lparr>ef_outcome_index = index, ef_after_state = s, ef_expected_version_match = matched,
      ef_proposed_equal_before = equal_before, ef_directive_reached = False,
      ef_alternate_semantics_checked = False, ef_state_changed = False, ef_mutation_count = 0,
      ef_intended_after_version = None, ef_intended_delta = None, ef_actual_delta = None\<rparr>"

definition changed_effect ::
  "nat \<Rightarrow> cas_state \<Rightarrow> bool \<Rightarrow> string \<Rightarrow> string \<Rightarrow> string \<Rightarrow> cas_effect" where
  "changed_effect index after checked intended_after intended_delta actual_delta =
     \<lparr>ef_outcome_index = index, ef_after_state = after, ef_expected_version_match = True,
      ef_proposed_equal_before = Some False, ef_directive_reached = True,
      ef_alternate_semantics_checked = checked, ef_state_changed = True, ef_mutation_count = 1,
      ef_intended_after_version = Some intended_after, ef_intended_delta = Some intended_delta,
      ef_actual_delta = Some actual_delta\<rparr>"

definition apply_change ::
  "cas_state \<Rightarrow> bytes \<Rightarrow> nat \<Rightarrow> bytes option \<Rightarrow> (cas_error, cas_effect) res" where
  "apply_change s proposal directive_index alternate =
     bindE (guardE (directive_index = 3 \<and> alternate = Some proposal)
       ''alternate_payload must differ from proposed_payload'') (\<lambda>_.
     bindE (guardE (directive_index = 3 \<and> cs_cell_state s = ''present'' \<and> alternate = cs_cell_payload s)
       ''alternate_payload must differ from the current payload'') (\<lambda>_.
     bindE (guardE (cs_generation s = MAX_GENERATION) ''a changed transition would exhaust generation'') (\<lambda>_.
     bindE (make_state (cs_generation s + 1) (Some proposal)) (\<lambda>intended.
     bindE (delta_sha256 (cs_state_version_sha256 s) (cs_state_version_sha256 intended) proposal) (\<lambda>intended_delta.
     if directive_index = 3 then
       bindE (make_state (cs_generation s + 1) alternate) (\<lambda>after.
       bindE (delta_sha256 (cs_state_version_sha256 s) (cs_state_version_sha256 after) (the alternate)) (\<lambda>actual_delta.
       Inr (changed_effect 5 after True (cs_state_version_sha256 intended) intended_delta actual_delta)))
     else Inr (changed_effect (directive_index + 2) intended False (cs_state_version_sha256 intended)
       intended_delta intended_delta))))))"

definition decide_effect ::
  "cas_state \<Rightarrow> string \<Rightarrow> bytes \<Rightarrow> nat \<Rightarrow> bytes option \<Rightarrow> (cas_error, cas_effect) res" where
  "decide_effect s expected proposal directive_index alternate =
     (if expected \<noteq> cs_state_version_sha256 s then Inr (unchanged_effect 0 s False None)
      else if cs_cell_state s = ''present'' \<and> cs_cell_payload s = Some proposal
        then Inr (unchanged_effect 1 s True (Some True))
      else apply_change s proposal directive_index alternate)"

definition directive_index_of :: "string \<Rightarrow> (cas_error, nat) res" where
  "directive_index_of directive =
     (case List.find (\<lambda>(_, d). d = directive) (enumerate 0 DIRECTIVES) of
        None \<Rightarrow> Inl ''synthetic_directive is invalid''
      | Some (i, _) \<Rightarrow> Inr i)"

definition checked_alternate :: "nat \<Rightarrow> bytes option \<Rightarrow> (cas_error, bytes option) res" where
  "checked_alternate directive_index alternate =
     (if directive_index < 3 then
        bindE (guardE (alternate \<noteq> None) ''alternate_payload must be exact None for this directive'') (\<lambda>_. Inr None)
      else
        bindE (require_bytes alternate ''alternate_payload'') (\<lambda>raw.
        bindE (guardE (int (length raw) > MAX_PAYLOAD_BYTES) ''alternate_payload exceeds the byte bound'') (\<lambda>_.
        Inr (Some raw))))"

text \<open>The field values of a transition.\<close>

definition transition_fields ::
  "cas_state \<Rightarrow> string \<Rightarrow> bytes \<Rightarrow> string \<Rightarrow> bytes option \<Rightarrow> string \<Rightarrow> string \<Rightarrow> cas_effect \<Rightarrow> cas_transition" where
  "transition_fields s expected proposal directive alternate input_hash transition_hash ef =
     (let row = OUTCOME_ROWS ! ef_outcome_index ef in
     \<lparr>ct_transition_schema_version = TRANSITION_SCHEMA,
      ct_transition_scope = TRANSITION_SCOPE,
      ct_origin_status = ORIGIN_STATUS,
      ct_before_state = s,
      ct_after_state = ef_after_state ef,
      ct_expected_state_version_sha256 = expected,
      ct_proposed_payload = proposal,
      ct_proposed_payload_bytes = int (length proposal),
      ct_proposed_payload_sha256 = sha256_hex proposal,
      ct_synthetic_directive = directive,
      ct_alternate_payload = alternate,
      ct_alternate_payload_bytes = map_option (\<lambda>raw. int (length raw)) alternate,
      ct_alternate_payload_sha256 = map_option sha256_hex alternate,
      ct_input_sha256 = input_hash,
      ct_outcome = OUTCOMES ! ef_outcome_index ef,
      ct_reason_codes = [row ! 0],
      ct_expected_version_match = ef_expected_version_match ef,
      ct_proposed_equal_before = ef_proposed_equal_before ef,
      ct_directive_reached = ef_directive_reached ef,
      ct_alternate_semantics_checked = ef_alternate_semantics_checked ef,
      ct_state_changed = ef_state_changed ef,
      ct_cell_mutation_count = ef_mutation_count ef,
      ct_intended_apply_status = row ! 1,
      ct_intended_after_state_version_sha256 = ef_intended_after_version ef,
      ct_intended_delta_sha256 = ef_intended_delta ef,
      ct_actual_delta_sha256 = ef_actual_delta ef,
      ct_transition_sha256 = transition_hash,
      ct_effect_scope = row ! 2,
      ct_synthetic_acknowledgement_label = row ! 3,
      ct_same_kernel_confirmation_label = row ! 4,
      ct_synthetic_client_observation = row ! 5,
      ct_model_latent_effect = row ! 6,
      ct_payload_byte_limit = MAX_PAYLOAD_BYTES,
      ct_generation_upper_bound = MAX_GENERATION,
      ct_unique_retained_payload_reference_upper_bound_bytes = MAX_UNIQUE_RETAINED_PAYLOAD_REFERENCE_BYTES,
      ct_retained_payload_copy_upper_bound_bytes = MAX_RETAINED_PAYLOAD_COPY_BYTES,
      ct_state_hash_preimage_upper_bound_bytes = MAX_STATE_HASH_PREIMAGE_BYTES,
      ct_input_hash_preimage_upper_bound_bytes = MAX_INPUT_HASH_PREIMAGE_BYTES,
      ct_delta_hash_preimage_upper_bound_bytes = MAX_DELTA_HASH_PREIMAGE_BYTES,
      ct_transition_hash_preimage_upper_bound_bytes = MAX_TRANSITION_HASH_PREIMAGE_BYTES,
      ct_hash_preimage_construction = HASH_PREIMAGE_CONSTRUCTION,
      ct_directive_origin = DIRECTIVE_ORIGIN,
      ct_outcome_selection = OUTCOME_SELECTION,
      ct_confirmation_scope = CONFIRMATION_SCOPE,
      ct_cause_scope = CAUSE_SCOPE,
      ct_application_attribution = APPLICATION_ATTRIBUTION,
      ct_state_provenance = STATE_PROVENANCE,
      ct_lineage_enforcement = LINEAGE_ENFORCEMENT,
      ct_fork_handling = FORK_HANDLING,
      ct_idempotence_scope = IDEMPOTENCE_SCOPE,
      ct_exactly_once_scope = EXACTLY_ONCE_SCOPE,
      ct_persistence_scope = PERSISTENCE_SCOPE,
      ct_concurrency_scope = CONCURRENCY_SCOPE,
      ct_filesystem_staging = FILESYSTEM_STAGING,
      ct_remote_publication = REMOTE_PUBLICATION,
      ct_durability_scope = DURABILITY_SCOPE,
      ct_marker_scope = MARKER_SCOPE,
      ct_recovery_scope = RECOVERY_SCOPE,
      ct_witness_scope = WITNESS_SCOPE,
      ct_manifest_scope = MANIFEST_SCOPE,
      ct_authority_scope = AUTHORITY_SCOPE,
      ct_canonical_remote_authority = False,
      ct_licenses_execution = False,
      ct_licenses_publication = False,
      ct_licenses_recovery = False,
      ct_licenses_later_stage = False\<rparr>)"

definition derive_transition_values ::
  "cas_state \<Rightarrow> string \<Rightarrow> bytes \<Rightarrow> string \<Rightarrow> bytes option \<Rightarrow> (cas_error, cas_transition) res" where
  "derive_transition_values s expected_version proposal directive alternate_payload =
     bindE validate_frozen_constants (\<lambda>_.
     bindE (require_hash expected_version ''expected_state_version_sha256'') (\<lambda>expected.
     bindE (guardE (int (length proposal) > MAX_PAYLOAD_BYTES) ''proposed_payload exceeds the byte bound'') (\<lambda>_.
     bindE (directive_index_of directive) (\<lambda>directive_index.
     bindE (checked_alternate directive_index alternate_payload) (\<lambda>alternate.
     bindE (require_hash (sha256_hex proposal) ''computed proposed payload hash'') (\<lambda>_.
     bindE (require_optional_hash (map_option sha256_hex alternate) ''computed alternate payload hash'') (\<lambda>_.
     bindE (input_sha256 expected proposal directive_index alternate) (\<lambda>input_hash.
     bindE (decide_effect s expected proposal directive_index alternate) (\<lambda>ef.
     bindE (transition_sha256 input_hash (ef_outcome_index ef) (cs_state_version_sha256 s)
       (ef_intended_after_version ef) (ef_intended_delta ef) (ef_actual_delta ef)
       (cs_state_version_sha256 (ef_after_state ef)) (ef_mutation_count ef)
       (OUTCOME_ROWS ! ef_outcome_index ef)) (\<lambda>transition_hash.
     Inr (transition_fields s expected proposal directive alternate input_hash transition_hash ef)))))))))))"

definition validate_transition_field_types :: "cas_transition \<Rightarrow> (cas_error, unit) res" where
  "validate_transition_field_types v =
     bindE (foldE (\<lambda>(value, name) _. bindE (require_hash value name) (\<lambda>_. Inr ()))
       [(ct_expected_state_version_sha256 v, ''expected_state_version_sha256''),
        (ct_proposed_payload_sha256 v, ''proposed_payload_sha256''),
        (ct_input_sha256 v, ''input_sha256''),
        (ct_transition_sha256 v, ''transition_sha256'')] ()) (\<lambda>_.
     bindE (foldE (\<lambda>(value, name) _. require_optional_hash value name)
       [(ct_alternate_payload_sha256 v, ''alternate_payload_sha256''),
        (ct_intended_after_state_version_sha256 v, ''intended_after_state_version_sha256''),
        (ct_intended_delta_sha256 v, ''intended_delta_sha256''),
        (ct_actual_delta_sha256 v, ''actual_delta_sha256'')] ()) (\<lambda>_.
     guardE (length (ct_reason_codes v) \<noteq> 1) ''reason_codes must be an exact one-element tuple''))"

definition validate_transition :: "object_identity \<Rightarrow> cas_transition \<Rightarrow> (cas_error, unit) res" where
  "validate_transition same v =
     bindE validate_frozen_constants (\<lambda>_.
     bindE (validate_transition_field_types v) (\<lambda>_.
     bindE (snapshot_state (ct_before_state v)) (\<lambda>before.
     bindE (snapshot_state (ct_after_state v)) (\<lambda>_.
     bindE (derive_transition_values before (ct_expected_state_version_sha256 v) (ct_proposed_payload v)
       (ct_synthetic_directive v) (ct_alternate_payload v)) (\<lambda>expected.
     bindE (guardE (v \<noteq> expected) ''transition fields do not match their derivation'') (\<lambda>_.
     if ct_outcome v \<in> set (take 2 OUTCOMES)
       then guardE (\<not> after_is_before same) ''a no-change transition must retain the same State object''
     else if ct_outcome v = OUTCOMES ! 5
       then guardE (\<not> after_payload_is_alternate same) ''wrong-delta after payload must retain the alternate object''
     else guardE (\<not> after_payload_is_proposal same) ''intended after payload must retain the proposal object''))))))"

text \<open>
  The objects a derivation puts into its values: no change keeps the snapshot, a change builds
  the state around the alternate or the proposed bytes.
\<close>

definition built_identity :: "cas_transition \<Rightarrow> object_identity" where
  "built_identity t =
     \<lparr>after_is_before = \<not> ct_state_changed t,
      after_payload_is_alternate = ct_state_changed t \<and> ct_alternate_semantics_checked t,
      after_payload_is_proposal = ct_state_changed t \<and> \<not> ct_alternate_semantics_checked t\<rparr>"

definition cas_step ::
  "cas_state \<Rightarrow> string \<Rightarrow> bytes \<Rightarrow> string \<Rightarrow> bytes option \<Rightarrow> (cas_error, cas_transition) res" where
  "cas_step s expected_version proposal directive alternate_payload =
     bindE validate_frozen_constants (\<lambda>_.
     bindE (snapshot_state s) (\<lambda>snapshot.
     bindE (derive_transition_values snapshot expected_version proposal directive alternate_payload) (\<lambda>t.
     bindE (validate_transition (built_identity t) t) (\<lambda>_.
     Inr t))))"

end
