(* ===== verification/FakeCasCells.thy ===== *)
theory FakeCasCells
  imports FakeCas
begin

text \<open>
  Valid states are cells. A state that passes its validation is determined by its generation
  and payload, \<open>state_of\<close>; on cells the encoders never raise, and the bytes that are hashed
  determine what they encode.
\<close>

section \<open>The frozen constants pass their checks\<close>

lemma domain_lengths [simp]:
  "length D_STATE = 47" "length D_INPUT = 47" "length D_DELTA = 47" "length D_TRANSITION = 52"
  by (simp_all add: D_STATE_def D_INPUT_def D_DELTA_def D_TRANSITION_def)

lemma preimage_lengths: "transition_preimage_lengths = [270, 335, 373, 421, 389, 467]"
  by (simp add: transition_preimage_lengths_def OUTCOME_ROWS_def)

lemma frozen_tables_ok: "frozen_tables = Inr ()"
proof -
  have "frozen_strings = [
     ''lean-rgc-uprime-u1-in-memory-fake-cas-state-v1.0'', ''one_anonymous_in_memory_value_cell'',
     ''lean-rgc-uprime-u1-in-memory-fake-cas-transition-v1.0'',
     ''pure_single_call_one_cell_cas_derivation'', ''unknown_may_be_synthetic'',
     ''comparison_value_not_capability'', ''exact_bytes_not_digest_only'',
     ''unauthenticated_forgeable_value_object'', ''caller_must_thread_returned_state_not_enforced'',
     ''forks_allowed_no_global_linearity'', ''unsupported_proposals_are_exact_bytes'',
     ''none_process_memory_only'', ''none_pure_single_call_transition'', ''not_performed'',
     ''none'', ''payloads_streamed_no_full_preimage_materialization'',
     ''caller_supplied_repeatable_synthetic_choice'',
     ''input_validation_then_conflict_then_exact_identity_then_directive'',
     ''same_call_same_kernel_not_independent'', ''not_modeled_no_causal_fault_claim'',
     ''not_authenticated'', ''not_provided_no_operation_identity'', ''not_provided'',
     ''not_performed'', ''not_performed'', ''not_observed'', ''not_created_or_observed'',
     ''not_performed'', ''not_issued_or_verified'', ''not_read_or_written'']"
    by (simp add: frozen_strings_def cas_constants)
  moreover have "[D_STATE, D_INPUT, D_DELTA, D_TRANSITION] =
      map (\<lambda>name. ascii (''lean-rgc-uprime-u1-in-memory-fake-cas-'' @ name @ ''-v1'') @ [0])
        [''state'', ''input'', ''delta'', ''transition'']"
    by (simp add: D_STATE_def D_INPUT_def D_DELTA_def D_TRANSITION_def)
  ultimately show ?thesis by (simp add: frozen_tables_def DIRECTIVES_def OUTCOMES_def OUTCOME_ROWS_def)
qed

lemma frozen_ok [simp]: "validate_frozen_constants = Inr ()"
proof -
  have "Max (set transition_preimage_lengths) = 467" by (simp add: preimage_lengths)
  moreover have "length OUTCOME_ROWS = 6" "\<not> list_ex (\<lambda>row. length row \<noteq> 7) OUTCOME_ROWS"
    by (simp_all add: OUTCOME_ROWS_def)
  ultimately show ?thesis
    by (simp add: validate_frozen_constants_def frozen_tables_ok preimage_lengths MAX_PAYLOAD_BYTES_def
      MAX_UNIQUE_RETAINED_PAYLOAD_REFERENCE_BYTES_def MAX_RETAINED_PAYLOAD_COPY_BYTES_def
      MAX_STATE_HASH_PREIMAGE_BYTES_def MAX_INPUT_HASH_PREIMAGE_BYTES_def
      MAX_DELTA_HASH_PREIMAGE_BYTES_def MAX_TRANSITION_HASH_PREIMAGE_BYTES_def)
qed

section \<open>Framed bytes\<close>

definition frame_bytes :: "bytes \<Rightarrow> bytes" where
  "frame_bytes raw = be_bytes 8 (length raw) @ raw"

definition optional_bytes :: "bytes option \<Rightarrow> bytes" where
  "optional_bytes p = (case p of None \<Rightarrow> [0] | Some raw \<Rightarrow> 1 # frame_bytes raw)"

definition payload_ok :: "bytes option \<Rightarrow> bool" where
  "payload_ok p \<longleftrightarrow> (case p of None \<Rightarrow> True | Some raw \<Rightarrow> int (length raw) \<le> MAX_PAYLOAD_BYTES)"

lemma payload_ok_simps [simp]:
  "payload_ok None" "payload_ok (Some raw) \<longleftrightarrow> int (length raw) \<le> MAX_PAYLOAD_BYTES"
  by (simp_all add: payload_ok_def)

lemma u64_ok [simp]: "0 \<le> n \<Longrightarrow> n \<le> MAX_GENERATION \<Longrightarrow> u64 n = Inr (be_bytes 8 (nat n))"
  by (simp add: u64_def MAX_GENERATION_def)

lemma framed_ok [simp]: "int (length raw) \<le> MAX_PAYLOAD_BYTES \<Longrightarrow> framed raw = Inr (frame_bytes raw)"
  by (simp add: framed_def u64_def frame_bytes_def MAX_PAYLOAD_BYTES_def)

lemma optional_framed_ok [simp]: "payload_ok p \<Longrightarrow> optional_framed p = Inr (optional_bytes p)"
  by (cases p) (simp_all add: optional_framed_def optional_bytes_def)

lemma frame_bytes_inj:
  assumes "frame_bytes a @ x = frame_bytes b @ y" "length a < 256 ^ 8" "length b < 256 ^ 8"
  shows "a = b \<and> x = y"
proof -
  from assms(1) have "be_bytes 8 (length a) = be_bytes 8 (length b)" "a @ x = b @ y"
    by (auto simp: frame_bytes_def append_eq_append_conv)
  with assms(2,3) show ?thesis by (simp add: be_bytes_inj)
qed

lemma payload_length: "payload_ok (Some raw) \<Longrightarrow> length raw < 256 ^ 8"
  by (simp add: MAX_PAYLOAD_BYTES_def)

lemma optional_bytes_inj:
  assumes "optional_bytes p @ x = optional_bytes q @ y" "payload_ok p" "payload_ok q"
  shows "p = q \<and> x = y"
proof (cases p)
  case None
  with assms(1) show ?thesis by (cases q) (auto simp: optional_bytes_def)
next
  case (Some a)
  with assms(1) obtain b where q: "q = Some b" by (cases q) (auto simp: optional_bytes_def)
  with Some assms(1) have "frame_bytes a @ x = frame_bytes b @ y" by (simp add: optional_bytes_def)
  from frame_bytes_inj [OF this] assms(2,3) Some q show ?thesis using payload_length by auto
qed

section \<open>Cells\<close>

type_synonym cell = "int \<times> bytes option"

definition cell_ok :: "cell \<Rightarrow> bool" where
  "cell_ok c \<longleftrightarrow> 0 \<le> fst c \<and> fst c \<le> MAX_GENERATION \<and> (snd c = None \<longleftrightarrow> fst c = 0) \<and> payload_ok (snd c)"

definition state_bytes :: "cell \<Rightarrow> bytes" where
  "state_bytes c = D_STATE @ be_bytes 8 (nat (fst c)) @ optional_bytes (snd c)"

definition version_of :: "cell \<Rightarrow> string" where
  "version_of c = sha256_hex (state_bytes c)"

definition state_of :: "cell \<Rightarrow> cas_state" where
  "state_of c = state_fields (fst c) (snd c) (version_of c)"

definition cell_of :: "cas_state \<Rightarrow> cell" where
  "cell_of s = (cs_generation s, cs_cell_payload s)"

lemma cell_of_state_of [simp]: "cell_of (state_of c) = c"
  by (simp add: cell_of_def state_of_def state_fields_def)

lemma state_of_fields [simp]:
  "cs_generation (state_of c) = fst c" "cs_cell_payload (state_of c) = snd c"
  "cs_state_version_sha256 (state_of c) = version_of c"
  "cs_cell_state (state_of c) = ''present'' \<longleftrightarrow> snd c \<noteq> None"
  by (simp_all add: state_of_def state_fields_def split: option.splits)

lemma state_version_ok:
  "0 \<le> g \<Longrightarrow> g \<le> MAX_GENERATION \<Longrightarrow> payload_ok p \<Longrightarrow>
    state_version_sha256 g p = Inr (version_of (g, p))"
  by (simp add: state_version_sha256_def state_preimage_def state_bytes_def version_of_def)

lemma unhex_version [simp]: "unhex (version_of c) = sha256 (state_bytes c)"
  by (simp add: version_of_def)

lemma version_hex [simp]: "is_upper_hex64 (version_of c)"
  by (simp add: version_of_def)

lemma require_simps [simp]:
  "require_hash h name = Inr h' \<longleftrightarrow> is_upper_hex64 h \<and> h' = h"
  "require_equal a b name = Inr u \<longleftrightarrow> a = b"
  "require_false f name = Inr u \<longleftrightarrow> \<not> f"
  "require_bytes v name = Inr raw \<longleftrightarrow> v = Some raw"
  by (auto simp: require_hash_def require_equal_def require_false_def require_bytes_def
    split: option.splits)

lemma require_none_simp [simp]: "require_none v name = Inr u \<longleftrightarrow> v = None"
  by (simp add: require_none_def)

lemma cell_payload_checked_iff:
  "cell_payload_checked v = Inr p \<longleftrightarrow> cs_cell_payload v = p
    \<and> cs_cell_payload_bytes v = map_option (\<lambda>raw. int (length raw)) p
    \<and> cs_cell_payload_sha256 v = map_option sha256_hex p
    \<and> (case p of None \<Rightarrow> cs_cell_state v = ''absent'' \<and> cs_generation v = 0
       | Some raw \<Rightarrow> cs_cell_state v = ''present'' \<and> 1 \<le> cs_generation v
           \<and> int (length raw) \<le> MAX_PAYLOAD_BYTES)"
  by (cases p) (auto simp: cell_payload_checked_def bindE_eq_Inr not_less split: option.splits)

lemma fixed_loops [simp]:
  "foldE (\<lambda>(actual, expected, name) _. require_equal actual expected name) xs () = Inr ()
    \<longleftrightarrow> (\<forall>(actual, expected, name) \<in> set xs. actual = expected)"
  "foldE (\<lambda>(value, name) _. require_false value name) ys () = Inr ()
    \<longleftrightarrow> (\<forall>(value, name) \<in> set ys. \<not> value)"
  using foldE_unit_all [of "\<lambda>(actual, expected, name). require_equal actual expected name" xs]
    foldE_unit_all [of "\<lambda>(value, name). require_false value name" ys]
  by (simp_all add: case_prod_unfold)

text \<open>Validation accepts exactly the states of cells.\<close>

lemma validate_state_iff:
  "validate_state v = Inr () \<longleftrightarrow> (\<exists>c. cell_ok c \<and> v = state_of c)"
proof
  assume "validate_state v = Inr ()"
  then obtain p where fixed: "\<forall>(actual, expected, name) \<in> set (fixed_state_strings v). actual = expected"
    and lim: "cs_payload_byte_limit v = MAX_PAYLOAD_BYTES" "cs_generation_upper_bound v = MAX_GENERATION"
    and lic: "\<forall>(value, name) \<in> set (state_licenses v). \<not> value"
    and gen: "0 \<le> cs_generation v" "cs_generation v \<le> MAX_GENERATION"
    and cell: "cell_payload_checked v = Inr p"
    and ver: "state_version_sha256 (cs_generation v) p = Inr (cs_state_version_sha256 v)"
    by (auto simp: validate_state_def bindE_eq_Inr not_less split: if_splits)
  let ?c = "(cs_generation v, p)"
  from cell have ok: "cell_ok ?c"
    using gen by (cases p) (auto simp: cell_payload_checked_iff cell_ok_def)
  then have "cs_state_version_sha256 v = version_of ?c"
    using ver by (simp add: cell_ok_def state_version_ok)
  with fixed lim lic cell have "v = state_of ?c"
    by (intro cas_state.equality)
      (auto simp: state_of_def state_fields_def fixed_state_strings_def state_licenses_def
        cell_payload_checked_iff split: option.splits)
  with ok show "\<exists>c. cell_ok c \<and> v = state_of c" by blast
next
  assume "\<exists>c. cell_ok c \<and> v = state_of c"
  then obtain c where ok: "cell_ok c" and v: "v = state_of c" by blast
  have "cell_payload_checked v = Inr (snd c)"
    using ok unfolding v cell_payload_checked_iff
    by (auto simp: state_of_def state_fields_def cell_ok_def split: option.splits)
  moreover have "state_version_sha256 (cs_generation v) (snd c) = Inr (cs_state_version_sha256 v)"
    using ok by (simp add: v cell_ok_def state_version_ok)
  moreover have "\<forall>(actual, expected, name) \<in> set (fixed_state_strings v). actual = expected"
    "\<forall>(value, name) \<in> set (state_licenses v). \<not> value"
    by (simp_all add: v state_of_def state_fields_def fixed_state_strings_def state_licenses_def)
  ultimately show "validate_state v = Inr ()"
    using ok by (simp add: validate_state_def bindE_eq_Inr v cell_ok_def)
      (simp add: state_of_def state_fields_def)
qed

lemma make_state_ok:
  assumes "cell_ok (g, p)"
  shows "make_state g p = Inr (state_of (g, p))"
proof -
  have "validate_state (state_of (g, p)) = Inr ()" using assms validate_state_iff by blast
  then show ?thesis
    using assms by (cases p) (simp_all add: make_state_def cell_ok_def state_version_ok state_of_def)
qed

lemma snapshot_state_iff: "snapshot_state s = Inr s' \<longleftrightarrow> s' = s \<and> (\<exists>c. cell_ok c \<and> s = state_of c)"
  by (simp add: snapshot_state_def bindE_eq_Inr validate_state_iff) blast

lemma state_bytes_inj:
  assumes "state_bytes c = state_bytes d" "cell_ok c" "cell_ok d"
  shows "c = d"
proof -
  have small: "nat g < 256 ^ 8" if "g \<le> MAX_GENERATION" for g
    using that by (simp add: MAX_GENERATION_def nat_less_iff)
  then have "nat (fst c) < 256 ^ 8" "nat (fst d) < 256 ^ 8"
    using assms(2,3) by (simp_all add: cell_ok_def)
  moreover from assms(1) have "be_bytes 8 (nat (fst c)) = be_bytes 8 (nat (fst d))"
    "optional_bytes (snd c) = optional_bytes (snd d)"
    by (auto simp: state_bytes_def append_eq_append_conv)
  ultimately have "nat (fst c) = nat (fst d)" "optional_bytes (snd c) = optional_bytes (snd d)"
    by (auto simp: be_bytes_inj)
  with optional_bytes_inj [of "snd c" "[]" "snd d" "[]"] assms(2,3) show ?thesis
    by (auto simp: cell_ok_def prod_eq_iff)
qed

end
