(* ===== verification/FakeCasSteps.thy ===== *)
theory FakeCasSteps
  imports FakeCasCells
begin

text \<open>
  The abstract compare-and-swap cell, and the derivation of a transition as one step of it.
\<close>

section \<open>The abstract cell\<close>

text \<open>
  \<open>cas_cell current proposal i alternate c\<close> is what the kernel promises: \<open>current\<close> says whether
  the expected version is the one of \<open>c\<close>. The value is the index of the outcome and the cell after.
\<close>

definition cas_cell ::
  "bool \<Rightarrow> bytes \<Rightarrow> nat \<Rightarrow> bytes option \<Rightarrow> cell \<Rightarrow> (cas_error, nat \<times> cell) res" where
  "cas_cell current proposal i alternate c =
     (if \<not> current then Inr (0, c)
      else if snd c = Some proposal then Inr (1, c)
      else if i = 3 \<and> alternate = Some proposal then Inl ''alternate_payload must differ from proposed_payload''
      else if i = 3 \<and> snd c \<noteq> None \<and> alternate = snd c
        then Inl ''alternate_payload must differ from the current payload''
      else if fst c = MAX_GENERATION then Inl ''a changed transition would exhaust generation''
      else Inr (i + 2, (fst c + 1, if i = 3 then alternate else Some proposal)))"

definition request_ok :: "string \<Rightarrow> bytes \<Rightarrow> nat \<Rightarrow> bytes option \<Rightarrow> bool" where
  "request_ok expected proposal i alternate \<longleftrightarrow> is_upper_hex64 expected \<and> payload_ok (Some proposal)
     \<and> i < 4 \<and> (if i < 3 then alternate = None else alternate \<noteq> None \<and> payload_ok alternate)"

lemma cas_cell_ok:
  assumes "cas_cell cur p i a c = Inr (k, c')" "cell_ok c" "request_ok e p i a"
  shows "cell_ok c'" and "k < 6" and "c' = (if k < 2 then c else (fst c + 1, if k = 5 then a else Some p))"
    and "k < 2 \<or> fst c < MAX_GENERATION" and "k < 2 \<or> k = i + 2"
  using assms by (auto simp: cas_cell_def cell_ok_def request_ok_def split: if_splits)

section \<open>The values of a derivation\<close>

definition delta_bytes :: "cell \<Rightarrow> cell \<Rightarrow> bytes \<Rightarrow> bytes" where
  "delta_bytes c c' raw = D_DELTA @ sha256 (state_bytes c) @ sha256 (state_bytes c') @ frame_bytes raw"

definition input_bytes :: "string \<Rightarrow> bytes \<Rightarrow> nat \<Rightarrow> bytes option \<Rightarrow> bytes" where
  "input_bytes e p i a = D_INPUT @ unhex e @ frame_bytes p @ [of_nat (i + 1)] @ optional_bytes a"

definition ascii_frame :: "string \<Rightarrow> bytes" where
  "ascii_frame t = be_bytes 2 (length t) @ ascii t"

definition row_bytes :: "nat \<Rightarrow> bytes" where
  "row_bytes k = concat (map ascii_frame (OUTCOME_ROWS ! k))"

definition effect_of :: "cell \<Rightarrow> bytes \<Rightarrow> bytes option \<Rightarrow> nat \<Rightarrow> cell \<Rightarrow> cas_effect" where
  "effect_of c p a k c' =
     (if k < 2 then unchanged_effect k (state_of c) (k = 1) (if k = 1 then Some True else None)
      else changed_effect k (state_of c') (k = 5) (version_of (fst c + 1, Some p))
        (sha256_hex (delta_bytes c (fst c + 1, Some p) p))
        (sha256_hex (delta_bytes c c' (the (snd c')))))"

definition transition_bytes :: "string \<Rightarrow> cell \<Rightarrow> nat \<Rightarrow> cas_effect \<Rightarrow> bytes" where
  "transition_bytes input c k ef = D_TRANSITION @ unhex input @ [of_nat (k + 1)] @ sha256 (state_bytes c)
     @ optional_hash (ef_intended_after_version ef) @ optional_hash (ef_intended_delta ef)
     @ optional_hash (ef_actual_delta ef) @ unhex (cs_state_version_sha256 (ef_after_state ef))
     @ be_bytes 8 (nat (ef_mutation_count ef)) @ row_bytes k"

lemma delta_ok [simp]:
  "payload_ok (Some raw) \<Longrightarrow> delta_sha256 (version_of c) (version_of c') raw = Inr (sha256_hex (delta_bytes c c' raw))"
  by (simp add: delta_sha256_def delta_preimage_def delta_bytes_def)

lemma input_ok [simp]:
  "request_ok e p i a \<Longrightarrow> input_sha256 e p i a = Inr (sha256_hex (input_bytes e p i a))"
  by (cases a) (auto simp: input_sha256_def input_preimage_def input_bytes_def request_ok_def split: if_splits)

lemma update_ascii_ok:
  assumes "\<not> list_ex (\<lambda>c. of_char c \<ge> (128 :: nat)) t" "length t \<le> 65535"
  shows "update_ascii t d = Inr (d @ ascii_frame t)"
  using assms by (simp add: update_ascii_def ascii_bytes_def u16_def ascii_frame_def)

lemma update_row:
  assumes "\<forall>t \<in> set row. \<not> list_ex (\<lambda>c. of_char c \<ge> (128 :: nat)) t \<and> length t \<le> 65535"
  shows "foldE update_ascii row d = Inr (d @ concat (map ascii_frame row))"
  using assms by (induction row arbitrary: d) (auto simp: update_ascii_ok)

lemma rows_ascii:
  "\<forall>row \<in> set OUTCOME_ROWS. \<forall>t \<in> set row. \<not> list_ex (\<lambda>c. of_char c \<ge> (128 :: nat)) t \<and> length t \<le> 65535"
  by (simp add: OUTCOME_ROWS_def)

lemma rows_length: "length OUTCOME_ROWS = 6"
  by (simp add: OUTCOME_ROWS_def)

lemma transition_ok:
  assumes "k < 6" "ef_mutation_count ef \<in> {0, 1}"
  shows "transition_sha256 input k (version_of c) (ef_intended_after_version ef) (ef_intended_delta ef)
    (ef_actual_delta ef) (cs_state_version_sha256 (ef_after_state ef)) (ef_mutation_count ef)
    (OUTCOME_ROWS ! k) = Inr (sha256_hex (transition_bytes input c k ef))"
proof -
  have "OUTCOME_ROWS ! k \<in> set OUTCOME_ROWS" using assms(1) by (simp add: rows_length)
  with rows_ascii have "foldE update_ascii (OUTCOME_ROWS ! k) d = Inr (d @ row_bytes k)" for d
    by (simp add: update_row row_bytes_def)
  moreover have "u64 (ef_mutation_count ef) = Inr (be_bytes 8 (nat (ef_mutation_count ef)))"
    using assms(2) by (intro u64_ok) (auto simp: MAX_GENERATION_def)
  ultimately show ?thesis by (simp add: transition_sha256_def transition_preimage_def transition_bytes_def)
qed

lemma effect_index [simp]: "ef_outcome_index (effect_of c p a k c') = k"
  by (simp add: effect_of_def unchanged_effect_def changed_effect_def)

lemma effect_count [simp]: "ef_mutation_count (effect_of c p a k c') = (if k < 2 then 0 else 1)"
  by (simp add: effect_of_def unchanged_effect_def changed_effect_def)

lemma effect_after [simp]: "ef_after_state (effect_of c p a k c') = (if k < 2 then state_of c else state_of c')"
  by (simp add: effect_of_def unchanged_effect_def changed_effect_def)

text \<open>The three branches of the derivation are the abstract step.\<close>

lemma decide_effect_cell:
  assumes c: "cell_ok c" and r: "request_ok e p i a"
  shows "decide_effect (state_of c) e p i a =
    (case cas_cell (e = version_of c) p i a c of Inl err \<Rightarrow> Inl err
     | Inr (k, c') \<Rightarrow> Inr (effect_of c p a k c'))"
proof (cases "e = version_of c \<and> snd c \<noteq> Some p")
  case False
  then show ?thesis by (auto simp: decide_effect_def cas_cell_def effect_of_def)
next
  case True
  have next_ok: "cell_ok (fst c + 1, Some q)" if "payload_ok (Some q)" "fst c \<noteq> MAX_GENERATION" for q
    using c that by (auto simp: cell_ok_def)
  note new = make_state_ok [OF next_ok]
  have "decide_effect (state_of c) e p i a = apply_change (state_of c) p i a"
    using True by (simp add: decide_effect_def)
  also have "\<dots> = (case cas_cell True p i a c of Inl err \<Rightarrow> Inl err
     | Inr (k, c') \<Rightarrow> Inr (effect_of c p a k c'))"
  proof (cases "cas_cell True p i a c")
    case (Inl err)
    with True show ?thesis by (auto simp: apply_change_def cas_cell_def split: if_splits)
  next
    case (Inr kc)
    then have kc: "kc = (i + 2, (fst c + 1, if i = 3 then a else Some p))" and g: "fst c \<noteq> MAX_GENERATION"
      and ne: "\<not> (i = 3 \<and> a = Some p)" "\<not> (i = 3 \<and> snd c \<noteq> None \<and> a = snd c)"
      using True by (auto simp: cas_cell_def split: if_splits)
    have p: "payload_ok (Some p)" using r by (simp add: request_ok_def)
    have start: "apply_change (state_of c) p i a =
      (if i = 3 then
         bindE (make_state (fst c + 1) a) (\<lambda>after.
         bindE (delta_sha256 (version_of c) (cs_state_version_sha256 after) (the a)) (\<lambda>actual_delta.
         Inr (changed_effect 5 after True (version_of (fst c + 1, Some p))
           (sha256_hex (delta_bytes c (fst c + 1, Some p) p)) actual_delta)))
       else Inr (changed_effect (i + 2) (state_of (fst c + 1, Some p)) False (version_of (fst c + 1, Some p))
           (sha256_hex (delta_bytes c (fst c + 1, Some p) p)) (sha256_hex (delta_bytes c (fst c + 1, Some p) p))))"
      using ne g new [OF p g] p by (auto simp: apply_change_def simp del: payload_ok_simps)
    show ?thesis
    proof (cases "i = 3")
      case i: True
      with r obtain q where q: "a = Some q" "payload_ok (Some q)" by (auto simp: request_ok_def)
      show ?thesis
        unfolding start Inr kc using i new [OF q(2) g] q by (simp add: effect_of_def del: payload_ok_simps)
    next
      case i: False
      with r have "i < 3" by (auto simp: request_ok_def)
      with i show ?thesis unfolding start Inr kc by (simp add: effect_of_def)
    qed
  qed
  finally show ?thesis using True by simp
qed

lemma find_enumerate:
  "distinct xs \<Longrightarrow> (List.find (\<lambda>(_, y). y = x) (enumerate 0 xs) = Some (i, y)) \<longleftrightarrow> i < length xs \<and> y = xs ! i \<and> x = y"
  by (auto simp: find_Some_iff nth_enumerate_eq distinct_conv_nth)

lemma directives: "distinct DIRECTIVES" "length DIRECTIVES = 4"
  by (simp_all add: DIRECTIVES_def)

lemma directive_index_of_eq: "directive_index_of d = Inr i \<longleftrightarrow> i < 4 \<and> d = DIRECTIVES ! i"
proof (cases "List.find (\<lambda>(_, y). y = d) (enumerate 0 DIRECTIVES)")
  case None
  then show ?thesis
    using find_enumerate [OF directives(1), of d i "DIRECTIVES ! i"] directives(2)
    by (auto simp: directive_index_of_def)
next
  case (Some iy)
  obtain j y where "iy = (j, y)" by (cases iy)
  then show ?thesis
    using Some find_enumerate [OF directives(1), of d j y] find_enumerate [OF directives(1), of d i "DIRECTIVES ! i"]
      directives(2) by (auto simp: directive_index_of_def)
qed

lemma checked_alternate_eq:
  "checked_alternate i a = Inr b \<longleftrightarrow>
    b = a \<and> (if i < 3 then a = None else a \<noteq> None \<and> payload_ok a)"
  by (auto simp: checked_alternate_def bindE_eq_Inr not_less)

text \<open>The whole derivation, on the state of a cell.\<close>

definition transition_of ::
  "cell \<Rightarrow> string \<Rightarrow> bytes \<Rightarrow> nat \<Rightarrow> bytes option \<Rightarrow> nat \<Rightarrow> cell \<Rightarrow> cas_transition" where
  "transition_of c e p i a k c' = transition_fields (state_of c) e p (DIRECTIVES ! i) a
     (sha256_hex (input_bytes e p i a))
     (sha256_hex (transition_bytes (sha256_hex (input_bytes e p i a)) c k (effect_of c p a k c')))
     (effect_of c p a k c')"

lemma require_hash_ok [simp]: "is_upper_hex64 h \<Longrightarrow> require_hash h name = Inr h"
  by (simp add: require_hash_def)

lemma require_hashed_ok [simp]: "require_optional_hash (map_option sha256_hex a) name = Inr ()"
  by (cases a) (simp_all add: require_optional_hash_def)

lemma derive_ok:
  assumes c: "cell_ok c" and r: "request_ok e p i a"
  shows "derive_transition_values (state_of c) e p (DIRECTIVES ! i) a =
    (case cas_cell (e = version_of c) p i a c of Inl err \<Rightarrow> Inl err
     | Inr (k, c') \<Rightarrow> Inr (transition_of c e p i a k c'))"
proof -
  from r have r': "directive_index_of (DIRECTIVES ! i) = Inr i" "checked_alternate i a = Inr a" "is_upper_hex64 e"
    by (auto simp: directive_index_of_eq checked_alternate_eq request_ok_def)
  from r have len: "\<not> int (length p) > MAX_PAYLOAD_BYTES" by (simp add: request_ok_def)
  show ?thesis
  proof (cases "cas_cell (e = version_of c) p i a c")
    case (Inl err)
    with c r r' len show ?thesis by (simp add: derive_transition_values_def decide_effect_cell)
  next
    case (Inr kc)
    obtain k c' where kc: "kc = (k, c')" by (cases kc)
    with Inr cas_cell_ok(2) [OF _ c r] have "k < 6" by simp
    with transition_ok [of k "effect_of c p a k c'" _ c] c r r' len Inr kc show ?thesis
      by (simp add: derive_transition_values_def decide_effect_cell transition_of_def)
  qed
qed

lemma derive_accepts:
  assumes "derive_transition_values s e p d a = Inr t"
  shows "\<exists>i. request_ok e p i a \<and> d = DIRECTIVES ! i"
proof -
  from assms obtain i b where "directive_index_of d = Inr i" "checked_alternate i a = Inr b"
    "is_upper_hex64 e" "\<not> int (length p) > MAX_PAYLOAD_BYTES"
    by (auto simp: derive_transition_values_def bindE_eq_Inr split: if_splits)
  then have "request_ok e p i a \<and> d = DIRECTIVES ! i"
    by (simp add: directive_index_of_eq checked_alternate_eq request_ok_def)
  then show ?thesis ..
qed

end
