(* ===== verification/FakeCasProps.thy ===== *)
theory FakeCasProps
  imports FakeCasSteps
begin

text \<open>The properties of the compare-and-swap kernel.\<close>

declare split_paired_All [simp del] split_paired_Ex [simp del]

section \<open>Steps on cells\<close>

lemma state_of_valid: "cell_ok c \<Longrightarrow> validate_state (state_of c) = Inr ()"
  unfolding validate_state_iff by blast

lemma snapshot_of: "cell_ok c \<Longrightarrow> snapshot_state (state_of c) = Inr (state_of c)"
  by (simp add: snapshot_state_def state_of_valid)

lemma state_of_inj [simp]: "state_of c = state_of d \<longleftrightarrow> c = d"
  by (metis cell_of_state_of)

lemma transition_of_fields [simp]:
  "ct_before_state (transition_of c e p i a k c') = state_of c"
  "ct_after_state (transition_of c e p i a k c') = (if k < 2 then state_of c else state_of c')"
  "ct_expected_state_version_sha256 (transition_of c e p i a k c') = e"
  "ct_proposed_payload (transition_of c e p i a k c') = p"
  "ct_synthetic_directive (transition_of c e p i a k c') = DIRECTIVES ! i"
  "ct_alternate_payload (transition_of c e p i a k c') = a"
  "ct_outcome (transition_of c e p i a k c') = OUTCOMES ! k"
  "ct_state_changed (transition_of c e p i a k c') \<longleftrightarrow> 2 \<le> k"
  "ct_alternate_semantics_checked (transition_of c e p i a k c') \<longleftrightarrow> k = 5"
  "ct_cell_mutation_count (transition_of c e p i a k c') = (if k < 2 then 0 else 1)"
  "ct_input_sha256 (transition_of c e p i a k c') = sha256_hex (input_bytes e p i a)"
  "ct_transition_sha256 (transition_of c e p i a k c') =
     sha256_hex (transition_bytes (sha256_hex (input_bytes e p i a)) c k (effect_of c p a k c'))"
  by (auto simp: transition_of_def transition_fields_def Let_def effect_of_def unchanged_effect_def
    changed_effect_def)

lemma outcomes: "distinct OUTCOMES" "length OUTCOMES = 6"
  by (simp_all add: OUTCOMES_def)

lemma outcome_sets:
  assumes "k < 6"
  shows "OUTCOMES ! k \<in> set (take 2 OUTCOMES) \<longleftrightarrow> k < 2" and "OUTCOMES ! k = OUTCOMES ! 5 \<longleftrightarrow> k = 5"
proof -
  have "OUTCOMES ! k \<in> set (take 2 OUTCOMES) \<longleftrightarrow> (\<exists>j < 2. OUTCOMES ! j = OUTCOMES ! k)"
    by (auto simp: in_set_conv_nth outcomes)
  with assms outcomes show "OUTCOMES ! k \<in> set (take 2 OUTCOMES) \<longleftrightarrow> k < 2"
    and "OUTCOMES ! k = OUTCOMES ! 5 \<longleftrightarrow> k = 5"
    by (auto simp: nth_eq_iff_index_eq)
qed

lemma field_types_ok:
  assumes "request_ok e p i a"
  shows "validate_transition_field_types (transition_of c e p i a k c') = Inr ()"
  using assms
  by (cases a) (auto simp: validate_transition_field_types_def require_optional_hash_def request_ok_def
    transition_of_def transition_fields_def Let_def effect_of_def unchanged_effect_def changed_effect_def)

lemma transition_valid:
  assumes c: "cell_ok c" and r: "request_ok e p i a" and k: "cas_cell (e = version_of c) p i a c = Inr (k, c')"
  shows "validate_transition (built_identity (transition_of c e p i a k c')) (transition_of c e p i a k c') = Inr ()"
proof -
  note k' = cas_cell_ok [OF k c r]
  have "snapshot_state (state_of c) = Inr (state_of c)" "snapshot_state (state_of c') = Inr (state_of c')"
    using c k'(1) by (simp_all add: snapshot_of)
  with k'(2) c r k show ?thesis
    by (simp add: validate_transition_def field_types_ok derive_ok outcome_sets built_identity_def)
qed

lemma step_cell:
  assumes c: "cell_ok c" and r: "request_ok e p i a"
  shows "cas_step (state_of c) e p (DIRECTIVES ! i) a =
    (case cas_cell (e = version_of c) p i a c of Inl err \<Rightarrow> Inl err
     | Inr (k, c') \<Rightarrow> Inr (transition_of c e p i a k c'))"
proof -
  have "snapshot_state (state_of c) = Inr (state_of c)" using c by (rule snapshot_of)
  then show ?thesis
    using transition_valid [OF c r]
    by (auto simp: cas_step_def derive_ok [OF c r] split: sum.splits prod.splits)
qed

lemma step_exact:
  "cas_step s e p d a = Inr t \<longleftrightarrow> (\<exists>c i k c'. cell_ok c \<and> s = state_of c \<and> request_ok e p i a
    \<and> d = DIRECTIVES ! i \<and> cas_cell (e = version_of c) p i a c = Inr (k, c') \<and> t = transition_of c e p i a k c')"
    (is "_ \<longleftrightarrow> ?R")
proof
  assume t: "cas_step s e p d a = Inr t"
  then have "snapshot_state s = Inr s" and der: "derive_transition_values s e p d a = Inr t"
    by (auto simp: cas_step_def bindE_eq_Inr snapshot_state_iff)
  then obtain c where c: "cell_ok c" "s = state_of c" by (auto simp: snapshot_state_iff)
  from derive_accepts [OF der] obtain i where r: "request_ok e p i a" "d = DIRECTIVES ! i" by blast
  show ?R
  proof (cases "cas_cell (e = version_of c) p i a c")
    case (Inl err)
    with t c r show ?thesis by (simp add: step_cell)
  next
    case (Inr kc)
    with t c r show ?thesis by (cases kc) (simp add: step_cell, blast)
  qed
next
  assume ?R
  then show "cas_step s e p d a = Inr t" by (auto simp: step_cell)
qed

section \<open>Properties\<close>

text \<open>
  C16. A step of the kernel is a step of the abstract cell: on a valid state and a well-formed
  request it fails exactly when the cell refuses, and otherwise the transition goes to the
  valid state of the next cell, with the outcome, the change flag and the mutation count of it.
\<close>

theorem step_refines_cell:
  assumes "cell_ok c" and "request_ok e p i a"
  shows "case cas_cell (e = version_of c) p i a c of
      Inl err \<Rightarrow> cas_step (state_of c) e p (DIRECTIVES ! i) a = Inl err
    | Inr (k, c') \<Rightarrow> \<exists>t. cas_step (state_of c) e p (DIRECTIVES ! i) a = Inr t
        \<and> ct_before_state t = state_of c \<and> ct_after_state t = state_of c' \<and> cell_ok c'
        \<and> ct_outcome t = OUTCOMES ! k \<and> ct_state_changed t = (2 \<le> k)
        \<and> ct_cell_mutation_count t = fst c' - fst c"
proof (cases "cas_cell (e = version_of c) p i a c")
  case (Inl err)
  with assms show ?thesis by (simp add: step_cell)
next
  case (Inr kc)
  obtain k c' where kc: "kc = (k, c')" by (cases kc)
  note k = cas_cell_ok [OF Inr [unfolded kc] assms]
  have "cas_step (state_of c) e p (DIRECTIVES ! i) a = Inr (transition_of c e p i a k c')"
    using assms Inr kc by (simp add: step_cell)
  with k Inr kc show ?thesis by auto
qed

theorem step_refines_cell_witness:
  "\<exists>t. cas_step (state_of (0, None)) (version_of (0, None)) [7] (DIRECTIVES ! 0) None = Inr t
    \<and> ct_after_state t = state_of (1, Some [7]) \<and> ct_outcome t = ''intended_applied_acknowledged''"
  using step_refines_cell [of "(0, None)" "version_of (0, None)" "[7]" 0 None]
  by (auto simp: cell_ok_def request_ok_def cas_cell_def MAX_GENERATION_def MAX_PAYLOAD_BYTES_def OUTCOMES_def)

text \<open>Sequences of steps, each on the state the one before returned, with the number of changes.\<close>

inductive cas_run :: "cas_state \<Rightarrow> nat \<Rightarrow> cas_state \<Rightarrow> bool" where
  start: "validate_state s = Inr () \<Longrightarrow> cas_run s 0 s"
| step: "cas_run s n s' \<Longrightarrow> cas_step s' e p d a = Inr t \<Longrightarrow>
    cas_run s (n + (if ct_state_changed t then 1 else 0)) (ct_after_state t)"

inductive_cases cas_runE: "cas_run s n s'"

lemma cas_run_cells:
  assumes "cas_run s n s'"
  shows "\<exists>c c'. cell_ok c \<and> s = state_of c \<and> cell_ok c' \<and> s' = state_of c' \<and> fst c' = fst c + int n
    \<and> (n = 0 \<longrightarrow> c' = c)"
  using assms
proof induction
  case (start s)
  then show ?case by (auto simp: validate_state_iff)
next
  case (step s n s' e p d a t)
  then obtain c c' where c: "cell_ok c" "s = state_of c" "cell_ok c'" "s' = state_of c'"
    "fst c' = fst c + int n" "n = 0 \<longrightarrow> c' = c" by blast
  from step.hyps(2) obtain b i k c'' where t: "cell_ok b" "s' = state_of b" "request_ok e p i a"
    "cas_cell (e = version_of b) p i a b = Inr (k, c'')" "t = transition_of b e p i a k c''"
    unfolding step_exact by blast
  have b: "b = c'" using c(4) t(2) by simp
  note k = cas_cell_ok [OF t(4,1,3)]
  show ?case
  proof (cases "k < 2")
    case True
    with t(5) c b show ?thesis by auto
  next
    case False
    with t(5) c b k(1,3) show ?thesis by (intro exI [of _ c] exI [of _ c'']) auto
  qed
qed

text \<open>
  C17. Every state a run from the initial state reaches is valid, its generation is the number
  of changes made, its cell is absent exactly before the first change, and the number of
  changes never passes the generation bound.
\<close>

theorem run_invariant:
  assumes "initial_state = Inr s0" and "cas_run s0 n s"
  shows "validate_state s = Inr () \<and> cs_generation s = int n \<and> (cs_cell_payload s = None \<longleftrightarrow> n = 0)
    \<and> int n \<le> MAX_GENERATION"
proof -
  have zero: "cell_ok (0, None)" by (simp add: cell_ok_def MAX_GENERATION_def)
  then have s0: "s0 = state_of (0, None)" using assms(1) by (simp add: initial_state_def make_state_ok)
  from cas_run_cells [OF assms(2)] obtain c c' where c: "s0 = state_of c" "cell_ok c'" "s = state_of c'"
    "fst c' = fst c + int n" by blast
  have "c = (0, None)" using c(1) s0 by simp
  with c show ?thesis using state_of_valid [OF c(2)] by (auto simp: cell_ok_def)
qed

theorem run_invariant_witness:
  "validate_state (state_of (0, None)) = Inr () \<and> cs_generation (state_of (0, None)) = 0"
proof -
  have zero: "cell_ok (0, None)" by (simp add: cell_ok_def MAX_GENERATION_def)
  then have "initial_state = Inr (state_of (0, None))" by (simp add: initial_state_def make_state_ok)
  moreover have "cas_run (state_of (0, None)) 0 (state_of (0, None))"
    using zero by (intro cas_run.start state_of_valid)
  ultimately show ?thesis using run_invariant [of "state_of (0, None)" 0 "state_of (0, None)"] by simp
qed

text \<open>
  C18. No lost update: once at least one change was made after a state was read, a step that
  expects the version read is a conflict and changes nothing, unless the two states exhibit a
  SHA-256 collision.
\<close>

theorem stale_version_conflicts:
  assumes run: "cas_run s n s'" and n: "n \<noteq> 0"
    and t: "cas_step s' (cs_state_version_sha256 s) p d a = Inr t"
  shows "ct_outcome t = ''conflict_no_change'' \<and> ct_after_state t = s' \<and> \<not> ct_state_changed t
    \<or> sha256_collision (state_bytes (cell_of s)) (state_bytes (cell_of s'))"
proof -
  from cas_run_cells [OF run] obtain c c' where c: "cell_ok c" "s = state_of c" "cell_ok c'" "s' = state_of c'"
    "fst c' = fst c + int n" by blast
  from t obtain b i k c'' where b: "s' = state_of b"
    "cas_cell (cs_state_version_sha256 s = version_of b) p i a b = Inr (k, c'')"
    "t = transition_of b (cs_state_version_sha256 s) p i a k c''"
    unfolding step_exact by blast
  have "b = c'" using c(4) b(1) by simp
  with b have k: "cas_cell (version_of c = version_of c') p i a c' = Inr (k, c'')"
    "t = transition_of c' (version_of c) p i a k c''" using c(2) by simp_all
  show ?thesis
  proof (cases "version_of c = version_of c'")
    case True
    have "c \<noteq> c'" using c(5) n by auto
    then have "state_bytes c \<noteq> state_bytes c'" using state_bytes_inj c(1,3) by blast
    with True c(2,4) show ?thesis by (auto simp: version_of_def sha256_hex_eq)
  next
    case False
    with k c(4) show ?thesis by (auto simp: cas_cell_def OUTCOMES_def)
  qed
qed

lemma ex_change_step:
  "cas_step (state_of (0, None)) (version_of (0, None)) [7] (DIRECTIVES ! 0) None =
    Inr (transition_of (0, None) (version_of (0, None)) [7] 0 None 2 (1, Some [7]))"
  by (simp add: step_cell request_ok_def MAX_PAYLOAD_BYTES_def cas_cell_def MAX_GENERATION_def cell_ok_def numeral_2_eq_2)

lemma ex_first_change:
  "cas_run (state_of (0, None)) 1 (state_of (1, Some [7]))"
proof -
  have zero: "cell_ok (0, None)" by (simp add: cell_ok_def MAX_GENERATION_def)
  then have run: "cas_run (state_of (0, None)) 0 (state_of (0, None))"
    by (intro cas_run.start state_of_valid)
  from cas_run.step [OF run ex_change_step] show ?thesis by simp
qed

theorem stale_version_conflicts_witness:
  "\<exists>t. cas_step (state_of (1, Some [7])) (version_of (0, None)) [7] (DIRECTIVES ! 0) None = Inr t
    \<and> (ct_outcome t = ''conflict_no_change'' \<and> ct_after_state t = state_of (1, Some [7]) \<and> \<not> ct_state_changed t
       \<or> sha256_collision (state_bytes (0, None)) (state_bytes (1, Some [7])))"
proof -
  have one: "cell_ok (1, Some [7])" by (simp add: cell_ok_def MAX_GENERATION_def MAX_PAYLOAD_BYTES_def)
  have "\<exists>k. cas_cell b [7] 0 None (1, Some [7]) = Inr (k, (1, Some [7]))" for b
    by (cases b) (auto simp: cas_cell_def)
  then obtain k where "cas_cell (version_of (0, None) = version_of (1, Some [7])) [7] 0 None (1, Some [7])
    = Inr (k, (1, Some [7]))" by blast
  then obtain t where t: "cas_step (state_of (1, Some [7])) (version_of (0, None)) [7] (DIRECTIVES ! 0) None = Inr t"
    using one by (simp add: step_cell request_ok_def MAX_PAYLOAD_BYTES_def)
  with stale_version_conflicts [OF ex_first_change, of "[7]" "DIRECTIVES ! 0" None t] show ?thesis by auto
qed

section \<open>Validation and commitment\<close>

text \<open>
  C19. Validating a transition is deriving it again: the values some objects make valid are
  exactly those a step returns from the transition's own state and inputs.
\<close>

theorem validation_is_derivation:
  "(\<exists>same. validate_transition same t = Inr ()) \<longleftrightarrow>
    cas_step (ct_before_state t) (ct_expected_state_version_sha256 t) (ct_proposed_payload t)
      (ct_synthetic_directive t) (ct_alternate_payload t) = Inr t"
proof
  assume "\<exists>same. validate_transition same t = Inr ()"
  then obtain c where c: "cell_ok c" "ct_before_state t = state_of c"
    and der: "derive_transition_values (ct_before_state t) (ct_expected_state_version_sha256 t)
      (ct_proposed_payload t) (ct_synthetic_directive t) (ct_alternate_payload t) = Inr t"
    by (auto simp: validate_transition_def bindE_eq_Inr snapshot_state_iff split: if_splits)
  from derive_accepts [OF der] obtain i where
    "request_ok (ct_expected_state_version_sha256 t) (ct_proposed_payload t) i (ct_alternate_payload t)"
    "ct_synthetic_directive t = DIRECTIVES ! i" by blast
  with der c show "cas_step (ct_before_state t) (ct_expected_state_version_sha256 t) (ct_proposed_payload t)
      (ct_synthetic_directive t) (ct_alternate_payload t) = Inr t"
    by (simp add: derive_ok step_cell)
next
  assume "cas_step (ct_before_state t) (ct_expected_state_version_sha256 t) (ct_proposed_payload t)
      (ct_synthetic_directive t) (ct_alternate_payload t) = Inr t"
  then have "validate_transition (built_identity t) t = Inr ()" by (auto simp: cas_step_def bindE_eq_Inr)
  then show "\<exists>same. validate_transition same t = Inr ()" by blast
qed

text \<open>The bytes whose hashes a transition carries, read off its fields.\<close>

definition index_of :: "'a \<Rightarrow> 'a list \<Rightarrow> nat" where
  "index_of x xs = length (takeWhile (\<lambda>y. y \<noteq> x) xs)"

definition commitment :: "cas_transition \<Rightarrow> bytes" where
  "commitment t = (let k = index_of (ct_outcome t) OUTCOMES in
     D_TRANSITION @ unhex (ct_input_sha256 t) @ [of_nat (k + 1)]
     @ unhex (cs_state_version_sha256 (ct_before_state t))
     @ optional_hash (ct_intended_after_state_version_sha256 t) @ optional_hash (ct_intended_delta_sha256 t)
     @ optional_hash (ct_actual_delta_sha256 t) @ unhex (cs_state_version_sha256 (ct_after_state t))
     @ be_bytes 8 (nat (ct_cell_mutation_count t)) @ row_bytes k)"

definition hashed_bytes :: "cas_transition \<Rightarrow> bytes list" where
  "hashed_bytes t =
     [state_bytes (cell_of (ct_before_state t)),
      input_bytes (ct_expected_state_version_sha256 t) (ct_proposed_payload t)
        (index_of (ct_synthetic_directive t) DIRECTIVES) (ct_alternate_payload t),
      commitment t]"

lemma index_of_nth:
  assumes "distinct xs" "i < length xs"
  shows "index_of (xs ! i) xs = i"
proof -
  have "takeWhile (\<lambda>y. y \<noteq> xs ! i) xs = take i xs"
    using assms by (intro takeWhile_eq_take_P_nth) (auto simp: nth_eq_iff_index_eq)
  with assms(2) show ?thesis by (simp add: index_of_def)
qed

lemma hashed_bytes_of:
  assumes "k < 6" "request_ok e p i a" "c' = c \<or> 2 \<le> k"
  shows "hashed_bytes (transition_of c e p i a k c') = [state_bytes c, input_bytes e p i a,
    transition_bytes (sha256_hex (input_bytes e p i a)) c k (effect_of c p a k c')]"
proof -
  have "index_of (OUTCOMES ! k) OUTCOMES = k" "index_of (DIRECTIVES ! i) DIRECTIVES = i"
    using assms(1,2) by (auto simp: index_of_nth outcomes directives request_ok_def)
  moreover have "ct_intended_after_state_version_sha256 (transition_of c e p i a k c') =
      ef_intended_after_version (effect_of c p a k c')"
    "ct_intended_delta_sha256 (transition_of c e p i a k c') = ef_intended_delta (effect_of c p a k c')"
    "ct_actual_delta_sha256 (transition_of c e p i a k c') = ef_actual_delta (effect_of c p a k c')"
    by (simp_all add: transition_of_def transition_fields_def Let_def)
  ultimately show ?thesis
    by (simp add: hashed_bytes_def commitment_def transition_bytes_def)
qed

lemma input_bytes_inj:
  assumes eq: "input_bytes e p i a = input_bytes e' p' i' a'" and r: "request_ok e p i a" "request_ok e' p' i' a'"
  shows "e = e' \<and> p = p' \<and> i = i' \<and> a = a'"
proof -
  have len: "length (unhex e) = 32" "length (unhex e') = 32"
    using r by (auto simp: request_ok_def length_unhex64)
  with eq have "unhex e = unhex e'"
    and rest: "frame_bytes p @ [of_nat (i + 1)] @ optional_bytes a = frame_bytes p' @ [of_nat (i' + 1)] @ optional_bytes a'"
    by (auto simp: input_bytes_def append_eq_append_conv)
  with r have "e = e'" using unhex_inj64 by (auto simp: request_ok_def)
  moreover have "p = p' \<and> [of_nat (i + 1)] @ optional_bytes a = [of_nat (i' + 1)] @ optional_bytes a'"
    using frame_bytes_inj [OF rest] r payload_length by (auto simp: request_ok_def)
  moreover have "i = i'" if "of_nat (i + 1) = (of_nat (i' + 1) :: byte)"
  proof -
    have "i + 1 < 256" "i' + 1 < 256" using r by (simp_all add: request_ok_def)
    then show ?thesis using arg_cong [OF that, of unat] by (simp only: unat_byte)
  qed
  ultimately show ?thesis
    using optional_bytes_inj [of a "[]" a' "[]"] r by (auto simp: request_ok_def split: if_splits)
qed

lemma transition_bytes_prefix:
  assumes eq: "transition_bytes h c k ef = transition_bytes h' c' k' ef'"
    and len: "length (unhex h) = 32" "length (unhex h') = 32"
  shows "unhex h = unhex h' \<and> sha256 (state_bytes c) = sha256 (state_bytes c')"
proof -
  have start: "\<exists>rest. transition_bytes h c k ef = D_TRANSITION @ unhex h @ of_nat (k + 1) # sha256 (state_bytes c) @ rest"
    for h c k ef by (simp add: transition_bytes_def)
  from start [of h c k ef] obtain r where
    r: "transition_bytes h c k ef = D_TRANSITION @ unhex h @ of_nat (k + 1) # sha256 (state_bytes c) @ r" ..
  from start [of h' c' k' ef'] obtain r' where
    r': "transition_bytes h' c' k' ef' = D_TRANSITION @ unhex h' @ of_nat (k' + 1) # sha256 (state_bytes c') @ r'" ..
  show ?thesis using eq len unfolding r r' by simp
qed

text \<open>
  C20. The transition hash commits to the whole transition: two returned transitions with the
  same hash are equal, unless bytes they hash are a SHA-256 collision.
\<close>

theorem transition_hash_commits:
  assumes t: "cas_step s e p d a = Inr t" and u: "cas_step s' e' p' d' a' = Inr u"
    and hash: "ct_transition_sha256 t = ct_transition_sha256 u"
  shows "t = u \<or> (\<exists>m \<in> set (hashed_bytes t). \<exists>m' \<in> set (hashed_bytes u). sha256_collision m m')"
proof (rule disjCI)
  assume no: "\<not> (\<exists>m \<in> set (hashed_bytes t). \<exists>m' \<in> set (hashed_bytes u). sha256_collision m m')"
  from t obtain c i k b where c: "cell_ok c" "request_ok e p i a"
    "cas_cell (e = version_of c) p i a c = Inr (k, b)" "t = transition_of c e p i a k b"
    unfolding step_exact by blast
  from u obtain c' i' k' b' where c': "cell_ok c'" "request_ok e' p' i' a'"
    "cas_cell (e' = version_of c') p' i' a' c' = Inr (k', b')" "u = transition_of c' e' p' i' a' k' b'"
    unfolding step_exact by blast
  note k = cas_cell_ok [OF c(3,1,2)] and k' = cas_cell_ok [OF c'(3,1,2)]
  have ht: "hashed_bytes t = [state_bytes c, input_bytes e p i a,
      transition_bytes (sha256_hex (input_bytes e p i a)) c k (effect_of c p a k b)]"
    unfolding c(4) using k(2,3) c(2) by (intro hashed_bytes_of) auto
  have hu: "hashed_bytes u = [state_bytes c', input_bytes e' p' i' a',
      transition_bytes (sha256_hex (input_bytes e' p' i' a')) c' k' (effect_of c' p' a' k' b')]"
    unfolding c'(4) using k'(2,3) c'(2) by (intro hashed_bytes_of) auto
  have same: "m = m'" if "m \<in> set (hashed_bytes t)" "m' \<in> set (hashed_bytes u)" "sha256 m = sha256 m'" for m m'
    using no that by (auto simp: sha256_collision_def)
  let ?T = "transition_bytes (sha256_hex (input_bytes e p i a)) c k (effect_of c p a k b)"
  let ?U = "transition_bytes (sha256_hex (input_bytes e' p' i' a')) c' k' (effect_of c' p' a' k' b')"
  have "sha256 ?T = sha256 ?U"
    using hash unfolding c(4) c'(4) by (simp add: sha256_hex_def hex_upper_inj)
  then have "?T = ?U" by (rule same [rotated 2]) (simp_all add: ht hu)
  then have "unhex (sha256_hex (input_bytes e p i a)) = unhex (sha256_hex (input_bytes e' p' i' a'))
      \<and> sha256 (state_bytes c) = sha256 (state_bytes c')"
    by (rule transition_bytes_prefix) simp_all
  then have "sha256 (input_bytes e p i a) = sha256 (input_bytes e' p' i' a')" "sha256 (state_bytes c) = sha256 (state_bytes c')"
    by simp_all
  then have "input_bytes e p i a = input_bytes e' p' i' a'" "state_bytes c = state_bytes c'"
    using same [of "input_bytes e p i a" "input_bytes e' p' i' a'"] same [of "state_bytes c" "state_bytes c'"]
    by (simp_all add: ht hu)
  with input_bytes_inj c(2) c'(2) state_bytes_inj c(1) c'(1)
  have "e = e' \<and> p = p' \<and> i = i' \<and> a = a'" "c = c'" by blast+
  with c c' show "t = u" by auto
qed

theorem transition_hash_commits_witness:
  "\<exists>t. cas_step (state_of (0, None)) (version_of (0, None)) [7] (DIRECTIVES ! 0) None = Inr t
    \<and> (t = t \<or> (\<exists>m \<in> set (hashed_bytes t). \<exists>m' \<in> set (hashed_bytes t). sha256_collision m m'))"
  using transition_hash_commits [OF ex_change_step ex_change_step refl] ex_change_step by blast

text \<open>
  The preimage bounds a transition carries hold for what it hashes, and the preimage of the
  transition hash has exactly the frozen length of its outcome.
\<close>

lemma row_lengths:
  assumes "k < 6"
  shows "length (row_bytes k) = [110, 175, 117, 165, 133, 211] ! k" and "transition_preimage_lengths ! k \<le> 467"
    and "transition_preimage_lengths ! k = 157 + (if k < 2 then 3 else 99) + int ([110, 175, 117, 165, 133, 211] ! k)"
proof -
  from assms have k: "k = 0 \<or> k = Suc 0 \<or> k = 2 \<or> k = 3 \<or> k = 4 \<or> k = 5" by arith
  have "length (row_bytes 0) = 110" "length (row_bytes (Suc 0)) = 175" "length (row_bytes 2) = 117"
    "length (row_bytes 3) = 165" "length (row_bytes 4) = 133" "length (row_bytes 5) = 211"
    by (simp_all add: row_bytes_def OUTCOME_ROWS_def ascii_frame_def)
  with k show "length (row_bytes k) = [110, 175, 117, 165, 133, 211] ! k" by auto
  from k show "transition_preimage_lengths ! k \<le> 467"
    "transition_preimage_lengths ! k = 157 + (if k < 2 then 3 else 99) + int ([110, 175, 117, 165, 133, 211] ! k)"
    by (auto simp: preimage_lengths)
qed

theorem preimages_within_bounds:
  assumes t: "cas_step s e p d a = Inr t"
  shows "int (length (hashed_bytes t ! 0)) \<le> ct_state_hash_preimage_upper_bound_bytes t
    \<and> int (length (hashed_bytes t ! 1)) \<le> ct_input_hash_preimage_upper_bound_bytes t
    \<and> int (length (hashed_bytes t ! 2)) \<le> ct_transition_hash_preimage_upper_bound_bytes t
    \<and> int (length (hashed_bytes t ! 2)) = transition_preimage_lengths ! index_of (ct_outcome t) OUTCOMES"
proof -
  from t obtain c i k b where c: "cell_ok c" "request_ok e p i a"
    "cas_cell (e = version_of c) p i a c = Inr (k, b)" "t = transition_of c e p i a k b"
    unfolding step_exact by blast
  note k = cas_cell_ok [OF c(3,1,2)]
  have ht: "hashed_bytes t = [state_bytes c, input_bytes e p i a,
      transition_bytes (sha256_hex (input_bytes e p i a)) c k (effect_of c p a k b)]"
    unfolding c(4) using k(2,3) c(2) by (intro hashed_bytes_of) auto
  have bounds: "ct_state_hash_preimage_upper_bound_bytes t = 1048640"
    "ct_input_hash_preimage_upper_bound_bytes t = 2097249" "ct_transition_hash_preimage_upper_bound_bytes t = 467"
    by (simp_all add: c(4) transition_of_def transition_fields_def Let_def MAX_STATE_HASH_PREIMAGE_BYTES_def
      MAX_INPUT_HASH_PREIMAGE_BYTES_def MAX_TRANSITION_HASH_PREIMAGE_BYTES_def)
  have opt: "length (optional_bytes q) \<le> 9 + 1048576" if "payload_ok q" for q
    using that by (cases q) (auto simp: optional_bytes_def frame_bytes_def MAX_PAYLOAD_BYTES_def)
  have "length (optional_bytes a) \<le> 9 + 1048576" "length (optional_bytes (snd c)) \<le> 9 + 1048576"
    "length (unhex e) = 32" "length p \<le> 1048576"
    using c(1,2) opt [of a] opt [of "snd c"]
    by (auto simp: cell_ok_def request_ok_def length_unhex64 MAX_PAYLOAD_BYTES_def split: if_splits)
  then have "length (state_bytes c) \<le> 1048640" "length (input_bytes e p i a) \<le> 2097249"
    by (simp_all add: state_bytes_def input_bytes_def frame_bytes_def)
  moreover have "int (length (transition_bytes h c k (effect_of c p a k b))) = transition_preimage_lengths ! k"
    if "length (unhex h) = 32" for h
  proof -
    have "length (unhex (cs_state_version_sha256 (ef_after_state (effect_of c p a k b)))) = 32" by simp
    moreover have "int (length (optional_hash (ef_intended_after_version (effect_of c p a k b))))
        + (int (length (optional_hash (ef_intended_delta (effect_of c p a k b))))
        + int (length (optional_hash (ef_actual_delta (effect_of c p a k b))))) = (if k < 2 then 3 else 99)"
      by (simp add: effect_of_def unchanged_effect_def changed_effect_def optional_hash_def)
    ultimately show ?thesis
      using that row_lengths(1,3) [OF k(2)] by (simp add: transition_bytes_def)
  qed
  ultimately have "length (hashed_bytes t ! 0) \<le> 1048640" "length (hashed_bytes t ! 1) \<le> 2097249"
    "int (length (hashed_bytes t ! 2)) = transition_preimage_lengths ! k"
    by (simp_all add: ht)
  moreover have "transition_preimage_lengths ! k \<le> 467" "index_of (ct_outcome t) OUTCOMES = k"
    using k(2) row_lengths(2) by (simp_all add: c(4) index_of_nth outcomes)
  ultimately show ?thesis unfolding bounds by simp
qed

theorem preimages_within_bounds_witness:
  "\<exists>t. cas_step (state_of (0, None)) (version_of (0, None)) [7] (DIRECTIVES ! 0) None = Inr t
    \<and> int (length (hashed_bytes t ! 2)) \<le> ct_transition_hash_preimage_upper_bound_bytes t"
  using preimages_within_bounds [OF ex_change_step] ex_change_step by blast

end
