(* ===== verification/LedgerWriter.thy ===== *)
theory LedgerWriter
  imports LedgerText
begin

text \<open>
  \<^verbatim>\<open>StandaloneChainWriter\<close> of \<^verbatim>\<open>evals/uprime_rpc_ledger.py\<close>. An operation takes the writer and
  the bytes of its file and returns its result or exception with the writer and the bytes it
  leaves behind; a descriptor that is not held is \<open>- 1\<close>. Every answer of the operating system is
  an argument, so every failure of every call is a branch.
\<close>

record writer =
  w_fd :: int
  w_cleanup_fd :: int
  w_state :: string
  w_tracked_bytes :: nat
  w_record_count :: nat
  w_head :: "pystr option"
  w_file_identity :: "(int \<times> int) option"

type_synonym 'a ledger_run = "(ledger_error, 'a) res \<times> writer \<times> bytes"

definition new_writer :: "int \<Rightarrow> (int \<times> int) \<Rightarrow> writer" where
  "new_writer fd identity =
     \<lparr>w_fd = fd, w_cleanup_fd = - 1, w_state = ''open'', w_tracked_bytes = 0, w_record_count = 0,
      w_head = None, w_file_identity = Some identity\<rparr>"

definition poisoned :: "writer \<Rightarrow> bool" where
  "poisoned w \<longleftrightarrow> w_state w = ''poisoned''"

definition ensure_open :: "writer \<Rightarrow> (ledger_error, unit) res" where
  "ensure_open w =
     guardE (w_state w \<noteq> ''open'' \<or> w_fd w < 0)
       (Write_Error (''ledger writer is not appendable: '' @ w_state w))"

text \<open>\<open>close_fails\<close> says whether the \<^verbatim>\<open>os.close\<close> of the descriptor raises \<^verbatim>\<open>OSError\<close>.\<close>

definition poison_writer :: "bool \<Rightarrow> writer \<Rightarrow> writer" where
  "poison_writer close_fails w =
     w\<lparr>w_state := ''poisoned'', w_fd := - 1,
       w_cleanup_fd := (if 0 \<le> w_fd w \<and> close_fails then w_fd w else w_cleanup_fd w)\<rparr>"

definition poison :: "bool \<Rightarrow> string \<Rightarrow> writer \<Rightarrow> bytes \<Rightarrow> 'a ledger_run" where
  "poison close_fails message w file = (Inl (Write_Error message), poison_writer close_fails w, file)"

section \<open>Appending\<close>

text \<open>
  What the system calls of one append answer: size and position before the write, the number of
  bytes \<^verbatim>\<open>os.write\<close> wrote, whether \<^verbatim>\<open>fsync\<close> raises, size and position after it, and whether a
  \<^verbatim>\<open>close\<close> made by \<^verbatim>\<open>_poison\<close> raises. The left side of each answer is a raised exception.
\<close>

record append_io =
  io_before :: "(unit, nat \<times> nat) res"
  io_write :: "(unit, nat) res"
  io_fsync :: "(unit, unit) res"
  io_after :: "(unit, nat \<times> nat) res"
  io_close_fails :: bool

definition prepare_line ::
  "nat \<Rightarrow> pystr option \<Rightarrow> pystr \<Rightarrow> json \<Rightarrow> (ledger_error, bytes \<times> pystr) res" where
  "prepare_line count head ty body =
     bindE (if count = 0 then compute_genesis_sha256 body
            else case head of Some h \<Rightarrow> Inr h | None \<Rightarrow> Inl (Structure_Error '''')) (\<lambda>previous.
     bindE (build_chain_record (int count) ty previous body) (\<lambda>(record, digest).
     bindE (canonical_chain_record_line record) (\<lambda>line. Inr (line, digest))))"

definition line_budget :: "nat \<Rightarrow> nat \<Rightarrow> pystr \<Rightarrow> nat \<Rightarrow> (ledger_error, unit) res" where
  "line_budget tracked count ty n =
     (if n > (if ty = lit ''closure'' then MAX_CLOSURE_LINE_BYTES else MAX_EVENT_LINE_BYTES)
        then Inl (Structure_Error ''ledger record line limit exceeded'')
      else if ty = lit ''closure'' then
        guardE (tracked + n > MAX_LEDGER_BYTES) (Structure_Error ''ledger file limit exceeded at closure'')
      else if tracked + n + MAX_CLOSURE_LINE_BYTES > MAX_LEDGER_BYTES
        then Inl (Structure_Error ''ledger closure byte reserve would be consumed'')
      else guardE (count + 2 > MAX_LEDGER_RECORDS)
        (Structure_Error ''ledger closure record reserve would be consumed''))"

definition write_line :: "append_io \<Rightarrow> bytes \<Rightarrow> pystr \<Rightarrow> writer \<Rightarrow> bytes \<Rightarrow> unit ledger_run" where
  "write_line io line digest w file =
     (let failed = ''ledger append/flush/fsync failed''; tracked = w_tracked_bytes w;
          expected = tracked + length line in
      case io_before io of
        Inl _ \<Rightarrow> poison (io_close_fails io) failed w file
      | Inr before \<Rightarrow>
        if before \<noteq> (tracked, tracked)
          then poison (io_close_fails io) ''ledger file position or size drifted'' w file
        else (case io_write io of
          Inl _ \<Rightarrow> poison (io_close_fails io) failed w file
        | Inr written \<Rightarrow>
          (let file' = file @ take written line in
           if written \<noteq> length line then poison (io_close_fails io) ''ledger raw write was short'' w file'
           else (case io_fsync io of
             Inl _ \<Rightarrow> poison (io_close_fails io) failed w file'
           | Inr _ \<Rightarrow>
             (case io_after io of
                Inl _ \<Rightarrow> poison (io_close_fails io) failed w file'
              | Inr after \<Rightarrow>
                if after \<noteq> (expected, expected)
                  then poison (io_close_fails io) ''ledger durable size or position mismatch'' w file'
                else (Inr (), w\<lparr>w_tracked_bytes := expected, w_record_count := w_record_count w + 1,
                        w_head := Some digest\<rparr>, file'))))))"

definition append_record_locked ::
  "append_io \<Rightarrow> pystr \<Rightarrow> json \<Rightarrow> writer \<Rightarrow> bytes \<Rightarrow> unit ledger_run" where
  "append_record_locked io ty body w file =
     (case ensure_open w of
        Inl e \<Rightarrow> (Inl e, w, file)
      | Inr _ \<Rightarrow>
        if w_record_count w \<ge> MAX_LEDGER_RECORDS
          then (Inl (Structure_Error ''ledger record limit exhausted''), w, file)
        else if w_record_count w = 0 \<and> ty \<noteq> lit ''header''
          then poison (io_close_fails io) ''first record must be header'' w file
        else if w_record_count w \<noteq> 0 \<and> (ty = lit ''header'' \<or> w_head w = None)
          then poison (io_close_fails io) ''header placement or chain state is invalid'' w file
        else (case prepare_line (w_record_count w) (w_head w) ty body of
          Inl e \<Rightarrow> (Inl e, w, file)
        | Inr (line, digest) \<Rightarrow>
          (case line_budget (w_tracked_bytes w) (w_record_count w) ty (length line) of
             Inl e \<Rightarrow> (Inl e, w, file)
           | Inr _ \<Rightarrow> write_line io line digest w file)))"

definition append_event :: "append_io \<Rightarrow> pystr \<Rightarrow> json \<Rightarrow> writer \<Rightarrow> bytes \<Rightarrow> pystr ledger_run" where
  "append_event io ty body w file =
     (if ty \<notin> set EVENT_TYPES
        then (Inl (Structure_Error ''append_event record type is invalid''), w, file)
      else case append_record_locked io ty body w file of
        (Inl e, w', file') \<Rightarrow> (Inl e, w', file')
      | (Inr _, w', file') \<Rightarrow> (Inr (the (w_head w')), w', file'))"

section \<open>Ending\<close>

definition abandon_unfinalized :: "bool \<Rightarrow> writer \<Rightarrow> bytes \<Rightarrow> unit ledger_run" where
  "abandon_unfinalized close_fails w file =
     (case ensure_open w of
        Inl e \<Rightarrow> (Inl e, w, file)
      | Inr _ \<Rightarrow>
        if close_fails
          then (Inl (Write_Error ''ledger abandon close failed''),
                w\<lparr>w_fd := - 1, w_cleanup_fd := w_fd w, w_state := ''poisoned''\<rparr>, file)
        else (Inr (), w\<lparr>w_fd := - 1, w_state := ''abandoned''\<rparr>, file))"

text \<open>
  The closed file is scanned again from its path; \<open>rescan\<close> is what that scan is told. A failed
  \<^verbatim>\<open>assert\<close> of \<open>attestation_from_scan\<close> is not caught by the code and would leave the writer closed.
\<close>

definition close_with_closure ::
  "append_io \<Rightarrow> bool \<Rightarrow> scan_env \<Rightarrow> json \<Rightarrow> writer \<Rightarrow> bytes
    \<Rightarrow> (attest_error, attestation) res \<times> writer \<times> bytes" where
  "close_with_closure io close_fails rescan body w file =
     (case append_record_locked io (lit ''closure'') body w file of
        (Inl e, w', file') \<Rightarrow> (Inl (Ledger_Error e), w', file')
      | (Inr _, w', file') \<Rightarrow>
        if w_file_identity w' = None
          then (Inl (Ledger_Error (Write_Error ''ledger file identity was unavailable'')),
                poison_writer close_fails w', file')
        else if close_fails
          then (Inl (Ledger_Error (Write_Error ''ledger close failed'')),
                w'\<lparr>w_fd := - 1, w_cleanup_fd := w_fd w', w_state := ''poisoned''\<rparr>, file')
        else (let wc = w'\<lparr>w_fd := - 1, w_state := ''closed''\<rparr>; wp = wc\<lparr>w_state := ''poisoned''\<rparr> in
          case attestation_from_scan (scan_chain rescan (w_file_identity w') False) of
            Inl Assertion \<Rightarrow> (Inl Assertion, wc, file')
          | Inl (Ledger_Error _) \<Rightarrow>
              (Inl (Ledger_Error (Write_Error ''closed ledger chain could not be reattested'')), wp, file')
          | Inr a \<Rightarrow>
              if Some (at_final_chain_head a) \<noteq> w_head w' \<or> at_record_count a \<noteq> w_record_count w'
                  \<or> at_input_bytes a \<noteq> w_tracked_bytes w'
                then (Inl (Ledger_Error (Write_Error ''closed ledger attestation does not match the writer state'')),
                      wp, file')
              else (Inr a, wc, file')))"

section \<open>Creating and scoping\<close>

text \<open>
  \<open>opened\<close> is the answer of the exclusive open (a descriptor), \<open>identity\<close> of its \<^verbatim>\<open>fstat\<close>. When the
  header cannot be appended the exception leaves no writer to the caller.
\<close>

definition create_writer ::
  "(unit, int) res \<Rightarrow> (unit, int \<times> int) res \<Rightarrow> append_io \<Rightarrow> json \<Rightarrow> (ledger_error, writer) res \<times> bytes" where
  "create_writer opened identity io header_body =
     (case opened of
        Inl _ \<Rightarrow> (Inl (Write_Error ''exclusive ledger create failed''), [])
      | Inr fd \<Rightarrow>
        (case identity of
           Inl _ \<Rightarrow> (Inl (Write_Error ''new ledger identity could not be read''), [])
         | Inr i \<Rightarrow>
           (case append_record_locked io (lit ''header'') header_body (new_writer fd i) [] of
              (Inl e, _, file) \<Rightarrow> (Inl e, file)
            | (Inr _, w, file) \<Rightarrow> (Inr w, file))))"

definition enter_writer :: "writer \<Rightarrow> (ledger_error, writer) res" where
  "enter_writer w = bindE (ensure_open w) (\<lambda>_. Inr w)"

definition exit_writer :: "bool \<Rightarrow> writer \<Rightarrow> bytes \<Rightarrow> unit ledger_run" where
  "exit_writer close_fails w file =
     (if w_state w = ''open'' then abandon_unfinalized close_fails w file else (Inr (), w, file))"

definition delete_writer :: "writer \<Rightarrow> writer" where
  "delete_writer w =
     (let fds = {w_fd w, w_cleanup_fd w}; w' = w\<lparr>w_fd := - 1, w_cleanup_fd := - 1\<rparr> in
      if fds \<noteq> {- 1} then w'\<lparr>w_state := ''abandoned''\<rparr> else w')"

section \<open>A run of the writer\<close>

text \<open>
  The calls a client makes on a writer, each with the answers it gets. The bodies are Python
  values, which is the only thing asked of a call.
\<close>

datatype writer_call =
    Append append_io pystr json
  | Close append_io bool scan_env json
  | Abandon bool

definition call_writer :: "writer_call \<Rightarrow> writer \<times> bytes \<Rightarrow> writer \<times> bytes" where
  "call_writer c s =
     (case c of
        Append io ty body \<Rightarrow> snd (append_event io ty body (fst s) (snd s))
      | Close io close_fails rescan body \<Rightarrow> snd (close_with_closure io close_fails rescan body (fst s) (snd s))
      | Abandon close_fails \<Rightarrow> snd (abandon_unfinalized close_fails (fst s) (snd s)))"

definition python_call :: "writer_call \<Rightarrow> bool" where
  "python_call c \<longleftrightarrow>
     (case c of Append _ _ body \<Rightarrow> python_json body | Close _ _ _ body \<Rightarrow> python_json body | Abandon _ \<Rightarrow> True)"

inductive writer_reach :: "writer \<Rightarrow> bytes \<Rightarrow> bool" where
  created: "create_writer opened identity io body = (Inr w, file) \<Longrightarrow> python_json body \<Longrightarrow> writer_reach w file"
| called: "writer_reach w file \<Longrightarrow> call_writer c (w, file) = (w', file') \<Longrightarrow> python_call c \<Longrightarrow> writer_reach w' file'"

end
