(* ===== verification/LedgerChain.thy ===== *)
theory LedgerChain
  imports LedgerText "HOL-Library.Multiset"
begin

text \<open>
  Chains of records as a specification: \<open>link\<close> builds one canonical line and its digest from a
  predecessor digest, a type and a body; \<open>links\<close> builds a chain of them; \<open>links_ok\<close> states the
  limits and the place of headers and closures. The envelope check of the code accepts exactly
  the values \<open>build_chain_record\<close> builds.
\<close>

section \<open>Digests and records\<close>

lemma framed_hash_hex: "framed_hash domain payload = Inr h \<Longrightarrow> hex64 h"
  by (auto simp: framed_hash_def sha256_hex64 split: if_splits)

lemma genesis_hex: "compute_genesis_sha256 b = Inr h \<Longrightarrow> hex64 h"
  by (auto simp: compute_genesis_sha256_def bindE_eq_Inr dest: framed_hash_hex)

definition core_fields :: "int \<Rightarrow> pystr \<Rightarrow> pystr \<Rightarrow> json \<Rightarrow> (pystr \<times> json) list" where
  "core_fields i ty previous body =
     [(lit ''schema_version'', JStr LEDGER_RECORD_SCHEMA), (lit ''record_index'', JInt i),
      (lit ''record_type'', JStr ty), (lit ''previous_record_sha256'', JStr previous), (lit ''body'', body)]"

lemma record_core_iff:
  "record_core i ty previous body = Inr core \<longleftrightarrow>
    0 \<le> i \<and> i \<le> MAX_SIGNED_64 \<and> ty \<in> set RECORD_TYPES \<and> hex64 previous \<and> (\<exists>kvs. body = JObj kvs)
    \<and> validate_json_value 0 body = Inr () \<and> core = core_fields i ty previous body"
proof (cases body)
  case (JObj kvs)
  then show ?thesis
    by (simp only: record_core_def core_fields_def json.case bindE_eq_Inr split: if_splits) auto
qed (auto simp: record_core_def)

definition record_fields :: "int \<Rightarrow> pystr \<Rightarrow> pystr \<Rightarrow> json \<Rightarrow> pystr \<Rightarrow> (pystr \<times> json) list" where
  "record_fields i ty previous body digest =
     core_fields i ty previous body @ [(lit ''record_sha256'', JStr digest)]"

lemma compute_record_iff:
  "compute_record_sha256 i ty previous body = Inr h \<longleftrightarrow>
    (\<exists>core b. record_core i ty previous body = Inr core \<and> canonical_json_bytes (JObj core) = Inr b
      \<and> framed_hash RECORD_DOMAIN b = Inr h)"
  by (auto simp: compute_record_sha256_def bindE_eq_Inr)

lemma build_chain_record_iff:
  "build_chain_record i ty previous body = Inr (record, h) \<longleftrightarrow>
    compute_record_sha256 i ty previous body = Inr h \<and> record = JObj (record_fields i ty previous body h)"
  by (auto simp: build_chain_record_def compute_record_iff bindE_eq_Inr record_core_iff record_fields_def)

section \<open>Canonical bodies\<close>

lemma canonical_canon_eq: "canonical_json_bytes (canon v) = Inr b \<longleftrightarrow> canonical_json_bytes v = Inr b"
  by (rule canonical_canon)

lemma dumps_object_cong:
  assumes "list_all2 (\<lambda>(k, v) (l, w). k = l \<and> dumps v = dumps w) kvs lws"
  shows "dumps (JObj kvs) = dumps (JObj lws)"
proof -
  let ?f = "\<lambda>(k, v). (k, dumps v)"
  have m: "map ?f kvs = map ?f lws" using assms by (induction rule: list_all2_induct) auto
  have s: "map ?f (sort_key fst xs) = sort_key fst (map ?f xs)" for xs :: "(pystr \<times> json) list"
  proof (induction xs)
    case (Cons x xs)
    have "map ?f (insort_key fst x ys) = insort_key fst (?f x) (map ?f ys)" for ys
      by (induction ys) (auto simp: case_prod_unfold)
    with Cons show ?case by simp
  qed simp
  have "map (\<lambda>(k, v). quoted k @ colon # dumps v) (sort_key fst xs)
      = map (\<lambda>(k, t). quoted k @ colon # t) (map ?f (sort_key fst xs))" for xs
    by (simp add: case_prod_unfold)
  then show ?thesis by (simp only: dumps.simps s m)
qed

lemma core_canon:
  "dumps (JObj (core_fields i ty previous (canon body))) = dumps (JObj (core_fields i ty previous body))"
  "dumps (JObj (record_fields i ty previous (canon body) h)) = dumps (JObj (record_fields i ty previous body h))"
  by (rule dumps_object_cong, simp add: core_fields_def record_fields_def dumps_canon)+

lemma core_canonical:
  "canonical_json_bytes (JObj (core_fields i ty previous (canon body))) = Inr b \<longleftrightarrow>
    canonical_json_bytes (JObj (core_fields i ty previous body)) = Inr b"
  "canonical_json_bytes (JObj (record_fields i ty previous (canon body) h)) = Inr b \<longleftrightarrow>
    canonical_json_bytes (JObj (record_fields i ty previous body h)) = Inr b"
proof -
  have "validate_json_value 0 (JObj (core_fields i ty previous (canon body))) = Inr () \<longleftrightarrow>
      validate_json_value 0 (JObj (core_fields i ty previous body)) = Inr ()"
    by (simp only: valid_object_iff core_fields_def) (auto simp: valid_canon)
  then show "canonical_json_bytes (JObj (core_fields i ty previous (canon body))) = Inr b \<longleftrightarrow>
      canonical_json_bytes (JObj (core_fields i ty previous body)) = Inr b"
    by (simp only: canonical_bytes_eq core_canon(1))
  have "validate_json_value 0 (JObj (record_fields i ty previous (canon body) h)) = Inr () \<longleftrightarrow>
      validate_json_value 0 (JObj (record_fields i ty previous body h)) = Inr ()"
    by (simp only: valid_object_iff core_fields_def record_fields_def) (auto simp: valid_canon)
  then show "canonical_json_bytes (JObj (record_fields i ty previous (canon body) h)) = Inr b \<longleftrightarrow>
      canonical_json_bytes (JObj (record_fields i ty previous body h)) = Inr b"
    by (simp only: canonical_bytes_eq core_canon(2))
qed

lemma canon_object_iff: "(\<exists>kvs. canon body = JObj kvs) \<longleftrightarrow> (\<exists>kvs. body = JObj kvs)"
  by (cases body) auto

lemma record_canon:
  "compute_record_sha256 i ty previous (canon body) = Inr h \<longleftrightarrow> compute_record_sha256 i ty previous body = Inr h"
  by (auto simp: compute_record_iff record_core_iff core_canonical canon_object_iff valid_canon)

lemma genesis_canon: "compute_genesis_sha256 (canon body) = Inr h \<longleftrightarrow> compute_genesis_sha256 body = Inr h"
  by (auto simp: compute_genesis_sha256_def bindE_eq_Inr canonical_canon)

section \<open>The envelope check\<close>

definition envelope_fields :: "int \<Rightarrow> pystr \<Rightarrow> pystr \<Rightarrow> json \<Rightarrow> pystr \<Rightarrow> (pystr \<times> json) list" where
  "envelope_fields i ty previous body digest =
     [(lit ''body'', body), (lit ''previous_record_sha256'', JStr previous), (lit ''record_index'', JInt i),
      (lit ''record_sha256'', JStr digest), (lit ''record_type'', JStr ty),
      (lit ''schema_version'', JStr LEDGER_RECORD_SCHEMA)]"

lemma envelope_keys: "map fst (envelope_fields i ty previous body digest) = ENVELOPE_KEYS"
  by (simp add: envelope_fields_def ENVELOPE_KEYS_def)

lemma envelope_keys_sorted: "sorted ENVELOPE_KEYS" "distinct ENVELOPE_KEYS"
  by (simp_all add: ENVELOPE_KEYS_def) (simp add: lit_def)

lemma canon_record:
  "canon (JObj (record_fields i ty previous body digest)) = JObj (envelope_fields i ty previous (canon body) digest)"
proof -
  have "sort_key fst (record_fields i ty previous body digest) = envelope_fields i ty previous body digest"
  proof (rule sort_key_inj_key_eq)
    show "mset (record_fields i ty previous body digest) = mset (envelope_fields i ty previous body digest)"
      by (simp add: record_fields_def core_fields_def envelope_fields_def)
    show "sorted (map fst (envelope_fields i ty previous body digest))"
      by (simp only: envelope_keys envelope_keys_sorted)
    show "inj_on fst (set (record_fields i ty previous body digest))"
      by (auto simp: inj_on_def record_fields_def core_fields_def)
  qed
  then show ?thesis by (simp add: envelope_fields_def)
qed

lemma canon_envelope:
  "canon (JObj (envelope_fields i ty previous body digest)) = JObj (envelope_fields i ty previous (canon body) digest)"
proof -
  have "sort_key fst (envelope_fields i ty previous body digest) = envelope_fields i ty previous body digest"
    by (rule sort_key_id_if_sorted) (simp only: envelope_keys envelope_keys_sorted)
  then show ?thesis by (simp add: envelope_fields_def)
qed

lemma envelope_shape:
  assumes "canon (JObj kvs) = JObj kvs" "sort (map fst kvs) = ENVELOPE_KEYS"
  obtains b p i h t s where "kvs = [(lit ''body'', b), (lit ''previous_record_sha256'', p), (lit ''record_index'', i),
      (lit ''record_sha256'', h), (lit ''record_type'', t), (lit ''schema_version'', s)]"
proof -
  have "sorted (map fst kvs)" by (rule canon_object_sorted [OF assms(1)])
  with assms(2) have "map fst kvs = ENVELOPE_KEYS" by (simp add: sorted_sort_id)
  then show thesis using that by (auto simp: ENVELOPE_KEYS_def map_eq_Cons_conv)
qed

lemma envelope_lookup:
  "map_of (envelope_fields i ty p body h) (lit ''body'') = Some body"
  "map_of (envelope_fields i ty p body h) (lit ''record_index'') = Some (JInt i)"
  "get_text (envelope_fields i ty p body h) ''previous_record_sha256'' = Some p"
  "get_text (envelope_fields i ty p body h) ''record_sha256'' = Some h"
  "get_text (envelope_fields i ty p body h) ''record_type'' = Some ty"
  "get_text (envelope_fields i ty p body h) ''schema_version'' = Some LEDGER_RECORD_SCHEMA"
  by (simp_all add: envelope_fields_def get_text_def)

lemma envelope_sort: "sort (map fst (envelope_fields i ty p body h)) = ENVELOPE_KEYS"
  using sorted_sort_id [OF envelope_keys_sorted(1)] by (simp only: envelope_keys)

lemma envelope_check:
  "validate_record_envelope (JObj (envelope_fields i ty p body h)) i prev =
     (if ty \<notin> set RECORD_TYPES then Inl (Structure_Error ''record type is invalid'')
      else if \<not> hex64 p then Inl (Structure_Error ''previous record digest is invalid'')
      else if \<not> hex64 h then Inl (Structure_Error ''record digest is invalid'')
      else case body of
        JObj _ \<Rightarrow>
          bindE (if i = 0 then
              (if ty \<noteq> lit ''header'' then Inl (Structure_Error ''record zero is not the header'')
               else bindE (compute_genesis_sha256 body) (\<lambda>genesis.
                 guardE (p \<noteq> genesis) (Structure_Error ''header does not bind its genesis'')))
            else guardE (Some p \<noteq> prev) (Structure_Error ''record chain predecessor mismatch'')) (\<lambda>_.
          bindE (compute_record_sha256 i ty p body) (\<lambda>recomputed.
          if h \<noteq> recomputed then Inl (Structure_Error ''record digest mismatch'')
          else Inr (ty, body, h, p)))
      | _ \<Rightarrow> Inl (Structure_Error ''record body must be an object''))"
  unfolding validate_record_envelope_def by (cases body; hypsubst; simp add: envelope_lookup envelope_sort)

lemma envelope_fields_present:
  assumes "validate_record_envelope v i prev = Inr r"
  obtains kvs t p h where "v = JObj kvs" "sort (map fst kvs) = ENVELOPE_KEYS"
    "get_text kvs ''schema_version'' = Some LEDGER_RECORD_SCHEMA" "map_of kvs (lit ''record_index'') = Some (JInt i)"
    "get_text kvs ''record_type'' = Some t" "get_text kvs ''previous_record_sha256'' = Some p"
    "get_text kvs ''record_sha256'' = Some h"
  using assms unfolding validate_record_envelope_def
  by (auto split: json.splits if_splits option.splits)

lemma get_text_Some: "get_text kvs key = Some t \<longleftrightarrow> map_of kvs (lit key) = Some (JStr t)"
  by (auto simp: get_text_def split: option.splits json.splits)

lemma envelope_iff:
  assumes "canon v = v"
  shows "validate_record_envelope v i prev = Inr (ty, body, h, p) \<longleftrightarrow>
    v = JObj (envelope_fields i ty p body h) \<and> compute_record_sha256 i ty p body = Inr h
    \<and> (if i = 0 then ty = lit ''header'' \<and> compute_genesis_sha256 body = Inr p else prev = Some p)"
proof
  assume ok: "validate_record_envelope v i prev = Inr (ty, body, h, p)"
  then obtain kvs t'' p'' h'' where v: "v = JObj kvs" and keys: "sort (map fst kvs) = ENVELOPE_KEYS"
    and fields: "get_text kvs ''schema_version'' = Some LEDGER_RECORD_SCHEMA"
      "map_of kvs (lit ''record_index'') = Some (JInt i)" "get_text kvs ''record_type'' = Some t''"
      "get_text kvs ''previous_record_sha256'' = Some p''" "get_text kvs ''record_sha256'' = Some h''"
    by (rule envelope_fields_present)
  obtain b' p' i' h' t' s' where kvs: "kvs = [(lit ''body'', b'), (lit ''previous_record_sha256'', p'),
      (lit ''record_index'', i'), (lit ''record_sha256'', h'), (lit ''record_type'', t'), (lit ''schema_version'', s')]"
    using envelope_shape [OF _ keys] assms v by blast
  from fields have v': "v = JObj (envelope_fields i t'' p'' b' h'')"
    unfolding get_text_Some v kvs by (simp add: envelope_fields_def)
  from ok show "v = JObj (envelope_fields i ty p body h) \<and> compute_record_sha256 i ty p body = Inr h
      \<and> (if i = 0 then ty = lit ''header'' \<and> compute_genesis_sha256 body = Inr p else prev = Some p)"
    unfolding v' envelope_check by (auto simp: bindE_eq_Inr split: json.splits if_splits)
next
  assume h: "v = JObj (envelope_fields i ty p body h) \<and> compute_record_sha256 i ty p body = Inr h
    \<and> (if i = 0 then ty = lit ''header'' \<and> compute_genesis_sha256 body = Inr p else prev = Some p)"
  then have "ty \<in> set RECORD_TYPES" "hex64 p" "hex64 h" "\<exists>kvs. body = JObj kvs"
    by (auto simp: compute_record_iff record_core_iff dest: framed_hash_hex)
  with h show "validate_record_envelope v i prev = Inr (ty, body, h, p)"
    by (auto simp: envelope_check)
qed

section \<open>Chains\<close>

definition link :: "nat \<Rightarrow> pystr \<Rightarrow> pystr \<Rightarrow> json \<Rightarrow> (ledger_error, bytes \<times> pystr) res" where
  "link i previous ty body =
     bindE (build_chain_record (int i) ty previous body) (\<lambda>(record, digest).
     bindE (canonical_chain_record_line record) (\<lambda>line. Inr (line, digest)))"

lemma link_iff:
  "link i previous ty body = Inr (line, h) \<longleftrightarrow> compute_record_sha256 (int i) ty previous body = Inr h
    \<and> (\<exists>b. canonical_json_bytes (JObj (record_fields (int i) ty previous body h)) = Inr b \<and> line = b @ [10])"
  by (auto simp: link_def bindE_eq_Inr canonical_chain_record_line_def build_chain_record_iff)

lemma link_canon: "link i previous ty (canon body) = Inr x \<longleftrightarrow> link i previous ty body = Inr x"
  by (cases x) (simp add: link_iff record_canon core_canonical)

lemma python_record: "hex64 p \<Longrightarrow> hex64 h \<Longrightarrow> ty \<in> set RECORD_TYPES \<Longrightarrow>
    python_json (JObj (record_fields i ty p body h)) \<longleftrightarrow> python_json body"
proof -
  assume a: "hex64 p" "hex64 h" "ty \<in> set RECORD_TYPES"
  have hex: "list_all in_unicode t" if "hex64 t" for t
  proof -
    have "set t \<subseteq> set (lit ''0123456789ABCDEF'')" using that by (auto simp: hex64_def list_all_iff)
    with lit_in_unicode [of "''0123456789ABCDEF''"] show ?thesis unfolding list_all_iff by blast
  qed
  have ty: "list_all in_unicode ty"
    using a(3) lit_in_unicode unfolding RECORD_TYPES_def EVENT_TYPES_def by auto
  have num: "list_all in_unicode (dumps (JInt i))" "list_all in_unicode (dumps (JStr t)) \<longleftrightarrow> list_all in_unicode t" for t
    by (simp_all add: quoted_in_unicode)
  show ?thesis
    by (simp only: python_json_def dumps_object_in_unicode)
      (simp add: record_fields_def core_fields_def num ty hex a LEDGER_RECORD_SCHEMA_def del: dumps.simps)
qed

text \<open>The line of a link is what the scanner accepts for it.\<close>

lemma link_accepted:
  "(\<exists>v. parse_canonical_json_bytes b = Inr v \<and> validate_record_envelope v (int i) prev = Inr (ty, body, h, p)) \<longleftrightarrow>
    link i p ty body = Inr (b @ [10], h) \<and> canon body = body \<and> python_json body
    \<and> (if i = 0 then ty = lit ''header'' \<and> compute_genesis_sha256 body = Inr p else prev = Some p)"
  (is "?scan \<longleftrightarrow> ?built")
proof
  assume ?scan
  then obtain v where v: "canonical_json_bytes v = Inr b" "canon v = v" "python_json v"
    and env: "validate_record_envelope v (int i) prev = Inr (ty, body, h, p)"
    by (auto simp: parse_canonical_python_iff)
  then have fields: "v = JObj (envelope_fields (int i) ty p body h)" "compute_record_sha256 (int i) ty p body = Inr h"
    "if i = 0 then ty = lit ''header'' \<and> compute_genesis_sha256 body = Inr p else prev = Some p"
    by (simp_all add: envelope_iff)
  from v(2) have body: "canon body = body" by (simp only: fields(1) canon_envelope) (simp add: envelope_fields_def)
  then have rec: "canon (JObj (record_fields (int i) ty p body h)) = v" by (simp only: canon_record fields(1))
  from fields(2) have ok: "hex64 p" "hex64 h" "ty \<in> set RECORD_TYPES"
    by (auto simp: compute_record_iff record_core_iff dest: framed_hash_hex)
  from v(3) have "python_json body" unfolding rec [symmetric] by (simp only: python_json_canon python_record [OF ok])
  moreover from v(1) have "canonical_json_bytes (JObj (record_fields (int i) ty p body h)) = Inr b"
    unfolding rec [symmetric] by (simp only: canonical_canon)
  ultimately show ?built using fields body by (simp add: link_iff)
next
  assume b: ?built
  then have can: "canonical_json_bytes (JObj (record_fields (int i) ty p body h)) = Inr b"
    and digest: "compute_record_sha256 (int i) ty p body = Inr h" by (simp_all add: link_iff)
  from digest have ok: "hex64 p" "hex64 h" "ty \<in> set RECORD_TYPES"
    by (auto simp: compute_record_iff record_core_iff dest: framed_hash_hex)
  let ?v = "JObj (envelope_fields (int i) ty p body h)"
  have rec: "canon (JObj (record_fields (int i) ty p body h)) = ?v" using b by (simp only: canon_record)
  have "python_json ?v" "canon ?v = ?v"
    using b by (simp_all only: rec [symmetric] python_json_canon python_record [OF ok] canon_canon)
  moreover have "canonical_json_bytes ?v = Inr b" using can by (simp only: rec [symmetric] canonical_canon)
  ultimately show ?scan using b digest
    by (intro exI [of _ ?v]) (simp add: parse_canonical_python_iff envelope_iff)
qed

end
