(* ===== verification/LedgerScan.thy ===== *)
theory LedgerScan
  imports LedgerChain
begin

text \<open>
  The scanner accepts exactly the chains. A chain link is the type, the predecessor digest, the
  line and the digest of one record; \<open>ledger_links\<close> builds the links of a list of typed bodies
  and \<open>chain_state\<close> folds them into the local variables of the scan.
\<close>

type_synonym chain_link = "pystr \<times> pystr \<times> bytes \<times> pystr"

section \<open>Chains of links\<close>

fun links :: "nat \<Rightarrow> pystr \<Rightarrow> (pystr \<times> json) list \<Rightarrow> (ledger_error, chain_link list) res" where
  "links i previous [] = Inr []"
| "links i previous ((ty, body) # es) =
     bindE (link i previous ty body) (\<lambda>(line, h).
     bindE (links (Suc i) h es) (\<lambda>ls. Inr ((ty, previous, line, h) # ls)))"

definition ledger_links :: "(pystr \<times> json) list \<Rightarrow> (ledger_error, chain_link list) res" where
  "ledger_links es =
     (case es of [] \<Rightarrow> Inr [] | (_, body) # _ \<Rightarrow> bindE (compute_genesis_sha256 body) (\<lambda>g. links 0 g es))"

fun links_ok :: "nat \<Rightarrow> nat \<Rightarrow> chain_link list \<Rightarrow> bool" where
  "links_ok i n [] \<longleftrightarrow> True"
| "links_ok i n ((ty, p, line, h) # ls) \<longleftrightarrow>
     length line \<le> MAX_EVENT_LINE_BYTES \<and> (ty = lit ''closure'' \<longrightarrow> length line \<le> MAX_CLOSURE_LINE_BYTES \<and> ls = [])
     \<and> n + length line \<le> MAX_LEDGER_BYTES \<and> (ty = lit ''header'' \<longleftrightarrow> i = 0) \<and> i < MAX_LEDGER_RECORDS
     \<and> links_ok (Suc i) (n + length line) ls"

definition link_line :: "chain_link \<Rightarrow> bytes" where
  "link_line l = (case l of (_, _, line, _) \<Rightarrow> line)"

definition chain_bytes :: "chain_link list \<Rightarrow> bytes" where
  "chain_bytes ls = concat (map link_line ls)"

lemma chain_bytes_simps [simp]:
  "chain_bytes [] = []" "chain_bytes ((ty, p, line, h) # ls) = line @ chain_bytes ls"
  "chain_bytes (ls @ ms) = chain_bytes ls @ chain_bytes ms"
  by (simp_all add: chain_bytes_def link_line_def)

definition canonical_body :: "json \<Rightarrow> bool" where
  "canonical_body body \<longleftrightarrow> canon body = body \<and> python_json body"

definition after_link :: "scan_state \<Rightarrow> chain_link \<Rightarrow> scan_state" where
  "after_link st l =
     (case l of (ty, p, line, h) \<Rightarrow>
        \<lparr>sc_total = sc_total st + length line, sc_index = sc_index st + 1, sc_head = Some h,
         sc_genesis = (if sc_index st = 0 then Some p else sc_genesis st),
         sc_header_hash = (if sc_index st = 0 then Some h else sc_header_hash st),
         sc_closure_hash = (if ty = lit ''closure'' then Some h else sc_closure_hash st),
         sc_closure_index = (if ty = lit ''closure'' then Some (sc_index st) else sc_closure_index st),
         sc_closure_seen = (ty = lit ''closure'' \<or> sc_closure_seen st), sc_digest = sc_digest st @ line,
         sc_retained = sc_retained st @ [butlast line]\<rparr>)"

definition chain_state :: "chain_link list \<Rightarrow> scan_state" where
  "chain_state ls = foldl after_link scan_start ls"

section \<open>One line\<close>

definition starts_at :: "scan_state \<Rightarrow> pystr \<Rightarrow> json \<Rightarrow> pystr \<Rightarrow> bool" where
  "starts_at st ty body p \<longleftrightarrow>
     (if sc_index st = 0 then ty = lit ''header'' \<and> compute_genesis_sha256 body = Inr p else sc_head st = Some p)"

lemma link_shape:
  assumes "link i p ty body = Inr (line, h)"
  obtains b where "line = b @ [10]" "10 \<notin> set b"
  using assms by (auto simp: link_iff dest: canonical_no_lf)

lemma accept_iff:
  assumes "\<not> sc_closure_seen st"
  shows "accept_record st raw (ty, body, h, p) = Inr st' \<longleftrightarrow>
    (ty = lit ''closure'' \<longrightarrow> length raw \<le> MAX_CLOSURE_LINE_BYTES) \<and> (ty = lit ''header'' \<longrightarrow> sc_index st = 0)
    \<and> sc_index st < MAX_LEDGER_RECORDS \<and> st' = after_link st (ty, p, raw, h)"
  using assms by (cases st) (auto simp: accept_record_def after_link_def Let_def)

lemma scan_line_cases:
  assumes "\<not> sc_closure_seen st"
  shows "scan_line n st raw = Inr st' \<longleftrightarrow> length raw \<le> MAX_EVENT_LINE_BYTES \<and> sc_total st + length raw \<le> MAX_LEDGER_BYTES
    \<and> (\<exists>b. raw = b @ [10] \<and> (\<exists>r. bindE (parse_canonical_json_bytes b)
        (\<lambda>value. validate_record_envelope value (int (sc_index st)) (sc_head st)) = Inr r \<and> accept_record st raw r = Inr st'))"
proof (cases raw rule: rev_cases)
  case Nil
  then show ?thesis by (simp add: scan_line_def Let_def)
next
  case (snoc b c)
  show ?thesis
    by (cases "bindE (parse_canonical_json_bytes b)
        (\<lambda>value. validate_record_envelope value (int (sc_index st)) (sc_head st))")
      (use assms in \<open>auto simp: snoc scan_line_def Let_def\<close>)
qed

lemma scan_line_iff:
  assumes open_chain: "\<not> sc_closure_seen st"
  shows "scan_line n st raw = Inr st' \<longleftrightarrow>
    (\<exists>ty body p h. link (sc_index st) p ty body = Inr (raw, h) \<and> canonical_body body \<and> starts_at st ty body p
      \<and> length raw \<le> MAX_EVENT_LINE_BYTES \<and> sc_total st + length raw \<le> MAX_LEDGER_BYTES
      \<and> (ty = lit ''closure'' \<longrightarrow> length raw \<le> MAX_CLOSURE_LINE_BYTES) \<and> (ty = lit ''header'' \<longrightarrow> sc_index st = 0)
      \<and> sc_index st < MAX_LEDGER_RECORDS \<and> st' = after_link st (ty, p, raw, h))"
proof -
  have acc: "(\<exists>v. parse_canonical_json_bytes b = Inr v
        \<and> validate_record_envelope v (int (sc_index st)) (sc_head st) = Inr (ty, body, h, p)) \<longleftrightarrow>
      link (sc_index st) p ty body = Inr (b @ [10], h) \<and> canonical_body body \<and> starts_at st ty body p" for b ty body h p
    by (simp only: link_accepted) (auto simp: canonical_body_def starts_at_def)
  have "scan_line n st raw = Inr st' \<longleftrightarrow> length raw \<le> MAX_EVENT_LINE_BYTES \<and> sc_total st + length raw \<le> MAX_LEDGER_BYTES
      \<and> (\<exists>b. raw = b @ [10] \<and> (\<exists>ty body h p. (\<exists>v. parse_canonical_json_bytes b = Inr v
        \<and> validate_record_envelope v (int (sc_index st)) (sc_head st) = Inr (ty, body, h, p))
        \<and> accept_record st raw (ty, body, h, p) = Inr st'))"
    by (simp only: scan_line_cases [OF open_chain] split_paired_Ex bindE_eq_Inr)
  then have scan: "scan_line n st raw = Inr st' \<longleftrightarrow> length raw \<le> MAX_EVENT_LINE_BYTES
      \<and> sc_total st + length raw \<le> MAX_LEDGER_BYTES \<and> (\<exists>b. raw = b @ [10] \<and> (\<exists>ty body h p.
        (link (sc_index st) p ty body = Inr (b @ [10], h) \<and> canonical_body body \<and> starts_at st ty body p)
        \<and> (ty = lit ''closure'' \<longrightarrow> length raw \<le> MAX_CLOSURE_LINE_BYTES) \<and> (ty = lit ''header'' \<longrightarrow> sc_index st = 0)
        \<and> sc_index st < MAX_LEDGER_RECORDS \<and> st' = after_link st (ty, p, raw, h)))"
    by (simp only: acc accept_iff [OF open_chain])
  show ?thesis
  proof (cases "\<exists>b. raw = b @ [10]")
    case True
    then obtain b where b: "raw = b @ [10]" by blast
    show ?thesis unfolding scan unfolding b append1_eq_conv by blast
  next
    case False
    then have "link i p ty body \<noteq> Inr (raw, h)" for i p ty body h by (auto elim: link_shape)
    with False show ?thesis unfolding scan by blast
  qed
qed

section \<open>Lines of a file\<close>

lemma readline_line:
  assumes "10 \<notin> set b" "length b < limit"
  shows "readline limit (b @ 10 # rest) = (b @ [10], rest)"
proof -
  have "takeWhile (\<lambda>x. x \<noteq> 10) (b @ 10 # rest) = b" using assms(1) by (simp add: takeWhile_append)
  moreover from assms(2) have "min limit (Suc (length b)) = Suc (length b)" by simp
  ultimately show ?thesis by (simp add: readline_def line_length_def Let_def)
qed

lemma readline_append: "fst (readline limit bs) @ snd (readline limit bs) = bs"
  by (simp add: readline_def Let_def)

lemma scan_lines_Nil [simp]: "scan_lines n st [] = Inr st"
  by (simp add: scan_lines.simps)

lemma scan_lines_step: "bs \<noteq> [] \<Longrightarrow> scan_lines n st bs =
    bindE (scan_line n st (fst (readline (MAX_EVENT_LINE_BYTES + 1) bs))) (\<lambda>st'.
      scan_lines n st' (snd (readline (MAX_EVENT_LINE_BYTES + 1) bs)))"
  by (subst scan_lines.simps) simp

lemma scan_after_closure:
  assumes "sc_closure_seen st"
  shows "scan_lines n st bs = Inr st' \<longleftrightarrow> bs = [] \<and> st' = st"
  using assms by (cases "bs = []") (auto simp: scan_lines_step scan_line_def Let_def)

section \<open>The scanner accepts exactly the chains\<close>

definition chain_from :: "scan_state \<Rightarrow> pystr \<Rightarrow> (pystr \<times> json) list \<Rightarrow> bool" where
  "chain_from st p es \<longleftrightarrow>
     (if sc_index st = 0 then es \<noteq> [] \<longrightarrow> compute_genesis_sha256 (snd (hd es)) = Inr p else sc_head st = Some p)"

lemma after_link_simps [simp]:
  "sc_index (after_link st (ty, p, line, h)) = Suc (sc_index st)"
  "sc_head (after_link st (ty, p, line, h)) = Some h"
  "sc_total (after_link st (ty, p, line, h)) = sc_total st + length line"
  "sc_digest (after_link st (ty, p, line, h)) = sc_digest st @ line"
  "sc_retained (after_link st (ty, p, line, h)) = sc_retained st @ [butlast line]"
  "sc_closure_seen (after_link st (ty, p, line, h)) \<longleftrightarrow> ty = lit ''closure'' \<or> sc_closure_seen st"
  by (simp_all add: after_link_def)

lemma scan_chain_prefix:
  assumes "\<not> sc_closure_seen st" "chain_from st p es" "links (sc_index st) p es = Inr ls"
    "\<forall>(ty, body) \<in> set es. canonical_body body" "links_ok (sc_index st) (sc_total st) ls"
  shows "scan_lines n st (chain_bytes ls @ r) = scan_lines n (foldl after_link st ls) r"
  using assms
proof (induction es arbitrary: st p ls)
  case Nil
  then show ?case by simp
next
  case (Cons e es)
  obtain ty body where e: "e = (ty, body)" by (cases e)
  from Cons.prems(3) obtain line h ls' where lk: "link (sc_index st) p ty body = Inr (line, h)"
    and rest: "links (Suc (sc_index st)) h es = Inr ls'" and ls: "ls = (ty, p, line, h) # ls'"
    by (auto simp: e bindE_eq_Inr)
  let ?st = "after_link st (ty, p, line, h)"
  from Cons.prems(5) have lim: "length line \<le> MAX_EVENT_LINE_BYTES" "sc_total st + length line \<le> MAX_LEDGER_BYTES"
    "ty = lit ''closure'' \<longrightarrow> length line \<le> MAX_CLOSURE_LINE_BYTES \<and> ls' = []" "ty = lit ''header'' \<longleftrightarrow> sc_index st = 0"
    "sc_index st < MAX_LEDGER_RECORDS" "links_ok (sc_index ?st) (sc_total ?st) ls'"
    by (auto simp: ls)
  have "starts_at st ty body p" using Cons.prems(2) lim(4) by (auto simp: starts_at_def chain_from_def e split: if_splits)
  with lk lim Cons.prems(4) have one: "scan_line n st line = Inr ?st"
    unfolding scan_line_iff [OF Cons.prems(1)] by (auto simp: e)
  obtain b where b: "line = b @ [10]" "10 \<notin> set b" by (rule link_shape [OF lk])
  have read: "readline (MAX_EVENT_LINE_BYTES + 1) (line @ chain_bytes ls' @ r) = (line, chain_bytes ls' @ r)"
    using readline_line [OF b(2), of "MAX_EVENT_LINE_BYTES + 1" "chain_bytes ls' @ r"] lim(1) by (simp add: b(1))
  have "scan_lines n ?st (chain_bytes ls' @ r) = scan_lines n (foldl after_link ?st ls') r"
  proof (cases "ty = lit ''closure''")
    case True
    with lim(3) show ?thesis by simp
  next
    case False
    with Cons.prems(1) have "\<not> sc_closure_seen ?st" by simp
    then show ?thesis
      by (rule Cons.IH [where p = h]) (use rest Cons.prems(4) lim(6) in \<open>simp_all add: chain_from_def\<close>)
  qed
  moreover have "line @ chain_bytes ls' @ r \<noteq> []" by (simp add: b(1))
  ultimately show ?case using one read by (simp add: ls scan_lines_step)
qed

lemma scan_complete:
  assumes "\<not> sc_closure_seen st" "chain_from st p es" "links (sc_index st) p es = Inr ls"
    "\<forall>(ty, body) \<in> set es. canonical_body body" "links_ok (sc_index st) (sc_total st) ls"
  shows "scan_lines n st (chain_bytes ls) = Inr (foldl after_link st ls)"
  using scan_chain_prefix [OF assms, of n "[]"] by simp

lemma scan_sound:
  assumes "scan_lines n st bs = Inr st'" "\<not> sc_closure_seen st" "sc_index st \<noteq> 0 \<longrightarrow> sc_head st \<noteq> None"
  shows "\<exists>p es ls. chain_from st p es \<and> links (sc_index st) p es = Inr ls \<and> (\<forall>(ty, body) \<in> set es. canonical_body body)
    \<and> links_ok (sc_index st) (sc_total st) ls \<and> bs = chain_bytes ls \<and> st' = foldl after_link st ls"
  using assms
proof (induction n st bs rule: scan_lines.induct)
  case (1 n st bs)
  show ?case
  proof (cases "bs = []")
    case True
    with 1(2,4) show ?thesis
      by (intro exI [of _ "the (sc_head st)"] exI [of _ "[]"]) (auto simp: chain_from_def)
  next
    case False
    let ?raw = "fst (readline (MAX_EVENT_LINE_BYTES + 1) bs)" and ?rest = "snd (readline (MAX_EVENT_LINE_BYTES + 1) bs)"
    from 1(2) False obtain st1 where st1: "scan_line n st ?raw = Inr st1" and rest: "scan_lines n st1 ?rest = Inr st'"
      by (auto simp: scan_lines_step bindE_eq_Inr)
    from st1 obtain ty body p h where lk: "link (sc_index st) p ty body = Inr (?raw, h)" and body: "canonical_body body"
      and start: "starts_at st ty body p" and lim: "length ?raw \<le> MAX_EVENT_LINE_BYTES"
        "sc_total st + length ?raw \<le> MAX_LEDGER_BYTES" "ty = lit ''closure'' \<longrightarrow> length ?raw \<le> MAX_CLOSURE_LINE_BYTES"
        "ty = lit ''header'' \<longrightarrow> sc_index st = 0" "sc_index st < MAX_LEDGER_RECORDS"
      and after: "st1 = after_link st (ty, p, ?raw, h)"
      unfolding scan_line_iff [OF 1(3)] by blast
    have bs: "bs = ?raw @ ?rest" by (simp add: readline_append)
    have "\<exists>es ls. links (Suc (sc_index st)) h es = Inr ls \<and> (\<forall>(ty, body) \<in> set es. canonical_body body)
        \<and> links_ok (Suc (sc_index st)) (sc_total st + length ?raw) ls \<and> ?rest = chain_bytes ls
        \<and> st' = foldl after_link st1 ls \<and> (ty = lit ''closure'' \<longrightarrow> ls = [])"
    proof (cases "ty = lit ''closure''")
      case True
      with after have "sc_closure_seen st1" by simp
      with rest scan_after_closure have "?rest = [] \<and> st' = st1" by blast
      then show ?thesis by (intro exI [of _ "[]"]) simp
    next
      case False
      with after 1(3) have "\<not> sc_closure_seen st1" by simp
      with 1(1) [OF \<open>bs \<noteq> []\<close> st1 rest] after False show ?thesis by (auto simp: chain_from_def)
    qed
    then obtain es ls where tail: "links (Suc (sc_index st)) h es = Inr ls" "\<forall>(ty, body) \<in> set es. canonical_body body"
      "links_ok (Suc (sc_index st)) (sc_total st + length ?raw) ls" "?rest = chain_bytes ls"
      "st' = foldl after_link st1 ls" "ty = lit ''closure'' \<longrightarrow> ls = []" by blast
    have "chain_from st p ((ty, body) # es)" using start by (auto simp: chain_from_def starts_at_def)
    moreover have "links (sc_index st) p ((ty, body) # es) = Inr ((ty, p, ?raw, h) # ls)" using lk tail(1) by simp
    moreover have "links_ok (sc_index st) (sc_total st) ((ty, p, ?raw, h) # ls)"
      using lim tail start by (auto simp: starts_at_def)
    ultimately show ?thesis using body tail bs after
      by (intro exI [of _ p] exI [of _ "(ty, body) # es"] exI [of _ "(ty, p, ?raw, h) # ls"]) simp
  qed
qed

theorem scan_lines_iff:
  "scan_lines n scan_start bs = Inr st \<longleftrightarrow>
    (\<exists>es ls. ledger_links es = Inr ls \<and> (\<forall>(ty, body) \<in> set es. canonical_body body) \<and> links_ok 0 0 ls
      \<and> bs = chain_bytes ls \<and> st = chain_state ls)"
  (is "_ \<longleftrightarrow> (\<exists>es ls. ?chain es ls)")
proof
  have start: "\<not> sc_closure_seen scan_start" "sc_index scan_start = 0" "sc_total scan_start = 0"
    by (simp_all add: scan_start_def)
  have top: "chain_from scan_start p es \<and> links 0 p es = Inr ls \<Longrightarrow> ledger_links es = Inr ls" for p es ls
    by (auto simp: ledger_links_def chain_from_def start split: list.splits)
  show "\<exists>es ls. ?chain es ls" if "scan_lines n scan_start bs = Inr st"
  proof -
    from scan_sound [OF that start(1)] start(2) obtain p es ls where
      "chain_from scan_start p es" "links (sc_index scan_start) p es = Inr ls"
      "\<forall>(ty, body) \<in> set es. canonical_body body" "links_ok (sc_index scan_start) (sc_total scan_start) ls"
      "bs = chain_bytes ls" "st = foldl after_link scan_start ls" by blast
    with top [of p es ls] show ?thesis by (intro exI [of _ es] exI [of _ ls]) (simp add: start chain_state_def)
  qed
  show "scan_lines n scan_start bs = Inr st" if ex: "\<exists>es ls. ?chain es ls"
  proof -
    from ex obtain es ls where c: "?chain es ls" by blast
    then obtain p where "chain_from scan_start p es" "links 0 p es = Inr ls"
      by (cases es) (auto simp: ledger_links_def chain_from_def start bindE_eq_Inr)
    with c scan_complete [OF start(1), of p es ls n] show ?thesis by (simp add: start chain_state_def)
  qed
qed

lemma scan_from_start:
  assumes "ledger_links es = Inr ls" "\<forall>(ty, body) \<in> set es. canonical_body body" "links_ok 0 0 ls"
  shows "scan_lines n scan_start (chain_bytes ls @ r) = scan_lines n (chain_state ls) r"
proof -
  have start: "\<not> sc_closure_seen scan_start" "sc_index scan_start = 0" "sc_total scan_start = 0"
    by (simp_all add: scan_start_def)
  from assms(1) obtain p where "chain_from scan_start p es" "links 0 p es = Inr ls"
    by (cases es) (auto simp: ledger_links_def chain_from_def start bindE_eq_Inr)
  with scan_chain_prefix [OF start(1), of p es ls n r] assms show ?thesis by (simp add: start chain_state_def)
qed

text \<open>A last line without its line feed stops the scan behind the chain it follows.\<close>

lemma scan_torn:
  assumes "\<not> sc_closure_seen st" "r \<noteq> []" "10 \<notin> set r" "length r \<le> MAX_EVENT_LINE_BYTES"
    "sc_total st + length r \<le> MAX_LEDGER_BYTES"
  shows "scan_lines n st r = Inl (scan_failed st ''torn'' (sc_total st + length r) ''FINAL_LINE_WITHOUT_LF'')"
proof -
  have whole: "takeWhile (\<lambda>b. b \<noteq> 10) r = r" using assms(3) by (auto simp: takeWhile_eq_all_conv)
  have "line_length r = length r" unfolding line_length_def whole by simp
  then have "fst (readline (MAX_EVENT_LINE_BYTES + 1) r) = r"
    using assms(4) by (simp add: readline_def Let_def)
  moreover have "last r \<noteq> 10" using assms(2,3) last_in_set by metis
  ultimately show ?thesis using assms by (simp add: scan_lines_step scan_line_def Let_def)
qed

end
