(* ===== verification/HashChain.thy ===== *)
theory HashChain
  imports Main
begin

text \<open>
  Hash chains in general: each entry is hashed with its position and its predecessor's digest.
  The contract of an encoding is that it determines what it encodes; then the final digest
  determines the whole chain, or two of the strings that were hashed collide.
\<close>

fun chain_hashes ::
  "(nat \<Rightarrow> 'd \<Rightarrow> 'e \<Rightarrow> 'b) \<Rightarrow> ('b \<Rightarrow> 'd) \<Rightarrow> nat \<Rightarrow> 'd \<Rightarrow> 'e list \<Rightarrow> ('b \<times> 'd) list" where
  "chain_hashes pre H i p [] = []"
| "chain_hashes pre H i p (e # es) =
     (let b = pre i p e; h = H b in (b, h) # chain_hashes pre H (Suc i) h es)"

fun chain_tip ::
  "(nat \<Rightarrow> 'd \<Rightarrow> 'e \<Rightarrow> 'b) \<Rightarrow> ('b \<Rightarrow> 'd) \<Rightarrow> nat \<Rightarrow> 'd \<Rightarrow> 'e list \<Rightarrow> 'd" where
  "chain_tip pre H i p [] = p"
| "chain_tip pre H i p (e # es) = chain_tip pre H (Suc i) (H (pre i p e)) es"

lemma chain_tip_snoc:
  "chain_tip pre H i p (es @ [e]) = H (pre (i + length es) (chain_tip pre H i p es) e)"
  by (induction es arbitrary: i p) auto

lemma chain_hashes_snoc:
  "chain_hashes pre H i p (es @ [e]) = chain_hashes pre H i p es
    @ [(pre (i + length es) (chain_tip pre H i p es) e, chain_tip pre H i p (es @ [e]))]"
  by (induction es arbitrary: i p) (auto simp: Let_def)

fun chain_all :: "(nat \<Rightarrow> 'd \<Rightarrow> 'e \<Rightarrow> bool) \<Rightarrow> (nat \<Rightarrow> 'd \<Rightarrow> 'e \<Rightarrow> 'b) \<Rightarrow> ('b \<Rightarrow> 'd) \<Rightarrow> nat \<Rightarrow> 'd \<Rightarrow> 'e list \<Rightarrow> bool"
where
  "chain_all ok pre H i p [] \<longleftrightarrow> True"
| "chain_all ok pre H i p (e # es) \<longleftrightarrow> ok i p e \<and> chain_all ok pre H (Suc i) (H (pre i p e)) es"

lemma chain_all_snoc:
  "chain_all ok pre H i p (es @ [e]) \<longleftrightarrow>
    chain_all ok pre H i p es \<and> ok (i + length es) (chain_tip pre H i p es) e"
  by (induction es arbitrary: i p) auto

locale hash_chain =
  fixes ok :: "nat \<Rightarrow> 'd \<Rightarrow> 'e \<Rightarrow> bool"
    and pre :: "nat \<Rightarrow> 'd \<Rightarrow> 'e \<Rightarrow> 'b"
    and H :: "'b \<Rightarrow> 'd"
  assumes pre_determines: "ok i p e \<Longrightarrow> ok j q f \<Longrightarrow> pre i p e = pre j q f \<Longrightarrow> i = j \<and> p = q \<and> e = f"
begin

definition collide :: "('b \<times> 'd) list \<Rightarrow> ('b \<times> 'd) list \<Rightarrow> bool" where
  "collide xs ys \<longleftrightarrow> (\<exists>x \<in> fst ` set xs. \<exists>y \<in> fst ` set ys. x \<noteq> y \<and> H x = H y)"

lemma tip_determines:
  assumes "chain_all ok pre H 0 p es" "chain_all ok pre H 0 q fs" "es \<noteq> []" "fs \<noteq> []"
    and "chain_tip pre H 0 p es = chain_tip pre H 0 q fs"
  shows "(p = q \<and> es = fs) \<or> collide (chain_hashes pre H 0 p es) (chain_hashes pre H 0 q fs)"
  using assms
proof (induction es arbitrary: fs rule: rev_induct)
  case Nil
  then show ?case by simp
next
  case (snoc e es)
  then obtain gs f where fs: "fs = gs @ [f]" by (cases fs rule: rev_cases) auto
  let ?x = "pre (length es) (chain_tip pre H 0 p es) e" and ?y = "pre (length gs) (chain_tip pre H 0 q gs) f"
  show ?case
  proof (cases "?x = ?y")
    case False
    with snoc.prems(5) show ?thesis by (auto simp: fs chain_tip_snoc chain_hashes_snoc collide_def)
  next
    case True
    with snoc.prems(1,2) have same: "length es = length gs" "chain_tip pre H 0 p es = chain_tip pre H 0 q gs" "e = f"
      by (auto simp: fs chain_all_snoc dest: pre_determines)
    show ?thesis
    proof (cases "es = []")
      case True
      with same show ?thesis by (simp add: fs)
    next
      case False
      with same have "(p = q \<and> es = gs) \<or> collide (chain_hashes pre H 0 p es) (chain_hashes pre H 0 q gs)"
        using snoc.prems by (intro snoc.IH) (auto simp: fs chain_all_snoc)
      with same(3) show ?thesis by (auto simp: fs chain_hashes_snoc collide_def)
    qed
  qed
qed

end

end
