(* ===== verification/LedgerTamper.thy ===== *)
theory LedgerTamper
  imports LedgerScan HashChain
begin

text \<open>
  The ledger is a hash chain: what is hashed for a record determines the record, its position
  and its predecessor. So two files the scanner accepts with one final head are equal, or two of
  the strings hashed for their records collide.
\<close>

section \<open>The state after a chain\<close>

definition link_digest :: "chain_link \<Rightarrow> pystr" where
  "link_digest l = (case l of (_, _, _, h) \<Rightarrow> h)"

definition link_type :: "chain_link \<Rightarrow> pystr" where
  "link_type l = (case l of (ty, _) \<Rightarrow> ty)"

lemma link_fields [simp]:
  "link_digest (ty, p, line, h) = h" "link_type (ty, p, line, h) = ty" "link_line (ty, p, line, h) = line"
  by (simp_all add: link_digest_def link_type_def link_line_def)

lemma chain_state_simps [simp]:
  "sc_index (chain_state ls) = length ls"
  "sc_total (chain_state ls) = length (chain_bytes ls)"
  "sc_digest (chain_state ls) = chain_bytes ls"
  "sc_retained (chain_state ls) = map (\<lambda>l. butlast (link_line l)) ls"
  "sc_closure_seen (chain_state ls) \<longleftrightarrow> lit ''closure'' \<in> link_type ` set ls"
  "sc_head (chain_state ls) = (if ls = [] then None else Some (link_digest (last ls)))"
proof -
  have "sc_index (chain_state ls) = length ls \<and> sc_total (chain_state ls) = length (chain_bytes ls)
    \<and> sc_digest (chain_state ls) = chain_bytes ls \<and> sc_retained (chain_state ls) = map (\<lambda>l. butlast (link_line l)) ls
    \<and> (sc_closure_seen (chain_state ls) \<longleftrightarrow> lit ''closure'' \<in> link_type ` set ls)
    \<and> sc_head (chain_state ls) = (if ls = [] then None else Some (link_digest (last ls)))"
  proof (induction ls rule: rev_induct)
    case Nil
    then show ?case by (simp add: chain_state_def scan_start_def)
  next
    case (snoc l ls)
    obtain ty p line h where l: "l = (ty, p, line, h)" by (cases l)
    have step: "chain_state (ls @ [l]) = after_link (chain_state ls) (ty, p, line, h)"
      by (simp add: chain_state_def l)
    from snoc show ?case unfolding step by (auto simp: l)
  qed
  then show "sc_index (chain_state ls) = length ls"
    "sc_total (chain_state ls) = length (chain_bytes ls)"
    "sc_digest (chain_state ls) = chain_bytes ls"
    "sc_retained (chain_state ls) = map (\<lambda>l. butlast (link_line l)) ls"
    "sc_closure_seen (chain_state ls) \<longleftrightarrow> lit ''closure'' \<in> link_type ` set ls"
    "sc_head (chain_state ls) = (if ls = [] then None else Some (link_digest (last ls)))" by simp_all
qed

section \<open>What is hashed for a record\<close>

definition record_preimage :: "nat \<Rightarrow> pystr \<Rightarrow> pystr \<times> json \<Rightarrow> bytes" where
  "record_preimage i p e =
     (case canonical_json_bytes (JObj (core_fields (int i) (fst e) p (snd e))) of
        Inr b \<Rightarrow> RECORD_DOMAIN @ be_bytes 8 (length b) @ b
      | Inl _ \<Rightarrow> [])"

abbreviation ledger_digest :: "bytes \<Rightarrow> pystr" where
  "ledger_digest b \<equiv> lit (sha256_hex b)"

definition record_ok :: "nat \<Rightarrow> pystr \<Rightarrow> pystr \<times> json \<Rightarrow> bool" where
  "record_ok i p e \<longleftrightarrow> hex64 p \<and> fst e \<in> set RECORD_TYPES \<and> canonical_body (snd e)
     \<and> (\<exists>b. canonical_json_bytes (JObj (core_fields (int i) (fst e) p (snd e))) = Inr b)"

definition sorted_core :: "int \<Rightarrow> pystr \<Rightarrow> pystr \<Rightarrow> json \<Rightarrow> (pystr \<times> json) list" where
  "sorted_core i ty previous body =
     [(lit ''body'', body), (lit ''previous_record_sha256'', JStr previous), (lit ''record_index'', JInt i),
      (lit ''record_type'', JStr ty), (lit ''schema_version'', JStr LEDGER_RECORD_SCHEMA)]"

lemma canon_core: "canon (JObj (core_fields i ty p body)) = JObj (sorted_core i ty p (canon body))"
proof -
  have "sort_key fst (core_fields i ty p body) = sorted_core i ty p body"
  proof (rule sort_key_inj_key_eq)
    show "mset (core_fields i ty p body) = mset (sorted_core i ty p body)"
      by (simp add: core_fields_def sorted_core_def)
    show "sorted (map fst (sorted_core i ty p body))"
      by (simp add: sorted_core_def) (simp add: lit_def)
    show "inj_on fst (set (core_fields i ty p body))"
      by (auto simp: inj_on_def core_fields_def)
  qed
  then show ?thesis by (simp add: sorted_core_def)
qed

lemma keys_ok_core: "keys_ok body \<Longrightarrow> keys_ok (JObj (core_fields i ty p body))"
  by (simp add: core_fields_def)

lemma record_preimage_inj:
  assumes "record_ok i p e" "record_ok j q f" "record_preimage i p e = record_preimage j q f"
  shows "i = j \<and> p = q \<and> e = f"
proof -
  from assms(1,2) obtain b c where b: "canonical_json_bytes (JObj (core_fields (int i) (fst e) p (snd e))) = Inr b"
    and c: "canonical_json_bytes (JObj (core_fields (int j) (fst f) q (snd f))) = Inr c"
    by (auto simp: record_ok_def)
  from assms(3) have "b = c" by (simp add: record_preimage_def b c)
  with c have c: "canonical_json_bytes (JObj (core_fields (int j) (fst f) q (snd f))) = Inr b" by simp
  from assms(1,2) have body: "canon (snd e) = snd e" "canon (snd f) = snd f" "keys_ok (snd e)" "keys_ok (snd f)"
    by (auto simp: record_ok_def canonical_body_def python_json_def)
  have "JObj (sorted_core (int i) (fst e) p (snd e)) = JObj (sorted_core (int j) (fst f) q (snd f))"
    using canonical_inj [OF b c keys_ok_core keys_ok_core] body by (simp only: canon_core)
  then show ?thesis by (auto simp: sorted_core_def prod_eq_iff)
qed

interpretation ledger_chain: hash_chain record_ok record_preimage ledger_digest
  by unfold_locales (rule record_preimage_inj)

lemma link_record_ok:
  assumes "link i p ty body = Inr (line, h)" "canonical_body body"
  shows "record_ok i p (ty, body)" and "h = ledger_digest (record_preimage i p (ty, body))"
  using assms by (auto simp: link_iff compute_record_iff record_core_iff record_ok_def record_preimage_def
      framed_hash_def split: if_splits)

lemma links_chain:
  assumes "links i p es = Inr ls" "\<forall>(ty, body) \<in> set es. canonical_body body"
  shows "chain_all record_ok record_preimage ledger_digest i p es"
    and "map link_digest ls = map snd (chain_hashes record_preimage ledger_digest i p es)"
    and "chain_tip record_preimage ledger_digest i p es = (if ls = [] then p else link_digest (last ls))"
proof -
  have "chain_all record_ok record_preimage ledger_digest i p es
    \<and> map link_digest ls = map snd (chain_hashes record_preimage ledger_digest i p es)
    \<and> chain_tip record_preimage ledger_digest i p es = (if ls = [] then p else link_digest (last ls))"
    using assms
  proof (induction es arbitrary: i p ls)
    case Nil
    then show ?case by simp
  next
    case (Cons e es)
    obtain ty body where e: "e = (ty, body)" by (cases e)
    from Cons.prems(1) obtain line h ls' where lk: "link i p ty body = Inr (line, h)"
      and rest: "links (Suc i) h es = Inr ls'" and ls: "ls = (ty, p, line, h) # ls'"
      by (auto simp: e bindE_eq_Inr)
    from Cons.prems(2) have body: "canonical_body body" by (simp add: e)
    note r = link_record_ok [OF lk body]
    from Cons.IH [OF rest] Cons.prems(2) r show ?case by (simp add: e ls Let_def)
  qed
  then show "chain_all record_ok record_preimage ledger_digest i p es"
    and "map link_digest ls = map snd (chain_hashes record_preimage ledger_digest i p es)"
    and "chain_tip record_preimage ledger_digest i p es = (if ls = [] then p else link_digest (last ls))" by blast+
qed

section \<open>What is hashed for the lines of a file\<close>

text \<open>
  The strings hashed for the records of a file, read off its lines: the record digest is taken
  out and the rest put back into canonical form behind the domain and its length.
\<close>

definition line_preimage :: "bytes \<Rightarrow> bytes" where
  "line_preimage raw =
     (case parse_canonical_json_bytes raw of
        Inr (JObj kvs) \<Rightarrow>
          (case canonical_json_bytes (JObj (filter (\<lambda>m. fst m \<noteq> lit ''record_sha256'') kvs)) of
             Inr b \<Rightarrow> RECORD_DOMAIN @ be_bytes 8 (length b) @ b
           | Inl _ \<Rightarrow> [])
      | _ \<Rightarrow> [])"

lemma line_preimage_link:
  assumes "link i p ty body = Inr (line, h)" "canonical_body body"
    "if i = 0 then ty = lit ''header'' \<and> compute_genesis_sha256 body = Inr p else True"
  shows "line_preimage (butlast line) = record_preimage i p (ty, body)"
proof -
  obtain b where b: "line = b @ [10]" by (rule link_shape [OF assms(1)])
  have "\<exists>v. parse_canonical_json_bytes b = Inr v \<and> validate_record_envelope v (int i) (Some p) = Inr (ty, body, h, p)"
    unfolding link_accepted using assms by (simp add: b canonical_body_def)
  then obtain v where v: "parse_canonical_json_bytes b = Inr v"
    and env: "validate_record_envelope v (int i) (Some p) = Inr (ty, body, h, p)" by blast
  from v have "canon v = v" by (simp add: parse_canonical_python_iff)
  with env have v': "v = JObj (envelope_fields (int i) ty p body h)" by (simp add: envelope_iff)
  have filt: "filter (\<lambda>m. fst m \<noteq> lit ''record_sha256'') (envelope_fields (int i) ty p body h) = sorted_core (int i) ty p body"
    by (simp add: envelope_fields_def sorted_core_def)
  have eq: "canonical_json_bytes (JObj (sorted_core (int i) ty p body)) = Inr c \<longleftrightarrow>
      canonical_json_bytes (JObj (core_fields (int i) ty p body)) = Inr c" for c
    using canonical_canon [of "JObj (core_fields (int i) ty p body)" c] assms(2)
    by (simp only: canon_core canonical_body_def)
  from link_record_ok [OF assms(1,2)] obtain c where
    c: "canonical_json_bytes (JObj (core_fields (int i) ty p body)) = Inr c" by (auto simp: record_ok_def)
  from eq [THEN iffD2, OF c] c v show ?thesis
    by (simp add: line_preimage_def v' filt b record_preimage_def)
qed

lemma chain_preimages:
  assumes "links i p es = Inr ls" "\<forall>(ty, body) \<in> set es. canonical_body body" "links_ok i n ls"
    "i = 0 \<Longrightarrow> es \<noteq> [] \<Longrightarrow> compute_genesis_sha256 (snd (hd es)) = Inr p"
  shows "map (\<lambda>l. line_preimage (butlast (link_line l))) ls = map fst (chain_hashes record_preimage ledger_digest i p es)"
  using assms
proof (induction es arbitrary: i p ls n)
  case Nil
  then show ?case by simp
next
  case (Cons e es)
  obtain ty body where e: "e = (ty, body)" by (cases e)
  from Cons.prems(1) obtain line h ls' where lk: "link i p ty body = Inr (line, h)"
    and rest: "links (Suc i) h es = Inr ls'" and ls: "ls = (ty, p, line, h) # ls'"
    by (auto simp: e bindE_eq_Inr)
  from Cons.prems have body: "canonical_body body" and start: "i = 0 \<Longrightarrow> ty = lit ''header'' \<and> compute_genesis_sha256 body = Inr p"
    and ok: "links_ok (Suc i) (n + length line) ls'"
    by (auto simp: e ls)
  from Cons.IH [OF rest _ ok] Cons.prems(2)
  have "map (\<lambda>l. line_preimage (butlast (link_line l))) ls' = map fst (chain_hashes record_preimage ledger_digest (Suc i) h es)" by simp
  moreover have "line_preimage (butlast line) = record_preimage i p (ty, body)"
    by (rule line_preimage_link [OF lk body]) (use start in auto)
  ultimately show ?case using link_record_ok(2) [OF lk body] by (simp add: e ls Let_def)
qed

lemma ledger_links_cases:
  assumes "ledger_links es = Inr ls" "es \<noteq> []"
  obtains g where "compute_genesis_sha256 (snd (hd es)) = Inr g" "links 0 g es = Inr ls"
  using assms by (cases es) (auto simp: ledger_links_def bindE_eq_Inr)

definition file_preimages :: "scan_state \<Rightarrow> bytes list" where
  "file_preimages st = map line_preimage (sc_retained st)"

text \<open>Equal heads: equal files, or a collision between two of the hashed strings.\<close>

lemma same_head_same_file:
  assumes a: "scan_lines m scan_start as = Inr st" and b: "scan_lines n scan_start bs = Inr st'"
    and head: "sc_head st = sc_head st'"
  shows "as = bs \<or> (\<exists>x \<in> set (file_preimages st). \<exists>y \<in> set (file_preimages st'). sha256_collision x y)"
proof -
  from a obtain es ls where es: "ledger_links es = Inr ls" "\<forall>(ty, body) \<in> set es. canonical_body body" "links_ok 0 0 ls"
    "as = chain_bytes ls" "st = chain_state ls" by (auto simp: scan_lines_iff)
  from b obtain fs ms where fs: "ledger_links fs = Inr ms" "\<forall>(ty, body) \<in> set fs. canonical_body body" "links_ok 0 0 ms"
    "bs = chain_bytes ms" "st' = chain_state ms" by (auto simp: scan_lines_iff)
  show ?thesis
  proof (cases "es = [] \<or> fs = []")
    case True
    have "ls = []" if "es = []" using es(1) that by (simp add: ledger_links_def)
    moreover have "ms = []" if "fs = []" using fs(1) that by (simp add: ledger_links_def)
    ultimately show ?thesis using True head by (auto simp: es fs split: if_splits)
  next
    case False
    obtain g where g: "compute_genesis_sha256 (snd (hd es)) = Inr g" "links 0 g es = Inr ls"
      using ledger_links_cases [OF es(1)] False by blast
    obtain k where k: "compute_genesis_sha256 (snd (hd fs)) = Inr k" "links 0 k fs = Inr ms"
      using ledger_links_cases [OF fs(1)] False by blast
    have ne: "ls \<noteq> []" "ms \<noteq> []" using g(2) k(2) False by (cases es; cases fs; auto simp: bindE_eq_Inr)+
    note ca = links_chain [OF g(2) es(2)] and cb = links_chain [OF k(2) fs(2)]
    have "chain_tip record_preimage ledger_digest 0 g es = chain_tip record_preimage ledger_digest 0 k fs"
      using head ne by (simp add: ca(3) cb(3) es(5) fs(5))
    then have or: "(g = k \<and> es = fs) \<or> ledger_chain.collide (chain_hashes record_preimage ledger_digest 0 g es)
        (chain_hashes record_preimage ledger_digest 0 k fs)"
      using False by (intro ledger_chain.tip_determines ca(1) cb(1)) auto
    have pre: "set (file_preimages st) = fst ` set (chain_hashes record_preimage ledger_digest 0 g es)"
      "set (file_preimages st') = fst ` set (chain_hashes record_preimage ledger_digest 0 k fs)"
      using chain_preimages [OF g(2) es(2,3)] chain_preimages [OF k(2) fs(2,3)] g(1) k(1)
      by (simp_all add: file_preimages_def es(5) fs(5) comp_def flip: set_map)
    show ?thesis
    proof (cases "g = k \<and> es = fs")
      case True
      with g(2) k(2) show ?thesis by (simp add: es fs)
    next
      case False
      with or show ?thesis by (auto simp: pre ledger_chain.collide_def sha256_hex_eq)
    qed
  qed
qed

end
