(* ===== verification/LedgerWriterInv.thy ===== *)
theory LedgerWriterInv
  imports LedgerWriter LedgerTamper
begin

text \<open>
  What a writer leaves on disk: at every moment the bytes it acknowledged are a chain the scanner
  accepts, its counters and head are that chain's, and room for a closure is reserved.
\<close>

section \<open>Chains grow at the end\<close>

definition tip :: "pystr \<Rightarrow> chain_link list \<Rightarrow> pystr" where
  "tip p ls = (if ls = [] then p else link_digest (last ls))"

lemma tip_simps [simp]: "tip p [] = p" "tip p (ls @ [l]) = link_digest l" "tip p ((ty, q, line, h) # ls) = tip h ls"
  by (simp_all add: tip_def)

lemma links_snoc:
  "links i p es = Inr ls \<Longrightarrow> link (i + length es) (tip p ls) ty body = Inr (line, h) \<Longrightarrow>
    links i p (es @ [(ty, body)]) = Inr (ls @ [(ty, tip p ls, line, h)])"
proof (induction es arbitrary: i p ls)
  case (Cons e es)
  obtain ty' body' where e: "e = (ty', body')" by (cases e)
  from Cons.prems(1) obtain line' h' ls' where lk: "link i p ty' body' = Inr (line', h')"
    and rest: "links (Suc i) h' es = Inr ls'" and ls: "ls = (ty', p, line', h') # ls'"
    by (auto simp: e bindE_eq_Inr)
  from Cons.IH [OF rest] Cons.prems(2) lk show ?case by (simp add: e ls)
qed simp

lemma links_length: "links i p es = Inr ls \<Longrightarrow> length ls = length es"
  by (induction es arbitrary: i p ls) (auto simp: bindE_eq_Inr)

lemma links_ok_snoc:
  "links_ok i n (ls @ [(ty, p, line, h)]) \<longleftrightarrow> links_ok i n ls \<and> lit ''closure'' \<notin> link_type ` set ls
    \<and> length line \<le> MAX_EVENT_LINE_BYTES \<and> (ty = lit ''closure'' \<longrightarrow> length line \<le> MAX_CLOSURE_LINE_BYTES)
    \<and> n + length (chain_bytes ls) + length line \<le> MAX_LEDGER_BYTES \<and> (ty = lit ''header'' \<longleftrightarrow> i + length ls = 0)
    \<and> i + length ls < MAX_LEDGER_RECORDS"
  by (induction i n ls rule: links_ok.induct) (auto simp: ac_simps)

section \<open>One append\<close>

lemma prepare_line_iff:
  "prepare_line n head ty body = Inr (line, h) \<longleftrightarrow>
    (\<exists>p. (if n = 0 then compute_genesis_sha256 body = Inr p else head = Some p) \<and> link n p ty body = Inr (line, h))"
  by (auto simp: prepare_line_def link_def bindE_eq_Inr split: option.splits)

definition appended :: "writer \<Rightarrow> bytes \<Rightarrow> pystr \<Rightarrow> writer" where
  "appended w line h = w\<lparr>w_tracked_bytes := w_tracked_bytes w + length line,
     w_record_count := w_record_count w + 1, w_head := Some h\<rparr>"

lemma write_line_outcomes:
  "write_line io line h w file = (Inr (), appended w line h, file @ line)
    \<or> (\<exists>m k. write_line io line h w file = (Inl (Write_Error m), poison_writer (io_close_fails io) w, file @ take k line))"
proof -
  have full: "\<exists>k. line = take k line" by (rule exI [of _ "length line"]) simp
  show ?thesis
    by (auto simp: write_line_def poison_def Let_def appended_def full split: sum.split)
qed

lemma write_line_cases:
  obtains (ok) "write_line io line h w file = (Inr (), appended w line h, file @ line)"
  | (failed) m k where "write_line io line h w file = (Inl (Write_Error m), poison_writer (io_close_fails io) w, file @ take k line)"
  using write_line_outcomes by blast

text \<open>An append leaves everything as it was, or poisons the writer, or appends one link.\<close>

lemma append_cases:
  obtains (rejected) e where "append_record_locked io ty body w fb = (Inl e, w, fb)"
  | (poisoned) m where "append_record_locked io ty body w fb = (Inl (Write_Error m), poison_writer (io_close_fails io) w, fb)"
      "ensure_open w = Inr ()"
  | (torn) m k line h where "append_record_locked io ty body w fb =
        (Inl (Write_Error m), poison_writer (io_close_fails io) w, fb @ take k line)"
      "ensure_open w = Inr ()" "prepare_line (w_record_count w) (w_head w) ty body = Inr (line, h)"
      "line_budget (w_tracked_bytes w) (w_record_count w) ty (length line) = Inr ()"
      "w_record_count w = 0 \<longleftrightarrow> ty = lit ''header''" "w_record_count w < MAX_LEDGER_RECORDS"
  | (appended) line h where "append_record_locked io ty body w fb = (Inr (), appended w line h, fb @ line)"
      "ensure_open w = Inr ()" "prepare_line (w_record_count w) (w_head w) ty body = Inr (line, h)"
      "line_budget (w_tracked_bytes w) (w_record_count w) ty (length line) = Inr ()"
      "w_record_count w = 0 \<longleftrightarrow> ty = lit ''header''" "w_record_count w < MAX_LEDGER_RECORDS"
proof (cases "ensure_open w")
  case (Inl e)
  then show thesis by (intro rejected [of e]) (simp add: append_record_locked_def)
next
  case (Inr u)
  show thesis
  proof (cases "w_record_count w \<ge> MAX_LEDGER_RECORDS \<or> (w_record_count w = 0 \<and> ty \<noteq> lit ''header'')
      \<or> (w_record_count w \<noteq> 0 \<and> (ty = lit ''header'' \<or> w_head w = None))")
    case True
    then consider "w_record_count w \<ge> MAX_LEDGER_RECORDS"
      | "w_record_count w < MAX_LEDGER_RECORDS" "w_record_count w = 0" "ty \<noteq> lit ''header''"
      | "w_record_count w < MAX_LEDGER_RECORDS" "w_record_count w \<noteq> 0" "ty = lit ''header'' \<or> w_head w = None"
      by fastforce
    then show thesis
    proof cases
      case 1
      with Inr show thesis by (intro rejected) (simp add: append_record_locked_def)
    next
      case 2
      with Inr show thesis by (intro poisoned) (simp_all add: append_record_locked_def poison_def)
    next
      case 3
      with Inr show thesis by (intro poisoned) (simp_all add: append_record_locked_def poison_def)
    qed
  next
    case False
    note plain = append_record_locked_def
    show thesis
    proof (cases "prepare_line (w_record_count w) (w_head w) ty body")
      case (Inl e)
      with False Inr show thesis by (intro rejected [of e]) (auto simp: plain)
    next
      case (Inr x)
      obtain line h where x: "x = (line, h)" by (cases x)
      show thesis
      proof (cases "line_budget (w_tracked_bytes w) (w_record_count w) ty (length line)")
        case (Inl e)
        with False Inr \<open>ensure_open w = Inr u\<close> show thesis by (intro rejected [of e]) (auto simp: plain x)
      next
        case (Inr v)
        with False \<open>prepare_line _ _ _ _ = Inr x\<close> \<open>ensure_open w = Inr u\<close>
        have app: "append_record_locked io ty body w fb = write_line io line h w fb" by (auto simp: plain x)
        show thesis
          by (rule write_line_cases [where io = io and line = line and h = h and w = w])
            (use app Inr False \<open>prepare_line _ _ _ _ = Inr x\<close> \<open>ensure_open w = Inr u\<close> x in \<open>auto intro: torn appended\<close>)
      qed
    qed
  qed
qed

section \<open>The invariant\<close>

text \<open>The records a writer acknowledged: a chain, with the writer's counters and head.\<close>

definition acknowledged ::
  "pystr \<Rightarrow> (pystr \<times> json) list \<Rightarrow> chain_link list \<Rightarrow> writer \<Rightarrow> bool" where
  "acknowledged g es ls w \<longleftrightarrow>
     (es \<noteq> [] \<longrightarrow> compute_genesis_sha256 (snd (hd es)) = Inr g) \<and> links 0 g es = Inr ls
     \<and> (\<forall>(ty, body) \<in> set es. canonical_body body) \<and> links_ok 0 0 ls
     \<and> w_tracked_bytes w = length (chain_bytes ls) \<and> w_record_count w = length ls
     \<and> w_head w = (if ls = [] then None else Some (tip g ls))"

text \<open>Room for a closure: the byte and record reserve the append of an event keeps.\<close>

definition reserve :: "writer \<Rightarrow> bool" where
  "reserve w \<longleftrightarrow> w_tracked_bytes w + MAX_CLOSURE_LINE_BYTES \<le> MAX_LEDGER_BYTES
     \<and> w_record_count w + 1 \<le> MAX_LEDGER_RECORDS"

text \<open>What may lie behind them: part or all of the line of one more link.\<close>

definition leftover :: "pystr \<Rightarrow> chain_link list \<Rightarrow> bytes \<Rightarrow> bool" where
  "leftover g ls rest \<longleftrightarrow>
     (\<exists>ty body line h k. link (length ls) (tip g ls) ty body = Inr (line, h) \<and> canonical_body body
       \<and> links_ok 0 0 (ls @ [(ty, tip g ls, line, h)]) \<and> rest = take k line)"

definition writer_inv :: "writer \<Rightarrow> bytes \<Rightarrow> bool" where
  "writer_inv w file \<longleftrightarrow>
     (\<exists>g es ls rest. acknowledged g es ls w \<and> ls \<noteq> [] \<and> file = chain_bytes ls @ rest
       \<and> (rest \<noteq> [] \<longrightarrow> w_state w = ''poisoned'' \<and> leftover g ls rest)
       \<and> (w_state w = ''open'' \<longrightarrow> lit ''closure'' \<notin> link_type ` set ls \<and> reserve w \<and> 0 \<le> w_fd w)
       \<and> (w_state w \<noteq> ''open'' \<longrightarrow> w_fd w = - 1) \<and> w_file_identity w \<noteq> None
       \<and> w_state w \<in> {''open'', ''poisoned'', ''closed'', ''abandoned''})"

lemma closure_limit_le: "MAX_CLOSURE_LINE_BYTES \<le> MAX_EVENT_LINE_BYTES"
  by (simp add: MAX_CLOSURE_LINE_BYTES_def MAX_EVENT_LINE_BYTES_def)

lemma line_budget_iff:
  "line_budget n i ty m = Inr () \<longleftrightarrow>
    (if ty = lit ''closure'' then m \<le> MAX_CLOSURE_LINE_BYTES \<and> n + m \<le> MAX_LEDGER_BYTES
     else m \<le> MAX_EVENT_LINE_BYTES \<and> n + m + MAX_CLOSURE_LINE_BYTES \<le> MAX_LEDGER_BYTES \<and> i + 2 \<le> MAX_LEDGER_RECORDS)"
  by (auto simp: line_budget_def)

lemma append_extends:
  assumes ack: "acknowledged g es ls w" and no_closure: "lit ''closure'' \<notin> link_type ` set ls"
    and prep: "prepare_line (w_record_count w) (w_head w) ty body = Inr (line, h)"
    and budget: "line_budget (w_tracked_bytes w) (w_record_count w) ty (length line) = Inr ()"
    and header: "w_record_count w = 0 \<longleftrightarrow> ty = lit ''header''" and room: "w_record_count w < MAX_LEDGER_RECORDS"
    and body: "python_json body"
  obtains g' where "acknowledged g' es ls w" "acknowledged g' (es @ [(ty, canon body)]) (ls @ [(ty, tip g' ls, line, h)]) (appended w line h)"
    "link (length ls) (tip g' ls) ty (canon body) = Inr (line, h)"
proof -
  from ack have a: "es \<noteq> [] \<longrightarrow> compute_genesis_sha256 (snd (hd es)) = Inr g" "links 0 g es = Inr ls"
    "\<forall>(ty, body) \<in> set es. canonical_body body" "links_ok 0 0 ls" "w_tracked_bytes w = length (chain_bytes ls)"
    "w_record_count w = length ls" "w_head w = (if ls = [] then None else Some (tip g ls))"
    by (auto simp: acknowledged_def)
  have len: "length es = length ls" using links_length [OF a(2)] by simp
  from prep obtain p where p: "if length ls = 0 then compute_genesis_sha256 body = Inr p else w_head w = Some p"
    "link (length ls) p ty body = Inr (line, h)" by (auto simp: prepare_line_iff a(6))
  define g' where "g' = (if ls = [] then p else g)"
  have tip: "tip g' ls = p" using p(1) a(7) by (auto simp: g'_def split: if_splits)
  have links: "links 0 g' es = Inr ls" using a(2) len by (cases "ls = []") (auto simp: g'_def)
  have lk: "link (length ls) (tip g' ls) ty (canon body) = Inr (line, h)" using p(2) tip by (simp add: link_canon)
  have gen: "compute_genesis_sha256 (snd (hd (es @ [(ty, canon body)]))) = Inr g'"
    using a(1) len p(1) by (cases "ls = []") (auto simp: g'_def genesis_canon hd_append)
  have ok: "links_ok 0 0 (ls @ [(ty, tip g' ls, line, h)])"
    unfolding links_ok_snoc using a(4,5,6) no_closure budget header room closure_limit_le
    by (auto simp: line_budget_iff split: if_splits)
  have "links 0 g' (es @ [(ty, canon body)]) = Inr (ls @ [(ty, tip g' ls, line, h)])"
    using links_snoc [OF links] lk len by simp
  then have "acknowledged g' (es @ [(ty, canon body)]) (ls @ [(ty, tip g' ls, line, h)]) (appended w line h)"
    using gen ok a(3,5,6) body by (auto simp: acknowledged_def appended_def canonical_body_def)
  moreover have "acknowledged g' es ls w"
    using a links len gen by (cases "ls = []") (auto simp: acknowledged_def hd_append tip_def g'_def)
  ultimately show thesis using lk that by blast
qed

lemma ensure_open_iff: "ensure_open w = Inr () \<longleftrightarrow> w_state w = ''open'' \<and> 0 \<le> w_fd w"
  by (auto simp: ensure_open_def)

lemma poison_fields [simp]:
  "w_state (poison_writer b w) = ''poisoned''" "acknowledged g es ls (poison_writer b w) \<longleftrightarrow> acknowledged g es ls w"
  "w_tracked_bytes (poison_writer b w) = w_tracked_bytes w" "w_record_count (poison_writer b w) = w_record_count w"
  "w_head (poison_writer b w) = w_head w" "w_file_identity (poison_writer b w) = w_file_identity w"
  "w_fd (poison_writer b w) = - 1"
  by (simp_all add: poison_writer_def acknowledged_def)

lemma appended_fields [simp]:
  "w_state (appended w line h) = w_state w" "w_fd (appended w line h) = w_fd w"
  "w_file_identity (appended w line h) = w_file_identity w" "w_head (appended w line h) = Some h"
  by (simp_all add: appended_def)

text \<open>An append to a chain without a closure leaves a chain, and the reserve unless it closes it.\<close>

lemma append_keeps:
  assumes ack: "acknowledged g es ls w" and no_closure: "lit ''closure'' \<notin> link_type ` set ls"
    and identity: "w_file_identity w \<noteq> None" and body: "python_json body" and run: "append_record_locked io ty body w (chain_bytes ls) = (r, w', file')"
  shows "(w' = w \<and> file' = chain_bytes ls \<and> (\<exists>e. r = Inl e))
    \<or> (w_state w' = ''poisoned'' \<and> (\<exists>e. r = Inl e) \<and> (ls \<noteq> [] \<longrightarrow> writer_inv w' file'))
    \<or> (r = Inr () \<and> w_state w' = ''open'' \<and> 0 \<le> w_fd w' \<and> w_file_identity w' = w_file_identity w
       \<and> (\<exists>g' es' ls'. acknowledged g' es' ls' w' \<and> ls' \<noteq> [] \<and> file' = chain_bytes ls'
          \<and> link_type (last ls') = ty \<and> link_type ` set ls' = insert ty (link_type ` set ls)
          \<and> (ty \<noteq> lit ''closure'' \<longrightarrow> reserve w')))"
proof (cases rule: append_cases [where io = io and ty = ty and body = body and w = w and fb = "chain_bytes ls"])
  case (rejected e)
  with run show ?thesis by auto
next
  case (poisoned m)
  with run ack identity have "ls \<noteq> [] \<longrightarrow> writer_inv w' file'"
    by (auto simp: writer_inv_def intro!: exI [of _ g] exI [of _ es] exI [of _ ls])
  with poisoned run show ?thesis by auto
next
  case (torn m k line h)
  obtain g' where g': "acknowledged g' es ls w"
    "acknowledged g' (es @ [(ty, canon body)]) (ls @ [(ty, tip g' ls, line, h)]) (appended w line h)"
    "link (length ls) (tip g' ls) ty (canon body) = Inr (line, h)"
    by (rule append_extends [OF ack no_closure torn(3-6) body])
  then have "leftover g' ls (take k line)"
    using body unfolding leftover_def
    by (intro exI [of _ ty] exI [of _ "canon body"] exI [of _ line] exI [of _ h] exI [of _ k])
      (simp add: acknowledged_def canonical_body_def)
  with g'(1) have "ls \<noteq> [] \<longrightarrow> writer_inv (poison_writer (io_close_fails io) w) (chain_bytes ls @ take k line)"
    unfolding writer_inv_def using identity by (intro impI exI [of _ g'] exI [of _ es] exI [of _ ls] exI [of _ "take k line"]) simp
  with torn(1) run show ?thesis by auto
next
  case (appended line h)
  obtain g' where g': "acknowledged g' es ls w"
    "acknowledged g' (es @ [(ty, canon body)]) (ls @ [(ty, tip g' ls, line, h)]) (appended w line h)"
    by (rule append_extends [OF ack no_closure appended(3-6) body])
  have "ty \<noteq> lit ''closure'' \<longrightarrow> reserve (LedgerWriterInv.appended w line h)"
    using appended(4) by (auto simp: line_budget_iff reserve_def appended_def)
  moreover have "w' = LedgerWriterInv.appended w line h" "file' = chain_bytes (ls @ [(ty, tip g' ls, line, h)])" "r = Inr ()"
    using run appended(1) by simp_all
  moreover have "w_state w = ''open''" "0 \<le> w_fd w" using appended(2) by (simp_all add: ensure_open_iff)
  moreover have "link_type ` set (ls @ [(ty, tip g' ls, line, h)]) = insert ty (link_type ` set ls)" by simp
  moreover have "link_type (last (ls @ [(ty, tip g' ls, line, h)])) = ty" by simp
  ultimately show ?thesis using g'(2) by (metis LedgerWriterInv.appended_fields(1-3) snoc_eq_iff_butlast)
qed

section \<open>Every call keeps the invariant\<close>

lemma open_inv:
  assumes "writer_inv w file" "w_state w = ''open''"
  obtains g es ls where "acknowledged g es ls w" "ls \<noteq> []" "file = chain_bytes ls" "reserve w" "0 \<le> w_fd w"
    "lit ''closure'' \<notin> link_type ` set ls" "w_file_identity w \<noteq> None"
proof -
  from assms(1) obtain g es ls rest where a: "acknowledged g es ls w" "ls \<noteq> []" "file = chain_bytes ls @ rest"
    "rest \<noteq> [] \<longrightarrow> w_state w = ''poisoned'' \<and> leftover g ls rest"
    "w_state w = ''open'' \<longrightarrow> lit ''closure'' \<notin> link_type ` set ls \<and> reserve w \<and> 0 \<le> w_fd w" "w_file_identity w \<noteq> None"
    unfolding writer_inv_def by blast
  from a(4) assms(2) have "rest = []" by auto
  with a assms(2) show thesis by (intro that [of g es ls]) simp_all
qed

lemma open_invI:
  assumes "acknowledged g es ls w" "ls \<noteq> []" "reserve w" "0 \<le> w_fd w" "lit ''closure'' \<notin> link_type ` set ls"
    "w_file_identity w \<noteq> None" "w_state w = ''open''"
  shows "writer_inv w (chain_bytes ls)"
  unfolding writer_inv_def using assms by (intro exI [of _ g] exI [of _ es] exI [of _ ls] exI [of _ "[]"]) simp

lemma ended_inv:
  assumes "acknowledged g es ls w" "ls \<noteq> []" "w_file_identity w \<noteq> None"
    "s \<in> {''poisoned'', ''closed'', ''abandoned''}"
  shows "writer_inv (w\<lparr>w_fd := - 1, w_cleanup_fd := c, w_state := s\<rparr>) (chain_bytes ls)"
    and "writer_inv (w\<lparr>w_fd := - 1, w_state := s\<rparr>) (chain_bytes ls)"
proof -
  have "acknowledged g es ls (w\<lparr>w_fd := - 1, w_cleanup_fd := c, w_state := s\<rparr>)"
    "acknowledged g es ls (w\<lparr>w_fd := - 1, w_state := s\<rparr>)" using assms(1) by (simp_all add: acknowledged_def)
  with assms(2-4) show "writer_inv (w\<lparr>w_fd := - 1, w_cleanup_fd := c, w_state := s\<rparr>) (chain_bytes ls)"
    "writer_inv (w\<lparr>w_fd := - 1, w_state := s\<rparr>) (chain_bytes ls)"
    unfolding writer_inv_def
    by (intro exI [of _ g] exI [of _ es] exI [of _ ls] exI [of _ "[]"], auto)+
qed

text \<open>A writer that is not open changes nothing any more.\<close>

lemma append_not_open:
  assumes "w_state w \<noteq> ''open''"
  shows "append_record_locked io ty body w file =
    (Inl (Write_Error (''ledger writer is not appendable: '' @ w_state w)), w, file)"
  using assms by (simp add: append_record_locked_def ensure_open_def guardE_def)

lemma call_not_open:
  assumes "w_state w \<noteq> ''open''"
  shows "call_writer c (w, file) = (w, file)"
  using assms
  by (cases c) (simp_all add: call_writer_def append_event_def append_not_open close_with_closure_def
      abandon_unfinalized_def ensure_open_def guardE_def)

lemma event_not_special: "ty \<in> set EVENT_TYPES \<Longrightarrow> ty \<noteq> lit ''closure'' \<and> ty \<noteq> lit ''header''"
  by (auto simp: EVENT_TYPES_def)

lemma append_event_inv:
  assumes inv: "writer_inv w file" and body: "python_json body"
    and run: "append_event io ty body w file = (r, w', file')"
  shows "writer_inv w' file'"
proof (cases "w_state w = ''open'' \<and> ty \<in> set EVENT_TYPES")
  case False
  with inv run show ?thesis by (auto simp: append_event_def append_not_open split: if_splits)
next
  case True
  with event_not_special have ty: "ty \<noteq> lit ''closure''" by blast
  obtain g es ls where w: "acknowledged g es ls w" "ls \<noteq> []" "file = chain_bytes ls"
    "lit ''closure'' \<notin> link_type ` set ls" "w_file_identity w \<noteq> None"
    by (rule open_inv [OF inv]) (use True in auto)
  from run True obtain q where q: "append_record_locked io ty body w (chain_bytes ls) = (q, w', file')"
    by (auto simp: append_event_def w(3) split: prod.splits sum.splits)
  from append_keeps [OF w(1,4,5) body q] show ?thesis
  proof (elim disjE conjE exE)
    assume "w' = w" "file' = chain_bytes ls"
    with inv w(3) show ?thesis by simp
  next
    assume "ls \<noteq> [] \<longrightarrow> writer_inv w' file'"
    with w(2) show ?thesis by blast
  next
    fix g' es' ls'
    assume "w_state w' = ''open''" "0 \<le> w_fd w'" "w_file_identity w' = w_file_identity w" "acknowledged g' es' ls' w'"
      "ls' \<noteq> []" "file' = chain_bytes ls'" "link_type ` set ls' = insert ty (link_type ` set ls)"
      "ty \<noteq> lit ''closure'' \<longrightarrow> reserve w'"
    with ty w(4,5) show ?thesis by (auto intro!: open_invI)
  qed
qed

lemma close_inv:
  assumes inv: "writer_inv w file" and body: "python_json body"
    and run: "close_with_closure io close_fails rescan body w file = (r, w', file')"
  shows "writer_inv w' file'"
proof (cases "w_state w = ''open''")
  case False
  with inv run show ?thesis by (simp add: close_with_closure_def append_not_open)
next
  case True
  obtain g es ls where w: "acknowledged g es ls w" "ls \<noteq> []" "file = chain_bytes ls"
    "lit ''closure'' \<notin> link_type ` set ls" "w_file_identity w \<noteq> None"
    by (rule open_inv [OF inv True]) auto
  obtain q wq fq where q: "append_record_locked io (lit ''closure'') body w (chain_bytes ls) = (q, wq, fq)"
    by (metis prod_cases3)
  from append_keeps [OF w(1,4,5) body q] show ?thesis
  proof (elim disjE conjE exE)
    fix e
    assume "wq = w" "fq = chain_bytes ls" "q = Inl e"
    with inv w(3) run q show ?thesis by (simp add: close_with_closure_def)
  next
    fix e
    assume "ls \<noteq> [] \<longrightarrow> writer_inv wq fq" "q = Inl e"
    with w(2,3) run q show ?thesis by (simp add: close_with_closure_def)
  next
    fix g' es' ls'
    assume a: "q = Inr ()" "w_file_identity wq = w_file_identity w" "acknowledged g' es' ls' wq" "ls' \<noteq> []"
      "fq = chain_bytes ls'"
    then have id: "w_file_identity wq \<noteq> None" using w(5) by simp
    from a(1) q id run w(3) have file': "file' = fq"
      and w': "(\<exists>c s. w' = wq\<lparr>w_fd := - 1, w_cleanup_fd := c, w_state := s\<rparr> \<and> s \<in> {''poisoned''})
        \<or> (\<exists>s. w' = wq\<lparr>w_fd := - 1, w_state := s\<rparr> \<and> s \<in> {''poisoned'', ''closed''})"
      by (auto simp: close_with_closure_def Let_def split: if_splits sum.splits attest_error.splits)
    from w' ended_inv [OF a(3,4) id] show ?thesis unfolding file' a(5) by auto
  qed
qed

lemma abandon_inv:
  assumes "writer_inv w file" "abandon_unfinalized close_fails w file = (r, w', file')"
  shows "writer_inv w' file'"
proof (cases "w_state w = ''open''")
  case False
  with assms show ?thesis by (simp add: abandon_unfinalized_def ensure_open_def guardE_def)
next
  case True
  obtain g es ls where w: "acknowledged g es ls w" "ls \<noteq> []" "file = chain_bytes ls" "0 \<le> w_fd w" "w_file_identity w \<noteq> None"
    by (rule open_inv [OF assms(1) True]) auto
  with True have "ensure_open w = Inr ()" by (simp add: ensure_open_iff)
  with assms(2) have "file' = file" "w' = w\<lparr>w_fd := - 1, w_cleanup_fd := w_fd w, w_state := ''poisoned''\<rparr>
      \<or> w' = w\<lparr>w_fd := - 1, w_state := ''abandoned''\<rparr>"
    by (auto simp: abandon_unfinalized_def split: if_splits)
  with ended_inv [OF w(1,2,5)] show ?thesis by (auto simp: w(3))
qed

lemma create_inv:
  assumes "create_writer opened identity io body = (Inr w, file)" "python_json body"
  shows "writer_inv w file"
proof -
  from assms(1) obtain fd i where run: "append_record_locked io (lit ''header'') body (new_writer fd i) [] = (Inr (), w, file)"
    by (auto simp: create_writer_def split: sum.splits prod.splits)
  have ack: "acknowledged [] [] [] (new_writer fd i)" by (simp add: acknowledged_def new_writer_def)
  from append_keeps [OF ack _ _ assms(2), of io "lit ''header''" "Inr ()"] run
  obtain g es ls where "w_state w = ''open''" "0 \<le> w_fd w" "w_file_identity w \<noteq> None" "acknowledged g es ls w" "ls \<noteq> []"
    "file = chain_bytes ls" "link_type ` set ls = {lit ''header''}" "reserve w"
    by (auto simp: new_writer_def)
  moreover have "lit ''closure'' \<notin> {lit ''header''}" by simp
  ultimately show ?thesis by (metis open_invI)
qed

theorem writer_reach_inv: "writer_reach w file \<Longrightarrow> writer_inv w file"
proof (induction rule: writer_reach.induct)
  case (created opened identity io body w fb)
  then show ?case by (rule create_inv)
next
  case (called w fb c w' fb')
  show ?case
  proof (cases c)
    case (Append io ty body)
    with called.hyps show ?thesis
      by (intro append_event_inv [OF called.IH, of body io ty "fst (append_event io ty body w fb)"])
        (simp_all add: call_writer_def python_call_def prod_eq_iff)
  next
    case (Close io b env body)
    with called.hyps show ?thesis
      by (intro close_inv [OF called.IH, of body io b env "fst (close_with_closure io b env body w fb)"])
        (simp_all add: call_writer_def python_call_def prod_eq_iff)
  next
    case (Abandon b)
    with called.hyps show ?thesis
      by (intro abandon_inv [OF called.IH, of b "fst (abandon_unfinalized b w fb)"])
        (simp_all add: call_writer_def python_call_def prod_eq_iff)
  qed
qed

end
