(* ===== verification/LedgerClose.thy ===== *)
theory LedgerClose
  imports LedgerWriterInv LedgerAscii
begin

text \<open>
  A record with an empty body always fits: its text is ASCII and short. So the reserve the
  writer keeps is enough for a closure, and an open writer can be closed.
\<close>

section \<open>Lengths\<close>

lemma escape_length: "length (escape c) \<le> 6"
  by (simp add: escape_def)

lemma quoted_length: "length (quoted s) \<le> 6 * length s + 2"
proof -
  have "length (concat (map escape s)) \<le> 6 * length s"
    by (induction s) (auto intro: add_mono escape_length)
  then show ?thesis by (simp add: quoted_def)
qed

definition member_size :: "pystr \<times> json \<Rightarrow> nat" where
  "member_size m = 6 * length (fst m) + length (dumps (snd m)) + 4"

lemma object_length: "length (dumps (JObj kvs)) \<le> 2 + sum_list (map member_size kvs)"
proof -
  have join: "length (comma_join xs) \<le> sum_list (map (\<lambda>x. length x + 1) xs)" for xs
    by (induction xs rule: comma_join.induct) auto
  have "length (dumps (JObj kvs)) \<le> 2 + sum_list (map (\<lambda>x. length x + 1)
      (map (\<lambda>(k, v). quoted k @ colon # dumps v) (sort_key fst kvs)))"
    using join [of "map (\<lambda>(k, v). quoted k @ colon # dumps v) (sort_key fst kvs)"] by simp
  also have "\<dots> \<le> 2 + sum_list (map member_size (sort_key fst kvs))"
    using quoted_length
    by (auto intro!: sum_list_mono simp: member_size_def comp_def case_prod_unfold add.assoc)
  also have "sum_list (map member_size (sort_key fst kvs)) = sum_list (map member_size kvs)"
    by (metis mset_map mset_sort sum_mset_sum_list)
  finally show ?thesis .
qed

lemma string_length: "length (dumps (JStr s)) \<le> 6 * length s + 2"
  using quoted_length by simp

lemma number_length: "n < 10000 \<Longrightarrow> length (dumps (JInt (int n))) \<le> 4"
  using dec_nat_length [of n 4] by (simp add: decimal_def)

section \<open>A record with an empty body\<close>

lemma type_asc: "ty \<in> set RECORD_TYPES \<Longrightarrow> list_all asc ty \<and> length ty \<le> 15"
  by (auto simp: RECORD_TYPES_def EVENT_TYPES_def lit_def asc_def)

lemma empty_core:
  assumes "hex64 p" "hex64 h" "ty \<in> set RECORD_TYPES" "i < 10000"
  shows "\<exists>b. canonical_json_bytes (JObj (core_fields (int i) ty p (JObj []))) = Inr b \<and> length b \<le> 4000"
    and "\<exists>b. canonical_json_bytes (JObj (record_fields (int i) ty p (JObj []) h)) = Inr b \<and> length b \<le> 4000"
proof -
  have strings: "list_all asc p" "list_all asc h" "list_all asc ty" "list_all asc LEDGER_RECORD_SCHEMA"
    "length p = 64" "length h = 64" "length ty \<le> 15" "length LEDGER_RECORD_SCHEMA = 45"
    using assms(1-3) hex_asc [of p] hex_asc [of h] type_asc [of ty]
    by (simp_all add: hex64_def) (simp_all add: LEDGER_RECORD_SCHEMA_def lit_def asc_def)
  have keys: "list_all asc (lit ''schema_version'')" "list_all asc (lit ''record_index'')" "list_all asc (lit ''record_type'')"
    "list_all asc (lit ''previous_record_sha256'')" "list_all asc (lit ''body'')" "list_all asc (lit ''record_sha256'')"
    by (simp_all add: lit_def asc_def)
  have empty: "list_all asc (dumps (JObj []))" "length (dumps (JObj [])) = 2" by simp_all
  have asc: "list_all asc (dumps (JObj (core_fields (int i) ty p (JObj []))))"
    "list_all asc (dumps (JObj (record_fields (int i) ty p (JObj []) h)))"
    unfolding object_asc core_fields_def record_fields_def
    by (simp_all add: strings(1-4) keys empty string_asc number_asc del: dumps.simps)
  have ok: "validate_string t = Inr ()" if "list_all asc t" "length t \<le> 64" for t
    using that by (intro asc_valid) (simp_all add: MAX_STRING_UTF8_BYTES_def)
  have "int64 (int i)" using assms(4) by (simp add: int64_def MIN_SIGNED_64_def MAX_SIGNED_64_def)
  then have valid: "validate_json_value 0 (JObj (core_fields (int i) ty p (JObj []))) = Inr ()"
    "validate_json_value 0 (JObj (record_fields (int i) ty p (JObj []) h)) = Inr ()"
    unfolding valid_object_iff core_fields_def record_fields_def using strings keys
    by (simp_all add: ok MAX_JSON_DEPTH_def MAX_CONTAINER_MEMBERS_def)
  have len: "length (dumps (JObj (core_fields (int i) ty p (JObj [])))) \<le> 4000"
    "length (dumps (JObj (record_fields (int i) ty p (JObj []) h))) \<le> 4000"
    using object_length [of "core_fields (int i) ty p (JObj [])"] object_length [of "record_fields (int i) ty p (JObj []) h"]
      number_length [OF assms(4)] string_length [of p] string_length [of h] string_length [of ty]
      string_length [of LEDGER_RECORD_SCHEMA] empty(2) strings(5-8)
    by (simp_all add: core_fields_def record_fields_def member_size_def del: dumps.simps)
  show "\<exists>b. canonical_json_bytes (JObj (core_fields (int i) ty p (JObj []))) = Inr b \<and> length b \<le> 4000"
    "\<exists>b. canonical_json_bytes (JObj (record_fields (int i) ty p (JObj []) h)) = Inr b \<and> length b \<le> 4000"
    using valid len asc_utf8 [OF asc(1)] asc_utf8 [OF asc(2)] by (simp_all add: canonical_bytes_eq)
qed

lemma empty_link:
  assumes "hex64 p" "ty \<in> set RECORD_TYPES" "i < 10000"
  obtains line h where "link i p ty (JObj []) = Inr (line, h)" "length line \<le> MAX_CLOSURE_LINE_BYTES"
proof -
  obtain b where b: "canonical_json_bytes (JObj (core_fields (int i) ty p (JObj []))) = Inr b" "length b \<le> 4000"
    using empty_core(1) [OF assms(1,1,2,3)] by blast
  then obtain h where h: "framed_hash RECORD_DOMAIN b = Inr h" by (auto simp: framed_hash_def)
  have "int i \<le> MAX_SIGNED_64" "validate_json_value 0 (JObj []) = Inr ()"
    using assms(3) by (simp_all add: MAX_SIGNED_64_def MAX_JSON_DEPTH_def)
  with assms b h have digest: "compute_record_sha256 (int i) ty p (JObj []) = Inr h"
    by (auto simp: compute_record_iff record_core_iff)
  obtain c where c: "canonical_json_bytes (JObj (record_fields (int i) ty p (JObj []) h)) = Inr c" "length c \<le> 4000"
    using empty_core(2) [OF assms(1) framed_hash_hex [OF h] assms(2,3)] by blast
  show thesis
    by (rule that [of "c @ [10]" h]) (use digest c in \<open>simp_all add: link_iff MAX_CLOSURE_LINE_BYTES_def\<close>)
qed

end
