(* ===== verification/LedgerProps.thy ===== *)
theory LedgerProps
  imports LedgerClose
begin

text \<open>
  The properties of \<^verbatim>\<open>evals/uprime_rpc_ledger.py\<close>: canonical JSON, the scanner, the attestation
  and the writer.
\<close>

section \<open>A scan that nothing disturbs\<close>

text \<open>\<open>reads_file env fb i\<close>: the system answers as for a file with the bytes \<open>fb\<close> that nobody changes.\<close>

definition reads_file :: "scan_env \<Rightarrow> bytes \<Rightarrow> (int \<times> int) option \<Rightarrow> bool" where
  "reads_file env fb identity \<longleftrightarrow>
     (let v = se_view env; s = fv_initial v in
      se_open_error env = None \<and> se_stat_error env = None \<and> se_read_error env = None \<and> se_close_error env = None
      \<and> fv_first_read v = fb \<and> fv_second_read v = fb \<and> st_size s = length fb
      \<and> fv_first_final v = s \<and> fv_second_final v = s \<and> se_restat env = Inr s
      \<and> (identity \<noteq> None \<longrightarrow> Some (stat_identity s) = identity))"

definition steady_env :: "bytes \<Rightarrow> scan_env" where
  "steady_env fb =
     (let s = \<lparr>st_dev = 1, st_ino = 2, st_ctime_ns = 3, st_size = length fb, st_mtime_ns = 4\<rparr> in
      \<lparr>se_open_error = None, se_stat_error = None, se_read_error = None,
       se_view = \<lparr>fv_initial = s, fv_first_read = fb, fv_first_final = s, fv_second_read = fb, fv_second_final = s\<rparr>,
       se_close_error = None, se_restat = Inr s\<rparr>)"

lemma steady_reads: "reads_file (steady_env fb) fb None" "reads_file (steady_env fb) fb (Some (1, 2))"
  by (simp_all add: reads_file_def steady_env_def Let_def stat_identity_def)

lemma links_ok_bytes: "links_ok i n ls \<Longrightarrow> n \<le> MAX_LEDGER_BYTES \<Longrightarrow> n + length (chain_bytes ls) \<le> MAX_LEDGER_BYTES"
  by (induction i n ls rule: links_ok.induct) (auto simp: add.assoc)

lemma undisturbed_scan:
  assumes "reads_file env fb identity" "\<And>n. scan_lines n scan_start fb = Inr st" "sc_digest st = fb"
    "sc_total st = length fb" "length fb \<le> MAX_LEDGER_BYTES"
  shows "scan_chain env identity retain =
    scan_outcome st (if sc_index st = 0 \<or> \<not> sc_closure_seen st then ''unclosed'' else ''closed_chain'')
      (Some (lit (sha256_hex fb))) (length fb) None (if retain then Some (sc_retained st) else None)"
proof -
  from assms(1) have env: "se_open_error env = None" "se_stat_error env = None" "se_read_error env = None"
    "se_close_error env = None" "fv_first_read (se_view env) = fb" "fv_second_read (se_view env) = fb"
    "st_size (fv_initial (se_view env)) = length fb" "fv_first_final (se_view env) = fv_initial (se_view env)"
    "fv_second_final (se_view env) = fv_initial (se_view env)" "se_restat env = Inr (fv_initial (se_view env))"
    "\<not> (identity \<noteq> None \<and> Some (stat_identity (fv_initial (se_view env))) \<noteq> identity)"
    by (auto simp: reads_file_def Let_def)
  let ?r = "scan_outcome st (if sc_index st = 0 \<or> \<not> sc_closure_seen st then ''unclosed'' else ''closed_chain'')
      (Some (lit (sha256_hex fb))) (length fb) None (if retain then Some (sc_retained st) else None)"
  have "scan_open_handle (se_view env) retain = ?r"
    using assms(2-5) by (simp add: scan_open_handle_def env Let_def)
  moreover have "sr_status ?r \<in> {''closed_chain'', ''unclosed''}" by (simp add: scan_outcome_def)
  ultimately show ?thesis by (simp only: scan_chain_def env Let_def option.case sum.case if_True if_False) simp
qed

lemma chain_scan:
  assumes "ledger_links es = Inr ls" "\<forall>(ty, body) \<in> set es. canonical_body body" "links_ok 0 0 ls"
  shows "scan_lines n scan_start (chain_bytes ls) = Inr (chain_state ls)"
  using assms by (auto simp: scan_lines_iff)

text \<open>The genesis, header and closure digests of a chain.\<close>

lemma chain_state_first:
  "ls \<noteq> [] \<Longrightarrow> (\<exists>g. sc_genesis (chain_state ls) = Some g) \<and> (\<exists>g. sc_header_hash (chain_state ls) = Some g)"
proof (induction ls rule: rev_induct)
  case (snoc l ls)
  obtain ty p line h where l: "l = (ty, p, line, h)" by (cases l)
  have "sc_index (chain_state ls) = length ls" by simp
  with snoc show ?case by (cases "ls = []") (auto simp: chain_state_def l after_link_def scan_start_def)
qed simp

lemma chain_state_closure:
  "lit ''closure'' \<in> link_type ` set ls \<Longrightarrow>
    (\<exists>h. sc_closure_hash (chain_state ls) = Some h) \<and> (\<exists>i. sc_closure_index (chain_state ls) = Some i)"
proof (induction ls rule: rev_induct)
  case (snoc l ls)
  obtain ty p line h where l: "l = (ty, p, line, h)" by (cases l)
  from snoc show ?case by (auto simp: chain_state_def l after_link_def)
qed simp

lemma closed_chain_attested:
  assumes "reads_file env (chain_bytes ls) identity" "ledger_links es = Inr ls"
    "\<forall>(ty, body) \<in> set es. canonical_body body" "links_ok 0 0 ls" "lit ''closure'' \<in> link_type ` set ls"
  obtains a where "attestation_from_scan (scan_chain env identity False) = Inr a"
    "at_final_chain_head a = link_digest (last ls)" "at_record_count a = length ls"
    "at_input_bytes a = length (chain_bytes ls)"
proof -
  have ne: "ls \<noteq> []" using assms(5) by auto
  have "length (chain_bytes ls) \<le> MAX_LEDGER_BYTES" using links_ok_bytes [OF assms(4)] by simp
  with undisturbed_scan [OF assms(1) chain_scan [OF assms(2-4)]] assms(5) ne
  have scan: "scan_chain env identity False = scan_outcome (chain_state ls) ''closed_chain''
      (Some (lit (sha256_hex (chain_bytes ls)))) (length (chain_bytes ls)) None None" by auto
  obtain g hh ch ci where "sc_genesis (chain_state ls) = Some g" "sc_header_hash (chain_state ls) = Some hh"
    "sc_closure_hash (chain_state ls) = Some ch" "sc_closure_index (chain_state ls) = Some ci"
    using chain_state_first [OF ne] chain_state_closure [OF assms(5)] by blast
  then show thesis using ne that by (simp add: attestation_from_scan_def scan scan_outcome_def)
qed

section \<open>System calls that succeed\<close>

definition io_succeeds :: "append_io \<Rightarrow> nat \<Rightarrow> nat \<Rightarrow> bool" where
  "io_succeeds io n m \<longleftrightarrow> io_before io = Inr (n, n) \<and> io_write io = Inr m \<and> io_fsync io = Inr ()
     \<and> io_after io = Inr (n + m, n + m)"

definition steady_io :: "nat \<Rightarrow> nat \<Rightarrow> append_io" where
  "steady_io n m = \<lparr>io_before = Inr (n, n), io_write = Inr m, io_fsync = Inr (), io_after = Inr (n + m, n + m),
     io_close_fails = False\<rparr>"

lemma steady_succeeds: "io_succeeds (steady_io n m) n m"
  by (simp add: io_succeeds_def steady_io_def)

lemma append_succeeds:
  assumes "ensure_open w = Inr ()" "w_record_count w < MAX_LEDGER_RECORDS"
    "w_record_count w = 0 \<longleftrightarrow> ty = lit ''header''" "w_record_count w \<noteq> 0 \<longrightarrow> w_head w \<noteq> None"
    "prepare_line (w_record_count w) (w_head w) ty body = Inr (line, h)"
    "line_budget (w_tracked_bytes w) (w_record_count w) ty (length line) = Inr ()"
    "io_succeeds io (w_tracked_bytes w) (length line)"
  shows "append_record_locked io ty body w fb = (Inr (), appended w line h, fb @ line)"
  using assms by (auto simp: append_record_locked_def write_line_def io_succeeds_def appended_def)

lemma tip_hex: "links i p es = Inr ls \<Longrightarrow> ls \<noteq> [] \<Longrightarrow> hex64 (tip p ls)"
proof (induction es arbitrary: i p ls)
  case (Cons e es)
  obtain ty body where e: "e = (ty, body)" by (cases e)
  from Cons.prems(1) obtain line h ls' where lk: "link i p ty body = Inr (line, h)"
    and rest: "links (Suc i) h es = Inr ls'" and ls: "ls = (ty, p, line, h) # ls'"
    by (auto simp: e bindE_eq_Inr)
  from lk have "hex64 h" by (auto simp: link_iff compute_record_iff dest: framed_hash_hex)
  with Cons.IH [OF rest] show ?case by (cases "ls' = []") (simp_all add: ls)
qed simp

lemma empty_python: "python_json (JObj [])"
  by (simp add: python_json_def in_unicode_def)

lemma empty_closure_fits:
  assumes "writer_inv w fb" "w_state w = ''open''"
  obtains line h where "prepare_line (w_record_count w) (w_head w) (lit ''closure'') (JObj []) = Inr (line, h)"
    "length line \<le> MAX_CLOSURE_LINE_BYTES"
proof -
  obtain g es ls where a: "acknowledged g es ls w" "ls \<noteq> []" "reserve w"
    by (rule open_inv [OF assms]) auto
  then have "hex64 (tip g ls)" by (auto simp: acknowledged_def intro: tip_hex)
  moreover have "lit ''closure'' \<in> set RECORD_TYPES" by (simp add: RECORD_TYPES_def)
  moreover have "w_record_count w < 10000" using a(3) by (simp add: reserve_def MAX_LEDGER_RECORDS_def)
  ultimately obtain line h where "link (w_record_count w) (tip g ls) (lit ''closure'') (JObj []) = Inr (line, h)"
    "length line \<le> MAX_CLOSURE_LINE_BYTES" by (rule empty_link)
  with a show thesis by (intro that [of line h]) (auto simp: prepare_line_iff acknowledged_def)
qed

lemma append_identity:
  "append_record_locked io ty body w fb = (r, w', fb') \<Longrightarrow> w_file_identity w' = w_file_identity w"
  by (rule append_cases [where io = io and ty = ty and body = body and w = w and fb = fb]) auto

definition closed_writer :: "writer \<Rightarrow> bytes \<Rightarrow> pystr \<Rightarrow> writer" where
  "closed_writer w line h = (appended w line h)\<lparr>w_fd := - 1, w_state := ''closed''\<rparr>"

lemma close_succeeds:
  assumes inv: "writer_inv w fb" and st: "w_state w = ''open''" and body: "python_json body"
    and prep: "prepare_line (w_record_count w) (w_head w) (lit ''closure'') body = Inr (line, h)"
    and len: "length line \<le> MAX_CLOSURE_LINE_BYTES"
    and io: "io_succeeds io (length fb) (length line)" and env: "reads_file env (fb @ line) (w_file_identity w)"
  obtains a where "close_with_closure io False env body w fb = (Inr a, closed_writer w line h, fb @ line)"
    "at_final_chain_head a = h" "at_record_count a = w_record_count w + 1" "at_input_bytes a = length fb + length line"
proof -
  obtain g es ls where w: "acknowledged g es ls w" "ls \<noteq> []" "fb = chain_bytes ls" "reserve w" "0 \<le> w_fd w"
    "lit ''closure'' \<notin> link_type ` set ls" "w_file_identity w \<noteq> None"
    by (rule open_inv [OF inv st])
  from w(1) have c: "w_record_count w = length ls" "w_tracked_bytes w = length fb" "w_head w \<noteq> None"
    using w(2,3) by (simp_all add: acknowledged_def)
  have budget: "line_budget (w_tracked_bytes w) (w_record_count w) (lit ''closure'') (length line) = Inr ()"
    using len w(4) by (simp add: line_budget_iff reserve_def)
  have room: "w_record_count w < MAX_LEDGER_RECORDS" using w(4) by (simp add: reserve_def)
  have zero: "w_record_count w = 0 \<longleftrightarrow> lit ''closure'' = lit ''header''" using w(2) c(1) by simp
  have app: "append_record_locked io (lit ''closure'') body w fb = (Inr (), appended w line h, fb @ line)"
    by (rule append_succeeds) (use st w(5) room zero c prep budget io in \<open>simp_all add: ensure_open_iff\<close>)
  obtain g' where g': "acknowledged g' (es @ [(lit ''closure'', canon body)])
      (ls @ [(lit ''closure'', tip g' ls, line, h)]) (appended w line h)"
    by (rule append_extends [OF w(1,6) prep budget zero room body])
  let ?ls = "ls @ [(lit ''closure'', tip g' ls, line, h)]" and ?es = "es @ [(lit ''closure'', canon body)]"
  have fb: "fb @ line = chain_bytes ?ls" by (simp add: w(3))
  have links: "ledger_links ?es = Inr ?ls" using g' by (cases es) (auto simp: acknowledged_def ledger_links_def)
  obtain a where a: "attestation_from_scan (scan_chain env (w_file_identity w) False) = Inr a"
    "at_final_chain_head a = h" "at_record_count a = length ?ls" "at_input_bytes a = length (chain_bytes ?ls)"
    by (rule closed_chain_attested [OF env [unfolded fb] links]) (use g' in \<open>simp_all add: acknowledged_def\<close>)
  have "close_with_closure io False env body w fb = (Inr a, closed_writer w line h, fb @ line)"
  proof -
    have n: "at_input_bytes a = length fb + length line" "at_record_count a = Suc (w_record_count w)"
      using a(3,4) c(1) by (simp_all add: w(3))
    have "w_tracked_bytes (appended w line h) = length fb + length line"
      "w_record_count (appended w line h) = Suc (w_record_count w)" using c(2) by (simp_all add: appended_def)
    then show ?thesis using w(7) a(1,2) n by (simp add: close_with_closure_def app closed_writer_def Let_def)
  qed
  then show thesis using a c by (intro that) (simp_all add: w(3))
qed

lemma created_writer:
  obtains line h g where "compute_genesis_sha256 (JObj []) = Inr g"
    "create_writer (Inr 5) (Inr (1, 2)) (steady_io 0 (length line)) (JObj [])
      = (Inr (appended (new_writer 5 (1, 2)) line h), line)"
    "prepare_line 0 None (lit ''header'') (JObj []) = Inr (line, h)" "length line \<le> MAX_CLOSURE_LINE_BYTES"
proof -
  have "canonical_json_bytes (JObj []) = Inr (utf8_raw (dumps (JObj [])))" "length (utf8_raw (dumps (JObj []))) = 2"
    using asc_utf8 [of "dumps (JObj [])"] by (simp_all add: canonical_bytes_eq MAX_JSON_DEPTH_def)
  then obtain g where g: "compute_genesis_sha256 (JObj []) = Inr g"
    by (auto simp: compute_genesis_sha256_def framed_hash_def)
  have hd: "lit ''header'' \<in> set RECORD_TYPES" "(0 :: nat) < 10000" by (simp_all add: RECORD_TYPES_def)
  obtain line h where lk: "link 0 g (lit ''header'') (JObj []) = Inr (line, h)" "length line \<le> MAX_CLOSURE_LINE_BYTES"
    by (rule empty_link [OF genesis_hex [OF g] hd])
  have prep: "prepare_line 0 None (lit ''header'') (JObj []) = Inr (line, h)" using g lk(1) by (auto simp: prepare_line_iff)
  have budget: "line_budget 0 0 (lit ''header'') (length line) = Inr ()"
    using lk(2) closure_limit_le
    by (simp add: line_budget_iff) (simp add: MAX_CLOSURE_LINE_BYTES_def MAX_LEDGER_BYTES_def MAX_LEDGER_RECORDS_def)
  have "append_record_locked (steady_io 0 (length line)) (lit ''header'') (JObj []) (new_writer 5 (1, 2)) []
      = (Inr (), appended (new_writer 5 (1, 2)) line h, [] @ line)"
    by (rule append_succeeds)
      (use prep budget steady_succeeds [of 0 "length line"] in
        \<open>simp_all add: new_writer_def ensure_open_iff MAX_LEDGER_RECORDS_def\<close>)
  then show thesis using g prep lk(2) by (intro that [of g line h]) (simp_all add: create_writer_def)
qed

section \<open>Properties\<close>

text \<open>
  C21. Canonical JSON round trips, and nothing else is accepted: the strict parser returns a value
  exactly for the bytes the canonicalizer writes for it, and the value it returns is in canonical
  key order, holds each key once and only code points.
\<close>

theorem canonical_json_round_trip:
  "parse_canonical_json_bytes b = Inr v \<longleftrightarrow> canonical_json_bytes v = Inr b \<and> canon v = v \<and> python_json v"
  by (rule parse_canonical_python_iff)

definition canonical_entries :: "(pystr \<times> json) list \<Rightarrow> bool" where
  "canonical_entries es \<longleftrightarrow> list_all (\<lambda>(ty, body). canonical_body body) es"

text \<open>
  C22. The scanner is a decision procedure for chains: it reaches the end of a file exactly when
  the file is the concatenation of the lines that chaining some list of typed canonical bodies
  produces, within the limits and with header and closure in their places, and its local
  variables are then the ones that chain determines.
\<close>

theorem scanner_accepts_exactly_chains:
  "scan_lines n scan_start bs = Inr st \<longleftrightarrow>
    (\<exists>es ls. ledger_links es = Inr ls \<and> canonical_entries es \<and> links_ok 0 0 ls \<and> bs = chain_bytes ls
      \<and> st = chain_state ls)"
  by (simp only: scan_lines_iff canonical_entries_def list_all_iff)

lemma attested_lines:
  assumes "attest_standalone_closed_chain env = Inr a"
  obtains st where "scan_lines (st_size (fv_initial (se_view env))) scan_start (fv_first_read (se_view env)) = Inr st"
    "sc_head st = Some (at_final_chain_head a)"
proof -
  let ?r = "scan_chain env None False"
  from assms have r: "sr_status ?r = ''closed_chain''" "sr_head ?r = Some (at_final_chain_head a)"
    by (auto simp: attest_standalone_closed_chain_def attestation_from_scan_def split: if_splits option.splits)
  have er: "sr_status (scan_error c n) \<noteq> ''closed_chain''" for c n by (simp add: scan_error_def)
  from r(1) have handle: "?r = scan_open_handle (se_view env) False"
    by (auto simp: scan_chain_def er Let_def split: option.splits if_splits sum.splits)
  show thesis
  proof (cases "scan_lines (st_size (fv_initial (se_view env))) scan_start (fv_first_read (se_view env))")
    case (Inl q)
    have failed: "sr_status q \<noteq> ''closed_chain''" if "scan_lines n s bs = Inl q" for n s bs
      using that
    proof (induction n s bs rule: scan_lines.induct)
      case (1 n s bs)
      then have ne: "bs \<noteq> []" by auto
      have line: "sr_status q \<noteq> ''closed_chain''" if "scan_line n s raw = Inl q" for raw
        using that by (auto simp: scan_line_def accept_record_def scan_failed_def scan_outcome_def Let_def
            split: if_splits sum.splits)
      from 1(2) ne have "scan_line n s (fst (readline (MAX_EVENT_LINE_BYTES + 1) bs)) = Inl q
          \<or> (\<exists>s'. scan_line n s (fst (readline (MAX_EVENT_LINE_BYTES + 1) bs)) = Inr s'
            \<and> scan_lines n s' (snd (readline (MAX_EVENT_LINE_BYTES + 1) bs)) = Inl q)"
        by (simp add: scan_lines_step bindE_eq_Inl)
      with line 1(1) [OF ne] show ?case by blast
    qed
    with Inl r(1) handle er show thesis by (auto simp: scan_open_handle_def split: if_splits)
  next
    case (Inr st)
    with r handle show thesis
      by (intro that [OF Inr]) (auto simp: scan_open_handle_def scan_error_def scan_failed_def scan_outcome_def Let_def
          split: if_splits)
  qed
qed

definition env_file :: "scan_env \<Rightarrow> bytes" where
  "env_file env = fv_first_read (se_view env)"

definition hashed_strings :: "scan_env \<Rightarrow> bytes list" where
  "hashed_strings env =
     (case scan_lines (st_size (fv_initial (se_view env))) scan_start (env_file env) of
        Inr st \<Rightarrow> file_preimages st
      | Inl _ \<Rightarrow> [])"

text \<open>
  C23. Attestations are tamper evident: two attested files with the same final head are the same
  file byte for byte, unless one of the strings hashed for a record of the first and one of those
  hashed for a record of the second are a SHA-256 collision. Whatever the system answered to the
  two scans.
\<close>

theorem attested_head_determines_file:
  assumes "attest_standalone_closed_chain env = Inr a" "attest_standalone_closed_chain env' = Inr b"
    and "at_final_chain_head a = at_final_chain_head b"
  shows "env_file env = env_file env'
    \<or> (\<exists>x \<in> set (hashed_strings env). \<exists>y \<in> set (hashed_strings env'). sha256_collision x y)"
proof -
  obtain st where st: "scan_lines (st_size (fv_initial (se_view env))) scan_start (env_file env) = Inr st"
    "sc_head st = Some (at_final_chain_head a)" unfolding env_file_def by (rule attested_lines [OF assms(1)])
  obtain st' where st': "scan_lines (st_size (fv_initial (se_view env'))) scan_start (env_file env') = Inr st'"
    "sc_head st' = Some (at_final_chain_head b)" unfolding env_file_def by (rule attested_lines [OF assms(2)])
  from same_head_same_file [OF st(1) st'(1)] st(2) st'(2) assms(3) show ?thesis
    by (simp add: hashed_strings_def st(1) st'(1))
qed

text \<open>
  C24. Acknowledged records survive every failure: at any moment of any run of the writer, a scan
  of its file either reaches the end, and then the chain has the writer's records or one more
  that was written whole before the failure, or it stops at a torn last line and reports exactly
  the bytes, the records and the head the writer acknowledged.
\<close>

theorem acknowledged_records_survive:
  assumes "writer_reach w fb"
  shows "case scan_lines n scan_start fb of
      Inr st \<Rightarrow> (sc_index st = w_record_count w \<and> sc_head st = w_head w \<and> sc_total st = w_tracked_bytes w)
        \<or> (w_state w = ''poisoned'' \<and> sc_index st = w_record_count w + 1 \<and> take (w_tracked_bytes w) fb \<noteq> fb)
    | Inl r \<Rightarrow> w_state w = ''poisoned'' \<and> sr_status r = ''torn'' \<and> sr_record_count r = w_record_count w
        \<and> sr_head r = w_head w \<and> sr_verified_prefix_bytes r = w_tracked_bytes w"
proof -
  from writer_reach_inv [OF assms] obtain g es ls rest where a: "acknowledged g es ls w" "ls \<noteq> []" "fb = chain_bytes ls @ rest"
    "rest \<noteq> [] \<longrightarrow> w_state w = ''poisoned'' \<and> leftover g ls rest" unfolding writer_inv_def by blast
  then have e: "links 0 g es = Inr ls" "\<forall>(ty, body) \<in> set es. canonical_body body" "links_ok 0 0 ls"
    "w_tracked_bytes w = length (chain_bytes ls)" "w_record_count w = length ls" "w_head w = Some (tip g ls)"
    and gen: "es \<noteq> [] \<longrightarrow> compute_genesis_sha256 (snd (hd es)) = Inr g"
    by (simp_all add: acknowledged_def)
  then have links: "ledger_links es = Inr ls" by (cases es) (auto simp: ledger_links_def)
  have head: "sc_head (chain_state ls) = w_head w" using a(2) e(6) by (simp add: tip_def)
  show ?thesis
  proof (cases "rest = []")
    case True
    with scan_from_start [OF links e(2,3), of n "[]"] head show ?thesis by (simp add: a(3) e(4,5))
  next
    case False
    with a(4) obtain ty body line h k where l: "link (length ls) (tip g ls) ty body = Inr (line, h)" "canonical_body body"
      "links_ok 0 0 (ls @ [(ty, tip g ls, line, h)])" "rest = take k line" and st: "w_state w = ''poisoned''"
      by (auto simp: leftover_def)
    show ?thesis
    proof (cases "length line \<le> k")
      case True
      let ?ls = "ls @ [(ty, tip g ls, line, h)]" and ?es = "es @ [(ty, body)]"
      have "links 0 g ?es = Inr ?ls" using links_snoc [OF e(1)] l(1) links_length [OF e(1)] by simp
      then have "ledger_links ?es = Inr ?ls" using gen a(2) e(1) by (cases es) (auto simp: ledger_links_def)
      then have "scan_lines n scan_start (chain_bytes ?ls) = Inr (chain_state ?ls)"
        by (rule chain_scan) (use e(2) l(2,3) in auto)
      with True False st show ?thesis by (simp add: a(3) l(4) e(4,5))
    next
      case False
      obtain b where b: "line = b @ [10]" "10 \<notin> set b" by (rule link_shape [OF l(1)])
      have "rest = take k b" using False by (simp add: l(4) b(1))
      then have no_lf: "10 \<notin> set rest" using b(2) by (auto dest: in_set_takeD)
      have "length rest \<le> length line" by (simp add: l(4))
      moreover from l(3) have "lit ''closure'' \<notin> link_type ` set ls" "length line \<le> MAX_EVENT_LINE_BYTES"
        "length (chain_bytes ls) + length line \<le> MAX_LEDGER_BYTES" by (simp_all add: links_ok_snoc)
      ultimately have "scan_lines n (chain_state ls) rest
          = Inl (scan_failed (chain_state ls) ''torn'' (sc_total (chain_state ls) + length rest) ''FINAL_LINE_WITHOUT_LF'')"
        using \<open>rest \<noteq> []\<close> no_lf by (intro scan_torn) auto
      with scan_from_start [OF links e(2,3), of n rest] st head show ?thesis
        by (simp add: a(3) e(4,5) scan_failed_def scan_outcome_def)
    qed
  qed
qed

text \<open>
  C25. An open writer can always be closed: after any run that leaves it open, the closure with
  the empty body has a line that fits the reserve, and when the system calls of the append
  succeed and nothing disturbs the scan, closing returns an attestation of the head, the record
  count and the bytes the writer holds.
\<close>

theorem open_writer_can_close:
  assumes "writer_reach w fb" "w_state w = ''open''"
  shows "\<exists>line h. prepare_line (w_record_count w) (w_head w) (lit ''closure'') (JObj []) = Inr (line, h)
    \<and> (\<forall>io env. io_succeeds io (length fb) (length line) \<longrightarrow> reads_file env (fb @ line) (w_file_identity w) \<longrightarrow>
      (\<exists>a. close_with_closure io False env (JObj []) w fb = (Inr a, closed_writer w line h, fb @ line)
        \<and> at_final_chain_head a = h \<and> at_record_count a = w_record_count w + 1
        \<and> at_input_bytes a = length fb + length line))"
proof -
  note inv = writer_reach_inv [OF assms(1)]
  obtain line h where lh: "prepare_line (w_record_count w) (w_head w) (lit ''closure'') (JObj []) = Inr (line, h)"
    "length line \<le> MAX_CLOSURE_LINE_BYTES" by (rule empty_closure_fits [OF inv assms(2)])
  show ?thesis
  proof (intro exI [of _ line] exI [of _ h] conjI allI impI)
    fix io env
    assume "io_succeeds io (length fb) (length line)" "reads_file env (fb @ line) (w_file_identity w)"
    from close_succeeds [OF inv assms(2) empty_python lh this]
    show "\<exists>a. close_with_closure io False env (JObj []) w fb = (Inr a, closed_writer w line h, fb @ line)
        \<and> at_final_chain_head a = h \<and> at_record_count a = w_record_count w + 1
        \<and> at_input_bytes a = length fb + length line" by metis
  qed (rule lh(1))
qed

text \<open>
  Ended writers are inert: a writer that was closed, abandoned or poisoned holds no
  descriptor, and no call changes it or its file any more.
\<close>

theorem ended_writer_inert:
  assumes "writer_reach w fb" "w_state w \<noteq> ''open''"
  shows "w_state w \<in> {''poisoned'', ''closed'', ''abandoned''} \<and> w_fd w = - 1 \<and> call_writer c (w, fb) = (w, fb)"
proof -
  from writer_reach_inv [OF assms(1)] assms(2) have "w_fd w = - 1" "w_state w \<in> {''poisoned'', ''closed'', ''abandoned''}"
    unfolding writer_inv_def by blast+
  with call_not_open [OF assms(2)] show ?thesis by simp
qed

section \<open>Concrete runs\<close>

text \<open>A writer created with an empty header, and the file it closes with an empty closure.\<close>

lemma example_open: "\<exists>w fb. writer_reach w fb \<and> w_state w = ''open'' \<and> w_record_count w = 1
    \<and> w_file_identity w = Some (1, 2)"
proof -
  obtain line h g where run: "create_writer (Inr 5) (Inr (1, 2)) (steady_io 0 (length line)) (JObj [])
      = (Inr (appended (new_writer 5 (1, 2)) line h), line)" by (rule created_writer)
  have "writer_reach (appended (new_writer 5 (1, 2)) line h) line" by (rule created [OF run empty_python])
  then show ?thesis
    by (intro exI [of _ "appended (new_writer 5 (1, 2)) line h"] exI [of _ line]) (simp add: appended_def new_writer_def)
qed

lemma example_closed: "\<exists>fb a. attest_standalone_closed_chain (steady_env fb) = Inr a \<and> at_record_count a = 2"
proof -
  obtain w fb where w: "writer_reach w fb" "w_state w = ''open''" "w_record_count w = 1" "w_file_identity w = Some (1, 2)"
    using example_open by blast
  note inv = writer_reach_inv [OF w(1)]
  obtain line h where lh: "prepare_line (w_record_count w) (w_head w) (lit ''closure'') (JObj []) = Inr (line, h)"
    "length line \<le> MAX_CLOSURE_LINE_BYTES" by (rule empty_closure_fits [OF inv w(2)])
  obtain a where a: "close_with_closure (steady_io (length fb) (length line)) False (steady_env (fb @ line)) (JObj []) w fb
      = (Inr a, closed_writer w line h, fb @ line)" "at_record_count a = w_record_count w + 1"
    by (rule close_succeeds [OF inv w(2) empty_python lh steady_succeeds])
      (use steady_reads(2) w(4) in auto)
  then have "attestation_from_scan (scan_chain (steady_env (fb @ line)) (Some (1, 2)) False) = Inr a"
    using w(4) by (auto simp: close_with_closure_def Let_def split: prod.splits sum.splits if_splits attest_error.splits
        dest!: append_identity)
  moreover have "scan_chain (steady_env (fb @ line)) (Some (1, 2)) False = scan_chain (steady_env (fb @ line)) None False"
    by (simp add: scan_chain_def steady_env_def Let_def stat_identity_def)
  ultimately have "attest_standalone_closed_chain (steady_env (fb @ line)) = Inr a"
    by (simp add: attest_standalone_closed_chain_def)
  moreover have "at_record_count a = 2" using a(2) w(3) by simp
  ultimately show ?thesis by blast
qed

theorem attested_head_determines_file_witness:
  "\<exists>fb a. attest_standalone_closed_chain (steady_env fb) = Inr a \<and> at_record_count a = 2
    \<and> (env_file (steady_env fb) = env_file (steady_env fb)
      \<or> (\<exists>x \<in> set (hashed_strings (steady_env fb)). \<exists>y \<in> set (hashed_strings (steady_env fb)). sha256_collision x y))"
  using example_closed attested_head_determines_file by metis

theorem acknowledged_records_survive_witness:
  "\<exists>w fb. writer_reach w fb \<and> w_record_count w = 1 \<and> w_state w = ''open''
    \<and> (case scan_lines 0 scan_start fb of Inr st \<Rightarrow> sc_index st = 1 | Inl _ \<Rightarrow> False)"
proof -
  obtain w fb where w: "writer_reach w fb" "w_state w = ''open''" "w_record_count w = 1" using example_open by blast
  from acknowledged_records_survive [OF w(1), of 0] w show ?thesis
    by (intro exI [of _ w] exI [of _ fb]) (auto split: sum.splits)
qed

theorem open_writer_can_close_witness:
  "\<exists>w fb line a w'. writer_reach w fb \<and> close_with_closure (steady_io (length fb) (length line)) False
    (steady_env (fb @ line)) (JObj []) w fb = (Inr a, w', fb @ line) \<and> at_record_count a = 2"
proof -
  obtain w fb where w: "writer_reach w fb" "w_state w = ''open''" "w_record_count w = 1" "w_file_identity w = Some (1, 2)"
    using example_open by blast
  from open_writer_can_close [OF w(1,2)] obtain line h where
    "\<forall>io env. io_succeeds io (length fb) (length line) \<longrightarrow> reads_file env (fb @ line) (w_file_identity w) \<longrightarrow>
      (\<exists>a. close_with_closure io False env (JObj []) w fb = (Inr a, closed_writer w line h, fb @ line)
        \<and> at_record_count a = w_record_count w + 1)" by metis
  with steady_succeeds steady_reads(2) w show ?thesis by fastforce
qed

theorem ended_writer_inert_witness:
  "\<exists>w fb. writer_reach w fb \<and> w_state w = ''abandoned'' \<and> call_writer (Abandon True) (w, fb) = (w, fb)"
proof -
  obtain w fb where w: "writer_reach w fb" "w_state w = ''open''" using example_open by blast
  let ?s = "call_writer (Abandon False) (w, fb)"
  have "0 \<le> w_fd w" by (rule open_inv [OF writer_reach_inv [OF w(1)] w(2)])
  with w(2) have "w_state (fst ?s) = ''abandoned''"
    by (simp add: call_writer_def abandon_unfinalized_def ensure_open_def guardE_def)
  moreover have "writer_reach (fst ?s) (snd ?s)"
    by (rule called [OF w(1), of "Abandon False"]) (simp_all add: python_call_def)
  ultimately have "writer_reach (fst ?s) (snd ?s) \<and> w_state (fst ?s) = ''abandoned''
      \<and> call_writer (Abandon True) (fst ?s, snd ?s) = (fst ?s, snd ?s)"
    using ended_writer_inert [of "fst ?s" "snd ?s" "Abandon True"] by simp
  then show ?thesis by blast
qed

end
