(* ===== verification/AuditQueue.thy ===== *)
theory AuditQueue
  imports StrictJson Complex_Main
begin

text \<open>
  \<^verbatim>\<open>audit_job_queue.py\<close>: the table of audit jobs and the calls that enqueue, lease, mark, cancel and
  count them. A table is the list of its rows in insertion order; \<open>REAL\<close> columns (priorities and
  clock readings) are rationals, and every reading of the clock is an argument. The order in which
  SQLite visits rows is not fixed by the statements, so it is the parameter \<open>visit\<close>, of which only
  that it permutes the rows is ever used. The columns \<^verbatim>\<open>payload_json\<close> and \<^verbatim>\<open>result_json\<close> keep the
  value they serialize.
\<close>

definition JOB_STATUSES :: "string list" where
  "JOB_STATUSES = [''queued'', ''leased'', ''running'', ''succeeded'', ''succeeded_from_cache'', ''failed'',
     ''timeout'', ''quarantined'', ''cancelled'']"

section \<open>Identifiers\<close>

text \<open>\<^verbatim>\<open>json.dumps\<close> of a dict of strings with sorted keys and the default separators.\<close>

fun spaced_join :: "pystr list \<Rightarrow> pystr" where
  "spaced_join [] = []"
| "spaced_join [x] = x"
| "spaced_join (x # y # zs) = x @ lit '', '' @ spaced_join (y # zs)"

definition dumps_strings :: "(pystr \<times> pystr) list \<Rightarrow> pystr" where
  "dumps_strings kvs =
     lbrace # spaced_join (map (\<lambda>(k, v). quoted k @ lit '': '' @ quoted v) (sort_key fst kvs)) @ [rbrace]"

text \<open>\<^verbatim>\<open>None\<close> when the text has a lone surrogate, which \<^verbatim>\<open>encode\<close> rejects.\<close>

definition stable_hash :: "(pystr \<times> pystr) list \<Rightarrow> nat \<Rightarrow> pystr option" where
  "stable_hash kvs n = map_option (\<lambda>b. take n (hex_digest b)) (utf8 (dumps_strings kvs))"

type_synonym job_key = "pystr \<times> pystr \<times> pystr \<times> pystr \<times> pystr \<times> pystr \<times> pystr"

definition key_fields :: "job_key \<Rightarrow> (pystr \<times> pystr) list" where
  "key_fields key =
     (case key of (run_id, task_id, state_id, action_id, backend, import_mode, fingerprint) \<Rightarrow>
        [(lit ''run_id'', run_id), (lit ''task_id'', task_id), (lit ''state_id'', state_id),
         (lit ''action_id'', action_id), (lit ''backend'', backend), (lit ''import_mode'', import_mode),
         (lit ''project_fingerprint'', fingerprint)])"

definition make_job_id :: "job_key \<Rightarrow> pystr option" where
  "make_job_id key = map_option (\<lambda>h. lit ''audjob_'' @ h) (stable_hash (key_fields key) 24)"

section \<open>Rows\<close>

record job =
  j_job_id :: pystr
  j_run_id :: pystr
  j_task_id :: pystr
  j_state_id :: pystr
  j_action_id :: pystr
  j_tactic_hash :: pystr
  j_backend :: pystr
  j_lane :: pystr
  j_import_mode :: pystr
  j_project_fingerprint :: pystr
  j_status :: string
  j_priority :: rat
  j_attempt_count :: int
  j_max_attempts :: int
  j_leased_until :: "rat option"
  j_worker_id :: "pystr option"
  j_created_at :: rat
  j_updated_at :: rat
  j_payload :: json
  j_result :: "json option"
  j_last_error :: "pystr option"

definition unique_key :: "job \<Rightarrow> job_key" where
  "unique_key j = (j_run_id j, j_task_id j, j_state_id j, j_action_id j, j_backend j, j_import_mode j,
     j_project_fingerprint j)"

record audit_job =
  a_job_id :: pystr
  a_run_id :: pystr
  a_task_id :: pystr
  a_state_id :: pystr
  a_action_id :: pystr
  a_tactic_hash :: pystr
  a_backend :: pystr
  a_lane :: pystr
  a_import_mode :: pystr
  a_project_fingerprint :: pystr
  a_status :: string
  a_attempt_count :: int
  a_max_attempts :: int
  a_payload :: json
  a_worker_id :: "pystr option"

text \<open>A payload that is not an object is wrapped by \<^verbatim>\<open>_loads\<close>.\<close>

definition loads_object :: "json \<Rightarrow> json" where
  "loads_object v = (case v of JObj _ \<Rightarrow> v | _ \<Rightarrow> JObj [(lit ''value'', v)])"

definition from_row :: "job \<Rightarrow> audit_job" where
  "from_row j =
     \<lparr>a_job_id = j_job_id j, a_run_id = j_run_id j, a_task_id = j_task_id j, a_state_id = j_state_id j,
      a_action_id = j_action_id j, a_tactic_hash = j_tactic_hash j, a_backend = j_backend j, a_lane = j_lane j,
      a_import_mode = j_import_mode j, a_project_fingerprint = j_project_fingerprint j, a_status = j_status j,
      a_attempt_count = j_attempt_count j,
      a_max_attempts = (if j_max_attempts j = 0 then 1 else j_max_attempts j),
      a_payload = loads_object (j_payload j), a_worker_id = j_worker_id j\<rparr>"

section \<open>Enqueueing\<close>

text \<open>
  Tasks and actions as the queue reads them: identifiers and texts, and their \<^verbatim>\<open>to_dict\<close>, which is
  stored and not looked into.
\<close>

record lean_task =
  lt_task_id :: pystr
  lt_statement :: pystr
  lt_to_dict :: json

record tactic_action =
  ta_action_id :: pystr
  ta_tactic :: pystr
  ta_to_dict :: json

record proof_state =
  ps_state_id :: pystr
  ps_task_id :: pystr
  ps_target :: pystr

definition state_from_task :: "lean_task \<Rightarrow> proof_state option" where
  "state_from_task t =
     map_option (\<lambda>h. \<lparr>ps_state_id = h, ps_task_id = lt_task_id t, ps_target = lt_statement t\<rparr>)
       (stable_hash [(lit ''task_id'', lt_task_id t), (lit ''statement'', lt_statement t)] 16)"

definition state_to_dict :: "proof_state \<Rightarrow> json" where
  "state_to_dict s =
     JObj [(lit ''state_id'', JStr (ps_state_id s)), (lit ''task_id'', JStr (ps_task_id s)),
       (lit ''goals_text'', JStr []), (lit ''local_context'', JStr []), (lit ''target'', JStr (ps_target s)),
       (lit ''raw_messages'', JArr []), (lit ''features'', JObj []), (lit ''metadata'', JObj [])]"

definition build_job_payload :: "lean_task \<Rightarrow> tactic_action \<Rightarrow> proof_state \<Rightarrow> pystr \<Rightarrow> json" where
  "build_job_payload task action st lane =
     JObj [(lit ''task'', lt_to_dict task), (lit ''state'', state_to_dict st), (lit ''action'', ta_to_dict action),
       (lit ''lane'', JStr lane)]"

datatype queue_error = Key_Error pystr | Encode_Error | Unknown_Status string

datatype action_source = By_Task "(pystr \<times> tactic_action list) list" | Shared "tactic_action list"

definition actions_for :: "action_source \<Rightarrow> pystr \<Rightarrow> (queue_error, tactic_action list) res" where
  "actions_for src task_id =
     (case src of
        Shared actions \<Rightarrow> Inr actions
      | By_Task d \<Rightarrow> (case map_of d task_id of Some actions \<Rightarrow> Inr actions | None \<Rightarrow> Inl (Key_Error task_id)))"

definition insert_or_ignore :: "job \<Rightarrow> job list \<Rightarrow> bool \<times> job list" where
  "insert_or_ignore j table =
     (if j_job_id j \<in> j_job_id ` set table \<or> unique_key j \<in> unique_key ` set table then (False, table)
      else (True, table @ [j]))"

record enqueue_args =
  ea_run_id :: pystr
  ea_backend :: pystr
  ea_import_mode :: pystr
  ea_fingerprint :: pystr
  ea_max_actions :: int
  ea_max_attempts :: int
  ea_lane :: pystr
  ea_priority :: rat
  ea_now :: rat

definition queued_row :: "enqueue_args \<Rightarrow> lean_task \<Rightarrow> proof_state \<Rightarrow> tactic_action \<Rightarrow> (queue_error, job) res" where
  "queued_row args task st action =
     (case (stable_hash [(lit ''tactic'', ta_tactic action)] 24,
         make_job_id (ea_run_id args, lt_task_id task, ps_state_id st, ta_action_id action, ea_backend args,
           ea_import_mode args, ea_fingerprint args)) of
        (Some tactic_hash, Some jid) \<Rightarrow>
          Inr \<lparr>j_job_id = jid, j_run_id = ea_run_id args, j_task_id = lt_task_id task, j_state_id = ps_state_id st,
               j_action_id = ta_action_id action, j_tactic_hash = tactic_hash, j_backend = ea_backend args,
               j_lane = ea_lane args, j_import_mode = ea_import_mode args,
               j_project_fingerprint = ea_fingerprint args, j_status = ''queued'', j_priority = ea_priority args,
               j_attempt_count = 0,
               j_max_attempts = (if ea_max_attempts args = 0 then 1 else ea_max_attempts args),
               j_leased_until = None, j_worker_id = None, j_created_at = ea_now args, j_updated_at = ea_now args,
               j_payload = build_job_payload task action st (ea_lane args), j_result = None, j_last_error = None\<rparr>
      | _ \<Rightarrow> Inl Encode_Error)"

definition enqueue_action ::
  "enqueue_args \<Rightarrow> lean_task \<Rightarrow> proof_state \<Rightarrow> tactic_action \<Rightarrow> job list \<times> nat \<times> nat
    \<Rightarrow> (queue_error, job list \<times> nat \<times> nat) res" where
  "enqueue_action args task st action acc =
     (let (table, inserted, reused) = acc in
      bindE (queued_row args task st action) (\<lambda>j.
      let (new, table') = insert_or_ignore j table in
      Inr (if new then (table', inserted + 1, reused) else (table', inserted, reused + 1))))"

definition enqueue_task ::
  "enqueue_args \<Rightarrow> action_source \<Rightarrow> lean_task \<Rightarrow> job list \<times> nat \<times> nat \<Rightarrow> (queue_error, job list \<times> nat \<times> nat) res"
where
  "enqueue_task args src task acc =
     (case state_from_task task of
        None \<Rightarrow> Inl Encode_Error
      | Some st \<Rightarrow>
          bindE (actions_for src (lt_task_id task)) (\<lambda>actions.
          foldE (enqueue_action args task st) (take (nat (ea_max_actions args)) actions) acc))"

text \<open>An exception closes the connection before the commit, so the table stays as it was.\<close>

definition enqueue_audit_jobs ::
  "enqueue_args \<Rightarrow> lean_task list \<Rightarrow> action_source \<Rightarrow> job list \<Rightarrow> (queue_error, nat \<times> nat) res \<times> job list" where
  "enqueue_audit_jobs args tasks src table =
     (case foldE (enqueue_task args src) tasks (table, 0, 0) of
        Inl e \<Rightarrow> (Inl e, table)
      | Inr (table', inserted, reused) \<Rightarrow> (Inr (inserted, reused), table'))"

section \<open>Leasing\<close>

definition leasable :: "rat \<Rightarrow> job \<Rightarrow> bool" where
  "leasable now j \<longleftrightarrow>
     j_status j = ''queued''
     \<or> (j_status j \<in> {''leased'', ''running''} \<and> (case j_leased_until j of None \<Rightarrow> 0 | Some t \<Rightarrow> t) < now)
     \<or> (j_status j = ''failed'' \<and> j_attempt_count j < j_max_attempts j)"

definition lane_list :: "pystr list \<Rightarrow> pystr list" where
  "lane_list lanes = filter (\<lambda>x. x \<noteq> []) lanes"

definition lease_where :: "rat \<Rightarrow> pystr list \<Rightarrow> bool \<Rightarrow> job \<Rightarrow> bool" where
  "lease_where now lanes include_quarantined j \<longleftrightarrow>
     leasable now j \<and> (lane_list lanes = [] \<or> j_lane j \<in> set (lane_list lanes))
     \<and> (include_quarantined \<or> j_status j \<noteq> ''quarantined'')"

definition lease_order :: "job \<Rightarrow> rat \<times> rat" where
  "lease_order j = (- j_priority j, j_created_at j)"

text \<open>The \<^verbatim>\<open>SELECT\<close> and the \<^verbatim>\<open>UPDATE\<close> of a lease are two statements.\<close>

definition lease_select ::
  "(job list \<Rightarrow> job list) \<Rightarrow> rat \<Rightarrow> pystr list \<Rightarrow> bool \<Rightarrow> job list \<Rightarrow> job option" where
  "lease_select visit now lanes include_quarantined table =
     (case sort_key lease_order (filter (lease_where now lanes include_quarantined) (visit table)) of
        [] \<Rightarrow> None | j # _ \<Rightarrow> Some j)"

definition update_job :: "pystr \<Rightarrow> (job \<Rightarrow> job) \<Rightarrow> job list \<Rightarrow> job list" where
  "update_job jid f table = map (\<lambda>j. if j_job_id j = jid then f j else j) table"

definition lease_until :: "rat \<Rightarrow> rat \<Rightarrow> rat" where
  "lease_until now lease_seconds = now + max 1 (if lease_seconds = 0 then 300 else lease_seconds)"

definition lease_update :: "rat \<Rightarrow> pystr \<Rightarrow> rat \<Rightarrow> pystr \<Rightarrow> job list \<Rightarrow> job list" where
  "lease_update now worker lease_seconds jid table =
     update_job jid (\<lambda>j. j\<lparr>j_status := ''leased'', j_leased_until := Some (lease_until now lease_seconds),
       j_worker_id := Some worker, j_updated_at := now\<rparr>) table"

definition find_job :: "pystr \<Rightarrow> job list \<Rightarrow> job option" where
  "find_job jid table = find (\<lambda>j. j_job_id j = jid) table"

definition lease_next_job ::
  "(job list \<Rightarrow> job list) \<Rightarrow> rat \<Rightarrow> pystr \<Rightarrow> rat \<Rightarrow> pystr list \<Rightarrow> bool \<Rightarrow> job list
    \<Rightarrow> audit_job option \<times> job list" where
  "lease_next_job visit now worker lease_seconds lanes include_quarantined table =
     (case lease_select visit now lanes include_quarantined table of
        None \<Rightarrow> (None, table)
      | Some row \<Rightarrow>
          (let table' = lease_update now worker lease_seconds (j_job_id row) table in
           (map_option from_row (find_job (j_job_id row) table'), table')))"

section \<open>Marking and cancelling\<close>

definition mark_job_running :: "rat \<Rightarrow> pystr \<Rightarrow> pystr \<Rightarrow> job list \<Rightarrow> job list" where
  "mark_job_running now jid worker table =
     update_job jid (\<lambda>j. j\<lparr>j_status := ''running'', j_worker_id := Some worker,
       j_attempt_count := j_attempt_count j + 1, j_updated_at := now\<rparr>) table"

definition mark_job_result ::
  "rat \<Rightarrow> pystr \<Rightarrow> string \<Rightarrow> json option \<Rightarrow> pystr option \<Rightarrow> job list \<Rightarrow> (queue_error, job list) res" where
  "mark_job_result now jid status result error table =
     (if status \<notin> set JOB_STATUSES then Inl (Unknown_Status status)
      else Inr (update_job jid (\<lambda>j. j\<lparr>j_status := status,
        j_result := Some (case result of None \<Rightarrow> JObj [] | Some r \<Rightarrow> r), j_last_error := error,
        j_leased_until := None, j_updated_at := now\<rparr>) table))"

definition cancellable :: "pystr \<Rightarrow> job \<Rightarrow> bool" where
  "cancellable run_id j \<longleftrightarrow>
     (run_id = [] \<or> j_run_id j = run_id) \<and> j_status j \<in> {''queued'', ''leased'', ''running'', ''failed''}"

text \<open>A missing \<^verbatim>\<open>run_id\<close> and an empty one are both false in Python.\<close>

definition cancel_jobs :: "rat \<Rightarrow> pystr \<Rightarrow> job list \<Rightarrow> nat \<times> job list" where
  "cancel_jobs now run_id table =
     (length (filter (cancellable run_id) table),
      map (\<lambda>j. if cancellable run_id j then j\<lparr>j_status := ''cancelled'', j_updated_at := now\<rparr> else j) table)"

section \<open>Reading\<close>

definition count_by :: "(job \<Rightarrow> 'a::linorder) \<Rightarrow> job list \<Rightarrow> ('a \<times> nat) list" where
  "count_by f rows = map (\<lambda>x. (x, length (filter (\<lambda>j. f j = x) rows))) (sorted_set (map f rows))"

record queue_status =
  qs_run_id :: pystr
  qs_n_jobs :: nat
  qs_by_status :: "(string \<times> nat) list"
  qs_by_lane :: "(pystr \<times> nat) list"
  qs_n_succeeded :: nat
  qs_n_cache_hit :: nat
  qs_n_failed :: nat
  qs_n_timeout :: nat
  qs_n_quarantined :: nat

definition status_count :: "(string \<times> nat) list \<Rightarrow> string \<Rightarrow> nat" where
  "status_count by_status s = (case map_of by_status s of None \<Rightarrow> 0 | Some n \<Rightarrow> n)"

definition audit_queue_status :: "pystr \<Rightarrow> job list \<Rightarrow> queue_status" where
  "audit_queue_status run_id table =
     (let rows = filter (\<lambda>j. run_id = [] \<or> j_run_id j = run_id) table; by_status = count_by j_status rows in
      \<lparr>qs_run_id = run_id, qs_n_jobs = sum_list (map snd by_status), qs_by_status = by_status,
       qs_by_lane = count_by j_lane rows,
       qs_n_succeeded = status_count by_status ''succeeded'' + status_count by_status ''succeeded_from_cache'',
       qs_n_cache_hit = status_count by_status ''succeeded_from_cache'',
       qs_n_failed = status_count by_status ''failed'', qs_n_timeout = status_count by_status ''timeout'',
       qs_n_quarantined = status_count by_status ''quarantined''\<rparr>)"

definition iter_jobs ::
  "(job list \<Rightarrow> job list) \<Rightarrow> pystr \<Rightarrow> string \<Rightarrow> nat \<Rightarrow> job list \<Rightarrow> audit_job list" where
  "iter_jobs visit run_id status limit table =
     (let rows = sort_key j_created_at
        (filter (\<lambda>j. (run_id = [] \<or> j_run_id j = run_id) \<and> (status = [] \<or> j_status j = status)) (visit table)) in
      map from_row (if limit = 0 then rows else take limit rows))"

end
