(* ===== verification/AuditWorker.thy ===== *)
theory AuditWorker
  imports AuditQueue
begin

text \<open>
  \<^verbatim>\<open>action_quarantine.py\<close>, the timeout events it reads and the worker loop of
  \<^verbatim>\<open>lean/worker_supervisor.py\<close> over the audit queue. What the child process of a job answers and
  the clock readings of one pass of the loop are the argument \<open>tick\<close>; the loop runs on a list of
  them and is unfinished when the list ends before the loop does.
\<close>

section \<open>Action quarantine\<close>

record quarantine_row =
  q_key_type :: string
  q_key_value :: pystr
  q_status :: string
  q_reason :: pystr
  q_n_attempts :: nat
  q_n_timeouts :: nat
  q_timeout_rate :: rat
  q_first_seen :: rat
  q_updated_at :: rat

definition q_key :: "quarantine_row \<Rightarrow> string \<times> pystr" where
  "q_key r = (q_key_type r, q_key_value r)"

definition upsert :: "quarantine_row \<Rightarrow> quarantine_row list \<Rightarrow> quarantine_row list" where
  "upsert r rows =
     (if q_key r \<in> q_key ` set rows
        then map (\<lambda>q. if q_key q = q_key r then r\<lparr>q_first_seen := q_first_seen q\<rparr> else q) rows
      else rows @ [r])"

text \<open>
  \<open>timed_out\<close> tells which jobs count as timeouts: those with a \<^verbatim>\<open>tactic_timeout\<close> event when the
  events carry scopes, else those with status \<^verbatim>\<open>timeout\<close>.
\<close>

definition timed_out :: "pystr list option \<Rightarrow> job \<Rightarrow> bool" where
  "timed_out scoped j =
     (case scoped of Some jids \<Rightarrow> j_job_id j \<in> set jids | None \<Rightarrow> j_status j = ''timeout'')"

definition attempts_of :: "(job \<Rightarrow> pystr) \<Rightarrow> pystr \<Rightarrow> job list \<Rightarrow> nat" where
  "attempts_of f x table = length (filter (\<lambda>j. f j = x) table)"

definition timeouts_of :: "pystr list option \<Rightarrow> (job \<Rightarrow> pystr) \<Rightarrow> pystr \<Rightarrow> job list \<Rightarrow> nat" where
  "timeouts_of scoped f x table = length (filter (\<lambda>j. f j = x \<and> timed_out scoped j) table)"

definition timeout_rate :: "nat \<Rightarrow> nat \<Rightarrow> rat" where
  "timeout_rate n_timeouts n_attempts = (if n_attempts = 0 then 0 else of_nat n_timeouts / of_nat n_attempts)"

record refresh_args =
  ra_action_timeout_threshold :: nat
  ra_probation_min_attempts :: nat
  ra_probation_timeout_rate :: rat
  ra_format_rate :: "rat \<Rightarrow> pystr"

definition refresh_defaults :: "(rat \<Rightarrow> pystr) \<Rightarrow> refresh_args" where
  "refresh_defaults format_rate =
     \<lparr>ra_action_timeout_threshold = 3, ra_probation_min_attempts = 5, ra_probation_timeout_rate = 1 / 2,
      ra_format_rate = format_rate\<rparr>"

definition refresh_action ::
  "refresh_args \<Rightarrow> rat \<Rightarrow> pystr list option \<Rightarrow> job list \<Rightarrow> pystr \<Rightarrow> quarantine_row list \<Rightarrow> quarantine_row list"
where
  "refresh_action args now scoped table x rows =
     (let n = attempts_of j_action_id x table; t = timeouts_of scoped j_action_id x table in
      if t \<ge> ra_action_timeout_threshold args then
        upsert \<lparr>q_key_type = ''action_id'', q_key_value = x, q_status = ''quarantined'',
          q_reason = lit (''same action_id timed out '' @ dec_nat t @ '' times''), q_n_attempts = n,
          q_n_timeouts = t, q_timeout_rate = timeout_rate t n, q_first_seen = now, q_updated_at = now\<rparr> rows
      else rows)"

definition refresh_hash ::
  "refresh_args \<Rightarrow> rat \<Rightarrow> pystr list option \<Rightarrow> job list \<Rightarrow> pystr \<Rightarrow> quarantine_row list \<Rightarrow> quarantine_row list"
where
  "refresh_hash args now scoped table x rows =
     (let n = attempts_of j_tactic_hash x table; t = timeouts_of scoped j_tactic_hash x table; r = timeout_rate t n in
      if n \<ge> ra_probation_min_attempts args \<and> r \<ge> ra_probation_timeout_rate args then
        upsert \<lparr>q_key_type = ''tactic_hash'', q_key_value = x, q_status = ''probation'',
          q_reason = lit ''tactic_hash timeout rate '' @ ra_format_rate args r @ lit ('' over '' @ dec_nat n @ '' attempts''),
          q_n_attempts = n, q_n_timeouts = t, q_timeout_rate = r, q_first_seen = now, q_updated_at = now\<rparr> rows
      else rows)"

definition refresh_action_quarantine ::
  "refresh_args \<Rightarrow> rat \<Rightarrow> pystr list option \<Rightarrow> job list \<Rightarrow> quarantine_row list \<Rightarrow> quarantine_row list" where
  "refresh_action_quarantine args now scoped table rows =
     fold (refresh_hash args now scoped table) (sorted_set (map j_tactic_hash table))
       (fold (refresh_action args now scoped table) (sorted_set (map j_action_id table)) rows)"

definition is_action_quarantined :: "quarantine_row list \<Rightarrow> pystr \<Rightarrow> pystr \<Rightarrow> bool \<times> pystr" where
  "is_action_quarantined rows action_id tactic_hash =
     (case find (\<lambda>r. q_key r = (''action_id'', action_id) \<and> q_status r = ''quarantined'') rows of
        Some r \<Rightarrow> (True, q_reason r)
      | None \<Rightarrow>
        (case find (\<lambda>r. q_key r = (''tactic_hash'', tactic_hash) \<and> q_status r = ''quarantined'') rows of
           Some r \<Rightarrow> (True, q_reason r)
         | None \<Rightarrow> (False, [])))"

section \<open>Running a job\<close>

text \<open>
  The ways \<^verbatim>\<open>_run_job_process\<close> ends: a dry run that raises or returns, a child that is killed, gives
  no result, reports a failure or returns. The texts are the audit status, the values the result.
\<close>

datatype process_end =
    Inline_Raised json
  | Inline_Returned string json
  | Child_Killed json
  | Child_Failed json
  | Child_Returned string json

fun process_status :: "process_end \<Rightarrow> string \<times> json \<times> bool" where
  "process_status (Inline_Raised r) = (''failed'', r, False)"
| "process_status (Inline_Returned s r) = (if s = ''timeout'' then ''timeout'' else ''succeeded'', r, False)"
| "process_status (Child_Killed r) = (''timeout'', r, True)"
| "process_status (Child_Failed r) = (''failed'', r, False)"
| "process_status (Child_Returned s r) = (if s = ''timeout'' then ''timeout'' else ''succeeded'', r, False)"

definition timeout_scope_for_run :: "rat option \<Rightarrow> rat \<Rightarrow> bool \<Rightarrow> bool \<Rightarrow> string" where
  "timeout_scope_for_run import_wall_s timeout_s killed bulk =
     (if (case import_wall_s of None \<Rightarrow> False | Some w \<Rightarrow> w \<ge> timeout_s / 2) then ''import_timeout''
      else if bulk then ''batch_timeout''
      else if killed then ''tactic_timeout''
      else ''worker_timeout'')"

section \<open>The worker loop\<close>

record world =
  wd_jobs :: "job list"
  wd_quarantine :: "quarantine_row list"
  wd_timeouts :: "(pystr \<times> string) list"
  wd_events :: "(string \<times> pystr) list"
  wd_slots :: "int option"

record worker_args =
  wa_worker_id :: pystr
  wa_timeout_s :: rat
  wa_lanes :: "pystr list"
  wa_heavy_allows :: bool
  wa_import_wall_s :: "rat option"
  wa_continue_on_timeout :: bool
  wa_refresh :: refresh_args
  wa_visit :: "job list \<Rightarrow> job list"

record tick =
  tk_refresh :: rat
  tk_lease :: rat
  tk_mark :: rat
  tk_finish :: rat
  tk_end :: process_end
  tk_synthetic :: json
  tk_error :: "pystr option"

definition lane_set :: "worker_args \<Rightarrow> pystr list" where
  "lane_set args = (if wa_lanes args = [] then map lit [''source_check'', ''kernel_rpc'', ''heavy''] else wa_lanes args)"

definition scoped_timeouts :: "world \<Rightarrow> pystr list option" where
  "scoped_timeouts w = Some (map fst (filter (\<lambda>(j, s). s = ''tactic_timeout'') (wd_timeouts w)))"

definition log_event :: "string \<Rightarrow> pystr \<Rightarrow> world \<Rightarrow> world" where
  "log_event ev jid w = w\<lparr>wd_events := wd_events w @ [(ev, jid)]\<rparr>"

definition lease_job :: "worker_args \<Rightarrow> tick \<Rightarrow> world \<Rightarrow> audit_job option \<times> job list" where
  "lease_job args t w =
     lease_next_job (wa_visit args) (tk_lease t) (wa_worker_id args) (wa_timeout_s args + 60) (lane_set args)
       (lit ''heavy'' \<in> set (lane_set args) \<and> wa_heavy_allows args) (wd_jobs w)"

text \<open>The job process and what the loop records of it; the first component tells a timeout.\<close>

definition run_leased :: "worker_args \<Rightarrow> tick \<Rightarrow> audit_job \<Rightarrow> world \<Rightarrow> (queue_error, bool \<times> nat \<times> world) res" where
  "run_leased args t job w =
     (let jid = a_job_id job; (status, result, killed) = process_status (tk_end t);
          w1 = log_event ''start'' jid (w\<lparr>wd_jobs := mark_job_running (tk_mark t) jid (wa_worker_id args) (wd_jobs w)\<rparr>);
          w2 = (if killed then log_event ''killed_timeout'' jid w1 else w1);
          w3 = (if status = ''timeout'' then w2\<lparr>wd_timeouts := wd_timeouts w2
                  @ [(jid, timeout_scope_for_run (wa_import_wall_s args) (wa_timeout_s args) killed False)]\<rparr> else w2) in
      bindE (mark_job_result (tk_finish t) jid status (Some result) (tk_error t) (wd_jobs w3)) (\<lambda>jobs.
      Inr (status = ''timeout'', if killed then 1 else 0, log_event ''finish'' jid (w3\<lparr>wd_jobs := jobs\<rparr>))))"

text \<open>
  One pass: whether the loop goes on, the jobs executed, the restarts, and the world after it.
\<close>

definition worker_step :: "worker_args \<Rightarrow> tick \<Rightarrow> world \<Rightarrow> (queue_error, bool \<times> nat \<times> nat \<times> world) res" where
  "worker_step args t w =
     (if (case wd_slots w of None \<Rightarrow> False | Some n \<Rightarrow> n \<le> 0) then Inr (False, 0, 0, w)
      else
        let w1 = w\<lparr>wd_slots := map_option (\<lambda>n. n - 1) (wd_slots w),
              wd_quarantine := refresh_action_quarantine (wa_refresh args) (tk_refresh t) (scoped_timeouts w)
                (wd_jobs w) (wd_quarantine w)\<rparr> in
        case lease_job args t w1 of
          (None, jobs) \<Rightarrow> Inr (False, 0, 0, w1\<lparr>wd_slots := wd_slots w, wd_jobs := jobs\<rparr>)
        | (Some job, jobs) \<Rightarrow>
          (let w2 = w1\<lparr>wd_jobs := jobs\<rparr>;
               allow_heavy = (a_lane job = lit ''heavy'' \<and> wa_heavy_allows args);
               (quarantined, reason) = is_action_quarantined (wd_quarantine w2) (a_action_id job) (a_tactic_hash job) in
           if quarantined \<and> \<not> allow_heavy then
             bindE (mark_job_result (tk_mark t) (a_job_id job) ''quarantined'' (Some (tk_synthetic t)) (Some reason)
               (wd_jobs w2)) (\<lambda>jobs'. Inr (True, 1, 0, w2\<lparr>wd_jobs := jobs'\<rparr>))
           else
             bindE (run_leased args t job w2) (\<lambda>(timeout, restarts, w3).
             Inr (\<not> (timeout \<and> \<not> wa_continue_on_timeout args), 1, restarts, w3))))"

fun worker_loop ::
  "worker_args \<Rightarrow> tick list \<Rightarrow> nat \<times> nat \<Rightarrow> world \<Rightarrow> (queue_error, nat \<times> nat \<times> world) res option" where
  "worker_loop args [] acc w = None"
| "worker_loop args (t # ts) acc w =
     (case worker_step args t w of
        Inl e \<Rightarrow> Some (Inl e)
      | Inr (continue, executed, restarts, w') \<Rightarrow>
          (if continue then worker_loop args ts (fst acc + executed, snd acc + restarts) w'
           else Some (Inr (fst acc + executed, snd acc + restarts, w'))))"

end
