(* ===== verification/AuditQueueFacts.thy ===== *)
theory AuditQueueFacts
  imports AuditWorker
begin

text \<open>
  Runs of queue calls, the invariant of the table, and the facts about one lease and one pass of
  the worker loop that the properties rest on.
\<close>

section \<open>Updating one row\<close>

lemma map_update_job [simp]:
  "(\<And>j. g (f j) = g j) \<Longrightarrow> map g (update_job jid f table) = map g table"
  by (induction table) (auto simp: update_job_def)

lemma update_job_ids [simp]:
  "(\<And>j. j_job_id (f j) = j_job_id j) \<Longrightarrow> j_job_id ` set (update_job jid f table) = j_job_id ` set table"
  by (metis map_update_job set_map)

lemma in_update_job: "j \<in> set (update_job jid f table) \<longleftrightarrow>
    (\<exists>k \<in> set table. j = (if j_job_id k = jid then f k else k))"
  by (simp only: update_job_def set_map image_iff)

lemma find_distinct:
  assumes "distinct (map j_job_id table)" "j \<in> set table"
  shows "find_job (j_job_id j) table = Some j"
  using assms by (induction table) (auto simp: find_job_def)

section \<open>Calls\<close>

datatype queue_call =
    Enqueue enqueue_args "lean_task list" action_source
  | Lease rat pystr rat "pystr list" bool
  | Running rat pystr pystr
  | Result rat pystr string "json option" "pystr option"
  | Cancel rat pystr

text \<open>A call, with the identifier of the job it leases, if it leases one.\<close>

definition queue_step :: "(job list \<Rightarrow> job list) \<Rightarrow> queue_call \<Rightarrow> job list \<Rightarrow> pystr option \<times> job list" where
  "queue_step visit c table =
     (case c of
        Enqueue args tasks src \<Rightarrow> (None, snd (enqueue_audit_jobs args tasks src table))
      | Lease now worker secs lanes incl \<Rightarrow>
          (let (a, table') = lease_next_job visit now worker secs lanes incl table in (map_option a_job_id a, table'))
      | Running now jid worker \<Rightarrow> (None, mark_job_running now jid worker table)
      | Result now jid status result err \<Rightarrow>
          (None, case mark_job_result now jid status result err table of Inl _ \<Rightarrow> table | Inr table' \<Rightarrow> table')
      | Cancel now run_id \<Rightarrow> (None, snd (cancel_jobs now run_id table)))"

fun queue_run :: "(job list \<Rightarrow> job list) \<Rightarrow> queue_call list \<Rightarrow> job list \<Rightarrow> pystr option list \<times> job list" where
  "queue_run visit [] table = ([], table)"
| "queue_run visit (c # cs) table =
     (let (leased, table') = queue_step visit c table; (rest, table'') = queue_run visit cs table' in
      (leased # rest, table''))"

section \<open>The invariant\<close>

definition queue_ok :: "job list \<Rightarrow> bool" where
  "queue_ok table \<longleftrightarrow> distinct (map j_job_id table) \<and> distinct (map unique_key table)
     \<and> (\<forall>j \<in> set table. j_status j \<in> set JOB_STATUSES \<and> make_job_id (unique_key j) = Some (j_job_id j)
       \<and> 0 \<le> j_attempt_count j)"

lemma queue_ok_Nil: "queue_ok []"
  by (simp add: queue_ok_def)

lemma queue_ok_map:
  assumes "queue_ok table" "\<And>j. j_job_id (f j) = j_job_id j" "\<And>j. unique_key (f j) = unique_key j"
    "\<And>j. j_status j \<in> set JOB_STATUSES \<Longrightarrow> j_status (f j) \<in> set JOB_STATUSES"
    "\<And>j. 0 \<le> j_attempt_count j \<Longrightarrow> 0 \<le> j_attempt_count (f j)"
  shows "queue_ok (map f table)"
proof -
  have "map j_job_id (map f table) = map j_job_id table" "map unique_key (map f table) = map unique_key table"
    using assms(2,3) by simp_all
  with assms show ?thesis unfolding queue_ok_def by (auto simp del: map_map)
qed

lemma queue_ok_update:
  assumes "queue_ok table" "\<And>j. j_job_id (f j) = j_job_id j" "\<And>j. unique_key (f j) = unique_key j"
    "\<And>j. j_status j \<in> set JOB_STATUSES \<Longrightarrow> j_status (f j) \<in> set JOB_STATUSES"
    "\<And>j. 0 \<le> j_attempt_count j \<Longrightarrow> 0 \<le> j_attempt_count (f j)"
  shows "queue_ok (update_job jid f table)"
  unfolding update_job_def by (rule queue_ok_map [OF assms(1)]) (use assms(2-5) in auto)

section \<open>Enqueueing as a fold over rows\<close>

lemma foldE_mapE:
  "foldE (\<lambda>x acc. bindE (g x) (\<lambda>j. Inr (h j acc))) xs acc = bindE (mapE g xs) (\<lambda>js. Inr (fold h js acc))"
  by (induction xs arbitrary: acc) (auto simp: bindE_assoc bindE_def split: sum.splits)

definition insert_row :: "job \<Rightarrow> job list \<times> nat \<times> nat \<Rightarrow> job list \<times> nat \<times> nat" where
  "insert_row j acc = (let (table, inserted, reused) = acc; (new, table') = insert_or_ignore j table in
     if new then (table', inserted + 1, reused) else (table', inserted, reused + 1))"

definition task_rows :: "enqueue_args \<Rightarrow> action_source \<Rightarrow> lean_task \<Rightarrow> (queue_error, job list) res" where
  "task_rows args src task =
     (case state_from_task task of
        None \<Rightarrow> Inl Encode_Error
      | Some st \<Rightarrow> bindE (actions_for src (lt_task_id task)) (\<lambda>actions.
          mapE (queued_row args task st) (take (nat (ea_max_actions args)) actions)))"

lemma enqueue_action_row:
  "enqueue_action args task st action acc = bindE (queued_row args task st action) (\<lambda>j. Inr (insert_row j acc))"
  by (auto simp: enqueue_action_def insert_row_def Let_def case_prod_unfold intro!: bindE_cong)

lemma enqueue_task_rows:
  "enqueue_task args src task acc = bindE (task_rows args src task) (\<lambda>js. Inr (fold insert_row js acc))"
proof -
  have "foldE (enqueue_action args task st) xs acc
      = bindE (mapE (queued_row args task st) xs) (\<lambda>js. Inr (fold insert_row js acc))" for st xs
    using foldE_mapE [of "queued_row args task st" insert_row xs acc]
    by (simp add: enqueue_action_row [abs_def])
  then show ?thesis by (auto simp: enqueue_task_def task_rows_def bindE_assoc split: option.splits)
qed

lemma enqueue_rows:
  "foldE (enqueue_task args src) tasks acc =
    bindE (mapE (task_rows args src) tasks) (\<lambda>jss. Inr (fold insert_row (concat jss) acc))"
proof -
  have "fold (fold insert_row) jss acc = fold insert_row (concat jss) acc" for jss acc
    by (induction jss arbitrary: acc) auto
  with foldE_mapE [of "task_rows args src" "fold insert_row" tasks acc] show ?thesis
    by (simp add: enqueue_task_rows [abs_def])
qed

lemma insert_row_ids: "j_job_id ` set (fst (insert_row j acc)) \<supseteq> j_job_id ` set (fst acc)"
  by (cases acc) (auto simp: insert_row_def insert_or_ignore_def Let_def)

lemma insert_rows_ids: "j_job_id ` set (fst (fold insert_row js acc)) \<supseteq> j_job_id ` set (fst acc)"
proof (induction js arbitrary: acc)
  case (Cons j js)
  from Cons [of "insert_row j acc"] insert_row_ids [of acc j] show ?case by auto
qed simp

lemma insert_rows_counts:
  "fst (snd (fold insert_row js acc)) + snd (snd (fold insert_row js acc)) = fst (snd acc) + snd (snd acc) + length js"
proof (induction js arbitrary: acc)
  case (Cons j js)
  have "fst (snd (insert_row j acc)) + snd (snd (insert_row j acc)) = fst (snd acc) + snd (snd acc) + 1"
    by (cases acc) (auto simp: insert_row_def insert_or_ignore_def Let_def)
  with Cons [of "insert_row j acc"] show ?case by simp
qed simp

definition row_ok :: "job \<Rightarrow> bool" where
  "row_ok j \<longleftrightarrow> j_status j = ''queued'' \<and> make_job_id (unique_key j) = Some (j_job_id j) \<and> j_attempt_count j = 0"

lemma insert_row_ok: "queue_ok (fst acc) \<Longrightarrow> row_ok j \<Longrightarrow> queue_ok (fst (insert_row j acc))"
  by (cases acc) (auto simp: insert_row_def insert_or_ignore_def Let_def queue_ok_def row_ok_def JOB_STATUSES_def)

lemma insert_row_present: "row_ok j \<Longrightarrow> queue_ok (fst acc) \<Longrightarrow> j_job_id j \<in> j_job_id ` set (fst (insert_row j acc))"
proof -
  assume j: "row_ok j" "queue_ok (fst acc)"
  have "j_job_id k = j_job_id j" if "k \<in> set (fst acc)" "unique_key k = unique_key j" for k
    using j that by (auto simp: row_ok_def queue_ok_def)
  then have "j_job_id j \<in> j_job_id ` set (fst acc)" if "unique_key j \<in> unique_key ` set (fst acc)"
    using that by (elim imageE) (rule image_eqI, auto)
  then show ?thesis by (cases acc) (auto simp: insert_row_def insert_or_ignore_def Let_def)
qed

lemma insert_rows_ok:
  "\<forall>j \<in> set js. row_ok j \<Longrightarrow> queue_ok (fst acc) \<Longrightarrow>
    queue_ok (fst (fold insert_row js acc)) \<and> j_job_id ` set js \<subseteq> j_job_id ` set (fst (fold insert_row js acc))"
proof (induction js arbitrary: acc)
  case (Cons j js)
  then have "queue_ok (fst (insert_row j acc))" "j_job_id j \<in> j_job_id ` set (fst (insert_row j acc))"
    by (simp_all add: insert_row_ok insert_row_present)
  with Cons insert_rows_ids [of "insert_row j acc" js] show ?case by auto
qed simp

lemma insert_rows_known:
  "\<forall>j \<in> set js. j_job_id j \<in> j_job_id ` set (fst acc) \<Longrightarrow>
    fold insert_row js acc = (fst acc, fst (snd acc), snd (snd acc) + length js)"
proof (induction js arbitrary: acc)
  case (Cons j js)
  then have "insert_row j acc = (fst acc, fst (snd acc), snd (snd acc) + 1)"
    by (cases acc) (auto simp: insert_row_def insert_or_ignore_def Let_def)
  with Cons show ?case by simp
qed simp

lemma queued_row_ok: "queued_row args task st action = Inr j \<Longrightarrow> row_ok j"
  by (auto simp: queued_row_def row_ok_def unique_key_def split: option.splits)

lemma mapE_each: "mapE f xs = Inr ys \<Longrightarrow> (\<And>x y. f x = Inr y \<Longrightarrow> P y) \<Longrightarrow> \<forall>y \<in> set ys. P y"
  by (induction xs arbitrary: ys) (auto simp: bindE_eq_Inr)

lemma task_rows_ok: "task_rows args src task = Inr js \<Longrightarrow> \<forall>j \<in> set js. row_ok j"
  by (auto simp: task_rows_def bindE_eq_Inr split: option.splits dest: mapE_each [where P = row_ok, OF _ queued_row_ok])

lemma all_rows_ok: "mapE (task_rows args src) tasks = Inr jss \<Longrightarrow> \<forall>j \<in> set (concat jss). row_ok j"
  by (drule mapE_each [where P = "\<lambda>js. \<forall>j \<in> set js. row_ok j", OF _ task_rows_ok]) auto

lemma enqueue_result:
  "enqueue_audit_jobs args tasks src table =
    (case mapE (task_rows args src) tasks of
       Inl e \<Rightarrow> (Inl e, table)
     | Inr jss \<Rightarrow> (let r = fold insert_row (concat jss) (table, 0, 0) in (Inr (snd r), fst r)))"
  by (auto simp: enqueue_audit_jobs_def enqueue_rows Let_def case_prod_unfold split: sum.splits)

lemma enqueue_ok: "queue_ok table \<Longrightarrow> queue_ok (snd (enqueue_audit_jobs args tasks src table))"
  using insert_rows_ok [of _ "(table, 0, 0)"] all_rows_ok
  by (fastforce simp: enqueue_result Let_def split: sum.splits)

section \<open>Every call keeps the invariant\<close>

lemma lease_ok: "queue_ok table \<Longrightarrow> queue_ok (snd (lease_next_job visit now worker secs lanes incl table))"
  by (auto simp: lease_next_job_def lease_update_def Let_def unique_key_def JOB_STATUSES_def
      split: option.splits intro!: queue_ok_update)

lemma queue_step_ok: "queue_ok table \<Longrightarrow> queue_ok (snd (queue_step visit c table))"
proof (cases c)
  case (Lease now worker secs lanes incl)
  then show "queue_ok table \<Longrightarrow> ?thesis"
    using lease_ok by (auto simp: queue_step_def case_prod_unfold Let_def)
next
  case (Running now jid worker)
  then show "queue_ok table \<Longrightarrow> ?thesis"
    by (auto simp: queue_step_def mark_job_running_def unique_key_def JOB_STATUSES_def intro!: queue_ok_update)
next
  case (Result now jid status result err)
  then show "queue_ok table \<Longrightarrow> ?thesis"
    by (auto simp: queue_step_def mark_job_result_def unique_key_def split: if_splits intro!: queue_ok_update)
next
  case (Cancel now run_id)
  then show "queue_ok table \<Longrightarrow> ?thesis"
    by (auto simp: queue_step_def cancel_jobs_def unique_key_def JOB_STATUSES_def intro!: queue_ok_map)
qed (simp add: queue_step_def enqueue_ok)

lemma queue_run_ok: "queue_ok table \<Longrightarrow> queue_ok (snd (queue_run visit cs table))"
proof (induction cs arbitrary: table)
  case (Cons c cs)
  from Cons.IH [OF queue_step_ok [OF Cons.prems, of visit c]] show ?case
    by (simp add: Let_def case_prod_unfold)
qed simp

end
