(* ===== verification/AuditQueueProps.thy ===== *)
theory AuditQueueProps
  imports AuditQueueFacts
begin

text \<open>The properties of the audit queue and of the worker loop over it.\<close>

section \<open>One lease\<close>

lemma lease_select_Some:
  assumes "set (visit table) = set table" "lease_select visit now lanes incl table = Some j"
  shows "j \<in> set table" "lease_where now lanes incl j"
    "\<And>k. k \<in> set table \<Longrightarrow> lease_where now lanes incl k \<Longrightarrow> lease_order j \<le> lease_order k"
proof -
  from assms(2) obtain js where s: "sort_key lease_order (filter (lease_where now lanes incl) (visit table)) = j # js"
    by (auto simp: lease_select_def split: list.splits)
  have in_iff: "k \<in> set (j # js) \<longleftrightarrow> k \<in> set table \<and> lease_where now lanes incl k" for k
    using assms(1) by (simp add: s [symmetric])
  show "j \<in> set table" "lease_where now lanes incl j" using in_iff [of j] by simp_all
  have "sorted (map lease_order (j # js))" by (simp only: s [symmetric] sorted_sort_key)
  then show "lease_order j \<le> lease_order k" if "k \<in> set table" "lease_where now lanes incl k" for k
    using that in_iff [of k] by auto
qed

lemma lease_select_None:
  assumes "set (visit table) = set table"
  shows "lease_select visit now lanes incl table = None \<longleftrightarrow> (\<forall>j \<in> set table. \<not> lease_where now lanes incl j)"
proof -
  have "set (sort_key lease_order (filter (lease_where now lanes incl) (visit table)))
      = {j \<in> set table. lease_where now lanes incl j}" using assms by auto
  then show ?thesis
    by (cases "sort_key lease_order (filter (lease_where now lanes incl) (visit table))") (auto simp: lease_select_def)
qed

definition leased_row :: "rat \<Rightarrow> pystr \<Rightarrow> rat \<Rightarrow> job \<Rightarrow> job" where
  "leased_row now worker secs j =
     j\<lparr>j_status := ''leased'', j_leased_until := Some (lease_until now secs), j_worker_id := Some worker,
       j_updated_at := now\<rparr>"

lemma lease_update_row: "lease_update now worker secs jid = update_job jid (leased_row now worker secs)"
  by (rule ext) (simp add: lease_update_def leased_row_def update_job_def)

definition started_row :: "rat \<Rightarrow> pystr \<Rightarrow> job \<Rightarrow> job" where
  "started_row now worker j =
     j\<lparr>j_status := ''running'', j_worker_id := Some worker, j_attempt_count := j_attempt_count j + 1,
       j_updated_at := now\<rparr>"

lemma mark_running_row: "mark_job_running now jid worker table = update_job jid (started_row now worker) table"
  by (simp add: mark_job_running_def started_row_def update_job_def)

lemma row_fields [simp]:
  "j_job_id (leased_row now worker secs j) = j_job_id j" "unique_key (leased_row now worker secs j) = unique_key j"
  "j_status (leased_row now worker secs j) = ''leased''" "j_attempt_count (leased_row now worker secs j) = j_attempt_count j"
  "j_max_attempts (leased_row now worker secs j) = j_max_attempts j"
  "j_job_id (started_row now worker j) = j_job_id j" "unique_key (started_row now worker j) = unique_key j"
  "j_status (started_row now worker j) = ''running''" "j_attempt_count (started_row now worker j) = j_attempt_count j + 1"
  "j_max_attempts (started_row now worker j) = j_max_attempts j"
  by (simp_all add: leased_row_def started_row_def unique_key_def)

lemma find_updated:
  assumes "distinct (map j_job_id table)" "j \<in> set table" "\<And>k. j_job_id (f k) = j_job_id k"
  shows "find_job (j_job_id j) (update_job (j_job_id j) f table) = Some (f j)"
proof -
  have "f j \<in> set (update_job (j_job_id j) f table)" using assms(2) by (force simp: in_update_job)
  moreover have "distinct (map j_job_id (update_job (j_job_id j) f table))" using assms(1,3) by simp
  ultimately show ?thesis using find_distinct assms(3) by metis
qed

lemma lease_next_job_Some:
  assumes "queue_ok table" "set (visit table) = set table" "lease_select visit now lanes incl table = Some j"
  shows "lease_next_job visit now worker secs lanes incl table =
    (Some (from_row (leased_row now worker secs j)), update_job (j_job_id j) (leased_row now worker secs) table)"
proof -
  have "j \<in> set table" by (rule lease_select_Some(1) [OF assms(2,3)])
  with assms(1) have "find_job (j_job_id j) (update_job (j_job_id j) (leased_row now worker secs) table)
      = Some (leased_row now worker secs j)"
    by (intro find_updated) (auto simp: queue_ok_def leased_row_def)
  with assms(3) show ?thesis by (simp add: lease_next_job_def lease_update_row Let_def)
qed

section \<open>Leases exclude each other\<close>

text \<open>A job is held until \<open>u\<close>: it is leased or running and its lease lasts at least that long.\<close>

definition held_job :: "rat \<Rightarrow> job \<Rightarrow> bool" where
  "held_job u j \<longleftrightarrow> j_status j \<in> {''leased'', ''running''}
     \<and> (case j_leased_until j of None \<Rightarrow> False | Some t \<Rightarrow> u \<le> t)"

definition held :: "pystr \<Rightarrow> rat \<Rightarrow> job list \<Rightarrow> bool" where
  "held jid u table \<longleftrightarrow>
     (\<forall>j \<in> set table. j_job_id j = jid \<longrightarrow> held_job u j) \<and> jid \<in> j_job_id ` set table"

text \<open>The calls that end a lease early: a result for the job, or a cancellation.\<close>

definition ends_lease :: "pystr \<Rightarrow> queue_call \<Rightarrow> bool" where
  "ends_lease jid c \<longleftrightarrow> (case c of Result _ j _ _ _ \<Rightarrow> j = jid | Cancel _ _ \<Rightarrow> True | _ \<Rightarrow> False)"

definition leases_by :: "rat \<Rightarrow> queue_call \<Rightarrow> bool" where
  "leases_by u c \<longleftrightarrow> (case c of Lease now _ _ _ _ \<Rightarrow> now \<le> u | _ \<Rightarrow> True)"

lemma held_not_leasable: "held jid u table \<Longrightarrow> now \<le> u \<Longrightarrow> j \<in> set table \<Longrightarrow> j_job_id j = jid \<Longrightarrow> \<not> leasable now j"
  by (auto simp: held_def held_job_def leasable_def split: option.splits)

lemma held_update_other:
  assumes "held jid u table" "jid' \<noteq> jid" "\<And>j. j_job_id (f j) = j_job_id j"
  shows "held jid u (update_job jid' f table)"
  using assms unfolding held_def update_job_ids [OF assms(3)]
  by (auto simp: in_update_job split: if_splits)

lemma held_running: "held jid u table \<Longrightarrow> held jid u (mark_job_running now jid' worker table)"
proof -
  have f: "held_job u j \<Longrightarrow> held_job u (started_row now worker j)" for j by (simp add: held_job_def started_row_def)
  assume "held jid u table"
  then show ?thesis unfolding held_def mark_running_row update_job_ids [OF row_fields(6)]
    using f by (auto simp: in_update_job split: if_splits)
qed

lemma held_append: "held jid u table \<Longrightarrow> (\<forall>j \<in> set js. j_job_id j \<noteq> jid) \<Longrightarrow> held jid u (table @ js)"
  by (auto simp: held_def)

lemma held_insert_rows: "held jid u (fst acc) \<Longrightarrow> held jid u (fst (fold insert_row js acc))"
proof (induction js arbitrary: acc)
  case (Cons j js)
  have "held jid u (fst (insert_row j acc))"
    using Cons.prems by (cases acc) (auto simp: insert_row_def insert_or_ignore_def Let_def held_def)
  with Cons.IH show ?case by simp
qed simp

lemma held_step:
  assumes ok: "queue_ok table" and perm: "\<And>t. set (visit t) = set t" and h: "held jid u table"
    and c: "\<not> ends_lease jid c" "leases_by u c"
  shows "fst (queue_step visit c table) \<noteq> Some jid \<and> held jid u (snd (queue_step visit c table))"
proof (cases c)
  case (Enqueue args tasks src)
  with h held_insert_rows [of jid u "(table, 0, 0)"] show ?thesis
    by (auto simp: queue_step_def enqueue_result Let_def split: sum.splits)
next
  case (Lease now worker secs lanes incl)
  show ?thesis
  proof (cases "lease_select visit now lanes incl table")
    case None
    with Lease h show ?thesis by (simp add: queue_step_def lease_next_job_def)
  next
    case (Some j)
    note sel = lease_select_Some [OF perm Some]
    have "j_job_id j \<noteq> jid"
      using held_not_leasable [OF h _ sel(1)] sel(2) c(2) Lease by (auto simp: lease_where_def leases_by_def)
    with lease_next_job_Some [OF ok perm Some] h held_update_other [of jid u table "j_job_id j" "leased_row now worker secs"]
    show ?thesis by (simp add: queue_step_def Lease from_row_def leased_row_def)
  qed
next
  case (Running now jid' worker)
  with h show ?thesis by (simp add: queue_step_def held_running)
next
  case (Result now jid' status result err)
  with h c(1) show ?thesis
    by (auto simp: queue_step_def mark_job_result_def ends_lease_def intro!: held_update_other)
next
  case (Cancel now run_id)
  with c(1) show ?thesis by (simp add: ends_lease_def)
qed

lemma held_run:
  assumes "queue_ok table" "\<And>t. set (visit t) = set t" "held jid u table"
    "\<forall>c \<in> set cs. \<not> ends_lease jid c \<and> leases_by u c"
  shows "Some jid \<notin> set (fst (queue_run visit cs table))"
  using assms(1,3,4)
proof (induction cs arbitrary: table)
  case (Cons c cs)
  from Cons.prems held_step [OF Cons.prems(1) assms(2) Cons.prems(2), of c]
  have s: "fst (queue_step visit c table) \<noteq> Some jid" "held jid u (snd (queue_step visit c table))" by simp_all
  from Cons.IH [OF queue_step_ok [OF Cons.prems(1)] s(2)] Cons.prems(3) s(1)
  show ?case by (simp add: Let_def case_prod_unfold)
qed simp

section \<open>The worker loop\<close>

text \<open>How often a worker can still run a job: once more than its attempts allow, if it may be leased.\<close>

definition job_work :: "job \<Rightarrow> nat" where
  "job_work j =
     (if j_status j \<in> {''queued'', ''leased'', ''running''}
         \<or> (j_status j = ''failed'' \<and> j_attempt_count j < j_max_attempts j)
        then 1 + nat (j_max_attempts j - j_attempt_count j) else 0)"

definition work_left :: "job list \<Rightarrow> nat" where
  "work_left table = sum_list (map job_work table)"

lemma work_left_update:
  assumes "distinct (map j_job_id table)" "j \<in> set table"
  shows "work_left (update_job (j_job_id j) f table) + job_work j = work_left table + job_work (f j)"
  using assms
proof (induction table)
  case (Cons k table)
  have other: "update_job (j_job_id k) f table = table" if "j_job_id k \<notin> j_job_id ` set table"
    using that by (induction table) (auto simp: update_job_def)
  show ?case
  proof (cases "k = j")
    case True
    with Cons.prems(1) other have "update_job (j_job_id j) f table = table" by simp
    with True show ?thesis by (simp add: work_left_def update_job_def)
  next
    case False
    with Cons.prems have "j \<in> set table" "j_job_id k \<noteq> j_job_id j" by auto
    with Cons show ?thesis by (simp add: work_left_def update_job_def)
  qed
qed simp

lemma leasable_work: "leasable now j \<Longrightarrow> job_work j = 1 + nat (j_max_attempts j - j_attempt_count j)"
  by (auto simp: leasable_def job_work_def)

lemma process_status_known:
  "\<exists>s r k. process_status e = (s, r, k) \<and> s \<in> {''succeeded'', ''timeout'', ''failed''}"
  by (cases e) auto

text \<open>Every pass that leases a job uses up some of the work.\<close>

lemma update_twice:
  assumes "\<And>j. j_job_id (f j) = j_job_id j"
  shows "update_job jid g (update_job jid f table) = update_job jid (\<lambda>j. g (f j)) table"
  using assms by (auto simp: update_job_def)

lemma result_table:
  assumes "status \<in> set JOB_STATUSES"
  obtains f where "mark_job_result now jid status result err table = Inr (update_job jid f table)"
    "\<And>j. j_job_id (f j) = j_job_id j" "\<And>j. unique_key (f j) = unique_key j" "\<And>j. j_status (f j) = status"
    "\<And>j. j_attempt_count (f j) = j_attempt_count j" "\<And>j. j_max_attempts (f j) = j_max_attempts j"
  using assms by (auto simp: mark_job_result_def unique_key_def)

lemma run_leased_jobs:
  assumes "process_status (tk_end t) = (s, r, k)"
    "mark_job_result (tk_finish t) (a_job_id job) s (Some r) (tk_error t)
      (mark_job_running (tk_mark t) (a_job_id job) (wa_worker_id args) (wd_jobs w)) = Inr jobs"
  shows "\<exists>b n w3. run_leased args t job w = Inr (b, n, w3) \<and> wd_jobs w3 = jobs"
  using assms by (cases "s = ''timeout''"; cases k) (auto simp: run_leased_def Let_def log_event_def)

lemma worker_step_decreases:
  assumes ok: "queue_ok (wd_jobs w)" and perm: "\<And>t. set (wa_visit args t) = set t"
  obtains "\<exists>e r w'. worker_step args t w = Inr (False, e, r, w') \<and> queue_ok (wd_jobs w')"
  | e r w' where "worker_step args t w = Inr (True, e, r, w')" "queue_ok (wd_jobs w')"
      "work_left (wd_jobs w') < work_left (wd_jobs w)"
proof -
  let ?w1 = "w\<lparr>wd_slots := map_option (\<lambda>n. n - 1) (wd_slots w),
      wd_quarantine := refresh_action_quarantine (wa_refresh args) (tk_refresh t) (scoped_timeouts w)
        (wd_jobs w) (wd_quarantine w)\<rparr>"
  let ?incl = "lit ''heavy'' \<in> set (lane_set args) \<and> wa_heavy_allows args"
  let ?sel = "lease_select (wa_visit args) (tk_lease t) (lane_set args) ?incl (wd_jobs w)"
  let ?lr = "leased_row (tk_lease t) (wa_worker_id args) (wa_timeout_s args + 60)"
  show thesis
  proof (cases "(case wd_slots w of None \<Rightarrow> False | Some n \<Rightarrow> n \<le> 0) \<or> ?sel = None")
    case True
    then have "\<exists>e r w'. worker_step args t w = Inr (False, e, r, w') \<and> queue_ok (wd_jobs w')"
      using ok by (auto simp: worker_step_def lease_job_def lease_next_job_def Let_def)
    then show thesis by (rule that(1))
  next
    case False
    then obtain j where sel: "?sel = Some j" and slot: "\<not> (case wd_slots w of None \<Rightarrow> False | Some n \<Rightarrow> n \<le> 0)" by auto
    note j = lease_select_Some [OF perm sel]
    have lease: "lease_job args t ?w1 = (Some (from_row (?lr j)), update_job (j_job_id j) ?lr (wd_jobs w))"
      using lease_next_job_Some [OF ok perm sel, of "wa_worker_id args" "wa_timeout_s args + 60"]
      by (simp add: lease_job_def)
    have jid: "a_job_id (from_row (?lr j)) = j_job_id j" by (simp add: from_row_def leased_row_def)
    have dist: "distinct (map j_job_id (wd_jobs w))" using ok by (simp add: queue_ok_def)
    have work: "job_work j = 1 + nat (j_max_attempts j - j_attempt_count j)"
      using j(2) leasable_work by (auto simp: lease_where_def)
    have table: "queue_ok (update_job (j_job_id j) h (wd_jobs w)) \<and> work_left (update_job (j_job_id j) h (wd_jobs w)) < work_left (wd_jobs w)"
      if "\<And>k. j_job_id (h k) = j_job_id k" "\<And>k. unique_key (h k) = unique_key k"
        "\<And>k. j_status (h k) = s" "s \<in> set JOB_STATUSES" "\<And>k. 0 \<le> j_attempt_count k \<Longrightarrow> 0 \<le> j_attempt_count (h k)"
        "job_work (h j) < job_work j" for h s
      using queue_ok_update [OF ok, of h] work_left_update [OF dist j(1), of h] that by auto
    obtain quarantined reason where q: "is_action_quarantined (wd_quarantine ?w1) (a_action_id (from_row (?lr j)))
        (a_tactic_hash (from_row (?lr j))) = (quarantined, reason)" by fastforce
    let ?go = "quarantined \<and> \<not> (a_lane (from_row (?lr j)) = lit ''heavy'' \<and> wa_heavy_allows args)"
    show thesis
    proof (cases ?go)
      case True
      obtain f where f: "mark_job_result (tk_mark t) (j_job_id j) ''quarantined'' (Some (tk_synthetic t)) (Some reason)
          (update_job (j_job_id j) ?lr (wd_jobs w)) = Inr (update_job (j_job_id j) f (update_job (j_job_id j) ?lr (wd_jobs w)))"
        "\<And>j. j_job_id (f j) = j_job_id j" "\<And>j. unique_key (f j) = unique_key j" "\<And>j. j_status (f j) = ''quarantined''"
        "\<And>j. j_attempt_count (f j) = j_attempt_count j" "\<And>j. j_max_attempts (f j) = j_max_attempts j"
        by (rule result_table [where status = "''quarantined''" and now = "tk_mark t" and jid = "j_job_id j"
              and result = "Some (tk_synthetic t)" and err = "Some reason"
              and table = "update_job (j_job_id j) ?lr (wd_jobs w)"]) (simp_all add: JOB_STATUSES_def)
      let ?h = "\<lambda>k. f (?lr k)"
      have "worker_step args t w = Inr (True, 1, 0, ?w1\<lparr>wd_jobs := update_job (j_job_id j) ?h (wd_jobs w)\<rparr>)"
        using slot lease q True f(1) by (simp add: worker_step_def Let_def jid update_twice )
      moreover have "queue_ok (update_job (j_job_id j) ?h (wd_jobs w))
          \<and> work_left (update_job (j_job_id j) ?h (wd_jobs w)) < work_left (wd_jobs w)"
        by (rule table [of _ "''quarantined''"]) (simp_all add: f JOB_STATUSES_def work, simp add: job_work_def f)
      ultimately show thesis by (intro that(2)) auto
    next
      case False
      obtain s r k where ps: "process_status (tk_end t) = (s, r, k)" and s: "s \<in> {''succeeded'', ''timeout'', ''failed''}"
        using process_status_known by blast
      let ?run = "started_row (tk_mark t) (wa_worker_id args)"
      obtain f where f: "mark_job_result (tk_finish t) (j_job_id j) s (Some r) (tk_error t)
          (update_job (j_job_id j) (\<lambda>k. ?run (?lr k)) (wd_jobs w))
          = Inr (update_job (j_job_id j) f (update_job (j_job_id j) (\<lambda>k. ?run (?lr k)) (wd_jobs w)))"
        "\<And>j. j_job_id (f j) = j_job_id j" "\<And>j. unique_key (f j) = unique_key j" "\<And>j. j_status (f j) = s"
        "\<And>j. j_attempt_count (f j) = j_attempt_count j" "\<And>j. j_max_attempts (f j) = j_max_attempts j"
        by (rule result_table [where status = s and now = "tk_finish t" and jid = "j_job_id j" and result = "Some r"
              and err = "tk_error t" and table = "update_job (j_job_id j) (\<lambda>k. ?run (?lr k)) (wd_jobs w)"])
          (use s in \<open>auto simp: JOB_STATUSES_def\<close>)
      let ?h = "\<lambda>k. f (?run (?lr k))"
      have run: "mark_job_running (tk_mark t) (j_job_id j) (wa_worker_id args) (update_job (j_job_id j) ?lr (wd_jobs w))
          = update_job (j_job_id j) (\<lambda>k. ?run (?lr k)) (wd_jobs w)"
        unfolding mark_running_row by (rule update_twice) simp
      let ?w2 = "?w1\<lparr>wd_jobs := update_job (j_job_id j) ?lr (wd_jobs w)\<rparr>"
      have "mark_job_result (tk_finish t) (a_job_id (from_row (?lr j))) s (Some r) (tk_error t)
          (mark_job_running (tk_mark t) (a_job_id (from_row (?lr j))) (wa_worker_id args) (wd_jobs ?w2))
          = Inr (update_job (j_job_id j) ?h (wd_jobs w))"
        using f(1) run by (simp add: jid update_twice)
      from run_leased_jobs [OF ps this] obtain b n w3 where w3: "run_leased args t (from_row (?lr j)) ?w2 = Inr (b, n, w3)"
        "wd_jobs w3 = update_job (j_job_id j) ?h (wd_jobs w)" by blast
      have less: "queue_ok (wd_jobs w3) \<and> work_left (wd_jobs w3) < work_left (wd_jobs w)"
        unfolding w3(2)
        by (rule table [of _ s]) (use s in \<open>auto simp: f JOB_STATUSES_def work, auto simp: job_work_def f\<close>)
      have step: "worker_step args t w = Inr (\<not> (b \<and> \<not> wa_continue_on_timeout args), 1, n, w3)"
        by (cases quarantined) (use slot lease q False w3(1) in \<open>simp_all add: worker_step_def Let_def\<close>)
      show thesis
      proof (cases "b \<and> \<not> wa_continue_on_timeout args")
        case True
        with step less show thesis by (intro that(1)) auto
      next
        case False
        with step have "worker_step args t w = Inr (True, 1, n, w3)" by simp
        with less show thesis by (intro that(2)) auto
      qed
    qed
  qed
qed

lemma worker_loop_done:
  assumes "queue_ok (wd_jobs w)" "\<And>t. set (wa_visit args t) = set t" "work_left (wd_jobs w) < length ts"
  shows "\<exists>e r w'. worker_loop args ts acc w = Some (Inr (e, r, w')) \<and> queue_ok (wd_jobs w')"
  using assms(1,3)
proof (induction ts arbitrary: acc w)
  case (Cons t ts)
  show ?case
    by (rule worker_step_decreases [where args = args and t = t, OF Cons.prems(1) assms(2)])
      (use Cons in \<open>force, simp\<close>)
qed simp

section \<open>Properties\<close>

text \<open>
  C26. The queue table is sound after every sequence of calls: identifiers and unique keys are
  distinct, every identifier is the one its key hashes to, every status is a known one and no
  attempt count is negative, whatever order SQLite visits rows in.
\<close>

theorem queue_table_sound: "queue_ok (snd (queue_run visit cs []))"
  by (rule queue_run_ok [OF queue_ok_Nil])

text \<open>
  C27. Enqueueing is idempotent: enqueueing the same tasks and actions again for the same run,
  backend, import mode and fingerprint inserts nothing and leaves the table as it is, whatever
  lane, priority, attempt limit or time the second call gives.
\<close>

theorem enqueue_idempotent:
  assumes "queue_ok table" "enqueue_audit_jobs args tasks src table = (Inr (inserted, reused), table')"
  shows "enqueue_audit_jobs (args\<lparr>ea_lane := lane, ea_priority := p, ea_max_attempts := m, ea_now := now\<rparr>) tasks src table'
    = (Inr (0, inserted + reused), table')"
proof -
  let ?args = "args\<lparr>ea_lane := lane, ea_priority := p, ea_max_attempts := m, ea_now := now\<rparr>"
  have row: "(\<exists>k. queued_row ?args task st action = Inr k \<and> j_job_id k = j_job_id j)"
    if "queued_row args task st action = Inr j" for task st action j
    using that by (auto simp: queued_row_def split: option.splits)
  have rows: "mapE (queued_row args task st) xs = Inr js \<Longrightarrow>
      \<exists>ks. mapE (queued_row ?args task st) xs = Inr ks \<and> map j_job_id ks = map j_job_id js" for task st xs js
  proof (induction xs arbitrary: js)
    case (Cons x xs)
    then obtain j js' where "queued_row args task st x = Inr j" "mapE (queued_row args task st) xs = Inr js'" "js = j # js'"
      by (auto simp: bindE_eq_Inr)
    with row Cons.IH [of js'] show ?case by (force simp: bindE_eq_Inr)
  qed simp
  have task: "\<exists>ks. task_rows ?args src t = Inr ks \<and> map j_job_id ks = map j_job_id js"
    if "task_rows args src t = Inr js" for t js
    using that rows by (auto simp: task_rows_def bindE_eq_Inr split: option.splits)
  have all: "mapE (task_rows args src) tasks = Inr jss \<Longrightarrow>
      \<exists>kss. mapE (task_rows ?args src) tasks = Inr kss \<and> map j_job_id (concat kss) = map j_job_id (concat jss)" for jss
  proof (induction tasks arbitrary: jss)
    case (Cons t tasks)
    then obtain js jss' where "task_rows args src t = Inr js" "mapE (task_rows args src) tasks = Inr jss'" "jss = js # jss'"
      by (auto simp: bindE_eq_Inr)
    with task Cons.IH [of jss'] show ?case by (force simp: bindE_eq_Inr)
  qed simp
  from assms(2) obtain jss where jss: "mapE (task_rows args src) tasks = Inr jss"
    and res: "fold insert_row (concat jss) (table, 0, 0) = (table', inserted, reused)"
    by (auto simp: enqueue_result Let_def split: sum.splits) (metis prod.collapse)
  from all [OF jss] obtain kss where kss: "mapE (task_rows ?args src) tasks = Inr kss"
    and ids: "map j_job_id (concat kss) = map j_job_id (concat jss)" by blast
  have "j_job_id ` set (concat jss) \<subseteq> j_job_id ` set table'"
    using insert_rows_ok [OF all_rows_ok [OF jss], of "(table, 0, 0)"] assms(1) res by simp
  moreover have "j_job_id ` set (concat kss) = j_job_id ` set (concat jss)" using ids by (metis set_map)
  ultimately have "\<forall>j \<in> set (concat kss). j_job_id j \<in> j_job_id ` set table'" by blast
  then have "fold insert_row (concat kss) (table', 0, 0) = (table', 0, length (concat kss))"
    using insert_rows_known [of "concat kss" "(table', 0, 0)"] by simp
  moreover have "length (concat kss) = inserted + reused"
    using insert_rows_counts [of "concat jss" "(table, 0, 0)"] res ids by (metis (no_types, lifting) add_0 fst_conv length_map snd_conv)
  ultimately show ?thesis using kss by (simp add: enqueue_result Let_def)
qed

text \<open>
  C28. A lease takes the best job that may be leased: none only if no job matches, and otherwise
  one of the highest priority and, among those, of the earliest creation; exactly that row becomes
  leased to the worker until the lease runs out, and the caller gets its new contents.
\<close>

theorem lease_takes_best:
  assumes "queue_ok table" "set (visit table) = set table"
  shows "case lease_next_job visit now worker secs lanes incl table of
      (None, table') \<Rightarrow> table' = table \<and> (\<forall>j \<in> set table. \<not> lease_where now lanes incl j)
    | (Some a, table') \<Rightarrow> \<exists>j \<in> set table. lease_where now lanes incl j
        \<and> (\<forall>k \<in> set table. lease_where now lanes incl k \<longrightarrow>
            j_priority k < j_priority j \<or> (j_priority k = j_priority j \<and> j_created_at j \<le> j_created_at k))
        \<and> a = from_row (leased_row now worker secs j)
        \<and> table' = map (\<lambda>k. if k = j then leased_row now worker secs j else k) table"
proof (cases "lease_select visit now lanes incl table")
  case None
  with lease_select_None [of visit table now lanes incl, OF assms(2)] show ?thesis
    by (simp add: lease_next_job_def)
next
  case (Some j)
  note sel = lease_select_Some [OF assms(2) Some]
  have best: "j_priority k < j_priority j \<or> (j_priority k = j_priority j \<and> j_created_at j \<le> j_created_at k)"
    if "k \<in> set table" "lease_where now lanes incl k" for k
    using sel(3) [OF that] by (auto simp: lease_order_def)
  have same: "j_job_id k = j_job_id j \<longleftrightarrow> k = j" if "k \<in> set table" for k
    using assms(1) sel(1) that by (auto simp: queue_ok_def distinct_map inj_on_def)
  have "update_job (j_job_id j) (leased_row now worker secs) table
      = map (\<lambda>k. if k = j then leased_row now worker secs j else k) table"
    unfolding update_job_def by (rule map_cong) (use same in auto)
  with lease_next_job_Some [OF assms Some] sel(1,2) best show ?thesis by auto
qed

text \<open>
  C29. Leases exclude each other: after a job was leased, no later sequence of calls leases it again
  before its lease has run out, unless a result is recorded for it or jobs are cancelled.
\<close>

theorem leases_exclude:
  assumes "queue_ok table" and "\<And>t. set (visit t) = set t"
    and "lease_next_job visit now worker secs lanes incl table = (Some a, table')"
    and "\<forall>c \<in> set cs. \<not> ends_lease (a_job_id a) c \<and> leases_by (lease_until now secs) c"
  shows "Some (a_job_id a) \<notin> set (fst (queue_run visit cs table'))"
proof -
  obtain j where j: "lease_select visit now lanes incl table = Some j"
    using assms(3) by (auto simp: lease_next_job_def split: option.splits)
  from lease_next_job_Some [OF assms(1,2) j] assms(3)
  have a: "a = from_row (leased_row now worker secs j)" "table' = update_job (j_job_id j) (leased_row now worker secs) table"
    by simp_all
  then have id: "a_job_id a = j_job_id j" by (simp add: from_row_def)
  have "queue_ok table'"
    using lease_ok [OF assms(1), of visit now worker secs lanes incl] assms(3) by simp
  moreover have "held (a_job_id a) (lease_until now secs) table'"
  proof -
    have "held_job (lease_until now secs) (leased_row now worker secs k)" for k
      by (simp add: held_job_def leased_row_def)
    then show ?thesis
      using lease_select_Some(1) [OF assms(2) j] unfolding held_def a(2) id update_job_ids [OF row_fields(1)]
      by (auto simp: in_update_job split: if_splits) metis
  qed
  ultimately show ?thesis by (rule held_run [OF _ assms(2) _ assms(4)])
qed

text \<open>
  C30. The worker loop ends: on a sound table a single worker stops after at most one pass more than
  the sum of one plus the attempts left, none if they are used up, over the jobs that are queued,
  leased, running, or failed with attempts left, however the clock moves and whatever the jobs answer;
  it raises nothing and leaves the table sound. (The one per job is needed: a running job without
  attempts left is leased once more when its lease expires.)
\<close>

theorem worker_loop_terminates:
  assumes "queue_ok (wd_jobs w)" "\<And>t. set (wa_visit args t) = set t" "work_left (wd_jobs w) < length ts"
  shows "\<exists>executed restarts w'. worker_loop args ts (0, 0) w = Some (Inr (executed, restarts, w')) \<and> queue_ok (wd_jobs w')"
  using worker_loop_done [OF assms] by blast

section \<open>Two observations\<close>

text \<open>
  \<^verbatim>\<open>include_quarantined\<close> has no effect: a quarantined job is in none of the statuses the query
  selects.
\<close>

theorem include_quarantined_has_no_effect:
  "lease_select visit now lanes True table = lease_select visit now lanes False table"
proof -
  have "lease_where now lanes True = lease_where now lanes False"
    by (rule ext) (auto simp: lease_where_def leasable_def)
  then show ?thesis by (simp add: lease_select_def)
qed

text \<open>
  The \<^verbatim>\<open>UPDATE\<close> of a lease asks only for the identifier. When a second worker selects before the
  first one's update, both get the job.
\<close>

theorem interleaved_leases_share_a_job:
  assumes "queue_ok table" "set (visit table) = set table"
    and "lease_select visit now lanes incl table = Some j" "lease_select visit now' lanes' incl' table = Some j"
  shows "find_job (j_job_id j) (lease_update now worker secs (j_job_id j) table) = Some (leased_row now worker secs j)"
    and "\<exists>k. find_job (j_job_id j) (lease_update now' worker' secs (j_job_id j)
          (lease_update now worker secs (j_job_id j) table)) = Some k
        \<and> j_status k = ''leased'' \<and> j_worker_id k = Some worker'"
proof -
  have j: "j \<in> set table" "distinct (map j_job_id table)"
    using lease_select_Some(1) [OF assms(2,3)] assms(1) by (simp_all add: queue_ok_def)
  show "find_job (j_job_id j) (lease_update now worker secs (j_job_id j) table) = Some (leased_row now worker secs j)"
    using j by (simp add: lease_update_row find_updated)
  show "\<exists>k. find_job (j_job_id j) (lease_update now' worker' secs (j_job_id j)
          (lease_update now worker secs (j_job_id j) table)) = Some k
        \<and> j_status k = ''leased'' \<and> j_worker_id k = Some worker'"
    using j by (simp add: lease_update_row update_twice find_updated) (simp add: leased_row_def)
qed

section \<open>A concrete queue\<close>

lemma surrogate_join: "list_ex is_surrogate (spaced_join xs) \<longleftrightarrow> (\<exists>x \<in> set xs. list_ex is_surrogate x)"
  by (induction xs rule: spaced_join.induct) (auto simp: lit_def is_surrogate_def)

lemma surrogate_hex: "n < 16 \<Longrightarrow> \<not> is_surrogate (hex_lower n)"
  by (drule less_16_cases) (auto simp: hex_lower_def is_surrogate_def)

lemma surrogate_escape: "list_ex is_surrogate (escape c) \<longleftrightarrow> is_surrogate c"
proof (cases "c < 0x20")
  case True
  then have "\<not> is_surrogate c" "unat c div 16 < 16" by (auto simp: is_surrogate_def word_less_nat_alt word_le_nat_alt)
  with surrogate_hex show ?thesis by (auto simp: escape_def is_surrogate_def)
next
  case False
  then show ?thesis by (auto simp: escape_def is_surrogate_def)
qed

lemma surrogate_quoted: "list_ex is_surrogate (quoted s) \<longleftrightarrow> list_ex is_surrogate s"
proof -
  have "list_ex is_surrogate (concat (map escape s)) \<longleftrightarrow> list_ex is_surrogate s"
    by (induction s) (auto simp: surrogate_escape)
  then show ?thesis by (simp add: quoted_def is_surrogate_def)
qed

lemma stable_hash_some:
  assumes "\<And>k v. (k, v) \<in> set kvs \<Longrightarrow> \<not> list_ex is_surrogate k \<and> \<not> list_ex is_surrogate v"
  obtains h where "stable_hash kvs n = Some h" "\<not> list_ex is_surrogate h"
proof -
  have sep: "\<not> list_ex is_surrogate (lit '': '')" "\<not> is_surrogate lbrace" "\<not> is_surrogate rbrace"
    by (simp_all add: lit_def is_surrogate_def)
  have "\<not> has_surrogate (dumps_strings kvs)"
    using assms sep by (fastforce simp: has_surrogate_def dumps_strings_def surrogate_join surrogate_quoted)
  then have u: "utf8 (dumps_strings kvs) = Some (utf8_raw (dumps_strings kvs))" by (simp add: utf8_def)
  have "\<not> list_ex is_surrogate (hex_digest m)" for m
  proof -
    have "unat (b :: byte) div 16 < 16" for b by (rule byte_nibbles)
    then show ?thesis using surrogate_hex by (auto simp: hex_digest_def list_ex_iff)
  qed
  then have "\<not> list_ex is_surrogate (take n (hex_digest m))" for m by (auto simp: list_ex_iff dest: in_set_takeD)
  with u show thesis by (intro that) (simp_all add: stable_hash_def)
qed

definition ex_task :: lean_task where
  "ex_task = \<lparr>lt_task_id = lit ''t'', lt_statement = lit ''1 = 1'', lt_to_dict = JObj []\<rparr>"

definition ex_action :: tactic_action where
  "ex_action = \<lparr>ta_action_id = lit ''a'', ta_tactic = lit ''rfl'', ta_to_dict = JObj []\<rparr>"

definition ex_args :: enqueue_args where
  "ex_args = \<lparr>ea_run_id = lit ''r'', ea_backend = lit ''b'', ea_import_mode = lit ''m'', ea_fingerprint = lit ''f'',
     ea_max_actions = 64, ea_max_attempts = 2, ea_lane = lit ''source_check'', ea_priority = 0, ea_now = 10\<rparr>"

lemma ex_enqueued:
  obtains j where "enqueue_audit_jobs ex_args [ex_task] (Shared [ex_action]) [] = (Inr (1, 0), [j])"
    "j_status j = ''queued''" "j_lane j = lit ''source_check''" "j_attempt_count j = 0" "j_max_attempts j = 2"
proof -
  note plain = ex_task_def ex_action_def ex_args_def lit_def is_surrogate_def
  obtain h where h: "stable_hash [(lit ''task_id'', lt_task_id ex_task), (lit ''statement'', lt_statement ex_task)] 16 = Some h"
    "\<not> list_ex is_surrogate h" by (rule stable_hash_some) (auto simp: plain)
  obtain g where g: "stable_hash [(lit ''tactic'', ta_tactic ex_action)] 24 = Some g" by (rule stable_hash_some) (auto simp: plain)
  obtain i where i: "stable_hash (key_fields (lit ''r'', lit ''t'', h, lit ''a'', lit ''b'', lit ''m'', lit ''f'')) 24 = Some i"
    by (rule stable_hash_some) (use h(2) in \<open>auto simp: key_fields_def plain\<close>)
  let ?st = "\<lparr>ps_state_id = h, ps_task_id = lt_task_id ex_task, ps_target = lt_statement ex_task\<rparr>"
  have st: "state_from_task ex_task = Some ?st" using h(1) by (simp add: state_from_task_def)
  obtain j where j: "queued_row ex_args ex_task ?st ex_action = Inr j" "j_status j = ''queued''" "j_lane j = lit ''source_check''"
    "j_attempt_count j = 0" "j_max_attempts j = 2"
    using g i by (simp add: queued_row_def make_job_id_def) (simp add: ex_args_def ex_task_def ex_action_def)
  have n: "take (nat (ea_max_actions ex_args)) [ex_action] = [ex_action]" by (simp add: ex_args_def)
  have "task_rows ex_args (Shared [ex_action]) ex_task = Inr [j]"
    by (simp only: task_rows_def st actions_for_def action_source.case option.case bindE_Inr n) (simp add: j(1))
  then have "enqueue_audit_jobs ex_args [ex_task] (Shared [ex_action]) [] = (Inr (1, 0), [j])"
    by (simp add: enqueue_result insert_row_def insert_or_ignore_def)
  with j show thesis by (intro that)
qed

lemma ex_queue:
  obtains j where "queue_ok [j]" "j_status j = ''queued''" "j_lane j = lit ''source_check''" "j_attempt_count j = 0"
    "j_max_attempts j = 2"
proof -
  obtain j where j: "enqueue_audit_jobs ex_args [ex_task] (Shared [ex_action]) [] = (Inr (1, 0), [j])"
    "j_status j = ''queued''" "j_lane j = lit ''source_check''" "j_attempt_count j = 0" "j_max_attempts j = 2"
    by (rule ex_enqueued)
  have "queue_ok [j]" using enqueue_ok [OF queue_ok_Nil, of ex_args "[ex_task]" "Shared [ex_action]"] j(1) by simp
  with j show thesis by (intro that)
qed

theorem enqueue_idempotent_witness:
  "\<exists>table. enqueue_audit_jobs ex_args [ex_task] (Shared [ex_action]) [] = (Inr (1, 0), table)
    \<and> enqueue_audit_jobs (ex_args\<lparr>ea_lane := lit ''heavy'', ea_priority := 5, ea_max_attempts := 7, ea_now := 99\<rparr>) [ex_task]
      (Shared [ex_action]) table = (Inr (0, 1), table)"
proof -
  obtain j where j: "enqueue_audit_jobs ex_args [ex_task] (Shared [ex_action]) [] = (Inr (1, 0), [j])" by (rule ex_enqueued)
  from enqueue_idempotent [OF queue_ok_Nil j, where lane = "lit ''heavy''" and p = 5 and m = 7 and now = 99] j show ?thesis by auto
qed

theorem lease_takes_best_witness:
  "\<exists>j. queue_ok [j] \<and> j_status j = ''queued'' \<and> lease_next_job id 20 (lit ''w'') 60 [] False [j]
    = (Some (from_row (leased_row 20 (lit ''w'') 60 j)), [leased_row 20 (lit ''w'') 60 j])"
proof -
  obtain j where j: "queue_ok [j]" "j_status j = ''queued''" by (rule ex_queue)
  have "lease_where 20 [] False j" using j(2) by (simp add: lease_where_def leasable_def lane_list_def)
  with lease_takes_best [where table = "[j]" and visit = id and now = 20 and worker = "lit ''w''" and secs = 60
      and lanes = "[]" and incl = False] j show ?thesis
    by (intro exI [of _ j]) (auto split: prod.splits option.splits)
qed

theorem leases_exclude_witness:
  "\<exists>j a table'. queue_ok [j] \<and> lease_next_job id 20 (lit ''w'') 60 [] False [j] = (Some a, table')
    \<and> Some (a_job_id a) \<notin> set (fst (queue_run id [Running 21 (a_job_id a) (lit ''w''), Lease 50 (lit ''v'') 60 [] False] table'))"
proof -
  obtain j where j: "queue_ok [j]" "j_status j = ''queued''" by (rule ex_queue)
  then have sel: "lease_select id 20 [] False [j] = Some j"
    by (simp add: lease_select_def lease_where_def leasable_def lane_list_def)
  note lease = lease_next_job_Some [OF j(1) _ sel, of "lit ''w''" 60, simplified]
  from leases_exclude [OF j(1) _ lease, of "[Running 21 (j_job_id j) (lit ''w''), Lease 50 (lit ''v'') 60 [] False]"]
  have "Some (a_job_id (from_row (leased_row 20 (lit ''w'') 60 j))) \<notin> set (fst (queue_run id
      [Running 21 (j_job_id j) (lit ''w''), Lease 50 (lit ''v'') 60 [] False]
      (update_job (j_job_id j) (leased_row 20 (lit ''w'') 60) [j])))"
    by (simp add: ends_lease_def leases_by_def lease_until_def)
  moreover have "a_job_id (from_row (leased_row 20 (lit ''w'') 60 j)) = j_job_id j" by (simp add: from_row_def)
  ultimately show ?thesis using j(1) lease by (intro exI conjI) auto
qed

definition ex_worker :: worker_args where
  "ex_worker = \<lparr>wa_worker_id = lit ''w'', wa_timeout_s = 20, wa_lanes = [], wa_heavy_allows = True, wa_import_wall_s = None,
     wa_continue_on_timeout = True, wa_refresh = refresh_defaults (\<lambda>_. []), wa_visit = id\<rparr>"

definition ex_tick :: tick where
  "ex_tick = \<lparr>tk_refresh = 20, tk_lease = 20, tk_mark = 20, tk_finish = 25, tk_end = Child_Failed (JObj []),
     tk_synthetic = JObj [], tk_error = None\<rparr>"

theorem worker_loop_terminates_witness:
  "\<exists>j executed restarts w'. queue_ok [j] \<and> work_left [j] = 3 \<and> worker_loop ex_worker (replicate 4 ex_tick) (0, 0)
    \<lparr>wd_jobs = [j], wd_quarantine = [], wd_timeouts = [], wd_events = [], wd_slots = None\<rparr>
    = Some (Inr (executed, restarts, w'))"
proof -
  obtain j where j: "queue_ok [j]" "j_status j = ''queued''" "j_attempt_count j = 0" "j_max_attempts j = 2" by (rule ex_queue)
  then have work: "work_left [j] = 3" by (simp add: work_left_def job_work_def)
  let ?w = "\<lparr>wd_jobs = [j], wd_quarantine = [], wd_timeouts = [], wd_events = [], wd_slots = None\<rparr>"
  have "set (wa_visit ex_worker t) = set t" for t by (simp add: ex_worker_def)
  from worker_loop_terminates [of ?w ex_worker "replicate 4 ex_tick", OF _ this] j(1) work show ?thesis by auto
qed

end
