(* ===== verification/Hankel.thy ===== *)
theory Hankel
  imports ReachableChart Complex_Main
begin

text \<open>
  \<^verbatim>\<open>odlrq/hankel.py\<close>: the exact rank of a rational matrix and the Hankel matrices of a chart at the
  three cutoffs. The singular values and the rounded quotient of two of them come from the
  numerical library, so they are the parameters of \<open>svd_env\<close>; doubles are the rationals they denote.
\<close>

definition RESPONSE_CHANNELS :: "string list" where
  "RESPONSE_CHANNELS = [''closed_indicator'', ''sink_indicator'', ''open_goal_count'',
     ''open_unassigned_mvar_count'', ''pending_typeclass_count'', ''carrier_atom_count'',
     ''expression_node_count'']"

record hankel_cutoff_report =
  hc_cutoff :: int
  hc_rank :: nat
  hc_n_rows :: int
  hc_n_suffixes :: int
  hc_n_columns :: int
  hc_n_cells :: int
  hc_incremental_rank :: int
  hc_singular_values :: "rat list"
  hc_inverse_condition_ratio :: rat
  hc_non_sink_prefix_coverage :: rat
  hc_non_sink_suffix_coverage :: rat
  hc_per_channel_scales :: "int list"

text \<open>
  What the construction can raise: an error of the chart or of a check, the cell cap (a
  \<^verbatim>\<open>ChartPrerequisiteBlocked\<close> of its own), a decomposition that fails, an index out of range.
\<close>

datatype hankel_error =
    HankelChart chart_error
  | HankelCellCap int int
  | SvdFailed
  | SingularIndexError

datatype hankel_blocked_reason =
    CensorPresent
  | CellCapReason int int
  | ChartReason blocked_reason

record hankel_probe_report =
  hp_disposition :: string
  hp_cutoffs :: "hankel_cutoff_report list"
  hp_blocked_reason :: "hankel_blocked_reason option"

section \<open>Exact rank\<close>

definition find_pivot :: "rat list list \<Rightarrow> nat \<Rightarrow> nat \<Rightarrow> nat option" where
  "find_pivot rows p c = List.find (\<lambda>row. rows ! row ! c \<noteq> 0) [p..<length rows]"

definition swap_rows :: "nat \<Rightarrow> nat \<Rightarrow> rat list list \<Rightarrow> rat list list" where
  "swap_rows p r rows = (if r \<noteq> p then rows[p := rows ! r, r := rows ! p] else rows)"

definition scale_row :: "rat \<Rightarrow> nat \<Rightarrow> nat \<Rightarrow> rat list \<Rightarrow> rat list" where
  "scale_row v c width row = fold (\<lambda>i row. row[i := row ! i / v]) [c..<width] row"

definition subtract_row :: "rat \<Rightarrow> rat list \<Rightarrow> nat \<Rightarrow> nat \<Rightarrow> rat list \<Rightarrow> rat list" where
  "subtract_row factor prow c width row =
     fold (\<lambda>i row. row[i := row ! i - factor * prow ! i]) [c..<width] row"

definition eliminate :: "nat \<Rightarrow> nat \<Rightarrow> nat \<Rightarrow> rat list list \<Rightarrow> rat list list" where
  "eliminate p c width rows =
     fold (\<lambda>r rows. let factor = rows ! r ! c in
         if factor = 0 then rows else rows[r := subtract_row factor (rows ! p) c width (rows ! r)])
       [Suc p..<length rows] rows"

definition pivot_step :: "nat \<Rightarrow> nat \<Rightarrow> nat \<Rightarrow> nat \<Rightarrow> rat list list \<Rightarrow> rat list list" where
  "pivot_step p r c width rows =
     (let rows = swap_rows p r rows;
          rows = rows[p := scale_row (rows ! p ! c) c width (rows ! p)]
      in eliminate p c width rows)"

text \<open>The loop over the columns still to come; \<open>p\<close> is \<^verbatim>\<open>pivot_row\<close>.\<close>

fun rank_loop :: "nat \<Rightarrow> nat list \<Rightarrow> nat \<Rightarrow> rat list list \<Rightarrow> nat" where
  "rank_loop width [] p rows = p"
| "rank_loop width (c # cs) p rows =
     (case find_pivot rows p c of
        None \<Rightarrow> rank_loop width cs p rows
      | Some r \<Rightarrow>
          (if Suc p = length rows then Suc p
           else rank_loop width cs (Suc p) (pivot_step p r c width rows)))"

definition exact_rational_rank :: "rat list list \<Rightarrow> (value_error, nat) res" where
  "exact_rational_rank m =
     (if m = [] then Inr 0
      else let width = length (m ! 0) in
        if list_ex (\<lambda>row. length row \<noteq> width) m then Inl ''matrix must be rectangular''
        else if width = 0 then Inr 0
        else Inr (rank_loop width [0..<width] 0 m))"

section \<open>Dimensions\<close>

text \<open>\<^verbatim>\<open>floor(cutoff / 2)\<close> and \<^verbatim>\<open>ceil(cutoff / 2)\<close>; the halves of 1, 2 and 3 are exact doubles.\<close>

definition half_floor :: "int \<Rightarrow> int" where
  "half_floor d = d div 2"

definition half_ceil :: "int \<Rightarrow> int" where
  "half_ceil d = (d + 1) div 2"

definition power_sum :: "int \<Rightarrow> int \<Rightarrow> int" where
  "power_sum n d = (\<Sum>k\<leftarrow>[0..<nat (d + 1)]. n ^ k)"

definition hankel_dimensions :: "int \<Rightarrow> int \<Rightarrow> int \<Rightarrow> (value_error, int \<times> int \<times> int \<times> int) res" where
  "hankel_dimensions n_tasks n_actions cutoff =
     (if n_tasks \<le> 0 \<or> n_actions \<le> 0 then Inl ''task and action counts must be positive''
      else if cutoff \<notin> {1, 2, 3} then Inl ''U05 Hankel cutoff must be one of 1, 2, 3''
      else let prefix_count = power_sum n_actions (half_floor cutoff);
               suffix_count = power_sum n_actions (half_ceil cutoff);
               n_rows = n_tasks * prefix_count;
               n_columns = suffix_count * int (length RESPONSE_CHANNELS)
        in Inr (n_rows, suffix_count, n_columns, n_rows * n_columns))"

section \<open>One cutoff\<close>

definition hankel_response :: "chart \<Rightarrow> string \<Rightarrow> action_word \<Rightarrow> (chart_error, int list) res" where
  "hankel_response ch task w =
     bindE (chart_outcome ch task w) (\<lambda>out. bindE (state_for_outcome ch out) (\<lambda>st.
       liftE ChartValueError (final_response_channels out st)))"

text \<open>The locals of the two nested loops.\<close>

record hankel_loop =
  hl_row :: "int list"
  hl_scales :: "int list"
  hl_final_pairs :: nat
  hl_matrix :: "int list list"
  hl_prefixes :: nat

definition max_scales :: "int list \<Rightarrow> int list \<Rightarrow> int list" where
  "max_scales response scales =
     fold (\<lambda>(i, v) scales. scales[i := max (scales ! i) \<bar>v\<bar>]) (enumerate 0 response) scales"

definition suffix_step ::
  "chart \<Rightarrow> string \<Rightarrow> action_word \<Rightarrow> action_word \<Rightarrow> hankel_loop \<Rightarrow> (chart_error, hankel_loop) res" where
  "suffix_step ch task prefix suffix l =
     bindE (hankel_response ch task (prefix @ suffix)) (\<lambda>response.
       Inr (l\<lparr>hl_final_pairs := (if response ! 1 = 0 then hl_final_pairs l + 1 else hl_final_pairs l),
              hl_row := hl_row l @ response,
              hl_scales := max_scales response (hl_scales l)\<rparr>))"

definition row_step ::
  "chart \<Rightarrow> action_word list \<Rightarrow> string \<times> action_word \<Rightarrow> hankel_loop \<Rightarrow> (chart_error, hankel_loop) res" where
  "row_step ch suffixes = (\<lambda>(task, prefix) l.
     bindE (chart_outcome ch task prefix) (\<lambda>out.
       let l = l\<lparr>hl_prefixes := (if wo_kind out \<noteq> SINK then hl_prefixes l + 1 else hl_prefixes l),
                 hl_row := []\<rparr>
       in bindE (foldE (suffix_step ch task prefix) suffixes l) (\<lambda>l.
            Inr (l\<lparr>hl_matrix := hl_matrix l @ [hl_row l]\<rparr>))))"

definition hankel_loop_init :: hankel_loop where
  "hankel_loop_init = \<lparr>hl_row = [], hl_scales = replicate (length RESPONSE_CHANNELS) 0, hl_final_pairs = 0,
     hl_matrix = [], hl_prefixes = 0\<rparr>"

text \<open>
  \<^verbatim>\<open>numpy.linalg.svd\<close> on the matrix as doubles, \<^verbatim>\<open>None\<close> when the conversion or the iteration
  fails, and the correctly rounded quotient.
\<close>

record svd_env =
  svd_values :: "int list list \<Rightarrow> rat list option"
  svd_quotient :: "rat \<Rightarrow> rat \<Rightarrow> rat"

definition inverse_ratio :: "svd_env \<Rightarrow> nat \<Rightarrow> rat list \<Rightarrow> (hankel_error, rat) res" where
  "inverse_ratio env rank singular =
     (if rank = 0 \<or> singular = [] \<or> singular ! 0 = 0 then Inr 0
      else if length singular < rank then Inl SingularIndexError
      else Inr (svd_quotient env (singular ! (rank - 1)) (singular ! 0)))"

definition hankel_rows :: "chart \<Rightarrow> action_word list \<Rightarrow> (string \<times> action_word) list" where
  "hankel_rows ch prefixes = concat (map (\<lambda>task. map (Pair task) prefixes) (ch_task_ids ch))"

definition valueE :: "(value_error, 'a) res \<Rightarrow> (hankel_error, 'a) res" where
  "valueE m = liftE (\<lambda>e. HankelChart (ChartValueError e)) m"

definition build_hankel_cutoff ::
  "svd_env \<Rightarrow> chart \<Rightarrow> int \<Rightarrow> int \<Rightarrow> int \<Rightarrow> (hankel_error, hankel_cutoff_report \<times> int list list) res" where
  "build_hankel_cutoff env ch cutoff cell_cap previous_rank =
     (if cutoff \<notin> {1, 2, 3} then valueE (Inl ''U05 Hankel cutoff must be one of 1, 2, 3'')
      else
       bindE (valueE (action_words (ch_action_ids ch) (half_floor cutoff) True)) (\<lambda>prefixes.
       bindE (valueE (action_words (ch_action_ids ch) (half_ceil cutoff) True)) (\<lambda>suffixes.
       let rows = hankel_rows ch prefixes in
       bindE (valueE (hankel_dimensions (int (length (ch_task_ids ch))) (int (length (ch_action_ids ch))) cutoff))
         (\<lambda>(n_rows, n_suffixes, n_columns, n_cells).
         if n_rows \<noteq> int (length rows) \<or> n_suffixes \<noteq> int (length suffixes)
           then Inl (HankelChart (ChartAssertionError ''Hankel dimension arithmetic disagrees with coordinates''))
         else if n_cells > cell_cap then Inl (HankelCellCap n_cells cell_cap)
         else
           bindE (liftE HankelChart (foldE (row_step ch suffixes) rows hankel_loop_init)) (\<lambda>l.
           bindE (valueE (exact_rational_rank (map (map of_int) (hl_matrix l)))) (\<lambda>rank.
           case svd_values env (hl_matrix l) of
             None \<Rightarrow> Inl SvdFailed
           | Some singular \<Rightarrow>
               bindE (inverse_ratio env rank singular) (\<lambda>ratio.
               Inr (\<lparr>hc_cutoff = cutoff, hc_rank = rank, hc_n_rows = n_rows, hc_n_suffixes = n_suffixes,
                     hc_n_columns = n_columns, hc_n_cells = n_cells,
                     hc_incremental_rank = int rank - previous_rank, hc_singular_values = singular,
                     hc_inverse_condition_ratio = ratio,
                     hc_non_sink_prefix_coverage = of_nat (hl_prefixes l) / of_int n_rows,
                     hc_non_sink_suffix_coverage = of_nat (hl_final_pairs l) / of_int (n_rows * n_suffixes),
                     hc_per_channel_scales = hl_scales l\<rparr>, hl_matrix l))))))))"

section \<open>The probe\<close>

text \<open>\<^verbatim>\<open>1e-8\<close> as the double it denotes.\<close>

definition plateau_threshold :: rat where
  "plateau_threshold = 3022314549036573 / 302231454903657293676544"

fun blocked_by :: "hankel_error \<Rightarrow> hankel_blocked_reason option" where
  "blocked_by (HankelChart (ChartPrerequisiteBlocked r)) = Some (ChartReason r)"
| "blocked_by (HankelCellCap n cap) = Some (CellCapReason n cap)"
| "blocked_by _ = None"

text \<open>The loop over the cutoffs; the left value keeps the reports made before the error.\<close>

fun cutoff_loop ::
  "svd_env \<Rightarrow> chart \<Rightarrow> int \<Rightarrow> int list \<Rightarrow> int \<Rightarrow> hankel_cutoff_report list
   \<Rightarrow> (hankel_error \<times> hankel_cutoff_report list, hankel_cutoff_report list) res" where
  "cutoff_loop env ch cell_cap [] previous_rank reports = Inr reports"
| "cutoff_loop env ch cell_cap (d # ds) previous_rank reports =
     (case build_hankel_cutoff env ch d cell_cap previous_rank of
        Inl e \<Rightarrow> Inl (e, reports)
      | Inr (report, _) \<Rightarrow> cutoff_loop env ch cell_cap ds (int (hc_rank report)) (reports @ [report]))"

definition probe_disposition ::
  "hankel_cutoff_report \<Rightarrow> hankel_cutoff_report \<Rightarrow> hankel_cutoff_report \<Rightarrow> string" where
  "probe_disposition r1 r2 r3 =
     (if hc_rank r3 = hc_rank r2 \<and> hc_rank r2 \<noteq> 0
         \<and> (hc_n_rows r3 > hc_n_rows r2 \<or> hc_n_columns r3 > hc_n_columns r2)
         \<and> hc_inverse_condition_ratio r3 \<ge> plateau_threshold
        then ''U05_KP3_PLATEAU_AT_D3''
      else if hc_rank r1 < hc_rank r2 \<and> hc_rank r2 < hc_rank r3
         \<and> of_nat (hc_rank r3) / of_int (min (hc_n_rows r3) (hc_n_columns r3)) \<ge> (4 / 5 :: rat)
        then ''U05_KP3_NO_LOW_RANK_WINDOW_ON_FROZEN_FAMILY''
      else ''U05_KP3_INCONCLUSIVE'')"

definition evaluate_hankel_probe :: "svd_env \<Rightarrow> chart \<Rightarrow> int \<Rightarrow> (hankel_error, hankel_probe_report) res" where
  "evaluate_hankel_probe env ch cell_cap =
     (if has_censors ch
        then Inr \<lparr>hp_disposition = ''U05_PREREQUISITE_BLOCKED'', hp_cutoffs = [],
                  hp_blocked_reason = Some CensorPresent\<rparr>
      else (case cutoff_loop env ch cell_cap [1, 2, 3] 0 [] of
        Inl (e, reports) \<Rightarrow>
          (case blocked_by e of
             None \<Rightarrow> Inl e
           | Some r \<Rightarrow> Inr \<lparr>hp_disposition = ''U05_PREREQUISITE_BLOCKED'', hp_cutoffs = reports,
                             hp_blocked_reason = Some r\<rparr>)
      | Inr reports \<Rightarrow>
          Inr \<lparr>hp_disposition = probe_disposition (reports ! 0) (reports ! 1) (reports ! 2),
               hp_cutoffs = reports, hp_blocked_reason = None\<rparr>))"

end
