(* ===== verification/HankelRank.thy ===== *)
theory HankelRank
  imports Hankel
begin

text \<open>
  Rational vectors as a vector space, and what one pivot step of the elimination does to the span
  of the rows: the number of pivots is the dimension of the row space.
\<close>

section \<open>The space of rational rows\<close>

typedef rvec = "UNIV :: (nat \<Rightarrow> rat) set"
  morphisms entry Vec by simp

setup_lifting type_definition_rvec

lemma rvec_eqI: "(\<And>i. entry u i = entry v i) \<Longrightarrow> u = v"
  by (simp add: entry_inject [symmetric] fun_eq_iff)

instantiation rvec :: ab_group_add
begin

lift_definition zero_rvec :: rvec is "\<lambda>_. 0" .
lift_definition plus_rvec :: "rvec \<Rightarrow> rvec \<Rightarrow> rvec" is "\<lambda>u v i. u i + v i" .
lift_definition minus_rvec :: "rvec \<Rightarrow> rvec \<Rightarrow> rvec" is "\<lambda>u v i. u i - v i" .
lift_definition uminus_rvec :: "rvec \<Rightarrow> rvec" is "\<lambda>v i. - v i" .

instance
  by (standard; transfer) (auto simp: fun_eq_iff)

end

lift_definition scale_vec :: "rat \<Rightarrow> rvec \<Rightarrow> rvec" is "\<lambda>a v i. a * v i" .

lemma entry_simps [simp]:
  "entry 0 i = 0" "entry (u + v) i = entry u i + entry v i" "entry (u - v) i = entry u i - entry v i"
  "entry (- v) i = - entry v i" "entry (scale_vec a v) i = a * entry v i"
  by (transfer; simp)+

interpretation rows: vector_space scale_vec
  by unfold_locales (auto intro!: rvec_eqI simp: algebra_simps)

text \<open>A row, zero beyond its width.\<close>

definition vec_of :: "rat list \<Rightarrow> rvec" where
  "vec_of row = Vec (\<lambda>i. if i < length row then row ! i else 0)"

lemma entry_vec_of [simp]: "entry (vec_of row) i = (if i < length row then row ! i else 0)"
  by (simp add: vec_of_def Vec_inverse)

definition row_space_dim :: "rat list list \<Rightarrow> nat" where
  "row_space_dim m = rows.dim (vec_of ` set m)"

lemma dim_insert_new:
  assumes "finite S" "v \<notin> rows.span S"
  shows "rows.dim (insert v S) = Suc (rows.dim S)"
proof -
  obtain B where B: "B \<subseteq> S" "rows.independent B" "S \<subseteq> rows.span B" "card B = rows.dim S"
    by (rule rows.basis_exists)
  from B(1) assms(1) have "finite B" by (rule finite_subset)
  have new: "v \<notin> rows.span B" using assms(2) rows.span_mono [OF B(1)] by blast
  then have "v \<notin> B" using rows.span_base by blast
  have "rows.dim (insert v S) = card (insert v B)"
  proof (rule rows.dim_unique)
    show "insert v B \<subseteq> insert v S" using B(1) by blast
    show "insert v S \<subseteq> rows.span (insert v B)"
      using B(3) rows.span_mono [of B "insert v B"] rows.span_base [of v "insert v B"] by blast
    show "rows.independent (insert v B)" by (rule rows.independent_insertI [OF new B(2)])
  qed simp
  with \<open>v \<notin> B\<close> \<open>finite B\<close> B(4) show ?thesis by simp
qed

lemma dim_mono_finite:
  assumes "finite W" "V \<subseteq> rows.span W"
  shows "rows.dim V \<le> rows.dim W"
proof -
  obtain B where B: "B \<subseteq> W" "W \<subseteq> rows.span B" "card B = rows.dim W" by (rule rows.basis_exists)
  have "V \<subseteq> rows.span B" using assms(2) rows.span_minimal [OF B(2)] by auto
  with rows.dim_le_card [of V B] finite_subset [OF B(1) assms(1)] B(3) show ?thesis by simp
qed

lemma span_entry_zero: "v \<in> rows.span S \<Longrightarrow> (\<And>u. u \<in> S \<Longrightarrow> entry u c = 0) \<Longrightarrow> entry v c = 0"
  by (induction rule: rows.span_induct_alt) auto

lemma dim_zero_vectors: "(\<And>u. u \<in> S \<Longrightarrow> u = 0) \<Longrightarrow> rows.dim S = 0"
  using rows.dim_le_card [of S "{}"] by (auto simp: rows.span_empty)

section \<open>Row operations\<close>

lemma length_scale_row [simp]: "length (scale_row v c width row) = length row"
proof -
  have "length (fold (\<lambda>i row. row[i := row ! i / v]) is row) = length row" for "is"
    by (induction "is" arbitrary: row) auto
  then show ?thesis by (simp add: scale_row_def)
qed

lemma length_subtract_row [simp]: "length (subtract_row factor prow c width row) = length row"
proof -
  have "length (fold (\<lambda>i row. row[i := row ! i - factor * prow ! i]) is row) = length row" for "is"
    by (induction "is" arbitrary: row) auto
  then show ?thesis by (simp add: subtract_row_def)
qed

text \<open>A loop that updates each position once from its own old value.\<close>

lemma fold_pointwise:
  assumes "distinct is" "set is \<subseteq> {..<length row}" "j < length row"
  shows "fold (\<lambda>i row. row[i := f i (row ! i)]) is row ! j = (if j \<in> set is then f j (row ! j) else row ! j)"
  using assms
proof (induction "is" arbitrary: row)
  case (Cons i "is")
  then have "fold (\<lambda>i row. row[i := f i (row ! i)]) is (row[i := f i (row ! i)]) ! j
      = (if j \<in> set is then f j (row[i := f i (row ! i)] ! j) else row[i := f i (row ! i)] ! j)"
    by (intro Cons.IH) auto
  with Cons.prems show ?case by (auto simp: nth_list_update)
qed simp

lemma scale_row_nth: "j < width \<Longrightarrow> length row = width \<Longrightarrow>
    scale_row v c width row ! j = (if c \<le> j then row ! j / v else row ! j)"
  using fold_pointwise [of "[c..<width]" row j "\<lambda>_ x. x / v"] by (auto simp: scale_row_def subset_iff)

lemma subtract_row_nth: "j < width \<Longrightarrow> length row = width \<Longrightarrow>
    subtract_row factor prow c width row ! j = (if c \<le> j then row ! j - factor * prow ! j else row ! j)"
  using fold_pointwise [of "[c..<width]" row j "\<lambda>i x. x - factor * prow ! i"]
  by (auto simp: subtract_row_def subset_iff)

lemma eliminate_rows:
  assumes "p < length rows"
  shows "length (eliminate p c width rows) = length rows
    \<and> (\<forall>i < length rows. eliminate p c width rows ! i =
        (if p < i \<and> rows ! i ! c \<noteq> 0 then subtract_row (rows ! i ! c) (rows ! p) c width (rows ! i) else rows ! i))"
proof -
  define body where "body = (\<lambda>r rows. let factor = rows ! r ! c in
         if factor = 0 then rows else rows[r := subtract_row factor (rows ! p) c width (rows ! r)])"
  define new where "new rs i = (if i \<in> set rs \<and> rows ! i ! c \<noteq> 0
      then subtract_row (rows ! i ! c) (rows ! p) c width (rows ! i) else rows ! i)" for rs i
  have "length (fold body rs rows) = length rows \<and> (\<forall>i < length rows. fold body rs rows ! i = new rs i)"
    if "distinct rs" "set rs \<subseteq> {Suc p..<length rows}" for rs
    using that
  proof (induction rs rule: rev_induct)
    case (snoc r rs)
    then have rs: "distinct rs" "set rs \<subseteq> {Suc p..<length rows}"
      and r: "p < r" "r < length rows" "r \<notin> set rs" "p \<notin> set rs" by auto
    from snoc.IH [OF rs] have IH: "length (fold body rs rows) = length rows"
      "\<forall>i < length rows. fold body rs rows ! i = new rs i" by blast+
    have at: "fold body rs rows ! r = rows ! r" "fold body rs rows ! p = rows ! p"
      using IH(2) r assms by (auto simp: new_def)
    have "body r X = (if rows ! r ! c = 0 then X else X[r := subtract_row (rows ! r ! c) (rows ! p) c width (rows ! r)])"
      if "X ! r = rows ! r" "X ! p = rows ! p" for X
      using that by (simp add: body_def Let_def)
    from this [OF at] have step: "fold body (rs @ [r]) rows = (if rows ! r ! c = 0 then fold body rs rows
        else (fold body rs rows)[r := subtract_row (rows ! r ! c) (rows ! p) c width (rows ! r)])" by simp
    show ?case unfolding step using IH r by (auto simp: new_def nth_list_update)
  qed (simp add: new_def)
  from this [of "[Suc p..<length rows]"] show ?thesis
    by (auto simp: eliminate_def body_def new_def)
qed

section \<open>One pivot step\<close>

text \<open>
  From row \<open>p\<close> on, the rows have width \<open>width\<close> and are zero before column \<open>c\<close>.
\<close>

definition reduced :: "nat \<Rightarrow> nat \<Rightarrow> nat \<Rightarrow> rat list list \<Rightarrow> bool" where
  "reduced width c p rows \<longleftrightarrow> p \<le> length rows
     \<and> (\<forall>i < length rows. length (rows ! i) = width)
     \<and> (\<forall>i j. p \<le> i \<longrightarrow> i < length rows \<longrightarrow> j < c \<longrightarrow> j < width \<longrightarrow> rows ! i ! j = 0)"

definition below :: "nat \<Rightarrow> rat list list \<Rightarrow> rvec set" where
  "below p rows = (\<lambda>i. vec_of (rows ! i)) ` {p..<length rows}"

lemma finite_below [simp]: "finite (below p rows)"
  by (simp add: below_def)

lemma below_0: "below 0 rows = vec_of ` set rows"
  by (simp add: below_def set_conv_nth image_image [symmetric] atLeast0LessThan lessThan_def setcompr_eq_image)

lemma below_Suc: "p < length rows \<Longrightarrow> below p rows = insert (vec_of (rows ! p)) (below (Suc p) rows)"
proof -
  assume "p < length rows"
  then have "{p..<length rows} = insert p {Suc p..<length rows}" by auto
  then show ?thesis by (simp add: below_def)
qed

lemma find_pivot_None: "find_pivot rows p c = None \<longleftrightarrow> (\<forall>i. p \<le> i \<longrightarrow> i < length rows \<longrightarrow> rows ! i ! c = 0)"
  by (auto simp: find_pivot_def find_None_iff)

lemma find_pivot_Some: "find_pivot rows p c = Some r \<Longrightarrow> p \<le> r \<and> r < length rows \<and> rows ! r ! c \<noteq> 0"
  by (auto simp: find_pivot_def find_Some_iff)

lemma swap_rows_below:
  assumes "p \<le> r" "r < length rows"
  shows "length (swap_rows p r rows) = length rows" "swap_rows p r rows ! p = rows ! r"
    "below p (swap_rows p r rows) = below p rows" "set (swap_rows p r rows) = set rows"
    "reduced width c p rows \<Longrightarrow> reduced width c p (swap_rows p r rows)"
proof -
  show len: "length (swap_rows p r rows) = length rows" by (simp add: swap_rows_def)
  show "swap_rows p r rows ! p = rows ! r" using assms by (auto simp: swap_rows_def nth_list_update)
  show "set (swap_rows p r rows) = set rows"
    using assms set_swap [of p rows r] by (simp add: swap_rows_def list_update_swap)
  have nth: "swap_rows p r rows ! i = rows ! (if i = p then r else if i = r then p else i)" if "i < length rows" for i
    using assms that by (auto simp: swap_rows_def nth_list_update)
  have "below p (swap_rows p r rows) = (\<lambda>i. vec_of (rows ! i)) ` (\<lambda>i. if i = p then r else if i = r then p else i) ` {p..<length rows}"
    unfolding below_def len image_image by (rule image_cong) (simp_all add: nth)
  also have "(\<lambda>i. if i = p then r else if i = r then p else i) ` {p..<length rows} = {p..<length rows}"
    using assms by (auto simp: image_iff)
  finally show "below p (swap_rows p r rows) = below p rows" by (simp add: below_def)
  show "reduced width c p rows \<Longrightarrow> reduced width c p (swap_rows p r rows)"
    using assms by (auto simp: reduced_def len nth)
qed

text \<open>Scaling the pivot row and subtracting multiples of it from the rows behind it.\<close>

lemma eliminated_rows:
  assumes red: "reduced width c p rows" and p: "p < length rows" and c: "c < width" and piv: "rows ! p ! c \<noteq> 0"
    and new: "rows' = eliminate p c width (rows[p := scale_row (rows ! p ! c) c width (rows ! p)])"
  shows "length rows' = length rows" "\<forall>i < length rows'. length (rows' ! i) = width"
    "vec_of (rows' ! p) = scale_vec (1 / rows ! p ! c) (vec_of (rows ! p))"
    "\<And>i. p < i \<Longrightarrow> i < length rows \<Longrightarrow>
      vec_of (rows' ! i) = vec_of (rows ! i) - scale_vec (rows ! i ! c) (vec_of (rows' ! p))"
proof -
  let ?s = "scale_row (rows ! p ! c) c width (rows ! p)"
  let ?rows = "rows[p := ?s]"
  have w: "length (rows ! i) = width" if "i < length rows" for i using red that by (simp add: reduced_def)
  have z: "rows ! p ! j = 0" if "j < c" for j using red p c that by (simp add: reduced_def)
  from eliminate_rows [of p ?rows c width] p have len: "length rows' = length rows"
    and nth: "\<And>i. i < length rows \<Longrightarrow> rows' ! i =
      (if p < i \<and> rows ! i ! c \<noteq> 0 then subtract_row (rows ! i ! c) ?s c width (rows ! i)
       else if i = p then ?s else rows ! i)"
    by (auto simp: new nth_list_update)
  show "length rows' = length rows" by (rule len)
  show "\<forall>i < length rows'. length (rows' ! i) = width" using nth w len p by simp
  have sj: "?s ! j = rows ! p ! j / rows ! p ! c" if "j < width" for j
    using that z by (simp add: scale_row_nth w p not_le)
  have at: "rows' ! p = ?s" using nth [OF p] by simp
  show "vec_of (rows' ! p) = scale_vec (1 / rows ! p ! c) (vec_of (rows ! p))"
    unfolding at by (rule rvec_eqI) (simp add: sj w p)
  show "vec_of (rows' ! i) = vec_of (rows ! i) - scale_vec (rows ! i ! c) (vec_of (rows' ! p))"
    if i: "p < i" "i < length rows" for i
  proof (rule rvec_eqI)
    fix j
    have "rows' ! i ! j = rows ! i ! j - rows ! i ! c * ?s ! j" if "j < width"
      using nth [OF i(2)] i that z by (cases "c \<le> j") (auto simp: subtract_row_nth w scale_row_nth p)
    moreover have "length (rows' ! i) = width" using nth [OF i(2)] w [OF i(2)] i p by simp
    ultimately show "entry (vec_of (rows' ! i)) j
        = entry (vec_of (rows ! i) - scale_vec (rows ! i ! c) (vec_of (rows' ! p))) j"
      using i by (simp add: at w p)
  qed
qed

lemma pivot_step_below:
  assumes red: "reduced width c p rows" and c: "c < width" and r: "find_pivot rows p c = Some r"
    and new: "rows' = pivot_step p r c width rows"
  shows "length rows' = length rows" "reduced width (Suc c) (Suc p) rows'"
    "rows.span (below p rows') = rows.span (below p rows)" "entry (vec_of (rows' ! p)) c \<noteq> 0"
proof -
  note piv = find_pivot_Some [OF r]
  let ?rows = "swap_rows p r rows"
  note sw = swap_rows_below [of p r rows]
  have red1: "reduced width c p ?rows" and len1: "length ?rows = length rows" and p: "p < length ?rows"
    and pv: "?rows ! p ! c \<noteq> 0" and same: "below p ?rows = below p rows"
    using piv sw red by auto
  have step: "rows' = eliminate p c width (?rows[p := scale_row (?rows ! p ! c) c width (?rows ! p)])"
    by (simp add: new pivot_step_def Let_def)
  note el = eliminated_rows [OF red1 p c pv step]
  show len: "length rows' = length rows" using el(1) len1 by simp
  have wide: "length (?rows ! i) = width" if "i < length rows" for i using red1 that by (simp add: reduced_def len1)
  show e: "entry (vec_of (rows' ! p)) c \<noteq> 0" using pv c p wide [of p] by (simp add: el(3) len1)
  have e1: "entry (vec_of (rows' ! p)) c = 1" using pv c p wide [of p] by (simp add: el(3) len1)
  have zero: "entry (vec_of (rows' ! i)) j = 0" if i: "p < i" "i < length rows" and j: "j \<le> c" for i j
  proof (cases "j = c")
    case True
    with i e1 c wide [OF i(2)] show ?thesis by (simp add: el(4) len1 del: entry_vec_of) simp
  next
    case False
    with j have "j < c" by simp
    then have "?rows ! i ! j = 0" "?rows ! p ! j = 0"
      using red1 i p c by (auto simp: reduced_def len1)
    then show ?thesis using i by (simp add: el(3,4) len1)
  qed
  have "rows' ! i ! j = 0" if "p < i" "i < length rows" "j \<le> c" "j < width" for i j
    using zero [OF that(1-3)] that(4) el(2) that(2) len by simp
  then show "reduced width (Suc c) (Suc p) rows'"
    unfolding reduced_def using el(2) len p len1 by (auto simp: Suc_le_eq less_Suc_eq_le)
  have in_new: "vec_of (rows' ! i) \<in> below p rows'" if "p \<le> i" "i < length rows" for i
    using that by (auto simp: below_def len)
  have in_old: "vec_of (?rows ! i) \<in> below p ?rows" if "p \<le> i" "i < length rows" for i
    using that by (auto simp: below_def len1)
  have prow_old: "vec_of (rows' ! p) \<in> rows.span (below p ?rows)"
    unfolding el(3) by (intro rows.span_scale rows.span_base in_old) (use p len1 in simp_all)
  have "rows.span (below p rows') = rows.span (below p ?rows)"
  proof (rule subset_antisym; rule rows.span_minimal [OF _ rows.subspace_span]; rule subsetI)
    fix v
    assume "v \<in> below p rows'"
    then obtain i where i: "p \<le> i" "i < length rows" "v = vec_of (rows' ! i)" by (auto simp: below_def len)
    show "v \<in> rows.span (below p ?rows)"
    proof (cases "i = p")
      case False
      with i have "p < i" by simp
      with i show ?thesis
        by (simp add: el(4) len1) (intro rows.span_diff rows.span_scale rows.span_base in_old prow_old; simp)
    qed (use i prow_old in simp)
  next
    fix v
    assume "v \<in> below p ?rows"
    then obtain i where i: "p \<le> i" "i < length rows" "v = vec_of (?rows ! i)" by (auto simp: below_def len1)
    have prow: "vec_of (rows' ! p) \<in> rows.span (below p rows')"
      by (intro rows.span_base in_new) (use p len1 in simp_all)
    show "v \<in> rows.span (below p rows')"
    proof (cases "i = p")
      case True
      have "vec_of (?rows ! p) = scale_vec (?rows ! p ! c) (vec_of (rows' ! p))"
        using pv by (intro rvec_eqI) (simp add: el(3))
      then show ?thesis using i(3) True prow by (simp add: rows.span_scale)
    next
      case False
      with i have "p < i" by simp
      with i have v: "v = vec_of (rows' ! i) + scale_vec (?rows ! i ! c) (vec_of (rows' ! p))"
        by (simp add: el(4) len1)
      show ?thesis unfolding v by (intro rows.span_add rows.span_scale rows.span_base in_new prow i(1,2))
    qed
  qed
  then show "rows.span (below p rows') = rows.span (below p rows)" by (simp add: same)
qed

lemma rank_loop_dim:
  assumes "reduced width c p rows" "c \<le> width"
  shows "rank_loop width [c..<width] p rows = p + rows.dim (below p rows)"
  using assms
proof (induction "width - c" arbitrary: c p rows)
  case 0
  then have "vec_of (rows ! i) = 0" if "p \<le> i" "i < length rows" for i
    using that by (intro rvec_eqI) (auto simp: reduced_def)
  then have "rows.dim (below p rows) = 0" by (intro dim_zero_vectors) (auto simp: below_def)
  with 0 show ?case by simp
next
  case (Suc n)
  then have c: "c < width" and upt: "[c..<width] = c # [Suc c..<width]" by (simp_all add: upt_conv_Cons)
  show ?case
  proof (cases "find_pivot rows p c")
    case None
    with Suc.prems(1) have "reduced width (Suc c) p rows"
      by (auto simp: reduced_def find_pivot_None less_Suc_eq)
    with Suc.hyps(1) [of "Suc c"] Suc.hyps(2) c None show ?thesis by (simp add: upt)
  next
    case (Some r)
    note st = pivot_step_below [OF Suc.prems(1) c Some refl]
    let ?rows = "pivot_step p r c width rows"
    have p: "p < length ?rows" using find_pivot_Some [OF Some] st(1) by simp
    have "vec_of (?rows ! p) \<notin> rows.span (below (Suc p) ?rows)"
    proof
      assume "vec_of (?rows ! p) \<in> rows.span (below (Suc p) ?rows)"
      then have "entry (vec_of (?rows ! p)) c = 0"
        by (rule span_entry_zero) (use st(2) c in \<open>auto simp: below_def reduced_def\<close>)
      with st(4) show False by simp
    qed
    then have "rows.dim (below p ?rows) = Suc (rows.dim (below (Suc p) ?rows))"
      unfolding below_Suc [OF p] by (rule dim_insert_new [OF finite_below])
    moreover have "rows.dim (below p ?rows) = rows.dim (below p rows)"
      by (rule rows.span_eq_dim [OF st(3)])
    moreover have "rows.dim (below (Suc p) ?rows) = 0" if "Suc p = length rows"
      using that st(1) by (intro dim_zero_vectors) (simp add: below_def)
    moreover have "rank_loop width [Suc c..<width] (Suc p) ?rows = Suc p + rows.dim (below (Suc p) ?rows)"
      using Suc.hyps(1) [OF _ st(2)] Suc.hyps(2) c by simp
    ultimately show ?thesis using Some by (simp add: upt)
  qed
qed

section \<open>The rank\<close>

lemma exact_rank_iff:
  "exact_rational_rank m = Inr r \<longleftrightarrow> (\<forall>row \<in> set m. length row = length (m ! 0)) \<and> r = row_space_dim m"
proof (cases "m = []")
  case True
  then show ?thesis using dim_zero_vectors [of "{}"] by (auto simp: exact_rational_rank_def row_space_dim_def)
next
  case False
  obtain w where w: "length (m ! 0) = w" by simp
  have zero: "row_space_dim m = 0" if "\<forall>row \<in> set m. length row = 0"
    unfolding row_space_dim_def using that by (intro dim_zero_vectors) (auto intro!: rvec_eqI)
  have loop: "rank_loop w [0..<w] 0 m = row_space_dim m" if "\<forall>row \<in> set m. length row = w"
    using that rank_loop_dim [of w 0 0 m] by (simp add: reduced_def row_space_dim_def below_0)
  show ?thesis
  proof (cases "\<forall>row \<in> set m. length row = w")
    case True
    with False have "exact_rational_rank m = Inr (if w = 0 then 0 else rank_loop w [0..<w] 0 m)"
      unfolding exact_rational_rank_def Let_def w list_ex_iff by simp
    also have "(if w = 0 then 0 else rank_loop w [0..<w] 0 m) = row_space_dim m" using True zero loop by simp
    finally have "exact_rational_rank m = Inr (row_space_dim m)" .
    with True w show ?thesis by auto
  next
    case wide: False
    then have "exact_rational_rank m = Inl ''matrix must be rectangular''"
      using False by (auto simp: exact_rational_rank_def w list_ex_iff)
    with wide w show ?thesis by simp
  qed
qed

end
