(* ===== verification/HankelProps.thy ===== *)
theory HankelProps
  imports HankelRank
begin

text \<open>
  The matrix a cutoff stands for, the two loops that build it, and the properties of the rank and
  of the probe.
\<close>

section \<open>The matrix of a cutoff\<close>

definition words_upto :: "string list \<Rightarrow> int \<Rightarrow> action_word list" where
  "words_upto ids d = concat (map (product_repeat ids) [0..<Suc (nat d)])"

definition channels :: "chart \<Rightarrow> string \<Rightarrow> action_word \<Rightarrow> int list" where
  "channels ch t w = (case hankel_response ch t w of Inr c \<Rightarrow> c | Inl _ \<Rightarrow> [])"

definition hankel_row :: "chart \<Rightarrow> action_word list \<Rightarrow> string \<times> action_word \<Rightarrow> int list" where
  "hankel_row ch vs = (\<lambda>(t, u). concat (map (\<lambda>v. channels ch t (u @ v)) vs))"

definition row_cells :: "action_word list \<Rightarrow> string \<times> action_word \<Rightarrow> (string \<times> action_word) list" where
  "row_cells vs = (\<lambda>(t, u). map (\<lambda>v. (t, u @ v)) vs)"

definition cutoff_rows :: "chart \<Rightarrow> int \<Rightarrow> (string \<times> action_word) list" where
  "cutoff_rows ch d = hankel_rows ch (words_upto (ch_action_ids ch) (half_floor d))"

definition cutoff_suffixes :: "chart \<Rightarrow> int \<Rightarrow> action_word list" where
  "cutoff_suffixes ch d = words_upto (ch_action_ids ch) (half_ceil d)"

definition cutoff_matrix :: "chart \<Rightarrow> int \<Rightarrow> int list list" where
  "cutoff_matrix ch d = map (hankel_row ch (cutoff_suffixes ch d)) (cutoff_rows ch d)"

definition cutoff_cells :: "chart \<Rightarrow> int \<Rightarrow> (string \<times> action_word) list" where
  "cutoff_cells ch d = concat (map (row_cells (cutoff_suffixes ch d)) (cutoff_rows ch d))"

definition sink_word :: "chart \<Rightarrow> string \<times> action_word \<Rightarrow> bool" where
  "sink_word ch = (\<lambda>(t, w). case chart_outcome ch t w of Inr out \<Rightarrow> wo_kind out = SINK | Inl _ \<Rightarrow> False)"

text \<open>How many of the items have the property.\<close>

definition proportion :: "('a \<Rightarrow> bool) \<Rightarrow> 'a list \<Rightarrow> rat" where
  "proportion P xs = of_nat (length (filter P xs)) / of_nat (length xs)"

definition report_exact :: "chart \<Rightarrow> int \<Rightarrow> int \<Rightarrow> nat \<Rightarrow> hankel_cutoff_report \<Rightarrow> bool" where
  "report_exact ch cap d prev r \<longleftrightarrow>
     hc_cutoff r = d
     \<and> hc_rank r = row_space_dim (map (map of_int) (cutoff_matrix ch d))
     \<and> hc_incremental_rank r = int (hc_rank r) - int prev
     \<and> hc_n_rows r = int (length (cutoff_matrix ch d))
     \<and> (\<forall>row \<in> set (cutoff_matrix ch d). int (length row) = hc_n_columns r)
     \<and> hc_n_cells r = hc_n_rows r * hc_n_columns r \<and> hc_n_cells r \<le> cap
     \<and> hc_non_sink_prefix_coverage r = proportion (\<lambda>x. \<not> sink_word ch x) (cutoff_rows ch d)
     \<and> hc_non_sink_suffix_coverage r = proportion (\<lambda>x. \<not> sink_word ch x) (cutoff_cells ch d)
     \<and> (\<forall>k < length RESPONSE_CHANNELS. hc_per_channel_scales r ! k
          = Max (insert 0 ((\<lambda>(t, w). \<bar>channels ch t w ! k\<bar>) ` set (cutoff_cells ch d))))"

section \<open>The loops\<close>

lemma response_parts:
  assumes "hankel_response ch t w = Inr c"
  obtains out st where "chart_outcome ch t w = Inr out" "final_response_channels out st = Inr c"
  using assms unfolding hankel_response_def by (simp only: bindE_eq_Inr liftE_eq_Inr) blast

lemma channel_values:
  assumes "final_response_channels out st = Inr c"
  shows "length c = 7" "c ! 1 = (if wo_kind out = SINK then 1 else 0)"
proof -
  have debt: "length (debt_list d) = 5" for d by (cases d) simp
  have "length c = 7 \<and> c ! 1 = (if wo_kind out = SINK then 1 else 0)"
  proof (cases "wo_kind out")
    case OPEN
    with assms show ?thesis
      unfolding final_response_channels_def by (cases st) (auto simp: debt split: if_split_asm)
  qed (use assms in \<open>auto simp: final_response_channels_def\<close>)
  then show "length c = 7" "c ! 1 = (if wo_kind out = SINK then 1 else 0)" by blast+
qed

lemma response_length: "hankel_response ch t w = Inr c \<Longrightarrow> length c = 7"
  by (elim response_parts) (rule channel_values)

lemma response_sink: "hankel_response ch t w = Inr c \<Longrightarrow> c ! 1 = 0 \<longleftrightarrow> \<not> sink_word ch (t, w)"
  by (elim response_parts) (simp only: sink_word_def case_prod_conv sum.case channel_values(2), simp)

lemma suffix_loop:
  assumes "foldE (suffix_step ch t u) vs l = Inr l'"
  shows "(\<forall>v \<in> set vs. hankel_response ch t (u @ v) = Inr (channels ch t (u @ v)))
    \<and> l' = l\<lparr>hl_row := hl_row l @ hankel_row ch vs (t, u),
        hl_scales := fold max_scales (map (\<lambda>(t, w). channels ch t w) (row_cells vs (t, u))) (hl_scales l),
        hl_final_pairs := hl_final_pairs l + length (filter (\<lambda>x. \<not> sink_word ch x) (row_cells vs (t, u)))\<rparr>"
  using assms
proof (induction vs arbitrary: l)
  case Nil
  then show ?case by (simp add: hankel_row_def row_cells_def)
next
  case (Cons v vs)
  from Cons.prems obtain c where c: "hankel_response ch t (u @ v) = Inr c"
    by (auto simp: suffix_step_def bindE_eq_Inr)
  then have ch: "channels ch t (u @ v) = c" by (simp add: channels_def)
  from Cons.prems c have "foldE (suffix_step ch t u) vs
      (l\<lparr>hl_final_pairs := (if c ! 1 = 0 then hl_final_pairs l + 1 else hl_final_pairs l),
         hl_row := hl_row l @ c, hl_scales := max_scales c (hl_scales l)\<rparr>) = Inr l'"
    by (simp only: foldE.simps suffix_step_def [of ch t u v l] c bindE_Inr)
  note IH = Cons.IH [OF this]
  have "hankel_row ch (v # vs) (t, u) = c @ hankel_row ch vs (t, u)"
    "row_cells (v # vs) (t, u) = (t, u @ v) # row_cells vs (t, u)"
    by (simp_all add: hankel_row_def row_cells_def ch)
  with IH c ch response_sink [OF c] show ?case by simp
qed

lemma row_loop:
  assumes "foldE (row_step ch vs) xs l = Inr l'"
  shows "(\<forall>(t, u) \<in> set xs. \<forall>v \<in> set vs. hankel_response ch t (u @ v) = Inr (channels ch t (u @ v)))
    \<and> hl_matrix l' = hl_matrix l @ map (hankel_row ch vs) xs
    \<and> hl_scales l' = fold max_scales (map (\<lambda>(t, w). channels ch t w) (concat (map (row_cells vs) xs))) (hl_scales l)
    \<and> hl_final_pairs l' = hl_final_pairs l + length (filter (\<lambda>x. \<not> sink_word ch x) (concat (map (row_cells vs) xs)))
    \<and> hl_prefixes l' = hl_prefixes l + length (filter (\<lambda>x. \<not> sink_word ch x) xs)"
  using assms
proof (induction xs arbitrary: l)
  case (Cons x xs)
  obtain t u where x: "x = (t, u)" by (cases x)
  from Cons.prems obtain out m where out: "chart_outcome ch t u = Inr out"
    and m: "foldE (suffix_step ch t u) vs
      (l\<lparr>hl_prefixes := (if wo_kind out \<noteq> SINK then hl_prefixes l + 1 else hl_prefixes l), hl_row := []\<rparr>) = Inr m"
    and rest: "foldE (row_step ch vs) xs (m\<lparr>hl_matrix := hl_matrix m @ [hl_row m]\<rparr>) = Inr l'"
    by (auto simp: x row_step_def bindE_eq_Inr Let_def)
  have "sink_word ch (t, u) \<longleftrightarrow> wo_kind out = SINK" by (simp add: sink_word_def out)
  with suffix_loop [OF m] Cons.IH [OF rest] show ?case by (simp add: x)
qed simp

lemma max_scales_nth:
  assumes "length response = length scales" "k < length scales"
  shows "max_scales response scales ! k = max (scales ! k) \<bar>response ! k\<bar>"
proof -
  have "length (fold (\<lambda>(i, v) s. s[i := max (s ! i) \<bar>v\<bar>]) (enumerate n vs) s) = length s
      \<and> (\<forall>k < length s. fold (\<lambda>(i, v) s. s[i := max (s ! i) \<bar>v\<bar>]) (enumerate n vs) s ! k
        = (if n \<le> k \<and> k < n + length vs then max (s ! k) \<bar>vs ! (k - n)\<bar> else s ! k))"
    if "n + length vs \<le> length s" for n and s vs :: "int list"
    using that
  proof (induction vs arbitrary: n s)
    case (Cons v vs)
    then have "Suc n + length vs \<le> length (s[n := max (s ! n) \<bar>v\<bar>])" by simp
    from Cons.IH [OF this] Cons.prems show ?case
      by (auto simp: nth_list_update nth_Cons' Suc_le_eq)
  qed auto
  from this [of 0 response scales] assms show ?thesis by (simp add: max_scales_def)
qed

lemma length_max_scales [simp]: "length (max_scales response scales) = length scales"
proof -
  have "length (fold (\<lambda>(i, v) s. s[i := max (s ! i) \<bar>v\<bar>]) ps s) = length s" for ps and s :: "int list"
    by (induction ps arbitrary: s) auto
  then show ?thesis by (simp add: max_scales_def)
qed

lemma fold_max_scales:
  assumes "\<forall>c \<in> set cs. length c = length scales" "k < length scales"
  shows "fold max_scales cs scales ! k = Max (insert (scales ! k) ((\<lambda>c. \<bar>c ! k\<bar>) ` set cs))"
  using assms
proof (induction cs arbitrary: scales)
  case (Cons c cs)
  then have "fold max_scales (c # cs) scales ! k
      = Max (insert (max (scales ! k) \<bar>c ! k\<bar>) ((\<lambda>c. \<bar>c ! k\<bar>) ` set cs))"
    by (simp add: max_scales_nth)
  also have "\<dots> = Max (insert (scales ! k) ((\<lambda>c. \<bar>c ! k\<bar>) ` set (c # cs)))"
    by (cases "cs = []") (simp_all add: max.assoc)
  finally show ?case .
qed simp

section \<open>One report\<close>

definition cutoff_defined :: "chart \<Rightarrow> int \<Rightarrow> bool" where
  "cutoff_defined ch d \<longleftrightarrow> (\<forall>(t, u) \<in> set (cutoff_rows ch d). \<forall>v \<in> set (cutoff_suffixes ch d).
     hankel_response ch t (u @ v) = Inr (channels ch t (u @ v)))"

lemma valueE_Inr [simp]: "valueE m = Inr x \<longleftrightarrow> m = Inr x"
  by (simp add: valueE_def)

lemma build_parts:
  assumes "build_hankel_cutoff env ch d cap prev = Inr (r, M)"
  obtains n_rows n_suffixes n_columns n_cells l singular ratio rank where
    "hankel_dimensions (int (length (ch_task_ids ch))) (int (length (ch_action_ids ch))) d
      = Inr (n_rows, n_suffixes, n_columns, n_cells)"
    "n_rows = int (length (cutoff_rows ch d))" "n_suffixes = int (length (cutoff_suffixes ch d))" "n_cells \<le> cap"
    "foldE (row_step ch (cutoff_suffixes ch d)) (cutoff_rows ch d) hankel_loop_init = Inr l"
    "exact_rational_rank (map (map of_int) (hl_matrix l)) = Inr rank" "M = hl_matrix l"
    "r = \<lparr>hc_cutoff = d, hc_rank = rank, hc_n_rows = n_rows, hc_n_suffixes = n_suffixes,
        hc_n_columns = n_columns, hc_n_cells = n_cells, hc_incremental_rank = int rank - prev,
        hc_singular_values = singular, hc_inverse_condition_ratio = ratio,
        hc_non_sink_prefix_coverage = of_nat (hl_prefixes l) / of_int n_rows,
        hc_non_sink_suffix_coverage = of_nat (hl_final_pairs l) / of_int (n_rows * n_suffixes),
        hc_per_channel_scales = hl_scales l\<rparr>"
proof -
  from assms obtain ps vs where ps: "action_words (ch_action_ids ch) (half_floor d) True = Inr ps"
    and vs: "action_words (ch_action_ids ch) (half_ceil d) True = Inr vs"
    unfolding build_hankel_cutoff_def by (auto simp: bindE_eq_Inr split: if_split_asm)
  have rows: "hankel_rows ch ps = cutoff_rows ch d" "vs = cutoff_suffixes ch d"
    using action_words_eq(1) [OF ps] action_words_eq(1) [OF vs]
    by (simp_all add: cutoff_rows_def cutoff_suffixes_def words_upto_def)
  from assms obtain n_rows n_suffixes n_columns n_cells where
    dims: "hankel_dimensions (int (length (ch_task_ids ch))) (int (length (ch_action_ids ch))) d
      = Inr (n_rows, n_suffixes, n_columns, n_cells)"
    unfolding build_hankel_cutoff_def ps vs by (auto simp: bindE_eq_Inr Let_def valueE_def split: if_split_asm)
  have d: "(d \<notin> {1, 2, 3}) = False"
  proof (rule ccontr)
    assume "(d \<notin> {1, 2, 3}) \<noteq> False"
    then have d: "d \<notin> {1, 2, 3}" by simp
    from assms show False unfolding build_hankel_cutoff_def if_P [OF d] by (simp add: valueE_def)
  qed
  note body = assms [unfolded build_hankel_cutoff_def d if_False ps vs Let_def valueE_def liftE_simps bindE_Inr
      rows dims prod.case]
  have n: "n_rows = int (length (cutoff_rows ch d))" "n_suffixes = int (length (cutoff_suffixes ch d))" "n_cells \<le> cap"
    using body by (simp_all split: if_split_asm)
  have "\<not> (n_rows \<noteq> int (length (cutoff_rows ch d)) \<or> n_suffixes \<noteq> int (length (cutoff_suffixes ch d)))" "\<not> cap < n_cells"
    using n by simp_all
  note body = body [unfolded if_not_P [OF this(1)] if_not_P [OF this(2)]]
  then obtain l where l: "foldE (row_step ch (cutoff_suffixes ch d)) (cutoff_rows ch d) hankel_loop_init = Inr l"
    by (auto simp: bindE_eq_Inr)
  note body = body [unfolded l liftE_simps bindE_Inr]
  then obtain rank where rank: "exact_rational_rank (map (map of_int) (hl_matrix l)) = Inr rank"
    by (auto simp: bindE_eq_Inr)
  note body = body [unfolded rank liftE_simps bindE_Inr]
  then obtain singular where singular: "svd_values env (hl_matrix l) = Some singular"
    by (cases "svd_values env (hl_matrix l)") auto
  note body = body [unfolded singular option.case bindE_eq_Inr sum.inject prod.inject]
  then obtain ratio where "inverse_ratio env rank singular = Inr ratio" by blast
  note body = body [unfolded this sum.inject]
  show thesis by (rule that [OF dims n l rank]) (use body in blast)+
qed

lemma dimension_columns:
  "hankel_dimensions nt na d = Inr (n_rows, n_suffixes, n_columns, n_cells) \<Longrightarrow>
    n_columns = n_suffixes * 7 \<and> n_cells = n_rows * n_columns"
  by (auto simp: hankel_dimensions_def Let_def RESPONSE_CHANNELS_def split: if_split_asm)

lemma length_row_cells [simp]: "length (row_cells vs x) = length vs"
  by (cases x) (simp add: row_cells_def)

lemma length_cutoff_cells: "length (cutoff_cells ch d) = length (cutoff_rows ch d) * length (cutoff_suffixes ch d)"
  by (simp add: cutoff_cells_def length_concat comp_def sum_list_triv)

lemma length_hankel_row:
  "(\<And>v. v \<in> set vs \<Longrightarrow> length (channels ch t (u @ v)) = 7) \<Longrightarrow> length (hankel_row ch vs (t, u)) = 7 * length vs"
  by (induction vs) (simp_all add: hankel_row_def)

lemma build_exact:
  assumes "build_hankel_cutoff env ch d cap (int prev) = Inr (r, M)"
  shows "cutoff_defined ch d" "report_exact ch cap d prev r"
proof -
  from assms obtain n_rows n_suffixes n_columns n_cells l singular ratio rank where
    dims: "hankel_dimensions (int (length (ch_task_ids ch))) (int (length (ch_action_ids ch))) d
      = Inr (n_rows, n_suffixes, n_columns, n_cells)" and
    n: "n_rows = int (length (cutoff_rows ch d))" "n_suffixes = int (length (cutoff_suffixes ch d))" "n_cells \<le> cap" and
    l: "foldE (row_step ch (cutoff_suffixes ch d)) (cutoff_rows ch d) hankel_loop_init = Inr l" and
    rank: "exact_rational_rank (map (map of_int) (hl_matrix l)) = Inr rank" and
    r: "r = \<lparr>hc_cutoff = d, hc_rank = rank, hc_n_rows = n_rows, hc_n_suffixes = n_suffixes,
        hc_n_columns = n_columns, hc_n_cells = n_cells, hc_incremental_rank = int rank - int prev,
        hc_singular_values = singular, hc_inverse_condition_ratio = ratio,
        hc_non_sink_prefix_coverage = of_nat (hl_prefixes l) / of_int n_rows,
        hc_non_sink_suffix_coverage = of_nat (hl_final_pairs l) / of_int (n_rows * n_suffixes),
        hc_per_channel_scales = hl_scales l\<rparr>"
    by (rule build_parts)
  note loop = row_loop [OF l]
  show defined: "cutoff_defined ch d" using loop unfolding cutoff_defined_def by blast
  have seven: "length (channels ch t (u @ v)) = 7"
    if "(t, u) \<in> set (cutoff_rows ch d)" "v \<in> set (cutoff_suffixes ch d)" for t u v
    using defined that response_length unfolding cutoff_defined_def by blast
  have M: "hl_matrix l = cutoff_matrix ch d"
    using loop by (simp add: hankel_loop_init_def cutoff_matrix_def)
  have widths: "\<forall>row \<in> set (cutoff_matrix ch d). int (length row) = n_columns"
  proof
    fix row
    assume "row \<in> set (cutoff_matrix ch d)"
    then obtain t u where "(t, u) \<in> set (cutoff_rows ch d)" "row = hankel_row ch (cutoff_suffixes ch d) (t, u)"
      by (auto simp: cutoff_matrix_def)
    with length_hankel_row [OF seven] dimension_columns [OF dims] n(2) show "int (length row) = n_columns" by simp
  qed
  have scales: "hl_scales l ! k = Max (insert 0 ((\<lambda>(t, w). \<bar>channels ch t w ! k\<bar>) ` set (cutoff_cells ch d)))"
    if k: "k < length RESPONSE_CHANNELS" for k
  proof -
    let ?init = "replicate (length RESPONSE_CHANNELS) (0 :: int)"
    let ?cs = "map (\<lambda>(t, w). channels ch t w) (cutoff_cells ch d)"
    have all7: "\<forall>c \<in> set ?cs. length c = length ?init"
      using seven by (auto simp: cutoff_cells_def row_cells_def RESPONSE_CHANNELS_def)
    have "hl_scales l = fold max_scales ?cs ?init"
      using loop by (simp add: hankel_loop_init_def cutoff_cells_def)
    with fold_max_scales [OF all7, of k] k show ?thesis
      by (simp add: image_image case_prod_unfold)
  qed
  show "report_exact ch cap d prev r"
    unfolding report_exact_def using n dimension_columns [OF dims] loop rank widths scales M
    by (simp add: r exact_rank_iff proportion_def length_cutoff_cells hankel_loop_init_def)
      (simp add: cutoff_matrix_def cutoff_cells_def)
qed

section \<open>Ranks of successive cutoffs\<close>

lemma row_space_subset: "set m \<subseteq> set m' \<Longrightarrow> row_space_dim m \<le> row_space_dim m'"
  unfolding row_space_dim_def by (rule dim_mono_finite) (auto intro: rows.span_base)

text \<open>Forgetting columns does not raise the rank.\<close>

lift_definition restrict_vec :: "nat \<Rightarrow> rvec \<Rightarrow> rvec" is "\<lambda>w v i. if i < w then v i else 0" .

lemma entry_restrict [simp]: "entry (restrict_vec w v) i = (if i < w then entry v i else 0)"
  by (transfer; simp)

lemma restrict_span: "v \<in> rows.span S \<Longrightarrow> restrict_vec w v \<in> rows.span (restrict_vec w ` S)"
proof (induction rule: rows.span_induct_alt)
  case base
  have "restrict_vec w 0 = 0" by (rule rvec_eqI) simp
  then show ?case by (simp add: rows.span_zero)
next
  case (step c x y)
  have "restrict_vec w (scale_vec c x + y) = scale_vec c (restrict_vec w x) + restrict_vec w y"
    by (rule rvec_eqI) simp
  with step show ?case by (simp add: rows.span_add rows.span_scale rows.span_base)
qed

lemma row_space_take: "row_space_dim (map (take w) m) \<le> row_space_dim m"
proof -
  have take: "vec_of (take w row) = restrict_vec w (vec_of row)" for row by (rule rvec_eqI) simp
  obtain B where B: "B \<subseteq> vec_of ` set m" "vec_of ` set m \<subseteq> rows.span B" "card B = row_space_dim m"
    unfolding row_space_dim_def by (rule rows.basis_exists)
  have fin: "finite B" by (rule finite_subset [OF B(1)]) simp
  have "vec_of ` set (map (take w) m) \<subseteq> rows.span (restrict_vec w ` B)"
    using B(2) restrict_span by (auto simp: take)
  then have "row_space_dim (map (take w) m) \<le> card (restrict_vec w ` B)"
    unfolding row_space_dim_def by (rule rows.dim_le_card) (use fin in simp)
  also have "\<dots> \<le> row_space_dim m" using card_image_le [OF fin, of "restrict_vec w"] B(3) by simp
  finally show ?thesis .
qed

lemma words_upto_Suc: "0 \<le> d \<Longrightarrow> words_upto ids (d + 1) = words_upto ids d @ product_repeat ids (Suc (nat d))"
  by (simp add: words_upto_def nat_add_distrib)

lemma rank_first_step:
  "row_space_dim (map (map of_int) (cutoff_matrix ch 1)) \<le> row_space_dim (map (map of_int) (cutoff_matrix ch 2))"
proof (rule row_space_subset)
  have "set (words_upto ids 0) \<subseteq> set (words_upto ids 1)" for ids
    using words_upto_Suc [of 0 ids] by auto
  then have "set (cutoff_rows ch 1) \<subseteq> set (cutoff_rows ch 2)"
    by (fastforce simp: cutoff_rows_def hankel_rows_def half_floor_def)
  moreover have "cutoff_suffixes ch 1 = cutoff_suffixes ch 2"
    by (simp add: cutoff_suffixes_def half_ceil_def)
  ultimately show "set (map (map of_int) (cutoff_matrix ch 1)) \<subseteq> set (map (map of_int) (cutoff_matrix ch 2))"
    by (auto simp: cutoff_matrix_def)
qed

lemma rank_second_step:
  assumes "cutoff_defined ch 2"
  shows "row_space_dim (map (map of_int) (cutoff_matrix ch 2)) \<le> row_space_dim (map (map of_int) (cutoff_matrix ch 3))"
proof -
  let ?vs = "cutoff_suffixes ch 2" and ?w = "7 * length (cutoff_suffixes ch 2)"
  have rows: "cutoff_rows ch 3 = cutoff_rows ch 2" by (simp add: cutoff_rows_def half_floor_def)
  obtain more where more: "cutoff_suffixes ch 3 = ?vs @ more"
    using words_upto_Suc [of 1 "ch_action_ids ch"] by (simp add: cutoff_suffixes_def half_ceil_def)
  have "take ?w (hankel_row ch (cutoff_suffixes ch 3) x) = hankel_row ch ?vs x" if "x \<in> set (cutoff_rows ch 2)" for x
  proof -
    obtain t u where x: "x = (t, u)" by (cases x)
    have "length (hankel_row ch ?vs (t, u)) = ?w"
      using assms that response_length unfolding cutoff_defined_def x by (intro length_hankel_row) blast
    then show ?thesis by (simp add: x more hankel_row_def)
  qed
  then have "map (map of_int) (cutoff_matrix ch 2) = map (take ?w) (map (map (of_int :: int \<Rightarrow> rat)) (cutoff_matrix ch 3))"
    by (simp add: cutoff_matrix_def rows take_map)
  then show ?thesis by (simp only: row_space_take)
qed

section \<open>The loop over the cutoffs\<close>

fun exact_reports :: "chart \<Rightarrow> int \<Rightarrow> int list \<Rightarrow> nat \<Rightarrow> hankel_cutoff_report list \<Rightarrow> bool" where
  "exact_reports ch cap ds prev [] \<longleftrightarrow> True"
| "exact_reports ch cap [] prev (r # rs) \<longleftrightarrow> False"
| "exact_reports ch cap (d # ds) prev (r # rs) \<longleftrightarrow>
     cutoff_defined ch d \<and> report_exact ch cap d prev r \<and> exact_reports ch cap ds (hc_rank r) rs"

lemma cutoff_loop_exact:
  "\<exists>new. exact_reports ch cap ds prev new
    \<and> ((cutoff_loop env ch cap ds (int prev) reports = Inr (reports @ new) \<and> length new = length ds)
      \<or> (\<exists>e. cutoff_loop env ch cap ds (int prev) reports = Inl (e, reports @ new) \<and> length new < length ds))"
proof (induction ds arbitrary: prev reports)
  case Nil
  show ?case by (rule exI [of _ "[]"]) simp
next
  case (Cons d ds)
  show ?case
  proof (cases "build_hankel_cutoff env ch d cap (int prev)")
    case (Inl e)
    then show ?thesis by (intro exI [of _ "[]"]) simp
  next
    case (Inr x)
    obtain r M where "x = (r, M)" by (cases x)
    with Inr have build: "build_hankel_cutoff env ch d cap (int prev) = Inr (r, M)" by simp
    then have step: "cutoff_loop env ch cap (d # ds) (int prev) reports
        = cutoff_loop env ch cap ds (int (hc_rank r)) (reports @ [r])" by simp
    from Cons.IH [of "hc_rank r" "reports @ [r]"] obtain new where new: "exact_reports ch cap ds (hc_rank r) new"
      and res: "(cutoff_loop env ch cap ds (int (hc_rank r)) (reports @ [r]) = Inr (reports @ r # new) \<and> length new = length ds)
        \<or> (\<exists>e. cutoff_loop env ch cap ds (int (hc_rank r)) (reports @ [r]) = Inl (e, reports @ r # new) \<and> length new < length ds)"
      by auto
    from new build_exact [OF build] have "exact_reports ch cap (d # ds) prev (r # new)" by simp
    then show ?thesis unfolding step using res by (intro exI [of _ "r # new"]) auto
  qed
qed

lemma exact_reports_three:
  assumes "exact_reports ch cap [1, 2, 3] 0 rs"
  shows "length rs \<le> 3 \<and> sorted (map hc_rank rs) \<and> (\<forall>i < length rs. 0 \<le> hc_incremental_rank (rs ! i)
    \<and> report_exact ch cap (int i + 1) (if i = 0 then 0 else hc_rank (rs ! (i - 1))) (rs ! i))"
proof -
  have rank: "hc_rank r = row_space_dim (map (map of_int) (cutoff_matrix ch d))"
    "hc_incremental_rank r = int (hc_rank r) - int prev" if "report_exact ch cap d prev r" for d prev r
    using that by (simp_all add: report_exact_def)
  have up: "hc_rank r1 \<le> hc_rank r2"
    if "report_exact ch cap 1 p1 r1" "report_exact ch cap 2 p2 r2" for p1 p2 r1 r2
    using rank_first_step [of ch] rank(1) [OF that(1)] rank(1) [OF that(2)] by simp
  have up': "hc_rank r2 \<le> hc_rank r3"
    if "cutoff_defined ch 2" "report_exact ch cap 2 p2 r2" "report_exact ch cap 3 p3 r3" for p2 p3 r2 r3
    using rank_second_step [OF that(1)] rank(1) [OF that(2)] rank(1) [OF that(3)] by simp
  consider "rs = []" | r1 where "rs = [r1]" | r1 r2 where "rs = [r1, r2]" | r1 r2 r3 where "rs = [r1, r2, r3]"
    | r1 r2 r3 r4 rest where "rs = r1 # r2 # r3 # r4 # rest"
    by (metis neq_Nil_conv)
  then show ?thesis
  proof cases
    case 1
    then show ?thesis by simp
  next
    case (2 r1)
    with assms rank show ?thesis by auto
  next
    case (3 r1 r2)
    with assms have e: "report_exact ch cap 1 0 r1" "report_exact ch cap 2 (hc_rank r1) r2" by simp_all
    with up [OF e] rank(2) show ?thesis by (auto simp: 3 less_Suc_eq)
  next
    case (4 r1 r2 r3)
    with assms have e: "report_exact ch cap 1 0 r1" "report_exact ch cap 2 (hc_rank r1) r2"
      "report_exact ch cap 3 (hc_rank r2) r3" "cutoff_defined ch 2" by simp_all
    with up [OF e(1,2)] up' [OF e(4,2,3)] rank(2) show ?thesis by (auto simp: 4 less_Suc_eq)
  next
    case 5
    with assms show ?thesis by simp
  qed
qed

section \<open>Properties\<close>

text \<open>
  C31. The exact rank is the dimension of the row space: on a rectangular matrix the elimination
  returns the dimension of the span of its rows as rational vectors, and any other matrix is
  rejected.
\<close>

theorem exact_rank_is_dimension:
  "exact_rational_rank m = (if list_all (\<lambda>row. length row = length (m ! 0)) m
     then Inr (rows.dim (vec_of ` set m)) else Inl ''matrix must be rectangular'')"
proof (cases "list_all (\<lambda>row. length row = length (m ! 0)) m")
  case True
  with exact_rank_iff [of m "row_space_dim m"] show ?thesis by (simp add: list_all_iff row_space_dim_def)
next
  case False
  then have "m \<noteq> []" by auto
  with False show ?thesis by (auto simp: exact_rational_rank_def Let_def list_all_iff list_ex_iff)
qed

text \<open>
  C32. What the probe reports is exact: each report describes the matrix of its cutoff, its rank is
  the dimension of the rows, the coverages and scales are those of the responses, and no cell cap
  was exceeded. The ranks never fall from one cutoff to the next, so no incremental rank is
  negative, and the probe is blocked exactly when a cutoff is missing.
\<close>

theorem hankel_probe_exact:
  assumes "evaluate_hankel_probe env ch cap = Inr p"
  shows "length (hp_cutoffs p) \<le> 3 \<and> sorted (map hc_rank (hp_cutoffs p))
    \<and> (\<forall>i < length (hp_cutoffs p). 0 \<le> hc_incremental_rank (hp_cutoffs p ! i)
        \<and> report_exact ch cap (int i + 1) (if i = 0 then 0 else hc_rank (hp_cutoffs p ! (i - 1))) (hp_cutoffs p ! i))
    \<and> (hp_disposition p = ''U05_PREREQUISITE_BLOCKED'' \<longleftrightarrow> length (hp_cutoffs p) < 3)
    \<and> (hp_blocked_reason p = None \<longleftrightarrow> length (hp_cutoffs p) = 3)"
proof -
  let ?exact = "\<lambda>rs. length rs \<le> 3 \<and> sorted (map hc_rank rs) \<and> (\<forall>i < length rs. 0 \<le> hc_incremental_rank (rs ! i)
        \<and> report_exact ch cap (int i + 1) (if i = 0 then 0 else hc_rank (rs ! (i - 1))) (rs ! i))"
  have all: "?exact rs" if "exact_reports ch cap [1, 2, 3] 0 rs" for rs
    using that by (rule exact_reports_three)
  have disp: "probe_disposition r1 r2 r3 \<noteq> ''U05_PREREQUISITE_BLOCKED''" for r1 r2 r3
    by (simp add: probe_disposition_def)
  obtain new where new: "exact_reports ch cap [1, 2, 3] 0 new"
    "(cutoff_loop env ch cap [1, 2, 3] 0 [] = Inr new \<and> length new = 3)
      \<or> (\<exists>e. cutoff_loop env ch cap [1, 2, 3] 0 [] = Inl (e, new) \<and> length new < 3)"
    using cutoff_loop_exact [of ch cap "[1, 2, 3]" 0 env "[]"] by auto
  show ?thesis
  proof (cases "has_censors ch")
    case True
    with assms show ?thesis by (auto simp: evaluate_hankel_probe_def)
  next
    case False
    from new(2) assms False have p: "hp_cutoffs p = new
        \<and> (hp_disposition p = ''U05_PREREQUISITE_BLOCKED'' \<longleftrightarrow> length new < 3) \<and> (hp_blocked_reason p = None \<longleftrightarrow> length new = 3)"
      by (auto simp: evaluate_hankel_probe_def disp simp del: cutoff_loop.simps split: option.split_asm)
    then have eq: "hp_cutoffs p = new" ..
    show ?thesis unfolding eq using all [OF new(1)] p by blast
  qed
qed

section \<open>A concrete chart\<close>

text \<open>One task and one action: the empty word is closed, every longer one a sink.\<close>

definition ex_words :: "(word_key, word_outcome) dict" where
  "ex_words = ((''t'', []), closed_outcome_example)
     # map (\<lambda>n. ((''t'', replicate n ''a''), closed_outcome_example\<lparr>wo_kind := SINK\<rparr>)) [1, 2, 3]"

definition ex_chart :: chart where
  "ex_chart = \<lparr>ch_action_ids = [''a''], ch_limits = default_chart_limits, ch_state_table = [], ch_transition_table = [],
     ch_word_table = ex_words, ch_word_censors = [], ch_transition_censors = [], ch_task_ids = [''t''],
     ch_primary_attempts = 0, ch_replay_attempts = 0, ch_peak_live = 0, ch_released_live = 0\<rparr>"

definition ex_env :: svd_env where
  "ex_env = \<lparr>svd_values = \<lambda>_. Some [1, 1], svd_quotient = (/)\<rparr>"

definition ex_out :: "action_word \<Rightarrow> word_outcome" where
  "ex_out w = (if w = [] then closed_outcome_example else closed_outcome_example\<lparr>wo_kind := SINK\<rparr>)"

lemma ex_outcomes:
  "w \<in> {[], [''a''], [''a'', ''a''], [''a'', ''a'', ''a'']} \<Longrightarrow> chart_outcome ex_chart ''t'' w = Inr (ex_out w)"
  by (auto simp: chart_outcome_def ex_chart_def ex_words_def ex_out_def upt_rec numeral_2_eq_2 numeral_3_eq_3)

lemma ex_responses:
  "w \<in> {[], [''a''], [''a'', ''a''], [''a'', ''a'', ''a'']} \<Longrightarrow> hankel_response ex_chart ''t'' w =
    Inr (if w = [] then [1, 0, 0, 0, 0, 0, 0] else [0, 1, 0, 0, 0, 0, 0])"
  by (simp only: hankel_response_def ex_outcomes bindE_Inr)
    (simp add: state_for_outcome_def final_response_channels_def ex_out_def closed_outcome_example_def)

lemma ex_kind: "wo_kind (ex_out w) = (if w = [] then CLOSED else SINK)"
  by (simp add: ex_out_def closed_outcome_example_def)

lemma ex_ranks:
  "exact_rational_rank [[1, 0, 0, 0, 0, 0, 0, 0, 1, 0, 0, 0, 0, 0]] = Inr 1"
  "exact_rational_rank [[1, 0, 0, 0, 0, 0, 0, 0, 1, 0, 0, 0, 0, 0], [0, 1, 0, 0, 0, 0, 0, 0, 1, 0, 0, 0, 0, 0]] = Inr 2"
  "exact_rational_rank [[1, 0, 0, 0, 0, 0, 0, 0, 1, 0, 0, 0, 0, 0, 0, 1, 0, 0, 0, 0, 0], [0, 1, 0, 0, 0, 0, 0, 0, 1, 0, 0, 0, 0, 0, 0, 1, 0, 0, 0, 0, 0]] = Inr 2"
  by code_simp+

lemma ex_words_upto:
  "action_words [''a''] 0 True = Inr [[]]" "action_words [''a''] 1 True = Inr [[], [''a'']]"
  "action_words [''a''] 2 True = Inr [[], [''a''], [''a'', ''a'']]"
  by code_simp+

lemma ex_dimensions:
  "hankel_dimensions 1 1 1 = Inr (1, 2, 14, 14)" "hankel_dimensions 1 1 2 = Inr (2, 2, 14, 28)"
  "hankel_dimensions 1 1 3 = Inr (2, 3, 21, 42)"
  by code_simp+

lemma ex_fields: "ch_action_ids ex_chart = [''a'']" "ch_task_ids ex_chart = [''t'']" "\<not> has_censors ex_chart"
  by (simp_all add: ex_chart_def has_censors_def)

lemmas ex_build_simps = build_hankel_cutoff_def valueE_def ex_fields half_floor_def half_ceil_def ex_words_upto ex_dimensions
  hankel_rows_def row_step_def suffix_step_def ex_outcomes ex_responses ex_kind hankel_loop_init_def Let_def ex_ranks
  ex_env_def inverse_ratio_def

lemma ex_builds:
  "map_sum id (\<lambda>x. hc_rank (fst x)) (build_hankel_cutoff ex_env ex_chart 1 1000 prev) = Inr 1"
  "map_sum id (\<lambda>x. hc_rank (fst x)) (build_hankel_cutoff ex_env ex_chart 2 1000 prev) = Inr 2"
  "map_sum id (\<lambda>x. hc_rank (fst x)) (build_hankel_cutoff ex_env ex_chart 3 1000 prev) = Inr 2"
  by (simp_all add: ex_build_simps)

lemma ex_build_parts:
  assumes "map_sum id (\<lambda>x. hc_rank (fst x)) m = Inr n"
  obtains r M where "m = Inr (r, M)" "hc_rank r = n"
  using assms by (cases m) auto

lemma ex_probe:
  obtains p where "evaluate_hankel_probe ex_env ex_chart 1000 = Inr p" "map hc_rank (hp_cutoffs p) = [1, 2, 2]"
proof -
  obtain r1 M1 where b1: "build_hankel_cutoff ex_env ex_chart 1 1000 0 = Inr (r1, M1)" "hc_rank r1 = 1"
    by (rule ex_build_parts [OF ex_builds(1)])
  obtain r2 M2 where b2: "build_hankel_cutoff ex_env ex_chart 2 1000 1 = Inr (r2, M2)" "hc_rank r2 = 2"
    by (rule ex_build_parts [OF ex_builds(2)])
  obtain r3 M3 where b3: "build_hankel_cutoff ex_env ex_chart 3 1000 2 = Inr (r3, M3)" "hc_rank r3 = 2"
    by (rule ex_build_parts [OF ex_builds(3)])
  have "evaluate_hankel_probe ex_env ex_chart 1000 = Inr \<lparr>hp_disposition = probe_disposition r1 r2 r3,
      hp_cutoffs = [r1, r2, r3], hp_blocked_reason = None\<rparr>"
    by (simp add: evaluate_hankel_probe_def ex_fields b1 b2 b3)
  then show thesis by (rule that) (simp add: b1(2) b2(2) b3(2))
qed

theorem hankel_probe_exact_witness:
  "\<exists>p. evaluate_hankel_probe ex_env ex_chart 1000 = Inr p \<and> map hc_rank (hp_cutoffs p) = [1, 2, 2]
    \<and> report_exact ex_chart 1000 3 2 (hp_cutoffs p ! 2)"
proof -
  obtain p where p: "evaluate_hankel_probe ex_env ex_chart 1000 = Inr p" "map hc_rank (hp_cutoffs p) = [1, 2, 2]"
    by (rule ex_probe)
  have len: "length (hp_cutoffs p) = 3" using arg_cong [OF p(2), of length] by simp
  have "hc_rank (hp_cutoffs p ! 1) = 2" using arg_cong [OF p(2), of "\<lambda>xs. xs ! 1"] len by simp
  moreover have "report_exact ex_chart 1000 (int 2 + 1) (if (2 :: nat) = 0 then 0 else hc_rank (hp_cutoffs p ! (2 - 1)))
      (hp_cutoffs p ! 2)"
    using hankel_probe_exact [OF p(1)] len by (metis lessI numeral_2_eq_2 numeral_3_eq_3)
  ultimately show ?thesis using p by auto
qed

end
