(* ===== verification/Reservation.thy ===== *)
theory Reservation
  imports Ledger
begin

text \<open>
  \<^verbatim>\<open>evals/uprime_rpc_bundle_reservation.py\<close>: the verifier of a bundle reservation. It observes a
  file twice through one descriptor, parses it as one line of canonical JSON, checks every field of
  the reservation and of the claim receipt inside it, and returns an attestation that grants no
  authority. What the operating system answers is the record \<open>reservation_env\<close>.
\<close>

section \<open>Constants\<close>

definition SCHEMA_UPRIME_U1_CLAIM_RECEIPT_PUBLIC :: pystr where
  "SCHEMA_UPRIME_U1_CLAIM_RECEIPT_PUBLIC = lit ''lean-rgc-uprime-u1-claim-receipt-public-v1.0''"

definition SCHEMA_UPRIME_RPC_BUNDLE_RESERVATION :: pystr where
  "SCHEMA_UPRIME_RPC_BUNDLE_RESERVATION = lit ''lean-rgc-uprime-rpc-bundle-reservation-v1.1''"

definition SCHEMA_UPRIME_RPC_BUNDLE_RESERVATION_VERIFIER :: pystr where
  "SCHEMA_UPRIME_RPC_BUNDLE_RESERVATION_VERIFIER = lit ''lean-rgc-uprime-rpc-bundle-reservation-token-verifier-v0.1''"

definition REGISTERED_RUN_DIR :: pystr where
  "REGISTERED_RUN_DIR = lit ''runs/uprime_u1_rpc_20260710''"

definition REMOTE_URL :: pystr where
  "REMOTE_URL = lit ''https://github.com/abhorrence-of-Gods/lean-rgc-automation-stack.git''"

definition REMOTE_BRANCH_REF :: pystr where
  "REMOTE_BRANCH_REF = lit ''refs/heads/codex/uprime-odlrq-plan''"

definition REPORT_SCHEMA_VERSION :: pystr where
  "REPORT_SCHEMA_VERSION = lit ''lean-rgc-uprime-rpc-diagnostic-v1.2''"

definition LEDGER_SCHEMA_VERSION :: pystr where
  "LEDGER_SCHEMA_VERSION = lit ''lean-rgc-uprime-rpc-parsed-ledger-v1.0''"

definition RECORD_SCHEMA_VERSION :: pystr where
  "RECORD_SCHEMA_VERSION = lit ''lean-rgc-uprime-rpc-parsed-ledger-record-v1.0''"

definition RPC_PROTOCOL_VERSION :: pystr where
  "RPC_PROTOCOL_VERSION = lit ''lean-rgc-jsonl-rpc-v2''"

definition EXPECTED_FRAME_COUNT :: int where
  "EXPECTED_FRAME_COUNT = 23"

definition EXPECTED_FRAME_MANIFEST_SHA256 :: pystr where
  "EXPECTED_FRAME_MANIFEST_SHA256 = lit ''03A58EA8661BAB7423D5B7CF86DF66F97134DCBAEC976744051310E437BC394E''"

definition MAX_RESERVATION_BYTES :: nat where
  "MAX_RESERVATION_BYTES = 1048576"

definition READ_CHUNK_BYTES :: nat where
  "READ_CHUNK_BYTES = 64 * 1024"

definition LICENSE_DOMAIN :: bytes where
  "LICENSE_DOMAIN = ascii ''lean-rgc-uprime-u1-attempt-v1'' @ [0]"

definition CLAIM_RECEIPT_KEYS :: "pystr list" where
  "CLAIM_RECEIPT_KEYS = map lit [''candidate_commit'', ''candidate_tree_oid'', ''claimed_at_utc'',
     ''input_manifest_sha256'', ''license_commit'', ''license_id'', ''registry_blob_oid'', ''registry_sha256'',
     ''remote_branch_ref'', ''remote_claim_oid'', ''remote_claim_ref'', ''remote_url'', ''schema_version'']"

definition RESERVATION_KEYS :: "pystr list" where
  "RESERVATION_KEYS = map lit [''anchor'', ''candidate_commit'', ''claim_receipt'', ''claim_receipt_sha256'',
     ''expected_frame_count'', ''expected_frame_manifest_sha256'', ''ledger_artifact_name'', ''ledger_schema_version'',
     ''license_commit'', ''license_id'', ''process_id'', ''record_schema_version'', ''registered_run_dir'',
     ''remote_claim_ref'', ''report_artifact_name'', ''report_schema_version'', ''reservation_artifact_name'',
     ''reservation_token_sha256'', ''reserved_at_utc'', ''rpc_protocol_version'', ''schema_version'', ''status'']"

text \<open>\<open>Uncaught\<close> is any other exception; the public entry points turn it into the error of the module.\<close>

datatype reservation_error = Reservation_Error string | Uncaught

section \<open>Observing the file\<close>

text \<open>
  The answer to one system call: a value, an exception the surrounding \<^verbatim>\<open>except\<close> clause names, or
  another one.
\<close>

datatype 'a answer = Answer 'a | Named_Error | Other_Error

definition answerE :: "'a answer \<Rightarrow> string \<Rightarrow> (reservation_error, 'a) res" where
  "answerE a message = (case a of Answer x \<Rightarrow> Inr x | Named_Error \<Rightarrow> Inl (Reservation_Error message) | Other_Error \<Rightarrow> Inl Uncaught)"

type_synonym reader = "nat \<Rightarrow> nat \<Rightarrow> bytes answer"

record reservation_env =
  re_open :: "unit answer"
  re_fstat0 :: "(bool \<times> stat) answer"
  re_seek1 :: "unit answer"
  re_read1 :: reader
  re_fstat1 :: "stat answer"
  re_seek2 :: "unit answer"
  re_read2 :: reader
  re_fstat2 :: "stat answer"
  re_close :: "unit answer"
  re_restat :: "(bool \<times> stat) answer"

text \<open>
  The reading loop; \<open>rd i n\<close> is the answer to the \<open>i\<close>-th \<^verbatim>\<open>os.read\<close>, which asks for \<open>n\<close> bytes.
\<close>

function read_chunks :: "reader \<Rightarrow> nat \<Rightarrow> nat \<Rightarrow> bytes \<Rightarrow> (reservation_error, bytes) res" where
  "read_chunks rd max_bytes i acc =
     (if length acc > max_bytes then Inl (Reservation_Error ''reservation exceeds the byte limit'')
      else bindE (answerE (rd i (min READ_CHUNK_BYTES (max_bytes - length acc + 1))) ''reservation read failed'') (\<lambda>chunk.
        if chunk = [] then Inr acc else read_chunks rd max_bytes (i + 1) (acc @ chunk)))"
  by pat_completeness auto
termination
  by (relation "measure (\<lambda>(_, max_bytes, _, acc). Suc max_bytes - length acc)") (auto simp: length_greater_0_conv [symmetric] simp del: length_greater_0_conv)

declare read_chunks.simps [simp del]

definition read_bounded_fd :: "unit answer \<Rightarrow> reader \<Rightarrow> int \<Rightarrow> int \<Rightarrow> (reservation_error, bytes) res" where
  "read_bounded_fd seek rd expected_size max_bytes =
     (if expected_size < 0 then Inl (Reservation_Error ''reservation observation size is invalid'')
      else if max_bytes < 0 then Inl (Reservation_Error ''reservation observation bound is invalid'')
      else if expected_size > max_bytes then Inl (Reservation_Error ''reservation exceeds the byte limit'')
      else bindE (answerE seek ''reservation seek failed'') (\<lambda>_.
        bindE (read_chunks rd (nat max_bytes) 0 []) (\<lambda>bs.
        if int (length bs) \<noteq> expected_size
          then Inl (Reservation_Error ''reservation byte count changed during observation'')
        else Inr bs)))"

definition lexical_path :: "pystr option answer \<Rightarrow> (reservation_error, pystr) res" where
  "lexical_path path =
     bindE (answerE path ''reservation path is invalid'') (\<lambda>raw.
     case raw of
       None \<Rightarrow> Inl (Reservation_Error ''reservation path must be a nonempty lexical string'')
     | Some p \<Rightarrow> (if p = [] then Inl (Reservation_Error ''reservation path must be a nonempty lexical string'') else Inr p))"

record reservation_snapshot =
  rs_raw_path :: pystr
  rs_file_bytes :: bytes
  rs_input_sha256 :: pystr
  rs_input_bytes :: nat

definition observe_fd :: "reservation_env \<Rightarrow> (reservation_error, stat \<times> bytes \<times> pystr) res" where
  "observe_fd env =
     bindE (answerE (re_fstat0 env) ''reservation descriptor stat failed'') (\<lambda>(regular, snapshot0).
     if \<not> regular then Inl (Reservation_Error ''reservation path is not a regular file'')
     else if st_size snapshot0 > MAX_RESERVATION_BYTES then Inl (Reservation_Error ''reservation exceeds the byte limit'')
     else
       bindE (read_bounded_fd (re_seek1 env) (re_read1 env) (int (st_size snapshot0)) (int MAX_RESERVATION_BYTES)) (\<lambda>first_bytes.
       bindE (answerE (re_fstat1 env) ''reservation descriptor stat failed'') (\<lambda>snapshot1.
       let first_digest = lit (sha256_hex first_bytes) in
       bindE (read_bounded_fd (re_seek2 env) (re_read2 env) (int (st_size snapshot0)) (int MAX_RESERVATION_BYTES)) (\<lambda>second_bytes.
       bindE (answerE (re_fstat2 env) ''reservation descriptor stat failed'') (\<lambda>snapshot2.
       let second_digest = lit (sha256_hex second_bytes) in
       if stat_snapshot snapshot0 \<noteq> stat_snapshot snapshot1 \<or> stat_snapshot snapshot0 \<noteq> stat_snapshot snapshot2
         then Inl (Reservation_Error ''reservation metadata changed during observation'')
       else if length first_bytes \<noteq> length second_bytes \<or> first_digest \<noteq> second_digest
         then Inl (Reservation_Error ''reservation content changed during observation'')
       else Inr (snapshot0, first_bytes, first_digest))))))"

text \<open>An error while observing is kept until the descriptor is closed; a failing close replaces it.\<close>

definition load_reservation_snapshot :: "reservation_env \<Rightarrow> pystr \<Rightarrow> (reservation_error, reservation_snapshot) res" where
  "load_reservation_snapshot env raw_path =
     bindE (answerE (re_open env) ''reservation open failed'') (\<lambda>_.
     let observed = (case observe_fd env of
           Inl Uncaught \<Rightarrow> Inl (Reservation_Error ''reservation observation failed'')
         | r \<Rightarrow> r) in
     bindE (answerE (re_close env) ''reservation close failed'') (\<lambda>_.
     bindE observed (\<lambda>(snapshot0, first_bytes, first_digest).
     bindE (answerE (re_restat env) ''reservation path binding failed'') (\<lambda>(regular, final_path).
     if \<not> regular then Inl (Reservation_Error ''reservation path binding is not a regular file'')
     else if path_binding final_path \<noteq> path_binding snapshot0
       then Inl (Reservation_Error ''reservation path identity changed during observation'')
     else Inr \<lparr>rs_raw_path = raw_path, rs_file_bytes = first_bytes, rs_input_sha256 = first_digest,
               rs_input_bytes = length first_bytes\<rparr>))))"

section \<open>Field checks\<close>

definition bad :: "string \<Rightarrow> string \<Rightarrow> (reservation_error, 'a) res" where
  "bad label message = Inl (Reservation_Error (label @ message))"

definition exact_object :: "json \<Rightarrow> pystr list \<Rightarrow> string \<Rightarrow> (reservation_error, (pystr \<times> json) list) res" where
  "exact_object v keys label =
     (case v of
        JObj kvs \<Rightarrow> if sort (map fst kvs) \<noteq> sort keys then bad label '' field set is invalid'' else Inr kvs
      | _ \<Rightarrow> bad label '' field set is invalid'')"

text \<open>\<^verbatim>\<open>value[key]\<close>; every key that is looked up was required by \<open>exact_object\<close>.\<close>

definition field :: "(pystr \<times> json) list \<Rightarrow> string \<Rightarrow> json" where
  "field kvs key = (case map_of kvs (lit key) of Some v \<Rightarrow> v | None \<Rightarrow> JNull)"

definition string_field :: "json \<Rightarrow> string \<Rightarrow> bool \<Rightarrow> (reservation_error, pystr) res" where
  "string_field v label nonempty =
     (case v of
        JStr s \<Rightarrow> if nonempty \<and> s = [] then bad label '' must be a string'' else Inr s
      | _ \<Rightarrow> bad label '' must be a string'')"

definition chars_in :: "string \<Rightarrow> nat \<Rightarrow> pystr \<Rightarrow> bool" where
  "chars_in alphabet n t \<longleftrightarrow> length t = n \<and> list_all (\<lambda>c. c \<in> set (lit alphabet)) t"

definition hex40_lower :: "pystr \<Rightarrow> bool" where "hex40_lower = chars_in ''0123456789abcdef'' 40"
definition hex64_lower :: "pystr \<Rightarrow> bool" where "hex64_lower = chars_in ''0123456789abcdef'' 64"
definition hex64_upper :: "pystr \<Rightarrow> bool" where "hex64_upper = chars_in ''0123456789ABCDEF'' 64"
definition anchor_syntax :: "pystr \<Rightarrow> bool" where "anchor_syntax = chars_in ''0123456789abcdef'' 12"

definition utc_syntax :: "pystr \<Rightarrow> bool" where
  "utc_syntax t \<longleftrightarrow> list_all2 (\<lambda>p c. if p = CHR ''d'' then is_digit_cp c else c = of_char p)
     ''dddd-dd-ddTdd:dd:dd.ddddddZ'' t"

definition regex_field :: "json \<Rightarrow> (pystr \<Rightarrow> bool) \<Rightarrow> string \<Rightarrow> (reservation_error, pystr) res" where
  "regex_field v matches label =
     bindE (string_field v label False) (\<lambda>t. if matches t then Inr t else bad label '' has invalid syntax'')"

text \<open>\<^verbatim>\<open>datetime.strptime\<close> on a text of that form: the year, month, day and time of day must exist.\<close>

definition number_at :: "pystr \<Rightarrow> nat \<Rightarrow> nat \<Rightarrow> nat" where
  "number_at t i n = digits_value (take n (drop i t))"

definition days_in_month :: "nat \<Rightarrow> nat \<Rightarrow> nat" where
  "days_in_month y m =
     (if m = 2 then (if y mod 4 = 0 \<and> (y mod 100 \<noteq> 0 \<or> y mod 400 = 0) then 29 else 28)
      else if m \<in> {4, 6, 9, 11} then 30 else 31)"

definition real_instant :: "pystr \<Rightarrow> bool" where
  "real_instant t \<longleftrightarrow>
     (let y = number_at t 0 4; m = number_at t 5 2; d = number_at t 8 2 in
      1 \<le> y \<and> 1 \<le> m \<and> m \<le> 12 \<and> 1 \<le> d \<and> d \<le> days_in_month y m
      \<and> number_at t 11 2 \<le> 23 \<and> number_at t 14 2 \<le> 59 \<and> number_at t 17 2 \<le> 59)"

definition utc_field :: "json \<Rightarrow> string \<Rightarrow> (reservation_error, pystr) res" where
  "utc_field v label =
     bindE (regex_field v utc_syntax label) (\<lambda>t.
       if real_instant t then Inr t else bad label '' is not a real UTC instant'')"

definition positive_int64 :: "json \<Rightarrow> string \<Rightarrow> (reservation_error, int) res" where
  "positive_int64 v label =
     (case v of
        JInt i \<Rightarrow> if 1 \<le> i \<and> i \<le> StrictJson.MAX_SIGNED_64 then Inr i else bad label '' must be a positive signed-64 integer''
      | _ \<Rightarrow> bad label '' must be a positive signed-64 integer'')"

definition exact_int :: "json \<Rightarrow> int \<Rightarrow> string \<Rightarrow> (reservation_error, int) res" where
  "exact_int v expected label = (if v = JInt expected then Inr expected else bad label '' is invalid'')"

definition encode_ascii :: "pystr \<Rightarrow> bytes option" where
  "encode_ascii t = (if list_all (\<lambda>c. c < 0x80) t then Some (map ucast t) else None)"

definition drive_prefix :: "pystr \<Rightarrow> bool" where
  "drive_prefix t \<longleftrightarrow> (case t of
     c # d # _ \<Rightarrow> c \<in> set (lit ''ABCDEFGHIJKLMNOPQRSTUVWXYZabcdefghijklmnopqrstuvwxyz'') \<and> d = colon
   | _ \<Rightarrow> False)"

definition ascii_basename :: "json \<Rightarrow> string \<Rightarrow> (reservation_error, pystr) res" where
  "ascii_basename v label =
     bindE (string_field v label True) (\<lambda>t.
       if encode_ascii t = None then bad label '' must be ASCII''
       else if t \<in> {lit ''.'', lit ''..''} \<or> 0x2F \<in> set t \<or> backslash \<in> set t \<or> drive_prefix t
         then bad label '' is not a canonical basename''
       else Inr t)"

definition demand :: "bool \<Rightarrow> string \<Rightarrow> (reservation_error, unit) res" where
  "demand ok message = guardE (\<not> ok) (Reservation_Error message)"

section \<open>The claim receipt and the reservation\<close>

definition validate_claim_receipt :: "json \<Rightarrow> (reservation_error, (pystr \<times> json) list) res" where
  "validate_claim_receipt value =
     bindE (exact_object value CLAIM_RECEIPT_KEYS ''claim receipt'') (\<lambda>receipt.
     bindE (demand (field receipt ''schema_version'' = JStr SCHEMA_UPRIME_U1_CLAIM_RECEIPT_PUBLIC) ''claim receipt schema is invalid'') (\<lambda>_.
     bindE (regex_field (field receipt ''candidate_commit'') hex40_lower ''candidate commit'') (\<lambda>candidate.
     bindE (regex_field (field receipt ''license_commit'') hex40_lower ''license commit'') (\<lambda>license_commit.
     bindE (regex_field (field receipt ''license_id'') hex64_lower ''license id'') (\<lambda>license_id.
     case encode_ascii candidate of
       None \<Rightarrow> Inl Uncaught
     | Some candidate_bytes \<Rightarrow>
     bindE (demand (license_id = hex_digest (LICENSE_DOMAIN @ candidate_bytes))
       ''license id does not derive from the candidate commit'') (\<lambda>_.
     bindE (demand (field receipt ''remote_url'' = JStr REMOTE_URL) ''claim receipt remote URL is invalid'') (\<lambda>_.
     bindE (demand (field receipt ''remote_branch_ref'' = JStr REMOTE_BRANCH_REF) ''claim receipt branch ref is invalid'') (\<lambda>_.
     bindE (demand (field receipt ''remote_claim_ref'' = JStr (lit ''refs/tags/uprime-u1-attempts/'' @ license_id))
       ''claim receipt tag ref is invalid'') (\<lambda>_.
     bindE (regex_field (field receipt ''remote_claim_oid'') hex40_lower ''remote claim oid'') (\<lambda>remote_claim_oid.
     bindE (demand (remote_claim_oid = license_commit) ''claim receipt remote oid differs from the license commit'') (\<lambda>_.
     bindE (regex_field (field receipt ''registry_blob_oid'') hex40_lower ''registry blob oid'') (\<lambda>_.
     bindE (regex_field (field receipt ''registry_sha256'') hex64_upper ''registry sha256'') (\<lambda>_.
     bindE (regex_field (field receipt ''candidate_tree_oid'') hex40_lower ''candidate tree oid'') (\<lambda>_.
     bindE (regex_field (field receipt ''input_manifest_sha256'') hex64_upper ''input manifest sha256'') (\<lambda>_.
     bindE (utc_field (field receipt ''claimed_at_utc'') ''claim time'') (\<lambda>_.
     Inr receipt))))))))))))))))"

definition report_name_of :: "pystr \<Rightarrow> pystr" where
  "report_name_of anchor = lit ''rpc_diagnostic_'' @ anchor @ lit ''.json''"

definition ledger_name_of :: "pystr \<Rightarrow> pystr" where
  "ledger_name_of anchor = lit ''rpc_diagnostic_'' @ anchor @ lit ''.responses.jsonl''"

definition validate_reservation_identity ::
  "(pystr \<times> json) list \<Rightarrow> (reservation_error, (pystr \<times> json) list \<times> pystr) res" where
  "validate_reservation_identity reservation =
     bindE (validate_claim_receipt (field reservation ''claim_receipt'')) (\<lambda>receipt.
     bindE (regex_field (field reservation ''candidate_commit'') hex40_lower ''reservation candidate commit'') (\<lambda>candidate.
     bindE (regex_field (field reservation ''license_commit'') hex40_lower ''reservation license commit'') (\<lambda>license_commit.
     bindE (regex_field (field reservation ''license_id'') hex64_lower ''reservation license id'') (\<lambda>license_id.
     bindE (string_field (field reservation ''remote_claim_ref'') ''reservation remote claim ref'' False) (\<lambda>remote_claim_ref.
     bindE (demand (JStr candidate = field receipt ''candidate_commit'' \<and> JStr license_commit = field receipt ''license_commit''
         \<and> JStr license_id = field receipt ''license_id'' \<and> JStr remote_claim_ref = field receipt ''remote_claim_ref'')
       ''reservation identity differs from its claim receipt'') (\<lambda>_.
     bindE (regex_field (field reservation ''anchor'') anchor_syntax ''anchor'') (\<lambda>anchor.
     bindE (demand (anchor = take 12 license_commit) ''reservation anchor is not the license-commit prefix'') (\<lambda>_.
     bindE (liftE (\<lambda>_. Uncaught) (canonical_json_bytes (JObj receipt))) (\<lambda>receipt_bytes.
     bindE (regex_field (field reservation ''claim_receipt_sha256'') hex64_upper ''claim receipt sha256'') (\<lambda>stored.
     bindE (demand (stored = lit (sha256_hex receipt_bytes)) ''reservation claim receipt digest is invalid'') (\<lambda>_.
     Inr (receipt, anchor))))))))))))"

definition validate_reservation_object ::
  "json \<Rightarrow> (reservation_error, (pystr \<times> json) list \<times> (pystr \<times> json) list) res" where
  "validate_reservation_object value =
     bindE (exact_object value RESERVATION_KEYS ''reservation'') (\<lambda>reservation.
     bindE (demand (field reservation ''schema_version'' = JStr SCHEMA_UPRIME_RPC_BUNDLE_RESERVATION) ''reservation schema is invalid'') (\<lambda>_.
     bindE (demand (field reservation ''status'' = JStr (lit ''LIVE_EVIDENCE_BUNDLE_RESERVED''))
       ''reservation status is invalid'') (\<lambda>_.
     bindE (validate_reservation_identity reservation) (\<lambda>(receipt, anchor).
     bindE (demand (field reservation ''registered_run_dir'' = JStr REGISTERED_RUN_DIR)
       ''reservation run directory is invalid'') (\<lambda>_.
     bindE (ascii_basename (field reservation ''report_artifact_name'') ''report artifact name'') (\<lambda>report_name.
     bindE (ascii_basename (field reservation ''ledger_artifact_name'') ''ledger artifact name'') (\<lambda>ledger_name.
     bindE (ascii_basename (field reservation ''reservation_artifact_name'') ''reservation artifact name'') (\<lambda>reservation_name.
     bindE (demand (report_name = report_name_of anchor) ''report artifact name is invalid'') (\<lambda>_.
     bindE (demand (ledger_name = ledger_name_of anchor) ''ledger artifact name is invalid'') (\<lambda>_.
     bindE (demand (reservation_name = report_name_of anchor @ lit ''.reservation'')
       ''reservation artifact name is invalid'') (\<lambda>_.
     bindE (demand (field reservation ''report_schema_version'' = JStr REPORT_SCHEMA_VERSION) ''reservation report schema is invalid'') (\<lambda>_.
     bindE (demand (field reservation ''ledger_schema_version'' = JStr LEDGER_SCHEMA_VERSION) ''reservation ledger schema is invalid'') (\<lambda>_.
     bindE (demand (field reservation ''record_schema_version'' = JStr RECORD_SCHEMA_VERSION) ''reservation record schema is invalid'') (\<lambda>_.
     bindE (demand (field reservation ''rpc_protocol_version'' = JStr RPC_PROTOCOL_VERSION)
       ''reservation RPC protocol is invalid'') (\<lambda>_.
     bindE (exact_int (field reservation ''expected_frame_count'') EXPECTED_FRAME_COUNT ''reservation frame count'') (\<lambda>_.
     bindE (demand (field reservation ''expected_frame_manifest_sha256'' = JStr EXPECTED_FRAME_MANIFEST_SHA256)
       ''reservation frame manifest is invalid'') (\<lambda>_.
     bindE (regex_field (field reservation ''reservation_token_sha256'') hex64_upper ''reservation token sha256'') (\<lambda>_.
     bindE (utc_field (field reservation ''reserved_at_utc'') ''reservation time'') (\<lambda>_.
     bindE (positive_int64 (field reservation ''process_id'') ''reservation process id'') (\<lambda>_.
     Inr (reservation, receipt)))))))))))))))))))))"

section \<open>Path, file and token\<close>

text \<open>\<^verbatim>\<open>re.split\<close> at every slash and backslash.\<close>

fun split_lexical_components :: "pystr \<Rightarrow> pystr list" where
  "split_lexical_components [] = [[]]"
| "split_lexical_components (c # cs) =
     (let parts = split_lexical_components cs in
      if c = 0x2F \<or> c = backslash then [] # parts
      else case parts of [] \<Rightarrow> [[c]] | p # ps \<Rightarrow> (c # p) # ps)"

definition validate_reservation_path :: "pystr \<Rightarrow> (pystr \<times> json) list \<Rightarrow> (reservation_error, unit) res" where
  "validate_reservation_path raw_path reservation =
     (let parts = split_lexical_components raw_path; last3 = drop (length parts - 3) parts in
      if list_ex (\<lambda>part. part \<in> {lit ''.'', lit ''..''}) parts
        then Inl (Reservation_Error ''reservation path contains a visible dot component'')
      else if length parts < 3 then Inl (Reservation_Error ''reservation path lacks the canonical suffix'')
      else if map JStr last3 \<noteq> [JStr (lit ''runs''), JStr (lit ''uprime_u1_rpc_20260710''),
            field reservation ''reservation_artifact_name'']
          \<or> list_ex (\<lambda>item. item = []) last3
        then Inl (Reservation_Error ''reservation path suffix is invalid'')
      else Inr ())"

definition parse_reservation_file :: "bytes \<Rightarrow> (reservation_error, (pystr \<times> json) list \<times> (pystr \<times> json) list) res" where
  "parse_reservation_file raw =
     (if raw = [] \<or> last raw \<noteq> 10 \<or> (2 \<le> length raw \<and> last (butlast raw) = 10)
        then Inl (Reservation_Error ''reservation file must have exactly one terminal LF'')
      else let payload = butlast raw in
        if payload = [] \<or> 10 \<in> set payload \<or> 13 \<in> set raw
          then Inl (Reservation_Error ''reservation file contains noncanonical line bytes'')
        else case parse_canonical_json_bytes payload of
          Inl (Structure_Error _) \<Rightarrow> Inl (Reservation_Error ''reservation file is not strict canonical JSON'')
        | Inl (Write_Error _) \<Rightarrow> Inl Uncaught
        | Inr value \<Rightarrow> validate_reservation_object value)"

text \<open>The token argument: \<^verbatim>\<open>None\<close> stands for any value that is not a string.\<close>

definition token_digest :: "pystr option \<Rightarrow> (reservation_error, pystr) res" where
  "token_digest token =
     (case token of
        None \<Rightarrow> Inl (Reservation_Error ''reservation token syntax is invalid'')
      | Some t \<Rightarrow>
          (if \<not> hex64_lower t then Inl (Reservation_Error ''reservation token syntax is invalid'')
           else case encode_ascii t of
             None \<Rightarrow> Inl (Reservation_Error ''reservation token syntax is invalid'')
           | Some b \<Rightarrow> Inr (lit (sha256_hex b))))"

fun occurs_in :: "'a list \<Rightarrow> 'a list \<Rightarrow> bool" where
  "occurs_in x [] \<longleftrightarrow> x = []"
| "occurs_in x (y # ys) \<longleftrightarrow> take (length x) (y # ys) = x \<or> occurs_in x ys"

record reservation_attestation =
  ra_verifier_schema_version :: pystr
  ra_verifier_scope :: string
  ra_origin_status :: string
  ra_input_sha256 :: pystr
  ra_input_bytes :: nat
  ra_reservation_sha256 :: pystr
  ra_reservation_artifact_name :: json
  ra_report_artifact_name :: json
  ra_ledger_artifact_name :: json
  ra_registered_run_dir :: json
  ra_candidate_commit :: json
  ra_license_commit :: json
  ra_license_id :: json
  ra_anchor :: json
  ra_remote_claim_ref :: json
  ra_claim_receipt_sha256 :: json
  ra_receipt_schema_version :: json
  ra_reservation_schema_version :: json
  ra_reservation_token_verification :: string
  ra_remote_claim_authentication :: string
  ra_git_object_authentication :: string
  ra_claim_once_authentication :: string
  ra_manifest_binding :: string
  ra_ledger_binding :: string
  ra_report_binding :: string
  ra_privacy_scan :: string
  ra_archive_verification :: string
  ra_authority_scope :: string
  ra_canonical_run_authority :: bool
  ra_licenses_execution :: bool
  ra_licenses_later_stage :: bool

definition reservation_attestation_of ::
  "reservation_snapshot \<Rightarrow> (pystr \<times> json) list \<Rightarrow> (pystr \<times> json) list \<Rightarrow> string \<Rightarrow> reservation_attestation" where
  "reservation_attestation_of snapshot reservation receipt token_status =
     \<lparr>ra_verifier_schema_version = SCHEMA_UPRIME_RPC_BUNDLE_RESERVATION_VERIFIER,
      ra_verifier_scope = ''standalone_bundle_reservation_receipt_token_only'',
      ra_origin_status = ''unknown_may_be_synthetic'',
      ra_input_sha256 = rs_input_sha256 snapshot, ra_input_bytes = rs_input_bytes snapshot,
      ra_reservation_sha256 = rs_input_sha256 snapshot,
      ra_reservation_artifact_name = field reservation ''reservation_artifact_name'',
      ra_report_artifact_name = field reservation ''report_artifact_name'',
      ra_ledger_artifact_name = field reservation ''ledger_artifact_name'',
      ra_registered_run_dir = field reservation ''registered_run_dir'',
      ra_candidate_commit = field reservation ''candidate_commit'',
      ra_license_commit = field reservation ''license_commit'', ra_license_id = field reservation ''license_id'',
      ra_anchor = field reservation ''anchor'', ra_remote_claim_ref = field reservation ''remote_claim_ref'',
      ra_claim_receipt_sha256 = field reservation ''claim_receipt_sha256'',
      ra_receipt_schema_version = field receipt ''schema_version'',
      ra_reservation_schema_version = field reservation ''schema_version'',
      ra_reservation_token_verification = token_status,
      ra_remote_claim_authentication = ''not_performed'', ra_git_object_authentication = ''not_performed'',
      ra_claim_once_authentication = ''not_performed'', ra_manifest_binding = ''not_performed'',
      ra_ledger_binding = ''not_performed'', ra_report_binding = ''not_performed'',
      ra_privacy_scan = ''not_performed'', ra_archive_verification = ''not_performed'',
      ra_authority_scope = ''none'', ra_canonical_run_authority = False, ra_licenses_execution = False,
      ra_licenses_later_stage = False\<rparr>"

text \<open>\<^verbatim>\<open>_attest\<close>; the outer option of the token is its \<^verbatim>\<open>None\<close>, the call without a token.\<close>

definition attest_reservation ::
  "reservation_env \<Rightarrow> pystr option answer \<Rightarrow> pystr option option \<Rightarrow> (reservation_error, reservation_attestation) res" where
  "attest_reservation env path token =
     bindE (lexical_path path) (\<lambda>raw_path.
     bindE (case token of
         None \<Rightarrow> Inr None
       | Some t \<Rightarrow> bindE (token_digest t) (\<lambda>digest.
           if occurs_in (case t of Some h \<Rightarrow> h | None \<Rightarrow> []) raw_path
             then Inl (Reservation_Error ''reservation token appears in the lexical path'')
           else Inr (Some (case t of Some h \<Rightarrow> h | None \<Rightarrow> [], digest)))) (\<lambda>held.
     bindE (load_reservation_snapshot env raw_path) (\<lambda>snapshot.
     bindE (case held of
         None \<Rightarrow> Inr ()
       | Some (h, _) \<Rightarrow> (case encode_ascii h of
           None \<Rightarrow> Inl Uncaught
         | Some hb \<Rightarrow> guardE (occurs_in hb (rs_file_bytes snapshot))
             (Reservation_Error ''reservation token appears in reservation bytes''))) (\<lambda>_.
     bindE (parse_reservation_file (rs_file_bytes snapshot)) (\<lambda>(reservation, receipt).
     bindE (validate_reservation_path (rs_raw_path snapshot) reservation) (\<lambda>_.
     case held of
       None \<Rightarrow> Inr (reservation_attestation_of snapshot reservation receipt ''not_performed'')
     | Some (_, digest) \<Rightarrow>
         (if field reservation ''reservation_token_sha256'' \<noteq> JStr digest
            then Inl (Reservation_Error ''reservation token does not match the stored digest'')
          else Inr (reservation_attestation_of snapshot reservation receipt ''verified_ascii_sha256''))))))))"

definition inspect_reservation ::
  "reservation_env \<Rightarrow> pystr option answer \<Rightarrow> (string, reservation_attestation) res" where
  "inspect_reservation env path =
     (case attest_reservation env path None of
        Inl (Reservation_Error m) \<Rightarrow> Inl m
      | Inl Uncaught \<Rightarrow> Inl ''standalone reservation inspection failed''
      | Inr a \<Rightarrow> Inr a)"

definition verify_reservation ::
  "reservation_env \<Rightarrow> pystr option answer \<Rightarrow> pystr option \<Rightarrow> (string, reservation_attestation) res" where
  "verify_reservation env path token =
     (if token = None then Inl ''reservation token syntax is invalid''
      else case attest_reservation env path (Some token) of
        Inl (Reservation_Error m) \<Rightarrow> Inl m
      | Inl Uncaught \<Rightarrow> Inl ''standalone reservation verification failed''
      | Inr a \<Rightarrow> Inr a)"

end
