(* ===== verification/ReservationFields.thy ===== *)
theory ReservationFields
  imports Reservation LedgerAscii
begin

text \<open>
  The fields a reservation is free to choose, the receipt and reservation they determine, and the
  checks as equations on single fields.
\<close>

section \<open>Fields\<close>

record claim =
  cl_candidate :: pystr
  cl_tree :: pystr
  cl_license :: pystr
  cl_registry_blob :: pystr
  cl_registry_sha256 :: pystr
  cl_input_manifest :: pystr
  cl_claimed_at :: pystr
  cl_token_sha256 :: pystr
  cl_reserved_at :: pystr
  cl_process_id :: int

definition receipt_ok :: "claim \<Rightarrow> bool" where
  "receipt_ok c \<longleftrightarrow> hex40_lower (cl_candidate c) \<and> hex40_lower (cl_tree c) \<and> hex40_lower (cl_license c)
     \<and> hex40_lower (cl_registry_blob c) \<and> hex64_upper (cl_registry_sha256 c) \<and> hex64_upper (cl_input_manifest c)
     \<and> utc_syntax (cl_claimed_at c) \<and> real_instant (cl_claimed_at c)"

definition claim_ok :: "claim \<Rightarrow> bool" where
  "claim_ok c \<longleftrightarrow> receipt_ok c \<and> hex64_upper (cl_token_sha256 c)
     \<and> utc_syntax (cl_reserved_at c) \<and> real_instant (cl_reserved_at c)
     \<and> 1 \<le> cl_process_id c \<and> cl_process_id c \<le> StrictJson.MAX_SIGNED_64"

definition claim_license_id :: "claim \<Rightarrow> pystr" where
  "claim_license_id c = hex_digest (LICENSE_DOMAIN @ map ucast (cl_candidate c))"

definition claim_ref :: "claim \<Rightarrow> pystr" where
  "claim_ref c = lit ''refs/tags/uprime-u1-attempts/'' @ claim_license_id c"

definition claim_anchor :: "claim \<Rightarrow> pystr" where
  "claim_anchor c = take 12 (cl_license c)"

definition receipt_members :: "claim \<Rightarrow> (pystr \<times> json) list" where
  "receipt_members c =
     [(lit ''candidate_commit'', JStr (cl_candidate c)), (lit ''candidate_tree_oid'', JStr (cl_tree c)),
      (lit ''claimed_at_utc'', JStr (cl_claimed_at c)), (lit ''input_manifest_sha256'', JStr (cl_input_manifest c)),
      (lit ''license_commit'', JStr (cl_license c)), (lit ''license_id'', JStr (claim_license_id c)),
      (lit ''registry_blob_oid'', JStr (cl_registry_blob c)), (lit ''registry_sha256'', JStr (cl_registry_sha256 c)),
      (lit ''remote_branch_ref'', JStr REMOTE_BRANCH_REF), (lit ''remote_claim_oid'', JStr (cl_license c)),
      (lit ''remote_claim_ref'', JStr (claim_ref c)), (lit ''remote_url'', JStr REMOTE_URL),
      (lit ''schema_version'', JStr SCHEMA_UPRIME_U1_CLAIM_RECEIPT_PUBLIC)]"

definition receipt_bytes :: "claim \<Rightarrow> bytes" where
  "receipt_bytes c = utf8_raw (dumps (JObj (receipt_members c)))"

definition reservation_members :: "claim \<Rightarrow> (pystr \<times> json) list" where
  "reservation_members c =
     [(lit ''anchor'', JStr (claim_anchor c)), (lit ''candidate_commit'', JStr (cl_candidate c)),
      (lit ''claim_receipt'', JObj (receipt_members c)),
      (lit ''claim_receipt_sha256'', JStr (lit (sha256_hex (receipt_bytes c)))),
      (lit ''expected_frame_count'', JInt EXPECTED_FRAME_COUNT),
      (lit ''expected_frame_manifest_sha256'', JStr EXPECTED_FRAME_MANIFEST_SHA256),
      (lit ''ledger_artifact_name'', JStr (ledger_name_of (claim_anchor c))),
      (lit ''ledger_schema_version'', JStr LEDGER_SCHEMA_VERSION), (lit ''license_commit'', JStr (cl_license c)),
      (lit ''license_id'', JStr (claim_license_id c)), (lit ''process_id'', JInt (cl_process_id c)),
      (lit ''record_schema_version'', JStr RECORD_SCHEMA_VERSION), (lit ''registered_run_dir'', JStr REGISTERED_RUN_DIR),
      (lit ''remote_claim_ref'', JStr (claim_ref c)),
      (lit ''report_artifact_name'', JStr (report_name_of (claim_anchor c))),
      (lit ''report_schema_version'', JStr REPORT_SCHEMA_VERSION),
      (lit ''reservation_artifact_name'', JStr (report_name_of (claim_anchor c) @ lit ''.reservation'')),
      (lit ''reservation_token_sha256'', JStr (cl_token_sha256 c)),
      (lit ''reserved_at_utc'', JStr (cl_reserved_at c)), (lit ''rpc_protocol_version'', JStr RPC_PROTOCOL_VERSION),
      (lit ''schema_version'', JStr SCHEMA_UPRIME_RPC_BUNDLE_RESERVATION), (lit ''status'', JStr (lit ''LIVE_EVIDENCE_BUNDLE_RESERVED''))]"

definition reservation_bytes :: "claim \<Rightarrow> bytes" where
  "reservation_bytes c = utf8_raw (dumps (JObj (reservation_members c))) @ [10]"

lemma member_keys: "map fst (receipt_members c) = CLAIM_RECEIPT_KEYS" "map fst (reservation_members c) = RESERVATION_KEYS"
  by (simp_all add: receipt_members_def reservation_members_def CLAIM_RECEIPT_KEYS_def RESERVATION_KEYS_def)

lemma keys_sorted:
  "sorted CLAIM_RECEIPT_KEYS" "distinct CLAIM_RECEIPT_KEYS" "sorted RESERVATION_KEYS" "distinct RESERVATION_KEYS"
  by (simp_all add: CLAIM_RECEIPT_KEYS_def RESERVATION_KEYS_def) (simp_all add: lit_def)

section \<open>Single fields\<close>

lemma bad_Inr [simp]: "bad label m \<noteq> Inr x" "Inr x \<noteq> bad label m"
  by (simp_all add: bad_def)

lemma demand_Inr [simp]: "demand ok m = Inr u \<longleftrightarrow> ok"
  by (simp add: demand_def)

lemma string_field_Inr [simp]: "string_field v label b = Inr s \<longleftrightarrow> v = JStr s \<and> (b \<longrightarrow> s \<noteq> [])"
  by (cases v) (auto simp: string_field_def)

lemma regex_field_Inr [simp]: "regex_field v P label = Inr s \<longleftrightarrow> v = JStr s \<and> P s"
  by (auto simp: regex_field_def bindE_eq_Inr split: if_split_asm)

lemma utc_field_Inr [simp]: "utc_field v label = Inr s \<longleftrightarrow> v = JStr s \<and> utc_syntax s \<and> real_instant s"
  by (auto simp: utc_field_def bindE_eq_Inr split: if_split_asm)

lemma positive_int64_Inr [simp]:
  "positive_int64 v label = Inr i \<longleftrightarrow> v = JInt i \<and> 1 \<le> i \<and> i \<le> StrictJson.MAX_SIGNED_64"
  by (cases v) (auto simp: positive_int64_def)

lemma exact_int_Inr [simp]: "exact_int v n label = Inr i \<longleftrightarrow> v = JInt n \<and> i = n"
  by (auto simp: exact_int_def)

lemma ascii_basename_Inr [simp]:
  "ascii_basename v label = Inr s \<longleftrightarrow> v = JStr s \<and> s \<noteq> [] \<and> encode_ascii s \<noteq> None
    \<and> \<not> (s \<in> {lit ''.'', lit ''..''} \<or> 0x2F \<in> set s \<or> backslash \<in> set s \<or> drive_prefix s)"
  by (cases v) (auto simp: ascii_basename_def string_field_def bad_def)

lemma exact_object_Inr [simp]:
  "exact_object v keys label = Inr kvs \<longleftrightarrow> v = JObj kvs \<and> sort (map fst kvs) = sort keys"
  by (cases v) (auto simp: exact_object_def split: if_split_asm)

lemma canonical_keys:
  assumes "canon (JObj kvs) = JObj kvs" "sort (map fst kvs) = sort keys" "sorted keys"
  shows "map fst kvs = keys"
  using canon_object_sorted [OF assms(1)] assms(2,3) by (simp add: sorted_sort_id)

lemma chars_in_asc: "chars_in alphabet n t \<Longrightarrow> list_all asc (lit alphabet) \<Longrightarrow> list_all asc t \<and> length t = n"
  unfolding chars_in_def list_all_iff by blast

lemma hex_asc_all:
  "hex40_lower t \<Longrightarrow> list_all asc t \<and> length t = 40" "hex64_lower t \<Longrightarrow> list_all asc t \<and> length t = 64"
  "hex64_upper t \<Longrightarrow> list_all asc t \<and> length t = 64" "anchor_syntax t \<Longrightarrow> list_all asc t \<and> length t = 12"
  unfolding hex40_lower_def hex64_lower_def hex64_upper_def anchor_syntax_def
  by (auto dest!: chars_in_asc simp: lit_def asc_def)

lemma encode_ascii_asc [simp]: "list_all asc t \<Longrightarrow> encode_ascii t = Some (map ucast t)"
  unfolding encode_ascii_def asc_def by simp

lemma hex_digest_syntax: "hex64_lower (hex_digest m)"
proof -
  have "hex_lower n \<in> set (lit ''0123456789abcdef'')" if "n < 16" for n
    using hex_lower_cases [OF that] by (auto simp: lit_def)
  moreover have "unat (b :: byte) div 16 < 16" for b by (rule byte_nibbles)
  ultimately show ?thesis
    by (auto simp: hex64_lower_def chars_in_def hex_digest_def length_concat comp_def sum_list_triv list_all_iff)
qed

lemma sha256_hex_syntax: "hex64_upper (lit (sha256_hex m))"
  using sha256_hex64 [of m] by (simp add: hex64_upper_def chars_in_def hex64_def)

end
