(* ===== verification/ReservationParse.thy ===== *)
theory ReservationParse
  imports ReservationFields
begin

text \<open>The validators accept exactly the receipts and reservations that a claim determines.\<close>

section \<open>The receipt\<close>

lemma field_Cons: "field ((lit k, v) # kvs) key = (if k = key then v else field kvs key)"
  by (auto simp: field_def)

lemma candidate_bytes: "hex40_lower t \<Longrightarrow> encode_ascii t = Some (map ucast t)"
  by (simp add: hex_asc_all(1))

lemma receipt_shape:
  assumes "map fst kvs = CLAIM_RECEIPT_KEYS"
  obtains a b c d e f g h i j k l m where "kvs =
     [(lit ''candidate_commit'', a), (lit ''candidate_tree_oid'', b), (lit ''claimed_at_utc'', c),
      (lit ''input_manifest_sha256'', d), (lit ''license_commit'', e), (lit ''license_id'', f),
      (lit ''registry_blob_oid'', g), (lit ''registry_sha256'', h), (lit ''remote_branch_ref'', i),
      (lit ''remote_claim_oid'', j), (lit ''remote_claim_ref'', k), (lit ''remote_url'', l), (lit ''schema_version'', m)]"
  using assms unfolding CLAIM_RECEIPT_KEYS_def list.map by (auto simp: map_eq_Cons_conv)

lemma receipt_fields [simp]:
  "field (receipt_members c) ''candidate_commit'' = JStr (cl_candidate c)"
  "field (receipt_members c) ''candidate_tree_oid'' = JStr (cl_tree c)"
  "field (receipt_members c) ''claimed_at_utc'' = JStr (cl_claimed_at c)"
  "field (receipt_members c) ''input_manifest_sha256'' = JStr (cl_input_manifest c)"
  "field (receipt_members c) ''license_commit'' = JStr (cl_license c)"
  "field (receipt_members c) ''license_id'' = JStr (claim_license_id c)"
  "field (receipt_members c) ''registry_blob_oid'' = JStr (cl_registry_blob c)"
  "field (receipt_members c) ''registry_sha256'' = JStr (cl_registry_sha256 c)"
  "field (receipt_members c) ''remote_branch_ref'' = JStr REMOTE_BRANCH_REF"
  "field (receipt_members c) ''remote_claim_oid'' = JStr (cl_license c)"
  "field (receipt_members c) ''remote_claim_ref'' = JStr (claim_ref c)"
  "field (receipt_members c) ''remote_url'' = JStr REMOTE_URL"
  "field (receipt_members c) ''schema_version'' = JStr SCHEMA_UPRIME_U1_CLAIM_RECEIPT_PUBLIC"
  by (simp_all add: receipt_members_def field_Cons)

lemma validate_receipt_ok: "receipt_ok c \<Longrightarrow> validate_claim_receipt (JObj (receipt_members c)) = Inr (receipt_members c)"
  unfolding validate_claim_receipt_def receipt_ok_def
  by (simp add: bindE_eq_Inr member_keys candidate_bytes claim_license_id_def [symmetric] claim_ref_def
      hex_digest_syntax [of "LICENSE_DOMAIN @ map ucast (cl_candidate c)", folded claim_license_id_def])

lemma validate_receipt_members:
  assumes keys: "map fst kvs = CLAIM_RECEIPT_KEYS" and ok: "validate_claim_receipt (JObj kvs) = Inr r"
  shows "r = kvs \<and> (\<exists>c. receipt_ok c \<and> kvs = receipt_members c)"
proof -
  obtain candidate license_commit license_id blob rsha tree manifest claimed where
    f: "field kvs ''candidate_commit'' = JStr candidate" "field kvs ''license_commit'' = JStr license_commit"
      "field kvs ''license_id'' = JStr license_id" "field kvs ''registry_blob_oid'' = JStr blob"
      "field kvs ''registry_sha256'' = JStr rsha" "field kvs ''candidate_tree_oid'' = JStr tree"
      "field kvs ''input_manifest_sha256'' = JStr manifest" "field kvs ''claimed_at_utc'' = JStr claimed"
      "field kvs ''schema_version'' = JStr SCHEMA_UPRIME_U1_CLAIM_RECEIPT_PUBLIC" "field kvs ''remote_url'' = JStr REMOTE_URL"
      "field kvs ''remote_branch_ref'' = JStr REMOTE_BRANCH_REF" "field kvs ''remote_claim_oid'' = JStr license_commit"
      "field kvs ''remote_claim_ref'' = JStr (lit ''refs/tags/uprime-u1-attempts/'' @ license_id)" and
    s: "hex40_lower candidate" "hex40_lower license_commit" "hex40_lower blob" "hex64_upper rsha" "hex40_lower tree"
      "hex64_upper manifest" "utc_syntax claimed" "real_instant claimed"
      "license_id = hex_digest (LICENSE_DOMAIN @ map ucast candidate)" and r: "r = kvs"
    using ok unfolding validate_claim_receipt_def
    by (auto simp: bindE_eq_Inr candidate_bytes split: option.split_asm)
  let ?c = "\<lparr>cl_candidate = candidate, cl_tree = tree, cl_license = license_commit, cl_registry_blob = blob,
      cl_registry_sha256 = rsha, cl_input_manifest = manifest, cl_claimed_at = claimed, cl_token_sha256 = [],
      cl_reserved_at = [], cl_process_id = 0\<rparr>"
  have "receipt_ok ?c" using s by (simp add: receipt_ok_def)
  moreover have "kvs = receipt_members ?c"
    using f s(9) by (rule_tac receipt_shape [OF keys])
      (simp add: field_Cons receipt_members_def claim_ref_def claim_license_id_def)
  ultimately show ?thesis using r by blast
qed

section \<open>The reservation\<close>

lemma reservation_shape:
  assumes "map fst kvs = RESERVATION_KEYS"
  obtains a1 a2 a3 a4 a5 a6 a7 a8 a9 a10 a11 a12 a13 a14 a15 a16 a17 a18 a19 a20 a21 a22 where "kvs =
     [(lit ''anchor'', a1), (lit ''candidate_commit'', a2), (lit ''claim_receipt'', a3),
      (lit ''claim_receipt_sha256'', a4), (lit ''expected_frame_count'', a5),
      (lit ''expected_frame_manifest_sha256'', a6), (lit ''ledger_artifact_name'', a7),
      (lit ''ledger_schema_version'', a8), (lit ''license_commit'', a9), (lit ''license_id'', a10),
      (lit ''process_id'', a11), (lit ''record_schema_version'', a12), (lit ''registered_run_dir'', a13),
      (lit ''remote_claim_ref'', a14), (lit ''report_artifact_name'', a15),
      (lit ''report_schema_version'', a16), (lit ''reservation_artifact_name'', a17),
      (lit ''reservation_token_sha256'', a18), (lit ''reserved_at_utc'', a19),
      (lit ''rpc_protocol_version'', a20), (lit ''schema_version'', a21), (lit ''status'', a22)]"
  using assms unfolding RESERVATION_KEYS_def list.map by (auto simp: map_eq_Cons_conv)

lemma reservation_fields [simp]:
  "field (reservation_members c) ''anchor'' = JStr (claim_anchor c)"
  "field (reservation_members c) ''candidate_commit'' = JStr (cl_candidate c)"
  "field (reservation_members c) ''claim_receipt'' = JObj (receipt_members c)"
  "field (reservation_members c) ''claim_receipt_sha256'' = JStr (lit (sha256_hex (receipt_bytes c)))"
  "field (reservation_members c) ''expected_frame_count'' = JInt EXPECTED_FRAME_COUNT"
  "field (reservation_members c) ''expected_frame_manifest_sha256'' = JStr EXPECTED_FRAME_MANIFEST_SHA256"
  "field (reservation_members c) ''ledger_artifact_name'' = JStr (ledger_name_of (claim_anchor c))"
  "field (reservation_members c) ''ledger_schema_version'' = JStr LEDGER_SCHEMA_VERSION"
  "field (reservation_members c) ''license_commit'' = JStr (cl_license c)"
  "field (reservation_members c) ''license_id'' = JStr (claim_license_id c)"
  "field (reservation_members c) ''process_id'' = JInt (cl_process_id c)"
  "field (reservation_members c) ''record_schema_version'' = JStr RECORD_SCHEMA_VERSION"
  "field (reservation_members c) ''registered_run_dir'' = JStr REGISTERED_RUN_DIR"
  "field (reservation_members c) ''remote_claim_ref'' = JStr (claim_ref c)"
  "field (reservation_members c) ''report_artifact_name'' = JStr (report_name_of (claim_anchor c))"
  "field (reservation_members c) ''report_schema_version'' = JStr REPORT_SCHEMA_VERSION"
  "field (reservation_members c) ''reservation_artifact_name'' = JStr (report_name_of (claim_anchor c) @ lit ''.reservation'')"
  "field (reservation_members c) ''reservation_token_sha256'' = JStr (cl_token_sha256 c)"
  "field (reservation_members c) ''reserved_at_utc'' = JStr (cl_reserved_at c)"
  "field (reservation_members c) ''rpc_protocol_version'' = JStr RPC_PROTOCOL_VERSION"
  "field (reservation_members c) ''schema_version'' = JStr SCHEMA_UPRIME_RPC_BUNDLE_RESERVATION"
  "field (reservation_members c) ''status'' = JStr (lit ''LIVE_EVIDENCE_BUNDLE_RESERVED'')"
  by (simp_all add: reservation_members_def field_Cons)

lemma ascii_bytes_valid: "list_all asc t \<Longrightarrow> length t \<le> 4096 \<Longrightarrow> validate_string t = Inr ()"
  by (rule asc_valid) (simp_all add: MAX_STRING_UTF8_BYTES_def)

text \<open>JSON members with short ASCII strings and small integers, and objects of such members.\<close>

definition plain :: "json \<Rightarrow> bool" where
  "plain v \<longleftrightarrow> (case v of JStr s \<Rightarrow> list_all asc s \<and> length s \<le> 4096 | JInt i \<Rightarrow> 0 \<le> i \<and> int64 i | _ \<Rightarrow> False)"

lemma plain_valid: "plain v \<Longrightarrow> validate_json_value d v = Inr () \<and> list_all asc (dumps v) \<and> canon v = v \<and> keys_ok v"
proof (cases v)
  case (JInt i)
  assume "plain v"
  with JInt have i: "0 \<le> i" "int64 i" by (simp_all add: plain_def)
  with number_asc [of "nat i"] show ?thesis by (simp add: JInt)
next
  case (JStr s)
  assume "plain v"
  with JStr show ?thesis using string_asc [of s] by (simp add: plain_def ascii_bytes_valid)
qed (simp_all add: plain_def)

definition plain_key :: "pystr \<Rightarrow> bool" where
  "plain_key k \<longleftrightarrow> list_all asc k \<and> length k \<le> 4096"

definition plain_member :: "json \<Rightarrow> bool" where
  "plain_member v \<longleftrightarrow> plain v \<or> (\<exists>ms. v = JObj ms \<and> length ms \<le> 100
     \<and> sorted (map fst ms) \<and> distinct (map fst ms) \<and> list_all (\<lambda>(k, v). plain_key k \<and> plain v) ms)"

definition plain_object :: "(pystr \<times> json) list \<Rightarrow> bool" where
  "plain_object kvs \<longleftrightarrow> length kvs \<le> 100 \<and> sorted (map fst kvs) \<and> distinct (map fst kvs)
     \<and> list_all (\<lambda>(k, v). plain_key k \<and> plain_member v) kvs"

lemma plain_memberI: "plain v \<Longrightarrow> plain_member v"
  by (simp add: plain_member_def)

lemma object_valid:
  assumes "length kvs \<le> 100" "sorted (map fst kvs)" "distinct (map fst kvs)" "d < 100"
    and "\<And>k v. (k, v) \<in> set kvs \<Longrightarrow> plain_key k \<and> validate_json_value (d + 1) v = Inr () \<and> list_all asc (dumps v)
      \<and> canon v = v \<and> keys_ok v"
  shows "validate_json_value d (JObj kvs) = Inr () \<and> list_all asc (dumps (JObj kvs)) \<and> canon (JObj kvs) = JObj kvs
    \<and> keys_ok (JObj kvs)"
proof -
  have "validate_json_value d (JObj kvs) = Inr ()"
    unfolding valid_object_iff using assms(1,4,5)
    by (auto simp: MAX_JSON_DEPTH_def MAX_CONTAINER_MEMBERS_def plain_key_def ascii_bytes_valid)
  moreover have "list_all asc (dumps (JObj kvs))"
    unfolding object_asc using assms(5) by (auto simp: plain_key_def)
  moreover have "map (\<lambda>(k, v). (k, canon v)) kvs = kvs"
    by (rule map_idI) (use assms(5) in auto)
  then have "canon (JObj kvs) = JObj kvs" using assms(2) by (simp add: sort_key_id_if_sorted)
  moreover have "keys_ok (JObj kvs)" using assms(3,5) by auto
  ultimately show ?thesis by blast
qed

lemma plain_object_valid:
  assumes "plain_object kvs"
  shows "canonical_json_bytes (JObj kvs) = Inr (utf8_raw (dumps (JObj kvs)))"
    "parse_canonical_json_bytes (utf8_raw (dumps (JObj kvs))) = Inr (JObj kvs)"
proof -
  have inner: "validate_json_value 1 (JObj ms) = Inr () \<and> list_all asc (dumps (JObj ms)) \<and> canon (JObj ms) = JObj ms
      \<and> keys_ok (JObj ms)"
    if "length ms \<le> 100" "sorted (map fst ms)" "distinct (map fst ms)" "list_all (\<lambda>(k, v). plain_key k \<and> plain v) ms" for ms
    using that plain_valid by (intro object_valid) (auto simp: list_all_iff)
  have v: "validate_json_value 0 (JObj kvs) = Inr () \<and> list_all asc (dumps (JObj kvs)) \<and> canon (JObj kvs) = JObj kvs
      \<and> keys_ok (JObj kvs)"
  proof (rule object_valid)
    fix k v
    assume "(k, v) \<in> set kvs"
    with assms have "plain_key k" "plain v \<or> (\<exists>ms. v = JObj ms \<and> length ms \<le> 100 \<and> sorted (map fst ms)
        \<and> distinct (map fst ms) \<and> list_all (\<lambda>(k, v). plain_key k \<and> plain v) ms)"
      by (auto simp: plain_object_def plain_member_def list_all_iff)
    then show "plain_key k \<and> validate_json_value (0 + 1) v = Inr () \<and> list_all asc (dumps v) \<and> canon v = v \<and> keys_ok v"
      using plain_valid inner by auto
  qed (use assms in \<open>simp_all add: plain_object_def\<close>)
  then have asc: "list_all asc (dumps (JObj kvs))" by blast
  show can: "canonical_json_bytes (JObj kvs) = Inr (utf8_raw (dumps (JObj kvs)))"
    unfolding canonical_bytes_eq using v asc_utf8 [OF asc] by blast
  have "text_ok (dumps (JObj kvs))"
  proof -
    have "asc c \<Longrightarrow> c \<le> 0x10FFFF" for c by (simp add: asc_def word_le_nat_alt word_less_nat_alt)
    with asc have "list_all (\<lambda>c. c \<le> 0x10FFFF) (dumps (JObj kvs))" by (simp only: list_all_iff) blast
    with asc_utf8 [OF asc] show ?thesis unfolding text_ok_def by blast
  qed
  with parse_canonical [OF can] v show "parse_canonical_json_bytes (utf8_raw (dumps (JObj kvs))) = Inr (JObj kvs)" by metis
qed

section \<open>What a claim determines is plain\<close>

lemma utc_asc: "utc_syntax t \<Longrightarrow> list_all asc t \<and> length t = 27"
proof -
  have digit: "is_digit_cp c \<Longrightarrow> asc c" for c by (auto simp: is_digit_cp_def asc_def word_le_nat_alt word_less_nat_alt)
  assume "utc_syntax t"
  then show ?thesis unfolding utc_syntax_def by (auto simp: list_all2_Cons1 digit) (simp_all add: asc_def)
qed

lemma claim_asc:
  assumes "receipt_ok c"
  shows "list_all asc (claim_license_id c)" "length (claim_license_id c) = 64"
    "list_all asc (claim_ref c)" "length (claim_ref c) = 93" "list_all asc (claim_anchor c)" "length (claim_anchor c) = 12"
    "anchor_syntax (claim_anchor c)"
proof -
  show id: "list_all asc (claim_license_id c)" "length (claim_license_id c) = 64"
    unfolding claim_license_id_def using hex_asc_all(2) [OF hex_digest_syntax] by blast+
  then show "list_all asc (claim_ref c)" "length (claim_ref c) = 93" by (simp_all add: claim_ref_def) (simp add: lit_def asc_def)
  have lc: "hex40_lower (cl_license c)" using assms by (simp add: receipt_ok_def)
  then have "list_all asc (cl_license c)" "length (cl_license c) = 40" using hex_asc_all(1) by blast+
  then show "list_all asc (claim_anchor c)" "length (claim_anchor c) = 12"
    by (auto simp: claim_anchor_def list_all_iff dest: in_set_takeD)
  with lc show "anchor_syntax (claim_anchor c)"
    by (auto simp: claim_anchor_def anchor_syntax_def hex40_lower_def chars_in_def list_all_iff dest: in_set_takeD)
qed

lemma plain_JStr: "list_all asc s \<Longrightarrow> length s \<le> 4096 \<Longrightarrow> plain (JStr s)"
  by (simp add: plain_def)

lemma constants_asc:
  "list_all asc REMOTE_BRANCH_REF" "list_all asc REMOTE_URL" "list_all asc SCHEMA_UPRIME_U1_CLAIM_RECEIPT_PUBLIC"
  "list_all asc EXPECTED_FRAME_MANIFEST_SHA256" "list_all asc LEDGER_SCHEMA_VERSION" "list_all asc RECORD_SCHEMA_VERSION"
  "list_all asc REGISTERED_RUN_DIR" "list_all asc REPORT_SCHEMA_VERSION" "list_all asc RPC_PROTOCOL_VERSION"
  "list_all asc SCHEMA_UPRIME_RPC_BUNDLE_RESERVATION" "list_all asc (lit ''LIVE_EVIDENCE_BUNDLE_RESERVED'')"
  "length REMOTE_BRANCH_REF \<le> 4096" "length REMOTE_URL \<le> 4096" "length SCHEMA_UPRIME_U1_CLAIM_RECEIPT_PUBLIC \<le> 4096"
  "length EXPECTED_FRAME_MANIFEST_SHA256 \<le> 4096" "length LEDGER_SCHEMA_VERSION \<le> 4096" "length RECORD_SCHEMA_VERSION \<le> 4096"
  "length REGISTERED_RUN_DIR \<le> 4096" "length REPORT_SCHEMA_VERSION \<le> 4096" "length RPC_PROTOCOL_VERSION \<le> 4096"
  "length SCHEMA_UPRIME_RPC_BUNDLE_RESERVATION \<le> 4096"
  unfolding REMOTE_BRANCH_REF_def REMOTE_URL_def SCHEMA_UPRIME_U1_CLAIM_RECEIPT_PUBLIC_def EXPECTED_FRAME_MANIFEST_SHA256_def LEDGER_SCHEMA_VERSION_def
    RECORD_SCHEMA_VERSION_def REGISTERED_RUN_DIR_def REPORT_SCHEMA_VERSION_def RPC_PROTOCOL_VERSION_def SCHEMA_UPRIME_RPC_BUNDLE_RESERVATION_def
  by (simp_all add: lit_def asc_def)

lemma names_asc:
  assumes "list_all asc a" "length a = 12"
  shows "list_all asc (report_name_of a)" "length (report_name_of a) = 32" "list_all asc (ledger_name_of a)"
    "length (ledger_name_of a) = 43"
  using assms by (simp_all add: report_name_of_def ledger_name_of_def) (simp_all add: lit_def asc_def)

lemma keys_plain: "list_all plain_key CLAIM_RECEIPT_KEYS" "list_all plain_key RESERVATION_KEYS"
  unfolding CLAIM_RECEIPT_KEYS_def RESERVATION_KEYS_def by (simp_all add: plain_key_def lit_def asc_def)

lemma receipt_plain:
  assumes "receipt_ok c"
  shows "list_all plain (map snd (receipt_members c))"
  using assms claim_asc [OF assms] constants_asc hex_asc_all utc_asc
  unfolding receipt_members_def receipt_ok_def by (auto intro!: plain_JStr)

lemma plain_members:
  "list_all plain_key (map fst kvs) \<Longrightarrow> list_all plain (map snd kvs) \<Longrightarrow> list_all (\<lambda>(k, v). plain_key k \<and> plain v) kvs"
  by (induction kvs) auto

lemma receipt_plain_object: "receipt_ok c \<Longrightarrow> plain_object (receipt_members c)"
proof -
  assume c: "receipt_ok c"
  have "list_all (\<lambda>(k, v). plain_key k \<and> plain v) (receipt_members c)"
    by (rule plain_members) (simp_all only: member_keys keys_plain receipt_plain [OF c])
  then show ?thesis unfolding plain_object_def
    by (auto simp: member_keys keys_sorted list_all_iff plain_memberI) (simp add: receipt_members_def)
qed

lemma reservation_plain_object:
  assumes "claim_ok c"
  shows "plain_object (reservation_members c)"
proof -
  have rc: "receipt_ok c" using assms by (simp add: claim_ok_def)
  note names = names_asc [OF claim_asc(5) [OF rc] claim_asc(6) [OF rc]]
  have "list_all (\<lambda>(k, v). plain_key k \<and> plain v) (receipt_members c)"
    by (rule plain_members) (simp_all only: member_keys keys_plain receipt_plain [OF rc])
  then have nested: "plain_member (JObj (receipt_members c))"
    unfolding plain_member_def
    by (intro disjI2 exI [of _ "receipt_members c"]) (simp add: member_keys keys_sorted, simp add: receipt_members_def)
  have digest: "plain (JStr (lit (sha256_hex m)))" for m
    using hex_asc_all(3) [OF sha256_hex_syntax [of m]] by (simp add: plain_JStr)
  have ints: "plain (JInt EXPECTED_FRAME_COUNT)" "plain (JInt (cl_process_id c))"
    using assms by (simp_all add: plain_def EXPECTED_FRAME_COUNT_def int64_def claim_ok_def
        StrictJson.MAX_SIGNED_64_def MIN_SIGNED_64_def)
  have suffix: "plain (JStr (report_name_of (claim_anchor c) @ lit ''.reservation''))"
    using names by (intro plain_JStr) (simp_all, simp add: lit_def asc_def)
  have derived: "plain (JStr (claim_anchor c))" "plain (JStr (claim_license_id c))" "plain (JStr (claim_ref c))"
    "plain (JStr (report_name_of (claim_anchor c)))" "plain (JStr (ledger_name_of (claim_anchor c)))"
    using names claim_asc [OF rc] by (simp_all add: plain_JStr)
  have fixed: "plain (JStr EXPECTED_FRAME_MANIFEST_SHA256)" "plain (JStr LEDGER_SCHEMA_VERSION)" "plain (JStr RECORD_SCHEMA_VERSION)"
    "plain (JStr REGISTERED_RUN_DIR)" "plain (JStr REPORT_SCHEMA_VERSION)" "plain (JStr RPC_PROTOCOL_VERSION)"
    "plain (JStr SCHEMA_UPRIME_RPC_BUNDLE_RESERVATION)" "plain (JStr (lit ''LIVE_EVIDENCE_BUNDLE_RESERVED''))"
    by (simp_all add: plain_JStr constants_asc)
  have strings: "plain (JStr (cl_candidate c))" "plain (JStr (cl_license c))" "plain (JStr (cl_token_sha256 c))"
    "plain (JStr (cl_reserved_at c))"
    using assms hex_asc_all utc_asc by (auto simp: claim_ok_def receipt_ok_def intro!: plain_JStr)
  note simple = strings ints derived fixed digest suffix
  have "list_all plain_member (map snd (reservation_members c))"
    unfolding reservation_members_def by (simp add: nested simple [THEN plain_memberI])
  then have "list_all (\<lambda>(k, v). plain_key k \<and> plain_member v) (reservation_members c)"
    using keys_plain(2) unfolding member_keys(2) [of c, symmetric] list_all_iff by fastforce
  then show ?thesis unfolding plain_object_def
    by (simp add: member_keys keys_sorted) (simp add: reservation_members_def)
qed

section \<open>The reservation validator\<close>

lemma name_basename:
  assumes "anchor_syntax a"
  shows "ascii_basename (JStr (report_name_of a)) label = Inr (report_name_of a)"
    "ascii_basename (JStr (ledger_name_of a)) label = Inr (ledger_name_of a)"
    "ascii_basename (JStr (report_name_of a @ lit ''.reservation'')) label = Inr (report_name_of a @ lit ''.reservation'')"
proof -
  have asc: "list_all asc a" "length a = 12" using hex_asc_all(4) [OF assms] by blast+
  have hex: "set a \<subseteq> set (lit ''0123456789abcdef'')"
    using assms by (auto simp: anchor_syntax_def chars_in_def list_all_iff)
  have chars: "(0x2F :: codepoint) \<notin> set a" "backslash \<notin> set a"
    using hex by (auto simp: lit_def subset_iff)
  have ends: "(0x2F :: codepoint) \<notin> set (lit t)" "backslash \<notin> set (lit t)" "list_all asc (lit t)"
    if "t \<in> {''rpc_diagnostic_'', ''.json'', ''.responses.jsonl'', ''.reservation''}" for t
    using that by (auto simp: lit_def asc_def)
  have start: "lit ''rpc_diagnostic_'' @ r \<notin> {lit ''.'', lit ''..''}" "\<not> drive_prefix (lit ''rpc_diagnostic_'' @ r)"
    for r by (simp_all add: lit_def drive_prefix_def)
  show "ascii_basename (JStr (report_name_of a)) label = Inr (report_name_of a)"
    "ascii_basename (JStr (ledger_name_of a)) label = Inr (ledger_name_of a)"
    "ascii_basename (JStr (report_name_of a @ lit ''.reservation'')) label = Inr (report_name_of a @ lit ''.reservation'')"
    unfolding ascii_basename_Inr report_name_of_def ledger_name_of_def append_assoc
    using start chars ends asc by (simp_all add: encode_ascii_asc)
qed

lemma validate_reservation_ok:
  assumes "claim_ok c"
  shows "validate_reservation_object (JObj (reservation_members c)) = Inr (reservation_members c, receipt_members c)"
proof -
  have rc: "receipt_ok c" and rest: "hex64_upper (cl_token_sha256 c)" "utc_syntax (cl_reserved_at c)"
    "real_instant (cl_reserved_at c)" "1 \<le> cl_process_id c" "cl_process_id c \<le> StrictJson.MAX_SIGNED_64"
    using assms by (simp_all add: claim_ok_def)
  have hex: "hex40_lower (cl_candidate c)" "hex40_lower (cl_license c)" using rc by (simp_all add: receipt_ok_def)
  have id: "hex64_lower (claim_license_id c)" unfolding claim_license_id_def by (rule hex_digest_syntax)
  have can: "canonical_json_bytes (JObj (receipt_members c)) = Inr (receipt_bytes c)"
    unfolding receipt_bytes_def by (rule plain_object_valid(1) [OF receipt_plain_object [OF rc]])
  have identity: "validate_reservation_identity (reservation_members c) = Inr (receipt_members c, claim_anchor c)"
    unfolding validate_reservation_identity_def reservation_fields validate_receipt_ok [OF rc] can
    by (simp add: bindE_eq_Inr hex id can sha256_hex_syntax claim_asc(7) [OF rc, unfolded claim_anchor_def] claim_anchor_def)
  show ?thesis
    unfolding validate_reservation_object_def
    by (simp add: bindE_eq_Inr member_keys identity name_basename [OF claim_asc(7) [OF rc]] rest
        del: ascii_basename_Inr)
qed

lemma canon_members:
  assumes "canon (JObj kvs) = JObj kvs" "(k, v) \<in> set kvs"
  shows "canon v = v"
proof -
  have "map (\<lambda>(k, v). (k, canon v)) kvs = kvs"
    using assms(1) canon_object_sorted [OF assms(1)] by (simp add: sort_key_id_if_sorted)
  then have "\<forall>x \<in> set kvs. (\<lambda>(k, v). (k, canon v)) x = id x"
    by (simp only: map_eq_conv [symmetric] list.map_id)
  with assms(2) show ?thesis by (auto simp only: id_apply)
qed

lemma reservation_identity_members:
  assumes "validate_reservation_identity kvs = Inr (rec, anchor)" and keys: "\<And>ms. field kvs ''claim_receipt'' = JObj ms
      \<Longrightarrow> sort (map fst ms) = sort CLAIM_RECEIPT_KEYS \<Longrightarrow> map fst ms = CLAIM_RECEIPT_KEYS"
  obtains c where "receipt_ok c" "rec = receipt_members c" "anchor = claim_anchor c"
    "field kvs ''claim_receipt'' = JObj (receipt_members c)" "field kvs ''candidate_commit'' = JStr (cl_candidate c)"
    "field kvs ''license_commit'' = JStr (cl_license c)" "field kvs ''license_id'' = JStr (claim_license_id c)"
    "field kvs ''remote_claim_ref'' = JStr (claim_ref c)" "field kvs ''anchor'' = JStr (claim_anchor c)"
    "field kvs ''claim_receipt_sha256'' = JStr (lit (sha256_hex (receipt_bytes c)))"
proof -
  from assms(1) have val: "validate_claim_receipt (field kvs ''claim_receipt'') = Inr rec"
    unfolding validate_reservation_identity_def by (auto simp: bindE_eq_Inr)
  then obtain ms where ms: "field kvs ''claim_receipt'' = JObj ms" "sort (map fst ms) = sort CLAIM_RECEIPT_KEYS"
    unfolding validate_claim_receipt_def by (auto simp: bindE_eq_Inr)
  from validate_receipt_members [OF keys [OF ms]] val ms(1) obtain c where
    c: "receipt_ok c" "rec = receipt_members c" "ms = receipt_members c" by auto
  have can: "canonical_json_bytes (JObj (receipt_members c)) = Inr (receipt_bytes c)"
    unfolding receipt_bytes_def by (rule plain_object_valid(1) [OF receipt_plain_object [OF c(1)]])
  from assms(1) show thesis
    unfolding validate_reservation_identity_def val bindE_Inr c(2) receipt_fields can liftE_simps
    by (intro that [OF c(1,2)]) (auto simp: bindE_eq_Inr ms(1) c(3) claim_anchor_def)
qed

lemma receipt_only [simp]:
  fixes c :: claim and tok ts :: pystr and pid :: int
  defines "c' \<equiv> c\<lparr>cl_token_sha256 := tok, cl_reserved_at := ts, cl_process_id := pid\<rparr>"
  shows "receipt_members c' = receipt_members c" "receipt_ok c' = receipt_ok c" "claim_anchor c' = claim_anchor c"
    "claim_license_id c' = claim_license_id c" "claim_ref c' = claim_ref c" "receipt_bytes c' = receipt_bytes c"
proof -
  show id: "claim_license_id c' = claim_license_id c" "claim_anchor c' = claim_anchor c" "receipt_ok c' = receipt_ok c"
    by (simp_all add: c'_def claim_license_id_def claim_anchor_def receipt_ok_def)
  then show ref: "claim_ref c' = claim_ref c" by (simp add: claim_ref_def)
  show rm: "receipt_members c' = receipt_members c"
    unfolding receipt_members_def ref id by (simp add: c'_def)
  then show "receipt_bytes c' = receipt_bytes c" by (simp add: receipt_bytes_def)
qed

lemma validate_reservation_members:
  assumes keys: "map fst kvs = RESERVATION_KEYS" and can: "canon (JObj kvs) = JObj kvs"
    and ok: "validate_reservation_object (JObj kvs) = Inr (r, rec)"
  shows "r = kvs \<and> (\<exists>c. claim_ok c \<and> kvs = reservation_members c \<and> rec = receipt_members c)"
proof -
  obtain anchor tok ts pid where
    id: "validate_reservation_identity kvs = Inr (rec, anchor)" and r: "r = kvs" and
    f: "field kvs ''schema_version'' = JStr SCHEMA_UPRIME_RPC_BUNDLE_RESERVATION" "field kvs ''status'' = JStr (lit ''LIVE_EVIDENCE_BUNDLE_RESERVED'')"
      "field kvs ''registered_run_dir'' = JStr REGISTERED_RUN_DIR" "field kvs ''report_artifact_name'' = JStr (report_name_of anchor)"
      "field kvs ''ledger_artifact_name'' = JStr (ledger_name_of anchor)"
      "field kvs ''reservation_artifact_name'' = JStr (report_name_of anchor @ lit ''.reservation'')"
      "field kvs ''report_schema_version'' = JStr REPORT_SCHEMA_VERSION" "field kvs ''ledger_schema_version'' = JStr LEDGER_SCHEMA_VERSION"
      "field kvs ''record_schema_version'' = JStr RECORD_SCHEMA_VERSION" "field kvs ''rpc_protocol_version'' = JStr RPC_PROTOCOL_VERSION"
      "field kvs ''expected_frame_count'' = JInt EXPECTED_FRAME_COUNT"
      "field kvs ''expected_frame_manifest_sha256'' = JStr EXPECTED_FRAME_MANIFEST_SHA256"
      "field kvs ''reservation_token_sha256'' = JStr tok" "field kvs ''reserved_at_utc'' = JStr ts"
      "field kvs ''process_id'' = JInt pid" and
    s: "hex64_upper tok" "utc_syntax ts" "real_instant ts" "1 \<le> pid" "pid \<le> StrictJson.MAX_SIGNED_64"
    using ok unfolding validate_reservation_object_def by (auto simp: bindE_eq_Inr)
  have inner: "map fst ms = CLAIM_RECEIPT_KEYS"
    if "field kvs ''claim_receipt'' = JObj ms" "sort (map fst ms) = sort CLAIM_RECEIPT_KEYS" for ms
  proof -
    have "(lit ''claim_receipt'', JObj ms) \<in> set kvs"
      using that(1) by (auto simp: field_def dest: map_of_SomeD split: option.split_asm)
    with canon_members [OF can] have "canon (JObj ms) = JObj ms" by blast
    with canonical_keys [OF this that(2) keys_sorted(1)] show ?thesis by blast
  qed
  obtain c where c: "receipt_ok c" "rec = receipt_members c" "anchor = claim_anchor c"
    "field kvs ''claim_receipt'' = JObj (receipt_members c)" "field kvs ''candidate_commit'' = JStr (cl_candidate c)"
    "field kvs ''license_commit'' = JStr (cl_license c)" "field kvs ''license_id'' = JStr (claim_license_id c)"
    "field kvs ''remote_claim_ref'' = JStr (claim_ref c)" "field kvs ''anchor'' = JStr (claim_anchor c)"
    "field kvs ''claim_receipt_sha256'' = JStr (lit (sha256_hex (receipt_bytes c)))"
    by (rule reservation_identity_members [OF id inner])
  let ?c = "c\<lparr>cl_token_sha256 := tok, cl_reserved_at := ts, cl_process_id := pid\<rparr>"
  have "claim_ok ?c" using c(1) s by (simp add: claim_ok_def)
  moreover have "rec = receipt_members ?c" by (simp add: c(2))
  moreover have "kvs = reservation_members ?c"
    using f c(3-) by (rule_tac reservation_shape [OF keys]) (simp add: field_Cons reservation_members_def)
  ultimately show ?thesis using r by blast
qed

section \<open>Files\<close>

lemma parse_reservation_iff:
  "parse_reservation_file raw = Inr (r, rec) \<longleftrightarrow>
    (\<exists>c. claim_ok c \<and> raw = reservation_bytes c \<and> r = reservation_members c \<and> rec = receipt_members c)"
proof
  assume ok: "parse_reservation_file raw = Inr (r, rec)"
  then have "raw \<noteq> []" "last raw = 10" unfolding parse_reservation_file_def by (auto split: if_split_asm)
  then have raw: "raw = butlast raw @ [10]" by (metis append_butlast_last_id)
  from ok obtain v where v: "parse_canonical_json_bytes (butlast raw) = Inr v"
    and val: "validate_reservation_object v = Inr (r, rec)"
    unfolding parse_reservation_file_def
    by (auto simp: Let_def split: if_split_asm sum.split_asm ledger_error.split_asm)
  from val obtain kvs where kvs: "v = JObj kvs" "sort (map fst kvs) = sort RESERVATION_KEYS"
    unfolding validate_reservation_object_def by (auto simp: bindE_eq_Inr)
  from v have can: "canonical_json_bytes v = Inr (butlast raw)" "canon (JObj kvs) = JObj kvs"
    by (auto simp: parse_canonical_iff kvs(1))
  from validate_reservation_members [OF canonical_keys [OF can(2) kvs(2) keys_sorted(3)] can(2)] val kvs(1)
  obtain c where c: "claim_ok c" "kvs = reservation_members c" "rec = receipt_members c" "r = kvs" by auto
  have "butlast raw = utf8_raw (dumps (JObj (reservation_members c)))"
    using can(1) by (simp only: kvs(1) c(2) canonical_bytes_eq)
  with raw c show "\<exists>c. claim_ok c \<and> raw = reservation_bytes c \<and> r = reservation_members c \<and> rec = receipt_members c"
    by (auto simp: reservation_bytes_def)
next
  assume "\<exists>c. claim_ok c \<and> raw = reservation_bytes c \<and> r = reservation_members c \<and> rec = receipt_members c"
  then obtain c where c: "claim_ok c" "raw = reservation_bytes c" "r = reservation_members c" "rec = receipt_members c" by blast
  let ?b = "utf8_raw (dumps (JObj (reservation_members c)))"
  note plain = plain_object_valid [OF reservation_plain_object [OF c(1)]]
  have clean: "10 \<notin> set ?b" "13 \<notin> set ?b" using canonical_no_control [OF plain(1)] by simp_all
  have "?b \<noteq> []" using plain(2) by (auto simp: parse_canonical_json_bytes_def loads_def loads_with_def skip_def)
  moreover from this clean(1) have "last ?b \<noteq> 10" by (metis last_in_set)
  ultimately show "parse_reservation_file raw = Inr (r, rec)"
    unfolding parse_reservation_file_def c(2-4) reservation_bytes_def
    using clean by (simp add: plain(2) validate_reservation_ok [OF c(1)] del: dumps.simps)
qed

end
