(* ===== verification/ReservationProps.thy ===== *)
theory ReservationProps
  imports ReservationParse
begin

text \<open>The properties of the reservation verifier.\<close>

section \<open>Observing\<close>

lemma answerE_Inr [simp]: "answerE a m = Inr x \<longleftrightarrow> a = Answer x"
  by (cases a) (auto simp: answerE_def)

lemma read_chunks_bound: "read_chunks rd n i acc = Inr bs \<Longrightarrow> length bs \<le> n"
proof (induction rd n i acc rule: read_chunks.induct)
  case (1 rd n i acc)
  show ?case
  proof (cases "n < length acc")
    case True
    with 1(2) show ?thesis by (simp add: read_chunks.simps)
  next
    case False
    with 1(2) obtain chunk where chunk:
      "answerE (rd i (min READ_CHUNK_BYTES (n - length acc + 1))) ''reservation read failed'' = Inr chunk"
      "(if chunk = [] then Inr acc else read_chunks rd n (i + 1) (acc @ chunk)) = Inr bs"
      by (subst (asm) read_chunks.simps) (auto simp: bindE_eq_Inr)
    with 1(1) [OF False chunk(1)] False show ?thesis by (cases "chunk = []") auto
  qed
qed

lemma snapshot_exact:
  assumes "load_reservation_snapshot env p = Inr snap"
  shows "rs_raw_path snap = p" "rs_input_sha256 snap = lit (sha256_hex (rs_file_bytes snap))"
    "rs_input_bytes snap = length (rs_file_bytes snap)" "length (rs_file_bytes snap) \<le> MAX_RESERVATION_BYTES"
proof -
  from assms obtain s b d where o: "observe_fd env = Inr (s, b, d)" and snap:
    "snap = \<lparr>rs_raw_path = p, rs_file_bytes = b, rs_input_sha256 = d, rs_input_bytes = length b\<rparr>"
    unfolding load_reservation_snapshot_def
    by (auto simp: bindE_eq_Inr Let_def split: sum.split_asm reservation_error.split_asm if_split_asm)
  from o have "d = lit (sha256_hex b) \<and> length b \<le> MAX_RESERVATION_BYTES"
    unfolding observe_fd_def read_bounded_fd_def
    by (auto simp: bindE_eq_Inr Let_def split: if_split_asm dest!: read_chunks_bound)
  then show "rs_raw_path snap = p" "rs_input_sha256 snap = lit (sha256_hex (rs_file_bytes snap))"
    "rs_input_bytes snap = length (rs_file_bytes snap)" "length (rs_file_bytes snap) \<le> MAX_RESERVATION_BYTES"
    by (simp_all add: snap)
qed

section \<open>Attesting\<close>

lemma inspect_iff:
  "inspect_reservation env path = Inr a \<longleftrightarrow>
    (\<exists>p snap c. path = Answer (Some p) \<and> p \<noteq> [] \<and> load_reservation_snapshot env p = Inr snap \<and> claim_ok c
      \<and> rs_file_bytes snap = reservation_bytes c \<and> validate_reservation_path p (reservation_members c) = Inr ()
      \<and> a = reservation_attestation_of snap (reservation_members c) (receipt_members c) ''not_performed'')"
proof -
  have path: "lexical_path path = Inr p \<longleftrightarrow> path = Answer (Some p) \<and> p \<noteq> []" for p
    by (auto simp: lexical_path_def bindE_eq_Inr split: option.split_asm if_split_asm)
  have "inspect_reservation env path = Inr a \<longleftrightarrow> attest_reservation env path None = Inr a"
    by (auto simp: inspect_reservation_def split: sum.split reservation_error.split)
  also have "\<dots> \<longleftrightarrow> (\<exists>p snap r rec. path = Answer (Some p) \<and> p \<noteq> [] \<and> load_reservation_snapshot env p = Inr snap
      \<and> parse_reservation_file (rs_file_bytes snap) = Inr (r, rec) \<and> validate_reservation_path p r = Inr ()
      \<and> a = reservation_attestation_of snap r rec ''not_performed'')"
    unfolding attest_reservation_def by (auto simp: bindE_eq_Inr path dest: snapshot_exact(1))
  finally show ?thesis unfolding parse_reservation_iff by blast
qed

lemma guarded_Inr: "(if b then Inl e else m) = Inr x \<longleftrightarrow> \<not> b \<and> m = Inr x"
  by simp

lemma token_digest_iff:
  "token_digest token = Inr d \<longleftrightarrow> (\<exists>h. token = Some h \<and> hex64_lower h \<and> d = lit (sha256_hex (map ucast h)))"
proof -
  have "hex64_lower h \<Longrightarrow> encode_ascii h = Some (map ucast h)" for h by (simp add: hex_asc_all(2))
  then show ?thesis by (auto simp: token_digest_def split: option.split_asm if_split_asm)
qed

lemma verify_iff:
  "verify_reservation env path token = Inr a \<longleftrightarrow>
    (\<exists>h p snap c. token = Some h \<and> hex64_lower h \<and> path = Answer (Some p) \<and> p \<noteq> [] \<and> \<not> occurs_in h p
      \<and> load_reservation_snapshot env p = Inr snap \<and> claim_ok c \<and> rs_file_bytes snap = reservation_bytes c
      \<and> \<not> occurs_in (map ucast h) (reservation_bytes c) \<and> validate_reservation_path p (reservation_members c) = Inr ()
      \<and> cl_token_sha256 c = lit (sha256_hex (map ucast h))
      \<and> a = reservation_attestation_of snap (reservation_members c) (receipt_members c) ''verified_ascii_sha256'')"
proof (cases token)
  case None
  then show ?thesis by (simp add: verify_reservation_def)
next
  case (Some h)
  have path: "lexical_path path = Inr p \<longleftrightarrow> path = Answer (Some p) \<and> p \<noteq> []" for p
    by (auto simp: lexical_path_def bindE_eq_Inr split: option.split_asm if_split_asm)
  have enc: "hex64_lower h \<Longrightarrow> encode_ascii h = Some (map ucast h)" by (simp add: hex_asc_all(2))
  have "verify_reservation env path token = Inr a \<longleftrightarrow> attest_reservation env path (Some token) = Inr a"
    by (auto simp: verify_reservation_def Some split: sum.split reservation_error.split)
  also have "\<dots> \<longleftrightarrow> (\<exists>p snap r rec. hex64_lower h \<and> path = Answer (Some p) \<and> p \<noteq> [] \<and> \<not> occurs_in h p
      \<and> load_reservation_snapshot env p = Inr snap \<and> \<not> occurs_in (map ucast h) (rs_file_bytes snap)
      \<and> parse_reservation_file (rs_file_bytes snap) = Inr (r, rec) \<and> validate_reservation_path p r = Inr ()
      \<and> field r ''reservation_token_sha256'' = JStr (lit (sha256_hex (map ucast h)))
      \<and> a = reservation_attestation_of snap r rec ''verified_ascii_sha256'')"
    unfolding attest_reservation_def Some
    by (auto simp: bindE_eq_Inr path token_digest_iff enc guarded_Inr dest: snapshot_exact(1))
  also note e = calculation
  show ?thesis unfolding Some e [unfolded Some] parse_reservation_iff
  proof (rule iffI; elim exE conjE)
    fix p snap r rec c
    assume "hex64_lower h" "path = Answer (Some p)" "p \<noteq> []" "\<not> occurs_in h p" "load_reservation_snapshot env p = Inr snap"
      "\<not> occurs_in (map ucast h) (rs_file_bytes snap)" "validate_reservation_path p r = Inr ()"
      "field r ''reservation_token_sha256'' = JStr (lit (sha256_hex (map ucast h)))"
      "a = reservation_attestation_of snap r rec ''verified_ascii_sha256''"
      "claim_ok c" "rs_file_bytes snap = reservation_bytes c" "r = reservation_members c" "rec = receipt_members c"
    then show "\<exists>h' p snap c. Some h = Some h' \<and> hex64_lower h' \<and> path = Answer (Some p) \<and> p \<noteq> [] \<and> \<not> occurs_in h' p
      \<and> load_reservation_snapshot env p = Inr snap \<and> claim_ok c \<and> rs_file_bytes snap = reservation_bytes c
      \<and> \<not> occurs_in (map ucast h') (reservation_bytes c) \<and> validate_reservation_path p (reservation_members c) = Inr ()
      \<and> cl_token_sha256 c = lit (sha256_hex (map ucast h'))
      \<and> a = reservation_attestation_of snap (reservation_members c) (receipt_members c) ''verified_ascii_sha256''"
      by (intro exI [of _ h] exI [of _ p] exI [of _ snap] exI [of _ c]) simp
  next
    fix h' p snap c
    assume "Some h = Some h'" "hex64_lower h'" "path = Answer (Some p)" "p \<noteq> []" "\<not> occurs_in h' p"
      "load_reservation_snapshot env p = Inr snap" "claim_ok c" "rs_file_bytes snap = reservation_bytes c"
      "\<not> occurs_in (map ucast h') (reservation_bytes c)" "validate_reservation_path p (reservation_members c) = Inr ()"
      "cl_token_sha256 c = lit (sha256_hex (map ucast h'))"
      "a = reservation_attestation_of snap (reservation_members c) (receipt_members c) ''verified_ascii_sha256''"
    then show "\<exists>p snap r rec. hex64_lower h \<and> path = Answer (Some p) \<and> p \<noteq> [] \<and> \<not> occurs_in h p
      \<and> load_reservation_snapshot env p = Inr snap \<and> \<not> occurs_in (map ucast h) (rs_file_bytes snap)
      \<and> (\<exists>c. claim_ok c \<and> rs_file_bytes snap = reservation_bytes c \<and> r = reservation_members c \<and> rec = receipt_members c)
      \<and> validate_reservation_path p r = Inr ()
      \<and> field r ''reservation_token_sha256'' = JStr (lit (sha256_hex (map ucast h)))
      \<and> a = reservation_attestation_of snap r rec ''verified_ascii_sha256''"
      by (intro exI [of _ p] exI [of _ snap] exI [of _ "reservation_members c"] exI [of _ "receipt_members c"]) auto
  qed
qed

section \<open>Properties\<close>

text \<open>
  C33: The verifier accepts exactly the files a claim determines: a file parses to a reservation and a
  receipt if and only if they and its bytes, down to the last, are those of exactly one well-formed
  claim, whose fields are the only ones a writer is free to choose.
\<close>

theorem reservation_files_are_claims:
  "parse_reservation_file raw = Inr (r, rec) \<longleftrightarrow>
    (\<exists>!c. claim_ok c \<and> raw = reservation_bytes c \<and> r = reservation_members c \<and> rec = receipt_members c)"
proof -
  have "c = d" if "reservation_members c = reservation_members d" for c d :: claim
    using that by (cases c, cases d) (simp add: reservation_members_def receipt_members_def)
  then show ?thesis unfolding parse_reservation_iff by blast
qed

text \<open>
  C34: Verification with a token is inspection plus the token: it succeeds if and only if inspecting
  the same file does, the token is 64 lower-case hex digits that occur neither in the path nor in
  the file, and its SHA-256 is the one the reservation stores. The two attestations differ in one
  field, their bytes fit the bound, and neither licenses anything.
\<close>

theorem verification_is_inspection_with_token:
  "verify_reservation env path token = Inr a \<longleftrightarrow>
    (\<exists>h p snap c. token = Some h \<and> hex64_lower h \<and> path = Answer (Some p) \<and> \<not> occurs_in h p
      \<and> load_reservation_snapshot env p = Inr snap \<and> claim_ok c \<and> rs_file_bytes snap = reservation_bytes c
      \<and> \<not> occurs_in (map ucast h) (reservation_bytes c) \<and> cl_token_sha256 c = lit (sha256_hex (map ucast h))
      \<and> inspect_reservation env path = Inr (a\<lparr>ra_reservation_token_verification := ''not_performed''\<rparr>)
      \<and> ra_reservation_token_verification a = ''verified_ascii_sha256''
      \<and> ra_input_sha256 a = lit (sha256_hex (reservation_bytes c)) \<and> ra_input_bytes a = length (reservation_bytes c)
      \<and> ra_input_bytes a \<le> MAX_RESERVATION_BYTES
      \<and> \<not> ra_canonical_run_authority a \<and> \<not> ra_licenses_execution a \<and> \<not> ra_licenses_later_stage a)"
  (is "?verify \<longleftrightarrow> (\<exists>h p snap c. ?all h p snap c)")
proof
  let ?at = "\<lambda>snap c. reservation_attestation_of snap (reservation_members c) (receipt_members c)"
  have same: "(?at snap c x)\<lparr>ra_reservation_token_verification := y\<rparr> = ?at snap c y" for snap c x y
    by (simp add: reservation_attestation_of_def)
  show "\<exists>h p snap c. ?all h p snap c" if ?verify
  proof -
    from that obtain h p snap c where v: "token = Some h" "hex64_lower h" "path = Answer (Some p)" "p \<noteq> []"
      "\<not> occurs_in h p" "load_reservation_snapshot env p = Inr snap" "claim_ok c" "rs_file_bytes snap = reservation_bytes c"
      "\<not> occurs_in (map ucast h) (reservation_bytes c)" "validate_reservation_path p (reservation_members c) = Inr ()"
      "cl_token_sha256 c = lit (sha256_hex (map ucast h))" "a = ?at snap c ''verified_ascii_sha256''"
      unfolding verify_iff by blast
    have "inspect_reservation env path = Inr (a\<lparr>ra_reservation_token_verification := ''not_performed''\<rparr>)"
      unfolding inspect_iff v(12) same using v by blast
    with v snapshot_exact [OF v(6)] have "?all h p snap c"
      by (simp add: reservation_attestation_of_def)
    then show ?thesis by blast
  qed
  show ?verify if "\<exists>h p snap c. ?all h p snap c"
  proof -
    from that obtain h p snap c where v: "?all h p snap c" by blast
    then obtain c' where c': "claim_ok c'" "rs_file_bytes snap = reservation_bytes c'" "p \<noteq> []"
      "validate_reservation_path p (reservation_members c') = Inr ()"
      "a\<lparr>ra_reservation_token_verification := ''not_performed''\<rparr> = ?at snap c' ''not_performed''"
      unfolding inspect_iff by auto
    have "c' = c"
    proof -
      have "parse_reservation_file (reservation_bytes c) = Inr (reservation_members d, receipt_members d)"
        if "claim_ok d" "reservation_bytes d = reservation_bytes c" for d
        using that parse_reservation_iff by metis
      from this [of c] this [of c'] v c'(1,2) have "reservation_members c' = reservation_members c" by auto
      then show ?thesis by (cases c, cases c') (simp add: reservation_members_def receipt_members_def)
    qed
    have "x\<lparr>ra_reservation_token_verification := ''verified_ascii_sha256''\<rparr> = x"
      if "ra_reservation_token_verification x = ''verified_ascii_sha256''" for x :: reservation_attestation
      using that by (cases x) simp
    then have "a = (a\<lparr>ra_reservation_token_verification := ''not_performed''\<rparr>)
        \<lparr>ra_reservation_token_verification := ''verified_ascii_sha256''\<rparr>" using v by simp
    also have "\<dots> = ?at snap c ''verified_ascii_sha256''" unfolding c'(5) same \<open>c' = c\<close> ..
    finally have "a = ?at snap c ''verified_ascii_sha256''" .
    with v c' \<open>c' = c\<close> show ?thesis unfolding verify_iff by blast
  qed
qed

end
