(* ===== verification/Publisher.thy ===== *)
theory Publisher
  imports FakeCas Py_Json
begin

text \<open>
  \<^verbatim>\<open>evals/uprime_rpc_local_staging_fake_publisher.py\<close>, the values: the frozen constants and their
  checks, the lexical checks of the staging path, the transition of the compare-and-swap kernel, the
  hash of an operation, and the result, which is validated by deriving it again. Path functions of the
  host and its flags of \<^verbatim>\<open>os.open\<close> are the record \<open>host\<close>. Names the kernel also uses carry the
  suffix \<^verbatim>\<open>_STAGE\<close>. The effects are in \<^verbatim>\<open>Staging\<close>.
\<close>

type_synonym publisher_error = string

named_theorems stage_constants

section \<open>Frozen constants\<close>

definition RESULT_SCHEMA :: string where
  "RESULT_SCHEMA = ''lean-rgc-uprime-u1-local-staging-fake-publish-result-v1.0''"

definition RESULT_SCOPE :: string where
  "RESULT_SCOPE = ''one_call_changed_branch_nonce_stage_before_pure_normal_fake_cas_return''"

definition ORIGIN_STATUS_STAGE :: string where
  "ORIGIN_STATUS_STAGE = ''unknown_may_be_synthetic''"

definition MAX_PAYLOAD_BYTES_STAGE :: int where
  "MAX_PAYLOAD_BYTES_STAGE = 1048576"

definition MAX_STAGING_PARENT_UTF8_BYTES :: int where
  "MAX_STAGING_PARENT_UTF8_BYTES = 4096"

definition MAX_STAGE_PATH_UTF8_BYTES :: int where
  "MAX_STAGE_PATH_UTF8_BYTES = 4162"

definition COLLISION_NONCE_CHARS :: int where
  "COLLISION_NONCE_CHARS = 32"

definition COLLISION_NONCE_BYTES :: int where
  "COLLISION_NONCE_BYTES = 16"

definition IO_CHUNK_BYTES :: int where
  "IO_CHUNK_BYTES = 65536"

definition MAX_WRITE_CALLS :: int where
  "MAX_WRITE_CALLS = 1048576"

definition MAX_READ_CALLS :: int where
  "MAX_READ_CALLS = 17"

definition MAX_FILESYSTEM_PAYLOAD_WORK_BYTES :: int where
  "MAX_FILESYSTEM_PAYLOAD_WORK_BYTES = 2097152"

definition MAX_PEAK_TRANSIENT_BUFFER_BYTES :: int where
  "MAX_PEAK_TRANSIENT_BUFFER_BYTES = 65536"

definition MAX_RETAINED_PAYLOAD_COPY_BYTES_STAGE :: int where
  "MAX_RETAINED_PAYLOAD_COPY_BYTES_STAGE = 0"

definition MAX_STAGE_FILE_CREATES :: int where
  "MAX_STAGE_FILE_CREATES = 1"

definition MAX_RETAINED_STAGE_BYTES :: int where
  "MAX_RETAINED_STAGE_BYTES = 1048576"

definition MAX_OPERATION_HASH_PREIMAGE_BYTES :: int where
  "MAX_OPERATION_HASH_PREIMAGE_BYTES = 1052813"

definition HASH_PREIMAGE_CONSTRUCTION_STAGE :: string where
  "HASH_PREIMAGE_CONSTRUCTION_STAGE = ''payload_streamed_no_full_preimage_materialization''"

definition STAGE_BASENAME_PREFIX :: string where
  "STAGE_BASENAME_PREFIX = ''uprime-rpc-fake-cas-stage-v1-''"

definition STAGE_BASENAME_SUFFIX :: string where
  "STAGE_BASENAME_SUFFIX = ''.bin''"

definition STAGE_BASENAME_BYTES :: int where
  "STAGE_BASENAME_BYTES = 65"

definition FIXED_DIRECTIVE :: string where
  "FIXED_DIRECTIVE = ''apply_intended_acknowledge''"

definition OPEN_MODE :: int where
  "OPEN_MODE = 384"

definition FILE_ATTRIBUTE_REPARSE_POINT :: int where
  "FILE_ATTRIBUTE_REPARSE_POINT = 1024"

definition RESULT_PROVENANCE :: string where
  "RESULT_PROVENANCE = ''unauthenticated_forgeable_value_object_not_io_attestation''"

definition COLLISION_NONCE_SCOPE :: string where
  "COLLISION_NONCE_SCOPE = ''caller_supplied_collision_separator_not_identity_or_entropy_evidence''"

definition STAGING_PARENT_AUTHORITY :: string where
  "STAGING_PARENT_AUTHORITY = ''caller_supplied_write_location_not_authenticated_namespace''"

definition PATH_DERIVATION_SCOPE :: string where
  "PATH_DERIVATION_SCOPE = ''lexical_native_join_no_resolution_or_canonical_binding''"

definition ANCESTOR_REPARSE_CHECK_SCOPE :: string where
  "ANCESTOR_REPARSE_CHECK_SCOPE = ''not_performed_only_final_parent_entry_observed''"

definition BACKING_STORE_SCOPE :: string where
  "BACKING_STORE_SCOPE = ''unauthenticated_may_be_remote_virtual_or_overlay''"

definition HOSTILE_CONCURRENT_REPARSE_PREVENTION :: string where
  "HOSTILE_CONCURRENT_REPARSE_PREVENTION = ''not_provided''"

definition STAGE_EXCLUSIVITY_SCOPE :: string where
  "STAGE_EXCLUSIVITY_SCOPE = ''changed_branch_one_native_path_exclusive_create_only''"

definition STAGE_READBACK_SCOPE :: string where
  "STAGE_READBACK_SCOPE = ''changed_branch_same_descriptor_exact_bytes_at_one_observation_interval''"

definition STAGE_RETENTION_SCOPE :: string where
  "STAGE_RETENTION_SCOPE = ''any_created_stage_retained_no_post_return_lifetime_claim''"

definition DURABILITY_SCOPE_STAGE :: string where
  "DURABILITY_SCOPE_STAGE = ''fsync_not_called_crash_and_power_loss_not_observed''"

definition CLEANUP_SCOPE :: string where
  "CLEANUP_SCOPE = ''not_performed_any_created_stage_may_remain_after_success_or_error''"

definition PUBLISHER_SCOPE :: string where
  "PUBLISHER_SCOPE = ''pure_fake_cas_value_return_changed_branch_stage_gated_not_real_publication''"

definition STATE_LINEARITY :: string where
  "STATE_LINEARITY = ''caller_threaded_not_enforced''"

definition CONCURRENCY_SCOPE_STAGE :: string where
  "CONCURRENCY_SCOPE_STAGE = ''no_exclusion_or_cross_process_atomicity''"

definition IDEMPOTENCE_SCOPE_STAGE :: string where
  "IDEMPOTENCE_SCOPE_STAGE = ''not_provided_distinct_nonce_is_explicit_new_attempt''"

definition EXACTLY_ONCE_SCOPE_STAGE :: string where
  "EXACTLY_ONCE_SCOPE_STAGE = ''not_provided''"

definition PAYLOAD_CONFIDENTIALITY :: string where
  "PAYLOAD_CONFIDENTIALITY = ''not_provided_any_staged_bytes_written_to_caller_location''"

definition ATTEMPT_COMPLETENESS :: string where
  "ATTEMPT_COMPLETENESS = ''successful_returns_only_errors_unjournaled''"

definition MARKER_SCOPE_STAGE :: string where
  "MARKER_SCOPE_STAGE = ''not_created_or_observed''"

definition RECOVERY_SCOPE_STAGE :: string where
  "RECOVERY_SCOPE_STAGE = ''not_performed''"

definition EPOCH_SCOPE :: string where
  "EPOCH_SCOPE = ''none''"

definition WITNESS_SCOPE_STAGE :: string where
  "WITNESS_SCOPE_STAGE = ''none''"

definition MANIFEST_SCOPE_STAGE :: string where
  "MANIFEST_SCOPE_STAGE = ''not_read_or_written''"

definition REMOTE_PUBLICATION_STAGE :: string where
  "REMOTE_PUBLICATION_STAGE = ''not_performed''"

definition AUTHORITY_SCOPE_STAGE :: string where
  "AUTHORITY_SCOPE_STAGE = ''none''"

definition LOWER_HEX32_PATTERN :: string where
  "LOWER_HEX32_PATTERN = ''[0-9a-f]{32}'' @ [CHR 0x5C] @ ''Z''"

definition UPPER_HEX64_PATTERN :: string where
  "UPPER_HEX64_PATTERN = ''[0-9A-F]{64}'' @ [CHR 0x5C] @ ''Z''"

definition WINDOWS_DRIVE_ROOT_PATTERN :: string where
  "WINDOWS_DRIVE_ROOT_PATTERN = ''[A-Za-z]:'' @ [CHR 0x5C, CHR 0x5C]"

definition D_OPERATION :: bytes where
  "D_OPERATION = ascii ''lean-rgc-uprime-u1-local-staging-fake-publisher-operation-v1'' @ [0]"

record outcome_row =
  orow_outcome :: string
  orow_reason :: string
  orow_cas_outcome :: string
  orow_gate :: string
  orow_parent :: string
  orow_stage :: string
  orow_has_stage :: bool

definition outcome_row_of :: "string \<Rightarrow> string \<Rightarrow> string \<Rightarrow> string \<Rightarrow> string \<Rightarrow> string \<Rightarrow> bool \<Rightarrow> outcome_row" where
  "outcome_row_of a b c d e f g =
     \<lparr>orow_outcome = a, orow_reason = b, orow_cas_outcome = c, orow_gate = d, orow_parent = e, orow_stage = f,
      orow_has_stage = g\<rparr>"

definition OUTCOME_ROWS_STAGE :: "outcome_row list" where
  "OUTCOME_ROWS_STAGE = [
     outcome_row_of ''cas_conflict_no_stage'' ''expected_state_version_mismatch'' ''conflict_no_change''
       ''conflict'' ''not_attempted'' ''not_attempted'' False,
     outcome_row_of ''cas_existing_identical_no_stage'' ''exact_payload_already_current''
       ''existing_identical_no_change'' ''existing_identical'' ''not_attempted'' ''not_attempted'' False,
     outcome_row_of ''staged_intended_fake_publish_acknowledged''
       ''exact_stage_retained_before_exposing_synthetic_acknowledged_transition''
       ''intended_applied_acknowledged'' ''intended_acknowledged'' ''stable_at_endpoint''
       ''retained_stable_at_endpoint'' True]"

lemmas stage_scope_constants [stage_constants] =
  RESULT_SCHEMA_def RESULT_SCOPE_def ORIGIN_STATUS_STAGE_def
  HASH_PREIMAGE_CONSTRUCTION_STAGE_def STAGE_BASENAME_PREFIX_def STAGE_BASENAME_SUFFIX_def
  FIXED_DIRECTIVE_def RESULT_PROVENANCE_def COLLISION_NONCE_SCOPE_def
  STAGING_PARENT_AUTHORITY_def PATH_DERIVATION_SCOPE_def ANCESTOR_REPARSE_CHECK_SCOPE_def
  BACKING_STORE_SCOPE_def HOSTILE_CONCURRENT_REPARSE_PREVENTION_def STAGE_EXCLUSIVITY_SCOPE_def
  STAGE_READBACK_SCOPE_def STAGE_RETENTION_SCOPE_def DURABILITY_SCOPE_STAGE_def
  CLEANUP_SCOPE_def PUBLISHER_SCOPE_def STATE_LINEARITY_def CONCURRENCY_SCOPE_STAGE_def
  IDEMPOTENCE_SCOPE_STAGE_def EXACTLY_ONCE_SCOPE_STAGE_def PAYLOAD_CONFIDENTIALITY_def
  ATTEMPT_COMPLETENESS_def MARKER_SCOPE_STAGE_def RECOVERY_SCOPE_STAGE_def EPOCH_SCOPE_def
  WITNESS_SCOPE_STAGE_def MANIFEST_SCOPE_STAGE_def REMOTE_PUBLICATION_STAGE_def
  AUTHORITY_SCOPE_STAGE_def LOWER_HEX32_PATTERN_def UPPER_HEX64_PATTERN_def
  WINDOWS_DRIVE_ROOT_PATTERN_def

section \<open>The result\<close>

record publish_result =
  pr_result_schema_version :: string
  pr_result_scope :: string
  pr_origin_status :: string
  pr_staging_parent :: pystr
  pr_collision_nonce :: pystr
  pr_stage_basename :: pystr
  pr_stage_path :: pystr
  pr_cas_transition :: cas_transition
  pr_outcome :: string
  pr_reason_codes :: "string list"
  pr_cas_gate_status :: string
  pr_parent_observation_status :: string
  pr_stage_status :: string
  pr_stage_payload_bytes :: "int option"
  pr_stage_payload_sha256 :: "string option"
  pr_write_call_count :: int
  pr_read_call_count :: int
  pr_operation_sha256 :: string
  pr_payload_byte_limit :: int
  pr_staging_parent_utf8_byte_limit :: int
  pr_stage_path_utf8_byte_limit :: int
  pr_collision_nonce_chars :: int
  pr_io_chunk_bytes :: int
  pr_write_call_upper_bound :: int
  pr_read_call_upper_bound :: int
  pr_filesystem_payload_work_upper_bound_bytes :: int
  pr_peak_transient_buffer_upper_bound_bytes :: int
  pr_retained_payload_copy_upper_bound_bytes :: int
  pr_stage_file_create_upper_bound :: int
  pr_retained_stage_byte_upper_bound :: int
  pr_operation_hash_preimage_upper_bound_bytes :: int
  pr_hash_preimage_construction :: string
  pr_result_provenance :: string
  pr_collision_nonce_scope :: string
  pr_staging_parent_authority :: string
  pr_path_derivation_scope :: string
  pr_ancestor_reparse_check_scope :: string
  pr_backing_store_scope :: string
  pr_hostile_concurrent_reparse_prevention :: string
  pr_stage_exclusivity_scope :: string
  pr_stage_readback_scope :: string
  pr_stage_retention_scope :: string
  pr_durability_scope :: string
  pr_cleanup_scope :: string
  pr_publisher_scope :: string
  pr_state_linearity :: string
  pr_concurrency_scope :: string
  pr_idempotence_scope :: string
  pr_exactly_once_scope :: string
  pr_payload_confidentiality :: string
  pr_attempt_completeness :: string
  pr_marker_scope :: string
  pr_recovery_scope :: string
  pr_epoch_scope :: string
  pr_witness_scope :: string
  pr_manifest_scope :: string
  pr_remote_publication :: string
  pr_authority_scope :: string
  pr_canonical_remote_authority :: bool
  pr_licenses_execution :: bool
  pr_licenses_publication :: bool
  pr_licenses_recovery :: bool
  pr_licenses_later_stage :: bool

section \<open>The host\<close>

text \<open>
  Whether the host is Windows, its path functions (\<^verbatim>\<open>None\<close> for an exception) and the constants of
  its \<^verbatim>\<open>os\<close> module for \<^verbatim>\<open>os.open\<close>: three that exist everywhere, and four that are \<^verbatim>\<open>None\<close> where the
  module lacks them.
\<close>

record host =
  host_nt :: bool
  host_isabs :: "pystr \<Rightarrow> bool option"
  host_normpath :: "pystr \<Rightarrow> pystr option"
  host_join :: "pystr \<Rightarrow> pystr \<Rightarrow> pystr option"
  host_O_CREAT :: int
  host_O_EXCL :: int
  host_O_RDWR :: int
  host_O_BINARY :: "int option"
  host_O_NOINHERIT :: "int option"
  host_O_CLOEXEC :: "int option"
  host_O_NOFOLLOW :: "int option"

text \<open>\<^verbatim>\<open>getattr(os, name, 0)\<close>\<close>

definition flag_or_zero :: "int option \<Rightarrow> int" where
  "flag_or_zero f = (case f of None \<Rightarrow> 0 | Some value \<Rightarrow> value)"

definition OPEN_FLAGS :: "host \<Rightarrow> int" where
  "OPEN_FLAGS h = or (or (or (or (or (or (host_O_CREAT h) (host_O_EXCL h)) (host_O_RDWR h))
     (flag_or_zero (host_O_BINARY h))) (flag_or_zero (host_O_NOINHERIT h)))
     (flag_or_zero (host_O_CLOEXEC h))) (flag_or_zero (host_O_NOFOLLOW h))"

definition required_open_flags :: "host \<Rightarrow> int list" where
  "required_open_flags h = [host_O_CREAT h, host_O_EXCL h, host_O_RDWR h]"

definition optional_open_flags :: "host \<Rightarrow> int list" where
  "optional_open_flags h =
     map the (filter (\<lambda>f. f \<noteq> None) [host_O_BINARY h, host_O_NOINHERIT h, host_O_CLOEXEC h, host_O_NOFOLLOW h])"

section \<open>Checks of the frozen constants\<close>

definition stage_strings :: "string list" where
  "stage_strings = [
     RESULT_SCHEMA, RESULT_SCOPE, ORIGIN_STATUS_STAGE, HASH_PREIMAGE_CONSTRUCTION_STAGE,
     STAGE_BASENAME_PREFIX, STAGE_BASENAME_SUFFIX, FIXED_DIRECTIVE, LOWER_HEX32_PATTERN,
     UPPER_HEX64_PATTERN, WINDOWS_DRIVE_ROOT_PATTERN, RESULT_PROVENANCE, COLLISION_NONCE_SCOPE,
     STAGING_PARENT_AUTHORITY, PATH_DERIVATION_SCOPE, ANCESTOR_REPARSE_CHECK_SCOPE,
     BACKING_STORE_SCOPE, HOSTILE_CONCURRENT_REPARSE_PREVENTION, STAGE_EXCLUSIVITY_SCOPE,
     STAGE_READBACK_SCOPE, STAGE_RETENTION_SCOPE, DURABILITY_SCOPE_STAGE, CLEANUP_SCOPE,
     PUBLISHER_SCOPE, STATE_LINEARITY, CONCURRENCY_SCOPE_STAGE, IDEMPOTENCE_SCOPE_STAGE,
     EXACTLY_ONCE_SCOPE_STAGE, PAYLOAD_CONFIDENTIALITY, ATTEMPT_COMPLETENESS, MARKER_SCOPE_STAGE,
     RECOVERY_SCOPE_STAGE, EPOCH_SCOPE, WITNESS_SCOPE_STAGE, MANIFEST_SCOPE_STAGE,
     REMOTE_PUBLICATION_STAGE, AUTHORITY_SCOPE_STAGE]"

definition stage_resources :: "host \<Rightarrow> int list" where
  "stage_resources h = [
     MAX_PAYLOAD_BYTES_STAGE, MAX_STAGING_PARENT_UTF8_BYTES, MAX_STAGE_PATH_UTF8_BYTES,
     COLLISION_NONCE_CHARS, COLLISION_NONCE_BYTES, IO_CHUNK_BYTES, MAX_WRITE_CALLS, MAX_READ_CALLS,
     MAX_FILESYSTEM_PAYLOAD_WORK_BYTES, MAX_PEAK_TRANSIENT_BUFFER_BYTES,
     MAX_RETAINED_PAYLOAD_COPY_BYTES_STAGE, MAX_STAGE_FILE_CREATES, MAX_RETAINED_STAGE_BYTES,
     MAX_OPERATION_HASH_PREIMAGE_BYTES, STAGE_BASENAME_BYTES, OPEN_MODE,
     FILE_ATTRIBUTE_REPARSE_POINT,
     OPEN_FLAGS h]"

definition stage_strings_checked :: "(publisher_error, unit) res" where
  "stage_strings_checked =
     guardE (stage_strings \<noteq> [
       ''lean-rgc-uprime-u1-local-staging-fake-publish-result-v1.0'',
       ''one_call_changed_branch_nonce_stage_before_pure_normal_fake_cas_return'',
       ''unknown_may_be_synthetic'', ''payload_streamed_no_full_preimage_materialization'',
       ''uprime-rpc-fake-cas-stage-v1-'', ''.bin'', ''apply_intended_acknowledge'',
       ''[0-9a-f]{32}'' @ [CHR 0x5C] @ ''Z'', ''[0-9A-F]{64}'' @ [CHR 0x5C] @ ''Z'',
       ''[A-Za-z]:'' @ [CHR 0x5C, CHR 0x5C],
       ''unauthenticated_forgeable_value_object_not_io_attestation'',
       ''caller_supplied_collision_separator_not_identity_or_entropy_evidence'',
       ''caller_supplied_write_location_not_authenticated_namespace'',
       ''lexical_native_join_no_resolution_or_canonical_binding'',
       ''not_performed_only_final_parent_entry_observed'',
       ''unauthenticated_may_be_remote_virtual_or_overlay'', ''not_provided'',
       ''changed_branch_one_native_path_exclusive_create_only'',
       ''changed_branch_same_descriptor_exact_bytes_at_one_observation_interval'',
       ''any_created_stage_retained_no_post_return_lifetime_claim'',
       ''fsync_not_called_crash_and_power_loss_not_observed'',
       ''not_performed_any_created_stage_may_remain_after_success_or_error'',
       ''pure_fake_cas_value_return_changed_branch_stage_gated_not_real_publication'',
       ''caller_threaded_not_enforced'', ''no_exclusion_or_cross_process_atomicity'',
       ''not_provided_distinct_nonce_is_explicit_new_attempt'', ''not_provided'',
       ''not_provided_any_staged_bytes_written_to_caller_location'',
       ''successful_returns_only_errors_unjournaled'', ''not_created_or_observed'',
       ''not_performed'', ''none'', ''none'', ''not_read_or_written'', ''not_performed'', ''none''])
       ''a frozen string constant is invalid''"

definition stage_bounds_checked :: "host \<Rightarrow> (publisher_error, unit) res" where
  "stage_bounds_checked h =
     bindE (guardE (list_ex (\<lambda>v. v < 0) (stage_resources h)) ''a frozen resource constant is invalid'') (\<lambda>_.
     bindE (guardE (MAX_PAYLOAD_BYTES_STAGE \<noteq> 1048576) ''payload byte bound is invalid'') (\<lambda>_.
     bindE (guardE (MAX_STAGING_PARENT_UTF8_BYTES \<noteq> 4096) ''staging parent byte bound is invalid'') (\<lambda>_.
     bindE (guardE (COLLISION_NONCE_CHARS \<noteq> 32 \<or> COLLISION_NONCE_BYTES \<noteq> 16)
       ''collision nonce dimensions are invalid'') (\<lambda>_.
     bindE (guardE (IO_CHUNK_BYTES \<noteq> 65536) ''I/O chunk bound is invalid'') (\<lambda>_.
     bindE (guardE (STAGE_BASENAME_BYTES \<noteq> int (length STAGE_BASENAME_PREFIX) + COLLISION_NONCE_CHARS
         + int (length STAGE_BASENAME_SUFFIX)) ''stage basename byte formula is invalid'') (\<lambda>_.
     bindE (guardE (STAGE_BASENAME_BYTES \<noteq> 65) ''stage basename byte bound is invalid'') (\<lambda>_.
     bindE (guardE (MAX_STAGE_PATH_UTF8_BYTES \<noteq> MAX_STAGING_PARENT_UTF8_BYTES + 1 + STAGE_BASENAME_BYTES)
       ''stage path byte formula is invalid'') (\<lambda>_.
     bindE (guardE (MAX_WRITE_CALLS \<noteq> MAX_PAYLOAD_BYTES_STAGE) ''write call bound formula is invalid'') (\<lambda>_.
     bindE (guardE (MAX_READ_CALLS \<noteq> (MAX_PAYLOAD_BYTES_STAGE + IO_CHUNK_BYTES - 1) div IO_CHUNK_BYTES + 1)
       ''read call bound formula is invalid'') (\<lambda>_.
     bindE (guardE (MAX_FILESYSTEM_PAYLOAD_WORK_BYTES \<noteq> 2 * MAX_PAYLOAD_BYTES_STAGE)
       ''filesystem payload work formula is invalid'') (\<lambda>_.
     bindE (guardE (MAX_PEAK_TRANSIENT_BUFFER_BYTES \<noteq> IO_CHUNK_BYTES)
       ''peak transient buffer bound is invalid'') (\<lambda>_.
     bindE (guardE (MAX_RETAINED_PAYLOAD_COPY_BYTES_STAGE \<noteq> 0) ''retained payload copy bound is invalid'') (\<lambda>_.
     bindE (guardE (MAX_STAGE_FILE_CREATES \<noteq> 1) ''stage create bound is invalid'') (\<lambda>_.
     bindE (guardE (MAX_RETAINED_STAGE_BYTES \<noteq> MAX_PAYLOAD_BYTES_STAGE)
       ''retained stage byte bound is invalid'') (\<lambda>_.
     bindE (guardE (OPEN_MODE \<noteq> 384) ''open mode is invalid'') (\<lambda>_.
     bindE (guardE (FILE_ATTRIBUTE_REPARSE_POINT \<noteq> 1024) ''reparse mask is invalid'') (\<lambda>_.
     bindE (guardE (list_ex (\<lambda>v. v < 0) (required_open_flags h @ optional_open_flags h))
       ''a host open flag is invalid'') (\<lambda>_.
     guardE (OPEN_FLAGS h \<noteq> foldl (\<lambda>flags value. or flags value) 0 (required_open_flags h @ optional_open_flags h))
       ''the frozen host open flag snapshot is invalid''))))))))))))))))))"

definition stage_domain_checked :: "(publisher_error, unit) res" where
  "stage_domain_checked =
     bindE (guardE (D_OPERATION \<noteq> ascii ''lean-rgc-uprime-u1-local-staging-fake-publisher-operation-v1'' @ [0])
       ''operation hash domain is invalid'') (\<lambda>_.
     bindE (guardE (length D_OPERATION \<noteq> 61) ''operation hash domain length is invalid'') (\<lambda>_.
     guardE (MAX_OPERATION_HASH_PREIMAGE_BYTES \<noteq> int (length D_OPERATION) + 4 + MAX_STAGING_PARENT_UTF8_BYTES
         + COLLISION_NONCE_BYTES + 32 + 4 + 8 + MAX_PAYLOAD_BYTES_STAGE + 8 + 8)
       ''operation preimage bound formula is invalid''))"

definition stage_outcomes_checked :: "(publisher_error, unit) res" where
  "stage_outcomes_checked =
     guardE (map orow_outcome OUTCOME_ROWS_STAGE \<noteq> [''cas_conflict_no_stage'',
           ''cas_existing_identical_no_stage'', ''staged_intended_fake_publish_acknowledged'']
         \<or> map orow_reason OUTCOME_ROWS_STAGE \<noteq> [''expected_state_version_mismatch'',
           ''exact_payload_already_current'',
           ''exact_stage_retained_before_exposing_synthetic_acknowledged_transition'']
         \<or> map orow_cas_outcome OUTCOME_ROWS_STAGE \<noteq> [''conflict_no_change'', ''existing_identical_no_change'',
           ''intended_applied_acknowledged'']
         \<or> map orow_gate OUTCOME_ROWS_STAGE \<noteq> [''conflict'', ''existing_identical'', ''intended_acknowledged'']
         \<or> map orow_parent OUTCOME_ROWS_STAGE \<noteq> [''not_attempted'', ''not_attempted'', ''stable_at_endpoint'']
         \<or> map orow_stage OUTCOME_ROWS_STAGE \<noteq> [''not_attempted'', ''not_attempted'',
           ''retained_stable_at_endpoint'']
         \<or> map orow_has_stage OUTCOME_ROWS_STAGE \<noteq> [False, False, True])
       ''the frozen outcome cells are invalid''"

definition validate_frozen_constants_stage :: "host \<Rightarrow> (publisher_error, unit) res" where
  "validate_frozen_constants_stage h =
     bindE stage_strings_checked (\<lambda>_.
     bindE (stage_bounds_checked h) (\<lambda>_.
     bindE stage_domain_checked (\<lambda>_.
     stage_outcomes_checked)))"

section \<open>Lexical inputs\<close>

definition forbidden_control :: "codepoint \<Rightarrow> bool" where
  "forbidden_control c \<longleftrightarrow> c \<le> 0x1F \<or> c = 0x7F"

definition drive_root :: "pystr \<Rightarrow> bool" where
  "drive_root t \<longleftrightarrow> (case t of
     c # d # e # _ \<Rightarrow> (0x41 \<le> c \<and> c \<le> 0x5A \<or> 0x61 \<le> c \<and> c \<le> 0x7A) \<and> d = 0x3A \<and> e = 0x5C
   | _ \<Rightarrow> False)"

definition lower_hex_cp :: "codepoint \<Rightarrow> bool" where
  "lower_hex_cp c \<longleftrightarrow> 0x30 \<le> c \<and> c \<le> 0x39 \<or> 0x61 \<le> c \<and> c \<le> 0x66"

definition lower_hex32 :: "pystr \<Rightarrow> bool" where
  "lower_hex32 t \<longleftrightarrow> length t = 32 \<and> list_all lower_hex_cp t"

definition nibble :: "codepoint \<Rightarrow> nat" where
  "nibble c = (if c \<le> 0x39 then unat c - 48 else unat c - 87)"

text \<open>\<^verbatim>\<open>bytes.fromhex\<close> on text already known to be lower-case hexadecimal.\<close>

fun fromhex_lower :: "pystr \<Rightarrow> bytes" where
  "fromhex_lower (a # b # cs) = of_nat (16 * nibble a + nibble b) # fromhex_lower cs"
| "fromhex_lower _ = []"

record lexical_inputs =
  li_parent :: pystr
  li_parent_bytes :: bytes
  li_nonce :: pystr
  li_nonce_bytes :: bytes
  li_basename :: pystr
  li_stage_path :: pystr

definition validate_staging_parent :: "host \<Rightarrow> pystr \<Rightarrow> (publisher_error, bytes) res" where
  "validate_staging_parent h parent =
     (case utf8 parent of
       None \<Rightarrow> Inl ''staging_parent is not strict UTF-8''
     | Some parent_bytes \<Rightarrow>
         bindE (guardE (\<not> (1 \<le> int (length parent_bytes) \<and> int (length parent_bytes) \<le> MAX_STAGING_PARENT_UTF8_BYTES))
           ''staging_parent UTF-8 length is out of range'') (\<lambda>_.
         bindE (guardE (list_ex forbidden_control parent)
           ''staging_parent contains a forbidden control character'') (\<lambda>_.
         bindE (case host_isabs h parent of None \<Rightarrow> Inl ''staging_parent absolute-path validation failed''
                | Some absolute \<Rightarrow> guardE (\<not> absolute) ''staging_parent is not an absolute path'') (\<lambda>_.
         bindE (case host_normpath h parent of None \<Rightarrow> Inl ''staging_parent normalization failed''
                | Some normalized \<Rightarrow> guardE (normalized \<noteq> parent)
                    ''staging_parent is not in exact normalized lexical form'') (\<lambda>_.
         bindE (guardE (host_nt h \<and> (take 2 parent = [0x5C, 0x5C] \<or> take 2 parent = [0x2F, 0x2F]))
           ''Windows UNC and device paths are forbidden'') (\<lambda>_.
         bindE (guardE (host_nt h \<and> \<not> drive_root parent)
           ''Windows staging_parent must have an explicit drive root'') (\<lambda>_.
         Inr parent_bytes)))))))"

definition validate_lexical_inputs :: "host \<Rightarrow> pystr \<Rightarrow> pystr \<Rightarrow> (publisher_error, lexical_inputs) res" where
  "validate_lexical_inputs h parent nonce =
     bindE (validate_staging_parent h parent) (\<lambda>parent_bytes.
     bindE (guardE (\<not> lower_hex32 nonce) ''collision_nonce is not exact lowercase hex32'') (\<lambda>_.
     let nonce_bytes = fromhex_lower nonce in
     bindE (guardE (int (length nonce_bytes) \<noteq> COLLISION_NONCE_BYTES)
       ''collision_nonce decoded length is invalid'') (\<lambda>_.
     let basename = lit STAGE_BASENAME_PREFIX @ nonce @ lit STAGE_BASENAME_SUFFIX in
     bindE (guardE (list_ex (\<lambda>c. c > 0x7F) basename) ''stage basename is not ASCII'') (\<lambda>_.
     bindE (guardE (int (length basename) \<noteq> STAGE_BASENAME_BYTES) ''stage basename is invalid'') (\<lambda>_.
     case host_join h parent basename of
       None \<Rightarrow> Inl ''stage path join failed''
     | Some stage_path \<Rightarrow>
         bindE (guardE (stage_path = parent) ''stage path derivation is invalid'') (\<lambda>_.
         case utf8 stage_path of
           None \<Rightarrow> Inl ''stage path is not strict UTF-8''
         | Some stage_path_bytes \<Rightarrow>
             bindE (guardE (int (length stage_path_bytes) > MAX_STAGE_PATH_UTF8_BYTES)
               ''stage path UTF-8 length exceeds its bound'') (\<lambda>_.
             Inr \<lparr>li_parent = parent, li_parent_bytes = parent_bytes, li_nonce = nonce,
                   li_nonce_bytes = nonce_bytes, li_basename = basename, li_stage_path = stage_path\<rparr>)))))))"

section \<open>The transition\<close>

definition normal_transition :: "cas_state \<Rightarrow> string \<Rightarrow> bytes \<Rightarrow> (publisher_error, cas_transition) res" where
  "normal_transition s expected proposal =
     liftE (\<lambda>_. ''normal fake-CAS derivation failed'') (cas_step s expected proposal ''apply_intended_acknowledge'' None)"

text \<open>Copying the fields into a new transition validates it; \<open>same\<close> is the identity of its objects.\<close>

definition snapshot_transition :: "object_identity \<Rightarrow> cas_transition \<Rightarrow> (publisher_error, cas_transition) res" where
  "snapshot_transition same t =
     bindE (liftE (\<lambda>_. ''cas_transition is structurally invalid'') (validate_transition same t)) (\<lambda>_. Inr t)"

definition validated_transition :: "object_identity \<Rightarrow> cas_transition \<Rightarrow> (publisher_error, cas_transition) res" where
  "validated_transition same t =
     bindE (snapshot_transition same t) (\<lambda>snapshot.
     bindE (normal_transition (ct_before_state snapshot) (ct_expected_state_version_sha256 snapshot)
       (ct_proposed_payload snapshot)) (\<lambda>expected.
     bindE (guardE (snapshot \<noteq> expected) ''cas_transition fields do not match the fixed normal derivation'') (\<lambda>_.
     Inr snapshot)))"

definition row_for_transition :: "cas_transition \<Rightarrow> (publisher_error, nat \<times> outcome_row) res" where
  "row_for_transition t =
     (case List.find (\<lambda>(_, row). ct_outcome t = orow_cas_outcome row) (enumerate 0 OUTCOME_ROWS_STAGE) of
        None \<Rightarrow> Inl ''the fixed normal fake-CAS outcome is invalid''
      | Some ir \<Rightarrow> Inr ir)"

section \<open>The hash of an operation\<close>

definition u32_stage :: "int \<Rightarrow> (publisher_error, bytes) res" where
  "u32_stage n = (if n < 0 \<or> n > 4294967295 then Inl ''u32 value is out of range'' else Inr (be_bytes 4 (nat n)))"

definition u64_stage :: "int \<Rightarrow> (publisher_error, bytes) res" where
  "u64_stage n = (if n < 0 \<or> n > 18446744073709551615 then Inl ''u64 value is out of range''
     else Inr (be_bytes 8 (nat n)))"

text \<open>The finished digest of the bytes a digest object was updated with.\<close>

definition finish_hash :: "bytes \<Rightarrow> (publisher_error, string) res" where
  "finish_hash m = require_hash (sha256_hex m) ''computed SHA-256''"

definition operation_preimage ::
  "bytes \<Rightarrow> bytes \<Rightarrow> string \<Rightarrow> int list \<Rightarrow> bytes option \<Rightarrow> int \<Rightarrow> int \<Rightarrow> (publisher_error, bytes) res" where
  "operation_preimage parent_raw nonce_raw transition_hash indices payload writes reads =
     bindE (u32_stage (int (length parent_raw))) (\<lambda>parent_size.
     bindE (case payload of
         None \<Rightarrow> Inr []
       | Some raw \<Rightarrow> bindE (u64_stage (int (length raw))) (\<lambda>size. Inr (size @ raw))) (\<lambda>framed_payload.
     bindE (u64_stage writes) (\<lambda>w.
     bindE (u64_stage reads) (\<lambda>r.
     Inr (D_OPERATION @ parent_size @ parent_raw @ nonce_raw @ unhex transition_hash
       @ map of_int indices @ [if payload = None then 0 else 1] @ framed_payload @ w @ r)))))"

definition operation_sha256 ::
  "bytes \<Rightarrow> bytes \<Rightarrow> string \<Rightarrow> int \<Rightarrow> int \<Rightarrow> int \<Rightarrow> bytes option \<Rightarrow> int \<Rightarrow> int \<Rightarrow> (publisher_error, string) res" where
  "operation_sha256 parent_raw nonce_raw transition_sha outcome_index parent_index stage_index payload writes reads =
     bindE (guardE (int (length parent_raw) > MAX_STAGING_PARENT_UTF8_BYTES)
       ''parent UTF-8 bytes exceed their bound'') (\<lambda>_.
     bindE (guardE (int (length nonce_raw) \<noteq> COLLISION_NONCE_BYTES)
       ''collision nonce bytes have an invalid length'') (\<lambda>_.
     bindE (require_hash transition_sha ''transition_sha256'') (\<lambda>transition_hash.
     bindE (guardE (\<not> (1 \<le> outcome_index \<and> outcome_index \<le> 3) \<or> \<not> (1 \<le> parent_index \<and> parent_index \<le> 2)
         \<or> \<not> (1 \<le> stage_index \<and> stage_index \<le> 2)) ''an operation tag index is out of range'') (\<lambda>_.
     bindE (guardE (writes < 0 \<or> reads < 0) ''an operation call count is negative'') (\<lambda>_.
     bindE (guardE (case payload of None \<Rightarrow> False | Some raw \<Rightarrow> int (length raw) > MAX_PAYLOAD_BYTES_STAGE)
       ''stage payload exceeds its byte bound'') (\<lambda>_.
     bindE (operation_preimage parent_raw nonce_raw transition_hash [outcome_index, parent_index, stage_index]
       payload writes reads) finish_hash))))))"

section \<open>Deriving and validating a result\<close>

text \<open>\<^verbatim>\<open>(n + _IO_CHUNK_BYTES - 1) // _IO_CHUNK_BYTES\<close>\<close>

definition chunks :: "int \<Rightarrow> int" where
  "chunks n = (n + IO_CHUNK_BYTES - 1) div IO_CHUNK_BYTES"

text \<open>The staged payload and the number of reads that belong to an outcome and a number of writes.\<close>

definition checked_counts :: "bool \<Rightarrow> bytes \<Rightarrow> int \<Rightarrow> (publisher_error, bytes option \<times> int) res" where
  "checked_counts has_stage payload writes =
     (if has_stage then
        let payload_bytes = int (length payload) in
        bindE (if payload_bytes = 0
           then guardE (writes \<noteq> 0) ''empty staged payload must have zero writes''
           else guardE (writes < chunks payload_bytes \<or> writes > payload_bytes)
             ''write_call_count is impossible for the staged payload'') (\<lambda>_.
        bindE (guardE (writes > MAX_WRITE_CALLS) ''write_call_count exceeds its bound'') (\<lambda>_.
        Inr (Some payload, chunks payload_bytes + 1)))
      else
        bindE (guardE (writes \<noteq> 0) ''a no-stage outcome must have zero writes'') (\<lambda>_. Inr (None, 0)))"

definition result_fields ::
  "lexical_inputs \<Rightarrow> cas_transition \<Rightarrow> outcome_row \<Rightarrow> bytes option \<Rightarrow> int \<Rightarrow> int \<Rightarrow> string \<Rightarrow> publish_result" where
  "result_fields li cas_transition row payload writes reads operation =
     \<lparr>pr_result_schema_version = RESULT_SCHEMA,
      pr_result_scope = RESULT_SCOPE,
      pr_origin_status = ORIGIN_STATUS_STAGE,
      pr_staging_parent = li_parent li,
      pr_collision_nonce = li_nonce li,
      pr_stage_basename = li_basename li,
      pr_stage_path = li_stage_path li,
      pr_cas_transition = cas_transition,
      pr_outcome = orow_outcome row,
      pr_reason_codes = [orow_reason row],
      pr_cas_gate_status = orow_gate row,
      pr_parent_observation_status = orow_parent row,
      pr_stage_status = orow_stage row,
      pr_stage_payload_bytes = map_option (\<lambda>raw. int (length raw)) payload,
      pr_stage_payload_sha256 = map_option sha256_hex payload,
      pr_write_call_count = writes,
      pr_read_call_count = reads,
      pr_operation_sha256 = operation,
      pr_payload_byte_limit = MAX_PAYLOAD_BYTES_STAGE,
      pr_staging_parent_utf8_byte_limit = MAX_STAGING_PARENT_UTF8_BYTES,
      pr_stage_path_utf8_byte_limit = MAX_STAGE_PATH_UTF8_BYTES,
      pr_collision_nonce_chars = COLLISION_NONCE_CHARS,
      pr_io_chunk_bytes = IO_CHUNK_BYTES,
      pr_write_call_upper_bound = MAX_WRITE_CALLS,
      pr_read_call_upper_bound = MAX_READ_CALLS,
      pr_filesystem_payload_work_upper_bound_bytes = MAX_FILESYSTEM_PAYLOAD_WORK_BYTES,
      pr_peak_transient_buffer_upper_bound_bytes = MAX_PEAK_TRANSIENT_BUFFER_BYTES,
      pr_retained_payload_copy_upper_bound_bytes = MAX_RETAINED_PAYLOAD_COPY_BYTES_STAGE,
      pr_stage_file_create_upper_bound = MAX_STAGE_FILE_CREATES,
      pr_retained_stage_byte_upper_bound = MAX_RETAINED_STAGE_BYTES,
      pr_operation_hash_preimage_upper_bound_bytes = MAX_OPERATION_HASH_PREIMAGE_BYTES,
      pr_hash_preimage_construction = HASH_PREIMAGE_CONSTRUCTION_STAGE,
      pr_result_provenance = RESULT_PROVENANCE,
      pr_collision_nonce_scope = COLLISION_NONCE_SCOPE,
      pr_staging_parent_authority = STAGING_PARENT_AUTHORITY,
      pr_path_derivation_scope = PATH_DERIVATION_SCOPE,
      pr_ancestor_reparse_check_scope = ANCESTOR_REPARSE_CHECK_SCOPE,
      pr_backing_store_scope = BACKING_STORE_SCOPE,
      pr_hostile_concurrent_reparse_prevention = HOSTILE_CONCURRENT_REPARSE_PREVENTION,
      pr_stage_exclusivity_scope = STAGE_EXCLUSIVITY_SCOPE,
      pr_stage_readback_scope = STAGE_READBACK_SCOPE,
      pr_stage_retention_scope = STAGE_RETENTION_SCOPE,
      pr_durability_scope = DURABILITY_SCOPE_STAGE,
      pr_cleanup_scope = CLEANUP_SCOPE,
      pr_publisher_scope = PUBLISHER_SCOPE,
      pr_state_linearity = STATE_LINEARITY,
      pr_concurrency_scope = CONCURRENCY_SCOPE_STAGE,
      pr_idempotence_scope = IDEMPOTENCE_SCOPE_STAGE,
      pr_exactly_once_scope = EXACTLY_ONCE_SCOPE_STAGE,
      pr_payload_confidentiality = PAYLOAD_CONFIDENTIALITY,
      pr_attempt_completeness = ATTEMPT_COMPLETENESS,
      pr_marker_scope = MARKER_SCOPE_STAGE,
      pr_recovery_scope = RECOVERY_SCOPE_STAGE,
      pr_epoch_scope = EPOCH_SCOPE,
      pr_witness_scope = WITNESS_SCOPE_STAGE,
      pr_manifest_scope = MANIFEST_SCOPE_STAGE,
      pr_remote_publication = REMOTE_PUBLICATION_STAGE,
      pr_authority_scope = AUTHORITY_SCOPE_STAGE,
      pr_canonical_remote_authority = False,
      pr_licenses_execution = False,
      pr_licenses_publication = False,
      pr_licenses_recovery = False,
      pr_licenses_later_stage = False\<rparr>"

definition derive_result_values ::
  "host \<Rightarrow> object_identity \<Rightarrow> pystr \<Rightarrow> pystr \<Rightarrow> cas_transition \<Rightarrow> int \<Rightarrow> (publisher_error, publish_result) res" where
  "derive_result_values h same staging_parent collision_nonce cas_transition writes =
     bindE (validate_frozen_constants_stage h) (\<lambda>_.
     bindE (validate_lexical_inputs h staging_parent collision_nonce) (\<lambda>li.
     bindE (validated_transition same cas_transition) (\<lambda>transition.
     bindE (row_for_transition transition) (\<lambda>(outcome_index, row).
     bindE (checked_counts (orow_has_stage row) (ct_proposed_payload transition) writes) (\<lambda>(payload, reads).
     bindE (case payload of None \<Rightarrow> Inr () | Some raw \<Rightarrow> bindE (finish_hash raw) (\<lambda>_. Inr ())) (\<lambda>_.
     bindE (guardE (reads > MAX_READ_CALLS) ''read_call_count exceeds its bound'') (\<lambda>_.
     bindE (operation_sha256 (li_parent_bytes li) (li_nonce_bytes li) (ct_transition_sha256 transition)
       (int outcome_index + 1) (if orow_has_stage row then 2 else 1) (if orow_has_stage row then 2 else 1)
       payload writes reads) (\<lambda>operation.
     Inr (result_fields li cas_transition row payload writes reads operation)))))))))"

definition validate_result_field_types :: "publish_result \<Rightarrow> (publisher_error, unit) res" where
  "validate_result_field_types v =
     bindE (guardE (length (pr_reason_codes v) \<noteq> 1) ''reason_codes must be an exact one-element tuple'') (\<lambda>_.
     bindE (require_hash (pr_operation_sha256 v) ''operation_sha256'') (\<lambda>_.
     require_optional_hash (pr_stage_payload_sha256 v) ''stage_payload_sha256''))"

definition validate_result :: "host \<Rightarrow> object_identity \<Rightarrow> publish_result \<Rightarrow> (publisher_error, unit) res" where
  "validate_result h same v =
     bindE (validate_frozen_constants_stage h) (\<lambda>_.
     bindE (validate_result_field_types v) (\<lambda>_.
     bindE (derive_result_values h same (pr_staging_parent v) (pr_collision_nonce v) (pr_cas_transition v)
       (pr_write_call_count v)) (\<lambda>expected.
     guardE (v \<noteq> expected) ''result fields do not match their derivation'')))"

text \<open>The constructor: the field values, validated.\<close>

definition mk_publish_result :: "host \<Rightarrow> object_identity \<Rightarrow> publish_result \<Rightarrow> (publisher_error, publish_result) res" where
  "mk_publish_result h same v = bindE (validate_result h same v) (\<lambda>_. Inr v)"

end
