(* ===== verification/Staging.thy ===== *)
theory Staging
  imports Publisher
begin

unbundle bit_operations_syntax

text \<open>
  \<^verbatim>\<open>evals/uprime_rpc_local_staging_fake_publisher.py\<close>, the effects: the calls to the operating system,
  the exclusive stage file with its write and read-back loops, and the public entry point. The
  operating system is the record \<open>os_calls\<close> of functions on a state \<open>'w\<close> of which nothing is assumed
  here; a call answers and moves that state, and \<^verbatim>\<open>None\<close> is an exception.
\<close>

named_theorems io_simps \<open>rewrite rules for computations that call the system\<close>

section \<open>Computations that call the system\<close>

type_synonym ('w, 'a) io = "'w \<Rightarrow> (publisher_error, 'a) res \<times> 'w"

definition bindIO :: "('w, 'a) io \<Rightarrow> ('a \<Rightarrow> ('w, 'b) io) \<Rightarrow> ('w, 'b) io" where
  "bindIO m f w = (case m w of (Inl e, w') \<Rightarrow> (Inl e, w') | (Inr x, w') \<Rightarrow> f x w')"

definition pureIO :: "(publisher_error, 'a) res \<Rightarrow> ('w, 'a) io" where
  "pureIO r w = (r, w)"

text \<open>A call whose exception becomes an error of the module.\<close>

definition callIO :: "('w \<Rightarrow> 'a option \<times> 'w) \<Rightarrow> string \<Rightarrow> ('w, 'a) io" where
  "callIO c message w = (case c w of (None, w') \<Rightarrow> (Inl message, w') | (Some x, w') \<Rightarrow> (Inr x, w'))"

section \<open>The operating system\<close>

record entry_stat =
  es_dev :: int
  es_ino :: int
  es_mode :: int
  es_ctime_ns :: int
  es_size :: int
  es_mtime_ns :: int
  es_file_attributes :: "int option"

datatype open_answer = Opened int | File_Exists | Open_Error

text \<open>\<^verbatim>\<open>os.close\<close> returned \<^verbatim>\<open>None\<close>, or another value, or raised.\<close>

datatype close_answer = Closed | Close_Value | Close_Error

record 'w os_calls =
  os_stat :: "pystr \<Rightarrow> 'w \<Rightarrow> entry_stat option \<times> 'w"
  os_open :: "pystr \<Rightarrow> int \<Rightarrow> int \<Rightarrow> 'w \<Rightarrow> open_answer \<times> 'w"
  os_fstat :: "int \<Rightarrow> 'w \<Rightarrow> entry_stat option \<times> 'w"
  os_write :: "int \<Rightarrow> bytes \<Rightarrow> 'w \<Rightarrow> int option \<times> 'w"
  os_lseek :: "int \<Rightarrow> int \<Rightarrow> 'w \<Rightarrow> int option \<times> 'w"
  os_read :: "int \<Rightarrow> nat \<Rightarrow> 'w \<Rightarrow> bytes option \<times> 'w"
  os_close :: "int \<Rightarrow> 'w \<Rightarrow> close_answer \<times> 'w"

definition S_IFMT :: "int \<Rightarrow> int" where "S_IFMT m = m AND 0xF000"
definition S_ISDIR :: "int \<Rightarrow> bool" where "S_ISDIR m \<longleftrightarrow> S_IFMT m = 0x4000"
definition S_ISREG :: "int \<Rightarrow> bool" where "S_ISREG m \<longleftrightarrow> S_IFMT m = 0x8000"
definition S_ISLNK :: "int \<Rightarrow> bool" where "S_ISLNK m \<longleftrightarrow> S_IFMT m = 0xA000"

section \<open>Observations\<close>

definition stat_integer :: "int \<Rightarrow> string \<Rightarrow> (publisher_error, int) res" where
  "stat_integer n name = bindE (guardE (n < 0) (name @ '' is negative'')) (\<lambda>_. Inr n)"

definition reparse_status :: "entry_stat \<Rightarrow> int \<Rightarrow> (publisher_error, bool) res" where
  "reparse_status v mode =
     (let attributes = (case es_file_attributes v of None \<Rightarrow> 0 | Some a \<Rightarrow> a) in
      bindE (guardE (attributes < 0) ''st_file_attributes is negative'') (\<lambda>_.
      Inr (S_ISLNK mode \<or> attributes AND FILE_ATTRIBUTE_REPARSE_POINT \<noteq> 0)))"

definition directory_snapshot :: "entry_stat \<Rightarrow> string \<Rightarrow> (publisher_error, int \<times> int \<times> int \<times> bool) res" where
  "directory_snapshot v context =
     bindE (stat_integer (es_dev v) ''st_dev'') (\<lambda>device.
     bindE (stat_integer (es_ino v) ''st_ino'') (\<lambda>inode.
     bindE (stat_integer (es_mode v) ''st_mode'') (\<lambda>mode.
     bindE (reparse_status v mode) (\<lambda>reparse.
     bindE (guardE reparse (context @ '' is a symlink or reparse entry'')) (\<lambda>_.
     bindE (guardE (\<not> S_ISDIR mode) (context @ '' is not a directory'')) (\<lambda>_.
     Inr (device, inode, mode, reparse)))))))"

definition descriptor_snapshot ::
  "entry_stat \<Rightarrow> string \<Rightarrow> (publisher_error, int \<times> int \<times> int \<times> int \<times> int \<times> int) res" where
  "descriptor_snapshot v context =
     bindE (stat_integer (es_dev v) ''st_dev'') (\<lambda>device.
     bindE (stat_integer (es_ino v) ''st_ino'') (\<lambda>inode.
     bindE (stat_integer (es_mode v) ''st_mode'') (\<lambda>mode.
     bindE (stat_integer (es_ctime_ns v) ''st_ctime_ns'') (\<lambda>ctime_ns.
     bindE (stat_integer (es_size v) ''st_size'') (\<lambda>size.
     bindE (stat_integer (es_mtime_ns v) ''st_mtime_ns'') (\<lambda>mtime_ns.
     bindE (reparse_status v mode) (\<lambda>reparse.
     bindE (guardE reparse (context @ '' is a symlink or reparse entry'')) (\<lambda>_.
     bindE (guardE (\<not> S_ISREG mode) (context @ '' is not a regular file'')) (\<lambda>_.
     Inr (device, inode, mode, ctime_ns, size, mtime_ns))))))))))"

definition path_snapshot ::
  "entry_stat \<Rightarrow> string \<Rightarrow> (publisher_error, int \<times> int \<times> int \<times> bool \<times> int \<times> int \<times> int) res" where
  "path_snapshot v context =
     bindE (stat_integer (es_dev v) ''st_dev'') (\<lambda>device.
     bindE (stat_integer (es_ino v) ''st_ino'') (\<lambda>inode.
     bindE (stat_integer (es_mode v) ''st_mode'') (\<lambda>mode.
     bindE (reparse_status v mode) (\<lambda>reparse.
     bindE (stat_integer (es_ctime_ns v) ''st_ctime_ns'') (\<lambda>ctime_ns.
     bindE (stat_integer (es_size v) ''st_size'') (\<lambda>size.
     bindE (stat_integer (es_mtime_ns v) ''st_mtime_ns'') (\<lambda>mtime_ns.
     bindE (guardE reparse (context @ '' is a symlink or reparse entry'')) (\<lambda>_.
     bindE (guardE (\<not> S_ISREG mode) (context @ '' is not a regular file'')) (\<lambda>_.
     Inr (device, inode, mode, reparse, ctime_ns, size, mtime_ns))))))))))"

definition nofollow_stat :: "'w os_calls \<Rightarrow> pystr \<Rightarrow> string \<Rightarrow> ('w, entry_stat) io" where
  "nofollow_stat os path context = callIO (os_stat os path) (context @ '' no-follow stat failed'')"

definition descriptor_stat :: "'w os_calls \<Rightarrow> int \<Rightarrow> string \<Rightarrow> ('w, entry_stat) io" where
  "descriptor_stat os fd context = callIO (os_fstat os fd) (context @ '' descriptor stat failed'')"

definition exclusive_open :: "host \<Rightarrow> 'w os_calls \<Rightarrow> pystr \<Rightarrow> ('w, int) io" where
  "exclusive_open h os stage_path w =
     (case os_open os stage_path (OPEN_FLAGS h) OPEN_MODE w of
        (File_Exists, w') \<Rightarrow> (Inl ''the supplied collision nonce path is occupied'', w')
      | (Open_Error, w') \<Rightarrow> (Inl ''exclusive stage create failed'', w')
      | (Opened fd, w') \<Rightarrow> (if fd < 0 then Inl ''stage descriptor is negative'' else Inr fd, w'))"

text \<open>
  The \<^verbatim>\<open>with\<close> block: the descriptor is closed on every way out, and a close that raises or returns a
  value is the error, in place of an error of the body. (An exception that is not an \<^verbatim>\<open>Exception\<close>, such
  as an interrupt, is outside the model.)
\<close>

definition with_descriptor :: "'w os_calls \<Rightarrow> int \<Rightarrow> ('w, 'a) io \<Rightarrow> ('w, 'a) io" where
  "with_descriptor os fd body w =
     (case body w of (r, w1) \<Rightarrow>
      case os_close os fd w1 of
        (Close_Error, w2) \<Rightarrow> (Inl ''stage descriptor close failed'', w2)
      | (Close_Value, w2) \<Rightarrow> (Inl ''stage descriptor close returned a non-None value'', w2)
      | (Closed, w2) \<Rightarrow> (r, w2))"

section \<open>Writing and reading back\<close>

definition request_size :: "bytes \<Rightarrow> nat \<Rightarrow> nat" where
  "request_size payload offset = min (nat IO_CHUNK_BYTES) (length payload - offset)"

definition request :: "bytes \<Rightarrow> nat \<Rightarrow> bytes" where
  "request payload offset = take (request_size payload offset) (drop offset payload)"

function write_loop :: "'w os_calls \<Rightarrow> int \<Rightarrow> bytes \<Rightarrow> nat \<Rightarrow> int \<Rightarrow> ('w, int) io" where
  "write_loop os fd payload offset calls w =
     (if offset < length payload then
        if calls \<ge> MAX_WRITE_CALLS then (Inl ''write call bound would be exceeded'', w)
        else case os_write os fd (request payload offset) w of
          (None, w') \<Rightarrow> (Inl ''stage write failed'', w')
        | (Some count, w') \<Rightarrow>
            if count < 1 \<or> count > int (request_size payload offset)
              then (Inl ''stage write returned invalid progress'', w')
            else write_loop os fd payload (offset + nat count) (calls + 1) w'
      else (Inr calls, w))"
  by pat_completeness auto
termination
  by (relation "measure (\<lambda>(_, _, payload, offset, _, _). length payload - offset)") auto

declare write_loop.simps [simp del]

definition write_payload :: "'w os_calls \<Rightarrow> int \<Rightarrow> bytes \<Rightarrow> ('w, int) io" where
  "write_payload os fd payload = write_loop os fd payload 0 0"

text \<open>The digest object is the list of bytes it was updated with.\<close>

function read_loop :: "'w os_calls \<Rightarrow> int \<Rightarrow> bytes \<Rightarrow> nat \<Rightarrow> int \<Rightarrow> bytes \<Rightarrow> ('w, int \<times> bytes) io" where
  "read_loop os fd payload offset calls digest w =
     (if offset < length payload then
        case os_read os fd (request_size payload offset) w of
          (None, w') \<Rightarrow> (Inl ''stage readback failed'', w')
        | (Some raw, w') \<Rightarrow>
            if calls + 1 > MAX_READ_CALLS then (Inl ''read call bound was exceeded'', w')
            else if length raw \<noteq> request_size payload offset
              then (Inl ''stage readback was short or overlong'', w')
            else if raw \<noteq> request payload offset
              then (Inl ''stage raw readback differs from the proposal'', w')
            else read_loop os fd payload (offset + request_size payload offset) (calls + 1) (digest @ raw) w'
      else (Inr (calls, digest), w))"
  by pat_completeness auto
termination
  by (relation "measure (\<lambda>(_, _, payload, offset, _, _, _). length payload - offset)")
    (auto simp: request_size_def IO_CHUNK_BYTES_def)

declare read_loop.simps [simp del]

definition readback_payload :: "'w os_calls \<Rightarrow> int \<Rightarrow> bytes \<Rightarrow> ('w, int \<times> string) io" where
  "readback_payload os fd payload =
     bindIO (callIO (os_lseek os fd 0) ''stage seek failed'') (\<lambda>position.
     bindIO (pureIO (guardE (position \<noteq> 0) ''stage seek did not return exact zero'')) (\<lambda>_.
     bindIO (read_loop os fd payload 0 0 []) (\<lambda>(calls, digest).
     bindIO (callIO (os_read os fd 1) ''stage EOF probe failed'') (\<lambda>eof.
     bindIO (pureIO (guardE (calls + 1 > MAX_READ_CALLS) ''read call bound was exceeded'')) (\<lambda>_.
     bindIO (pureIO (guardE (eof \<noteq> []) ''stage EOF probe detected growth or an invalid return'')) (\<lambda>_.
     bindIO (pureIO (finish_hash digest)) (\<lambda>sha.
     pureIO (Inr (calls + 1, sha)))))))))"

section \<open>Staging and publishing\<close>

text \<open>The body of the \<^verbatim>\<open>with\<close> block; it leaves the counts, the hash and the last snapshot.\<close>

definition staged_body ::
  "'w os_calls \<Rightarrow> int \<Rightarrow> bytes \<Rightarrow> ('w, int \<times> int \<times> string \<times> int \<times> int \<times> int \<times> int \<times> int \<times> int) io" where
  "staged_body os fd payload =
     bindIO (descriptor_stat os fd ''initial stage'') (\<lambda>s0.
     bindIO (pureIO (descriptor_snapshot s0 ''initial stage'')) (\<lambda>(dev0, ino0, mode0, ctime0, size0, mtime0).
     bindIO (pureIO (guardE (size0 \<noteq> 0) ''the newly created stage is not empty'')) (\<lambda>_.
     bindIO (write_payload os fd payload) (\<lambda>write_calls.
     bindIO (descriptor_stat os fd ''post-write stage'') (\<lambda>s1.
     bindIO (pureIO (descriptor_snapshot s1 ''post-write stage'')) (\<lambda>(dev1, ino1, mode1, ctime1, size1, mtime1).
     bindIO (pureIO (guardE ((dev1, ino1, S_IFMT mode1) \<noteq> (dev0, ino0, S_IFMT mode0))
       ''stage descriptor identity changed after writing'')) (\<lambda>_.
     bindIO (pureIO (guardE (size1 \<noteq> int (length payload)) ''stage size does not equal the proposal length'')) (\<lambda>_.
     bindIO (readback_payload os fd payload) (\<lambda>(read_calls, readback_sha256).
     bindIO (descriptor_stat os fd ''post-readback stage'') (\<lambda>s2.
     bindIO (pureIO (descriptor_snapshot s2 ''post-readback stage'')) (\<lambda>f2.
     bindIO (pureIO (guardE (f2 \<noteq> (dev1, ino1, mode1, ctime1, size1, mtime1))
       ''stage descriptor metadata drifted during readback'')) (\<lambda>_.
     bindIO (pureIO (finish_hash payload)) (\<lambda>payload_sha256.
     bindIO (pureIO (guardE (readback_sha256 \<noteq> payload_sha256)
       ''stage readback SHA-256 differs from the proposal'')) (\<lambda>_.
     pureIO (Inr (write_calls, read_calls, readback_sha256, f2))))))))))))))))"

definition stage_payload ::
  "host \<Rightarrow> 'w os_calls \<Rightarrow> pystr \<Rightarrow> pystr \<Rightarrow> bytes \<Rightarrow> ('w, int \<times> int \<times> string) io" where
  "stage_payload h os staging_parent stage_path payload =
     bindIO (nofollow_stat os staging_parent ''initial parent'') (\<lambda>p0.
     bindIO (pureIO (directory_snapshot p0 ''initial parent'')) (\<lambda>d0.
     bindIO (exclusive_open h os stage_path) (\<lambda>fd.
     bindIO (with_descriptor os fd (staged_body os fd payload))
       (\<lambda>(write_calls, read_calls, readback_sha256, dev2, ino2, mode2, ctime2, size2, mtime2).
     bindIO (nofollow_stat os stage_path ''retained stage'') (\<lambda>s3.
     bindIO (pureIO (path_snapshot s3 ''retained stage'')) (\<lambda>(dev3, ino3, mode3, reparse3, ctime3, size3, mtime3).
     bindIO (pureIO (guardE ((dev3, ino3, size3) \<noteq> (dev2, ino2, size2))
       ''retained path does not match the closed stage descriptor'')) (\<lambda>_.
     bindIO (nofollow_stat os staging_parent ''final parent'') (\<lambda>p1.
     bindIO (pureIO (directory_snapshot p1 ''final parent'')) (\<lambda>d1.
     bindIO (pureIO (guardE (d1 \<noteq> d0) ''staging parent drifted during the observation interval'')) (\<lambda>_.
     pureIO (Inr (write_calls, read_calls, readback_sha256))))))))))))"

definition stage_and_fake_publish ::
  "host \<Rightarrow> 'w os_calls \<Rightarrow> pystr \<Rightarrow> pystr \<Rightarrow> cas_state \<Rightarrow> string \<Rightarrow> bytes \<Rightarrow> ('w, publish_result) io" where
  "stage_and_fake_publish h os staging_parent collision_nonce s expected proposed_payload =
     bindIO (pureIO (validate_frozen_constants_stage h)) (\<lambda>_.
     bindIO (pureIO (validate_lexical_inputs h staging_parent collision_nonce)) (\<lambda>li.
     bindIO (pureIO (normal_transition s expected proposed_payload)) (\<lambda>t.
     bindIO (pureIO (row_for_transition t)) (\<lambda>(_, row).
     if \<not> orow_has_stage row then
       bindIO (pureIO (derive_result_values h (built_identity t) (li_parent li) (li_nonce li) t 0)) (\<lambda>values.
       pureIO (mk_publish_result h (built_identity t) values))
     else
       bindIO (stage_payload h os (li_parent li) (li_stage_path li) proposed_payload)
         (\<lambda>(write_calls, read_calls, readback_sha256).
       bindIO (pureIO (guardE (read_calls \<noteq> chunks (int (length proposed_payload)) + 1)
         ''actual read call count is inconsistent'')) (\<lambda>_.
       bindIO (pureIO (finish_hash proposed_payload)) (\<lambda>payload_sha256.
       bindIO (pureIO (guardE (readback_sha256 \<noteq> payload_sha256) ''actual staged payload hash is inconsistent'')) (\<lambda>_.
       bindIO (pureIO (derive_result_values h (built_identity t) (li_parent li) (li_nonce li) t write_calls)) (\<lambda>values.
       pureIO (mk_publish_result h (built_identity t) values))))))))))"

end
