(* ===== verification/PublisherFacts.thy ===== *)
theory PublisherFacts
  imports Publisher FakeCasProps
begin

text \<open>
  The values of a publication: the frozen constants pass their checks on every host whose open flags
  are not negative, the normal transition is a step of the abstract cell, and the result of lexical
  inputs, a transition and a number of writes in closed form.
\<close>

section \<open>The frozen constants pass their checks\<close>

definition host_flags_ok :: "host \<Rightarrow> bool" where
  "host_flags_ok h \<longleftrightarrow> list_all (\<lambda>v. 0 \<le> v) (required_open_flags h @ optional_open_flags h)"

lemma fold_or_nonneg: "list_all (\<lambda>v. 0 \<le> v) xs \<Longrightarrow> 0 \<le> a \<Longrightarrow> 0 \<le> foldl (\<lambda>flags value. or flags value) a (xs :: int list)"
  by (induction xs arbitrary: a) auto

lemma open_flags_fold: "OPEN_FLAGS h = foldl (\<lambda>flags value. or flags value) 0 (required_open_flags h @ optional_open_flags h)"
  by (simp add: OPEN_FLAGS_def required_open_flags_def optional_open_flags_def flag_or_zero_def split: option.split)

text \<open>Flags that ask for a new file, opened for reading and writing.\<close>

definition exclusive_create :: "host \<Rightarrow> int \<Rightarrow> bool" where
  "exclusive_create h flags \<longleftrightarrow> and flags (host_O_CREAT h) = host_O_CREAT h
     \<and> and flags (host_O_EXCL h) = host_O_EXCL h \<and> and flags (host_O_RDWR h) = host_O_RDWR h"

lemma open_flags_exclusive [simp]: "exclusive_create h (OPEN_FLAGS h)"
  unfolding exclusive_create_def OPEN_FLAGS_def by (auto intro!: bit_eqI simp: bit_and_iff bit_or_iff)

lemma stage_strings_ok: "stage_strings_checked = Inr ()"
  unfolding stage_strings_checked_def stage_strings_def stage_constants
    LOWER_HEX32_PATTERN_def UPPER_HEX64_PATTERN_def WINDOWS_DRIVE_ROOT_PATTERN_def by simp

lemma length_domain [simp]: "length D_OPERATION = 61"
  by (simp add: D_OPERATION_def)

lemma stage_domain_ok: "stage_domain_checked = Inr ()"
proof -
  have "D_OPERATION = ascii ''lean-rgc-uprime-u1-local-staging-fake-publisher-operation-v1'' @ [0]"
    by (rule D_OPERATION_def)
  then show ?thesis
    by (simp add: stage_domain_checked_def MAX_OPERATION_HASH_PREIMAGE_BYTES_def MAX_STAGING_PARENT_UTF8_BYTES_def
      COLLISION_NONCE_BYTES_def MAX_PAYLOAD_BYTES_STAGE_def)
qed

lemma stage_outcomes_ok: "stage_outcomes_checked = Inr ()"
  by (simp add: stage_outcomes_checked_def OUTCOME_ROWS_STAGE_def outcome_row_of_def)

lemmas stage_numbers =
  MAX_PAYLOAD_BYTES_STAGE_def MAX_STAGING_PARENT_UTF8_BYTES_def MAX_STAGE_PATH_UTF8_BYTES_def
  COLLISION_NONCE_CHARS_def COLLISION_NONCE_BYTES_def IO_CHUNK_BYTES_def MAX_WRITE_CALLS_def
  MAX_READ_CALLS_def MAX_FILESYSTEM_PAYLOAD_WORK_BYTES_def MAX_PEAK_TRANSIENT_BUFFER_BYTES_def
  MAX_RETAINED_PAYLOAD_COPY_BYTES_STAGE_def MAX_STAGE_FILE_CREATES_def MAX_RETAINED_STAGE_BYTES_def
  MAX_OPERATION_HASH_PREIMAGE_BYTES_def STAGE_BASENAME_BYTES_def OPEN_MODE_def FILE_ATTRIBUTE_REPARSE_POINT_def

lemma stage_bounds_iff: "stage_bounds_checked h = Inr () \<longleftrightarrow> host_flags_ok h"
proof
  assume "stage_bounds_checked h = Inr ()"
  then show "host_flags_ok h"
    by (auto simp: stage_bounds_checked_def host_flags_ok_def list_all_iff list_ex_iff not_less split: if_splits)
next
  assume ok: "host_flags_ok h"
  then have "0 \<le> OPEN_FLAGS h" unfolding open_flags_fold host_flags_ok_def by (rule fold_or_nonneg) simp
  then have res: "\<not> list_ex (\<lambda>v. v < 0) (stage_resources h)"
    by (simp add: stage_resources_def stage_numbers)
  have flags: "\<not> list_ex (\<lambda>v. v < 0) (required_open_flags h @ optional_open_flags h)"
    using ok by (auto simp: host_flags_ok_def list_all_iff list_ex_iff not_less)
  have names: "int (length STAGE_BASENAME_PREFIX) = 29" "int (length STAGE_BASENAME_SUFFIX) = 4"
    by (simp_all add: STAGE_BASENAME_PREFIX_def STAGE_BASENAME_SUFFIX_def)
  show "stage_bounds_checked h = Inr ()"
    unfolding stage_bounds_checked_def open_flags_fold [symmetric] by (simp add: res flags [simplified] names stage_numbers)
qed

lemma frozen_stage_iff [simp]: "validate_frozen_constants_stage h = Inr () \<longleftrightarrow> host_flags_ok h"
  by (simp add: validate_frozen_constants_stage_def stage_strings_ok stage_domain_ok stage_outcomes_ok
    bindE_eq_Inr stage_bounds_iff)

lemma frozen_stage_ok [simp]: "host_flags_ok h \<Longrightarrow> validate_frozen_constants_stage h = Inr ()"
  by simp

section \<open>Lexical inputs\<close>

lemma length_fromhex: "length (fromhex_lower t) = length t div 2"
  by (induction t rule: fromhex_lower.induct) simp_all

lemma lexicalD:
  assumes "validate_lexical_inputs h parent nonce = Inr li"
  shows "li_parent li = parent" and "li_nonce li = nonce" and "utf8 parent = Some (li_parent_bytes li)"
    and "int (length (li_parent_bytes li)) \<le> MAX_STAGING_PARENT_UTF8_BYTES"
    and "lower_hex32 nonce" and "li_nonce_bytes li = fromhex_lower nonce" and "length (li_nonce_bytes li) = 16"
    and "li_basename li = lit STAGE_BASENAME_PREFIX @ nonce @ lit STAGE_BASENAME_SUFFIX"
    and "host_join h parent (li_basename li) = Some (li_stage_path li)" and "li_stage_path li \<noteq> parent"
proof -
  from assms obtain parent_bytes where p: "validate_staging_parent h parent = Inr parent_bytes"
    by (auto simp: validate_lexical_inputs_def bindE_eq_Inr)
  note body = assms [unfolded validate_lexical_inputs_def p bindE_Inr bindE_guardE Let_def]
  have rest: "lower_hex32 nonce \<and> length (fromhex_lower nonce) = 16 \<and>
      (\<exists>path. host_join h parent (lit STAGE_BASENAME_PREFIX @ nonce @ lit STAGE_BASENAME_SUFFIX) = Some path \<and> path \<noteq> parent \<and>
      li = \<lparr>li_parent = parent, li_parent_bytes = parent_bytes, li_nonce = nonce, li_nonce_bytes = fromhex_lower nonce,
        li_basename = lit STAGE_BASENAME_PREFIX @ nonce @ lit STAGE_BASENAME_SUFFIX, li_stage_path = path\<rparr>)"
    using body by (simp add: COLLISION_NONCE_BYTES_def split: if_split_asm option.split_asm)
  from p have "utf8 parent = Some parent_bytes \<and> int (length parent_bytes) \<le> MAX_STAGING_PARENT_UTF8_BYTES"
    by (auto simp: validate_staging_parent_def bindE_eq_Inr split: option.splits if_splits)
  with rest show "li_parent li = parent" and "li_nonce li = nonce" and "utf8 parent = Some (li_parent_bytes li)"
    and "int (length (li_parent_bytes li)) \<le> MAX_STAGING_PARENT_UTF8_BYTES"
    and "lower_hex32 nonce" and "li_nonce_bytes li = fromhex_lower nonce" and "length (li_nonce_bytes li) = 16"
    and "li_basename li = lit STAGE_BASENAME_PREFIX @ nonce @ lit STAGE_BASENAME_SUFFIX"
    and "host_join h parent (li_basename li) = Some (li_stage_path li)" and "li_stage_path li \<noteq> parent"
    by auto
qed

section \<open>The normal transition\<close>

lemma normal_directive: "''apply_intended_acknowledge'' = DIRECTIVES ! 0"
  by (simp add: DIRECTIVES_def)

lemma normal_transition_iff:
  "normal_transition s e p = Inr t \<longleftrightarrow> (\<exists>c k c'. cell_ok c \<and> s = state_of c \<and> request_ok e p 0 None
    \<and> cas_cell (e = version_of c) p 0 None c = Inr (k, c') \<and> t = transition_of c e p 0 None k c')"
proof -
  have index: "i = 0" if "request_ok e p i None" "DIRECTIVES ! 0 = DIRECTIVES ! i" for i
    using that directives nth_eq_iff_index_eq [of DIRECTIVES 0 i] by (simp add: request_ok_def)
  show ?thesis
    unfolding normal_transition_def liftE_eq_Inr normal_directive step_exact
    using index by metis
qed

definition stage_row :: "cas_transition \<Rightarrow> nat" where
  "stage_row t = (if ct_state_changed t then 2 else if ct_outcome t = ''conflict_no_change'' then 0 else 1)"

lemma normal_transitionD:
  assumes "normal_transition s e p = Inr t"
  shows "ct_before_state t = s" and "ct_expected_state_version_sha256 t = e" and "ct_proposed_payload t = p"
    and "int (length p) \<le> MAX_PAYLOAD_BYTES_STAGE" and "is_upper_hex64 (ct_transition_sha256 t)"
    and "row_for_transition t = Inr (stage_row t, OUTCOME_ROWS_STAGE ! stage_row t)"
    and "validated_transition (built_identity t) t = Inr t"
proof -
  from assms obtain c k c' where c: "cell_ok c" "s = state_of c" "request_ok e p 0 None"
    "cas_cell (e = version_of c) p 0 None c = Inr (k, c')" "t = transition_of c e p 0 None k c'"
    unfolding normal_transition_iff by blast
  then have k: "k = 0 \<or> k = 1 \<or> k = 2" by (auto simp: cas_cell_def split: if_splits)
  show "ct_before_state t = s" "ct_expected_state_version_sha256 t = e" "ct_proposed_payload t = p"
    "is_upper_hex64 (ct_transition_sha256 t)"
    using c(2,5) by simp_all
  show "int (length p) \<le> MAX_PAYLOAD_BYTES_STAGE"
    using c(3) by (simp add: request_ok_def MAX_PAYLOAD_BYTES_def MAX_PAYLOAD_BYTES_STAGE_def)
  show "row_for_transition t = Inr (stage_row t, OUTCOME_ROWS_STAGE ! stage_row t)"
    using k c(5) by (auto simp: row_for_transition_def stage_row_def OUTCOMES_def OUTCOME_ROWS_STAGE_def
      outcome_row_of_def numeral_2_eq_2)
  have "validate_transition (built_identity t) t = Inr ()" using transition_valid c by simp
  with assms c(2,5) show "validated_transition (built_identity t) t = Inr t"
    by (simp add: validated_transition_def snapshot_transition_def)
qed

lemma stage_rows [simp]:
  "stage_row t < 3" "orow_has_stage (OUTCOME_ROWS_STAGE ! stage_row t) \<longleftrightarrow> ct_state_changed t"
  by (simp_all add: stage_row_def OUTCOME_ROWS_STAGE_def outcome_row_of_def)

section \<open>Counts and the hash of an operation\<close>

definition staged :: "cas_transition \<Rightarrow> bytes option" where
  "staged t = (if ct_state_changed t then Some (ct_proposed_payload t) else None)"

definition reads_of :: "cas_transition \<Rightarrow> int" where
  "reads_of t = (if ct_state_changed t then chunks (int (length (ct_proposed_payload t))) + 1 else 0)"

definition writes_ok :: "cas_transition \<Rightarrow> int \<Rightarrow> bool" where
  "writes_ok t writes \<longleftrightarrow>
     (if ct_state_changed t
      then chunks (int (length (ct_proposed_payload t))) \<le> writes \<and> writes \<le> int (length (ct_proposed_payload t))
      else writes = 0)"

lemma chunks_bounds:
  assumes "0 \<le> n" "n \<le> MAX_PAYLOAD_BYTES_STAGE"
  shows "0 \<le> chunks n" and "chunks n \<le> 16"
  using assms by (simp_all add: chunks_def IO_CHUNK_BYTES_def MAX_PAYLOAD_BYTES_STAGE_def)

lemma checked_counts_iff:
  assumes "int (length (ct_proposed_payload t)) \<le> MAX_PAYLOAD_BYTES_STAGE"
  shows "checked_counts (ct_state_changed t) (ct_proposed_payload t) writes = Inr pr \<longleftrightarrow>
    writes_ok t writes \<and> pr = (staged t, reads_of t)"
proof -
  have "chunks 0 = 0" by (simp add: chunks_def IO_CHUNK_BYTES_def)
  with assms show ?thesis
    by (cases pr) (auto simp: checked_counts_def writes_ok_def staged_def reads_of_def bindE_eq_Inr Let_def
      MAX_WRITE_CALLS_def MAX_PAYLOAD_BYTES_STAGE_def split: if_splits)
qed

definition operation_bytes :: "bytes \<Rightarrow> bytes \<Rightarrow> cas_transition \<Rightarrow> int \<Rightarrow> bytes" where
  "operation_bytes parent nonce t writes =
     D_OPERATION @ be_bytes 4 (length parent) @ parent @ nonce @ unhex (ct_transition_sha256 t)
     @ [of_nat (stage_row t + 1), if ct_state_changed t then 2 else 1, if ct_state_changed t then 2 else 1]
     @ optional_bytes (staged t) @ be_bytes 8 (nat writes) @ be_bytes 8 (nat (reads_of t))"

lemma finish_hash_ok [simp]: "finish_hash m = Inr (sha256_hex m)"
  by (simp add: finish_hash_def)

lemma operation_sha256_ok:
  assumes parent: "int (length parent) \<le> MAX_STAGING_PARENT_UTF8_BYTES" and nonce: "length nonce = 16"
    and hash: "is_upper_hex64 (ct_transition_sha256 t)"
    and payload: "int (length (ct_proposed_payload t)) \<le> MAX_PAYLOAD_BYTES_STAGE" and writes: "writes_ok t writes"
  shows "operation_sha256 parent nonce (ct_transition_sha256 t) (int (stage_row t) + 1)
      (if ct_state_changed t then 2 else 1) (if ct_state_changed t then 2 else 1) (staged t) writes (reads_of t)
    = Inr (sha256_hex (operation_bytes parent nonce t writes))"
proof -
  have n: "0 \<le> chunks (int (length (ct_proposed_payload t)))" "chunks (int (length (ct_proposed_payload t))) \<le> 16"
    using chunks_bounds payload by simp_all
  then have w: "0 \<le> writes" "writes \<le> 18446744073709551615" "0 \<le> reads_of t" "reads_of t \<le> 18446744073709551615"
    using writes payload by (auto simp: writes_ok_def reads_of_def MAX_PAYLOAD_BYTES_STAGE_def split: if_splits)
  have size: "u32_stage (int (length parent)) = Inr (be_bytes 4 (length parent))"
    using parent by (simp add: u32_stage_def MAX_STAGING_PARENT_UTF8_BYTES_def)
  have counts: "u64_stage writes = Inr (be_bytes 8 (nat writes))" "u64_stage (reads_of t) = Inr (be_bytes 8 (nat (reads_of t)))"
    using w by (simp_all add: u64_stage_def)
  have raw: "u64_stage (int (length (ct_proposed_payload t))) = Inr (be_bytes 8 (length (ct_proposed_payload t)))"
    using payload by (simp add: u64_stage_def MAX_PAYLOAD_BYTES_STAGE_def)
  have row: "1 + int (stage_row t) \<le> 3" using stage_rows(1) [of t] by linarith
  have "operation_preimage parent nonce (ct_transition_sha256 t)
      [int (stage_row t) + 1, if ct_state_changed t then 2 else 1, if ct_state_changed t then 2 else 1] (staged t) writes (reads_of t)
    = Inr (operation_bytes parent nonce t writes)"
    using size counts raw by (simp add: operation_preimage_def operation_bytes_def staged_def optional_bytes_def
      frame_bytes_def add.commute)
  moreover have "1 \<le> (if ct_state_changed t then 2 else 1 :: int)" "(if ct_state_changed t then 2 else 1 :: int) \<le> 2"
    "\<not> (case staged t of None \<Rightarrow> False | Some raw \<Rightarrow> int (length raw) > MAX_PAYLOAD_BYTES_STAGE)"
    using payload by (simp_all add: staged_def)
  ultimately show ?thesis
    using parent nonce hash w(1,3) row
    by (simp add: operation_sha256_def COLLISION_NONCE_BYTES_def split del: if_split)
qed

section \<open>The result in closed form\<close>

definition published :: "lexical_inputs \<Rightarrow> cas_transition \<Rightarrow> int \<Rightarrow> publish_result" where
  "published li t writes = result_fields li t (OUTCOME_ROWS_STAGE ! stage_row t) (staged t) writes (reads_of t)
     (sha256_hex (operation_bytes (li_parent_bytes li) (li_nonce_bytes li) t writes))"

lemma published_fields [simp]:
  "pr_staging_parent (published li t writes) = li_parent li"
  "pr_collision_nonce (published li t writes) = li_nonce li"
  "pr_stage_path (published li t writes) = li_stage_path li"
  "pr_cas_transition (published li t writes) = t"
  "pr_cas_gate_status (published li t writes) = orow_gate (OUTCOME_ROWS_STAGE ! stage_row t)"
  "pr_stage_payload_bytes (published li t writes) = map_option (\<lambda>raw. int (length raw)) (staged t)"
  "pr_stage_payload_sha256 (published li t writes) = map_option sha256_hex (staged t)"
  "pr_write_call_count (published li t writes) = writes"
  "pr_read_call_count (published li t writes) = reads_of t"
  "pr_operation_sha256 (published li t writes) =
     sha256_hex (operation_bytes (li_parent_bytes li) (li_nonce_bytes li) t writes)"
  "length (pr_reason_codes (published li t writes)) = 1"
  by (simp_all add: published_def result_fields_def)

lemma derive_stage_iff:
  assumes lex: "validate_lexical_inputs h parent nonce = Inr li" and t: "normal_transition s e p = Inr t"
    and host: "host_flags_ok h"
  shows "derive_result_values h (built_identity t) parent nonce t writes = Inr v \<longleftrightarrow>
    writes_ok t writes \<and> v = published li t writes"
proof -
  note lexs = lexicalD [OF lex] and ts = normal_transitionD [OF t]
  have len: "int (length (ct_proposed_payload t)) \<le> MAX_PAYLOAD_BYTES_STAGE" using ts by simp
  have reads: "\<not> reads_of t > MAX_READ_CALLS"
    using chunks_bounds(2) [OF _ len] by (simp add: reads_of_def MAX_READ_CALLS_def)
  have hash: "(case staged t of None \<Rightarrow> Inr () | Some raw \<Rightarrow> bindE (finish_hash raw) (\<lambda>_. Inr ())) = (Inr () :: (publisher_error, unit) res)"
    by (simp add: staged_def)
  have start: "derive_result_values h (built_identity t) parent nonce t writes =
    bindE (checked_counts (ct_state_changed t) (ct_proposed_payload t) writes) (\<lambda>(payload, reads).
     bindE (case payload of None \<Rightarrow> Inr () | Some raw \<Rightarrow> bindE (finish_hash raw) (\<lambda>_. Inr ())) (\<lambda>_.
     bindE (guardE (reads > MAX_READ_CALLS) ''read_call_count exceeds its bound'') (\<lambda>_.
     bindE (operation_sha256 (li_parent_bytes li) (li_nonce_bytes li) (ct_transition_sha256 t)
       (int (stage_row t) + 1) (if ct_state_changed t then 2 else 1) (if ct_state_changed t then 2 else 1)
       payload writes reads) (\<lambda>operation.
     Inr (result_fields li t (OUTCOME_ROWS_STAGE ! stage_row t) payload writes reads operation)))))"
    unfolding derive_result_values_def using host lex ts(6,7) by simp
  have ok: "?thesis" if "writes_ok t writes"
    using that checked_counts_iff [OF len, of writes, THEN iffD2, OF conjI, OF that refl]
      operation_sha256_ok [OF lexs(4,7) ts(5) len that] reads hash
    by (simp add: start published_def eq_commute [of v] split del: if_split)
  moreover have "derive_result_values h (built_identity t) parent nonce t writes \<noteq> Inr v" if "\<not> writes_ok t writes"
    using that checked_counts_iff [OF len, of writes] by (auto simp: start bindE_eq_Inr)
  ultimately show ?thesis by blast
qed

lemma mk_published:
  assumes lex: "validate_lexical_inputs h parent nonce = Inr li" and t: "normal_transition s e p = Inr t"
    and host: "host_flags_ok h" and writes: "writes_ok t writes"
  shows "validate_result h (built_identity t) (published li t writes) = Inr ()"
    and "mk_publish_result h (built_identity t) (published li t writes) = Inr (published li t writes)"
proof -
  have types: "validate_result_field_types (published li t writes) = Inr ()"
    by (simp add: validate_result_field_types_def staged_def require_optional_hash_def)
  from derive_stage_iff [OF lex t host, of writes "published li t writes"] writes
  have "derive_result_values h (built_identity t) parent nonce t writes = Inr (published li t writes)" by simp
  with types lexicalD(1,2) [OF lex] host
  show valid: "validate_result h (built_identity t) (published li t writes) = Inr ()"
    by (simp add: validate_result_def)
  show "mk_publish_result h (built_identity t) (published li t writes) = Inr (published li t writes)"
    by (simp add: mk_publish_result_def valid)
qed

end
