(* ===== verification/StagingFacts.thy ===== *)
theory StagingFacts
  imports Staging PublisherFacts
begin

text \<open>
  Reasoning about computations that call the system: weakest preconditions with one postcondition for
  returns and one for errors, and a rule for each of the two loops, from which every property of a
  publication is read off. Nothing is assumed of the system here.
\<close>

section \<open>Weakest preconditions\<close>

definition wp :: "('w, 'a) io \<Rightarrow> ('a \<Rightarrow> 'w \<Rightarrow> bool) \<Rightarrow> ('w \<Rightarrow> bool) \<Rightarrow> 'w \<Rightarrow> bool" where
  "wp m Q E w = (case m w of (Inl _, w') \<Rightarrow> E w' | (Inr x, w') \<Rightarrow> Q x w')"

lemma wp_bind [io_simps]: "wp (bindIO m f) Q E w = wp m (\<lambda>x. wp (f x) Q E) E w"
  by (simp add: wp_def bindIO_def split: prod.splits sum.splits)

lemma wp_pure [io_simps]: "wp (pureIO r) Q E w = (case r of Inl _ \<Rightarrow> E w | Inr x \<Rightarrow> Q x w)"
  by (simp add: wp_def pureIO_def)

lemma case_guardE [io_simps]: "(case guardE bad e of Inl _ \<Rightarrow> a | Inr x \<Rightarrow> f x) = (if bad then a else f ())"
  by (simp add: guardE_def)

lemma wp_call [io_simps]:
  "wp (callIO c message) Q E w = (case c w of (None, w') \<Rightarrow> E w' | (Some x, w') \<Rightarrow> Q x w')"
  by (simp add: wp_def callIO_def split: prod.splits option.splits)

lemma wp_mono:
  assumes "wp m Q E w" and "\<And>x w'. Q x w' \<Longrightarrow> Q' x w'" and "\<And>w'. E w' \<Longrightarrow> E' w'"
  shows "wp m Q' E' w"
  using assms by (auto simp: wp_def split: prod.splits sum.splits)

lemma wp_step: "wp m P E w \<Longrightarrow> (\<And>x w'. P x w' \<Longrightarrow> wp (f x) Q E w') \<Longrightarrow> wp (bindIO m f) Q E w"
  unfolding wp_bind by (erule wp_mono)

lemma wp_outcome: "wp m Q E w \<Longrightarrow> m w = (r, w') \<Longrightarrow> (case r of Inl _ \<Rightarrow> E w' | Inr x \<Rightarrow> Q x w')"
  by (simp add: wp_def split: sum.splits)

lemma wp_open [io_simps]:
  "wp (exclusive_open h os path) Q E w = (case os_open os path (OPEN_FLAGS h) OPEN_MODE w of
     (Opened fd, w') \<Rightarrow> if fd < 0 then E w' else Q fd w' | (_, w') \<Rightarrow> E w')"
  by (simp add: wp_def exclusive_open_def split: prod.splits open_answer.splits)

lemma wp_with_descriptor [io_simps]:
  "wp (with_descriptor os fd body) Q E w =
     wp body (\<lambda>x w1. case os_close os fd w1 of (Closed, w2) \<Rightarrow> Q x w2 | (_, w2) \<Rightarrow> E w2)
       (\<lambda>w1. E (snd (os_close os fd w1))) w"
  by (simp add: wp_def with_descriptor_def split: prod.splits sum.splits close_answer.splits)

section \<open>The loops\<close>

lemma request_simps [simp]:
  "length (request payload offset) = request_size payload offset"
  "offset < length payload \<Longrightarrow> 1 \<le> request_size payload offset"
  "request_size payload offset \<le> length payload - offset"
  "request_size payload offset \<le> 65536"
  by (auto simp: request_def request_size_def IO_CHUNK_BYTES_def)

lemma write_loop_rule:
  assumes start: "I offset calls w"
    and stop: "\<And>offset calls w. I offset calls w \<Longrightarrow> offset < length payload \<Longrightarrow> calls \<ge> MAX_WRITE_CALLS \<Longrightarrow> E w"
    and step: "\<And>offset calls w r w'. I offset calls w \<Longrightarrow> offset < length payload \<Longrightarrow>
      os_write os fd (request payload offset) w = (r, w') \<Longrightarrow>
      (case r of None \<Rightarrow> E w'
       | Some n \<Rightarrow> if n < 1 \<or> n > int (request_size payload offset) then E w' else I (offset + nat n) (calls + 1) w')"
  shows "wp (write_loop os fd payload offset calls) (\<lambda>x w'. \<exists>k. length payload \<le> k \<and> I k x w') E w"
  using start
proof (induction "length payload - offset" arbitrary: offset calls w rule: less_induct)
  case less
  show ?case
  proof (cases "offset < length payload \<and> calls < MAX_WRITE_CALLS")
    case False
    with less.prems stop show ?thesis
      by (subst write_loop.simps [abs_def]) (auto simp: wp_def write_loop.simps not_less)
  next
    case True
    obtain r w' where call: "os_write os fd (request payload offset) w = (r, w')" by fastforce
    note stepped = step [OF less.prems conjunct1 [OF True] call]
    show ?thesis
    proof (cases r)
      case None
      with True call stepped show ?thesis by (simp add: wp_def write_loop.simps [of os fd payload offset])
    next
      case (Some n)
      show ?thesis
      proof (cases "n < 1 \<or> n > int (request_size payload offset)")
        case bad: True
        with True Some call stepped show ?thesis by (auto simp: wp_def write_loop.simps [of os fd payload offset])
      next
        case good: False
        then have "0 < nat n" by simp
        with True have "length payload - (offset + nat n) < length payload - offset" by linarith
        from less.hyps [OF this] stepped Some good
        have "wp (write_loop os fd payload (offset + nat n) (calls + 1))
          (\<lambda>x w'. \<exists>k. length payload \<le> k \<and> I k x w') E w'" by simp
        with True Some call good show ?thesis by (simp add: wp_def write_loop.simps [of os fd payload offset])
      qed
    qed
  qed
qed

lemma read_loop_rule:
  assumes start: "I offset calls digest w"
    and step: "\<And>offset calls digest w r w'. I offset calls digest w \<Longrightarrow> offset < length payload \<Longrightarrow>
      os_read os fd (request_size payload offset) w = (r, w') \<Longrightarrow>
      (case r of None \<Rightarrow> E w'
       | Some raw \<Rightarrow> if calls + 1 > MAX_READ_CALLS \<or> raw \<noteq> request payload offset then E w'
           else I (offset + request_size payload offset) (calls + 1) (digest @ raw) w')"
  shows "wp (read_loop os fd payload offset calls digest)
    (\<lambda>(x, d) w'. \<exists>k. length payload \<le> k \<and> I k x d w') E w"
  using start
proof (induction "length payload - offset" arbitrary: offset calls digest w rule: less_induct)
  case less
  show ?case
  proof (cases "offset < length payload")
    case False
    with less.prems show ?thesis by (auto simp: wp_def read_loop.simps [of os fd payload offset] not_less)
  next
    case True
    obtain r w' where call: "os_read os fd (request_size payload offset) w = (r, w')" by fastforce
    note stepped = step [OF less.prems True call]
    show ?thesis
    proof (cases r)
      case None
      with True call stepped show ?thesis by (simp add: wp_def read_loop.simps [of os fd payload offset])
    next
      case (Some raw)
      show ?thesis
      proof (cases "calls + 1 > MAX_READ_CALLS \<or> raw \<noteq> request payload offset")
        case bad: True
        with True Some call stepped show ?thesis by (auto simp: wp_def read_loop.simps [of os fd payload offset])
      next
        case good: False
        have "length payload - (offset + request_size payload offset) < length payload - offset"
          using True request_simps(2) [OF True] by linarith
        from less.hyps [OF this] stepped Some good
        have "wp (read_loop os fd payload (offset + request_size payload offset) (calls + 1) (digest @ raw))
          (\<lambda>(x, d) w'. \<exists>k. length payload \<le> k \<and> I k x d w') E w'" by simp
        with True Some call good show ?thesis by (auto simp: wp_def read_loop.simps [of os fd payload offset])
      qed
    qed
  qed
qed

section \<open>Counts of calls\<close>

lemma chunks_step:
  assumes "1 \<le> r" "r \<le> 65536"
  shows "chunks (65536 * x + r) = x + 1"
proof -
  have "(65536 * x + r + 65535) div 65536 = x + 1"
    using assms div_mult_self1 [of 65536 "r + 65535" x] by (simp add: algebra_simps)
  then show ?thesis by (simp add: chunks_def IO_CHUNK_BYTES_def algebra_simps)
qed

lemma chunks_0 [simp]: "chunks 0 = 0"
  by (simp add: chunks_def IO_CHUNK_BYTES_def)

lemma chunks_le: "n \<le> 65536 * x \<Longrightarrow> chunks n \<le> x"
  by (simp add: chunks_def IO_CHUNK_BYTES_def)

text \<open>
  A property \<open>J\<close> of the offset, the calls so far and the system that every call keeps, or leaves for
  \<open>E\<close> in an error, holds at the end, where the number of writes is within its bounds.
\<close>

lemma write_payload_rule:
  assumes start: "J 0 0 w"
    and stop: "\<And>offset calls w. J offset calls w \<Longrightarrow> offset < length payload \<Longrightarrow> calls \<le> int offset \<Longrightarrow>
      calls \<ge> MAX_WRITE_CALLS \<Longrightarrow> E w"
    and step: "\<And>offset calls w r w'. J offset calls w \<Longrightarrow> offset < length payload \<Longrightarrow> calls \<le> int offset \<Longrightarrow>
      os_write os fd (request payload offset) w = (r, w') \<Longrightarrow>
      (case r of None \<Rightarrow> E w'
       | Some n \<Rightarrow> if n < 1 \<or> n > int (request_size payload offset) then E w' else J (offset + nat n) (calls + 1) w')"
  shows "wp (write_payload os fd payload) (\<lambda>x w'. chunks (int (length payload)) \<le> x \<and> x \<le> int (length payload)
    \<and> J (length payload) x w') E w"
proof -
  define I where "I offset calls v \<longleftrightarrow> J offset calls v \<and> offset \<le> length payload \<and> calls \<le> int offset
    \<and> int offset \<le> 65536 * calls" for offset calls v
  have "wp (write_loop os fd payload 0 0) (\<lambda>x w'. \<exists>k. length payload \<le> k \<and> I k x w') E w"
  proof (rule write_loop_rule)
    show "I 0 0 w" using start by (simp add: I_def)
  next
    fix offset calls v
    assume "I offset calls v" "offset < length payload" "calls \<ge> MAX_WRITE_CALLS"
    then show "E v" using stop by (auto simp: I_def)
  next
    fix offset calls v r v'
    assume I: "I offset calls v" and less: "offset < length payload"
      and call: "os_write os fd (request payload offset) v = (r, v')"
    have size: "request_size payload offset \<le> length payload - offset" "request_size payload offset \<le> 65536" by simp_all
    from I have "J offset calls v" "calls \<le> int offset" by (simp_all add: I_def)
    note stepped = step [OF this(1) less this(2) call]
    have kept: "I (offset + nat n) (calls + 1) v'"
      if "J (offset + nat n) (calls + 1) v'" "1 \<le> n" "n \<le> int (request_size payload offset)" for n
    proof -
      have bounds: "calls \<le> int offset" "int offset \<le> 65536 * calls" using I unfolding I_def by blast+
      have "offset + request_size payload offset \<le> length payload" using size(1) less by linarith
      moreover have n: "nat n \<le> request_size payload offset" "int (nat n) = n" "nat n \<le> 65536"
        using that(2,3) size(2) by linarith+
      ultimately have fits: "offset + nat n \<le> length payload" by linarith
      have small: "n \<le> 65536" using n(2,3) by linarith
      have "calls + 1 \<le> int (offset + nat n)" "int (offset + nat n) \<le> 65536 * (calls + 1)"
        using bounds that(2) small by (simp_all add: n(2) distrib_left)
      with fits show ?thesis using that(1) unfolding I_def by blast
    qed
    show "case r of None \<Rightarrow> E v'
      | Some n \<Rightarrow> if n < 1 \<or> n > int (request_size payload offset) then E v' else I (offset + nat n) (calls + 1) v'"
      using stepped kept by (auto split: option.splits if_splits)
  qed
  then show ?thesis
    unfolding write_payload_def by (rule wp_mono) (auto simp: I_def dest: chunks_le intro: antisym)
qed

lemma readback_rule:
  assumes seek: "case os_lseek os fd 0 w of (None, w') \<Rightarrow> E w' | (Some m, w') \<Rightarrow> if m \<noteq> 0 then E w' else J 0 0 w'"
    and step: "\<And>offset calls w r w'. J offset calls w \<Longrightarrow> offset < length payload \<Longrightarrow> calls = chunks (int offset) \<Longrightarrow>
      os_read os fd (request_size payload offset) w = (r, w') \<Longrightarrow>
      (case r of None \<Rightarrow> E w'
       | Some raw \<Rightarrow> if calls + 1 > MAX_READ_CALLS \<or> raw \<noteq> request payload offset then E w'
           else J (offset + request_size payload offset) (calls + 1) w')"
    and eof: "\<And>calls w r w'. J (length payload) calls w \<Longrightarrow> calls = chunks (int (length payload)) \<Longrightarrow>
      os_read os fd 1 w = (r, w') \<Longrightarrow>
      (case r of None \<Rightarrow> E w' | Some raw \<Rightarrow> if calls + 1 > MAX_READ_CALLS \<or> raw \<noteq> [] then E w' else K w')"
  shows "wp (readback_payload os fd payload)
    (\<lambda>(x, sha) w'. x = chunks (int (length payload)) + 1 \<and> sha = sha256_hex payload \<and> K w') E w"
proof -
  define I where "I offset calls digest v \<longleftrightarrow> J offset calls v \<and> offset \<le> length payload \<and> digest = take offset payload
    \<and> calls = chunks (int offset) \<and> (offset < length payload \<longrightarrow> int offset = 65536 * calls)"
    for offset calls digest v
  have loop: "wp (read_loop os fd payload 0 0 []) (\<lambda>(x, d) w'. \<exists>k. length payload \<le> k \<and> I k x d w') E v"
    if "J 0 0 v" for v
  proof (rule read_loop_rule)
    show "I 0 0 [] v" using that by (simp add: I_def)
  next
    fix offset calls digest v r v'
    assume I: "I offset calls digest v" and less: "offset < length payload"
      and call: "os_read os fd (request_size payload offset) v = (r, v')"
    from I less have J: "J offset calls v" "calls = chunks (int offset)" "int offset = 65536 * calls"
      unfolding I_def by blast+
    note stepped = step [OF J(1) less J(2) call]
    have "chunks (65536 * calls + int (request_size payload offset)) = calls + 1"
      using request_simps(2) [OF less] by (intro chunks_step) simp_all
    then have next_calls: "chunks (int (offset + request_size payload offset)) = calls + 1"
      unfolding of_nat_add J(3) .
    have full: "request_size payload offset = 65536 \<or> offset + request_size payload offset = length payload"
      using less by (auto simp: request_size_def IO_CHUNK_BYTES_def min_def)
    then have kept: "I (offset + request_size payload offset) (calls + 1) (digest @ request payload offset) v'"
      if "J (offset + request_size payload offset) (calls + 1) v'"
    proof -
      have "offset + request_size payload offset \<le> length payload" using request_simps(3) [of payload offset] less by linarith
      moreover have "digest @ request payload offset = take (offset + request_size payload offset) payload"
        using I by (simp add: I_def request_def take_add)
      moreover have "int (offset + request_size payload offset) = 65536 * (calls + 1)"
        if "offset + request_size payload offset < length payload"
        using full that J(3) by simp
      ultimately show ?thesis using that next_calls [symmetric] unfolding I_def by blast
    qed
    show "case r of None \<Rightarrow> E v'
      | Some raw \<Rightarrow> if calls + 1 > MAX_READ_CALLS \<or> raw \<noteq> request payload offset then E v'
          else I (offset + request_size payload offset) (calls + 1) (digest @ raw) v'"
      using stepped kept by (auto split: option.splits if_splits)
  qed
  have "wp (bindIO (read_loop os fd payload 0 0 []) (\<lambda>(calls, digest).
     bindIO (callIO (os_read os fd 1) ''stage EOF probe failed'') (\<lambda>eof.
     bindIO (pureIO (guardE (calls + 1 > MAX_READ_CALLS) ''read call bound was exceeded'')) (\<lambda>_.
     bindIO (pureIO (guardE (eof \<noteq> []) ''stage EOF probe detected growth or an invalid return'')) (\<lambda>_.
     bindIO (pureIO (finish_hash digest)) (\<lambda>sha.
     pureIO (Inr (calls + 1, sha))))))))
    (\<lambda>(x, sha) w'. x = chunks (int (length payload)) + 1 \<and> sha = sha256_hex payload \<and> K w') E v"
    if "J 0 0 v" for v
    unfolding wp_bind
  proof (rule wp_mono [OF loop [OF that]], goal_cases)
    case (1 x v)
    obtain calls digest where x: "x = (calls, digest)" by (cases x)
    from 1 x have J: "J (length payload) calls v" "calls = chunks (int (length payload))" "digest = payload"
      by (auto simp: I_def)
    obtain r v' where call: "os_read os fd 1 v = (r, v')" by fastforce
    from eof [OF J(1,2) call] J(2,3) call show ?case
      by (auto simp: x io_simps split: option.splits if_splits)
  qed simp
  with seek show ?thesis
    unfolding readback_payload_def by (auto simp: io_simps split: option.splits if_splits prod.splits)
qed

end
