(* ===== verification/StagingContract.thy ===== *)
theory StagingContract
  imports StagingFacts
begin

text \<open>
  What is known of a publication from what is known of the calls it makes, as a locale: predicates on
  the state of the system for each point of the program, which the calls carry from one point to the
  next, and \<open>E\<close> for the state any error leaves. Its rule for the staging needs no more. Instances are
  the trivial one, which gives the values of a publication on any system, and in \<^verbatim>\<open>StagingProps\<close> the
  counting of calls and the files of a system.
\<close>

section \<open>The contract\<close>

locale staging =
  fixes h :: host and os :: "'w os_calls" and path :: pystr and payload :: bytes
    and E :: "'w \<Rightarrow> bool"
    and at_start :: "'w \<Rightarrow> bool"
    and at_open :: "int \<Rightarrow> 'w \<Rightarrow> bool"
    and writing :: "int \<Rightarrow> nat \<Rightarrow> int \<Rightarrow> 'w \<Rightarrow> bool"
    and written :: "int \<Rightarrow> int \<Rightarrow> 'w \<Rightarrow> bool"
    and reading :: "int \<Rightarrow> int \<Rightarrow> nat \<Rightarrow> int \<Rightarrow> 'w \<Rightarrow> bool"
    and checked :: "int \<Rightarrow> int \<Rightarrow> 'w \<Rightarrow> bool"
    and at_end :: "int \<Rightarrow> 'w \<Rightarrow> bool"
  assumes stat_start: "at_start w \<Longrightarrow> os_stat os p w = (sr, w') \<Longrightarrow> E w' \<and> at_start w'"
    and opened: "at_start w \<Longrightarrow> os_open os path (OPEN_FLAGS h) OPEN_MODE w = (opr, w') \<Longrightarrow>
      E w' \<and> (opr = Opened fd \<longrightarrow> at_open fd w')"
    and fstat_start: "at_open fd w \<Longrightarrow> os_fstat os fd w = (sr, w') \<Longrightarrow> E w' \<and> writing fd 0 0 w'"
    and writing_E: "writing fd offset calls w \<Longrightarrow> E w"
    and write_step: "writing fd offset calls w \<Longrightarrow> offset < length payload \<Longrightarrow> calls \<le> int offset \<Longrightarrow>
      os_write os fd (request payload offset) w = (wr, w') \<Longrightarrow>
      E w' \<and> (wr = Some n \<longrightarrow> 1 \<le> n \<longrightarrow> n \<le> int (request_size payload offset) \<longrightarrow>
        writing fd (offset + nat n) (calls + 1) w')"
    and fstat_written: "writing fd (length payload) x w \<Longrightarrow> os_fstat os fd w = (sr, w') \<Longrightarrow> E w' \<and> written fd x w'"
    and seek: "written fd x w \<Longrightarrow> os_lseek os fd 0 w = (lr, w') \<Longrightarrow>
      E w' \<and> (lr = Some 0 \<longrightarrow> reading fd x 0 0 w')"
    and read_step: "reading fd x offset calls w \<Longrightarrow> offset < length payload \<Longrightarrow> calls = chunks (int offset) \<Longrightarrow>
      os_read os fd (request_size payload offset) w = (rr, w') \<Longrightarrow>
      E w' \<and> (rr = Some (request payload offset) \<longrightarrow>
        reading fd x (offset + request_size payload offset) (calls + 1) w')"
    and eof: "reading fd x (length payload) (chunks (int (length payload))) w \<Longrightarrow> os_read os fd 1 w = (rr, w') \<Longrightarrow>
      E w' \<and> (rr = Some [] \<longrightarrow> checked fd x w')"
    and fstat_checked: "checked fd x w \<Longrightarrow> os_fstat os fd w = (sr, w') \<Longrightarrow> E w' \<and> checked fd x w'"
    and close_step: "E w \<Longrightarrow> os_close os fd w = (cr, w') \<Longrightarrow> E w'"
    and closed: "checked fd x w \<Longrightarrow> os_close os fd w = (cr, w') \<Longrightarrow> at_end x w'"
    and stat_end: "at_end x w \<Longrightarrow> os_stat os p w = (sr, w') \<Longrightarrow> E w' \<and> at_end x w'"
begin

lemma written_rule:
  "writing fd 0 0 w \<Longrightarrow> wp (write_payload os fd payload)
    (\<lambda>x w'. chunks (int (length payload)) \<le> x \<and> x \<le> int (length payload) \<and> writing fd (length payload) x w') E w"
  by (rule write_payload_rule) (auto dest: writing_E write_step split: option.splits)

lemma checked_rule:
  assumes "written fd x w"
  shows "wp (readback_payload os fd payload)
    (\<lambda>(y, sha) w'. y = chunks (int (length payload)) + 1 \<and> sha = sha256_hex payload \<and> E w' \<and> checked fd x w') E w"
proof (rule readback_rule [where J = "reading fd x"])
  show "case os_lseek os fd 0 w of (None, w') \<Rightarrow> E w' | (Some m, w') \<Rightarrow> if m \<noteq> 0 then E w' else reading fd x 0 0 w'"
    using seek [OF assms] by (auto split: prod.splits option.splits)
next
  fix offset calls v r v'
  assume "reading fd x offset calls v" "offset < length payload" "calls = chunks (int offset)"
    "os_read os fd (request_size payload offset) v = (r, v')"
  from read_step [OF this] show "case r of None \<Rightarrow> E v'
    | Some raw \<Rightarrow> if calls + 1 > MAX_READ_CALLS \<or> raw \<noteq> request payload offset then E v'
        else reading fd x (offset + request_size payload offset) (calls + 1) v'"
    by (auto split: option.splits)
next
  fix calls v r v'
  assume "reading fd x (length payload) calls v" "calls = chunks (int (length payload))" "os_read os fd 1 v = (r, v')"
  with eof [of fd x v r v'] show "case r of None \<Rightarrow> E v'
    | Some raw \<Rightarrow> if calls + 1 > MAX_READ_CALLS \<or> raw \<noteq> [] then E v' else E v' \<and> checked fd x v'"
    by (auto split: option.splits)
qed

lemma fstat_rule:
  assumes "\<And>r w'. os_fstat os fd w = (r, w') \<Longrightarrow> E w' \<and> Q w'"
  shows "wp (descriptor_stat os fd context) (\<lambda>_ w'. E w' \<and> Q w') E w"
  using assms by (auto simp: descriptor_stat_def io_simps split: prod.splits option.splits)

lemma stat_rule:
  assumes "\<And>r w'. os_stat os p w = (r, w') \<Longrightarrow> E w' \<and> Q w'"
  shows "wp (nofollow_stat os p context) (\<lambda>_ w'. E w' \<and> Q w') E w"
  using assms by (auto simp: nofollow_stat_def io_simps split: prod.splits option.splits)

lemma pure_step: "E w \<Longrightarrow> (\<And>x. wp (f x) Q E w) \<Longrightarrow> wp (bindIO (pureIO r) f) Q E w"
  by (simp add: io_simps wp_pure split: sum.splits)

lemma body_rule:
  assumes "at_open fd w"
  shows "wp (staged_body os fd payload) (\<lambda>(x, y, sha, f2) w'. chunks (int (length payload)) \<le> x
    \<and> x \<le> int (length payload) \<and> y = chunks (int (length payload)) + 1 \<and> sha = sha256_hex payload
    \<and> E w' \<and> checked fd x w') E w"
  unfolding staged_body_def
  apply (rule wp_step [OF fstat_rule [OF fstat_start [OF assms]]], assumption)
  apply (elim conjE)
  apply (rule pure_step, assumption, (clarify)?)+
  apply (rule wp_step [OF written_rule], assumption)
  apply (elim conjE)
  apply (rule wp_step [OF fstat_rule [OF fstat_written]], assumption, assumption)
  apply (elim conjE)
  apply (rule pure_step, assumption, (clarify)?)+
  apply (rule wp_step [OF checked_rule], assumption, clarify)
  apply (rule wp_step [OF fstat_rule [OF fstat_checked]], assumption, assumption)
  apply (elim conjE)
  apply (rule pure_step, assumption, (clarify)?)+
  apply (simp add: wp_pure)
  done

lemma open_rule:
  assumes "at_start w"
  shows "wp (exclusive_open h os path) (\<lambda>fd w'. E w' \<and> at_open fd w') E w"
  using opened [OF assms] by (auto simp: io_simps split: prod.splits open_answer.splits)

lemma descriptor_rule:
  assumes "at_open fd w"
  shows "wp (with_descriptor os fd (staged_body os fd payload)) (\<lambda>(x, y, sha, f2) w'. chunks (int (length payload)) \<le> x
    \<and> x \<le> int (length payload) \<and> y = chunks (int (length payload)) + 1 \<and> sha = sha256_hex payload
    \<and> E w' \<and> at_end x w') E w"
proof -
  have closing: "E w' \<Longrightarrow> E (snd (os_close os fd w'))" for w'
    using close_step [of w' fd] by (cases "os_close os fd w'") auto
  show ?thesis
    unfolding wp_with_descriptor using body_rule [OF assms]
    by (rule wp_mono) (auto intro: closing close_step closed split: prod.splits close_answer.splits)
qed

lemma stage_rule:
  assumes "at_start w"
  shows "wp (stage_payload h os parent path payload) (\<lambda>(x, y, sha) w'. chunks (int (length payload)) \<le> x
    \<and> x \<le> int (length payload) \<and> y = chunks (int (length payload)) + 1 \<and> sha = sha256_hex payload
    \<and> at_end x w') E w"
  unfolding stage_payload_def
  apply (rule wp_step [OF stat_rule [OF stat_start [OF assms]]], assumption)
  apply (elim conjE)
  apply (rule pure_step, assumption)
  apply (rule wp_step [OF open_rule], assumption)
  apply (elim conjE)
  apply (rule wp_step [OF descriptor_rule], assumption, clarify)
  apply (rule wp_step [OF stat_rule [OF stat_end]], assumption, assumption)
  apply (elim conjE)
  apply (rule pure_step, assumption, clarify?)+
  apply (rule wp_step [OF stat_rule [OF stat_end]], assumption, assumption)
  apply (elim conjE)
  apply (rule pure_step, assumption)+
  apply (simp add: wp_pure)
  done

end

text \<open>On any system at all: the values a staging returns.\<close>

interpretation any: staging h os path payload "\<lambda>_. True" "\<lambda>_. True" "\<lambda>_ _. True" "\<lambda>_ _ _ _. True"
    "\<lambda>_ _ _. True" "\<lambda>_ _ _ _ _. True" "\<lambda>_ _ _. True" "\<lambda>_ _. True"
  for h :: host and os :: "'w os_calls" and path payload
  by unfold_locales simp_all

lemma stage_values:
  assumes "stage_payload h os parent path payload w = (Inr (x, y, sha), w')"
  shows "chunks (int (length payload)) \<le> x" and "x \<le> int (length payload)"
    and "y = chunks (int (length payload)) + 1" and "sha = sha256_hex payload"
  using wp_outcome [OF any.stage_rule [OF TrueI] assms] by simp_all

section \<open>The entry point\<close>

text \<open>A publication is its checks, the transition, and the staging exactly if the transition changes.\<close>

definition publication ::
  "host \<Rightarrow> 'w os_calls \<Rightarrow> bytes \<Rightarrow> lexical_inputs \<Rightarrow> cas_transition \<Rightarrow> ('w, publish_result) io" where
  "publication h os payload li t w =
     (if \<not> ct_state_changed t then (Inr (published li t 0), w)
      else case stage_payload h os (li_parent li) (li_stage_path li) payload w of
        (Inl e, w') \<Rightarrow> (Inl e, w')
      | (Inr (x, y, sha), w') \<Rightarrow> (Inr (published li t x), w'))"

lemma publish_accepted:
  assumes host: "host_flags_ok h" and lex: "validate_lexical_inputs h parent nonce = Inr li"
    and t: "normal_transition s e p = Inr t"
  shows "stage_and_fake_publish h os parent nonce s e p w = publication h os p li t w"
proof -
  note ts = normal_transitionD [OF t] and ps = lexicalD(1,2) [OF lex]
  have derived: "derive_result_values h (built_identity t) parent nonce t x = Inr (published li t x)"
    "mk_publish_result h (built_identity t) (published li t x) = Inr (published li t x)" if "writes_ok t x" for x
    using derive_stage_iff [OF lex t host] mk_published(2) [OF lex t host] that by auto
  have start: "stage_and_fake_publish h os parent nonce s e p w =
    (if \<not> ct_state_changed t then
       bindIO (pureIO (derive_result_values h (built_identity t) parent nonce t 0)) (\<lambda>values.
       pureIO (mk_publish_result h (built_identity t) values))
     else
       bindIO (stage_payload h os parent (li_stage_path li) p) (\<lambda>(write_calls, read_calls, readback_sha256).
       bindIO (pureIO (guardE (read_calls \<noteq> chunks (int (length p)) + 1) ''actual read call count is inconsistent'')) (\<lambda>_.
       bindIO (pureIO (finish_hash p)) (\<lambda>payload_sha256.
       bindIO (pureIO (guardE (readback_sha256 \<noteq> payload_sha256) ''actual staged payload hash is inconsistent'')) (\<lambda>_.
       bindIO (pureIO (derive_result_values h (built_identity t) parent nonce t write_calls)) (\<lambda>values.
       pureIO (mk_publish_result h (built_identity t) values))))))) w"
    by (simp add: stage_and_fake_publish_def bindIO_def pureIO_def host lex t ts(6) ps)
  show ?thesis
  proof (cases "ct_state_changed t")
    case False
    then have "writes_ok t 0" by (simp add: writes_ok_def)
    with False show ?thesis unfolding start by (simp add: publication_def derived bindIO_def pureIO_def)
  next
    case True
    obtain r w' where staged: "stage_payload h os parent (li_stage_path li) p w = (r, w')" by fastforce
    show ?thesis
    proof (cases r)
      case (Inl err)
      with True staged show ?thesis unfolding start by (simp add: publication_def ps bindIO_def)
    next
      case (Inr v)
      obtain x y sha where v: "v = (x, y, sha)" by (cases v)
      note counts = stage_values [OF staged [unfolded Inr v]]
      from counts(1,2) True ts(3) have "writes_ok t x" by (simp add: writes_ok_def)
      with True staged Inr v counts(3,4) show ?thesis
        unfolding start by (simp add: publication_def ps derived bindIO_def pureIO_def guardE_def)
    qed
  qed
qed

lemma publish_refused:
  assumes "\<not> (host_flags_ok h \<and> (\<exists>li. validate_lexical_inputs h parent nonce = Inr li)
    \<and> (\<exists>t. normal_transition s e p = Inr t))"
  shows "\<exists>err. stage_and_fake_publish h os parent nonce s e p w = (Inl err, w)"
proof (cases "validate_frozen_constants_stage h")
  case (Inl err)
  then show ?thesis by (simp add: stage_and_fake_publish_def bindIO_def pureIO_def)
next
  case frozen: (Inr u)
  then have host: "host_flags_ok h" by simp
  show ?thesis
  proof (cases "validate_lexical_inputs h parent nonce")
    case (Inl err)
    with host show ?thesis by (simp add: stage_and_fake_publish_def bindIO_def pureIO_def)
  next
    case (Inr li)
    with assms host obtain err where "normal_transition s e p = Inl err" by (cases "normal_transition s e p") auto
    with host Inr show ?thesis by (simp add: stage_and_fake_publish_def bindIO_def pureIO_def)
  qed
qed

end
