(* ===== verification/StagingCalls.thy ===== *)
theory StagingCalls
  imports StagingContract
begin

text \<open>
  Two instances of the contract of a staging: a system that counts its writes and reads, and the files
  of a system. \<open>posix_files\<close> says of the calls what their documentation says of files and descriptors;
  of a write it says only which file it touches.
\<close>

section \<open>Counting calls\<close>

definition counting :: "'w os_calls \<Rightarrow> ('w \<times> nat \<times> nat) os_calls" where
  "counting os =
     \<lparr>os_stat = (\<lambda>p (w, a, b). case os_stat os p w of (r, w') \<Rightarrow> (r, w', a, b)),
      os_open = (\<lambda>p flags mode (w, a, b). case os_open os p flags mode w of (r, w') \<Rightarrow> (r, w', a, b)),
      os_fstat = (\<lambda>fd (w, a, b). case os_fstat os fd w of (r, w') \<Rightarrow> (r, w', a, b)),
      os_write = (\<lambda>fd bs (w, a, b). case os_write os fd bs w of (r, w') \<Rightarrow> (r, w', a + 1, b)),
      os_lseek = (\<lambda>fd n (w, a, b). case os_lseek os fd n w of (r, w') \<Rightarrow> (r, w', a, b)),
      os_read = (\<lambda>fd n (w, a, b). case os_read os fd n w of (r, w') \<Rightarrow> (r, w', a, b + 1)),
      os_close = (\<lambda>fd (w, a, b). case os_close os fd w of (r, w') \<Rightarrow> (r, w', a, b))\<rparr>"

lemma counting_calls:
  "os_stat (counting os) p (w, a, b) = (sr, w', a', b') \<Longrightarrow> a' = a \<and> b' = b"
  "os_open (counting os) p flags mode (w, a, b) = (opr, w', a', b') \<Longrightarrow> a' = a \<and> b' = b"
  "os_fstat (counting os) fd (w, a, b) = (sr, w', a', b') \<Longrightarrow> a' = a \<and> b' = b"
  "os_write (counting os) fd bs (w, a, b) = (wr, w', a', b') \<Longrightarrow> a' = a + 1 \<and> b' = b"
  "os_lseek (counting os) fd n (w, a, b) = (lr, w', a', b') \<Longrightarrow> a' = a \<and> b' = b"
  "os_read (counting os) fd m (w, a, b) = (rr, w', a', b') \<Longrightarrow> a' = a \<and> b' = b + 1"
  "os_close (counting os) fd (w, a, b) = (cr, w', a', b') \<Longrightarrow> a' = a \<and> b' = b"
  by (auto simp: counting_def split: prod.splits)

lemma chunks_mono: "m \<le> n \<Longrightarrow> chunks m \<le> chunks n"
  by (simp add: chunks_def IO_CHUNK_BYTES_def zdiv_mono1)

lemma chunks_nonneg: "0 \<le> n \<Longrightarrow> 0 \<le> chunks n"
  by (simp add: chunks_def IO_CHUNK_BYTES_def)

interpretation counted: staging h "counting os" path payload
    "\<lambda>(w, a, b). a0 \<le> a \<and> a \<le> a0 + length payload \<and> b0 \<le> b \<and> int b \<le> int b0 + chunks (int (length payload)) + 1"
    "\<lambda>(w, a, b). a = a0 \<and> b = b0" "\<lambda>fd (w, a, b). a = a0 \<and> b = b0"
    "\<lambda>fd offset calls (w, a, b). int a = int a0 + calls \<and> 0 \<le> calls \<and> calls \<le> int offset
      \<and> offset \<le> length payload \<and> b = b0"
    "\<lambda>fd x (w, a, b). int a = int a0 + x \<and> 0 \<le> x \<and> x \<le> int (length payload) \<and> b = b0"
    "\<lambda>fd x offset calls (w, a, b). int a = int a0 + x \<and> 0 \<le> x \<and> x \<le> int (length payload)
      \<and> int b = int b0 + calls \<and> 0 \<le> calls"
    "\<lambda>fd x (w, a, b). int a = int a0 + x \<and> 0 \<le> x \<and> x \<le> int (length payload)
      \<and> int b = int b0 + chunks (int (length payload)) + 1"
    "\<lambda>x (w, a, b). int a = int a0 + x \<and> 0 \<le> x \<and> x \<le> int (length payload)
      \<and> int b = int b0 + chunks (int (length payload)) + 1"
  for h :: host and os :: "'w os_calls" and path payload a0 b0
proof -
  have whole: "0 \<le> chunks (int (length payload))" by (simp add: chunks_nonneg)
  have part: "chunks (int offset) \<le> chunks (int (length payload))" if "offset < length payload" for offset
    using that by (intro chunks_mono) simp
  have fits: "offset + nat n \<le> length payload"
    if "offset < length payload" "n \<le> int (request_size payload offset)" for offset n
    using that request_simps(3) [of payload offset] by linarith
  show "staging h (counting os) path payload
    (\<lambda>(w, a, b). a0 \<le> a \<and> a \<le> a0 + length payload \<and> b0 \<le> b \<and> int b \<le> int b0 + chunks (int (length payload)) + 1)
    (\<lambda>(w, a, b). a = a0 \<and> b = b0) (\<lambda>fd (w, a, b). a = a0 \<and> b = b0)
    (\<lambda>fd offset calls (w, a, b). int a = int a0 + calls \<and> 0 \<le> calls \<and> calls \<le> int offset
      \<and> offset \<le> length payload \<and> b = b0)
    (\<lambda>fd x (w, a, b). int a = int a0 + x \<and> 0 \<le> x \<and> x \<le> int (length payload) \<and> b = b0)
    (\<lambda>fd x offset calls (w, a, b). int a = int a0 + x \<and> 0 \<le> x \<and> x \<le> int (length payload)
      \<and> int b = int b0 + calls \<and> 0 \<le> calls)
    (\<lambda>fd x (w, a, b). int a = int a0 + x \<and> 0 \<le> x \<and> x \<le> int (length payload)
      \<and> int b = int b0 + chunks (int (length payload)) + 1)
    (\<lambda>x (w, a, b). int a = int a0 + x \<and> 0 \<le> x \<and> x \<le> int (length payload)
      \<and> int b = int b0 + chunks (int (length payload)) + 1)"
    using whole part fits
    by unfold_locales (auto dest!: counting_calls)
qed

section \<open>Files and descriptors\<close>

text \<open>
  \<open>files w p\<close> are the bytes of the regular file at \<open>p\<close>, \<open>desc w fd\<close> is the file a descriptor is open on
  and its position. Opening a path touches no file but its own; creating exclusively, which the open flags
  have to ask for, needs an absent file and leaves an empty one; a write may leave
  any bytes in its own file; a read returns bytes of the file from the position on, and none only at the
  end or when none were asked for; the other calls change no file.
\<close>

definition posix_files ::
  "host \<Rightarrow> 'w os_calls \<Rightarrow> ('w \<Rightarrow> pystr \<Rightarrow> bytes option) \<Rightarrow> ('w \<Rightarrow> int \<Rightarrow> (pystr \<times> nat) option) \<Rightarrow> bool" where
  "posix_files h os files desc \<longleftrightarrow>
     (\<forall>p w r w'. os_stat os p w = (r, w') \<longrightarrow> files w' = files w \<and> desc w' = desc w)
   \<and> (\<forall>fd w r w'. os_fstat os fd w = (r, w') \<longrightarrow> files w' = files w \<and> desc w' = desc w)
   \<and> (\<forall>fd w r w'. os_close os fd w = (r, w') \<longrightarrow> files w' = files w)
   \<and> (\<forall>p flags mode w r w'. os_open os p flags mode w = (r, w') \<longrightarrow>
        (\<forall>q. q \<noteq> p \<longrightarrow> files w' q = files w q)
        \<and> (\<forall>fd. exclusive_create h flags \<longrightarrow> r = Opened fd \<longrightarrow> files w p = None \<and> files w' p = Some [] \<and> desc w' fd = Some (p, 0)))
   \<and> (\<forall>fd bs w p k r w'. desc w fd = Some (p, k) \<longrightarrow> files w p \<noteq> None \<longrightarrow> os_write os fd bs w = (r, w') \<longrightarrow>
        (\<forall>q. q \<noteq> p \<longrightarrow> files w' q = files w q) \<and> files w' p \<noteq> None \<and> (\<exists>k'. desc w' fd = Some (p, k')))
   \<and> (\<forall>fd w p k r w'. desc w fd = Some (p, k) \<longrightarrow> os_lseek os fd 0 w = (r, w') \<longrightarrow>
        files w' = files w \<and> (r = Some 0 \<longrightarrow> desc w' fd = Some (p, 0)))
   \<and> (\<forall>fd n w p k c r w'. desc w fd = Some (p, k) \<longrightarrow> files w p = Some c \<longrightarrow> os_read os fd n w = (r, w') \<longrightarrow>
        files w' = files w \<and> (\<forall>bs. r = Some bs \<longrightarrow> desc w' fd = Some (p, k + length bs)
          \<and> (\<exists>m \<le> n. bs = take m (drop k c)) \<and> (bs = [] \<longrightarrow> n = 0 \<or> length c \<le> k)))"

lemma posix_calls:
  assumes "posix_files h os files desc"
  shows "os_stat os p w = (sr, w') \<Longrightarrow> files w' = files w \<and> desc w' = desc w"
    and "os_fstat os fd w = (sr, w') \<Longrightarrow> files w' = files w \<and> desc w' = desc w"
    and "os_close os fd w = (cr, w') \<Longrightarrow> files w' = files w"
    and "os_open os p (OPEN_FLAGS h) OPEN_MODE w = (opr, w') \<Longrightarrow> (\<forall>q. q \<noteq> p \<longrightarrow> files w' q = files w q)
      \<and> (\<forall>fd. opr = Opened fd \<longrightarrow> files w p = None \<and> files w' p = Some [] \<and> desc w' fd = Some (p, 0))"
    and "desc w fd = Some (p, k) \<Longrightarrow> files w p \<noteq> None \<Longrightarrow> os_write os fd bs w = (wr, w') \<Longrightarrow>
      (\<forall>q. q \<noteq> p \<longrightarrow> files w' q = files w q) \<and> files w' p \<noteq> None \<and> (\<exists>k'. desc w' fd = Some (p, k'))"
    and "desc w fd = Some (p, k) \<Longrightarrow> os_lseek os fd 0 w = (lr, w') \<Longrightarrow>
      files w' = files w \<and> (lr = Some 0 \<longrightarrow> desc w' fd = Some (p, 0))"
    and "desc w fd = Some (p, k) \<Longrightarrow> files w p = Some c \<Longrightarrow> os_read os fd n w = (rr, w') \<Longrightarrow>
      files w' = files w \<and> (\<forall>bs. rr = Some bs \<longrightarrow> desc w' fd = Some (p, k + length bs)
        \<and> (\<exists>m \<le> n. bs = take m (drop k c)) \<and> (bs = [] \<longrightarrow> n = 0 \<or> length c \<le> k))"
proof -
  note laws = assms [unfolded posix_files_def]
  note l1 = laws [THEN conjunct1] and r1 = laws [THEN conjunct2]
  note l2 = r1 [THEN conjunct1] and r2 = r1 [THEN conjunct2]
  note l3 = r2 [THEN conjunct1] and r3 = r2 [THEN conjunct2]
  note l4 = r3 [THEN conjunct1] and r4 = r3 [THEN conjunct2]
  note l5 = r4 [THEN conjunct1] and r5 = r4 [THEN conjunct2]
  note l6 = r5 [THEN conjunct1] and l7 = r5 [THEN conjunct2]
  show "os_stat os p w = (sr, w') \<Longrightarrow> files w' = files w \<and> desc w' = desc w" using l1 by blast
  show "os_fstat os fd w = (sr, w') \<Longrightarrow> files w' = files w \<and> desc w' = desc w" using l2 by blast
  show "os_close os fd w = (cr, w') \<Longrightarrow> files w' = files w" using l3 by blast
  show "os_open os p (OPEN_FLAGS h) OPEN_MODE w = (opr, w') \<Longrightarrow> (\<forall>q. q \<noteq> p \<longrightarrow> files w' q = files w q)
      \<and> (\<forall>fd. opr = Opened fd \<longrightarrow> files w p = None \<and> files w' p = Some [] \<and> desc w' fd = Some (p, 0))"
    using l4 open_flags_exclusive [of h] by blast
  show "desc w fd = Some (p, k) \<Longrightarrow> files w p \<noteq> None \<Longrightarrow> os_write os fd bs w = (wr, w') \<Longrightarrow>
      (\<forall>q. q \<noteq> p \<longrightarrow> files w' q = files w q) \<and> files w' p \<noteq> None \<and> (\<exists>k'. desc w' fd = Some (p, k'))"
    using l5 by blast
  show "desc w fd = Some (p, k) \<Longrightarrow> os_lseek os fd 0 w = (lr, w') \<Longrightarrow>
      files w' = files w \<and> (lr = Some 0 \<longrightarrow> desc w' fd = Some (p, 0))"
    using l6 by blast
  show "desc w fd = Some (p, k) \<Longrightarrow> files w p = Some c \<Longrightarrow> os_read os fd n w = (rr, w') \<Longrightarrow>
      files w' = files w \<and> (\<forall>bs. rr = Some bs \<longrightarrow> desc w' fd = Some (p, k + length bs)
        \<and> (\<exists>m \<le> n. bs = take m (drop k c)) \<and> (bs = [] \<longrightarrow> n = 0 \<or> length c \<le> k))"
    using l7 by blast
qed

lemma take_matches:
  assumes "take k c = take k payload" "k \<le> length c"
    and "request payload k = take m (drop k c)" "m \<le> request_size payload k"
  shows "take (k + request_size payload k) c = take (k + request_size payload k) payload"
    and "k + request_size payload k \<le> length c"
proof -
  have "length (take m (drop k c)) = request_size payload k" using assms(3) by (metis request_simps(1))
  with assms(2,4) have m: "m = request_size payload k" "k + request_size payload k \<le> length c" by auto
  then have "take (request_size payload k) (drop k c) = take (request_size payload k) (drop k payload)"
    using assms(3) by (simp add: request_def)
  with assms(1) show "take (k + request_size payload k) c = take (k + request_size payload k) payload"
    by (simp add: take_add)
  show "k + request_size payload k \<le> length c" by (rule m(2))
qed

text \<open>The states of a staging that started at \<open>w0\<close>: nothing but the stage file has changed.\<close>

definition only_stage :: "('w \<Rightarrow> pystr \<Rightarrow> bytes option) \<Rightarrow> pystr \<Rightarrow> 'w \<Rightarrow> 'w \<Rightarrow> bool" where
  "only_stage files path w0 w \<longleftrightarrow> (\<forall>q. q \<noteq> path \<longrightarrow> files w q = files w0 q)"

lemma posix_staging:
  assumes posix: "posix_files h os files desc"
  shows "staging h os path payload (only_stage files path w0)
    (\<lambda>w. files w = files w0)
    (\<lambda>fd w. only_stage files path w0 w \<and> files w0 path = None \<and> files w path \<noteq> None \<and> desc w fd = Some (path, 0))
    (\<lambda>fd offset calls w. only_stage files path w0 w \<and> files w0 path = None \<and> files w path \<noteq> None
      \<and> (\<exists>k. desc w fd = Some (path, k)))
    (\<lambda>fd x w. only_stage files path w0 w \<and> files w0 path = None \<and> files w path \<noteq> None
      \<and> (\<exists>k. desc w fd = Some (path, k)))
    (\<lambda>fd x offset calls w. only_stage files path w0 w \<and> files w0 path = None \<and> desc w fd = Some (path, offset)
      \<and> (\<exists>c. files w path = Some c \<and> offset \<le> length c \<and> take offset c = take offset payload))
    (\<lambda>fd x w. only_stage files path w0 w \<and> files w0 path = None \<and> files w path = Some payload)
    (\<lambda>x w. only_stage files path w0 w \<and> files w0 path = None \<and> files w path = Some payload)"
proof (unfold_locales, goal_cases)
  case (1 w p sr w')
  with posix_calls(1) [OF posix 1(2)] show ?case by (simp add: only_stage_def)
next
  case (2 w opr w' fd)
  with posix_calls(4) [OF posix 2(2)] show ?case by (auto simp: only_stage_def)
next
  case (3 fd w sr w')
  with posix_calls(2) [OF posix 3(2)] show ?case by (auto simp: only_stage_def)
next
  case (4 fd offset calls w)
  then show ?case by blast
next
  case (5 fd offset calls w wr w' n)
  then obtain k where "desc w fd = Some (path, k)" by blast
  with posix_calls(5) [OF posix this _ 5(4)] 5(1) show ?case by (auto simp: only_stage_def)
next
  case (6 fd x w sr w')
  with posix_calls(2) [OF posix 6(2)] show ?case by (auto simp: only_stage_def)
next
  case (7 fd x w lr w')
  then obtain k where "desc w fd = Some (path, k)" by blast
  with posix_calls(6) [OF posix this 7(2)] 7(1) show ?case by (auto simp: only_stage_def)
next
  case (8 fd x offset calls w rr w')
  then obtain c where c: "desc w fd = Some (path, offset)" "files w path = Some c" "offset \<le> length c"
    "take offset c = take offset payload" by blast
  from posix_calls(7) [OF posix c(1,2) 8(4)] c(2-4) take_matches [of offset c payload] 8(1)
  show ?case by (auto simp: only_stage_def)
next
  case (9 fd x w rr w')
  then obtain c where c: "desc w fd = Some (path, length payload)" "files w path = Some c"
    "length payload \<le> length c" "take (length payload) c = take (length payload) payload" by blast
  from posix_calls(7) [OF posix c(1,2) 9(2)] c(2-4) 9(1) show ?case by (auto simp: only_stage_def)
next
  case (10 fd x w sr w')
  with posix_calls(2) [OF posix 10(2)] show ?case by (auto simp: only_stage_def)
next
  case (11 w fd cr w')
  with posix_calls(3) [OF posix 11(2)] show ?case by (auto simp: only_stage_def)
next
  case (12 fd x w cr w')
  with posix_calls(3) [OF posix 12(2)] show ?case by (auto simp: only_stage_def)
next
  case (13 x w p sr w')
  with posix_calls(1) [OF posix 13(2)] show ?case by (auto simp: only_stage_def)
qed

end
