(* ===== verification/StagingServes.thy ===== *)
theory StagingServes
  imports StagingCalls
begin

text \<open>
  A system that serves a staging: calls on an existing directory, on an absent path in it and on the
  file created there succeed and do what their documentation says, while a write may still be short.
  On such a system a staging ends well.
\<close>

section \<open>Entries\<close>

definition no_reparse :: "entry_stat \<Rightarrow> bool" where
  "no_reparse st \<longleftrightarrow> reparse_status st (es_mode st) = Inr False"

definition directory_entry :: "entry_stat \<Rightarrow> bool" where
  "directory_entry st \<longleftrightarrow> 0 \<le> es_dev st \<and> 0 \<le> es_ino st \<and> 0 \<le> es_mode st \<and> no_reparse st \<and> S_ISDIR (es_mode st)"

definition regular_entry :: "entry_stat \<Rightarrow> bytes \<Rightarrow> bool" where
  "regular_entry st c \<longleftrightarrow> 0 \<le> es_dev st \<and> 0 \<le> es_ino st \<and> 0 \<le> es_mode st \<and> 0 \<le> es_ctime_ns st
     \<and> 0 \<le> es_mtime_ns st \<and> es_size st = int (length c) \<and> no_reparse st \<and> S_ISREG (es_mode st)"

text \<open>
  One entry at two times: device, inode and type stay, while size and times may differ. A directory
  keeps its permissions and its attributes as well.
\<close>

definition same_entry :: "entry_stat \<Rightarrow> entry_stat \<Rightarrow> bool" where
  "same_entry a b \<longleftrightarrow> es_dev a = es_dev b \<and> es_ino a = es_ino b \<and> S_IFMT (es_mode a) = S_IFMT (es_mode b)"

definition same_directory :: "entry_stat \<Rightarrow> entry_stat \<Rightarrow> bool" where
  "same_directory a b \<longleftrightarrow> es_dev a = es_dev b \<and> es_ino a = es_ino b \<and> es_mode a = es_mode b
     \<and> es_file_attributes a = es_file_attributes b"

lemma same_directory_entry: "same_directory a b \<Longrightarrow> directory_entry b \<Longrightarrow> directory_entry a"
  by (simp add: same_directory_def directory_entry_def no_reparse_def reparse_status_def)

lemma same_trans:
  "same_entry a b \<Longrightarrow> same_entry b c \<Longrightarrow> same_entry a c"
  "same_directory a b \<Longrightarrow> same_directory b c \<Longrightarrow> same_directory a c"
  by (simp_all add: same_entry_def same_directory_def)

lemma same_refl [simp]: "same_entry a a" "same_directory a a"
  by (simp_all add: same_entry_def same_directory_def)

lemma snapshots [simp]:
  "directory_entry st \<Longrightarrow> directory_snapshot st context = Inr (es_dev st, es_ino st, es_mode st, False)"
  "regular_entry st c \<Longrightarrow> descriptor_snapshot st context =
     Inr (es_dev st, es_ino st, es_mode st, es_ctime_ns st, int (length c), es_mtime_ns st)"
  "regular_entry st c \<Longrightarrow> path_snapshot st context =
     Inr (es_dev st, es_ino st, es_mode st, False, es_ctime_ns st, int (length c), es_mtime_ns st)"
  by (simp_all add: directory_entry_def regular_entry_def no_reparse_def directory_snapshot_def
    descriptor_snapshot_def path_snapshot_def stat_integer_def)

section \<open>A system that serves\<close>

text \<open>
  \<open>meta w p\<close> is what a \<^verbatim>\<open>stat\<close> of the entry at \<open>p\<close> would report. Creating the file and writing to it
  change its size and times, and may change those of its directory; closing it may change its times;
  the other calls change neither entry.
\<close>

definition serves ::
  "host \<Rightarrow> 'w os_calls \<Rightarrow> ('w \<Rightarrow> pystr \<Rightarrow> bytes option) \<Rightarrow> ('w \<Rightarrow> int \<Rightarrow> (pystr \<times> nat) option)
   \<Rightarrow> ('w \<Rightarrow> pystr \<Rightarrow> entry_stat) \<Rightarrow> pystr \<Rightarrow> pystr \<Rightarrow> bool" where
  "serves h os files desc meta parent path \<longleftrightarrow>
     (\<forall>w c. files w path = Some c \<longrightarrow> regular_entry (meta w path) c)
   \<and> (\<forall>w. directory_entry (meta w parent) \<longrightarrow> (\<exists>w'. os_stat os parent w = (Some (meta w parent), w')
        \<and> files w' = files w \<and> desc w' = desc w \<and> meta w' = meta w))
   \<and> (\<forall>w c. files w path = Some c \<longrightarrow> (\<exists>w'. os_stat os path w = (Some (meta w path), w')
        \<and> files w' = files w \<and> desc w' = desc w \<and> meta w' = meta w))
   \<and> (\<forall>w fd k c. desc w fd = Some (path, k) \<longrightarrow> files w path = Some c \<longrightarrow>
        (\<exists>w'. os_fstat os fd w = (Some (meta w path), w')
        \<and> files w' = files w \<and> desc w' = desc w \<and> meta w' = meta w))
   \<and> (\<forall>w flags. directory_entry (meta w parent) \<longrightarrow> files w path = None \<longrightarrow> exclusive_create h flags \<longrightarrow>
        (\<exists>fd w'. os_open os path flags OPEN_MODE w = (Opened fd, w') \<and> 0 \<le> fd
        \<and> files w' path = Some [] \<and> desc w' fd = Some (path, 0) \<and> same_directory (meta w' parent) (meta w parent)))
   \<and> (\<forall>w fd c bs. desc w fd = Some (path, length c) \<longrightarrow> files w path = Some c \<longrightarrow> bs \<noteq> [] \<longrightarrow>
        (\<exists>n w'. os_write os fd bs w = (Some (int n), w') \<and> 1 \<le> n \<and> n \<le> length bs
        \<and> files w' path = Some (c @ take n bs) \<and> desc w' fd = Some (path, length c + n)
        \<and> same_entry (meta w' path) (meta w path) \<and> same_directory (meta w' parent) (meta w parent)))
   \<and> (\<forall>w fd k. desc w fd = Some (path, k) \<longrightarrow> (\<exists>w'. os_lseek os fd 0 w = (Some 0, w')
        \<and> files w' = files w \<and> desc w' fd = Some (path, 0) \<and> meta w' = meta w))
   \<and> (\<forall>w fd k c n. desc w fd = Some (path, k) \<longrightarrow> files w path = Some c \<longrightarrow>
        (\<exists>w'. os_read os fd n w = (Some (take n (drop k c)), w') \<and> files w' = files w
        \<and> desc w' fd = Some (path, k + length (take n (drop k c))) \<and> meta w' = meta w))
   \<and> (\<forall>w fd k. desc w fd = Some (path, k) \<longrightarrow> (\<exists>w'. os_close os fd w = (Closed, w') \<and> files w' = files w
        \<and> same_entry (meta w' path) (meta w path) \<and> same_directory (meta w' parent) (meta w parent)))"

lemma served_calls:
  assumes "serves h os files desc meta parent path"
  shows "files w path = Some c \<Longrightarrow> regular_entry (meta w path) c"
    and "directory_entry (meta w parent) \<Longrightarrow> \<exists>w'. os_stat os parent w = (Some (meta w parent), w')
      \<and> files w' = files w \<and> desc w' = desc w \<and> meta w' = meta w"
    and "files w path = Some c \<Longrightarrow> \<exists>w'. os_stat os path w = (Some (meta w path), w')
      \<and> files w' = files w \<and> desc w' = desc w \<and> meta w' = meta w"
    and "desc w fd = Some (path, k) \<Longrightarrow> files w path = Some c \<Longrightarrow> \<exists>w'. os_fstat os fd w = (Some (meta w path), w')
      \<and> files w' = files w \<and> desc w' = desc w \<and> meta w' = meta w"
    and "directory_entry (meta w parent) \<Longrightarrow> files w path = None \<Longrightarrow>
      \<exists>fd w'. os_open os path (OPEN_FLAGS h) OPEN_MODE w = (Opened fd, w') \<and> 0 \<le> fd
      \<and> files w' path = Some [] \<and> desc w' fd = Some (path, 0) \<and> same_directory (meta w' parent) (meta w parent)"
    and "desc w fd = Some (path, length c) \<Longrightarrow> files w path = Some c \<Longrightarrow> bs \<noteq> [] \<Longrightarrow>
      \<exists>n w'. os_write os fd bs w = (Some (int n), w') \<and> 1 \<le> n \<and> n \<le> length bs
      \<and> files w' path = Some (c @ take n bs) \<and> desc w' fd = Some (path, length c + n)
      \<and> same_entry (meta w' path) (meta w path) \<and> same_directory (meta w' parent) (meta w parent)"
    and "desc w fd = Some (path, k) \<Longrightarrow> \<exists>w'. os_lseek os fd 0 w = (Some 0, w')
      \<and> files w' = files w \<and> desc w' fd = Some (path, 0) \<and> meta w' = meta w"
    and "desc w fd = Some (path, k) \<Longrightarrow> files w path = Some c \<Longrightarrow>
      \<exists>w'. os_read os fd n w = (Some (take n (drop k c)), w') \<and> files w' = files w
      \<and> desc w' fd = Some (path, k + length (take n (drop k c))) \<and> meta w' = meta w"
    and "desc w fd = Some (path, k) \<Longrightarrow> \<exists>w'. os_close os fd w = (Closed, w') \<and> files w' = files w
      \<and> same_entry (meta w' path) (meta w path) \<and> same_directory (meta w' parent) (meta w parent)"
proof -
  note laws = assms [unfolded serves_def]
  note l1 = laws [THEN conjunct1] and r1 = laws [THEN conjunct2]
  note l2 = r1 [THEN conjunct1] and r2 = r1 [THEN conjunct2]
  note l3 = r2 [THEN conjunct1] and r3 = r2 [THEN conjunct2]
  note l4 = r3 [THEN conjunct1] and r4 = r3 [THEN conjunct2]
  note l5 = r4 [THEN conjunct1] and r5 = r4 [THEN conjunct2]
  note l6 = r5 [THEN conjunct1] and r6 = r5 [THEN conjunct2]
  note l7 = r6 [THEN conjunct1] and r7 = r6 [THEN conjunct2]
  note l8 = r7 [THEN conjunct1] and l9 = r7 [THEN conjunct2]
  show "files w path = Some c \<Longrightarrow> regular_entry (meta w path) c" by (rule l1 [rule_format])
  show "directory_entry (meta w parent) \<Longrightarrow> \<exists>w'. os_stat os parent w = (Some (meta w parent), w')
      \<and> files w' = files w \<and> desc w' = desc w \<and> meta w' = meta w" by (rule l2 [rule_format])
  show "files w path = Some c \<Longrightarrow> \<exists>w'. os_stat os path w = (Some (meta w path), w')
      \<and> files w' = files w \<and> desc w' = desc w \<and> meta w' = meta w" by (rule l3 [rule_format])
  show "desc w fd = Some (path, k) \<Longrightarrow> files w path = Some c \<Longrightarrow> \<exists>w'. os_fstat os fd w = (Some (meta w path), w')
      \<and> files w' = files w \<and> desc w' = desc w \<and> meta w' = meta w" by (rule l4 [rule_format])
  show "directory_entry (meta w parent) \<Longrightarrow> files w path = None \<Longrightarrow>
      \<exists>fd w'. os_open os path (OPEN_FLAGS h) OPEN_MODE w = (Opened fd, w') \<and> 0 \<le> fd
      \<and> files w' path = Some [] \<and> desc w' fd = Some (path, 0) \<and> same_directory (meta w' parent) (meta w parent)"
    by (rule l5 [rule_format, OF _ _ open_flags_exclusive])
  show "desc w fd = Some (path, length c) \<Longrightarrow> files w path = Some c \<Longrightarrow> bs \<noteq> [] \<Longrightarrow>
      \<exists>n w'. os_write os fd bs w = (Some (int n), w') \<and> 1 \<le> n \<and> n \<le> length bs
      \<and> files w' path = Some (c @ take n bs) \<and> desc w' fd = Some (path, length c + n)
      \<and> same_entry (meta w' path) (meta w path) \<and> same_directory (meta w' parent) (meta w parent)"
    by (rule l6 [rule_format])
  show "desc w fd = Some (path, k) \<Longrightarrow> \<exists>w'. os_lseek os fd 0 w = (Some 0, w')
      \<and> files w' = files w \<and> desc w' fd = Some (path, 0) \<and> meta w' = meta w" by (rule l7 [rule_format])
  show "desc w fd = Some (path, k) \<Longrightarrow> files w path = Some c \<Longrightarrow>
      \<exists>w'. os_read os fd n w = (Some (take n (drop k c)), w') \<and> files w' = files w
      \<and> desc w' fd = Some (path, k + length (take n (drop k c))) \<and> meta w' = meta w" by (rule l8 [rule_format])
  show "desc w fd = Some (path, k) \<Longrightarrow> \<exists>w'. os_close os fd w = (Closed, w') \<and> files w' = files w
      \<and> same_entry (meta w' path) (meta w path) \<and> same_directory (meta w' parent) (meta w parent)"
    by (rule l9 [rule_format])
qed

section \<open>The staging ends well\<close>

lemma served_write:
  assumes serve: "serves h os files desc meta parent path" and small: "int (length payload) \<le> MAX_PAYLOAD_BYTES_STAGE"
    and start: "files w path = Some []" "desc w fd = Some (path, 0)"
  shows "wp (write_payload os fd payload) (\<lambda>_ w'. files w' path = Some payload \<and> (\<exists>k. desc w' fd = Some (path, k))
    \<and> same_entry (meta w' path) (meta w path) \<and> same_directory (meta w' parent) (meta w parent)) (\<lambda>_. False) w"
proof -
  define J where "J offset (calls :: int) v \<longleftrightarrow> files v path = Some (take offset payload) \<and> desc v fd = Some (path, offset)
    \<and> offset \<le> length payload \<and> same_entry (meta v path) (meta w path)
    \<and> same_directory (meta v parent) (meta w parent)" for offset calls v
  have "wp (write_payload os fd payload) (\<lambda>x w'. chunks (int (length payload)) \<le> x \<and> x \<le> int (length payload)
    \<and> J (length payload) x w') (\<lambda>_. False) w"
  proof (rule write_payload_rule)
    show "J 0 0 w" using start by (simp add: J_def)
  next
    fix offset calls v
    assume "offset < length payload" "calls \<le> int offset" "calls \<ge> MAX_WRITE_CALLS"
    with small show False by (simp add: MAX_WRITE_CALLS_def MAX_PAYLOAD_BYTES_STAGE_def)
  next
    fix offset calls v r v'
    assume J: "J offset calls v" and less: "offset < length payload"
      and call: "os_write os fd (request payload offset) v = (r, v')"
    from J have at: "desc v fd = Some (path, length (take offset payload))" "files v path = Some (take offset payload)"
      "same_entry (meta v path) (meta w path)" "same_directory (meta v parent) (meta w parent)"
      by (auto simp: J_def min_def)
    have ne: "request payload offset \<noteq> []"
      using request_simps(1) [of payload offset] request_simps(2) [OF less] by (metis list.size(3) not_one_le_zero)
    from served_calls(6) [OF serve at(1,2) ne] call obtain n where r: "r = Some (int n)" "1 \<le> n"
      "n \<le> request_size payload offset" "files v' path = Some (take offset payload @ take n (request payload offset))"
      "desc v' fd = Some (path, length (take offset payload) + n)" "same_entry (meta v' path) (meta v path)"
      "same_directory (meta v' parent) (meta v parent)"
      by auto
    have "take offset payload @ take n (request payload offset) = take (offset + n) payload"
      using r(3) by (simp add: request_def take_add min_def)
    moreover have "offset + n \<le> length payload" using r(3) request_simps(3) [of payload offset] less by linarith
    ultimately have "J (offset + n) (calls + 1) v'"
      using r(4,5) same_trans(1) [OF r(6) at(3)] same_trans(2) [OF r(7) at(4)] less by (auto simp: J_def)
    with r(1-3) show "case r of None \<Rightarrow> False
      | Some n \<Rightarrow> if n < 1 \<or> n > int (request_size payload offset) then False else J (offset + nat n) (calls + 1) v'"
      by simp
  qed
  then show ?thesis by (rule wp_mono) (auto simp: J_def)
qed

lemma served_read:
  assumes serve: "serves h os files desc meta parent path" and small: "int (length payload) \<le> MAX_PAYLOAD_BYTES_STAGE"
    and start: "files w path = Some payload" "desc w fd = Some (path, k)"
  shows "wp (readback_payload os fd payload) (\<lambda>(y, sha) w'. y = chunks (int (length payload)) + 1
    \<and> sha = sha256_hex payload \<and> files w' path = Some payload \<and> (\<exists>k. desc w' fd = Some (path, k))
    \<and> meta w' = meta w) (\<lambda>_. False) w"
proof -
  define J where "J offset (calls :: int) v \<longleftrightarrow> files v path = Some payload \<and> desc v fd = Some (path, offset)
    \<and> meta v = meta w" for offset calls v
  have calls: "calls + 1 \<le> MAX_READ_CALLS" if "calls = chunks (int offset)" "offset \<le> length payload" for calls offset
    using that chunks_bounds(2) [of "int offset"] small by (simp add: MAX_READ_CALLS_def)
  show ?thesis
  proof (rule readback_rule [where J = J, THEN wp_mono])
    show "case os_lseek os fd 0 w of (None, w') \<Rightarrow> False | (Some m, w') \<Rightarrow> if m \<noteq> 0 then False else J 0 0 w'"
      using served_calls(7) [OF serve start(2)] start(1) by (auto simp: J_def)
  next
    fix offset calls v r v'
    assume J: "J offset calls v" and less: "offset < length payload" and n: "calls = chunks (int offset)"
      and call: "os_read os fd (request_size payload offset) v = (r, v')"
    from J have at: "desc v fd = Some (path, offset)" "files v path = Some payload" by (simp_all add: J_def)
    have bs: "take (request_size payload offset) (drop offset payload) = request payload offset"
      by (simp add: request_def)
    from served_calls(8) [OF serve at, of "request_size payload offset"] call J calls [OF n] less
    show "case r of None \<Rightarrow> False
      | Some raw \<Rightarrow> if calls + 1 > MAX_READ_CALLS \<or> raw \<noteq> request payload offset then False
          else J (offset + request_size payload offset) (calls + 1) v'"
      by (auto simp: J_def bs)
  next
    fix calls v r v'
    assume J: "J (length payload) calls v" and n: "calls = chunks (int (length payload))" and call: "os_read os fd 1 v = (r, v')"
    from J have at: "desc v fd = Some (path, length payload)" "files v path = Some payload" by (simp_all add: J_def)
    from served_calls(8) [OF serve at, of 1] call J calls [OF n]
    show "case r of None \<Rightarrow> False
      | Some raw \<Rightarrow> if calls + 1 > MAX_READ_CALLS \<or> raw \<noteq> [] then False
          else files v' path = Some payload \<and> (\<exists>k. desc v' fd = Some (path, k)) \<and> meta v' = meta w"
      by (auto simp: J_def)
  qed auto
qed

lemma served_fstat:
  assumes "serves h os files desc meta parent path" "desc w fd = Some (path, k)" "files w path = Some c"
  shows "wp (descriptor_stat os fd context)
    (\<lambda>st w'. st = meta w path \<and> files w' = files w \<and> desc w' = desc w \<and> meta w' = meta w) E w"
  using served_calls(4) [OF assms] by (auto simp: descriptor_stat_def io_simps)

lemma served_stat:
  assumes "serves h os files desc meta parent path" "files w path = Some c"
  shows "wp (nofollow_stat os path context)
    (\<lambda>st w'. st = meta w path \<and> files w' = files w \<and> meta w' = meta w) E w"
  using served_calls(3) [OF assms] by (auto simp: nofollow_stat_def io_simps)

lemma served_parent:
  assumes "serves h os files desc meta parent path" "directory_entry (meta w parent)"
  shows "wp (nofollow_stat os parent context)
    (\<lambda>st w'. st = meta w parent \<and> files w' = files w \<and> meta w' = meta w) E w"
  using served_calls(2) [OF assms] by (auto simp: nofollow_stat_def io_simps)

lemma wp_pure_Inr: "wp (pureIO (Inr x)) Q E w = Q x w"
  by (simp add: wp_pure)

lemma wp_return: "r = Inr x \<Longrightarrow> wp (f x) Q E w \<Longrightarrow> wp (bindIO (pureIO r) f) Q E w"
  by (simp add: wp_bind wp_pure)

lemma wp_check: "\<not> bad \<Longrightarrow> wp (f ()) Q E w \<Longrightarrow> wp (bindIO (pureIO (guardE bad e)) f) Q E w"
  by (simp add: wp_bind wp_pure guardE_def)

lemma served_body:
  assumes serve: "serves h os files desc meta parent path" and small: "int (length payload) \<le> MAX_PAYLOAD_BYTES_STAGE"
    and start: "files w path = Some []" "desc w fd = Some (path, 0)"
  shows "wp (staged_body os fd payload) (\<lambda>(x, y, sha, dev, ino, mode, ctime, size, mtime) w'.
    files w' path = Some payload \<and> (\<exists>k. desc w' fd = Some (path, k)) \<and> dev = es_dev (meta w' path)
    \<and> ino = es_ino (meta w' path) \<and> size = int (length payload)
    \<and> same_directory (meta w' parent) (meta w parent)) (\<lambda>_. False) w"
proof -
  note entry = served_calls(1) [OF serve]
  have regular: "regular_entry (meta w path) []" using entry start(1) .
  show ?thesis
    unfolding staged_body_def
  proof (rule wp_step [OF served_fstat [OF serve start(2,1)]], clarify, rule wp_return [OF snapshots(2) [OF regular]],
      simp only: split, rule wp_check, simp, rule wp_step [OF served_write [OF serve small]], goal_cases)
    case (1 st w0)
    with start show ?case by simp
  next
    case (2 st w0)
    with start show ?case by simp
  next
    case (3 st w0 x w1)
    then obtain k where w1: "files w1 path = Some payload" "desc w1 fd = Some (path, k)"
      and same: "same_entry (meta w1 path) (meta w path)" "same_directory (meta w1 parent) (meta w parent)" by auto
    have regular1: "regular_entry (meta w1 path) payload" using entry w1(1) .
    show ?case
    proof (rule wp_step [OF served_fstat [OF serve w1(2,1)]], clarify, rule wp_return [OF snapshots(2) [OF regular1]],
        simp only: split, rule wp_check, goal_cases)
      case (1 st1 w2)
      from same show ?case by (simp add: same_entry_def)
    next
      case (2 st1 w2)
      with w1 have w2: "files w2 path = Some payload" "desc w2 fd = Some (path, k)" by simp_all
      show ?case
      proof (rule wp_check, simp, rule wp_step [OF served_read [OF serve small w2]], clarify, goal_cases)
        case (1 y sha w3 k3)
        from 1 2 have w3: "meta w3 = meta w1" "files w3 path = Some payload" "desc w3 fd = Some (path, k3)"
          by simp_all
        have regular3: "regular_entry (meta w3 path) payload" using entry w3(2) .
        show ?case
        proof (rule wp_step [OF served_fstat [OF serve w3(3,2)]], clarify,
            rule wp_return [OF snapshots(2) [OF regular3]], rule wp_check, goal_cases)
          case (1 st2 w4)
          from w3(1) show ?case by simp
        next
          case (2 st2 w4)
          with w3 same(2) show ?case by (simp add: io_simps wp_pure)
        qed
      qed
    qed
  qed
qed

lemma served_stage:
  assumes serve: "serves h os files desc meta parent path" and small: "int (length payload) \<le> MAX_PAYLOAD_BYTES_STAGE"
    and root: "directory_entry (meta w parent)" and absent: "files w path = None"
  shows "\<exists>xys w'. stage_payload h os parent path payload w = (Inr xys, w') \<and> files w' path = Some payload"
proof -
  have created: "wp (exclusive_open h os path) (\<lambda>fd w'. files w' path = Some [] \<and> desc w' fd = Some (path, 0)
      \<and> same_directory (meta w' parent) (meta w parent)) (\<lambda>_. False) w"
    if "directory_entry (meta w parent)" "files w path = None" for w
    using served_calls(5) [OF serve that] by (auto simp: io_simps)
  have staged: "wp (with_descriptor os fd (staged_body os fd payload)) (\<lambda>(x, y, sha, dev, ino, mode, ctime, size, mtime) w'.
      files w' path = Some payload \<and> dev = es_dev (meta w' path) \<and> ino = es_ino (meta w' path)
      \<and> size = int (length payload) \<and> same_directory (meta w' parent) (meta w parent)) (\<lambda>_. False) w"
    if "files w path = Some []" "desc w fd = Some (path, 0)" for w fd
    unfolding wp_with_descriptor
  proof (rule wp_mono [OF served_body [OF serve small that]], goal_cases)
    case (1 x w')
    then obtain k where "desc w' fd = Some (path, k)" by auto
    from served_calls(9) [OF serve this] 1 show ?case
      by (auto simp: same_entry_def intro: same_trans(2) split: prod.splits)
  qed simp
  have "wp (stage_payload h os parent path payload) (\<lambda>_ w'. files w' path = Some payload) (\<lambda>_. False) w"
    unfolding stage_payload_def
  proof (rule wp_step [OF served_parent [OF serve root]], clarify, rule wp_return [OF snapshots(1) [OF root]],
      rule wp_step [OF created], goal_cases)
    case (1 st w0)
    with root show ?case by simp
  next
    case (2 st w0)
    with absent show ?case by simp
  next
    case (3 st w0 fd w1)
    then have start: "files w1 path = Some []" "desc w1 fd = Some (path, 0)"
      and root1: "same_directory (meta w1 parent) (meta w parent)" by simp_all
    show ?case
    proof (rule wp_step [OF staged [OF start]], clarify, goal_cases)
      case (1 x y sha dev ino mo ct size mt w2)
      note regular = served_calls(1) [OF serve 1(1)]
      from 1 have root2: "same_directory (meta w2 parent) (meta w parent)" using same_trans(2) root1 by blast
      show ?case
      proof (rule wp_step [OF served_stat [OF serve 1(1)]], clarify, rule wp_return [OF snapshots(3) [OF regular]],
          simp only: split, rule wp_check, goal_cases)
        case (2 st3 w3)
        with 1 root2 have end_file: "files w3 path = Some payload"
          and root3: "same_directory (meta w3 parent) (meta w parent)" by simp_all
        note directory = same_directory_entry [OF root3 root]
        show ?case
        proof (rule wp_step [OF served_parent [OF serve directory]], clarify,
            rule wp_return [OF snapshots(1) [OF directory]], rule wp_check, goal_cases)
          case (1 st4 w4)
          from root3 show ?case by (simp add: same_directory_def)
        next
          case (2 st4 w4)
          with end_file show ?case by (simp add: wp_pure)
        qed
      qed simp
    qed
  qed
  then show ?thesis by (auto simp: wp_def split: prod.splits sum.splits)
qed

end
