(* ===== verification/StagingProps.thy ===== *)
theory StagingProps
  imports StagingServes
begin

text \<open>The properties of the publisher.\<close>

section \<open>A small file system\<close>

text \<open>
  A system with files in memory, on which the witnesses run; its root is the staging parent. It has a
  clock, which every change moves: a new file takes the time as its inode and stamps itself and the
  root, a write stamps its file. Opening obeys the flags of \<open>unix_host\<close>.
\<close>

record disk =
  dk_files :: "pystr \<Rightarrow> bytes option"
  dk_desc :: "int \<Rightarrow> (pystr \<times> nat) option"
  dk_time :: nat
  dk_mtime :: "pystr \<Rightarrow> nat"
  dk_ino :: "pystr \<Rightarrow> nat"

definition empty_disk :: disk where
  "empty_disk = \<lparr>dk_files = Map.empty, dk_desc = Map.empty, dk_time = 1, dk_mtime = (\<lambda>_. 1), dk_ino = (\<lambda>_. 1)\<rparr>"

definition unix_host :: host where
  "unix_host = \<lparr>host_nt = False, host_isabs = (\<lambda>p. Some (take 1 p = [0x2F])), host_normpath = Some,
     host_join = (\<lambda>p q. Some (p @ q)), host_O_CREAT = 64, host_O_EXCL = 128, host_O_RDWR = 2,
     host_O_BINARY = None, host_O_NOINHERIT = None, host_O_CLOEXEC = Some 524288, host_O_NOFOLLOW = Some 131072\<rparr>"

definition root_path :: pystr where
  "root_path = [0x2F]"

definition disk_meta :: "disk \<Rightarrow> pystr \<Rightarrow> entry_stat" where
  "disk_meta d p = \<lparr>es_dev = 1, es_ino = int (dk_ino d p), es_mode = (if p = root_path then 0x41C0 else 0x8180),
     es_ctime_ns = int (dk_mtime d p), es_size = (case dk_files d p of None \<Rightarrow> 4096 | Some c \<Rightarrow> int (length c)),
     es_mtime_ns = int (dk_mtime d p), es_file_attributes = None\<rparr>"

definition disk_create :: "disk \<Rightarrow> pystr \<Rightarrow> disk" where
  "disk_create d p = d\<lparr>dk_files := (dk_files d)(p \<mapsto> []), dk_time := dk_time d + 1,
     dk_mtime := (dk_mtime d)(p := dk_time d + 1, root_path := dk_time d + 1),
     dk_ino := (dk_ino d)(p := dk_time d + 1)\<rparr>"

definition disk_os :: "disk os_calls" where
  "disk_os =
     \<lparr>os_stat = (\<lambda>p d. (if p = root_path \<or> dk_files d p \<noteq> None then Some (disk_meta d p) else None, d)),
      os_open = (\<lambda>p flags mode d.
        if p = root_path \<or> dk_files d p \<noteq> None then
          (if and flags (host_O_EXCL unix_host) \<noteq> 0 then (File_Exists, d)
           else if p = root_path then (Open_Error, d)
           else (Opened 3, d\<lparr>dk_desc := (dk_desc d)(3 \<mapsto> (p, 0))\<rparr>))
        else if and flags (host_O_CREAT unix_host) = 0 then (Open_Error, d)
        else (Opened 3, (disk_create d p)\<lparr>dk_desc := (dk_desc d)(3 \<mapsto> (p, 0))\<rparr>)),
      os_fstat = (\<lambda>fd d. (case dk_desc d fd of None \<Rightarrow> None | Some (p, k) \<Rightarrow> Some (disk_meta d p), d)),
      os_write = (\<lambda>fd bs d. case dk_desc d fd of None \<Rightarrow> (None, d) | Some (p, k) \<Rightarrow> (case dk_files d p of None \<Rightarrow> (None, d)
        | Some c \<Rightarrow> (Some (int (length bs)),
            d\<lparr>dk_files := (dk_files d)(p \<mapsto> take k c @ bs @ drop (k + length bs) c),
              dk_desc := (dk_desc d)(fd \<mapsto> (p, k + length bs)),
              dk_time := dk_time d + 1, dk_mtime := (dk_mtime d)(p := dk_time d + 1)\<rparr>))),
      os_lseek = (\<lambda>fd n d. case dk_desc d fd of None \<Rightarrow> (None, d)
        | Some (p, k) \<Rightarrow> (Some n, d\<lparr>dk_desc := (dk_desc d)(fd \<mapsto> (p, nat n))\<rparr>)),
      os_read = (\<lambda>fd n d. case dk_desc d fd of None \<Rightarrow> (None, d) | Some (p, k) \<Rightarrow> (case dk_files d p of None \<Rightarrow> (None, d)
        | Some c \<Rightarrow> (Some (take n (drop k c)),
            d\<lparr>dk_desc := (dk_desc d)(fd \<mapsto> (p, k + length (take n (drop k c))))\<rparr>))),
      os_close = (\<lambda>fd d. case dk_desc d fd of None \<Rightarrow> (Close_Error, d)
        | Some _ \<Rightarrow> (Closed, d\<lparr>dk_desc := (dk_desc d)(fd := None)\<rparr>))\<rparr>"

lemma disk_posix: "posix_files unix_host disk_os dk_files dk_desc"
  unfolding posix_files_def
  by (auto simp: disk_os_def disk_create_def unix_host_def exclusive_create_def split: option.splits prod.splits if_splits)

lemma disk_entries:
  "dk_files d p = Some c \<Longrightarrow> p \<noteq> root_path \<Longrightarrow> regular_entry (disk_meta d p) c"
  "directory_entry (disk_meta d root_path)"
  by (simp_all add: regular_entry_def directory_entry_def no_reparse_def reparse_status_def
    disk_meta_def S_ISREG_def S_ISDIR_def S_ISLNK_def S_IFMT_def)

lemma disk_serves:
  assumes path: "path \<noteq> root_path"
  shows "serves unix_host disk_os dk_files dk_desc disk_meta root_path path"
  unfolding serves_def
proof (intro conjI, goal_cases)
  case 1
  show ?case using disk_entries(1) path by blast
next
  case 5
  show ?case
    by (auto simp: disk_os_def disk_create_def path disk_meta_def same_directory_def unix_host_def
      exclusive_create_def)
next
  case 6
  have "1 \<le> length bs" if "bs \<noteq> []" for bs :: bytes using that by (cases bs) simp_all
  then show ?case
    by (intro allI impI, rule_tac x = "length bs" in exI)
      (simp add: disk_os_def path path [symmetric] disk_meta_def same_entry_def same_directory_def)
qed (auto simp: disk_os_def disk_meta_def same_entry_def same_directory_def fun_eq_iff)

definition ex_nonce :: pystr where
  "ex_nonce = replicate 32 0x61"

lemma unix_host_ok [simp]: "host_flags_ok unix_host"
  by (simp add: host_flags_ok_def required_open_flags_def optional_open_flags_def unix_host_def)

lemma utf8_small:
  assumes "list_all (\<lambda>c. c \<le> 0x7F) t"
  shows "\<exists>bs. utf8 t = Some bs \<and> length bs = length t"
proof -
  have "\<not> is_surrogate c" if "c \<le> 0x7F" for c
  proof
    assume "is_surrogate c"
    then have "0xD800 \<le> (0x7F :: codepoint)" using that order_trans unfolding is_surrogate_def by blast
    then show False by simp
  qed
  then have "\<not> has_surrogate t" using assms by (auto simp: has_surrogate_def list_all_iff list_ex_iff)
  moreover have "length (utf8_raw t) = length t"
    using assms by (induction t) (auto simp: length_utf8_raw utf8_width_def)
  ultimately show ?thesis by (simp add: utf8_def)
qed

lemma stage_name_ascii:
  "list_all (\<lambda>c. c \<le> 0x7F) (lit STAGE_BASENAME_PREFIX @ ex_nonce @ lit STAGE_BASENAME_SUFFIX)"
  by (simp add: lit_def STAGE_BASENAME_PREFIX_def STAGE_BASENAME_SUFFIX_def ex_nonce_def list_all_iff)

lemma ex_lexical:
  obtains li where "validate_lexical_inputs unix_host [0x2F] ex_nonce = Inr li"
    and "li_stage_path li \<noteq> [0x2F]"
proof -
  define name where "name = lit STAGE_BASENAME_PREFIX @ ex_nonce @ lit STAGE_BASENAME_SUFFIX"
  have name: "list_all (\<lambda>c. c \<le> 0x7F) name" "length name = 65"
    using stage_name_ascii by (simp_all add: name_def STAGE_BASENAME_PREFIX_def STAGE_BASENAME_SUFFIX_def ex_nonce_def)
  then have ascii: "\<not> list_ex (\<lambda>c. c > 0x7F) name" by (auto simp: list_all_iff list_ex_iff not_less)
  from utf8_small [of "[0x2F]"] obtain bs where bs: "utf8 [0x2F] = Some bs" "length bs = 1" by auto
  then have parent: "validate_staging_parent unix_host [0x2F] = Inr bs"
    by (simp add: validate_staging_parent_def unix_host_def forbidden_control_def MAX_STAGING_PARENT_UTF8_BYTES_def)
  from utf8_small [of "0x2F # name"] name obtain ps where ps: "utf8 (0x2F # name) = Some ps" "length ps = 66" by auto
  have nonce: "lower_hex32 ex_nonce" "length (fromhex_lower ex_nonce) = 16"
    by (simp_all add: lower_hex32_def ex_nonce_def lower_hex_cp_def length_fromhex list_all_iff)
  have "name \<noteq> []" using name(2) by auto
  with parent nonce name ascii ps
  have "validate_lexical_inputs unix_host [0x2F] ex_nonce =
    Inr \<lparr>li_parent = [0x2F], li_parent_bytes = bs, li_nonce = ex_nonce, li_nonce_bytes = fromhex_lower ex_nonce,
      li_basename = name, li_stage_path = 0x2F # name\<rparr>"
    by (simp add: validate_lexical_inputs_def Let_def name_def [symmetric] COLLISION_NONCE_BYTES_def
      STAGE_BASENAME_BYTES_def) (simp add: unix_host_def MAX_STAGE_PATH_UTF8_BYTES_def)
  with that \<open>name \<noteq> []\<close> show ?thesis by force
qed

text \<open>A valid state, its version and the change from an absent cell.\<close>

lemma ex_change: "normal_transition (state_of (0, None)) (version_of (0, None)) [7] =
    Inr (transition_of (0, None) (version_of (0, None)) [7] 0 None 2 (1, Some [7]))"
  using ex_change_step by (simp add: normal_transition_def normal_directive)

lemma ex_same: "normal_transition (state_of (1, Some [7])) (version_of (1, Some [7])) [7] =
    Inr (transition_of (1, Some [7]) (version_of (1, Some [7])) [7] 0 None 1 (1, Some [7]))"
  by (simp add: normal_transition_def normal_directive step_cell request_ok_def MAX_PAYLOAD_BYTES_def cas_cell_def
    MAX_GENERATION_def cell_ok_def)

section \<open>Effects\<close>

text \<open>
  C37. Bytes reach a file only in the branch that changes the cell: unless the open flags and the parent
  and nonce pass their checks and the kernel's transition changes the cell, a publication leaves any
  system as it was, with no call at all, and a result it returns reports no stage, no write and no read.
\<close>

theorem no_change_no_effect:
  assumes "\<forall>li t. host_flags_ok h \<longrightarrow> validate_lexical_inputs h parent nonce = Inr li \<longrightarrow>
    cas_step s e p ''apply_intended_acknowledge'' None = Inr t \<longrightarrow> \<not> ct_state_changed t"
  shows "snd (stage_and_fake_publish h os parent nonce s e p w) = w
    \<and> (\<forall>v. fst (stage_and_fake_publish h os parent nonce s e p w) = Inr v \<longrightarrow>
        pr_stage_payload_bytes v = None \<and> pr_stage_payload_sha256 v = None
        \<and> pr_write_call_count v = 0 \<and> pr_read_call_count v = 0 \<and> pr_cas_gate_status v \<noteq> ''intended_acknowledged''
        \<and> ct_after_state (pr_cas_transition v) = s)"
proof (cases "host_flags_ok h \<and> (\<exists>li. validate_lexical_inputs h parent nonce = Inr li)
    \<and> (\<exists>t. normal_transition s e p = Inr t)")
  case False
  from publish_refused [OF this] show ?thesis by (metis fst_conv snd_conv Inl_Inr_False)
next
  case True
  then obtain li t where ok: "host_flags_ok h" "validate_lexical_inputs h parent nonce = Inr li"
    and t: "normal_transition s e p = Inr t" by blast
  then have same: "\<not> ct_state_changed t" using assms ok by (simp add: normal_transition_def)
  have "ct_after_state t = s"
    using t same unfolding normal_transition_iff by (auto simp: cas_cell_def split: if_splits)
  moreover have "orow_gate (OUTCOME_ROWS_STAGE ! stage_row t) \<noteq> ''intended_acknowledged''"
    using same by (simp add: stage_row_def OUTCOME_ROWS_STAGE_def outcome_row_of_def)
  ultimately show ?thesis
    using same by (simp add: publish_accepted [OF ok t] publication_def staged_def reads_of_def)
qed

theorem no_change_no_effect_witness:
  "(\<exists>v. stage_and_fake_publish unix_host disk_os [0x2F] ex_nonce (state_of (1, Some [7])) (version_of (1, Some [7])) [7] empty_disk
      = (Inr v, empty_disk) \<and> pr_write_call_count v = 0)
    \<and> (\<exists>t. cas_step (state_of (0, None)) (version_of (0, None)) [7] ''apply_intended_acknowledge'' None = Inr t \<and> ct_state_changed t)
    \<and> snd (stage_and_fake_publish unix_host disk_os [0x2F] [] (state_of (0, None)) (version_of (0, None)) [7] empty_disk) = empty_disk"
proof (intro conjI)
  obtain li where li: "validate_lexical_inputs unix_host [0x2F] ex_nonce = Inr li" by (rule ex_lexical)
  have same: "\<forall>li t. host_flags_ok unix_host \<longrightarrow> validate_lexical_inputs unix_host [0x2F] ex_nonce = Inr li \<longrightarrow>
    cas_step (state_of (1, Some [7])) (version_of (1, Some [7])) [7] ''apply_intended_acknowledge'' None = Inr t
    \<longrightarrow> \<not> ct_state_changed t"
    using ex_same by (simp add: normal_transition_def)
  note facts = no_change_no_effect [OF same, of disk_os empty_disk]
  obtain v where "fst (stage_and_fake_publish unix_host disk_os [0x2F] ex_nonce (state_of (1, Some [7]))
    (version_of (1, Some [7])) [7] empty_disk) = Inr v"
    by (simp add: publish_accepted [OF unix_host_ok li ex_same] publication_def)
  with facts show "\<exists>v. stage_and_fake_publish unix_host disk_os [0x2F] ex_nonce (state_of (1, Some [7]))
      (version_of (1, Some [7])) [7] empty_disk = (Inr v, empty_disk) \<and> pr_write_call_count v = 0"
    by (metis prod.collapse)
  show "\<exists>t. cas_step (state_of (0, None)) (version_of (0, None)) [7] ''apply_intended_acknowledge'' None = Inr t \<and> ct_state_changed t"
    using ex_change by (auto simp: normal_transition_def)
  have refused: "\<forall>li t. host_flags_ok unix_host \<longrightarrow> validate_lexical_inputs unix_host [0x2F] [] = Inr li \<longrightarrow>
    cas_step (state_of (0, None)) (version_of (0, None)) [7] ''apply_intended_acknowledge'' None = Inr t
    \<longrightarrow> \<not> ct_state_changed t"
    using lexicalD(5) [of unix_host "[0x2F]" "[]"] by (auto simp: lower_hex32_def)
  from no_change_no_effect [OF refused, of disk_os empty_disk]
  show "snd (stage_and_fake_publish unix_host disk_os [0x2F] [] (state_of (0, None)) (version_of (0, None)) [7] empty_disk) = empty_disk"
    by blast
qed

text \<open>
  C35. The file system holds what the result says: whatever writes do inside their own file, a
  publication that returns a staged result found no file at the stage path and leaves there exactly the
  proposed payload; and no publication, returning or failing, changes any other file.
\<close>

theorem staged_file_is_payload:
  assumes posix: "posix_files h os files desc"
    and run: "stage_and_fake_publish h os parent nonce s e p w = (r, w')"
  shows "(\<forall>q. (\<forall>li. validate_lexical_inputs h parent nonce = Inr li \<longrightarrow> q \<noteq> li_stage_path li) \<longrightarrow> files w' q = files w q)
    \<and> (\<forall>v. r = Inr v \<longrightarrow> pr_stage_payload_bytes v \<noteq> None \<longrightarrow>
        files w (pr_stage_path v) = None \<and> files w' (pr_stage_path v) = Some p)"
proof (cases "host_flags_ok h \<and> (\<exists>li. validate_lexical_inputs h parent nonce = Inr li)
    \<and> (\<exists>t. normal_transition s e p = Inr t)")
  case False
  from publish_refused [OF this, of os w] run show ?thesis by auto
next
  case True
  then obtain li t where ok: "host_flags_ok h" and lex: "validate_lexical_inputs h parent nonce = Inr li"
    and t: "normal_transition s e p = Inr t" by blast
  note run' = run [unfolded publish_accepted [OF ok lex t] publication_def]
  show ?thesis
  proof (cases "ct_state_changed t")
    case False
    with run' show ?thesis by (auto simp: staged_def)
  next
    case changed: True
    obtain r1 w1 where staged: "stage_payload h os (li_parent li) (li_stage_path li) p w = (r1, w1)" by fastforce
    note outcome = wp_outcome [OF staging.stage_rule [OF posix_staging [OF posix, where ?w0.0 = w] refl] staged]
    show ?thesis
    proof (cases r1)
      case (Inl err)
      with run' changed staged outcome lex show ?thesis by (auto simp: only_stage_def)
    next
      case (Inr xys)
      obtain x y sha where "xys = (x, y, sha)" by (cases xys)
      with Inr run' changed staged outcome lex show ?thesis by (auto simp: only_stage_def)
    qed
  qed
qed

lemma served_publication:
  assumes serve: "serves h os files desc meta parent (li_stage_path li)" and root: "directory_entry (meta w parent)"
    and ok: "host_flags_ok h" "validate_lexical_inputs h parent nonce = Inr li" "normal_transition s e p = Inr t"
    and changed: "ct_state_changed t" and absent: "files w (li_stage_path li) = None"
  shows "\<exists>x w'. stage_and_fake_publish h os parent nonce s e p w = (Inr (published li t x), w')
    \<and> files w' (li_stage_path li) = Some p"
proof -
  note lexs = lexicalD [OF ok(2)] and ts = normal_transitionD [OF ok(3)]
  from served_stage [OF serve ts(4) root absent] obtain xys w'
    where run: "stage_payload h os parent (li_stage_path li) p w = (Inr xys, w')" "files w' (li_stage_path li) = Some p"
    by blast
  obtain x y sha where "xys = (x, y, sha)" by (cases xys)
  with run changed show ?thesis by (auto simp: publish_accepted [OF ok] publication_def lexs(1))
qed

lemma ex_publication:
  obtains li x w' where "validate_lexical_inputs unix_host [0x2F] ex_nonce = Inr li"
    and "stage_and_fake_publish unix_host disk_os [0x2F] ex_nonce (state_of (0, None)) (version_of (0, None)) [7] empty_disk
      = (Inr (published li (transition_of (0, None) (version_of (0, None)) [7] 0 None 2 (1, Some [7])) x), w')"
    and "dk_files w' (li_stage_path li) = Some [7]"
proof -
  obtain li where li: "validate_lexical_inputs unix_host [0x2F] ex_nonce = Inr li" "li_stage_path li \<noteq> root_path"
    unfolding root_path_def by (rule ex_lexical)
  have "ct_state_changed (transition_of (0, None) (version_of (0, None)) [7] 0 None 2 (1, Some [7]))" by simp
  moreover have "dk_files empty_disk (li_stage_path li) = None" by (simp add: empty_disk_def)
  ultimately show ?thesis
    using that li(1) served_publication [OF disk_serves [OF li(2), unfolded root_path_def]
      disk_entries(2) [unfolded root_path_def] unix_host_ok li(1) ex_change] by blast
qed

theorem staged_file_is_payload_witness:
  "\<exists>v w'. stage_and_fake_publish unix_host disk_os [0x2F] ex_nonce (state_of (0, None)) (version_of (0, None)) [7]
      empty_disk = (Inr v, w')
    \<and> dk_files w' (pr_stage_path v) = Some [7] \<and> dk_files w' [0x2F] = None"
proof -
  obtain li x w' where li: "validate_lexical_inputs unix_host [0x2F] ex_nonce = Inr li"
    and run: "stage_and_fake_publish unix_host disk_os [0x2F] ex_nonce (state_of (0, None)) (version_of (0, None)) [7] empty_disk
      = (Inr (published li (transition_of (0, None) (version_of (0, None)) [7] 0 None 2 (1, Some [7])) x), w')"
    by (rule ex_publication)
  from staged_file_is_payload [OF disk_posix run] li lexicalD(10) [OF li] run show ?thesis
    by (auto simp: staged_def empty_disk_def)
qed

text \<open>
  C36. A publication that changes the cell succeeds wherever the system serves: if the parent is a
  directory, no file is at the stage path, and the calls on the two are answered as documented, writes as
  short as they please and times and sizes moving as they do, then it returns a result, with the kernel's
  transition, and the payload is in the stage file.
\<close>

theorem served_publication_succeeds:
  assumes "serves h os files desc meta parent (li_stage_path li)" and "directory_entry (meta w parent)"
    and "host_flags_ok h" and "validate_lexical_inputs h parent nonce = Inr li"
    and "cas_step s e p ''apply_intended_acknowledge'' None = Inr t" and "ct_state_changed t"
    and "files w (li_stage_path li) = None"
  shows "\<exists>v w'. stage_and_fake_publish h os parent nonce s e p w = (Inr v, w')
    \<and> pr_cas_transition v = t \<and> pr_stage_payload_sha256 v = Some (sha256_hex p)
    \<and> pr_cas_gate_status v = ''intended_acknowledged'' \<and> files w' (li_stage_path li) = Some p"
proof -
  have t: "normal_transition s e p = Inr t" using assms(5) by (simp add: normal_transition_def)
  from served_publication [OF assms(1-4) t assms(6,7)] normal_transitionD(3) [OF t] assms(6) show ?thesis
    by (auto simp: staged_def stage_row_def OUTCOME_ROWS_STAGE_def outcome_row_of_def)
qed

theorem served_publication_succeeds_witness:
  "\<exists>li v w'. validate_lexical_inputs unix_host [0x2F] ex_nonce = Inr li
    \<and> stage_and_fake_publish unix_host disk_os [0x2F] ex_nonce (state_of (0, None)) (version_of (0, None)) [7] empty_disk = (Inr v, w')
    \<and> dk_files w' (li_stage_path li) = Some [7]"
proof -
  obtain li where li: "validate_lexical_inputs unix_host [0x2F] ex_nonce = Inr li" "li_stage_path li \<noteq> root_path"
    unfolding root_path_def by (rule ex_lexical)
  have t: "cas_step (state_of (0, None)) (version_of (0, None)) [7] ''apply_intended_acknowledge'' None =
    Inr (transition_of (0, None) (version_of (0, None)) [7] 0 None 2 (1, Some [7]))"
    using ex_change by (simp add: normal_transition_def)
  have changed: "ct_state_changed (transition_of (0, None) (version_of (0, None)) [7] 0 None 2 (1, Some [7]))" by simp
  have absent: "dk_files empty_disk (li_stage_path li) = None" by (simp add: empty_disk_def)
  from served_publication_succeeds [OF disk_serves [OF li(2), unfolded root_path_def]
    disk_entries(2) [unfolded root_path_def] unix_host_ok li(1) t changed absent] li show ?thesis by blast
qed

section \<open>Counts\<close>

text \<open>
  C38. The counts of a result are the calls that were made: run on a system that counts, a publication
  returns exactly the numbers of writes and reads it made. Returning or failing, on any system, it makes
  at most one write per byte of the payload and one read per started chunk and one more, within the
  bounds the result carries.
\<close>

theorem call_counts:
  "case stage_and_fake_publish h (counting os) parent nonce s e p (w, a, b) of (r, w', a', b') \<Rightarrow>
     a \<le> a' \<and> a' \<le> a + length p \<and> b \<le> b' \<and> int b' \<le> int b + chunks (int (length p)) + 1
     \<and> (case r of Inl _ \<Rightarrow> True | Inr v \<Rightarrow>
          pr_write_call_count v = int a' - int a \<and> pr_read_call_count v = int b' - int b
        \<and> pr_write_call_count v \<le> pr_write_call_upper_bound v \<and> pr_read_call_count v \<le> pr_read_call_upper_bound v
        \<and> (if pr_stage_payload_bytes v = None then pr_write_call_count v = 0 \<and> pr_read_call_count v = 0
           else chunks (int (length p)) \<le> pr_write_call_count v \<and> pr_read_call_count v = chunks (int (length p)) + 1))"
proof (cases "host_flags_ok h \<and> (\<exists>li. validate_lexical_inputs h parent nonce = Inr li)
    \<and> (\<exists>t. normal_transition s e p = Inr t)")
  case False
  from publish_refused [OF this, of "counting os" "(w, a, b)"] chunks_nonneg [of "int (length p)"]
  show ?thesis by auto
next
  case True
  then obtain li t where ok: "host_flags_ok h" and lex: "validate_lexical_inputs h parent nonce = Inr li"
    and t: "normal_transition s e p = Inr t" by blast
  note ts = normal_transitionD [OF t]
  have whole: "0 \<le> chunks (int (length p))" "chunks (int (length p)) \<le> 16"
    using chunks_bounds ts(4) by simp_all
  have limits: "pr_write_call_upper_bound (published li t x) = MAX_WRITE_CALLS"
    "pr_read_call_upper_bound (published li t x) = MAX_READ_CALLS" for x
    by (simp_all add: published_def result_fields_def)
  show ?thesis
  proof (cases "ct_state_changed t")
    case False
    with whole limits show ?thesis
      by (auto simp: publish_accepted [OF ok lex t] publication_def reads_of_def staged_def MAX_WRITE_CALLS_def MAX_READ_CALLS_def)
  next
    case changed: True
    obtain r1 w1 a1 b1 where staged:
      "stage_payload h (counting os) (li_parent li) (li_stage_path li) p (w, a, b) = (r1, w1, a1, b1)" by (metis prod.collapse)
    note outcome = wp_outcome [OF counted.stage_rule [where ?a0.0 = a and ?b0.0 = b] staged, simplified]
    show ?thesis
    proof (cases r1)
      case (Inl err)
      with changed staged outcome show ?thesis by (simp add: publish_accepted [OF ok lex t] publication_def)
    next
      case (Inr xys)
      obtain x y sha where "xys = (x, y, sha)" by (cases xys)
      with Inr changed staged outcome whole limits ts(3,4) show ?thesis
        by (auto simp: publish_accepted [OF ok lex t] publication_def reads_of_def staged_def MAX_WRITE_CALLS_def
          MAX_READ_CALLS_def MAX_PAYLOAD_BYTES_STAGE_def)
    qed
  qed
qed

section \<open>Results\<close>

lemma published_cases:
  assumes "stage_and_fake_publish h os parent nonce s e p w = (Inr v, w')"
  obtains li t x where "host_flags_ok h" "validate_lexical_inputs h parent nonce = Inr li"
    "normal_transition s e p = Inr t" "v = published li t x" "writes_ok t x"
proof (cases "host_flags_ok h \<and> (\<exists>li. validate_lexical_inputs h parent nonce = Inr li)
    \<and> (\<exists>t. normal_transition s e p = Inr t)")
  case False
  from publish_refused [OF this, of os w] assms show ?thesis by auto
next
  case True
  then obtain li t where ok: "host_flags_ok h" "validate_lexical_inputs h parent nonce = Inr li"
    "normal_transition s e p = Inr t" by blast
  note run = assms [unfolded publish_accepted [OF ok] publication_def]
  show ?thesis
  proof (cases "ct_state_changed t")
    case False
    then have "writes_ok t 0" "v = published li t 0" using run by (simp_all add: writes_ok_def)
    with ok that show ?thesis by blast
  next
    case True
    then obtain x y sha w1 where staged: "stage_payload h os (li_parent li) (li_stage_path li) p w = (Inr (x, y, sha), w1)"
      and v: "v = published li t x"
      using run by (auto split: prod.splits sum.splits)
    from stage_values(1,2) [OF staged] True normal_transitionD(3) [OF ok(3)] have "writes_ok t x"
      by (simp add: writes_ok_def)
    with ok v that show ?thesis by blast
  qed
qed

text \<open>
  C39. Results are well-formed and determined: a returned result passes the validation of its type, its
  transition is the kernel's for the inputs, and it is the only value of the type that validates with its
  parent, nonce, transition and number of writes.
\<close>

theorem returned_result_valid:
  assumes "stage_and_fake_publish h os parent nonce s e p w = (Inr v, w')"
  shows "validate_result h (built_identity (pr_cas_transition v)) v = Inr ()
    \<and> cas_step s e p ''apply_intended_acknowledge'' None = Inr (pr_cas_transition v)
    \<and> pr_staging_parent v = parent \<and> pr_collision_nonce v = nonce
    \<and> (\<forall>u. validate_result h (built_identity (pr_cas_transition v)) u = Inr ()
        \<and> pr_staging_parent u = parent \<and> pr_collision_nonce u = nonce
        \<and> pr_cas_transition u = pr_cas_transition v \<and> pr_write_call_count u = pr_write_call_count v \<longrightarrow> u = v)"
proof -
  from assms obtain li t x where ok: "host_flags_ok h" and lex: "validate_lexical_inputs h parent nonce = Inr li"
    and t: "normal_transition s e p = Inr t" and v: "v = published li t x" "writes_ok t x"
    by (rule published_cases)
  have unique: "u = v" if "validate_result h (built_identity t) u = Inr ()" "pr_staging_parent u = parent"
    "pr_collision_nonce u = nonce" "pr_cas_transition u = t" "pr_write_call_count u = x" for u
    using that derive_stage_iff [OF lex t ok, of x] v
    by (auto simp: validate_result_def bindE_eq_Inr guardE_def split: if_splits)
  have fields: "pr_cas_transition v = t" "pr_write_call_count v = x" "pr_staging_parent v = parent"
    "pr_collision_nonce v = nonce"
    using lexicalD(1,2) [OF lex] by (simp_all add: v(1))
  have valid: "validate_result h (built_identity t) v = Inr ()"
    using mk_published(1) [OF lex t ok v(2)] by (simp only: v(1))
  have step: "cas_step s e p ''apply_intended_acknowledge'' None = Inr t"
    using t by (simp add: normal_transition_def)
  show ?thesis
    unfolding fields using valid step unique by blast
qed

theorem returned_result_valid_witness:
  "\<exists>v w'. stage_and_fake_publish unix_host disk_os [0x2F] ex_nonce (state_of (0, None)) (version_of (0, None)) [7] empty_disk = (Inr v, w')
    \<and> validate_result unix_host (built_identity (pr_cas_transition v)) v = Inr ()"
proof -
  obtain li x w' where run: "stage_and_fake_publish unix_host disk_os [0x2F] ex_nonce (state_of (0, None)) (version_of (0, None)) [7] empty_disk
      = (Inr (published li (transition_of (0, None) (version_of (0, None)) [7] 0 None 2 (1, Some [7])) x), w')"
    by (rule ex_publication)
  from returned_result_valid [OF run] run show ?thesis by blast
qed

text \<open>The bytes whose hash is the operation hash of a result, read off its fields.\<close>

definition operation_of :: "publish_result \<Rightarrow> bytes" where
  "operation_of v = operation_bytes (utf8_raw (pr_staging_parent v)) (fromhex_lower (pr_collision_nonce v))
     (pr_cas_transition v) (pr_write_call_count v)"

lemma nibble_inj:
  assumes "lower_hex_cp a" "lower_hex_cp b" "nibble a = nibble b"
  shows "a = b"
proof -
  have "unat a = unat b"
    using assms by (auto simp: lower_hex_cp_def nibble_def word_le_nat_alt split: if_splits)
  then show ?thesis by (simp add: word_unat_eq_iff)
qed

lemma nibble_less: "lower_hex_cp a \<Longrightarrow> nibble a < 16"
  by (auto simp: lower_hex_cp_def nibble_def word_le_nat_alt)

lemma hex_digits: "16 * x + y = 16 * x' + y' \<Longrightarrow> y < 16 \<Longrightarrow> y' < 16 \<Longrightarrow> x = x' \<and> y = y'" for x y :: nat
proof -
  assume eq: "16 * x + y = 16 * x' + y'" and "y < 16" "y' < 16"
  then have "x = (16 * x + y) div 16" "x' = (16 * x' + y') div 16" by simp_all
  with eq have "x = x'" by simp
  with eq show ?thesis by simp
qed

lemma fromhex_inj:
  "list_all lower_hex_cp s \<Longrightarrow> list_all lower_hex_cp t \<Longrightarrow> length s = length t \<Longrightarrow> even (length s) \<Longrightarrow>
    fromhex_lower s = fromhex_lower t \<Longrightarrow> s = t"
proof (induction s arbitrary: t rule: fromhex_lower.induct)
  case (1 a b cs)
  then obtain a' b' ds where t: "t = a' # b' # ds" by (cases t; cases "tl t") auto
  have small: "16 * nibble x + nibble y < 256" if "lower_hex_cp x" "lower_hex_cp y" for x y
    using nibble_less [OF that(1)] nibble_less [OF that(2)] by simp
  from 1(6) t have "(of_nat (16 * nibble a + nibble b) :: byte) = of_nat (16 * nibble a' + nibble b')" by simp
  then have "16 * nibble a + nibble b = 16 * nibble a' + nibble b'"
    using unat_byte [OF small [of a b]] unat_byte [OF small [of a' b']] 1(2,3) t by (metis list.pred_inject(2))
  then have "nibble a = nibble a'" "nibble b = nibble b'"
    using nibble_less [of b] nibble_less [of b'] 1(2,3) t hex_digits [of "nibble a" "nibble b"] by auto
  then show ?case using 1 t nibble_inj by auto
qed auto

lemma operation_bytes_inj:
  assumes eq: "operation_bytes parent nonce t x = operation_bytes parent' nonce' t' x'"
    and "length parent < 256 ^ 4" "length parent' < 256 ^ 4" "length nonce = 16" "length nonce' = 16"
    and hash: "is_upper_hex64 (ct_transition_sha256 t)" "is_upper_hex64 (ct_transition_sha256 t')"
    and payload: "payload_ok (staged t)" "payload_ok (staged t')"
    and writes: "0 \<le> x" "nat x < 256 ^ 8" "0 \<le> x'" "nat x' < 256 ^ 8"
  shows "parent = parent' \<and> nonce = nonce' \<and> ct_transition_sha256 t = ct_transition_sha256 t'
    \<and> staged t = staged t' \<and> x = x'"
proof -
  note parts = eq [unfolded operation_bytes_def]
  from parts have sizes: "be_bytes 4 (length parent) = be_bytes 4 (length parent')" by (auto simp: append_eq_append_conv)
  then have "length parent = length parent'" using assms(2,3) be_bytes_inj by blast
  with parts have "parent = parent'" and rest: "nonce @ unhex (ct_transition_sha256 t)
      @ [of_nat (stage_row t + 1), if ct_state_changed t then 2 else 1, if ct_state_changed t then 2 else 1]
      @ optional_bytes (staged t) @ be_bytes 8 (nat x) @ be_bytes 8 (nat (reads_of t)) =
    nonce' @ unhex (ct_transition_sha256 t')
      @ [of_nat (stage_row t' + 1), if ct_state_changed t' then 2 else 1, if ct_state_changed t' then 2 else 1]
      @ optional_bytes (staged t') @ be_bytes 8 (nat x') @ be_bytes 8 (nat (reads_of t'))"
    by (simp_all add: sizes append_eq_append_conv)
  from rest have "nonce = nonce'" and tail: "unhex (ct_transition_sha256 t)
      @ [of_nat (stage_row t + 1), if ct_state_changed t then 2 else 1, if ct_state_changed t then 2 else 1]
      @ optional_bytes (staged t) @ be_bytes 8 (nat x) @ be_bytes 8 (nat (reads_of t)) =
    unhex (ct_transition_sha256 t')
      @ [of_nat (stage_row t' + 1), if ct_state_changed t' then 2 else 1, if ct_state_changed t' then 2 else 1]
      @ optional_bytes (staged t') @ be_bytes 8 (nat x') @ be_bytes 8 (nat (reads_of t'))"
    using assms(4,5) by (simp_all add: append_eq_append_conv)
  from tail have "unhex (ct_transition_sha256 t) = unhex (ct_transition_sha256 t')"
    and framed: "optional_bytes (staged t) @ be_bytes 8 (nat x) @ be_bytes 8 (nat (reads_of t)) =
      optional_bytes (staged t') @ be_bytes 8 (nat x') @ be_bytes 8 (nat (reads_of t'))"
    using length_unhex64 [OF hash(1)] length_unhex64 [OF hash(2)] by (simp_all add: append_eq_append_conv)
  with unhex_inj64 hash have "ct_transition_sha256 t = ct_transition_sha256 t'" by blast
  moreover from optional_bytes_inj [OF framed payload] have "staged t = staged t'" "be_bytes 8 (nat x) = be_bytes 8 (nat x')"
    by (simp_all add: append_eq_append_conv)
  then have "staged t = staged t'" "nat x = nat x'" using writes be_bytes_inj by blast+
  ultimately show ?thesis using \<open>parent = parent'\<close> \<open>nonce = nonce'\<close> writes by simp
qed

lemma operation_of_published:
  assumes "validate_lexical_inputs h parent nonce = Inr li"
  shows "operation_of (published li t x) = operation_bytes (li_parent_bytes li) (li_nonce_bytes li) t x"
proof -
  have "li_parent_bytes li = utf8_raw parent"
    using lexicalD(3) [OF assms] by (auto simp: utf8_def split: if_splits)
  then show ?thesis using lexicalD(1,2,6) [OF assms] by (simp add: operation_of_def)
qed

text \<open>
  The operation hash commits: two results returned anywhere, to any calls, that carry the same
  operation hash have the same parent, nonce and counts, the same transition hash and the same staged
  payload, or the bytes hashed for them are a SHA-256 collision.
\<close>

theorem operation_hash_commits:
  assumes run: "stage_and_fake_publish h os parent nonce s e p w = (Inr v, w1)"
    and run': "stage_and_fake_publish h' os' parent' nonce' s' e' p' w' = (Inr v', w1')"
    and same: "pr_operation_sha256 v = pr_operation_sha256 v'"
  shows "parent = parent' \<and> nonce = nonce'
      \<and> ct_transition_sha256 (pr_cas_transition v) = ct_transition_sha256 (pr_cas_transition v')
      \<and> pr_write_call_count v = pr_write_call_count v' \<and> pr_stage_payload_bytes v = pr_stage_payload_bytes v'
      \<and> (pr_stage_payload_bytes v = None \<or> p = p')
    \<or> sha256_collision (operation_of v) (operation_of v')"
proof -
  from run obtain li t x where lex: "validate_lexical_inputs h parent nonce = Inr li"
    and t: "normal_transition s e p = Inr t" and v: "v = published li t x" "writes_ok t x" by (rule published_cases)
  from run' obtain li' t' x' where lex': "validate_lexical_inputs h' parent' nonce' = Inr li'"
    and t': "normal_transition s' e' p' = Inr t'" and v': "v' = published li' t' x'" "writes_ok t' x'" by (rule published_cases)
  note lexs = lexicalD [OF lex] and lexs' = lexicalD [OF lex'] and ts = normal_transitionD [OF t] and ts' = normal_transitionD [OF t']
  have bounds: "payload_ok (staged u) \<and> 0 \<le> y \<and> nat y < 256 ^ 8"
    if "int (length (ct_proposed_payload u)) \<le> MAX_PAYLOAD_BYTES_STAGE" "writes_ok u y" for u y
  proof -
    have "0 \<le> chunks (int (length (ct_proposed_payload u)))" by (simp add: chunks_nonneg)
    with that show ?thesis
      by (auto simp: writes_ok_def staged_def MAX_PAYLOAD_BYTES_STAGE_def MAX_PAYLOAD_BYTES_def nat_less_iff split: if_splits)
  qed
  have "operation_of v = operation_of v' \<or> sha256_collision (operation_of v) (operation_of v')"
    using same operation_of_published [OF lex] operation_of_published [OF lex'] by (simp add: v(1) v'(1) sha256_hex_eq)
  moreover have "parent = parent' \<and> nonce = nonce' \<and> ct_transition_sha256 t = ct_transition_sha256 t'
      \<and> staged t = staged t' \<and> x = x'" if "operation_of v = operation_of v'"
  proof -
    have bytes: "operation_bytes (li_parent_bytes li) (li_nonce_bytes li) t x = operation_bytes (li_parent_bytes li') (li_nonce_bytes li') t' x'"
      using that operation_of_published [OF lex] operation_of_published [OF lex'] by (simp add: v(1) v'(1))
    have sizes: "length (li_parent_bytes li) < 256 ^ 4" "length (li_parent_bytes li') < 256 ^ 4"
      using lexs(4) lexs'(4) by (simp_all add: MAX_STAGING_PARENT_UTF8_BYTES_def)
    have b: "payload_ok (staged t)" "0 \<le> x" "nat x < 256 ^ 8" "payload_ok (staged t')" "0 \<le> x'" "nat x' < 256 ^ 8"
      using bounds [OF _ v(2)] bounds [OF _ v'(2)] ts(3,4) ts'(3,4) by metis+
    have "li_parent_bytes li = li_parent_bytes li' \<and> li_nonce_bytes li = li_nonce_bytes li'
        \<and> ct_transition_sha256 t = ct_transition_sha256 t' \<and> staged t = staged t' \<and> x = x'"
      by (rule operation_bytes_inj [OF bytes sizes lexs(7) lexs'(7) ts(5) ts'(5) b(1,4,2,3,5,6)])
    moreover have "parent = parent'" if "li_parent_bytes li = li_parent_bytes li'"
      using lexs(3) lexs'(3) that utf8_inj by metis
    moreover have "nonce = nonce'" if "li_nonce_bytes li = li_nonce_bytes li'"
      using lexs(5,6) lexs'(5,6) that fromhex_inj [of nonce nonce'] by (simp add: lower_hex32_def)
    ultimately show ?thesis by blast
  qed
  ultimately show ?thesis
    using ts(3) ts'(3) by (auto simp: v(1) v'(1) staged_def split: if_splits)
qed

theorem operation_hash_commits_witness:
  "\<exists>v w'. stage_and_fake_publish unix_host disk_os [0x2F] ex_nonce (state_of (0, None)) (version_of (0, None)) [7] empty_disk = (Inr v, w')
    \<and> (ct_transition_sha256 (pr_cas_transition v) = ct_transition_sha256 (pr_cas_transition v)
      \<or> sha256_collision (operation_of v) (operation_of v))"
proof -
  obtain li x w' where run: "stage_and_fake_publish unix_host disk_os [0x2F] ex_nonce (state_of (0, None)) (version_of (0, None)) [7] empty_disk
      = (Inr (published li (transition_of (0, None) (version_of (0, None)) [7] 0 None 2 (1, Some [7])) x), w')"
    by (rule ex_publication)
  from operation_hash_commits [OF run run refl] run show ?thesis by blast
qed

text \<open>
  C40. Publishing again is publishing nothing: after a result whose version was the expected one, a
  publication of the same payload on the state of that result, on any system and with any parent and
  nonce that pass the lexical checks, returns \<^verbatim>\<open>existing_identical\<close>, keeps the state and makes no call.
\<close>

theorem republication_is_identical:
  assumes run: "stage_and_fake_publish h os parent nonce s e p w = (Inr v, w1)"
    and gate: "pr_cas_gate_status v \<noteq> ''conflict''"
    and again: "s' = ct_after_state (pr_cas_transition v)"
    and lex: "validate_lexical_inputs h' parent' nonce' = Inr li'" and host: "host_flags_ok h'"
  shows "\<exists>v'. stage_and_fake_publish h' os' parent' nonce' s' (cs_state_version_sha256 s') p w' = (Inr v', w')
    \<and> pr_cas_gate_status v' = ''existing_identical'' \<and> ct_after_state (pr_cas_transition v') = s'"
proof -
  from run obtain li t x where t: "normal_transition s e p = Inr t" and v: "v = published li t x" by (rule published_cases)
  from t obtain c k c' where c: "cell_ok c" "request_ok e p 0 None"
    "cas_cell (e = version_of c) p 0 None c = Inr (k, c')" "t = transition_of c e p 0 None k c'"
    unfolding normal_transition_iff by blast
  have "k \<noteq> 0"
  proof
    assume "k = 0"
    with c(4) gate v show False
      by (simp add: stage_row_def OUTCOMES_def OUTCOME_ROWS_STAGE_def outcome_row_of_def)
  qed
  define d where "d = (if k < 2 then c else c')"
  have d: "cell_ok d" "snd d = Some p" "s' = state_of d"
    using c cas_cell_ok(1) [OF c(3,1,2)] \<open>k \<noteq> 0\<close> by (auto simp: d_def cas_cell_def again v split: if_splits)
  have request: "request_ok (version_of d) p 0 None" using c(2) by (simp add: request_ok_def)
  have same: "cas_cell (version_of d = version_of d) p 0 None d = Inr (1, d)" using d(2) by (simp add: cas_cell_def)
  have t': "normal_transition s' (cs_state_version_sha256 s') p = Inr (transition_of d (version_of d) p 0 None 1 d)"
    unfolding normal_transition_iff d(3) state_of_fields using d(1) request same by blast
  have "stage_row (transition_of d (version_of d) p 0 None 1 d) = 1"
    by (simp add: stage_row_def OUTCOMES_def)
  then show ?thesis
    unfolding publish_accepted [OF host lex t'] publication_def
    by (simp add: d(3) OUTCOME_ROWS_STAGE_def outcome_row_of_def)
qed

theorem republication_is_identical_witness:
  "\<exists>v w'. stage_and_fake_publish unix_host disk_os [0x2F] ex_nonce (state_of (0, None)) (version_of (0, None)) [7] empty_disk = (Inr v, w')
    \<and> (\<exists>v'. stage_and_fake_publish unix_host disk_os [0x2F] ex_nonce (ct_after_state (pr_cas_transition v))
          (cs_state_version_sha256 (ct_after_state (pr_cas_transition v))) [7] w' = (Inr v', w')
        \<and> pr_cas_gate_status v' = ''existing_identical'')"
proof -
  obtain li x w' where li: "validate_lexical_inputs unix_host [0x2F] ex_nonce = Inr li"
    and run: "stage_and_fake_publish unix_host disk_os [0x2F] ex_nonce (state_of (0, None)) (version_of (0, None)) [7] empty_disk
      = (Inr (published li (transition_of (0, None) (version_of (0, None)) [7] 0 None 2 (1, Some [7])) x), w')"
    by (rule ex_publication)
  have gate: "pr_cas_gate_status (published li (transition_of (0, None) (version_of (0, None)) [7] 0 None 2 (1, Some [7])) x)
      \<noteq> ''conflict''"
    by (simp add: stage_row_def OUTCOME_ROWS_STAGE_def outcome_row_of_def)
  from republication_is_identical [OF run gate refl li unix_host_ok, of disk_os w'] run show ?thesis by blast
qed

end
