(* ===== verification/Spec2Isabelle.thy ===== *)
theory Spec2Isabelle
  imports ReachableChart_Props PartitionProps FakeCasProps LedgerProps AuditQueueProps
    HankelProps ReservationProps StagingProps
begin

text \<open>
  A model of the exact finite core of the ODLRQ packages of \<^verbatim>\<open>lean_rgc\<close> and of the evidence
  kernels of its evaluation packages, and of the job queue that feeds its Lean workers.

  \<^bold>\<open>Parts and how they interact.\<close> \<^verbatim>\<open>odlrq/rule_algebra.py\<close> defines states, oracle events and word
  outcomes; \<^verbatim>\<open>odlrq/reachable_chart.py\<close> explores a transition oracle up to a word depth and
  seals what it found as a chart, whose responses \<^verbatim>\<open>odlrq/hankel.py\<close> reads into Hankel matrices of
  exact rank. \<^verbatim>\<open>odlrq/adapters.py\<close> admits a finite snapshot of states and
  actions (\<^verbatim>\<open>odlrq/contracts.py\<close>), and \<^verbatim>\<open>odlrq/behavioral_partition.py\<close> computes its coarsest
  response congruence as a certificate, which an independent verifier checks. Beside them,
  \<^verbatim>\<open>evals/uprime_rpc_fake_cas_kernel.py\<close> is a compare-and-swap cell whose states and transitions
  are bound by SHA-256, and \<^verbatim>\<open>evals/uprime_rpc_ledger.py\<close> keeps hash-chained records of canonical
  JSON in an append-only file that a scanner verifies. The same canonical JSON carries the
  reservations that \<^verbatim>\<open>evals/uprime_rpc_bundle_reservation.py\<close> checks, and
  \<^verbatim>\<open>evals/uprime_rpc_local_staging_fake_publisher.py\<close> writes the payload of a compare-and-swap step to a
  stage file before it hands out the step. \<^verbatim>\<open>audit_job_queue.py\<close> is the
  table from which the loop of \<^verbatim>\<open>lean/worker_supervisor.py\<close> leases jobs; the loop writes back results,
  timeout events and, through \<^verbatim>\<open>action_quarantine.py\<close>, the actions to avoid.

  \<^bold>\<open>Conventions.\<close> A dataclass is a record, with its constructor checks as a \<^verbatim>\<open>mk_\<close> function that
  returns the record or the error; an exception is the left value of a sum; a dict is an
  association list in insertion order; a Python string is a list of code points (\<^verbatim>\<open>21 word\<close>), so
  lone surrogates are values; Python integers are \<^verbatim>\<open>int\<close>. Checks of the form
  \<^verbatim>\<open>type(x) is T\<close> hold by typing where the field has one type in the model.

  \<^bold>\<open>Theories.\<close>
  \<^item> \<^verbatim>\<open>Prelude\<close>, \<^verbatim>\<open>Bytes_Hash\<close>, \<^verbatim>\<open>Py_Json\<close>: results and loops that may fail, dicts, byte
    strings, SHA-256, code points and UTF-8, JSON values and their equality.
  \<^item> \<^verbatim>\<open>RuleAlgebra\<close>: \<^verbatim>\<open>odlrq/rule_algebra.py\<close>, with the properties of words and outcomes.
  \<^item> \<^verbatim>\<open>ReachableChart\<close>: the builder of \<^verbatim>\<open>odlrq/reachable_chart.py\<close>, its state as the record
    \<^verbatim>\<open>builder\<close>. The oracle and the discard callback are parameters. \<^verbatim>\<open>ReachableChart_Tables\<close>,
    \<^verbatim>\<open>_Words\<close>, \<^verbatim>\<open>_Build\<close> and \<^verbatim>\<open>_Errors\<close> carry the invariants of the state table, the word
    table, the whole build and the failing build; \<^verbatim>\<open>_Props\<close> states the properties.
  \<^item> \<^verbatim>\<open>Hankel\<close>: exact rank, the matrix of one cutoff and the probe of \<^verbatim>\<open>odlrq/hankel.py\<close>; what the
    singular value decomposition returns is the parameter \<^verbatim>\<open>svd_env\<close>. \<^verbatim>\<open>HankelRank\<close> makes rational rows
    a vector space and shows that the elimination computes a dimension; \<^verbatim>\<open>HankelProps\<close> states the matrix
    of a cutoff and the properties.
  \<^item> \<^verbatim>\<open>PartitionData\<close>: the work ledger, the certificate records, their checks and their codec,
    the wire preflight; \<^verbatim>\<open>PartitionCodec\<close> shows the round trips.
  \<^item> \<^verbatim>\<open>PartitionSource\<close>: the finite snapshot, its admission and the charges of its preparation.
  \<^item> \<^verbatim>\<open>PartitionRefine\<close>: producer and verifier. \<^verbatim>\<open>PartitionGroups\<close> (grouping by signature and by
    relation as two instances of one locale), \<^verbatim>\<open>PartitionMoore\<close> (agreement on words of bounded
    length), \<^verbatim>\<open>PartitionFixpoint\<close> (each pass is one level, the loop stops at the coarsest
    congruence), \<^verbatim>\<open>PartitionWords\<close> (the pair search and shortest words), \<^verbatim>\<open>PartitionCertify\<close>
    (quotient and words) and \<^verbatim>\<open>PartitionExact\<close> (both sides compute the exact answer) lead to
    \<^verbatim>\<open>PartitionProps\<close>. \<^verbatim>\<open>PartitionEval\<close> and \<^verbatim>\<open>PartitionExample\<close> run both sides on a concrete
    three-state snapshot, which its constructor returns unchanged.
  \<^item> \<^verbatim>\<open>SnapshotForm\<close>: the constructors of a snapshot, its members, its domain and its response
    vocabulary in \<^verbatim>\<open>odlrq/contracts.py\<close>, over the strict JSON of \<^verbatim>\<open>lean/kernel_state_identity.py\<close>, whose
    scanner is the one of \<^verbatim>\<open>StrictJson\<close> with other hooks. \<^verbatim>\<open>SnapshotFacts\<close> shows what they do on
    ASCII fields. The properties of partitions hold for every record, constructed or not.

  \<^item> \<^verbatim>\<open>FakeCas\<close>: values, effects, states and transitions of the compare-and-swap kernel with all
    their checks; \<^verbatim>\<open>FakeCasCells\<close> is the abstract cell it refines, \<^verbatim>\<open>FakeCasSteps\<close> the facts about
    one step, \<^verbatim>\<open>FakeCasProps\<close> the properties.
  \<^item> \<^verbatim>\<open>StrictJson\<close>: the JSON algebra of the ledger with \<^verbatim>\<open>json.dumps\<close> and \<^verbatim>\<open>json.loads\<close> as the
    module calls them. \<^verbatim>\<open>StrictJsonTrip\<close> (strings and numbers), \<^verbatim>\<open>StrictJsonRound\<close> (values) and
    \<^verbatim>\<open>StrictJsonBytes\<close> (bytes) show that parsing inverts serialization and accepts nothing else.
  \<^item> \<^verbatim>\<open>Ledger\<close>: records, scanner, attestations; \<^verbatim>\<open>LedgerWriter\<close>: \<^verbatim>\<open>StandaloneChainWriter\<close>. What the
    system calls answer is an argument (\<^verbatim>\<open>file_view\<close>, \<^verbatim>\<open>scan_env\<close>, \<^verbatim>\<open>append_io\<close>), so every failure is a
    branch. \<^verbatim>\<open>LedgerText\<close> (no line feed in canonical text), \<^verbatim>\<open>LedgerChain\<close> (the envelope check
    accepts what the builder builds), \<^verbatim>\<open>LedgerScan\<close> (the scanner accepts exactly the chains),
    \<^verbatim>\<open>HashChain\<close> (the contract of a hash chain as a locale) with its interpretation in
    \<^verbatim>\<open>LedgerTamper\<close>, \<^verbatim>\<open>LedgerWriterInv\<close> (the invariant of the writer), \<^verbatim>\<open>LedgerAscii\<close> (ASCII texts
    keep their length) and \<^verbatim>\<open>LedgerClose\<close> (the closure always fits) lead to \<^verbatim>\<open>LedgerProps\<close>.
  \<^item> \<^verbatim>\<open>Reservation\<close>: the verifier of bundle reservations: the two passes over the file, the
    validators, the path and token checks; the system calls' answers are the record
    \<open>reservation_env\<close>. \<^verbatim>\<open>ReservationFields\<close> states what a claim is and the fields it determines,
    \<^verbatim>\<open>ReservationParse\<close> shows that the validators accept exactly those, \<^verbatim>\<open>ReservationProps\<close> states
    the properties.
  \<^item> \<^verbatim>\<open>Publisher\<close> and \<^verbatim>\<open>Staging\<close>: the values and the effects of the local publisher. The operating
    system is the record \<open>os_calls\<close> of functions on a state of any type, a computation maps that state to
    a value or an error and the next state, and nothing is assumed of the calls in the model.
    \<^verbatim>\<open>PublisherFacts\<close> has the result in closed form, \<^verbatim>\<open>StagingFacts\<close> weakest preconditions and a rule per
    loop, \<^verbatim>\<open>StagingContract\<close> the locale that carries what is known of each call through a staging,
    \<^verbatim>\<open>StagingCalls\<close> its instances for counted calls and for the files of a system (\<open>posix_files\<close>, which
    assumes nothing of what a write leaves in its own file), \<^verbatim>\<open>StagingServes\<close> a system whose calls on
    a directory and one path in it succeed (\<open>serves\<close>; times and sizes of both may move),
    \<^verbatim>\<open>StagingProps\<close> the properties and the small file system their witnesses run on.
  \<^item> \<^verbatim>\<open>AuditQueue\<close>: the job table as the list of its rows, and the calls that enqueue, lease, mark,
    cancel and count. The order in which SQLite visits rows is the parameter \<^verbatim>\<open>visit\<close>, of which only
    that it keeps the rows is assumed; \<^verbatim>\<open>REAL\<close> columns are rationals and every clock reading is an
    argument. \<^verbatim>\<open>AuditWorker\<close>: the quarantine, and the worker loop on a list of \<^verbatim>\<open>tick\<close>s, each what
    the clock and the child process of one pass answer. \<^verbatim>\<open>AuditQueueFacts\<close> has the invariant of the
    table under every call and \<^verbatim>\<open>AuditQueueProps\<close> the properties, with two observations:
    \<^verbatim>\<open>include_quarantined\<close> changes nothing, and two workers whose selects come before their updates
    share a job, so that the exclusion of leases is a property of whole calls.

  \<^bold>\<open>Bounds and fuel.\<close> The JSON parser carries fuel, one more than the length of the text: each
  level of a value consumes a character, so a canonical text never runs out, which the round trip
  shows; a text that runs out is not canonical and rejected either way. The loop of \<^verbatim>\<open>refine_exact_partition\<close> carries the strict rounds still
  allowed, as the source counts them; the word reconstruction recurses on the distance; the
  worklists recurse on what is not yet visited; the scanner recurses on the bytes not yet read; the
  reading loop of a reservation ends because every chunk brings it closer to the byte limit; the
  write and read-back loops of a staging end because every accepted call moves the offset; the
  worker loop runs on its list of ticks, and is shown to end once there are more of them than
  the jobs that may still be leased and their attempts left together.
  No other recursion needs a bound.

  \<^bold>\<open>Not modelled.\<close> The verification report and the wrapper with its process-local tokens, subclass
  tests, the observation frame, transition semantics and evidence profile of a snapshot and the digests
  that bind it to them and to its domain (they are the parameters of \<^verbatim>\<open>identity_binding\<close>), locks and
  file descriptors beyond whether closing them fails, and the components the manifest lists as not
  modelled: file and process I/O, numerical and learning code, command-line glue.
\<close>

end
